(* ===== verification/Tensor_Prelude.thy ===== *)
theory Tensor_Prelude
  imports Main "HOL-Library.Word"
begin

text \<open>
  Shared vocabulary of the development: the machine types, the nullable pointers and C strings
  of the source, the status codes of \<open>include/runtime_syscall.h\<close>, and generic lemmas on the
  two loop shapes that the kernel uses on its fixed-size tables (find the first matching slot,
  update every matching slot).
\<close>

unbundle bit_operations_syntax

section \<open>Machine types and pointers\<close>

type_synonym u8 = "8 word"
type_synonym u16 = "16 word"
type_synonym u32 = "32 word"
type_synonym u64 = "64 word"

text \<open>
  A pointer parameter that the source compares with \<open>NULL\<close> is an option: \<open>None\<close> is the null
  pointer, \<open>Some x\<close> a pointer to a cell that holds \<open>x\<close>. Out-parameters come back updated.
\<close>

type_synonym 'a ptr = "'a option"

definition UINT32_MAX :: nat where
  "UINT32_MAX = 2 ^ 32 - 1"

text \<open>\<open>uint32_t\<close> arithmetic on counts kept as \<^typ>\<open>nat\<close>, with the wrap-around written out.\<close>

definition u32_add :: "nat \<Rightarrow> nat \<Rightarrow> nat" where
  "u32_add a b = (a + b) mod 2 ^ 32"

lemma u32_add_small: "a + b < 2 ^ 32 \<Longrightarrow> u32_add a b = a + b"
  by (simp add: u32_add_def)

lemma u32_add_less [simp]: "u32_add a b < 2 ^ 32"
  by (simp add: u32_add_def)

section \<open>Status codes\<close>

text \<open>The values of \<open>enum runtime_syscall_status\<close>, as the \<open>int32_t\<close> results carry them.\<close>

abbreviation (input) RUNTIME_SYSCALL_STATUS_OK :: int where "RUNTIME_SYSCALL_STATUS_OK \<equiv> 0"
abbreviation (input) RUNTIME_SYSCALL_STATUS_ENOENT :: int where "RUNTIME_SYSCALL_STATUS_ENOENT \<equiv> - 2"
abbreviation (input) RUNTIME_SYSCALL_STATUS_ESRCH :: int where "RUNTIME_SYSCALL_STATUS_ESRCH \<equiv> - 3"
abbreviation (input) RUNTIME_SYSCALL_STATUS_EBADF :: int where "RUNTIME_SYSCALL_STATUS_EBADF \<equiv> - 9"
abbreviation (input) RUNTIME_SYSCALL_STATUS_ENOMEM :: int where "RUNTIME_SYSCALL_STATUS_ENOMEM \<equiv> - 12"
abbreviation (input) RUNTIME_SYSCALL_STATUS_EACCES :: int where "RUNTIME_SYSCALL_STATUS_EACCES \<equiv> - 13"
abbreviation (input) RUNTIME_SYSCALL_STATUS_EBUSY :: int where "RUNTIME_SYSCALL_STATUS_EBUSY \<equiv> - 16"
abbreviation (input) RUNTIME_SYSCALL_STATUS_EEXIST :: int where "RUNTIME_SYSCALL_STATUS_EEXIST \<equiv> - 17"
abbreviation (input) RUNTIME_SYSCALL_STATUS_ENOTDIR :: int where "RUNTIME_SYSCALL_STATUS_ENOTDIR \<equiv> - 20"
abbreviation (input) RUNTIME_SYSCALL_STATUS_EISDIR :: int where "RUNTIME_SYSCALL_STATUS_EISDIR \<equiv> - 21"
abbreviation (input) RUNTIME_SYSCALL_STATUS_EINVAL :: int where "RUNTIME_SYSCALL_STATUS_EINVAL \<equiv> - 22"
abbreviation (input) RUNTIME_SYSCALL_STATUS_ENOSPC :: int where "RUNTIME_SYSCALL_STATUS_ENOSPC \<equiv> - 28"
abbreviation (input) RUNTIME_SYSCALL_STATUS_ENOSYS :: int where "RUNTIME_SYSCALL_STATUS_ENOSYS \<equiv> - 38"
abbreviation (input) RUNTIME_SYSCALL_STATUS_ENOTEMPTY :: int where "RUNTIME_SYSCALL_STATUS_ENOTEMPTY \<equiv> - 39"
abbreviation (input) RUNTIME_SYSCALL_STATUS_ENOTSUP :: int where "RUNTIME_SYSCALL_STATUS_ENOTSUP \<equiv> - 95"

section \<open>C strings\<close>

text \<open>
  A \<open>const char *\<close> argument is the \<^typ>\<open>string\<close> of the bytes from the pointer on; reading at or
  past its end gives the terminator, and an embedded zero byte ends the string as in C. A
  \<open>char name[n]\<close> field is a list of \<open>n\<close> characters; \<open>cstr\<close> is the string that it holds.
\<close>

abbreviation NUL :: char where "NUL \<equiv> CHR 0x00"

definition cchar :: "string \<Rightarrow> nat \<Rightarrow> char" where
  "cchar s i = (if i < length s then s ! i else NUL)"

definition cstr :: "string \<Rightarrow> string" where
  "cstr s = takeWhile (\<lambda>c. c \<noteq> NUL) s"

lemma cchar_Nil [simp]: "cchar [] i = NUL"
  by (simp add: cchar_def)

lemma cchar_Cons_0 [simp]: "cchar (c # s) 0 = c"
  by (simp add: cchar_def)

lemma cchar_Cons_Suc [simp]: "cchar (c # s) (Suc i) = cchar s i"
  by (simp add: cchar_def)

lemma cstr_Nil [simp]: "cstr [] = []"
  by (simp add: cstr_def)

lemma cstr_Cons [simp]: "cstr (c # s) = (if c = NUL then [] else c # cstr s)"
  by (simp add: cstr_def)

lemma NUL_notin_cstr [simp]: "NUL \<notin> set (cstr s)"
  by (auto simp: cstr_def dest: set_takeWhileD)

lemma cstr_id: "NUL \<notin> set s \<Longrightarrow> cstr s = s"
  by (auto simp: cstr_def takeWhile_eq_all_conv)

lemma cstr_cstr [simp]: "cstr (cstr s) = cstr s"
  by (simp add: cstr_id)

lemma cstr_append_NUL: "NUL \<notin> set s \<Longrightarrow> cstr (s @ NUL # t) = s"
  by (induction s) auto

section \<open>The first slot of a table that satisfies a test\<close>

definition first_index :: "('a \<Rightarrow> bool) \<Rightarrow> 'a list \<Rightarrow> nat option" where
  "first_index P xs = find (\<lambda>i. P (xs ! i)) [0..<length xs]"

lemma first_index_Some:
  "first_index P xs = Some i \<longleftrightarrow> i < length xs \<and> P (xs ! i) \<and> (\<forall>j<i. \<not> P (xs ! j))"
  by (auto simp: first_index_def find_Some_iff)

lemma first_index_None: "first_index P xs = None \<longleftrightarrow> (\<forall>i<length xs. \<not> P (xs ! i))"
  by (auto simp: first_index_def find_None_iff)

lemma first_index_bound: "first_index P xs = Some i \<Longrightarrow> i < length xs"
  by (simp add: first_index_Some)

text \<open>The same search in cyclic order, starting at slot \<open>start mod length xs\<close>.\<close>

definition first_index_cyclic :: "('a \<Rightarrow> bool) \<Rightarrow> 'a list \<Rightarrow> nat \<Rightarrow> nat option" where
  "first_index_cyclic P xs start =
     find (\<lambda>i. P (xs ! i)) (map (\<lambda>offset. (start + offset) mod length xs) [0..<length xs])"

lemma cyclic_cover:
  assumes "i < (n::nat)"
  obtains d where "d < n" and "(start + d) mod n = i"
proof -
  let ?r = "start mod n"
  have r: "?r < n" using assms by simp
  show thesis
  proof (cases "?r \<le> i")
    case True
    have "(start + (i - ?r)) mod n = (?r + (i - ?r)) mod n" by (simp add: mod_add_left_eq)
    also have "\<dots> = i" using True assms by simp
    finally show thesis using that [of "i - ?r"] assms by simp
  next
    case False
    have "(start + (i + n - ?r)) mod n = (?r + (i + n - ?r)) mod n"
      by (simp only: mod_add_left_eq)
    also have "?r + (i + n - ?r) = i + n" using r by linarith
    also have "(i + n) mod n = i" using assms by simp
    finally show thesis using that [of "i + n - ?r"] False r by simp
  qed
qed

lemma first_index_cyclic_None:
  "first_index_cyclic P xs start = None \<longleftrightarrow> (\<forall>i<length xs. \<not> P (xs ! i))"
  (is "?L \<longleftrightarrow> ?R")
proof
  assume L: ?L
  show ?R
  proof (intro allI impI)
    fix i assume "i < length xs"
    then obtain d where "d < length xs" and "(start + d) mod length xs = i"
      by (rule cyclic_cover)
    with L show "\<not> P (xs ! i)" by (auto simp: first_index_cyclic_def find_None_iff)
  qed
next
  assume R: ?R
  have "(start + d) mod length xs < length xs" if "d < length xs" for d
    using that by (intro mod_less_divisor) auto
  with R show ?L by (auto simp: first_index_cyclic_def find_None_iff)
qed

lemma first_index_cyclic_Some:
  "first_index_cyclic P xs start = Some i \<longleftrightarrow>
     (\<exists>d<length xs. i = (start + d) mod length xs \<and> P (xs ! i) \<and>
        (\<forall>e<d. \<not> P (xs ! ((start + e) mod length xs))))"
  by (auto simp: first_index_cyclic_def find_Some_iff)

lemma first_index_cyclic_SomeD:
  assumes "first_index_cyclic P xs start = Some i"
  shows "i < length xs" and "P (xs ! i)"
  using assms by (auto simp: first_index_cyclic_Some intro!: mod_less_divisor)

section \<open>Updating every slot of a table that satisfies a test\<close>

text \<open>
  The loop \<open>for (index = 0; index < n; ++index) if (sel(xs[index])) { xs[index] = f(xs[index]);
  ++count; }\<close>: the new table and the count.
\<close>

definition update_where :: "('a \<Rightarrow> bool) \<Rightarrow> ('a \<Rightarrow> 'a) \<Rightarrow> 'a list \<Rightarrow> 'a list \<times> nat" where
  "update_where sel f xs =
     fold (\<lambda>i (ys, n). if sel (ys ! i) then (ys[i := f (ys ! i)], Suc n) else (ys, n))
       [0..<length xs] (xs, 0)"

lemma update_where_prefix:
  "k \<le> length xs \<Longrightarrow>
   fold (\<lambda>i (ys, n). if sel (ys ! i) then (ys[i := f (ys ! i)], Suc n) else (ys, n))
     [0..<k] (xs, 0) =
   (map (\<lambda>x. if sel x then f x else x) (take k xs) @ drop k xs, length (filter sel (take k xs)))"
proof (induction k)
  case 0
  then show ?case by simp
next
  case (Suc k)
  then have k: "k < length xs" by simp
  have "(map (\<lambda>x. if sel x then f x else x) (take k xs) @ drop k xs) ! k = xs ! k"
    using k by (simp add: nth_append)
  with Suc k show ?case
    by (simp add: take_Suc_conv_app_nth list_update_append Cons_nth_drop_Suc [symmetric])
qed

lemma update_where_eq:
  "update_where sel f xs =
     (map (\<lambda>x. if sel x then f x else x) xs, length (filter sel xs))"
  by (simp add: update_where_def update_where_prefix)

section \<open>Lists updated in place\<close>

lemma nth_list_update_if:
  "xs[i := v] ! j = (if i = j \<and> i < length xs then v else xs ! j)"
  by (cases "i < length xs") (auto simp: list_update_beyond)

section \<open>Copy loops over arrays\<close>

lemma length_fold_update [simp]: "length (fold (\<lambda>i d. d[f i := g i]) is d) = length d"
  by (induction "is" arbitrary: d) simp_all

lemma nth_fold_update:
  "fold (\<lambda>i d. d[a + i := g i]) [0..<n] d ! j =
     (if a \<le> j \<and> j < a + n \<and> j < length d then g (j - a) else d ! j)"
proof (induction n)
  case (Suc n)
  then show ?case
    by (auto simp: nth_list_update_if less_Suc_eq)
qed auto

lemma fold_update_0: "fold (\<lambda>i d. d[i := g i]) [0..<n] d = map g [0..<min n (length d)] @ drop n d"
proof (rule nth_equalityI)
  fix j
  assume "j < length (fold (\<lambda>i d. d[i := g i]) [0..<n] d)"
  then show "fold (\<lambda>i d. d[i := g i]) [0..<n] d ! j = (map g [0..<min n (length d)] @ drop n d) ! j"
    using nth_fold_update [of 0 g n d j] by (auto simp: nth_append min_def)
qed simp

lemma word_less_Suc:
  fixes a x :: u32
  assumes "x \<le> a" and "a + 1 \<noteq> 0"
  shows "x < a + 1"
proof -
  have "unat a + 1 < 2 ^ 32"
  proof (rule ccontr)
    assume "\<not> unat a + 1 < 2 ^ 32"
    moreover have "unat a < 2 ^ 32" using unsigned_less [of a] by simp
    ultimately have "unat a + 1 = 2 ^ 32" by simp
    then have "unat (a + 1) = 0" by (simp add: unat_word_ariths)
    with assms(2) show False by (simp add: unat_eq_zero)
  qed
  then have "unat (a + 1) = unat a + 1" by (simp add: unat_word_ariths)
  with assms(1) show ?thesis by (simp add: word_less_nat_alt word_le_nat_alt)
qed

section \<open>Small numbers as words\<close>

lemma unat_small: "n < 2 ^ 32 \<Longrightarrow> unat (of_nat n :: u32) = n"
  by (simp add: unat_of_nat take_bit_nat_eq_self)

lemma sint_small: "n < 2 ^ 31 \<Longrightarrow> sint (of_nat n :: u32) = int n"
  by (simp add: signed_of_nat signed_take_bit_int_eq_self)

end
