(* ===== verification/Preempt.thy ===== *)
theory Preempt
  imports Tensor_Prelude
begin

text \<open>
  The deferred-preemption state of \<open>kernel/preempt.c\<close>. The build switch
  \<open>CONFIG_SCHEDULER_PREEMPTIVE\<close> and the answer of the target hook
  \<open>scheduler_target_preempt_capable\<close> are arguments; the target's safe-point hook has an empty body.
\<close>

record scheduler_preempt_state =
  pe_pending :: u32
  pe_tick_count :: u32
  pe_disable_depth :: u32

definition scheduler_preempt_init :: scheduler_preempt_state where
  "scheduler_preempt_init = \<lparr>pe_pending = 0, pe_tick_count = 0, pe_disable_depth = 0\<rparr>"

definition scheduler_preempt_on_timer_tick :: "bool \<Rightarrow> scheduler_preempt_state \<Rightarrow> scheduler_preempt_state" where
  "scheduler_preempt_on_timer_tick preemptive p =
     (let p = p\<lparr>pe_tick_count := pe_tick_count p + 1\<rparr> in
      if preemptive then p\<lparr>pe_pending := 1\<rparr> else p)"

definition scheduler_preempt_supported :: "bool \<Rightarrow> bool" where
  "scheduler_preempt_supported preemptive = preemptive"

definition scheduler_preempt_target_capable :: "bool \<Rightarrow> bool" where
  "scheduler_preempt_target_capable capable = capable"

definition scheduler_preempt_pending :: "scheduler_preempt_state \<Rightarrow> bool" where
  "scheduler_preempt_pending p \<longleftrightarrow> pe_pending p \<noteq> 0"

definition scheduler_preempt_clear_pending :: "scheduler_preempt_state \<Rightarrow> scheduler_preempt_state" where
  "scheduler_preempt_clear_pending p = p\<lparr>pe_pending := 0\<rparr>"

definition scheduler_maybe_preempt_at_safe_point ::
  "bool \<Rightarrow> bool \<Rightarrow> scheduler_preempt_state \<Rightarrow> bool \<times> scheduler_preempt_state" where
  "scheduler_maybe_preempt_at_safe_point preemptive capable p =
     (if \<not> scheduler_preempt_supported preemptive then (False, p)
      else if \<not> scheduler_preempt_pending p then (False, p)
      else if pe_disable_depth p \<noteq> 0 then (False, p)
      else if \<not> scheduler_preempt_target_capable capable then (False, p)
      else (True, p\<lparr>pe_pending := 0\<rparr>))"

definition preempt_disable :: "scheduler_preempt_state \<Rightarrow> scheduler_preempt_state" where
  "preempt_disable p = p\<lparr>pe_disable_depth := pe_disable_depth p + 1\<rparr>"

definition preempt_enable :: "bool \<Rightarrow> bool \<Rightarrow> scheduler_preempt_state \<Rightarrow> scheduler_preempt_state" where
  "preempt_enable preemptive capable p =
     (if pe_disable_depth p = 0 then p
      else let p = p\<lparr>pe_disable_depth := pe_disable_depth p - 1\<rparr> in
        if pe_disable_depth p = 0 then snd (scheduler_maybe_preempt_at_safe_point preemptive capable p)
        else p)"

definition preempt_disable_depth :: "scheduler_preempt_state \<Rightarrow> u32" where
  "preempt_disable_depth p = pe_disable_depth p"

definition scheduler_preempt_tick_count :: "scheduler_preempt_state \<Rightarrow> u32" where
  "scheduler_preempt_tick_count p = pe_tick_count p"

definition scheduler_preempt_status_name :: "bool \<Rightarrow> bool \<Rightarrow> scheduler_preempt_state \<Rightarrow> string" where
  "scheduler_preempt_status_name preemptive capable p =
     (if \<not> scheduler_preempt_supported preemptive then ''cooperative_only''
      else if \<not> scheduler_preempt_target_capable capable then ''preempt_target_hook_missing''
      else if pe_disable_depth p \<noteq> 0 then ''preempt_deferred_critical_section''
      else if scheduler_preempt_pending p then ''preempt_pending_safe_point''
      else ''preempt_safe_point_idle'')"

section \<open>Critical sections\<close>

text \<open>Nested sections, written as the sequence of entering (\<open>True\<close>) and leaving (\<open>False\<close>).\<close>

fun run_sections :: "bool \<Rightarrow> bool \<Rightarrow> bool list \<Rightarrow> scheduler_preempt_state \<Rightarrow> scheduler_preempt_state" where
  "run_sections preemptive capable [] p = p"
| "run_sections preemptive capable (True # xs) p = run_sections preemptive capable xs (preempt_disable p)"
| "run_sections preemptive capable (False # xs) p =
     run_sections preemptive capable xs (preempt_enable preemptive capable p)"

inductive balanced :: "bool list \<Rightarrow> bool" where
  balanced_Nil: "balanced []"
| balanced_wrap: "balanced xs \<Longrightarrow> balanced ys \<Longrightarrow> balanced (True # xs @ False # ys)"

lemma run_sections_append:
  "run_sections a b (xs @ ys) p = run_sections a b ys (run_sections a b xs p)"
  by (induction a b xs p rule: run_sections.induct) auto

lemma depth_wrap: "unat (pe_disable_depth p) + length xs < 2 ^ 32 \<Longrightarrow> xs \<noteq> [] \<Longrightarrow> pe_disable_depth p + 1 \<noteq> 0"
  for p :: scheduler_preempt_state
proof -
  assume "unat (pe_disable_depth p) + length xs < 2 ^ 32" and "xs \<noteq> []"
  then have "unat (pe_disable_depth p) + 1 < 2 ^ 32" by (cases xs) auto
  then have "unat (pe_disable_depth p + 1) = unat (pe_disable_depth p) + 1"
    by (simp add: unat_word_ariths)
  then show ?thesis by (metis add_is_0 one_neq_zero unat_0)
qed

lemma preempt_enable_depth:
  assumes "pe_disable_depth p = d + 1" and "d + 1 \<noteq> 0"
  shows "pe_disable_depth (preempt_enable a b p) = d"
    and "pe_pending (preempt_enable a b p) = (if d = 0 \<and> a \<and> b then 0 else pe_pending p)"
    and "pe_tick_count (preempt_enable a b p) = pe_tick_count p"
  using assms
  by (auto simp: preempt_enable_def scheduler_maybe_preempt_at_safe_point_def scheduler_preempt_supported_def
      scheduler_preempt_pending_def scheduler_preempt_target_capable_def Let_def)

lemma sections_keep_depth:
  assumes "balanced xs" and "unat (pe_disable_depth p) + length xs < 2 ^ 32"
  shows "pe_disable_depth (run_sections a b xs p) = pe_disable_depth p \<and>
    pe_tick_count (run_sections a b xs p) = pe_tick_count p \<and>
    pe_pending (run_sections a b xs p) =
      (if pe_disable_depth p = 0 \<and> xs \<noteq> [] \<and> a \<and> b then 0 else pe_pending p)"
  using assms
proof (induction arbitrary: p rule: balanced.induct)
  case (balanced_wrap xs ys)
  let ?p1 = "preempt_disable p" and ?d = "pe_disable_depth p"
  have d1: "pe_disable_depth ?p1 = ?d + 1" "pe_pending ?p1 = pe_pending p" "pe_tick_count ?p1 = pe_tick_count p"
    by (simp_all add: preempt_disable_def)
  have nz: "?d + 1 \<noteq> 0" using depth_wrap [OF balanced_wrap.prems] by simp
  have "unat (?d + 1) \<le> unat ?d + 1"
    using mod_less_eq_dividend [of "unat ?d + 1" "2 ^ 32"] by (simp add: unat_word_ariths)
  then have "unat (pe_disable_depth ?p1) + length xs < 2 ^ 32" using d1 balanced_wrap.prems by simp
  note in1 = balanced_wrap.IH(1) [OF this]
  let ?p2 = "run_sections a b xs ?p1"
  have p2: "pe_disable_depth ?p2 = ?d + 1" "pe_pending ?p2 = pe_pending p" "pe_tick_count ?p2 = pe_tick_count p"
    using in1 d1 nz by auto
  let ?p3 = "preempt_enable a b ?p2"
  have p3: "pe_disable_depth ?p3 = ?d" "pe_pending ?p3 = (if ?d = 0 \<and> a \<and> b then 0 else pe_pending p)"
      "pe_tick_count ?p3 = pe_tick_count p"
    using preempt_enable_depth [OF p2(1) nz, of a b] p2(2,3) by auto
  have "unat (pe_disable_depth ?p3) + length ys < 2 ^ 32" using p3(1) balanced_wrap.prems by simp
  from balanced_wrap.IH(2) [OF this] p3 show ?case
    by (cases "?d = 0 \<and> a \<and> b") (auto simp: run_sections_append)
qed simp

text \<open>C15: as long as the 32-bit depth does not wrap, any sequence of properly nested and closed
  critical sections leaves the disable depth and the tick count as they were. A pending preemption
  stays pending when the sequence runs inside an open section, in a cooperative build and on a target
  that is not capable; otherwise the last enable of an outermost section consumes it.\<close>

theorem critical_sections_nest:
  assumes "balanced xs" and "unat (pe_disable_depth p) + length xs < 2 ^ 32"
  shows "preempt_disable_depth (run_sections preemptive capable xs p) = preempt_disable_depth p \<and>
    scheduler_preempt_tick_count (run_sections preemptive capable xs p) = scheduler_preempt_tick_count p \<and>
    (scheduler_preempt_pending (run_sections preemptive capable xs p) \<longleftrightarrow> scheduler_preempt_pending p \<and>
      \<not> (preempt_disable_depth p = 0 \<and> xs \<noteq> [] \<and> preemptive \<and> capable))"
  using sections_keep_depth [OF assms]
  by (auto simp: preempt_disable_depth_def scheduler_preempt_tick_count_def scheduler_preempt_pending_def)

theorem critical_sections_nest_witness:
  "scheduler_preempt_pending (run_sections True True [True, False]
     (scheduler_preempt_on_timer_tick True (preempt_disable scheduler_preempt_init))) \<and>
   \<not> scheduler_preempt_pending (run_sections True True [True, False]
     (scheduler_preempt_on_timer_tick True scheduler_preempt_init))"
proof -
  let ?p = "scheduler_preempt_on_timer_tick True (preempt_disable scheduler_preempt_init)"
  let ?q = "scheduler_preempt_on_timer_tick True scheduler_preempt_init"
  have "balanced (True # [] @ False # [])" by (intro balanced.intros)
  moreover have "unat (pe_disable_depth ?p) + length [True, False] < 2 ^ 32"
      "unat (pe_disable_depth ?q) + length [True, False] < 2 ^ 32"
    by (simp_all add: scheduler_preempt_on_timer_tick_def preempt_disable_def scheduler_preempt_init_def)
  moreover have "preempt_disable_depth ?p \<noteq> 0" "scheduler_preempt_pending ?p" "preempt_disable_depth ?q = 0"
    by code_simp+
  ultimately show ?thesis
    using critical_sections_nest [of "[True, False]" ?p True True] critical_sections_nest [of "[True, False]" ?q True True]
    by simp
qed

end
