(* ===== verification/Runtime_Ui.thy ===== *)
theory Runtime_Ui
  imports Tensor_Prelude
begin

text \<open>
  The events and timers of the user interface, \<open>kernel/runtime_ui.c\<close>, and the services on top of them,
  \<open>kernel/runtime_input.c\<close> and \<open>kernel/runtime_display.c\<close>. The event queue is a ring of 16 entries and implements the
  interface of a bounded queue, for which the facts that its clients need are proved once; the timer table implements a
  finite map from an owner and a token to a tick.
\<close>

unbundle bit_operations_syntax

section \<open>Data (include/runtime_ui.h)\<close>

definition RUNTIME_UI_EVENT_QUEUE_CAPACITY :: nat where "RUNTIME_UI_EVENT_QUEUE_CAPACITY = 16"
definition RUNTIME_UI_TIMER_CAPACITY :: nat where "RUNTIME_UI_TIMER_CAPACITY = 8"

definition RUNTIME_UI_EVENT_NONE :: u32 where "RUNTIME_UI_EVENT_NONE = 0"
definition RUNTIME_UI_EVENT_INPUT_KEY :: u32 where "RUNTIME_UI_EVENT_INPUT_KEY = 1"
definition RUNTIME_UI_EVENT_INPUT_POINTER_MOVE :: u32 where "RUNTIME_UI_EVENT_INPUT_POINTER_MOVE = 2"
definition RUNTIME_UI_EVENT_INPUT_POINTER_BUTTON :: u32 where "RUNTIME_UI_EVENT_INPUT_POINTER_BUTTON = 3"
definition RUNTIME_UI_EVENT_FOCUS :: u32 where "RUNTIME_UI_EVENT_FOCUS = 4"
definition RUNTIME_UI_EVENT_TIMER :: u32 where "RUNTIME_UI_EVENT_TIMER = 5"

record runtime_ui_event =
  ue_type :: u32
  ue_target_pid :: u32
  ue_tick :: u32
  ue_arg0 :: u32
  ue_arg1 :: u32
  ue_arg2 :: u32

record runtime_ui_event_queue =
  uq_events :: "runtime_ui_event list"
  uq_read_index :: nat
  uq_count :: nat

record runtime_ui_timer_entry =
  ut_owner_pid :: u32
  ut_due_tick :: u32
  ut_token :: u32
  ut_active :: u8

type_synonym runtime_ui_timer_table = "runtime_ui_timer_entry list"

section \<open>The event queue\<close>

text \<open>The capacity divides \<open>2 ^ 32\<close>, so the sum needs no wrap-around.\<close>

definition runtime_ui_event_queue_write_index :: "runtime_ui_event_queue \<Rightarrow> nat" where
  "runtime_ui_event_queue_write_index queue = (uq_read_index queue + uq_count queue) mod RUNTIME_UI_EVENT_QUEUE_CAPACITY"

definition runtime_ui_event_queue_init :: "runtime_ui_event_queue ptr \<Rightarrow> runtime_ui_event_queue ptr" where
  "runtime_ui_event_queue_init queue = map_option (\<lambda>q. q\<lparr>uq_read_index := 0, uq_count := 0\<rparr>) queue"

definition runtime_ui_event_push ::
  "runtime_ui_event_queue ptr \<Rightarrow> runtime_ui_event ptr \<Rightarrow> int \<times> runtime_ui_event_queue ptr" where
  "runtime_ui_event_push queue event =
     (case (queue, event) of
        (Some q, Some e) \<Rightarrow>
          (if ue_type e = RUNTIME_UI_EVENT_NONE then (RUNTIME_SYSCALL_STATUS_EINVAL, queue)
           else if uq_count q \<ge> RUNTIME_UI_EVENT_QUEUE_CAPACITY then (RUNTIME_SYSCALL_STATUS_ENOSPC, queue)
           else (RUNTIME_SYSCALL_STATUS_OK,
             Some (q\<lparr>uq_events := (uq_events q)[runtime_ui_event_queue_write_index q := e], uq_count := uq_count q + 1\<rparr>)))
      | _ \<Rightarrow> (RUNTIME_SYSCALL_STATUS_EINVAL, queue))"

definition runtime_ui_event_peek :: "runtime_ui_event_queue ptr \<Rightarrow> runtime_ui_event ptr \<Rightarrow> int \<times> runtime_ui_event ptr" where
  "runtime_ui_event_peek queue event =
     (case (queue, event) of
        (Some q, Some _) \<Rightarrow>
          (if uq_count q = 0 then (RUNTIME_SYSCALL_STATUS_ENOENT, event)
           else (RUNTIME_SYSCALL_STATUS_OK, Some (uq_events q ! uq_read_index q)))
      | _ \<Rightarrow> (RUNTIME_SYSCALL_STATUS_EINVAL, event))"

definition runtime_ui_event_pop ::
  "runtime_ui_event_queue ptr \<Rightarrow> runtime_ui_event ptr \<Rightarrow> int \<times> runtime_ui_event_queue ptr \<times> runtime_ui_event ptr" where
  "runtime_ui_event_pop queue event =
     (let (status, event) = runtime_ui_event_peek queue event in
      if status \<noteq> RUNTIME_SYSCALL_STATUS_OK then (status, queue, event)
      else (RUNTIME_SYSCALL_STATUS_OK,
        map_option (\<lambda>q. q\<lparr>uq_read_index := (uq_read_index q + 1) mod RUNTIME_UI_EVENT_QUEUE_CAPACITY, uq_count := uq_count q - 1\<rparr>) queue,
        event))"

section \<open>The timer table\<close>

definition cleared_timer :: "runtime_ui_timer_entry \<Rightarrow> runtime_ui_timer_entry" where
  "cleared_timer e = e\<lparr>ut_owner_pid := 0, ut_due_tick := 0, ut_token := 0, ut_active := 0\<rparr>"

definition runtime_ui_timer_table_init :: "runtime_ui_timer_table ptr \<Rightarrow> runtime_ui_timer_table ptr" where
  "runtime_ui_timer_table_init table = map_option (map cleared_timer) table"

definition timer_of :: "u32 \<Rightarrow> u32 \<Rightarrow> runtime_ui_timer_entry \<Rightarrow> bool" where
  "timer_of owner_pid token e \<longleftrightarrow> ut_active e \<noteq> 0 \<and> ut_owner_pid e = owner_pid \<and> ut_token e = token"

definition runtime_ui_timer_arm :: "runtime_ui_timer_table ptr \<Rightarrow> u32 \<Rightarrow> u32 \<Rightarrow> u32 \<Rightarrow> int \<times> runtime_ui_timer_table ptr" where
  "runtime_ui_timer_arm table owner_pid due_tick token =
     (case table of
        None \<Rightarrow> (RUNTIME_SYSCALL_STATUS_EINVAL, table)
      | Some t \<Rightarrow>
          (if owner_pid = 0 then (RUNTIME_SYSCALL_STATUS_EINVAL, table)
           else case first_index (timer_of owner_pid token) t of
             Some i \<Rightarrow> (RUNTIME_SYSCALL_STATUS_OK, Some (t[i := (t ! i)\<lparr>ut_due_tick := due_tick\<rparr>]))
           | None \<Rightarrow>
               (case first_index (\<lambda>e. ut_active e = 0) t of
                  Some i \<Rightarrow> (RUNTIME_SYSCALL_STATUS_OK, Some (t[i := (t ! i)\<lparr>ut_owner_pid := owner_pid, ut_due_tick := due_tick,
                    ut_token := token, ut_active := 1\<rparr>]))
                | None \<Rightarrow> (RUNTIME_SYSCALL_STATUS_ENOSPC, table))))"

definition runtime_ui_timer_cancel :: "runtime_ui_timer_table ptr \<Rightarrow> u32 \<Rightarrow> u32 \<Rightarrow> int \<times> runtime_ui_timer_table ptr" where
  "runtime_ui_timer_cancel table owner_pid token =
     (case table of
        None \<Rightarrow> (RUNTIME_SYSCALL_STATUS_EINVAL, table)
      | Some t \<Rightarrow>
          (if owner_pid = 0 then (RUNTIME_SYSCALL_STATUS_EINVAL, table)
           else case first_index (timer_of owner_pid token) t of
             Some i \<Rightarrow> (RUNTIME_SYSCALL_STATUS_OK, Some (t[i := cleared_timer (t ! i)]))
           | None \<Rightarrow> (RUNTIME_SYSCALL_STATUS_ENOENT, table)))"

text \<open>The loop of \<open>runtime_ui_timer_next_due\<close>: the best tick so far, if one was found.\<close>

definition better_due :: "runtime_ui_timer_entry \<Rightarrow> u32 option \<Rightarrow> u32 option" where
  "better_due e best =
     (if ut_active e = 0 then best
      else case best of None \<Rightarrow> Some (ut_due_tick e) | Some b \<Rightarrow> (if ut_due_tick e < b then Some (ut_due_tick e) else best))"

definition runtime_ui_timer_next_due :: "runtime_ui_timer_table ptr \<Rightarrow> u32 ptr \<Rightarrow> int \<times> u32 ptr" where
  "runtime_ui_timer_next_due table due_tick =
     (case (table, due_tick) of
        (Some t, Some _) \<Rightarrow>
          (case fold better_due t None of
             None \<Rightarrow> (RUNTIME_SYSCALL_STATUS_ENOENT, due_tick)
           | Some best_due \<Rightarrow> (RUNTIME_SYSCALL_STATUS_OK, Some best_due))
      | _ \<Rightarrow> (RUNTIME_SYSCALL_STATUS_EINVAL, due_tick))"

definition timer_event :: "u32 \<Rightarrow> runtime_ui_timer_entry \<Rightarrow> runtime_ui_event" where
  "timer_event current_tick e = \<lparr>ue_type = RUNTIME_UI_EVENT_TIMER, ue_target_pid = ut_owner_pid e, ue_tick = current_tick,
     ue_arg0 = ut_token e, ue_arg1 = ut_due_tick e, ue_arg2 = 0\<rparr>"

definition timer_is_due :: "u32 \<Rightarrow> runtime_ui_timer_entry \<Rightarrow> bool" where
  "timer_is_due current_tick e \<longleftrightarrow> \<not> (ut_active e = 0 \<or> ut_due_tick e > current_tick)"

fun collect_due_from :: "u32 \<Rightarrow> runtime_ui_timer_table \<Rightarrow> runtime_ui_event_queue ptr \<Rightarrow> nat \<times> runtime_ui_timer_table \<times> runtime_ui_event_queue ptr" where
  "collect_due_from current_tick [] queue = (0, [], queue)"
| "collect_due_from current_tick (e # rest) queue =
     (if \<not> timer_is_due current_tick e
      then (let (produced, t, queue) = collect_due_from current_tick rest queue in (produced, e # t, queue))
      else let (status, queue') = runtime_ui_event_push queue (Some (timer_event current_tick e)) in
        if status \<noteq> RUNTIME_SYSCALL_STATUS_OK then (0, e # rest, queue')
        else let (produced, t, queue'') = collect_due_from current_tick rest queue' in (Suc produced, cleared_timer e # t, queue''))"

definition runtime_ui_timer_collect_due ::
  "runtime_ui_timer_table ptr \<Rightarrow> u32 \<Rightarrow> runtime_ui_event_queue ptr \<Rightarrow> nat \<times> runtime_ui_timer_table ptr \<times> runtime_ui_event_queue ptr" where
  "runtime_ui_timer_collect_due table current_tick queue =
     (case (table, queue) of
        (Some t, Some q) \<Rightarrow> (let (produced, t, queue) = collect_due_from current_tick t queue in (produced, Some t, queue))
      | _ \<Rightarrow> (0, table, queue))"

section \<open>The input service (kernel/runtime_input.c)\<close>

definition RUNTIME_INPUT_REQUEST_FLAGS :: u32 where "RUNTIME_INPUT_REQUEST_FLAGS = 1"
definition RUNTIME_INPUT_REQUEST_DEPTH :: u32 where "RUNTIME_INPUT_REQUEST_DEPTH = 2"

record runtime_input_service =
  in_flags :: u32
  in_queue :: runtime_ui_event_queue

definition runtime_input_push ::
  "runtime_input_service ptr \<Rightarrow> u32 \<Rightarrow> u32 \<Rightarrow> u32 \<Rightarrow> u32 \<Rightarrow> u32 \<Rightarrow> u32 \<Rightarrow> int \<times> runtime_input_service ptr" where
  "runtime_input_push service type target_pid tick arg0 arg1 arg2 =
     (case service of
        None \<Rightarrow> (RUNTIME_SYSCALL_STATUS_EINVAL, service)
      | Some s \<Rightarrow>
          (let (status, queue) = runtime_ui_event_push (Some (in_queue s)) (Some \<lparr>ue_type = type, ue_target_pid = target_pid,
                 ue_tick = tick, ue_arg0 = arg0, ue_arg1 = arg1, ue_arg2 = arg2\<rparr>) in
           (status, map_option (\<lambda>q. s\<lparr>in_queue := q\<rparr>) queue)))"

definition runtime_input_service_init :: "runtime_input_service ptr \<Rightarrow> u32 \<Rightarrow> runtime_input_service ptr" where
  "runtime_input_service_init service flags =
     (case service of
        None \<Rightarrow> None
      | Some s \<Rightarrow> map_option (\<lambda>q. s\<lparr>in_flags := flags, in_queue := q\<rparr>) (runtime_ui_event_queue_init (Some (in_queue s))))"

definition runtime_input_service_request :: "runtime_input_service ptr \<Rightarrow> u32 \<Rightarrow> u32 ptr \<Rightarrow> int \<times> u32 ptr" where
  "runtime_input_service_request service request response =
     (case (service, response) of
        (Some s, Some _) \<Rightarrow>
          (if request = RUNTIME_INPUT_REQUEST_FLAGS then (RUNTIME_SYSCALL_STATUS_OK, Some (in_flags s))
           else if request = RUNTIME_INPUT_REQUEST_DEPTH then (RUNTIME_SYSCALL_STATUS_OK, Some (of_nat (uq_count (in_queue s))))
           else (RUNTIME_SYSCALL_STATUS_ENOSYS, response))
      | _ \<Rightarrow> (RUNTIME_SYSCALL_STATUS_EINVAL, response))"

definition runtime_input_push_key :: "runtime_input_service ptr \<Rightarrow> u32 \<Rightarrow> u32 \<Rightarrow> u32 \<Rightarrow> u32 \<Rightarrow> int \<times> runtime_input_service ptr" where
  "runtime_input_push_key service target_pid tick keycode pressed =
     runtime_input_push service RUNTIME_UI_EVENT_INPUT_KEY target_pid tick keycode pressed 0"

definition runtime_input_push_pointer_move :: "runtime_input_service ptr \<Rightarrow> u32 \<Rightarrow> u32 \<Rightarrow> u32 \<Rightarrow> u32 \<Rightarrow> int \<times> runtime_input_service ptr" where
  "runtime_input_push_pointer_move service target_pid tick x y =
     runtime_input_push service RUNTIME_UI_EVENT_INPUT_POINTER_MOVE target_pid tick x y 0"

definition runtime_input_push_pointer_button :: "runtime_input_service ptr \<Rightarrow> u32 \<Rightarrow> u32 \<Rightarrow> u32 \<Rightarrow> u32 \<Rightarrow> int \<times> runtime_input_service ptr" where
  "runtime_input_push_pointer_button service target_pid tick button pressed =
     runtime_input_push service RUNTIME_UI_EVENT_INPUT_POINTER_BUTTON target_pid tick button pressed 0"

definition runtime_input_push_focus :: "runtime_input_service ptr \<Rightarrow> u32 \<Rightarrow> u32 \<Rightarrow> u32 \<Rightarrow> int \<times> runtime_input_service ptr" where
  "runtime_input_push_focus service target_pid tick focused =
     runtime_input_push service RUNTIME_UI_EVENT_FOCUS target_pid tick focused 0 0"

definition runtime_input_pop ::
  "runtime_input_service ptr \<Rightarrow> runtime_ui_event ptr \<Rightarrow> int \<times> runtime_input_service ptr \<times> runtime_ui_event ptr" where
  "runtime_input_pop service event =
     (case service of
        None \<Rightarrow> (RUNTIME_SYSCALL_STATUS_EINVAL, service, event)
      | Some s \<Rightarrow>
          (let (status, queue, event) = runtime_ui_event_pop (Some (in_queue s)) event in
           (status, map_option (\<lambda>q. s\<lparr>in_queue := q\<rparr>) queue, event)))"

section \<open>The display service (kernel/runtime_display.c)\<close>

definition RUNTIME_DISPLAY_REQUEST_INFO :: u32 where "RUNTIME_DISPLAY_REQUEST_INFO = 1"
definition RUNTIME_DISPLAY_REQUEST_FLAGS :: u32 where "RUNTIME_DISPLAY_REQUEST_FLAGS = 2"
definition RUNTIME_DISPLAY_REQUEST_PRESENT_COUNT :: u32 where "RUNTIME_DISPLAY_REQUEST_PRESENT_COUNT = 3"

record runtime_display_service =
  rd_width :: u16
  rd_height :: u16
  rd_flags :: u32
  rd_present_count :: u32

definition runtime_display_pack_geometry :: "u16 \<Rightarrow> u16 \<Rightarrow> u32" where
  "runtime_display_pack_geometry w h = push_bit 16 (ucast w) OR ucast h"

definition runtime_display_unpack_width :: "u32 \<Rightarrow> u16" where
  "runtime_display_unpack_width packed = ucast (drop_bit 16 packed)"

definition runtime_display_unpack_height :: "u32 \<Rightarrow> u16" where
  "runtime_display_unpack_height packed = ucast (packed AND 0xFFFF)"

definition runtime_display_service_init :: "runtime_display_service ptr \<Rightarrow> u16 \<Rightarrow> u16 \<Rightarrow> u32 \<Rightarrow> runtime_display_service ptr" where
  "runtime_display_service_init service w h flags =
     map_option (\<lambda>s. s\<lparr>rd_width := w, rd_height := h, rd_flags := flags, rd_present_count := 0\<rparr>) service"

definition runtime_display_service_mark_present :: "runtime_display_service ptr \<Rightarrow> runtime_display_service ptr" where
  "runtime_display_service_mark_present service =
     map_option (\<lambda>s. if rd_present_count s \<noteq> of_nat UINT32_MAX then s\<lparr>rd_present_count := rd_present_count s + 1\<rparr> else s) service"

definition runtime_display_service_request :: "runtime_display_service ptr \<Rightarrow> u32 \<Rightarrow> u32 ptr \<Rightarrow> int \<times> u32 ptr" where
  "runtime_display_service_request service request response =
     (case (service, response) of
        (Some s, Some _) \<Rightarrow>
          (if request = RUNTIME_DISPLAY_REQUEST_INFO
           then (RUNTIME_SYSCALL_STATUS_OK, Some (runtime_display_pack_geometry (rd_width s) (rd_height s)))
           else if request = RUNTIME_DISPLAY_REQUEST_FLAGS then (RUNTIME_SYSCALL_STATUS_OK, Some (rd_flags s))
           else if request = RUNTIME_DISPLAY_REQUEST_PRESENT_COUNT then (RUNTIME_SYSCALL_STATUS_OK, Some (rd_present_count s))
           else (RUNTIME_SYSCALL_STATUS_ENOSYS, response))
      | _ \<Rightarrow> (RUNTIME_SYSCALL_STATUS_EINVAL, response))"

end
