(* ===== verification/Runtime_Ui_Props.thy ===== *)
theory Runtime_Ui_Props
  imports Runtime_Ui
begin

text \<open>
  The interface of a bounded queue with the lemmas its clients use, its implementation by the event ring, and the timer table as a
  finite map. Collecting the timers that are due delivers their events in the order of the slots, as many as the queue has room for.
\<close>

section \<open>Bounded queues\<close>

locale bounded_queue =
  fixes contents :: "'q \<Rightarrow> 'e list"
    and ok :: "'q \<Rightarrow> bool"
    and valid :: "'e \<Rightarrow> bool"
    and push :: "'e \<Rightarrow> 'q \<Rightarrow> 'q option"
    and pop :: "'q \<Rightarrow> ('e \<times> 'q) option"
    and room :: nat
  assumes ok_length: "ok q \<Longrightarrow> length (contents q) \<le> room"
    and push_room: "ok q \<Longrightarrow> valid e \<Longrightarrow> length (contents q) < room \<Longrightarrow>
      \<exists>q'. push e q = Some q' \<and> ok q' \<and> contents q' = contents q @ [e]"
    and push_full: "ok q \<Longrightarrow> length (contents q) = room \<Longrightarrow> push e q = None"
    and pop_first: "ok q \<Longrightarrow> contents q = e # es \<Longrightarrow> \<exists>q'. pop q = Some (e, q') \<and> ok q' \<and> contents q' = es"
    and pop_empty: "ok q \<Longrightarrow> contents q = [] \<Longrightarrow> pop q = None"
begin

text \<open>Push events until one does not fit.\<close>

fun feed :: "'e list \<Rightarrow> 'q \<Rightarrow> nat \<times> 'q" where
  "feed [] q = (0, q)"
| "feed (e # es) q = (case push e q of None \<Rightarrow> (0, q) | Some q' \<Rightarrow> (case feed es q' of (n, q'') \<Rightarrow> (Suc n, q'')))"

fun drain :: "nat \<Rightarrow> 'q \<Rightarrow> 'e list \<times> 'q" where
  "drain 0 q = ([], q)"
| "drain (Suc n) q = (case pop q of None \<Rightarrow> ([], q) | Some (e, q') \<Rightarrow> (case drain n q' of (es, q'') \<Rightarrow> (e # es, q'')))"

lemma feed_spec:
  assumes "ok q" "\<forall>e \<in> set es. valid e"
  shows "\<exists>n q'. feed es q = (n, q') \<and> n = min (length es) (room - length (contents q)) \<and> ok q' \<and> contents q' = contents q @ take n es"
  using assms
proof (induction es arbitrary: q)
  case (Cons e es)
  show ?case
  proof (cases "length (contents q) < room")
    case True
    with Cons push_room [of q e] obtain q' where q': "push e q = Some q'" "ok q'" "contents q' = contents q @ [e]"
      by auto
    moreover from Cons.IH [OF q'(2)] Cons.prems obtain n q''
      where "feed es q' = (n, q'')" "n = min (length es) (room - length (contents q'))" "ok q''" "contents q'' = contents q' @ take n es"
      by auto
    ultimately show ?thesis
      using True by auto
  next
    case False
    with Cons.prems ok_length [of q] push_full [of q e] show ?thesis
      by simp
  qed
qed simp

lemma drain_spec:
  assumes "ok q"
  shows "\<exists>q'. drain n q = (take n (contents q), q') \<and> ok q' \<and> contents q' = drop n (contents q)"
  using assms
proof (induction n arbitrary: q)
  case (Suc n)
  show ?case
  proof (cases "contents q")
    case Nil
    with Suc pop_empty show ?thesis
      by simp
  next
    case (Cons e es)
    from pop_first [OF Suc.prems Cons] obtain q' where q': "pop q = Some (e, q')" "ok q'" "contents q' = es"
      by auto
    with Suc.IH [OF q'(2)] Cons show ?thesis
      by auto
  qed
qed simp

lemma fifo:
  assumes "ok q" "\<forall>e \<in> set es. valid e" "length (contents q) + length es \<le> room"
  shows "fst (drain (length (contents q) + length es) (snd (feed es q))) = contents q @ es"
proof -
  obtain n q' where "feed es q = (n, q')" "n = min (length es) (room - length (contents q))" "ok q'" "contents q' = contents q @ take n es"
    using feed_spec assms by blast
  with drain_spec [of q' "length (contents q) + length es"] assms(3) show ?thesis
    by auto
qed

end

section \<open>The event ring\<close>

definition ui_queue_ok :: "runtime_ui_event_queue \<Rightarrow> bool" where
  "ui_queue_ok q \<longleftrightarrow> length (uq_events q) = RUNTIME_UI_EVENT_QUEUE_CAPACITY \<and>
     uq_read_index q < RUNTIME_UI_EVENT_QUEUE_CAPACITY \<and> uq_count q \<le> RUNTIME_UI_EVENT_QUEUE_CAPACITY"

definition ui_events :: "runtime_ui_event_queue \<Rightarrow> runtime_ui_event list" where
  "ui_events q = map (\<lambda>i. uq_events q ! ((uq_read_index q + i) mod RUNTIME_UI_EVENT_QUEUE_CAPACITY)) [0..<uq_count q]"

definition ui_push :: "runtime_ui_event \<Rightarrow> runtime_ui_event_queue \<Rightarrow> runtime_ui_event_queue option" where
  "ui_push e q = (case runtime_ui_event_push (Some q) (Some e) of (status, q') \<Rightarrow> if status = RUNTIME_SYSCALL_STATUS_OK then q' else None)"

definition blank_event :: runtime_ui_event where
  "blank_event = \<lparr>ue_type = 0, ue_target_pid = 0, ue_tick = 0, ue_arg0 = 0, ue_arg1 = 0, ue_arg2 = 0\<rparr>"

definition ui_pop :: "runtime_ui_event_queue \<Rightarrow> (runtime_ui_event \<times> runtime_ui_event_queue) option" where
  "ui_pop q = (case runtime_ui_event_pop (Some q) (Some blank_event) of
     (status, Some q', Some e) \<Rightarrow> if status = RUNTIME_SYSCALL_STATUS_OK then Some (e, q') else None
   | _ \<Rightarrow> None)"

lemma ring_slots_differ:
  fixes r i n c :: nat
  assumes "i < n" "n < c"
  shows "(r + i) mod c \<noteq> (r + n) mod c"
proof
  assume "(r + i) mod c = (r + n) mod c"
  then have "c dvd (r + n) - (r + i)"
    using assms by (metis add_le_cancel_left less_imp_le mod_eq_dvd_iff_nat)
  with assms show False
    by (auto dest!: dvd_imp_le)
qed

lemma push_contents:
  fixes e :: runtime_ui_event
  assumes "ui_queue_ok q" "uq_count q < RUNTIME_UI_EVENT_QUEUE_CAPACITY"
  defines "q' \<equiv> q\<lparr>uq_events := (uq_events q)[runtime_ui_event_queue_write_index q := e], uq_count := uq_count q + 1\<rparr>"
  shows "ui_queue_ok q'" "ui_events q' = ui_events q @ [e]"
proof -
  show "ui_queue_ok q'"
    using assms by (simp add: ui_queue_ok_def)
  have w: "runtime_ui_event_queue_write_index q < length (uq_events q)"
    using assms(1) by (simp add: ui_queue_ok_def runtime_ui_event_queue_write_index_def RUNTIME_UI_EVENT_QUEUE_CAPACITY_def)
  have "(uq_read_index q + i) mod RUNTIME_UI_EVENT_QUEUE_CAPACITY \<noteq> runtime_ui_event_queue_write_index q" if "i < uq_count q" for i
    unfolding runtime_ui_event_queue_write_index_def using that assms(2) by (rule ring_slots_differ)
  then have "map (\<lambda>i. (uq_events q)[runtime_ui_event_queue_write_index q := e] ! ((uq_read_index q + i) mod RUNTIME_UI_EVENT_QUEUE_CAPACITY))
      [0..<uq_count q] = map (\<lambda>i. uq_events q ! ((uq_read_index q + i) mod RUNTIME_UI_EVENT_QUEUE_CAPACITY)) [0..<uq_count q]"
    by (intro map_cong refl nth_list_update_neq) (metis atLeastLessThan_iff set_upt)
  then show "ui_events q' = ui_events q @ [e]"
    using w by (simp add: ui_events_def q'_def runtime_ui_event_queue_write_index_def)
qed

lemma pop_contents:
  assumes "ui_queue_ok q" "ui_events q = e # es"
  defines "q' \<equiv> q\<lparr>uq_read_index := (uq_read_index q + 1) mod RUNTIME_UI_EVENT_QUEUE_CAPACITY, uq_count := uq_count q - 1\<rparr>"
  shows "uq_count q \<noteq> 0" "uq_events q ! uq_read_index q = e" "ui_queue_ok q'" "ui_events q' = es"
proof -
  have n: "uq_count q = Suc (length es)"
    using assms(2) by (auto simp: ui_events_def dest!: arg_cong [of _ _ length])
  show "uq_count q \<noteq> 0" and "ui_queue_ok q'"
    using n assms(1) by (simp_all add: ui_queue_ok_def q'_def RUNTIME_UI_EVENT_QUEUE_CAPACITY_def)
  have "ui_events q ! 0 = e"
    using assms(2) by simp
  then show "uq_events q ! uq_read_index q = e"
    using assms(1) n by (simp add: ui_events_def ui_queue_ok_def del: upt_Suc)
  have "ui_events q' = tl (ui_events q)"
    using n by (intro nth_equalityI) (simp_all add: ui_events_def q'_def nth_tl mod_add_left_eq del: upt_Suc)
  then show "ui_events q' = es"
    using assms(2) by simp
qed

interpretation ui_queue: bounded_queue ui_events ui_queue_ok "\<lambda>e. ue_type e \<noteq> RUNTIME_UI_EVENT_NONE" ui_push ui_pop RUNTIME_UI_EVENT_QUEUE_CAPACITY
proof unfold_locales
  fix q e
  assume q: "ui_queue_ok q"
  then show "length (ui_events q) \<le> RUNTIME_UI_EVENT_QUEUE_CAPACITY"
    by (simp add: ui_events_def ui_queue_ok_def)
  show "\<exists>q'. ui_push e q = Some q' \<and> ui_queue_ok q' \<and> ui_events q' = ui_events q @ [e]"
    if "ue_type e \<noteq> RUNTIME_UI_EVENT_NONE" "length (ui_events q) < RUNTIME_UI_EVENT_QUEUE_CAPACITY"
    using that push_contents [OF q] by (simp add: ui_push_def runtime_ui_event_push_def ui_events_def)
  show "ui_push e q = None" if "length (ui_events q) = RUNTIME_UI_EVENT_QUEUE_CAPACITY"
    using that by (simp add: ui_push_def runtime_ui_event_push_def ui_events_def)
  show "\<exists>q'. ui_pop q = Some (e, q') \<and> ui_queue_ok q' \<and> ui_events q' = es" if "ui_events q = e # es" for es
    using pop_contents [OF q that] by (simp add: ui_pop_def runtime_ui_event_pop_def runtime_ui_event_peek_def)
  show "ui_pop q = None" if "ui_events q = []"
    using that by (simp add: ui_pop_def runtime_ui_event_pop_def runtime_ui_event_peek_def ui_events_def)
qed


section \<open>The timer table as a map\<close>

definition timer_key :: "runtime_ui_timer_entry \<Rightarrow> u32 \<times> u32" where
  "timer_key e = (ut_owner_pid e, ut_token e)"

definition active_timers :: "runtime_ui_timer_table \<Rightarrow> runtime_ui_timer_entry list" where
  "active_timers t = filter (\<lambda>e. ut_active e \<noteq> 0) t"

definition timers :: "runtime_ui_timer_table \<Rightarrow> u32 \<times> u32 \<rightharpoonup> u32" where
  "timers t = map_of (map (\<lambda>e. (timer_key e, ut_due_tick e)) (active_timers t))"

text \<open>Active entries have an owner and different keys.\<close>

definition timers_ok :: "runtime_ui_timer_table \<Rightarrow> bool" where
  "timers_ok t \<longleftrightarrow> length t = RUNTIME_UI_TIMER_CAPACITY \<and> list_all (\<lambda>e. ut_owner_pid e \<noteq> 0) (active_timers t) \<and>
     distinct (map timer_key (active_timers t))"

lemma active_timers_append [simp]: "active_timers (xs @ ys) = active_timers xs @ active_timers ys"
  by (simp add: active_timers_def)

lemma active_timers_Cons [simp]: "active_timers (e # xs) = (if ut_active e \<noteq> 0 then e # active_timers xs else active_timers xs)"
  by (simp add: active_timers_def)

lemma dom_timers: "dom (timers t) = timer_key ` set (active_timers t)"
  by (force simp: timers_def dom_map_of_conv_image_fst)

lemma timers_middle:
  assumes "timer_key e \<notin> timer_key ` set (active_timers xs)"
  shows "timers (xs @ e # ys) = (if ut_active e \<noteq> 0 then (timers (xs @ ys))(timer_key e \<mapsto> ut_due_tick e) else timers (xs @ ys))"
proof -
  have "timers xs (timer_key e) = None"
    using assms dom_timers [of xs] by (metis domIff)
  then show ?thesis
    by (auto simp: timers_def map_add_def fun_eq_iff split: option.splits)
qed

lemma table_split:
  assumes "i < length t"
  obtains xs e ys where "t = xs @ e # ys" "t ! i = e" "\<And>v. t[i := v] = xs @ v # ys"
  using that [of "take i t" "t ! i" "drop (Suc i) t"] assms id_take_nth_drop [OF assms] by (simp add: upd_conv_take_nth_drop)

lemma timer_of_key: "timer_of p k e \<longleftrightarrow> ut_active e \<noteq> 0 \<and> timer_key e = (p, k)"
  by (auto simp: timer_of_def timer_key_def)

lemma no_timer: "first_index (timer_of p k) t = None \<longleftrightarrow> timers t (p, k) = None"
proof -
  have "first_index (timer_of p k) t = None \<longleftrightarrow> (p, k) \<notin> timer_key ` set (active_timers t)"
    by (force simp: first_index_None timer_of_key active_timers_def in_set_conv_nth)
  then show ?thesis
    using dom_timers [of t] by (metis domIff)
qed

text \<open>What writing one slot does to the map: the entry that was there goes, the new one comes.\<close>

lemma timers_write:
  assumes "timers_ok t" "i < length t"
    and "ut_active e \<noteq> 0 \<Longrightarrow> ut_owner_pid e \<noteq> 0 \<and> (timers t (timer_key e) = None \<or> (ut_active (t ! i) \<noteq> 0 \<and> timer_key e = timer_key (t ! i)))"
  shows "timers_ok (t[i := e])"
    and "timers (t[i := e]) =
      (let m = (if ut_active (t ! i) \<noteq> 0 then (timers t)(timer_key (t ! i) := None) else timers t) in
       if ut_active e \<noteq> 0 then m(timer_key e \<mapsto> ut_due_tick e) else m)"
proof -
  obtain xs e0 ys where t: "t = xs @ e0 # ys" and i: "t ! i = e0" and u: "t[i := e] = xs @ e # ys"
    using table_split [OF assms(2)] by metis
  have d: "distinct (map timer_key (active_timers (xs @ e0 # ys)))" "list_all (\<lambda>e. ut_owner_pid e \<noteq> 0) (active_timers (xs @ e0 # ys))"
    and len: "length (xs @ e # ys) = RUNTIME_UI_TIMER_CAPACITY"
    using assms(1) by (auto simp: timers_ok_def t)
  have fresh: "timer_key e \<notin> timer_key ` set (active_timers (xs @ ys))" if "ut_active e \<noteq> 0"
  proof (cases "timers t (timer_key e) = None")
    case True
    then have "timer_key e \<notin> dom (timers (xs @ e0 # ys))"
      by (simp add: domIff t)
    then show ?thesis
      by (auto simp: dom_timers split: if_splits)
  next
    case False
    then show ?thesis
      using assms(3) [OF that] d i by auto
  qed
  show "timers_ok (t[i := e])"
    unfolding timers_ok_def u
  proof (intro conjI len)
    show "list_all (\<lambda>e. ut_owner_pid e \<noteq> 0) (active_timers (xs @ e # ys))"
      using d(2) assms(3) by (cases "ut_active e0 \<noteq> 0") auto
    show "distinct (map timer_key (active_timers (xs @ e # ys)))"
      using d(1) fresh by (cases "ut_active e0 \<noteq> 0") auto
  qed
  have rest: "timers (xs @ ys) = (if ut_active e0 \<noteq> 0 then (timers t)(timer_key e0 := None) else timers t)"
  proof (cases "ut_active e0 \<noteq> 0")
    case True
    then have "timer_key e0 \<notin> timer_key ` set (active_timers xs)" "timer_key e0 \<notin> timer_key ` set (active_timers (xs @ ys))"
      using d by auto
    with True timers_middle [of e0 xs ys] dom_timers [of "xs @ ys"] show ?thesis
      by (simp add: t fun_upd_idem domIff)
  next
    case False
    then show ?thesis
      by (simp add: t timers_def)
  qed
  show "timers (t[i := e]) =
      (let m = (if ut_active (t ! i) \<noteq> 0 then (timers t)(timer_key (t ! i) := None) else timers t) in
       if ut_active e \<noteq> 0 then m(timer_key e \<mapsto> ut_due_tick e) else m)"
  proof (cases "ut_active e \<noteq> 0")
    case True
    with fresh have "timer_key e \<notin> timer_key ` set (active_timers xs)"
      by auto
    with True timers_middle [of e xs ys] rest show ?thesis
      by (simp add: u i Let_def)
  next
    case False
    then have "timers (t[i := e]) = timers (xs @ ys)"
      by (simp add: u timers_def)
    with False rest show ?thesis
      by (simp add: i)
  qed
qed


lemma arm_refines:
  assumes "timers_ok t" "p \<noteq> 0"
  shows "if (p, k) \<in> dom (timers t) \<or> length (active_timers t) < RUNTIME_UI_TIMER_CAPACITY
    then \<exists>t'. runtime_ui_timer_arm (Some t) p d k = (RUNTIME_SYSCALL_STATUS_OK, Some t') \<and> timers_ok t' \<and> timers t' = (timers t)((p, k) \<mapsto> d)
    else runtime_ui_timer_arm (Some t) p d k = (RUNTIME_SYSCALL_STATUS_ENOSPC, Some t)"
proof (cases "first_index (timer_of p k) t")
  case (Some i)
  then have i: "i < length t" "ut_active (t ! i) \<noteq> 0" "timer_key (t ! i) = (p, k)"
    by (auto simp: first_index_Some timer_of_key)
  have "timers t (p, k) \<noteq> None"
    using Some no_timer [of p k t] by simp
  moreover have "timer_key ((t ! i)\<lparr>ut_due_tick := d\<rparr>) = (p, k)"
    using i(3) by (simp add: timer_key_def)
  ultimately show ?thesis
    using Some assms(2) i timers_write [OF assms(1) i(1), of "(t ! i)\<lparr>ut_due_tick := d\<rparr>"]
    by (auto simp: runtime_ui_timer_arm_def timer_key_def Let_def)
next
  case None
  then have new: "timers t (p, k) = None"
    by (simp add: no_timer)
  show ?thesis
  proof (cases "first_index (\<lambda>e. ut_active e = 0) t")
    case (Some i)
    then have i: "i < length t" "ut_active (t ! i) = 0"
      by (auto simp: first_index_Some)
    then have "length (active_timers t) < length t"
      unfolding active_timers_def by (intro length_filter_less [of "t ! i"]) auto
    then have "length (active_timers t) < RUNTIME_UI_TIMER_CAPACITY"
      using assms(1) by (simp add: timers_ok_def)
    with Some None assms(2) new i timers_write [OF assms(1) i(1), of "(t ! i)\<lparr>ut_owner_pid := p, ut_due_tick := d, ut_token := k, ut_active := 1\<rparr>"]
    show ?thesis
      by (simp add: runtime_ui_timer_arm_def timer_key_def)
  next
    case full: None
    then have "active_timers t = t"
      by (auto simp: first_index_None active_timers_def in_set_conv_nth intro!: filter_True)
    with full None assms new show ?thesis
      by (simp add: runtime_ui_timer_arm_def timers_ok_def domIff)
  qed
qed

lemma cancel_refines:
  assumes "timers_ok t" "p \<noteq> 0"
  shows "if (p, k) \<in> dom (timers t)
    then \<exists>t'. runtime_ui_timer_cancel (Some t) p k = (RUNTIME_SYSCALL_STATUS_OK, Some t') \<and> timers_ok t' \<and> timers t' = (timers t)((p, k) := None)
    else runtime_ui_timer_cancel (Some t) p k = (RUNTIME_SYSCALL_STATUS_ENOENT, Some t)"
proof (cases "first_index (timer_of p k) t")
  case (Some i)
  then have i: "i < length t" "ut_active (t ! i) \<noteq> 0" "timer_key (t ! i) = (p, k)"
    by (auto simp: first_index_Some timer_of_key)
  have "timers t (p, k) \<noteq> None"
    using Some no_timer [of p k t] by simp
  then show ?thesis
    using Some assms(2) i timers_write [OF assms(1) i(1), of "cleared_timer (t ! i)"]
    by (auto simp: runtime_ui_timer_cancel_def cleared_timer_def)
next
  case None
  then show ?thesis
    using assms(2) no_timer [of p k t] by (simp add: runtime_ui_timer_cancel_def domIff)
qed

lemma fold_better_due_Some:
  "\<exists>m. fold better_due t (Some b) = Some m \<and> m \<in> insert b (ut_due_tick ` set (active_timers t)) \<and>
     (\<forall>x \<in> insert b (ut_due_tick ` set (active_timers t)). m \<le> x)"
proof (induction t arbitrary: b)
  case (Cons e t)
  let ?b = "if ut_active e \<noteq> 0 then min (ut_due_tick e) b else b"
  have "fold better_due (e # t) (Some b) = fold better_due t (Some ?b)"
    by (auto simp: better_due_def min_def)
  with Cons [of ?b] show ?case
    by (fastforce simp: min_def split: if_splits)
qed (simp add: active_timers_def)

lemma fold_better_due_None:
  "if active_timers t = [] then fold better_due t None = None
   else \<exists>m. fold better_due t None = Some m \<and> m \<in> ut_due_tick ` set (active_timers t) \<and> (\<forall>x \<in> ut_due_tick ` set (active_timers t). m \<le> x)"
proof (induction t)
  case (Cons e t)
  have "better_due e None = (if ut_active e = 0 then None else Some (ut_due_tick e))"
    by (simp add: better_due_def)
  then show ?case
    using Cons fold_better_due_Some [of t "ut_due_tick e"] by (cases "ut_active e = 0") (auto split: if_splits)
qed (simp add: active_timers_def)

lemma ran_timers: "timers_ok t \<Longrightarrow> ran (timers t) = ut_due_tick ` set (active_timers t)"
  unfolding timers_ok_def timers_def by (subst ran_distinct) (auto simp: comp_def image_image)

lemma next_due_refines:
  assumes "timers_ok t"
  shows "if timers t = Map.empty then runtime_ui_timer_next_due (Some t) (Some d0) = (RUNTIME_SYSCALL_STATUS_ENOENT, Some d0)
    else \<exists>m \<in> ran (timers t). runtime_ui_timer_next_due (Some t) (Some d0) = (RUNTIME_SYSCALL_STATUS_OK, Some m) \<and> (\<forall>x \<in> ran (timers t). m \<le> x)"
proof -
  have "timers t = Map.empty \<longleftrightarrow> active_timers t = []"
    by (simp add: timers_def)
  then show ?thesis
    using fold_better_due_None [of t] by (auto simp: runtime_ui_timer_next_due_def ran_timers [OF assms] split: if_splits)
qed

text \<open>C32: The timer table implements a finite map from owner and token to the due tick: arming sets the entry and fails only if
  there is none and eight timers are active, cancelling removes it, and the next due tick is the least one. Every operation
  keeps the invariant.\<close>

theorem timer_table_refines_map:
  assumes "timers_ok t" "p \<noteq> 0"
  shows "(if (p, k) \<in> dom (timers t) \<or> length (active_timers t) < RUNTIME_UI_TIMER_CAPACITY
      then \<exists>t'. runtime_ui_timer_arm (Some t) p d k = (RUNTIME_SYSCALL_STATUS_OK, Some t') \<and> timers_ok t' \<and> timers t' = (timers t)((p, k) \<mapsto> d)
      else runtime_ui_timer_arm (Some t) p d k = (RUNTIME_SYSCALL_STATUS_ENOSPC, Some t)) \<and>
    (if (p, k) \<in> dom (timers t)
      then \<exists>t'. runtime_ui_timer_cancel (Some t) p k = (RUNTIME_SYSCALL_STATUS_OK, Some t') \<and> timers_ok t' \<and> timers t' = (timers t)((p, k) := None)
      else runtime_ui_timer_cancel (Some t) p k = (RUNTIME_SYSCALL_STATUS_ENOENT, Some t)) \<and>
    (if timers t = Map.empty then runtime_ui_timer_next_due (Some t) (Some d0) = (RUNTIME_SYSCALL_STATUS_ENOENT, Some d0)
      else \<exists>m \<in> ran (timers t). runtime_ui_timer_next_due (Some t) (Some d0) = (RUNTIME_SYSCALL_STATUS_OK, Some m) \<and> (\<forall>x \<in> ran (timers t). m \<le> x))"
  by (intro conjI arm_refines [OF assms] cancel_refines [OF assms] next_due_refines [OF assms(1)])

definition demo_timers :: runtime_ui_timer_table where
  "demo_timers = \<lparr>ut_owner_pid = 11, ut_due_tick = 300, ut_token = 1, ut_active = 1\<rparr> #
     \<lparr>ut_owner_pid = 12, ut_due_tick = 200, ut_token = 2, ut_active = 1\<rparr> #
     replicate 6 \<lparr>ut_owner_pid = 0, ut_due_tick = 0, ut_token = 0, ut_active = 0\<rparr>"

lemma replicate_6: "replicate 6 x = [x, x, x, x, x, x]"
  by (simp add: numeral_eq_Suc)

lemma demo_timers_ok: "timers_ok demo_timers" "timers demo_timers = [(11, 1) \<mapsto> 300, (12, 2) \<mapsto> 200]"
  by (simp_all add: timers_ok_def demo_timers_def timers_def timer_key_def active_timers_def RUNTIME_UI_TIMER_CAPACITY_def
      replicate_6 fun_upd_twist)

theorem timer_table_refines_map_witness:
  "\<exists>t'. runtime_ui_timer_arm (Some demo_timers) 11 150 1 = (RUNTIME_SYSCALL_STATUS_OK, Some t') \<and> timers t' (11, 1) = Some 150"
  using timer_table_refines_map [OF demo_timers_ok(1), of 11 1 150 0] by (auto simp: demo_timers_ok(2) split: if_splits)

section \<open>Collecting the timers that are due\<close>

text \<open>The first timers that are due, cleared.\<close>

fun clear_due :: "u32 \<Rightarrow> nat \<Rightarrow> runtime_ui_timer_table \<Rightarrow> runtime_ui_timer_table" where
  "clear_due now n [] = []"
| "clear_due now n (e # t) =
     (if \<not> timer_is_due now e then e # clear_due now n t
      else case n of 0 \<Rightarrow> e # t | Suc m \<Rightarrow> cleared_timer e # clear_due now m t)"

lemma clear_due_0 [simp]: "clear_due now 0 t = t"
  by (induction t) auto

lemma collect_feed:
  "collect_due_from now t (Some q) =
     (let (n, q') = ui_queue.feed (map (timer_event now) (filter (timer_is_due now) t)) q in (n, clear_due now n t, Some q'))"
proof (induction t arbitrary: q)
  case (Cons e t)
  have push: "runtime_ui_event_push (Some q) (Some (timer_event now e)) =
      (case ui_push (timer_event now e) q of None \<Rightarrow> (RUNTIME_SYSCALL_STATUS_ENOSPC, Some q) | Some q' \<Rightarrow> (RUNTIME_SYSCALL_STATUS_OK, Some q'))"
    by (simp add: ui_push_def runtime_ui_event_push_def timer_event_def RUNTIME_UI_EVENT_TIMER_def RUNTIME_UI_EVENT_NONE_def)
  from Cons show ?case
    by (auto simp: push split: option.split prod.split)
qed simp

lemma timers_Cons:
  "timers (e # t) = (if ut_active e \<noteq> 0 then (timers t)(timer_key e \<mapsto> ut_due_tick e) else timers t)"
  using timers_middle [of e "[]" t] by (simp add: active_timers_def)

lemma timer_is_due_active: "timer_is_due now e \<Longrightarrow> ut_active e \<noteq> 0"
  by (simp add: timer_is_due_def)

lemma timers_clear_due:
  "distinct (map timer_key (active_timers t)) \<Longrightarrow>
   timers (clear_due now n t) = timers t |` (- timer_key ` set (take n (filter (timer_is_due now) t))) \<and>
   set (active_timers (clear_due now n t)) \<subseteq> set (active_timers t) \<and> distinct (map timer_key (active_timers (clear_due now n t)))"
proof (induction t arbitrary: n)
  case (Cons e t)
  have d: "distinct (map timer_key (active_timers t))"
    using Cons.prems by (simp split: if_splits)
  have keys: "timer_key e \<notin> timer_key ` set (take m (filter (timer_is_due now) t))" "timers t (timer_key e) = None"
    "timer_key e \<notin> timer_key ` set (active_timers (clear_due now m t))" if "ut_active e \<noteq> 0" for m
  proof -
    have new: "timer_key e \<notin> timer_key ` set (active_timers t)"
      using that Cons.prems by simp
    then show "timers t (timer_key e) = None"
      using dom_timers [of t] by (metis domIff)
    show "timer_key e \<notin> timer_key ` set (active_timers (clear_due now m t))"
      using new Cons.IH [OF d, of m] by blast
    show "timer_key e \<notin> timer_key ` set (take m (filter (timer_is_due now) t))"
      using new by (auto simp: active_timers_def dest!: in_set_takeD timer_is_due_active)
  qed
  have off [simp]: "ut_active (cleared_timer e) = 0"
    by (simp add: cleared_timer_def)
  show ?case
  proof (cases "timer_is_due now e")
    case False
    with Cons.IH [OF d, of n] keys(1) [of n] keys(2) keys(3) [of n] show ?thesis
      by (cases "ut_active e = 0") (auto simp: timers_Cons fun_eq_iff restrict_map_def)
  next
    case True
    then have "ut_active e \<noteq> 0"
      by (rule timer_is_due_active)
    with True Cons.prems show ?thesis
    proof (cases n)
      case (Suc m)
      with True \<open>ut_active e \<noteq> 0\<close> Cons.IH [OF d, of m] keys(1) [of m] keys(2) keys(3) [of m] show ?thesis
        by (auto simp: timers_Cons fun_eq_iff restrict_map_def)
    qed simp
  qed
qed (simp add: timers_def active_timers_def)

lemma length_clear_due [simp]: "length (clear_due now n t) = length t"
  by (induction now n t rule: clear_due.induct) (auto split: nat.split)

text \<open>C33: Collecting the due timers delivers one event for each of them, in the order of the slots and behind the events that are
  already queued, as many as the queue has room for. Exactly the delivered timers leave the table; the others stay armed for the
  next call, so that no timer is lost and none fires twice.\<close>

theorem collect_due_delivers:
  fixes now :: u32
  assumes "timers_ok t" "ui_queue_ok q"
  defines "due \<equiv> filter (timer_is_due now) t"
  defines "n \<equiv> min (length due) (RUNTIME_UI_EVENT_QUEUE_CAPACITY - length (ui_events q))"
  shows "\<exists>t' q'. runtime_ui_timer_collect_due (Some t) now (Some q) = (n, Some t', Some q') \<and> timers_ok t' \<and> ui_queue_ok q' \<and>
    ui_events q' = ui_events q @ map (timer_event now) (take n due) \<and> timers t' = timers t |` (- timer_key ` set (take n due))"
proof -
  have "\<forall>e \<in> set (map (timer_event now) due). ue_type e \<noteq> RUNTIME_UI_EVENT_NONE"
    by (simp add: timer_event_def RUNTIME_UI_EVENT_TIMER_def RUNTIME_UI_EVENT_NONE_def)
  from ui_queue.feed_spec [OF assms(2) this] obtain q' where q': "ui_queue.feed (map (timer_event now) due) q = (n, q')" "ui_queue_ok q'"
    "ui_events q' = ui_events q @ map (timer_event now) (take n due)"
    by (auto simp: n_def take_map)
  have t: "distinct (map timer_key (active_timers t))"
    using assms(1) by (simp add: timers_ok_def)
  have "timers_ok (clear_due now n t)"
    using timers_clear_due [OF t, of now n] assms(1) by (auto simp: timers_ok_def list_all_iff)
  with q' timers_clear_due [OF t, of now n] show ?thesis
    by (simp add: runtime_ui_timer_collect_due_def collect_feed due_def)
qed

definition demo_queue :: runtime_ui_event_queue where
  "demo_queue = \<lparr>uq_events = replicate 16 blank_event, uq_read_index = 15, uq_count = 15\<rparr>"

theorem collect_due_delivers_witness:
  "\<exists>t' q'. runtime_ui_timer_collect_due (Some demo_timers) 300 (Some demo_queue) = (1, Some t', Some q') \<and> timers t' = [(12, 2) \<mapsto> 200]"
proof -
  have q: "ui_queue_ok demo_queue" "length (ui_events demo_queue) = 15"
    by (simp_all add: ui_queue_ok_def ui_events_def demo_queue_def RUNTIME_UI_EVENT_QUEUE_CAPACITY_def)
  have "filter (timer_is_due 300) demo_timers = take 2 demo_timers"
    by (simp add: demo_timers_def timer_is_due_def replicate_6)
  then show ?thesis
    using collect_due_delivers [OF demo_timers_ok(1) q(1), of 300] q(2) demo_timers_ok(2)
    by (auto simp: RUNTIME_UI_EVENT_QUEUE_CAPACITY_def demo_timers_def timer_key_def restrict_map_def fun_eq_iff)
qed

section \<open>The display service\<close>

text \<open>The geometry of the display survives its packing into one word.\<close>

lemma geometry_roundtrip:
  "runtime_display_unpack_width (runtime_display_pack_geometry w h) = w"
  "runtime_display_unpack_height (runtime_display_pack_geometry w h) = h"
proof -
  have m: "(0xFFFF :: u32) = mask 16"
    by (simp add: mask_eq_exp_minus_1)
  show "runtime_display_unpack_width (runtime_display_pack_geometry w h) = w"
    by (rule bit_word_eqI) (auto simp: runtime_display_pack_geometry_def runtime_display_unpack_width_def bit_simps dest: bit_imp_le_length)
  show "runtime_display_unpack_height (runtime_display_pack_geometry w h) = h"
    by (rule bit_word_eqI) (auto simp: runtime_display_pack_geometry_def runtime_display_unpack_height_def m bit_simps)
qed

end
