(* ===== verification/Runtime_Syscall.thy ===== *)
theory Runtime_Syscall
  imports Tensor_Prelude
begin

text \<open>
  The system-call layer of \<open>kernel/runtime_syscall.c\<close>: the table of handles and the dispatcher. The operations
  that the kernel hangs into \<open>struct runtime_syscall_ops\<close> are parameters: optional functions on a context \<open>'c\<close>,
  which stands for what \<open>void *context\<close> and the caller's memory hold. The current process id is a query that leaves the
  context alone; every other operation may change it. Addresses and objects are 32-bit words, as on the target.
  A \<open>struct runtime_handle_info\<close> that the dispatcher itself writes to the caller's memory is kept in the state by
  its address.
\<close>

section \<open>Types (include/runtime_syscall.h)\<close>

type_synonym uintptr = u32

abbreviation (input) RUNTIME_HANDLE_TYPE_NONE :: u32 where "RUNTIME_HANDLE_TYPE_NONE \<equiv> 0"
abbreviation (input) RUNTIME_HANDLE_TYPE_PROCESS :: u32 where "RUNTIME_HANDLE_TYPE_PROCESS \<equiv> 1"
abbreviation (input) RUNTIME_HANDLE_TYPE_EVENT :: u32 where "RUNTIME_HANDLE_TYPE_EVENT \<equiv> 2"
abbreviation (input) RUNTIME_HANDLE_TYPE_MAILBOX :: u32 where "RUNTIME_HANDLE_TYPE_MAILBOX \<equiv> 3"
abbreviation (input) RUNTIME_HANDLE_TYPE_FILE :: u32 where "RUNTIME_HANDLE_TYPE_FILE \<equiv> 4"
abbreviation (input) RUNTIME_HANDLE_TYPE_SERVICE :: u32 where "RUNTIME_HANDLE_TYPE_SERVICE \<equiv> 5"

abbreviation (input) RUNTIME_SYSCALL_GETPID :: u32 where "RUNTIME_SYSCALL_GETPID \<equiv> 0"
abbreviation (input) RUNTIME_SYSCALL_SLEEP :: u32 where "RUNTIME_SYSCALL_SLEEP \<equiv> 1"
abbreviation (input) RUNTIME_SYSCALL_KILL :: u32 where "RUNTIME_SYSCALL_KILL \<equiv> 2"
abbreviation (input) RUNTIME_SYSCALL_HANDLE_CLOSE :: u32 where "RUNTIME_SYSCALL_HANDLE_CLOSE \<equiv> 3"
abbreviation (input) RUNTIME_SYSCALL_PROCESS_SELF :: u32 where "RUNTIME_SYSCALL_PROCESS_SELF \<equiv> 4"
abbreviation (input) RUNTIME_SYSCALL_EVENT_CREATE :: u32 where "RUNTIME_SYSCALL_EVENT_CREATE \<equiv> 5"
abbreviation (input) RUNTIME_SYSCALL_MAILBOX_CREATE :: u32 where "RUNTIME_SYSCALL_MAILBOX_CREATE \<equiv> 6"
abbreviation (input) RUNTIME_SYSCALL_FILE_OPEN :: u32 where "RUNTIME_SYSCALL_FILE_OPEN \<equiv> 7"
abbreviation (input) RUNTIME_SYSCALL_FILE_READ :: u32 where "RUNTIME_SYSCALL_FILE_READ \<equiv> 8"
abbreviation (input) RUNTIME_SYSCALL_FILE_WRITE :: u32 where "RUNTIME_SYSCALL_FILE_WRITE \<equiv> 9"
abbreviation (input) RUNTIME_SYSCALL_EVENT_SIGNAL :: u32 where "RUNTIME_SYSCALL_EVENT_SIGNAL \<equiv> 10"
abbreviation (input) RUNTIME_SYSCALL_MAILBOX_SEND :: u32 where "RUNTIME_SYSCALL_MAILBOX_SEND \<equiv> 11"
abbreviation (input) RUNTIME_SYSCALL_MAILBOX_RECEIVE :: u32 where "RUNTIME_SYSCALL_MAILBOX_RECEIVE \<equiv> 12"
abbreviation (input) RUNTIME_SYSCALL_HANDLE_DUP :: u32 where "RUNTIME_SYSCALL_HANDLE_DUP \<equiv> 13"
abbreviation (input) RUNTIME_SYSCALL_HANDLE_INFO :: u32 where "RUNTIME_SYSCALL_HANDLE_INFO \<equiv> 14"
abbreviation (input) RUNTIME_SYSCALL_FILE_STAT :: u32 where "RUNTIME_SYSCALL_FILE_STAT \<equiv> 15"
abbreviation (input) RUNTIME_SYSCALL_MKDIR :: u32 where "RUNTIME_SYSCALL_MKDIR \<equiv> 16"
abbreviation (input) RUNTIME_SYSCALL_FILE_READDIR :: u32 where "RUNTIME_SYSCALL_FILE_READDIR \<equiv> 17"
abbreviation (input) RUNTIME_SYSCALL_FILE_SEEK :: u32 where "RUNTIME_SYSCALL_FILE_SEEK \<equiv> 18"
abbreviation (input) RUNTIME_SYSCALL_FILE_REMOVE :: u32 where "RUNTIME_SYSCALL_FILE_REMOVE \<equiv> 19"
abbreviation (input) RUNTIME_SYSCALL_FILE_RENAME :: u32 where "RUNTIME_SYSCALL_FILE_RENAME \<equiv> 20"
abbreviation (input) RUNTIME_SYSCALL_PROCESS_SPAWN :: u32 where "RUNTIME_SYSCALL_PROCESS_SPAWN \<equiv> 21"
abbreviation (input) RUNTIME_SYSCALL_PROCESS_SPAWNABLE_COUNT :: u32 where "RUNTIME_SYSCALL_PROCESS_SPAWNABLE_COUNT \<equiv> 22"
abbreviation (input) RUNTIME_SYSCALL_PROCESS_SPAWNABLE_INFO :: u32 where "RUNTIME_SYSCALL_PROCESS_SPAWNABLE_INFO \<equiv> 23"
abbreviation (input) RUNTIME_SYSCALL_SERVICE_COUNT :: u32 where "RUNTIME_SYSCALL_SERVICE_COUNT \<equiv> 24"
abbreviation (input) RUNTIME_SYSCALL_SERVICE_INFO :: u32 where "RUNTIME_SYSCALL_SERVICE_INFO \<equiv> 25"
abbreviation (input) RUNTIME_SYSCALL_SERVICE_OPEN :: u32 where "RUNTIME_SYSCALL_SERVICE_OPEN \<equiv> 26"
abbreviation (input) RUNTIME_SYSCALL_SERVICE_REQUEST :: u32 where "RUNTIME_SYSCALL_SERVICE_REQUEST \<equiv> 27"
abbreviation (input) RUNTIME_SYSCALL_APP_COUNT :: u32 where "RUNTIME_SYSCALL_APP_COUNT \<equiv> 28"
abbreviation (input) RUNTIME_SYSCALL_APP_INFO :: u32 where "RUNTIME_SYSCALL_APP_INFO \<equiv> 29"
abbreviation (input) RUNTIME_SYSCALL_APP_LAUNCH :: u32 where "RUNTIME_SYSCALL_APP_LAUNCH \<equiv> 30"
abbreviation (input) RUNTIME_SYSCALL_PROCESS_INFO :: u32 where "RUNTIME_SYSCALL_PROCESS_INFO \<equiv> 31"
abbreviation (input) RUNTIME_SYSCALL_PROCESS_TERMINATE :: u32 where "RUNTIME_SYSCALL_PROCESS_TERMINATE \<equiv> 32"

definition RUNTIME_SYSCALL_MAX_HANDLES :: nat where "RUNTIME_SYSCALL_MAX_HANDLES = 16"

record runtime_syscall_args =
  arg0 :: uintptr
  arg1 :: uintptr
  arg2 :: uintptr
  arg3 :: uintptr

record runtime_handle_info =
  hi_handle :: u32
  hi_owner_pid :: u32
  hi_type :: u32
  hi_object :: uintptr

record 'c runtime_syscall_file_ops =
  fo_open :: "(uintptr \<Rightarrow> u32 \<Rightarrow> uintptr \<Rightarrow> 'c \<Rightarrow> int \<times> uintptr \<times> 'c) ptr"
  fo_read :: "(uintptr \<Rightarrow> uintptr \<Rightarrow> u32 \<Rightarrow> 'c \<Rightarrow> int \<times> 'c) ptr"
  fo_write :: "(uintptr \<Rightarrow> uintptr \<Rightarrow> u32 \<Rightarrow> 'c \<Rightarrow> int \<times> 'c) ptr"
  fo_close :: "(uintptr \<Rightarrow> 'c \<Rightarrow> int \<times> 'c) ptr"
  fo_stat :: "(uintptr \<Rightarrow> uintptr \<Rightarrow> 'c \<Rightarrow> int \<times> 'c) ptr"
  fo_readdir :: "(uintptr \<Rightarrow> uintptr \<Rightarrow> 'c \<Rightarrow> int \<times> 'c) ptr"
  fo_seek :: "(uintptr \<Rightarrow> int \<Rightarrow> u32 \<Rightarrow> 'c \<Rightarrow> int \<times> 'c) ptr"
  fo_remove :: "(uintptr \<Rightarrow> 'c \<Rightarrow> int \<times> 'c) ptr"
  fo_rename :: "(uintptr \<Rightarrow> uintptr \<Rightarrow> 'c \<Rightarrow> int \<times> 'c) ptr"

record 'c runtime_syscall_ops =
  op_process_current_pid :: "('c \<Rightarrow> u32) ptr"
  op_process_sleep :: "(u32 \<Rightarrow> 'c \<Rightarrow> 'c) ptr"
  op_process_kill :: "(u32 \<Rightarrow> int \<Rightarrow> 'c \<Rightarrow> int \<times> 'c) ptr"
  op_process_info :: "(u32 \<Rightarrow> uintptr \<Rightarrow> 'c \<Rightarrow> int \<times> 'c) ptr"
  op_process_spawn_named :: "(uintptr \<Rightarrow> u32 \<Rightarrow> 'c \<Rightarrow> u32 \<times> 'c) ptr"
  op_process_spawnable_count :: "('c \<Rightarrow> u32 \<times> 'c) ptr"
  op_process_spawnable_info :: "(u32 \<Rightarrow> uintptr \<Rightarrow> 'c \<Rightarrow> int \<times> 'c) ptr"
  op_service_count :: "('c \<Rightarrow> u32 \<times> 'c) ptr"
  op_service_info :: "(u32 \<Rightarrow> uintptr \<Rightarrow> 'c \<Rightarrow> int \<times> 'c) ptr"
  op_service_open :: "(uintptr \<Rightarrow> uintptr \<Rightarrow> 'c \<Rightarrow> int \<times> uintptr \<times> 'c) ptr"
  op_service_close :: "(uintptr \<Rightarrow> 'c \<Rightarrow> int \<times> 'c) ptr"
  op_service_request :: "(uintptr \<Rightarrow> u32 \<Rightarrow> uintptr \<Rightarrow> 'c \<Rightarrow> int \<times> 'c) ptr"
  op_app_count :: "('c \<Rightarrow> u32 \<times> 'c) ptr"
  op_app_info :: "(u32 \<Rightarrow> uintptr \<Rightarrow> 'c \<Rightarrow> int \<times> 'c) ptr"
  op_app_launch :: "(uintptr \<Rightarrow> 'c \<Rightarrow> u32 \<times> 'c) ptr"
  op_event_create :: "('c \<Rightarrow> uintptr \<times> 'c) ptr"
  op_event_destroy :: "(uintptr \<Rightarrow> 'c \<Rightarrow> int \<times> 'c) ptr"
  op_event_signal :: "(uintptr \<Rightarrow> 'c \<Rightarrow> u32 \<times> 'c) ptr"
  op_mailbox_create :: "('c \<Rightarrow> uintptr \<times> 'c) ptr"
  op_mailbox_destroy :: "(uintptr \<Rightarrow> 'c \<Rightarrow> int \<times> 'c) ptr"
  op_mailbox_send :: "(uintptr \<Rightarrow> u32 \<Rightarrow> 'c \<Rightarrow> int \<times> 'c) ptr"
  op_mailbox_receive :: "(uintptr \<Rightarrow> uintptr \<Rightarrow> 'c \<Rightarrow> int \<times> 'c) ptr"
  op_fs_mkdir :: "(uintptr \<Rightarrow> u32 \<Rightarrow> 'c \<Rightarrow> int \<times> 'c) ptr"
  op_file_ops :: "'c runtime_syscall_file_ops ptr"

type_synonym runtime_syscall_table = "runtime_handle_info list"

record 'c sys_state =
  sy_table :: "runtime_syscall_table ptr"
  sy_context :: 'c
  sy_infos :: "uintptr \<Rightarrow> runtime_handle_info"

section \<open>The table of handles\<close>

definition runtime_syscall_clear_handle :: "runtime_handle_info \<Rightarrow> runtime_handle_info" where
  "runtime_syscall_clear_handle h =
     h\<lparr>hi_handle := 0, hi_owner_pid := 0, hi_type := RUNTIME_HANDLE_TYPE_NONE, hi_object := 0\<rparr>"

definition runtime_syscall_alloc_handle ::
  "runtime_syscall_table ptr \<Rightarrow> u32 \<Rightarrow> u32 \<Rightarrow> uintptr \<Rightarrow> u32 \<times> runtime_syscall_table ptr" where
  "runtime_syscall_alloc_handle table owner_pid ty object =
     (case table of None \<Rightarrow> (0, None)
      | Some t \<Rightarrow>
          (case first_index (\<lambda>h. hi_type h = RUNTIME_HANDLE_TYPE_NONE) t of
             None \<Rightarrow> (0, Some t)
           | Some i \<Rightarrow> (of_nat (i + 1), Some (t[i := (t ! i)\<lparr>hi_handle := of_nat (i + 1), hi_owner_pid := owner_pid,
               hi_type := ty, hi_object := object\<rparr>]))))"

text \<open>A pointer into the table is the index of the entry.\<close>

definition runtime_syscall_lookup_handle :: "runtime_syscall_table ptr \<Rightarrow> u32 \<Rightarrow> nat ptr" where
  "runtime_syscall_lookup_handle table handle =
     (case table of None \<Rightarrow> None
      | Some t \<Rightarrow>
          (if handle = 0 \<or> unat handle > RUNTIME_SYSCALL_MAX_HANDLES then None
           else let index = unat (handle - 1) in
             if hi_type (t ! index) = RUNTIME_HANDLE_TYPE_NONE then None else Some index))"

definition runtime_syscall_lookup_handle_const :: "runtime_syscall_table ptr \<Rightarrow> u32 \<Rightarrow> runtime_handle_info ptr" where
  "runtime_syscall_lookup_handle_const table handle =
     (case table of None \<Rightarrow> None
      | Some t \<Rightarrow>
          (if handle = 0 \<or> unat handle > RUNTIME_SYSCALL_MAX_HANDLES then None
           else let index = unat (handle - 1) in
             if hi_type (t ! index) = RUNTIME_HANDLE_TYPE_NONE then None else Some (t ! index)))"

definition runtime_syscall_copy_handle_info ::
  "runtime_handle_info ptr \<Rightarrow> runtime_handle_info ptr \<Rightarrow> runtime_handle_info ptr" where
  "runtime_syscall_copy_handle_info dest src =
     (case (dest, src) of
        (Some d, Some e) \<Rightarrow> Some (d\<lparr>hi_handle := hi_handle e, hi_owner_pid := hi_owner_pid e, hi_type := hi_type e,
          hi_object := hi_object e\<rparr>)
      | _ \<Rightarrow> dest)"

definition runtime_syscall_handle_alias_count ::
  "runtime_syscall_table ptr \<Rightarrow> runtime_handle_info ptr \<Rightarrow> nat" where
  "runtime_syscall_handle_alias_count table handle =
     (case (table, handle) of
        (Some t, Some h) \<Rightarrow> length (filter (\<lambda>candidate. hi_type candidate = hi_type h \<and>
          hi_owner_pid candidate = hi_owner_pid h \<and> hi_object candidate = hi_object h) t)
      | _ \<Rightarrow> 0)"

definition runtime_syscall_check_handle_access ::
  "runtime_handle_info ptr \<Rightarrow> 'c runtime_syscall_ops ptr \<Rightarrow> 'c \<Rightarrow> int" where
  "runtime_syscall_check_handle_access handle ops context =
     (case (handle, ops) of
        (Some h, Some ops) \<Rightarrow>
          (case op_process_current_pid ops of
             None \<Rightarrow> RUNTIME_SYSCALL_STATUS_EINVAL
           | Some current \<Rightarrow>
               (let current_pid = current context in
                if hi_owner_pid h \<noteq> 0 \<and> hi_owner_pid h \<noteq> current_pid then RUNTIME_SYSCALL_STATUS_EBADF
                else RUNTIME_SYSCALL_STATUS_OK))
      | _ \<Rightarrow> RUNTIME_SYSCALL_STATUS_EINVAL)"

text \<open>
  The end of a close: the last handle of an object destroys the object; \<open>refused\<close> says which results of the
  destructor leave the handle as it is, with which status.
\<close>

definition close_object ::
  "(uintptr \<Rightarrow> 'c \<Rightarrow> int \<times> 'c) \<Rightarrow> (int \<Rightarrow> bool) \<Rightarrow> int \<Rightarrow> nat \<Rightarrow> runtime_syscall_table \<Rightarrow> 'c \<Rightarrow>
   int \<times> runtime_syscall_table \<times> 'c" where
  "close_object destroy refused status i t context =
     (let (result, context') = destroy (hi_object (t ! i)) context in
      if refused result then (status, t, context')
      else (RUNTIME_SYSCALL_STATUS_OK, t[i := runtime_syscall_clear_handle (t ! i)], context'))"

definition runtime_syscall_close_handle ::
  "nat ptr \<Rightarrow> 'c runtime_syscall_ops ptr \<Rightarrow> runtime_syscall_table \<Rightarrow> 'c \<Rightarrow> bool \<Rightarrow>
   int \<times> runtime_syscall_table \<times> 'c" where
  "runtime_syscall_close_handle handle ops t context enforce_access =
     (case (handle, ops) of
        (Some i, Some ops) \<Rightarrow>
          (let h = t ! i;
               access_status = (if enforce_access then runtime_syscall_check_handle_access (Some h) (Some ops) context
                 else RUNTIME_SYSCALL_STATUS_OK);
               alias_count = runtime_syscall_handle_alias_count (Some t) (Some h);
               cleared = (RUNTIME_SYSCALL_STATUS_OK, t[i := runtime_syscall_clear_handle h], context)
           in
           if access_status \<noteq> RUNTIME_SYSCALL_STATUS_OK then (access_status, t, context)
           else if hi_type h = RUNTIME_HANDLE_TYPE_PROCESS then cleared
           else if hi_type h = RUNTIME_HANDLE_TYPE_EVENT then
             (if alias_count > 1 then cleared
              else case op_event_destroy ops of
                None \<Rightarrow> (RUNTIME_SYSCALL_STATUS_ENOSYS, t, context)
              | Some destroy \<Rightarrow> close_object destroy (\<lambda>r. r = 0) RUNTIME_SYSCALL_STATUS_EBUSY i t context)
           else if hi_type h = RUNTIME_HANDLE_TYPE_MAILBOX then
             (if alias_count > 1 then cleared
              else case op_mailbox_destroy ops of
                None \<Rightarrow> (RUNTIME_SYSCALL_STATUS_ENOSYS, t, context)
              | Some destroy \<Rightarrow> close_object destroy (\<lambda>r. r = 0) RUNTIME_SYSCALL_STATUS_EBUSY i t context)
           else if hi_type h = RUNTIME_HANDLE_TYPE_FILE then
             (if alias_count > 1 then cleared
              else case Option.bind (op_file_ops ops) fo_close of
                None \<Rightarrow> (RUNTIME_SYSCALL_STATUS_ENOSYS, t, context)
              | Some close \<Rightarrow> close_object close (\<lambda>r. r < 0) RUNTIME_SYSCALL_STATUS_EBADF i t context)
           else if hi_type h = RUNTIME_HANDLE_TYPE_SERVICE then
             (if alias_count > 1 then cleared
              else case op_service_close ops of
                None \<Rightarrow> cleared
              | Some close \<Rightarrow> close_object close (\<lambda>r. r < 0) RUNTIME_SYSCALL_STATUS_EBADF i t context)
           else (RUNTIME_SYSCALL_STATUS_EBADF, t, context))
      | _ \<Rightarrow> (RUNTIME_SYSCALL_STATUS_EINVAL, t, context))"

definition runtime_syscall_table_init :: "runtime_syscall_table ptr \<Rightarrow> runtime_syscall_table ptr" where
  "runtime_syscall_table_init table = map_option (map runtime_syscall_clear_handle) table"

section \<open>The system calls\<close>

type_synonym 'c syscall = "'c runtime_syscall_ops \<Rightarrow> runtime_syscall_args \<Rightarrow> 'c sys_state \<Rightarrow> int \<times> 'c sys_state"

definition call_op :: "('c \<Rightarrow> 'r \<times> 'c) \<Rightarrow> 'c sys_state \<Rightarrow> 'r \<times> 'c sys_state" where
  "call_op f s = (let (r, c) = f (sy_context s) in (r, s\<lparr>sy_context := c\<rparr>))"

definition call_if :: "('c \<Rightarrow> int \<times> 'c) ptr \<Rightarrow> 'c sys_state \<Rightarrow> int \<times> 'c sys_state" where
  "call_if f s = (case f of None \<Rightarrow> (RUNTIME_SYSCALL_STATUS_ENOSYS, s) | Some f \<Rightarrow> call_op f s)"

text \<open>\<open>(int32_t)\<close> of an unsigned result.\<close>

definition call_u32_if :: "('c \<Rightarrow> u32 \<times> 'c) ptr \<Rightarrow> 'c sys_state \<Rightarrow> int \<times> 'c sys_state" where
  "call_u32_if f s = (case f of None \<Rightarrow> (RUNTIME_SYSCALL_STATUS_ENOSYS, s)
     | Some f \<Rightarrow> (let (r, s') = call_op f s in (sint r, s')))"

definition current_pid_or_0 :: "'c runtime_syscall_ops \<Rightarrow> 'c \<Rightarrow> u32" where
  "current_pid_or_0 ops c = (case op_process_current_pid ops of None \<Rightarrow> 0 | Some f \<Rightarrow> f c)"

definition alloc_handle_in :: "u32 \<Rightarrow> u32 \<Rightarrow> uintptr \<Rightarrow> 'c sys_state \<Rightarrow> u32 \<times> 'c sys_state" where
  "alloc_handle_in owner_pid ty object s =
     (let (h, t) = runtime_syscall_alloc_handle (sy_table s) owner_pid ty object in (h, s\<lparr>sy_table := t\<rparr>))"

text \<open>A new handle as the result of a call, or the status for a full table.\<close>

definition handle_or_enospc :: "u32 \<times> 'c sys_state \<Rightarrow> int \<times> 'c sys_state" where
  "handle_or_enospc r = (if fst r = 0 then (RUNTIME_SYSCALL_STATUS_ENOSPC, snd r) else (sint (fst r), snd r))"

text \<open>
  The guard that the calls on a handle share: the handle is known, of the right type, and the
  caller may use it. \<open>None\<close> as the type: a handle of any type.
\<close>

definition with_handle ::
  "u32 option \<Rightarrow> 'c runtime_syscall_ops \<Rightarrow> uintptr \<Rightarrow> 'c sys_state \<Rightarrow>
   (runtime_handle_info \<Rightarrow> int \<times> 'c sys_state) \<Rightarrow> int \<times> 'c sys_state" where
  "with_handle ty ops handle s k =
     (case (sy_table s, runtime_syscall_lookup_handle (sy_table s) handle) of
        (Some t, Some i) \<Rightarrow>
          (let h = t ! i in
           if ty \<noteq> None \<and> ty \<noteq> Some (hi_type h) then (RUNTIME_SYSCALL_STATUS_EBADF, s)
           else let status = runtime_syscall_check_handle_access (Some h) (Some ops) (sy_context s) in
             if status \<noteq> RUNTIME_SYSCALL_STATUS_OK then (status, s) else k h)
      | _ \<Rightarrow> (RUNTIME_SYSCALL_STATUS_EBADF, s))"

definition syscall_getpid :: "'c syscall" where
  "syscall_getpid ops args s =
     (case op_process_current_pid ops of
        None \<Rightarrow> (RUNTIME_SYSCALL_STATUS_ENOSYS, s) | Some f \<Rightarrow> (sint (f (sy_context s)), s))"

definition syscall_sleep :: "'c syscall" where
  "syscall_sleep ops args s =
     (case op_process_sleep ops of
        None \<Rightarrow> (RUNTIME_SYSCALL_STATUS_ENOSYS, s)
      | Some f \<Rightarrow> (RUNTIME_SYSCALL_STATUS_OK, s\<lparr>sy_context := f (arg0 args) (sy_context s)\<rparr>))"

definition kill_pid :: "'c runtime_syscall_ops \<Rightarrow> u32 \<Rightarrow> uintptr \<Rightarrow> 'c sys_state \<Rightarrow> int \<times> 'c sys_state" where
  "kill_pid ops pid exit_code s =
     (case op_process_kill ops of
        None \<Rightarrow> (RUNTIME_SYSCALL_STATUS_ENOSYS, s)
      | Some f \<Rightarrow> (let (r, s') = call_op (f pid (sint exit_code)) s in
          (if r = 0 then RUNTIME_SYSCALL_STATUS_ESRCH else RUNTIME_SYSCALL_STATUS_OK, s')))"

definition syscall_kill :: "'c syscall" where
  "syscall_kill ops args s = kill_pid ops (arg0 args) (arg1 args) s"

definition syscall_handle_close :: "'c syscall" where
  "syscall_handle_close ops args s =
     (case (sy_table s, runtime_syscall_lookup_handle (sy_table s) (arg0 args)) of
        (Some t, Some i) \<Rightarrow>
          (let (status, t', c') = runtime_syscall_close_handle (Some i) (Some ops) t (sy_context s) True in
           (status, s\<lparr>sy_table := Some t', sy_context := c'\<rparr>))
      | _ \<Rightarrow> (RUNTIME_SYSCALL_STATUS_EBADF, s))"

definition syscall_process_self :: "'c syscall" where
  "syscall_process_self ops args s =
     (case op_process_current_pid ops of
        None \<Rightarrow> (RUNTIME_SYSCALL_STATUS_ENOSYS, s)
      | Some f \<Rightarrow> handle_or_enospc (alloc_handle_in (current_pid_or_0 ops (sy_context s)) RUNTIME_HANDLE_TYPE_PROCESS
          (f (sy_context s)) s))"

definition syscall_process_info :: "'c syscall" where
  "syscall_process_info ops args s =
     with_handle (Some RUNTIME_HANDLE_TYPE_PROCESS) ops (arg0 args) s (\<lambda>h.
       if arg1 args = 0 then (RUNTIME_SYSCALL_STATUS_ENOSYS, s)
       else call_if (map_option (\<lambda>f. f (hi_object h) (arg1 args)) (op_process_info ops)) s)"

definition syscall_process_terminate :: "'c syscall" where
  "syscall_process_terminate ops args s =
     with_handle (Some RUNTIME_HANDLE_TYPE_PROCESS) ops (arg0 args) s (\<lambda>h.
       kill_pid ops (hi_object h) (arg1 args) s)"

text \<open>
  The calls that create an event or a mailbox: the object first, then its handle. A handle of a
  null object is taken back.
\<close>

definition create_object ::
  "('c \<Rightarrow> uintptr \<times> 'c) ptr \<Rightarrow> u32 \<Rightarrow> u32 \<Rightarrow> 'c sys_state \<Rightarrow> int \<times> 'c sys_state" where
  "create_object create ty current_pid s =
     (case create of
        None \<Rightarrow> (RUNTIME_SYSCALL_STATUS_ENOSYS, s)
      | Some f \<Rightarrow>
          (let (object, s1) = call_op f s;
               (handle_id, s2) = alloc_handle_in current_pid ty object s1
           in
           if handle_id = 0 then (RUNTIME_SYSCALL_STATUS_ENOSPC, s2)
           else case sy_table s2 of None \<Rightarrow> (RUNTIME_SYSCALL_STATUS_ENOSPC, s2)
             | Some t \<Rightarrow>
                 (let i = unat (handle_id - 1) in
                  if hi_object (t ! i) = 0
                  then (RUNTIME_SYSCALL_STATUS_ENOMEM, s2\<lparr>sy_table := Some (t[i := runtime_syscall_clear_handle (t ! i)])\<rparr>)
                  else (sint handle_id, s2))))"

definition syscall_event_create :: "'c syscall" where
  "syscall_event_create ops args s =
     create_object (op_event_create ops) RUNTIME_HANDLE_TYPE_EVENT (current_pid_or_0 ops (sy_context s)) s"

definition syscall_mailbox_create :: "'c syscall" where
  "syscall_mailbox_create ops args s =
     create_object (op_mailbox_create ops) RUNTIME_HANDLE_TYPE_MAILBOX (current_pid_or_0 ops (sy_context s)) s"

text \<open>The calls that start a process and return a handle of it.\<close>

definition start_process :: "('c \<Rightarrow> u32 \<times> 'c) ptr \<Rightarrow> u32 \<Rightarrow> 'c sys_state \<Rightarrow> int \<times> 'c sys_state" where
  "start_process start current_pid s =
     (case start of
        None \<Rightarrow> (RUNTIME_SYSCALL_STATUS_ENOSYS, s)
      | Some f \<Rightarrow>
          (let (pid, s1) = call_op f s in
           if pid = 0 then (RUNTIME_SYSCALL_STATUS_ENOENT, s1)
           else handle_or_enospc (alloc_handle_in current_pid RUNTIME_HANDLE_TYPE_PROCESS pid s1)))"

definition syscall_process_spawn :: "'c syscall" where
  "syscall_process_spawn ops args s =
     (if arg0 args = 0 then (RUNTIME_SYSCALL_STATUS_ENOSYS, s)
      else start_process (map_option (\<lambda>f. f (arg0 args) (arg1 args)) (op_process_spawn_named ops))
        (current_pid_or_0 ops (sy_context s)) s)"

definition syscall_app_launch :: "'c syscall" where
  "syscall_app_launch ops args s =
     (if arg0 args = 0 then (RUNTIME_SYSCALL_STATUS_ENOSYS, s)
      else start_process (map_option (\<lambda>f. f (arg0 args)) (op_app_launch ops)) (current_pid_or_0 ops (sy_context s)) s)"

definition syscall_process_spawnable_count :: "'c syscall" where
  "syscall_process_spawnable_count ops args s = call_u32_if (op_process_spawnable_count ops) s"

definition syscall_service_count :: "'c syscall" where
  "syscall_service_count ops args s = call_u32_if (op_service_count ops) s"

definition syscall_app_count :: "'c syscall" where
  "syscall_app_count ops args s = call_u32_if (op_app_count ops) s"

text \<open>The calls that fill in a structure at an index.\<close>

definition info_at :: "(u32 \<Rightarrow> uintptr \<Rightarrow> 'c \<Rightarrow> int \<times> 'c) ptr \<Rightarrow> runtime_syscall_args \<Rightarrow> 'c sys_state \<Rightarrow> int \<times> 'c sys_state" where
  "info_at f args s =
     (if arg1 args = 0 then (RUNTIME_SYSCALL_STATUS_ENOSYS, s)
      else call_if (map_option (\<lambda>f. f (arg0 args) (arg1 args)) f) s)"

definition syscall_process_spawnable_info :: "'c syscall" where
  "syscall_process_spawnable_info ops args s = info_at (op_process_spawnable_info ops) args s"

definition syscall_service_info :: "'c syscall" where
  "syscall_service_info ops args s = info_at (op_service_info ops) args s"

definition syscall_app_info :: "'c syscall" where
  "syscall_app_info ops args s = info_at (op_app_info ops) args s"

text \<open>
  The calls that open a file or a service: the object comes through a local variable that starts as 0. Without a
  free handle the object is closed again if there is a close operation.
\<close>

definition open_object ::
  "('c \<Rightarrow> int \<times> uintptr \<times> 'c) \<Rightarrow> (uintptr \<Rightarrow> 'c \<Rightarrow> int \<times> 'c) ptr \<Rightarrow> u32 \<Rightarrow> u32 \<Rightarrow> 'c sys_state \<Rightarrow> int \<times> 'c sys_state" where
  "open_object open_op close ty current_pid s =
     (let (status, object, c) = open_op (sy_context s); s1 = s\<lparr>sy_context := c\<rparr> in
      if status < 0 then (status, s1)
      else let (handle_id, s2) = alloc_handle_in current_pid ty object s1 in
        if handle_id = 0
        then (RUNTIME_SYSCALL_STATUS_ENOSPC, case close of None \<Rightarrow> s2 | Some f \<Rightarrow> snd (call_op (f object) s2))
        else (sint handle_id, s2))"

definition syscall_service_open :: "'c syscall" where
  "syscall_service_open ops args s =
     (if arg0 args = 0 then (RUNTIME_SYSCALL_STATUS_ENOSYS, s)
      else case op_service_open ops of
        None \<Rightarrow> (RUNTIME_SYSCALL_STATUS_ENOSYS, s)
      | Some f \<Rightarrow> open_object (f (arg0 args) 0) (op_service_close ops) RUNTIME_HANDLE_TYPE_SERVICE
          (current_pid_or_0 ops (sy_context s)) s)"

definition syscall_service_request :: "'c syscall" where
  "syscall_service_request ops args s =
     with_handle (Some RUNTIME_HANDLE_TYPE_SERVICE) ops (arg0 args) s (\<lambda>h.
       if arg2 args = 0 then (RUNTIME_SYSCALL_STATUS_ENOSYS, s)
       else call_if (map_option (\<lambda>f. f (hi_object h) (arg1 args) (arg2 args)) (op_service_request ops)) s)"

definition syscall_file_open :: "'c syscall" where
  "syscall_file_open ops args s =
     (case op_file_ops ops of
        None \<Rightarrow> (RUNTIME_SYSCALL_STATUS_ENOSYS, s)
      | Some fo \<Rightarrow> (case fo_open fo of
            None \<Rightarrow> (RUNTIME_SYSCALL_STATUS_ENOSYS, s)
          | Some f \<Rightarrow> open_object (f (arg0 args) (arg1 args) 0) (fo_close fo) RUNTIME_HANDLE_TYPE_FILE
              (current_pid_or_0 ops (sy_context s)) s))"

text \<open>The calls on an open file: the operation of \<open>file_ops\<close> applied to the object of the handle.\<close>

definition on_file ::
  "('c runtime_syscall_file_ops \<Rightarrow> (uintptr \<Rightarrow> 'c \<Rightarrow> int \<times> 'c) ptr) \<Rightarrow> 'c syscall" where
  "on_file sel ops args s =
     with_handle (Some RUNTIME_HANDLE_TYPE_FILE) ops (arg0 args) s (\<lambda>h.
       call_if (map_option (\<lambda>f. f (hi_object h)) (Option.bind (op_file_ops ops) sel)) s)"

definition syscall_file_read :: "'c syscall" where
  "syscall_file_read ops args s =
     on_file (\<lambda>fo. map_option (\<lambda>f file. f file (arg1 args) (arg2 args)) (fo_read fo)) ops args s"

definition syscall_file_write :: "'c syscall" where
  "syscall_file_write ops args s =
     on_file (\<lambda>fo. map_option (\<lambda>f file. f file (arg1 args) (arg2 args)) (fo_write fo)) ops args s"

definition syscall_file_stat :: "'c syscall" where
  "syscall_file_stat ops args s =
     on_file (\<lambda>fo. if arg1 args = 0 then None else map_option (\<lambda>f file. f file (arg1 args)) (fo_stat fo)) ops args s"

definition syscall_file_readdir :: "'c syscall" where
  "syscall_file_readdir ops args s =
     on_file (\<lambda>fo. if arg1 args = 0 then None else map_option (\<lambda>f file. f file (arg1 args)) (fo_readdir fo)) ops args s"

definition syscall_file_seek :: "'c syscall" where
  "syscall_file_seek ops args s =
     on_file (\<lambda>fo. map_option (\<lambda>f file. f file (sint (arg1 args)) (arg2 args)) (fo_seek fo)) ops args s"

definition syscall_event_signal :: "'c syscall" where
  "syscall_event_signal ops args s =
     with_handle (Some RUNTIME_HANDLE_TYPE_EVENT) ops (arg0 args) s (\<lambda>h.
       call_u32_if (map_option (\<lambda>f. f (hi_object h)) (op_event_signal ops)) s)"

definition busy_if_0 :: "int \<times> 'c sys_state \<Rightarrow> int \<times> 'c sys_state" where
  "busy_if_0 r = (if fst r = 0 then RUNTIME_SYSCALL_STATUS_EBUSY else RUNTIME_SYSCALL_STATUS_OK, snd r)"

definition syscall_mailbox_send :: "'c syscall" where
  "syscall_mailbox_send ops args s =
     with_handle (Some RUNTIME_HANDLE_TYPE_MAILBOX) ops (arg0 args) s (\<lambda>h.
       case op_mailbox_send ops of
         None \<Rightarrow> (RUNTIME_SYSCALL_STATUS_ENOSYS, s)
       | Some f \<Rightarrow> busy_if_0 (call_op (f (hi_object h) (arg1 args)) s))"

definition syscall_mailbox_receive :: "'c syscall" where
  "syscall_mailbox_receive ops args s =
     with_handle (Some RUNTIME_HANDLE_TYPE_MAILBOX) ops (arg0 args) s (\<lambda>h.
       case op_mailbox_receive ops of
         None \<Rightarrow> (RUNTIME_SYSCALL_STATUS_ENOSYS, s)
       | Some f \<Rightarrow> busy_if_0 (call_op (f (hi_object h) (arg1 args)) s))"

definition syscall_handle_dup :: "'c syscall" where
  "syscall_handle_dup ops args s =
     with_handle None ops (arg0 args) s (\<lambda>h.
       handle_or_enospc (alloc_handle_in (hi_owner_pid h) (hi_type h) (hi_object h) s))"

definition syscall_handle_info :: "'c syscall" where
  "syscall_handle_info ops args s =
     (if arg1 args = 0 then (RUNTIME_SYSCALL_STATUS_EBADF, s)
      else with_handle None ops (arg0 args) s (\<lambda>h.
        (RUNTIME_SYSCALL_STATUS_OK,
         case runtime_syscall_copy_handle_info (Some (sy_infos s (arg1 args))) (Some h) of
           None \<Rightarrow> s | Some info \<Rightarrow> s\<lparr>sy_infos := (sy_infos s)(arg1 args := info)\<rparr>)))"

definition syscall_mkdir :: "'c syscall" where
  "syscall_mkdir ops args s = call_if (map_option (\<lambda>f. f (arg0 args) (arg1 args)) (op_fs_mkdir ops)) s"

definition syscall_file_remove :: "'c syscall" where
  "syscall_file_remove ops args s =
     (if arg0 args = 0 then (RUNTIME_SYSCALL_STATUS_ENOSYS, s)
      else call_if (map_option (\<lambda>f. f (arg0 args)) (Option.bind (op_file_ops ops) fo_remove)) s)"

definition syscall_file_rename :: "'c syscall" where
  "syscall_file_rename ops args s =
     (if arg0 args = 0 \<or> arg1 args = 0 then (RUNTIME_SYSCALL_STATUS_ENOSYS, s)
      else call_if (map_option (\<lambda>f. f (arg0 args) (arg1 args)) (Option.bind (op_file_ops ops) fo_rename)) s)"

definition syscall_table_of :: "(u32 \<times> 'c syscall) list" where
  "syscall_table_of =
    [(RUNTIME_SYSCALL_GETPID, syscall_getpid),
     (RUNTIME_SYSCALL_SLEEP, syscall_sleep),
     (RUNTIME_SYSCALL_KILL, syscall_kill),
     (RUNTIME_SYSCALL_HANDLE_CLOSE, syscall_handle_close),
     (RUNTIME_SYSCALL_PROCESS_SELF, syscall_process_self),
     (RUNTIME_SYSCALL_PROCESS_INFO, syscall_process_info),
     (RUNTIME_SYSCALL_PROCESS_TERMINATE, syscall_process_terminate),
     (RUNTIME_SYSCALL_EVENT_CREATE, syscall_event_create),
     (RUNTIME_SYSCALL_PROCESS_SPAWN, syscall_process_spawn),
     (RUNTIME_SYSCALL_PROCESS_SPAWNABLE_COUNT, syscall_process_spawnable_count),
     (RUNTIME_SYSCALL_PROCESS_SPAWNABLE_INFO, syscall_process_spawnable_info),
     (RUNTIME_SYSCALL_SERVICE_COUNT, syscall_service_count),
     (RUNTIME_SYSCALL_SERVICE_INFO, syscall_service_info),
     (RUNTIME_SYSCALL_SERVICE_OPEN, syscall_service_open),
     (RUNTIME_SYSCALL_SERVICE_REQUEST, syscall_service_request),
     (RUNTIME_SYSCALL_APP_COUNT, syscall_app_count),
     (RUNTIME_SYSCALL_APP_INFO, syscall_app_info),
     (RUNTIME_SYSCALL_APP_LAUNCH, syscall_app_launch),
     (RUNTIME_SYSCALL_MAILBOX_CREATE, syscall_mailbox_create),
     (RUNTIME_SYSCALL_FILE_OPEN, syscall_file_open),
     (RUNTIME_SYSCALL_FILE_READ, syscall_file_read),
     (RUNTIME_SYSCALL_FILE_WRITE, syscall_file_write),
     (RUNTIME_SYSCALL_EVENT_SIGNAL, syscall_event_signal),
     (RUNTIME_SYSCALL_MAILBOX_SEND, syscall_mailbox_send),
     (RUNTIME_SYSCALL_MAILBOX_RECEIVE, syscall_mailbox_receive),
     (RUNTIME_SYSCALL_HANDLE_DUP, syscall_handle_dup),
     (RUNTIME_SYSCALL_HANDLE_INFO, syscall_handle_info),
     (RUNTIME_SYSCALL_FILE_STAT, syscall_file_stat),
     (RUNTIME_SYSCALL_MKDIR, syscall_mkdir),
     (RUNTIME_SYSCALL_FILE_READDIR, syscall_file_readdir),
     (RUNTIME_SYSCALL_FILE_SEEK, syscall_file_seek),
     (RUNTIME_SYSCALL_FILE_REMOVE, syscall_file_remove),
     (RUNTIME_SYSCALL_FILE_RENAME, syscall_file_rename)]"

text \<open>The \<open>switch\<close> of the dispatcher: the call with the given number, or \<open>ENOSYS\<close>.\<close>

definition runtime_syscall_dispatch ::
  "u32 \<Rightarrow> runtime_syscall_args ptr \<Rightarrow> 'c runtime_syscall_ops ptr \<Rightarrow> 'c sys_state \<Rightarrow> int \<times> 'c sys_state" where
  "runtime_syscall_dispatch syscall_number args ops s =
     (case (args, ops) of
        (Some args, Some ops) \<Rightarrow>
          (case map_of syscall_table_of syscall_number of
             None \<Rightarrow> (RUNTIME_SYSCALL_STATUS_ENOSYS, s)
           | Some f \<Rightarrow> f ops args s)
      | _ \<Rightarrow> (RUNTIME_SYSCALL_STATUS_EINVAL, s))"

definition runtime_syscall_query_handle ::
  "runtime_syscall_table ptr \<Rightarrow> u32 \<Rightarrow> runtime_handle_info ptr \<Rightarrow> int \<times> runtime_handle_info ptr" where
  "runtime_syscall_query_handle table handle info =
     (let entry = runtime_syscall_lookup_handle_const table handle in
      if entry = None \<or> info = None then (0, info) else (1, runtime_syscall_copy_handle_info info entry))"

text \<open>The loop of \<open>runtime_syscall_release_owner_handles\<close>, from the end: the indices that are left.\<close>

fun release_from ::
  "u32 \<Rightarrow> 'c runtime_syscall_ops \<Rightarrow> nat list \<Rightarrow> nat \<Rightarrow> runtime_syscall_table \<Rightarrow> 'c \<Rightarrow> nat \<times> runtime_syscall_table \<times> 'c" where
  "release_from owner_pid ops [] released t c = (released, t, c)"
| "release_from owner_pid ops (i # is) released t c =
     (if hi_type (t ! i) = RUNTIME_HANDLE_TYPE_NONE \<or> hi_owner_pid (t ! i) \<noteq> owner_pid
      then release_from owner_pid ops is released t c
      else let (status, t', c') = runtime_syscall_close_handle (Some i) (Some ops) t c False in
        release_from owner_pid ops is (if status = RUNTIME_SYSCALL_STATUS_OK then released + 1 else released) t' c')"

definition runtime_syscall_release_owner_handles ::
  "runtime_syscall_table ptr \<Rightarrow> u32 \<Rightarrow> 'c runtime_syscall_ops ptr \<Rightarrow> 'c \<Rightarrow> nat \<times> runtime_syscall_table ptr \<times> 'c" where
  "runtime_syscall_release_owner_handles table owner_pid ops c =
     (case (table, ops) of
        (Some t, Some ops) \<Rightarrow>
          (if owner_pid = 0 then (0, table, c)
           else let (released, t', c') = release_from owner_pid ops [0..<RUNTIME_SYSCALL_MAX_HANDLES] 0 t c in
             (released, Some t', c'))
      | _ \<Rightarrow> (0, table, c))"

definition runtime_syscall_status_name :: "int \<Rightarrow> string" where
  "runtime_syscall_status_name status =
     (case map_of
       [(RUNTIME_SYSCALL_STATUS_OK, ''ok''), (RUNTIME_SYSCALL_STATUS_ENOENT, ''enoent''),
        (RUNTIME_SYSCALL_STATUS_ESRCH, ''esrch''), (RUNTIME_SYSCALL_STATUS_EBADF, ''ebadf''),
        (RUNTIME_SYSCALL_STATUS_EACCES, ''eacces''), (RUNTIME_SYSCALL_STATUS_ENOMEM, ''enomem''),
        (RUNTIME_SYSCALL_STATUS_EEXIST, ''eexist''), (RUNTIME_SYSCALL_STATUS_EBUSY, ''ebusy''),
        (RUNTIME_SYSCALL_STATUS_ENOTDIR, ''enotdir''), (RUNTIME_SYSCALL_STATUS_EISDIR, ''eisdir''),
        (RUNTIME_SYSCALL_STATUS_EINVAL, ''einval''), (RUNTIME_SYSCALL_STATUS_ENOSPC, ''enospc''),
        (RUNTIME_SYSCALL_STATUS_ENOTEMPTY, ''enotempty''), (RUNTIME_SYSCALL_STATUS_ENOSYS, ''enosys''),
        (RUNTIME_SYSCALL_STATUS_ENOTSUP, ''enotsup'')] status of
        None \<Rightarrow> ''unknown'' | Some name \<Rightarrow> name)"

end
