(* ===== verification/Runtime_Syscall_Spec.thy ===== *)
theory Runtime_Syscall_Spec
  imports Runtime_Syscall
begin

text \<open>
  What the system-call layer promises, as a transition system on the table of handles and the context, and the
  proof that every call of the dispatcher and every release of a process's handles is a sequence of its steps. The rules
  name what may happen to a handle: an object is made and gets a handle, a handle is duplicated, a handle goes away
  while another one keeps the object, or the last handle goes away with the object.
\<close>

section \<open>What the operations do to the context\<close>

text \<open>A call of an operation that neither makes nor destroys an object, or no call at all.\<close>

inductive plain :: "'c runtime_syscall_ops \<Rightarrow> 'c \<Rightarrow> 'c \<Rightarrow> bool" for ops where
  nothing: "plain ops c c"
| sleep: "op_process_sleep ops = Some f \<Longrightarrow> plain ops c (f n c)"
| kill: "op_process_kill ops = Some f \<Longrightarrow> f pid code c = (r, c') \<Longrightarrow> plain ops c c'"
| info: "op_process_info ops = Some f \<Longrightarrow> f pid a c = (r, c') \<Longrightarrow> plain ops c c'"
| spawn: "op_process_spawn_named ops = Some f \<Longrightarrow> f a n c = (pid, c') \<Longrightarrow> plain ops c c'"
| launch: "op_app_launch ops = Some f \<Longrightarrow> f a c = (pid, c') \<Longrightarrow> plain ops c c'"
| spawnable_count: "op_process_spawnable_count ops = Some f \<Longrightarrow> f c = (n, c') \<Longrightarrow> plain ops c c'"
| service_count: "op_service_count ops = Some f \<Longrightarrow> f c = (n, c') \<Longrightarrow> plain ops c c'"
| app_count: "op_app_count ops = Some f \<Longrightarrow> f c = (n, c') \<Longrightarrow> plain ops c c'"
| spawnable_info: "op_process_spawnable_info ops = Some f \<Longrightarrow> f n a c = (r, c') \<Longrightarrow> plain ops c c'"
| service_info: "op_service_info ops = Some f \<Longrightarrow> f n a c = (r, c') \<Longrightarrow> plain ops c c'"
| app_info: "op_app_info ops = Some f \<Longrightarrow> f n a c = (r, c') \<Longrightarrow> plain ops c c'"
| request: "op_service_request ops = Some f \<Longrightarrow> f x n a c = (r, c') \<Longrightarrow> plain ops c c'"
| signal: "op_event_signal ops = Some f \<Longrightarrow> f x c = (n, c') \<Longrightarrow> plain ops c c'"
| send: "op_mailbox_send ops = Some f \<Longrightarrow> f x m c = (r, c') \<Longrightarrow> plain ops c c'"
| receive: "op_mailbox_receive ops = Some f \<Longrightarrow> f x a c = (r, c') \<Longrightarrow> plain ops c c'"
| mkdir: "op_fs_mkdir ops = Some f \<Longrightarrow> f a n c = (r, c') \<Longrightarrow> plain ops c c'"
| file_read: "op_file_ops ops = Some fo \<Longrightarrow> fo_read fo = Some f \<Longrightarrow> f x a n c = (r, c') \<Longrightarrow> plain ops c c'"
| file_write: "op_file_ops ops = Some fo \<Longrightarrow> fo_write fo = Some f \<Longrightarrow> f x a n c = (r, c') \<Longrightarrow> plain ops c c'"
| file_stat: "op_file_ops ops = Some fo \<Longrightarrow> fo_stat fo = Some f \<Longrightarrow> f x a c = (r, c') \<Longrightarrow> plain ops c c'"
| file_readdir: "op_file_ops ops = Some fo \<Longrightarrow> fo_readdir fo = Some f \<Longrightarrow> f x a c = (r, c') \<Longrightarrow> plain ops c c'"
| seek: "op_file_ops ops = Some fo \<Longrightarrow> fo_seek fo = Some f \<Longrightarrow> f x d w c = (r, c') \<Longrightarrow> plain ops c c'"
| remove: "op_file_ops ops = Some fo \<Longrightarrow> fo_remove fo = Some f \<Longrightarrow> f a c = (r, c') \<Longrightarrow> plain ops c c'"
| rename: "op_file_ops ops = Some fo \<Longrightarrow> fo_rename fo = Some f \<Longrightarrow> f a b c = (r, c') \<Longrightarrow> plain ops c c'"

text \<open>An operation makes an object of a type, or is asked to and fails.\<close>

inductive makes :: "'c runtime_syscall_ops \<Rightarrow> u32 \<Rightarrow> 'c \<Rightarrow> uintptr \<Rightarrow> 'c \<Rightarrow> bool" for ops where
  event: "op_event_create ops = Some f \<Longrightarrow> f c = (x, c') \<Longrightarrow> x \<noteq> 0 \<Longrightarrow> makes ops RUNTIME_HANDLE_TYPE_EVENT c x c'"
| mailbox: "op_mailbox_create ops = Some f \<Longrightarrow> f c = (x, c') \<Longrightarrow> x \<noteq> 0 \<Longrightarrow> makes ops RUNTIME_HANDLE_TYPE_MAILBOX c x c'"
| opened: "op_file_ops ops = Some fo \<Longrightarrow> fo_open fo = Some f \<Longrightarrow> f a n 0 c = (r, x, c') \<Longrightarrow> r \<ge> 0 \<Longrightarrow>
    makes ops RUNTIME_HANDLE_TYPE_FILE c x c'"
| service: "op_service_open ops = Some f \<Longrightarrow> f a 0 c = (r, x, c') \<Longrightarrow> r \<ge> 0 \<Longrightarrow>
    makes ops RUNTIME_HANDLE_TYPE_SERVICE c x c'"

inductive make_fails :: "'c runtime_syscall_ops \<Rightarrow> 'c \<Rightarrow> 'c \<Rightarrow> bool" for ops where
  event: "op_event_create ops = Some f \<Longrightarrow> f c = (0, c') \<Longrightarrow> make_fails ops c c'"
| mailbox: "op_mailbox_create ops = Some f \<Longrightarrow> f c = (0, c') \<Longrightarrow> make_fails ops c c'"
| opened: "op_file_ops ops = Some fo \<Longrightarrow> fo_open fo = Some f \<Longrightarrow> f a n 0 c = (r, x, c') \<Longrightarrow> r < 0 \<Longrightarrow> make_fails ops c c'"
| service: "op_service_open ops = Some f \<Longrightarrow> f a 0 c = (r, x, c') \<Longrightarrow> r < 0 \<Longrightarrow> make_fails ops c c'"

text \<open>The destructor of a type, with the result of a call: \<open>True\<close>, the object is gone. A service may have none.\<close>

inductive destroys :: "'c runtime_syscall_ops \<Rightarrow> u32 \<Rightarrow> 'c \<Rightarrow> uintptr \<Rightarrow> bool \<Rightarrow> 'c \<Rightarrow> bool" for ops where
  event: "op_event_destroy ops = Some f \<Longrightarrow> f x c = (r, c') \<Longrightarrow> destroys ops RUNTIME_HANDLE_TYPE_EVENT c x (r \<noteq> 0) c'"
| mailbox: "op_mailbox_destroy ops = Some f \<Longrightarrow> f x c = (r, c') \<Longrightarrow> destroys ops RUNTIME_HANDLE_TYPE_MAILBOX c x (r \<noteq> 0) c'"
| opened: "op_file_ops ops = Some fo \<Longrightarrow> fo_close fo = Some f \<Longrightarrow> f x c = (r, c') \<Longrightarrow>
    destroys ops RUNTIME_HANDLE_TYPE_FILE c x (\<not> r < 0) c'"
| service: "op_service_close ops = Some f \<Longrightarrow> f x c = (r, c') \<Longrightarrow> destroys ops RUNTIME_HANDLE_TYPE_SERVICE c x (\<not> r < 0) c'"
| no_service: "op_service_close ops = None \<Longrightarrow> destroys ops RUNTIME_HANDLE_TYPE_SERVICE c x True c"

inductive_cases makes_fileE: "makes ops RUNTIME_HANDLE_TYPE_FILE c x c'"
inductive_cases destroys_fileE: "destroys ops RUNTIME_HANDLE_TYPE_FILE c x r c'"

section \<open>The steps of the table\<close>

definition free_entry :: "runtime_syscall_table \<Rightarrow> nat \<Rightarrow> bool" where
  "free_entry t i \<longleftrightarrow> i < length t \<and> hi_type (t ! i) = RUNTIME_HANDLE_TYPE_NONE"

definition used_entry :: "runtime_syscall_table \<Rightarrow> nat \<Rightarrow> bool" where
  "used_entry t i \<longleftrightarrow> i < length t \<and> hi_type (t ! i) \<noteq> RUNTIME_HANDLE_TYPE_NONE"

definition entry_for :: "nat \<Rightarrow> u32 \<Rightarrow> u32 \<Rightarrow> uintptr \<Rightarrow> runtime_handle_info" where
  "entry_for i owner_pid ty x = \<lparr>hi_handle = of_nat (i + 1), hi_owner_pid = owner_pid, hi_type = ty, hi_object = x\<rparr>"

definition no_entry :: runtime_handle_info where
  "no_entry = \<lparr>hi_handle = 0, hi_owner_pid = 0, hi_type = RUNTIME_HANDLE_TYPE_NONE, hi_object = 0\<rparr>"

definition same_object :: "runtime_handle_info \<Rightarrow> runtime_handle_info \<Rightarrow> bool" where
  "same_object h k \<longleftrightarrow> hi_type h = hi_type k \<and> hi_owner_pid h = hi_owner_pid k \<and> hi_object h = hi_object k"

text \<open>
  \<open>handle_step ops p (t, c) (t', c')\<close>: one step for process \<open>p\<close>. Entries are touched at one index at most, which
  is free, without owner or owned by \<open>p\<close>.
\<close>

inductive handle_step ::
  "'c runtime_syscall_ops \<Rightarrow> u32 \<Rightarrow> runtime_syscall_table \<times> 'c \<Rightarrow> runtime_syscall_table \<times> 'c \<Rightarrow> bool" for ops p where
  plain: "plain ops c c' \<Longrightarrow> handle_step ops p (t, c) (t, c')"
| make: "makes ops ty c x c' \<Longrightarrow> free_entry t i \<Longrightarrow> handle_step ops p (t, c) (t[i := entry_for i p ty x], c')"
| make_fails: "make_fails ops c c' \<Longrightarrow> handle_step ops p (t, c) (t, c')"
| make_leaks: "makes ops ty c x c' \<Longrightarrow> ty \<in> {RUNTIME_HANDLE_TYPE_EVENT, RUNTIME_HANDLE_TYPE_MAILBOX} \<or> (\<forall>r c''. \<not> destroys ops ty c' x r c'') \<Longrightarrow>
    \<not> (\<exists>i. free_entry t i) \<Longrightarrow> handle_step ops p (t, c) (t, c')"
| make_undone: "makes ops ty c x c' \<Longrightarrow> destroys ops ty c' x r c'' \<Longrightarrow> \<not> (\<exists>i. free_entry t i) \<Longrightarrow>
    handle_step ops p (t, c) (t, c'')"
| process: "plain ops c c' \<Longrightarrow> free_entry t i \<Longrightarrow>
    handle_step ops p (t, c) (t[i := entry_for i p RUNTIME_HANDLE_TYPE_PROCESS x], c')"
| dup: "used_entry t j \<Longrightarrow> hi_owner_pid (t ! j) \<in> {0, p} \<Longrightarrow> free_entry t i \<Longrightarrow>
    handle_step ops p (t, c) (t[i := entry_for i (hi_owner_pid (t ! j)) (hi_type (t ! j)) (hi_object (t ! j))], c)"
| drop: "used_entry t i \<Longrightarrow> hi_owner_pid (t ! i) \<in> {0, p} \<Longrightarrow>
    hi_type (t ! i) = RUNTIME_HANDLE_TYPE_PROCESS \<or> (\<exists>j < length t. j \<noteq> i \<and> same_object (t ! j) (t ! i)) \<Longrightarrow>
    handle_step ops p (t, c) (t[i := no_entry], c)"
| last: "used_entry t i \<Longrightarrow> hi_owner_pid (t ! i) \<in> {0, p} \<Longrightarrow>
    \<not> (\<exists>j < length t. j \<noteq> i \<and> same_object (t ! j) (t ! i)) \<Longrightarrow>
    destroys ops (hi_type (t ! i)) c (hi_object (t ! i)) True c' \<Longrightarrow> handle_step ops p (t, c) (t[i := no_entry], c')"
| refused: "used_entry t i \<Longrightarrow> hi_owner_pid (t ! i) \<in> {0, p} \<Longrightarrow>
    destroys ops (hi_type (t ! i)) c (hi_object (t ! i)) False c' \<Longrightarrow> handle_step ops p (t, c) (t, c')"

text \<open>The shape of a table: all entries are there, a used entry knows its number, a free one is cleared.\<close>

definition entry_ok :: "nat \<Rightarrow> runtime_handle_info \<Rightarrow> bool" where
  "entry_ok i h \<longleftrightarrow> (if hi_type h = RUNTIME_HANDLE_TYPE_NONE then h = no_entry
     else hi_handle h = of_nat (i + 1) \<and> hi_type h \<le> RUNTIME_HANDLE_TYPE_SERVICE)"

definition table_ok :: "runtime_syscall_table \<Rightarrow> bool" where
  "table_ok t \<longleftrightarrow> length t = RUNTIME_SYSCALL_MAX_HANDLES \<and> (\<forall>i < length t. entry_ok i (t ! i))"

lemma entry_ok_simps [simp]: "entry_ok i no_entry" "ty \<noteq> 0 \<Longrightarrow> entry_ok i (entry_for i p ty x) \<longleftrightarrow> ty \<le> 5"
  by (simp_all add: entry_ok_def no_entry_def entry_for_def)

lemma handle_type_cases:
  assumes "(ty :: u32) \<noteq> 0" and "ty \<le> 5"
  shows "ty \<in> {1, 2, 3, 4, 5}"
proof -
  have "unat ty \<le> 5" "unat ty \<noteq> 0" using assms by (simp_all add: word_le_nat_alt unat_eq_zero)
  then have "unat ty = 1 \<or> unat ty = 2 \<or> unat ty = 3 \<or> unat ty = 4 \<or> unat ty = 5" by linarith
  moreover have "ty = of_nat (unat ty)" by simp
  ultimately show ?thesis by (elim disjE) (simp_all only:, simp_all)
qed

lemma clear_handle [simp]: "runtime_syscall_clear_handle h = no_entry"
  by (simp add: runtime_syscall_clear_handle_def no_entry_def)

lemma table_init_ok:
  "length t = RUNTIME_SYSCALL_MAX_HANDLES \<Longrightarrow> \<exists>t'. runtime_syscall_table_init (Some t) = Some t' \<and> table_ok t'"
  by (simp add: runtime_syscall_table_init_def table_ok_def)

lemma makes_type: "makes ops ty c x c' \<Longrightarrow> ty \<noteq> 0 \<and> ty \<le> 5"
  by (induction rule: makes.induct) simp_all

lemma table_ok_upd:
  "table_ok t \<Longrightarrow> ty \<noteq> 0 \<Longrightarrow> ty \<le> 5 \<Longrightarrow> table_ok (t[i := entry_for i p ty x])"
  "table_ok t \<Longrightarrow> table_ok (t[i := no_entry])"
  by (auto simp: table_ok_def nth_list_update_if)

lemma handle_step_table_ok:
  "handle_step ops p tc tc' \<Longrightarrow> table_ok (fst tc) \<Longrightarrow> table_ok (fst tc')"
proof (induction rule: handle_step.induct)
  case (make ty c x c' t i)
  then show ?case using makes_type [OF make(1)] by (simp add: table_ok_upd)
next
  case (dup t j i c)
  then have "hi_type (t ! j) \<noteq> 0" "hi_type (t ! j) \<le> 5"
    by (auto simp: table_ok_def used_entry_def entry_ok_def split: if_splits)
  then show ?case using dup by (simp add: table_ok_upd)
qed (simp_all add: table_ok_upd)

text \<open>Entries of other processes stay as they are.\<close>

lemma handle_step_foreign:
  "handle_step ops p tc tc' \<Longrightarrow> used_entry (fst tc) k \<Longrightarrow> hi_owner_pid (fst tc ! k) \<notin> {0, p} \<Longrightarrow>
   fst tc' ! k = fst tc ! k"
  by (induction rule: handle_step.induct) (auto simp: free_entry_def used_entry_def nth_list_update_if)

end
