(* ===== verification/Runtime_Syscall_Refine.thy ===== *)
theory Runtime_Syscall_Refine
  imports Runtime_Syscall_Spec
begin

text \<open>
  Every call of the dispatcher takes a step of the transition system of \<open>Runtime_Syscall_Spec\<close>: one lemma for each
  way the calls are built, then one for the \<open>switch\<close>; and the release of a process's handles takes a sequence of steps.
\<close>

section \<open>The table operations\<close>

lemma handle_number:
  assumes "i < RUNTIME_SYSCALL_MAX_HANDLES"
  shows "(of_nat (i + 1) :: u32) \<noteq> 0" "unat (of_nat (i + 1) :: u32) = i + 1" "unat ((of_nat (i + 1) :: u32) - 1) = i"
proof -
  have small: "i + 1 < 2 ^ 32" using assms by (simp add: RUNTIME_SYSCALL_MAX_HANDLES_def)
  show u: "unat (of_nat (i + 1) :: u32) = i + 1" by (rule unat_small [OF small])
  then show "(of_nat (i + 1) :: u32) \<noteq> 0" by (metis Suc_eq_plus1 nat.simps(3) unat_0)
  show "unat ((of_nat (i + 1) :: u32) - 1) = i" using unat_small [of i] small by simp
qed

lemma entry_for_eq:
  "h\<lparr>hi_handle := of_nat (i + 1), hi_owner_pid := p, hi_type := ty, hi_object := x\<rparr> = entry_for i p ty x"
  by (cases h) (simp add: entry_for_def)

lemma alloc_handle_cases:
  assumes "table_ok t"
  obtains (full) "runtime_syscall_alloc_handle (Some t) p ty x = (0, Some t)" "\<not> (\<exists>i. free_entry t i)"
  | (entry) i where "free_entry t i" "runtime_syscall_alloc_handle (Some t) p ty x =
      (of_nat (i + 1), Some (t[i := entry_for i p ty x]))" "i < RUNTIME_SYSCALL_MAX_HANDLES"
proof (cases "first_index (\<lambda>h. hi_type h = RUNTIME_HANDLE_TYPE_NONE) t")
  case None
  then have "\<not> (\<exists>i. free_entry t i)" by (auto simp: free_entry_def first_index_None)
  then show ?thesis using full None by (simp add: runtime_syscall_alloc_handle_def)
next
  case (Some i)
  then have i: "free_entry t i" by (auto simp: free_entry_def first_index_Some)
  then have "i < RUNTIME_SYSCALL_MAX_HANDLES" using assms by (auto simp: free_entry_def table_ok_def)
  then show ?thesis using entry [OF i] Some
    by (simp only: runtime_syscall_alloc_handle_def option.case entry_for_eq simp_thms)
qed

lemma lookup_used:
  assumes "table_ok t" and "runtime_syscall_lookup_handle (Some t) h = Some i"
  shows "used_entry t i \<and> h = of_nat (i + 1)"
proof -
  from assms have h: "h \<noteq> 0" "unat h \<le> RUNTIME_SYSCALL_MAX_HANDLES" "i = unat (h - 1)" "hi_type (t ! i) \<noteq> 0"
    by (auto simp: runtime_syscall_lookup_handle_def Let_def split: if_splits)
  then have u: "unat h = i + 1" by (simp add: unat_minus_one unat_gt_0)
  then have "i < length t" using h(2) assms(1) by (simp add: table_ok_def)
  moreover have "h = of_nat (i + 1)" unfolding u [symmetric] by simp
  ultimately show ?thesis using h(4) by (simp add: used_entry_def)
qed

lemma lookup_entry:
  assumes "table_ok t" and "used_entry t i"
  shows "runtime_syscall_lookup_handle (Some t) (of_nat (i + 1)) = Some i"
proof -
  have i: "i < RUNTIME_SYSCALL_MAX_HANDLES" using assms by (simp add: used_entry_def table_ok_def)
  from handle_number [OF i] assms(2) i show ?thesis
    by (simp add: runtime_syscall_lookup_handle_def used_entry_def Let_def)
qed

lemma access_ok:
  "runtime_syscall_check_handle_access (Some h) (Some ops) c = RUNTIME_SYSCALL_STATUS_OK \<Longrightarrow>
   hi_owner_pid h \<in> {0, current_pid_or_0 ops c}"
  by (auto simp: runtime_syscall_check_handle_access_def current_pid_or_0_def Let_def split: option.splits if_splits)

lemma filter_more_than_one:
  assumes "i < length t" and "P (t ! i)"
  shows "length (filter P t) > 1 \<longleftrightarrow> (\<exists>j < length t. j \<noteq> i \<and> P (t ! j))"
proof -
  have "length (filter P t) = card {j. j < length t \<and> P (t ! j)}" by (rule length_filter_conv_card)
  also have "{j. j < length t \<and> P (t ! j)} = insert i {j. j < length t \<and> j \<noteq> i \<and> P (t ! j)}" using assms by auto
  finally have "length (filter P t) = Suc (card {j. j < length t \<and> j \<noteq> i \<and> P (t ! j)})" by simp
  then show ?thesis by (auto simp: card_gt_0_iff)
qed

lemma alias_count_iff:
  assumes "i < length t"
  shows "runtime_syscall_handle_alias_count (Some t) (Some (t ! i)) > 1 \<longleftrightarrow>
    (\<exists>j < length t. j \<noteq> i \<and> same_object (t ! j) (t ! i))"
  using filter_more_than_one [of i t "\<lambda>h. same_object h (t ! i)"] assms
  by (simp add: runtime_syscall_handle_alias_count_def same_object_def)

text \<open>Closing a handle that the process may close is a step.\<close>

lemma close_object_step:
  assumes "used_entry t i" "hi_owner_pid (t ! i) \<in> {0, p}" "\<not> (\<exists>j < length t. j \<noteq> i \<and> same_object (t ! j) (t ! i))"
    and ty: "hi_type (t ! i) = ty"
    and "close_object f refused st i t c = (r, t', c')"
    and "\<And>r c'. f (hi_object (t ! i)) c = (r, c') \<Longrightarrow>
      destroys ops ty c (hi_object (t ! i)) (\<not> refused r) c'"
  shows "handle_step ops p (t, c) (t', c')"
proof -
  obtain q d where q: "f (hi_object (t ! i)) c = (q, d)" by force
  from assms(6) [OF q] show ?thesis
    using assms(1-5) q by (auto simp: close_object_def split: if_splits intro: handle_step.last handle_step.refused)
qed

lemma close_handle_step:
  assumes used: "used_entry t i" "hi_owner_pid (t ! i) \<in> {0, p}"
    and close: "runtime_syscall_close_handle (Some i) (Some ops) t c enforce = (r, t', c')"
  shows "handle_step ops p (t, c) (t', c')"
proof -
  let ?h = "t ! i"
  define access where "access = (if enforce then runtime_syscall_check_handle_access (Some ?h) (Some ops) c else 0)"
  note body = close [unfolded runtime_syscall_close_handle_def Let_def option.case prod.case, folded access_def]
  have i: "i < length t" using used by (simp add: used_entry_def)
  note aliases = alias_count_iff [OF i]
  have stay: "handle_step ops p (t, c) (t, c)" by (rule handle_step.plain [OF plain.nothing])
  have drop: "handle_step ops p (t, c) (t[i := no_entry], c)"
    if "hi_type ?h = 1 \<or> runtime_syscall_handle_alias_count (Some t) (Some ?h) > 1"
    by (rule handle_step.drop [OF used that [unfolded aliases]])
  note obj = close_object_step [OF used]
  consider "access \<noteq> 0" | "access = 0" "hi_type ?h = 1 \<or> runtime_syscall_handle_alias_count (Some t) (Some ?h) > 1"
    | "access = 0" "hi_type ?h \<noteq> 1" "\<not> (\<exists>j < length t. j \<noteq> i \<and> same_object (t ! j) ?h)"
    using aliases by blast
  then show ?thesis
  proof cases
    case 1
    then show ?thesis using body stay by simp
  next
    case 2
    then show ?thesis using body stay drop [OF 2(2)] by (elim disjE) (simp_all split: if_splits)
  next
    case 3
    then have one: "\<not> runtime_syscall_handle_alias_count (Some t) (Some ?h) > 1" using aliases by blast
    show ?thesis
    proof (cases "hi_type ?h \<in> {2, 3, 4, 5}")
      case False
      then show ?thesis using 3 one body stay by simp
    next
      case True
      note facts = 3(1) one body stay
      note unique = obj [OF 3(3)]
      from True consider "hi_type ?h = 2" | "hi_type ?h = 3" | "hi_type ?h = 4" | "hi_type ?h = 5" by blast
      then show ?thesis
      proof cases
        case 1
        then show ?thesis using facts by (cases "op_event_destroy ops") (auto intro: unique destroys.event)
      next
        case 2
        then show ?thesis using facts by (cases "op_mailbox_destroy ops") (auto intro: unique destroys.mailbox)
      next
        case 3
        then show ?thesis using facts
          by (cases "Option.bind (op_file_ops ops) fo_close")
            (auto simp: bind_eq_Some_conv not_less intro: unique destroys.opened)
      next
        case 4
        then show ?thesis
        proof (cases "op_service_close ops")
          case None
          then have "destroys ops (hi_type ?h) c (hi_object ?h) True c" using 4 by (simp add: destroys.no_service)
          from handle_step.last [OF used 3(3) this] show ?thesis using facts 4 None by auto
        qed (use facts 4 in \<open>auto simp: not_less intro: unique destroys.service\<close>)
      qed
    qed
  qed
qed

section \<open>The calls\<close>

text \<open>The result of a call, started in \<open>s\<close>, is one step away.\<close>

definition refines :: "'c runtime_syscall_ops \<Rightarrow> 'c sys_state \<Rightarrow> int \<times> 'c sys_state \<Rightarrow> bool" where
  "refines ops s r \<longleftrightarrow> (\<exists>t t'. sy_table s = Some t \<and> table_ok t \<and> sy_table (snd r) = Some t' \<and>
     handle_step ops (current_pid_or_0 ops (sy_context s)) (t, sy_context s) (t', sy_context (snd r)))"

definition sys_ok :: "'c sys_state \<Rightarrow> bool" where
  "sys_ok s \<longleftrightarrow> (\<exists>t. sy_table s = Some t \<and> table_ok t)"

lemma refines_plain:
  "sys_ok s \<Longrightarrow> plain ops (sy_context s) (sy_context s') \<Longrightarrow> sy_table s' = sy_table s \<Longrightarrow> refines ops s (r, s')"
  by (auto simp: refines_def sys_ok_def intro: handle_step.plain)

lemma refines_same [simp]: "sys_ok s \<Longrightarrow> refines ops s (r, s)"
  by (rule refines_plain) (simp_all add: plain.nothing)

lemma refines_call:
  assumes "sys_ok s" and "\<And>r c'. f (sy_context s) = (r, c') \<Longrightarrow> plain ops (sy_context s) c'"
  shows "refines ops s (q, snd (call_op f s))"
  using assms by (auto simp: call_op_def split: prod.splits intro: refines_plain)

lemma refines_call_if:
  assumes "sys_ok s" and "\<And>f r c'. F = Some f \<Longrightarrow> f (sy_context s) = (r, c') \<Longrightarrow> plain ops (sy_context s) c'"
  shows "refines ops s (call_if F s)"
  using assms by (auto simp: call_if_def call_op_def split: prod.splits option.splits intro: refines_plain)

lemma refines_call_u32_if:
  assumes "sys_ok s" and "\<And>f r c'. F = Some f \<Longrightarrow> f (sy_context s) = (r, c') \<Longrightarrow> plain ops (sy_context s) c'"
  shows "refines ops s (call_u32_if F s)"
  using assms by (auto simp: call_u32_if_def call_op_def split: prod.splits option.splits intro: refines_plain)

lemma refines_with_handle:
  assumes ok: "sys_ok s"
    and k: "\<And>t i. sy_table s = Some t \<Longrightarrow> table_ok t \<Longrightarrow> used_entry t i \<Longrightarrow>
      hi_owner_pid (t ! i) \<in> {0, current_pid_or_0 ops (sy_context s)} \<Longrightarrow> refines ops s (k (t ! i))"
  shows "refines ops s (with_handle ty ops h s k)"
proof -
  obtain t where t: "sy_table s = Some t" "table_ok t" using ok by (auto simp: sys_ok_def)
  show ?thesis
  proof (cases "runtime_syscall_lookup_handle (Some t) h")
    case None
    then show ?thesis using t ok by (simp add: with_handle_def)
  next
    case (Some i)
    with lookup_used [OF t(2)] have "used_entry t i" by blast
    with k [OF t this] access_ok [of "t ! i" ops "sy_context s"] ok Some t show ?thesis
      by (auto simp: with_handle_def Let_def)
  qed
qed

lemma refines_alloc:
  assumes "sys_ok s" and "\<And>t i. sy_table s = Some t \<Longrightarrow> free_entry t i \<Longrightarrow>
      handle_step ops (current_pid_or_0 ops (sy_context s)) (t, sy_context s) (t[i := entry_for i p ty x], sy_context s1)"
    and "\<And>t. sy_table s = Some t \<Longrightarrow> \<not> (\<exists>i. free_entry t i) \<Longrightarrow>
      handle_step ops (current_pid_or_0 ops (sy_context s)) (t, sy_context s) (t, sy_context s1)"
    and "sy_table s1 = sy_table s"
  shows "refines ops s (handle_or_enospc (alloc_handle_in p ty x s1))"
proof -
  obtain t where t: "sy_table s = Some t" "table_ok t" using assms(1) by (auto simp: sys_ok_def)
  from t(2) show ?thesis
  proof (cases rule: alloc_handle_cases [of t p ty x])
    case full
    then show ?thesis using assms(3) [OF t(1)] t assms(4)
      by (simp add: refines_def alloc_handle_in_def handle_or_enospc_def)
  next
    case (entry i)
    then show ?thesis using assms(2) [OF t(1)] t assms(4)
      by (auto simp: refines_def alloc_handle_in_def handle_or_enospc_def simp del: of_nat_Suc of_nat_add)
  qed
qed

lemma refines_process:
  assumes "sys_ok s" "plain ops (sy_context s) (sy_context s1)" "sy_table s1 = sy_table s"
    and "p = current_pid_or_0 ops (sy_context s)"
  shows "refines ops s (handle_or_enospc (alloc_handle_in p RUNTIME_HANDLE_TYPE_PROCESS x s1))"
  using assms by (auto intro!: refines_alloc handle_step.process handle_step.plain)

lemma refines_start_process:
  assumes "sys_ok s" and "\<And>f r c'. F = Some f \<Longrightarrow> f (sy_context s) = (r, c') \<Longrightarrow> plain ops (sy_context s) c'"
  shows "refines ops s (start_process F (current_pid_or_0 ops (sy_context s)) s)"
proof (cases F)
  case None
  then show ?thesis using assms(1) by (simp add: start_process_def)
next
  case (Some f)
  obtain pid c' where f: "f (sy_context s) = (pid, c')" by force
  let ?s = "s\<lparr>sy_context := c'\<rparr>"
  have p: "plain ops (sy_context s) (sy_context ?s)" using assms(2) [OF Some f] by simp
  have "refines ops s (handle_or_enospc (alloc_handle_in (current_pid_or_0 ops (sy_context s))
      RUNTIME_HANDLE_TYPE_PROCESS pid ?s))" by (rule refines_process [OF assms(1) p]) simp_all
  then show ?thesis using Some f refines_plain [OF assms(1) p] by (simp add: start_process_def call_op_def)
qed

lemma refines_create_object:
  assumes "sys_ok s"
    and made: "\<And>f x c'. F = Some f \<Longrightarrow> f (sy_context s) = (x, c') \<Longrightarrow> x \<noteq> 0 \<Longrightarrow> makes ops ty (sy_context s) x c'"
    and failed: "\<And>f c'. F = Some f \<Longrightarrow> f (sy_context s) = (0, c') \<Longrightarrow> make_fails ops (sy_context s) c'"
    and ty: "ty \<in> {RUNTIME_HANDLE_TYPE_EVENT, RUNTIME_HANDLE_TYPE_MAILBOX}"
  shows "refines ops s (create_object F ty (current_pid_or_0 ops (sy_context s)) s)"
proof (cases F)
  case None
  then show ?thesis using assms(1) by (simp add: create_object_def)
next
  case (Some f)
  obtain t where t: "sy_table s = Some t" "table_ok t" using assms(1) by (auto simp: sys_ok_def)
  obtain x c' where f: "f (sy_context s) = (x, c')" by force
  let ?p = "current_pid_or_0 ops (sy_context s)"
  have step: "handle_step ops ?p (t, sy_context s) (t, c')" if "x = 0 \<or> \<not> (\<exists>i. free_entry t i)"
    using that made [OF Some f] failed [OF Some] f ty
    by (cases "x = 0") (auto intro: handle_step.make_fails handle_step.make_leaks)
  from t(2) show ?thesis
  proof (cases rule: alloc_handle_cases [of t ?p ty x])
    case full
    then show ?thesis using Some f t step
      by (simp add: create_object_def call_op_def alloc_handle_in_def refines_def)
  next
    case (entry i)
    note n = handle_number [OF entry(3)]
    have i: "i < length t" "t ! i = no_entry"
      using entry(1) t(2) by (auto simp: free_entry_def table_ok_def entry_ok_def)
    have undo: "t[i := no_entry] = t" using i by (metis list_update_id)
    have "handle_step ops ?p (t, sy_context s) (t[i := entry_for i ?p ty x], c')" if "x \<noteq> 0"
      using handle_step.make [OF made [OF Some f that] entry(1)] by blast
    then show ?thesis using Some f t step n i undo entry(2)
      by (simp add: create_object_def call_op_def alloc_handle_in_def refines_def Let_def entry_for_def
          del: of_nat_Suc of_nat_add)
  qed
qed

lemma refines_open_object:
  assumes "sys_ok s"
    and made: "\<And>r x c'. F (sy_context s) = (r, x, c') \<Longrightarrow> \<not> r < 0 \<Longrightarrow> makes ops ty (sy_context s) x c'"
    and failed: "\<And>r x c'. F (sy_context s) = (r, x, c') \<Longrightarrow> r < 0 \<Longrightarrow> make_fails ops (sy_context s) c'"
    and closed: "\<And>f x c r c'. close = Some f \<Longrightarrow> f x c = (r, c') \<Longrightarrow> destroys ops ty c x (\<not> r < 0) c'"
    and open_end: "close = None \<Longrightarrow> (\<forall>c x r c''. \<not> destroys ops ty c x r c'') \<or> (\<forall>c x. destroys ops ty c x True c)"
  shows "refines ops s (open_object F close ty (current_pid_or_0 ops (sy_context s)) s)"
proof -
  obtain t where t: "sy_table s = Some t" "table_ok t" using assms(1) by (auto simp: sys_ok_def)
  obtain r x c' where f: "F (sy_context s) = (r, x, c')" by (cases "F (sy_context s)") auto
  let ?p = "current_pid_or_0 ops (sy_context s)"
  show ?thesis
  proof (cases "r < 0")
    case True
    then show ?thesis using handle_step.make_fails [OF failed [OF f True]] f t by (auto simp: open_object_def refines_def)
  next
    case False
    note m = made [OF f False]
    from t(2) show ?thesis
    proof (cases rule: alloc_handle_cases [of t ?p ty x])
      case (entry i)
      then show ?thesis using handle_step.make [OF m entry(1)] f t False handle_number(1) [OF entry(3)]
        by (auto simp: open_object_def alloc_handle_in_def refines_def simp del: of_nat_Suc of_nat_add)
    next
      case full
      have "handle_step ops ?p (t, sy_context s) (t, case close of None \<Rightarrow> c' | Some g \<Rightarrow> snd (g x c'))"
      proof (cases close)
        case None
        then show ?thesis using open_end handle_step.make_leaks [OF m _ full(2)] handle_step.make_undone [OF m _ full(2), of True c']
          by auto
      next
        case (Some g)
        obtain q d where "g x c' = (q, d)" by force
        then show ?thesis using handle_step.make_undone [OF m closed [OF Some] full(2)] Some by simp
      qed
      then show ?thesis using f t False full(1)
        by (cases close) (auto simp: open_object_def alloc_handle_in_def refines_def call_op_def split: prod.splits)
    qed
  qed
qed

text \<open>The calls that only pass on to an operation.\<close>

lemma refines_kill_pid: "sys_ok s \<Longrightarrow> refines ops s (kill_pid ops pid code s)"
  by (auto simp: kill_pid_def call_op_def split: option.splits prod.splits intro!: refines_plain intro: plain.kill)

lemma refines_info_at:
  assumes "sys_ok s" and "F \<in> {op_process_spawnable_info ops, op_service_info ops, op_app_info ops}"
  shows "refines ops s (info_at F args s)"
  using assms by (auto simp: info_at_def intro!: refines_call_if 
      intro: plain.spawnable_info [OF sym] plain.service_info [OF sym] plain.app_info [OF sym])

lemma refines_busy:
  assumes "sys_ok s" and "\<And>r c'. f (sy_context s) = (r, c') \<Longrightarrow> plain ops (sy_context s) c'"
  shows "refines ops s (busy_if_0 (call_op f s))"
  by (simp add: busy_if_0_def refines_call [of s f ops, OF assms])

lemma refines_infos: "sys_ok s \<Longrightarrow> refines ops s (r, s\<lparr>sy_infos := m\<rparr>)"
  by (rule refines_plain) (simp_all add: plain.nothing)

lemma process_calls:
  assumes ok: "sys_ok s"
  shows "refines ops s (syscall_getpid ops args s)"
    and "refines ops s (syscall_sleep ops args s)"
    and "refines ops s (syscall_kill ops args s)"
    and "refines ops s (syscall_process_self ops args s)"
    and "refines ops s (syscall_process_info ops args s)"
    and "refines ops s (syscall_process_terminate ops args s)"
    and "refines ops s (syscall_process_spawn ops args s)"
    and "refines ops s (syscall_app_launch ops args s)"
proof -
  show "refines ops s (syscall_getpid ops args s)" using ok by (simp add: syscall_getpid_def split: option.split)
  show "refines ops s (syscall_sleep ops args s)"
    using ok by (auto simp: syscall_sleep_def split: option.split intro!: refines_plain intro: plain.sleep)
  show "refines ops s (syscall_kill ops args s)" using ok by (simp add: syscall_kill_def refines_kill_pid)
  show "refines ops s (syscall_process_self ops args s)"
    using ok by (auto simp: syscall_process_self_def plain.nothing split: option.split intro!: refines_process)
  show "refines ops s (syscall_process_info ops args s)" unfolding syscall_process_info_def
    by (rule refines_with_handle [OF ok]) (auto simp: ok intro!: refines_call_if intro: plain.info)
  show "refines ops s (syscall_process_terminate ops args s)" unfolding syscall_process_terminate_def
    by (rule refines_with_handle [OF ok]) (simp add: ok refines_kill_pid)
  show "refines ops s (syscall_process_spawn ops args s)" unfolding syscall_process_spawn_def
    using ok by (auto intro!: refines_start_process intro: plain.spawn)
  show "refines ops s (syscall_app_launch ops args s)" unfolding syscall_app_launch_def
    using ok by (auto intro!: refines_start_process intro: plain.launch)
qed

lemma listing_calls:
  assumes ok: "sys_ok s"
  shows "refines ops s (syscall_process_spawnable_count ops args s)"
    and "refines ops s (syscall_service_count ops args s)"
    and "refines ops s (syscall_app_count ops args s)"
    and "refines ops s (syscall_process_spawnable_info ops args s)"
    and "refines ops s (syscall_service_info ops args s)"
    and "refines ops s (syscall_app_info ops args s)"
  unfolding syscall_process_spawnable_count_def syscall_service_count_def syscall_app_count_def
    syscall_process_spawnable_info_def syscall_service_info_def syscall_app_info_def
  by (auto intro!: refines_call_u32_if [OF ok] refines_info_at [OF ok] 
      intro: plain.spawnable_count plain.service_count plain.app_count)

lemma object_calls:
  assumes ok: "sys_ok s"
  shows "refines ops s (syscall_event_create ops args s)"
    and "refines ops s (syscall_mailbox_create ops args s)"
    and "refines ops s (syscall_event_signal ops args s)"
    and "refines ops s (syscall_mailbox_send ops args s)"
    and "refines ops s (syscall_mailbox_receive ops args s)"
    and "refines ops s (syscall_service_request ops args s)"
proof -
  show "refines ops s (syscall_event_create ops args s)" unfolding syscall_event_create_def
    by (rule refines_create_object [OF ok]) (auto intro: makes.event make_fails.event)
  show "refines ops s (syscall_mailbox_create ops args s)" unfolding syscall_mailbox_create_def
    by (rule refines_create_object [OF ok]) (auto intro: makes.mailbox make_fails.mailbox)
  show "refines ops s (syscall_event_signal ops args s)" unfolding syscall_event_signal_def
    by (rule refines_with_handle [OF ok]) (auto intro!: refines_call_u32_if [OF ok] intro: plain.signal)
  show "refines ops s (syscall_mailbox_send ops args s)" unfolding syscall_mailbox_send_def
    by (rule refines_with_handle [OF ok])
      (auto simp: ok split: option.split intro!: refines_busy [OF ok] intro: plain.send)
  show "refines ops s (syscall_mailbox_receive ops args s)" unfolding syscall_mailbox_receive_def
    by (rule refines_with_handle [OF ok])
      (auto simp: ok split: option.split intro!: refines_busy [OF ok] intro: plain.receive)
  show "refines ops s (syscall_service_request ops args s)" unfolding syscall_service_request_def
    by (rule refines_with_handle [OF ok]) (auto simp: ok intro!: refines_call_if [OF ok] intro: plain.request)
qed

lemma no_close_file:
  "op_file_ops ops = Some fo \<Longrightarrow> fo_close fo = None \<Longrightarrow> \<not> destroys ops RUNTIME_HANDLE_TYPE_FILE c x r c'"
  by (auto elim: destroys_fileE)

lemma open_calls:
  assumes ok: "sys_ok s"
  shows "refines ops s (syscall_file_open ops args s)" and "refines ops s (syscall_service_open ops args s)"
proof -
  show "refines ops s (syscall_file_open ops args s)" unfolding syscall_file_open_def
    by (auto simp: ok not_less no_close_file split: option.split intro!: refines_open_object [OF ok]
        intro: makes.opened make_fails.opened destroys.opened)
  show "refines ops s (syscall_service_open ops args s)" unfolding syscall_service_open_def
    by (auto simp: ok not_less split: option.split intro!: refines_open_object [OF ok]
        intro: makes.service make_fails.service destroys.service destroys.no_service)
qed

lemma refines_on_file:
  assumes ok: "sys_ok s"
    and "\<And>fo f x r c'. op_file_ops ops = Some fo \<Longrightarrow> sel fo = Some f \<Longrightarrow> f x (sy_context s) = (r, c') \<Longrightarrow>
      plain ops (sy_context s) c'"
  shows "refines ops s (on_file sel ops args s)"
  unfolding on_file_def
  by (rule refines_with_handle [OF ok])
    (use assms(2) in \<open>auto simp: bind_eq_Some_conv intro!: refines_call_if [OF ok]\<close>)

lemma file_calls:
  assumes ok: "sys_ok s"
  shows "refines ops s (syscall_file_read ops args s)"
    and "refines ops s (syscall_file_write ops args s)"
    and "refines ops s (syscall_file_stat ops args s)"
    and "refines ops s (syscall_file_readdir ops args s)"
    and "refines ops s (syscall_file_seek ops args s)"
    and "refines ops s (syscall_mkdir ops args s)"
    and "refines ops s (syscall_file_remove ops args s)"
    and "refines ops s (syscall_file_rename ops args s)"
  unfolding syscall_file_read_def syscall_file_write_def syscall_file_stat_def syscall_file_readdir_def
    syscall_file_seek_def syscall_mkdir_def syscall_file_remove_def syscall_file_rename_def
  by (auto simp: ok bind_eq_Some_conv intro!: refines_on_file [OF ok] refines_call_if [OF ok]
      intro: plain.file_read plain.file_write plain.file_stat plain.file_readdir plain.seek plain.mkdir plain.remove plain.rename split: if_splits)

lemma handle_calls:
  assumes ok: "sys_ok s"
  shows "refines ops s (syscall_handle_close ops args s)"
    and "refines ops s (syscall_handle_dup ops args s)"
    and "refines ops s (syscall_handle_info ops args s)"
proof -
  obtain t where t: "sy_table s = Some t" "table_ok t" using ok by (auto simp: sys_ok_def)
  show "refines ops s (syscall_handle_close ops args s)"
  proof (cases "runtime_syscall_lookup_handle (Some t) (arg0 args)")
    case None
    then show ?thesis using ok t by (simp add: syscall_handle_close_def)
  next
    case (Some i)
    then have used: "used_entry t i" using lookup_used [OF t(2)] by blast
    obtain r t' c' where close: "runtime_syscall_close_handle (Some i) (Some ops) t (sy_context s) True = (r, t', c')"
      by (cases "runtime_syscall_close_handle (Some i) (Some ops) t (sy_context s) True")
    let ?p = "current_pid_or_0 ops (sy_context s)"
    have "handle_step ops ?p (t, sy_context s) (t', c')"
    proof (cases "hi_owner_pid (t ! i) \<in> {0, ?p}")
      case True
      from close_handle_step [OF used True close] show ?thesis .
    next
      case False
      with access_ok [of "t ! i" ops "sy_context s"]
      have "runtime_syscall_check_handle_access (Some (t ! i)) (Some ops) (sy_context s) \<noteq> 0" by blast
      with close show ?thesis
        by (auto simp: runtime_syscall_close_handle_def Let_def intro: handle_step.plain plain.nothing)
    qed
    then show ?thesis using t Some close by (simp add: syscall_handle_close_def refines_def)
  qed
  show "refines ops s (syscall_handle_dup ops args s)" unfolding syscall_handle_dup_def
  proof (rule refines_with_handle [OF ok])
    fix t i
    assume "sy_table s = Some t" "used_entry t i" "hi_owner_pid (t ! i) \<in> {0, current_pid_or_0 ops (sy_context s)}"
    then show "refines ops s (handle_or_enospc (alloc_handle_in (hi_owner_pid (t ! i)) (hi_type (t ! i)) (hi_object (t ! i)) s))"
      by (intro refines_alloc [OF ok]) (auto intro: handle_step.dup handle_step.plain plain.nothing)
  qed
  show "refines ops s (syscall_handle_info ops args s)" unfolding syscall_handle_info_def
    using ok by (auto simp: refines_infos intro!: refines_with_handle split: option.split)
qed

lemmas all_calls = process_calls listing_calls object_calls open_calls file_calls handle_calls

lemma dispatch_step:
  assumes "sys_ok s"
  shows "refines ops s (runtime_syscall_dispatch n (Some args) (Some ops) s)"
proof (cases "map_of (syscall_table_of :: (u32 \<times> 'a syscall) list) n")
  case None
  then show ?thesis using assms by (simp add: runtime_syscall_dispatch_def)
next
  case (Some f)
  have "\<forall>(n, f) \<in> set (syscall_table_of :: (u32 \<times> 'a syscall) list). refines ops s (f ops args s)"
    unfolding syscall_table_of_def by (simp add: all_calls [OF assms])
  with map_of_SomeD [OF Some] have "refines ops s (f ops args s)" by blast
  then show ?thesis using Some by (simp add: runtime_syscall_dispatch_def)
qed

section \<open>Releasing the handles of a process\<close>

abbreviation (input) handle_steps ::
  "'c runtime_syscall_ops \<Rightarrow> u32 \<Rightarrow> runtime_syscall_table \<times> 'c \<Rightarrow> runtime_syscall_table \<times> 'c \<Rightarrow> bool" where
  "handle_steps ops p \<equiv> (handle_step ops p)\<^sup>*\<^sup>*"

lemma close_length:
  "used_entry t i \<Longrightarrow> hi_owner_pid (t ! i) \<in> {0, p} \<Longrightarrow>
   runtime_syscall_close_handle (Some i) (Some ops) t c e = (r, t', c') \<Longrightarrow> length t' = length t"
  using close_handle_step by (fastforce elim: handle_step.cases)

lemma release_steps:
  assumes "release_from p ops is n t c = (n', t', c')" and "\<forall>i \<in> set is. i < length t"
  shows "handle_steps ops p (t, c) (t', c')"
  using assms
proof (induction "is" arbitrary: n t c)
  case (Cons i "is")
  show ?case
  proof (cases "hi_type (t ! i) = 0 \<or> hi_owner_pid (t ! i) \<noteq> p")
    case True
    then show ?thesis using Cons by auto
  next
    case False
    obtain r t1 c1 where close: "runtime_syscall_close_handle (Some i) (Some ops) t c False = (r, t1, c1)"
      by (cases "runtime_syscall_close_handle (Some i) (Some ops) t c False")
    have used: "used_entry t i" "hi_owner_pid (t ! i) \<in> {0, p}" using False Cons(3) by (auto simp: used_entry_def)
    have "handle_steps ops p (t1, c1) (t', c')"
      using Cons.IH [of _ t1 c1] Cons.prems close False close_length [OF used close] by auto
    with close_handle_step [OF used close] show ?thesis by (rule converse_rtranclp_into_rtranclp)
  qed
qed simp

end
