(* ===== verification/Runtime_Syscall_Props.thy ===== *)
theory Runtime_Syscall_Props
  imports Runtime_Syscall_Refine
begin

text \<open>
  The theorems on the system-call layer: the dispatcher implements the transition system of handles, a process cannot reach
  the handles of another, a duplicate can be closed without effect, and the handles of a process are released.
  The contract \<open>object_lifetime\<close> says what the operations must promise for handles never to outlive their objects.
\<close>

section \<open>Refinement\<close>

text \<open>C24: every system call is one step of the transition system of handles, taken for the calling process: it
  calls an operation that leaves the handles alone, gives a new object a free entry, duplicates an entry the process may
  use, or closes such an entry, destroying the object exactly when no other entry stands for it; the table keeps its shape.\<close>

theorem dispatch_refines_handle_step:
  assumes "sy_table s = Some t" and "table_ok t"
    and "runtime_syscall_dispatch n (Some args) (Some ops) s = (r, s')"
  shows "\<exists>t'. sy_table s' = Some t' \<and> table_ok t' \<and>
    handle_step ops (current_pid_or_0 ops (sy_context s)) (t, sy_context s) (t', sy_context s')"
proof -
  have "refines ops s (runtime_syscall_dispatch n (Some args) (Some ops) s)"
    using assms(1,2) by (intro dispatch_step) (auto simp: sys_ok_def)
  then show ?thesis using assms handle_step_table_ok by (fastforce simp: refines_def)
qed

section \<open>Confinement\<close>

text \<open>The calls whose first argument is a handle.\<close>

definition handle_syscalls :: "u32 set" where
  "handle_syscalls = {RUNTIME_SYSCALL_HANDLE_CLOSE, RUNTIME_SYSCALL_HANDLE_DUP, RUNTIME_SYSCALL_HANDLE_INFO,
     RUNTIME_SYSCALL_PROCESS_INFO, RUNTIME_SYSCALL_PROCESS_TERMINATE, RUNTIME_SYSCALL_SERVICE_REQUEST,
     RUNTIME_SYSCALL_EVENT_SIGNAL, RUNTIME_SYSCALL_MAILBOX_SEND, RUNTIME_SYSCALL_MAILBOX_RECEIVE,
     RUNTIME_SYSCALL_FILE_READ, RUNTIME_SYSCALL_FILE_WRITE, RUNTIME_SYSCALL_FILE_STAT, RUNTIME_SYSCALL_FILE_READDIR,
     RUNTIME_SYSCALL_FILE_SEEK}"

lemma with_handle_foreign:
  assumes "sy_table s = Some t" "table_ok t" "op_process_current_pid ops = Some current"
    and "used_entry t i" "hi_owner_pid (t ! i) \<notin> {0, current (sy_context s)}" and "h = of_nat (i + 1)"
  shows "with_handle ty ops h s k = (RUNTIME_SYSCALL_STATUS_EBADF, s)"
  using assms lookup_entry [OF assms(2,4)]
  by (simp add: with_handle_def runtime_syscall_check_handle_access_def Let_def del: of_nat_Suc of_nat_add)

lemma close_foreign:
  assumes "sy_table s = Some t" "table_ok t" "op_process_current_pid ops = Some current"
    and "used_entry t i" "hi_owner_pid (t ! i) \<notin> {0, current (sy_context s)}" and "arg0 args = of_nat (i + 1)"
  shows "syscall_handle_close ops args s = (RUNTIME_SYSCALL_STATUS_EBADF, s)"
  using assms lookup_entry [OF assms(2,4)]
  by (simp add: syscall_handle_close_def runtime_syscall_close_handle_def runtime_syscall_check_handle_access_def Let_def
      del: of_nat_Suc of_nat_add)

lemma foreign_refused:
  assumes "sy_table s = Some t" "table_ok t" "op_process_current_pid ops = Some current"
    and "used_entry t i" "hi_owner_pid (t ! i) \<notin> {0, current (sy_context s)}"
    and "n \<in> handle_syscalls" "arg0 args = of_nat (i + 1)"
  shows "runtime_syscall_dispatch n (Some args) (Some ops) s = (RUNTIME_SYSCALL_STATUS_EBADF, s)"
proof -
  note foreign = with_handle_foreign [OF assms(1-5,7)] close_foreign [OF assms(1-5,7)]
  from assms(6) show ?thesis unfolding handle_syscalls_def
    by (elim insertE emptyE) (simp_all add: runtime_syscall_dispatch_def syscall_table_of_def foreign
        syscall_handle_dup_def syscall_handle_info_def syscall_process_info_def syscall_process_terminate_def
        syscall_service_request_def syscall_event_signal_def syscall_mailbox_send_def syscall_mailbox_receive_def
        syscall_file_read_def syscall_file_write_def syscall_file_stat_def syscall_file_readdir_def
        syscall_file_seek_def on_file_def)
qed

text \<open>C25: a process cannot touch the handles of another process. No system call changes an entry that belongs to another
  process, and a call on such a handle is refused with EBADF and changes nothing, neither the table nor the context.\<close>

theorem foreign_handles_confined:
  assumes "sy_table s = Some t" "table_ok t" "op_process_current_pid ops = Some current"
    and "i < length t" "hi_type (t ! i) \<noteq> RUNTIME_HANDLE_TYPE_NONE" "hi_owner_pid (t ! i) \<notin> {0, current (sy_context s)}"
  shows "\<exists>t'. sy_table (snd (runtime_syscall_dispatch n (Some args) (Some ops) s)) = Some t' \<and> t' ! i = t ! i \<and>
    (n \<in> handle_syscalls \<and> arg0 args = of_nat (i + 1) \<longrightarrow>
      runtime_syscall_dispatch n (Some args) (Some ops) s = (RUNTIME_SYSCALL_STATUS_EBADF, s))"
proof -
  have used: "used_entry t i" using assms(4,5) by (simp add: used_entry_def)
  have p: "current_pid_or_0 ops (sy_context s) = current (sy_context s)" using assms(3) by (simp add: current_pid_or_0_def)
  have "refines ops s (runtime_syscall_dispatch n (Some args) (Some ops) s)"
    using assms(1,2) by (intro dispatch_step) (auto simp: sys_ok_def)
  then obtain t' where t': "sy_table (snd (runtime_syscall_dispatch n (Some args) (Some ops) s)) = Some t'"
      "handle_step ops (current (sy_context s)) (t, sy_context s)
         (t', sy_context (snd (runtime_syscall_dispatch n (Some args) (Some ops) s)))"
    using assms(1) p by (auto simp: refines_def)
  from handle_step_foreign [OF t'(2), of i] used assms(6) have "t' ! i = t ! i" by simp
  then show ?thesis using t'(1) foreign_refused [OF assms(1-3) used assms(6)] by blast
qed

section \<open>Duplicates\<close>

lemma dup_result:
  assumes "sy_table s = Some t" "table_ok t"
    and "syscall_handle_dup ops args s = (r, s')" "0 < r"
  obtains i j where "used_entry t j" "arg0 args = of_nat (j + 1)" "free_entry t i" "r = int (i + 1)"
    "runtime_syscall_check_handle_access (Some (t ! j)) (Some ops) (sy_context s) = RUNTIME_SYSCALL_STATUS_OK"
    "s' = s\<lparr>sy_table := Some (t[i := entry_for i (hi_owner_pid (t ! j)) (hi_type (t ! j)) (hi_object (t ! j))])\<rparr>"
proof -
  let ?st = "\<lambda>j. runtime_syscall_check_handle_access (Some (t ! j)) (Some ops) (sy_context s)"
  have neg: "?st j \<le> 0" for j
    by (auto simp: runtime_syscall_check_handle_access_def Let_def split: option.split)
  obtain j where j: "runtime_syscall_lookup_handle (Some t) (arg0 args) = Some j" "?st j = 0"
      "(r, s') = handle_or_enospc (alloc_handle_in (hi_owner_pid (t ! j)) (hi_type (t ! j)) (hi_object (t ! j)) s)"
    using assms neg by (auto simp: syscall_handle_dup_def with_handle_def Let_def not_le [symmetric] split: option.splits if_splits)
  note used = lookup_used [OF assms(2) j(1)]
  from assms(2) show ?thesis
  proof (cases rule: alloc_handle_cases [of t "hi_owner_pid (t ! j)" "hi_type (t ! j)" "hi_object (t ! j)"])
    case full
    then show ?thesis using j(3) assms(1,4) by (simp add: alloc_handle_in_def handle_or_enospc_def)
  next
    case (entry i)
    have "sint (of_nat (i + 1) :: u32) = int (i + 1)"
      using entry(3) by (intro sint_small) (simp add: RUNTIME_SYSCALL_MAX_HANDLES_def)
    then show ?thesis using that [OF conjunct1 [OF used] conjunct2 [OF used] entry(1) _ j(2)] j(3) entry(2,3) assms(1) handle_number(1) [OF entry(3)]
      by (auto simp: alloc_handle_in_def handle_or_enospc_def simp del: of_nat_Suc of_nat_add)
  qed
qed

text \<open>Duplicating a handle and closing the duplicate is without effect. After a successful HANDLE_DUP the new handle
  has the owner, the type and the object of the old one, and closing it succeeds, calls no destructor and gives back exactly the
  state before.\<close>

theorem dup_close_roundtrip:
  assumes "sy_table s = Some t" "table_ok t"
    and "runtime_syscall_dispatch RUNTIME_SYSCALL_HANDLE_DUP (Some args) (Some ops) s = (r, s1)" "0 < r"
  shows "(\<exists>h k. runtime_syscall_lookup_handle_const (Some t) (arg0 args) = Some h \<and>
      runtime_syscall_lookup_handle_const (sy_table s1) (word_of_int r) = Some k \<and> same_object h k) \<and>
    runtime_syscall_dispatch RUNTIME_SYSCALL_HANDLE_CLOSE (Some (args\<lparr>arg0 := word_of_int r\<rparr>)) (Some ops) s1 =
      (RUNTIME_SYSCALL_STATUS_OK, s)"
proof -
  have "syscall_handle_dup ops args s = (r, s1)"
    using assms(3) by (simp add: runtime_syscall_dispatch_def syscall_table_of_def)
  then obtain i j where j: "used_entry t j" "arg0 args = of_nat (j + 1)" and i: "free_entry t i" "r = int (i + 1)"
    and access: "runtime_syscall_check_handle_access (Some (t ! j)) (Some ops) (sy_context s) = RUNTIME_SYSCALL_STATUS_OK"
    and s1: "s1 = s\<lparr>sy_table := Some (t[i := entry_for i (hi_owner_pid (t ! j)) (hi_type (t ! j)) (hi_object (t ! j))])\<rparr>"
    using dup_result [OF assms(1,2) _ assms(4)] by metis
  let ?k = "entry_for i (hi_owner_pid (t ! j)) (hi_type (t ! j)) (hi_object (t ! j))"
  let ?t = "t[i := ?k]"
  have len: "length t = RUNTIME_SYSCALL_MAX_HANDLES" using assms(2) by (simp add: table_ok_def)
  have ij: "i < length t" "j < length t" "i \<noteq> j" using i(1) j(1) by (auto simp: free_entry_def used_entry_def)
  have ti: "t ! i = no_entry" using i(1) assms(2) by (auto simp: free_entry_def table_ok_def entry_ok_def)
  have r: "(word_of_int r :: u32) = of_nat (i + 1)" using i(2) by simp
  have k: "?t ! i = ?k" "?t ! j = t ! j" using ij by (simp_all add: nth_list_update)
  have used: "used_entry ?t i" using ij j(1) k by (simp add: used_entry_def entry_for_def)
  have ok: "table_ok ?t" using handle_step_table_ok [OF handle_step.dup [OF j(1) _ i(1), of "hi_owner_pid (t ! j)" undefined]] assms(2)
    by simp
  have same: "same_object (t ! j) ?k" by (simp add: same_object_def entry_for_def)
  have look: "runtime_syscall_lookup_handle (Some ?t) (word_of_int r) = Some i" unfolding r by (rule lookup_entry [OF ok used])
  have "runtime_syscall_lookup_handle_const (Some t) (arg0 args) = Some (t ! j)"
    "runtime_syscall_lookup_handle_const (Some ?t) (word_of_int r) = Some ?k"
    using lookup_entry [OF assms(2) j(1)] look k j(2) handle_number(3) [of j] handle_number(3) [of i] ij len r
    by (auto simp: runtime_syscall_lookup_handle_const_def runtime_syscall_lookup_handle_def Let_def
        split: if_splits simp del: of_nat_Suc of_nat_add)
  moreover have "runtime_syscall_check_handle_access (Some ?k) (Some ops) (sy_context s) = 0"
    using access by (cases "op_process_current_pid ops") (simp_all add: runtime_syscall_check_handle_access_def entry_for_def)
  moreover have "runtime_syscall_handle_alias_count (Some ?t) (Some (?t ! i)) > 1"
    using alias_count_iff [of i ?t] ij same k by auto
  moreover have "?t[i := no_entry] = t" using ti ij by (metis list_update_id list_update_overwrite)
  moreover have "hi_type ?k \<in> {1, 2, 3, 4, 5}" using handle_type_cases [of "hi_type (t ! j)"] j(1) assms(2)
    by (auto simp: entry_for_def used_entry_def table_ok_def entry_ok_def split: if_splits)
  ultimately show ?thesis using look same s1 k(1) assms(1)
    by (auto simp: runtime_syscall_dispatch_def syscall_table_of_def syscall_handle_close_def
        runtime_syscall_close_handle_def Let_def)
qed

section \<open>A small system\<close>

text \<open>A table with one handle of process 9 and one of process 7; process 7 runs and has no operations but its process id.\<close>

definition no_ops :: "'c runtime_syscall_ops" where
  "no_ops = \<lparr>op_process_current_pid = None, op_process_sleep = None, op_process_kill = None, op_process_info = None,
     op_process_spawn_named = None, op_process_spawnable_count = None, op_process_spawnable_info = None,
     op_service_count = None, op_service_info = None, op_service_open = None, op_service_close = None,
     op_service_request = None, op_app_count = None, op_app_info = None, op_app_launch = None, op_event_create = None,
     op_event_destroy = None, op_event_signal = None, op_mailbox_create = None, op_mailbox_destroy = None,
     op_mailbox_send = None, op_mailbox_receive = None, op_fs_mkdir = None, op_file_ops = None\<rparr>"

definition demo_ops :: "unit runtime_syscall_ops" where
  "demo_ops = no_ops\<lparr>op_process_current_pid := Some (\<lambda>_. 7)\<rparr>"

definition demo_table :: runtime_syscall_table where
  "demo_table = (replicate 16 no_entry)[0 := entry_for 0 9 RUNTIME_HANDLE_TYPE_EVENT 40,
     1 := entry_for 1 7 RUNTIME_HANDLE_TYPE_EVENT 80]"

definition demo_sys :: "unit sys_state" where
  "demo_sys = \<lparr>sy_table = Some demo_table, sy_context = (), sy_infos = (\<lambda>_. no_entry)\<rparr>"

definition demo_args :: "uintptr \<Rightarrow> runtime_syscall_args" where
  "demo_args h = \<lparr>arg0 = h, arg1 = 0, arg2 = 0, arg3 = 0\<rparr>"

lemma demo_table_ok: "table_ok demo_table"
  unfolding demo_table_def
  by (intro table_ok_upd) (simp_all add: table_ok_def RUNTIME_SYSCALL_MAX_HANDLES_def)

lemma demo_table_entries: "length demo_table = 16" "demo_table ! 0 = entry_for 0 9 2 40" "demo_table ! 1 = entry_for 1 7 2 80"
  by (simp_all add: demo_table_def)

theorem dispatch_refines_handle_step_witness:
  "\<exists>t' s' r. runtime_syscall_dispatch RUNTIME_SYSCALL_HANDLE_DUP (Some (demo_args 2)) (Some demo_ops) demo_sys = (r, s') \<and>
     sy_table s' = Some t' \<and> table_ok t'"
proof -
  obtain r s' where d: "runtime_syscall_dispatch RUNTIME_SYSCALL_HANDLE_DUP (Some (demo_args 2)) (Some demo_ops) demo_sys = (r, s')"
    by force
  from dispatch_refines_handle_step [OF _ demo_table_ok d] d show ?thesis by (auto simp: demo_sys_def)
qed

theorem foreign_handles_confined_witness:
  "runtime_syscall_dispatch RUNTIME_SYSCALL_HANDLE_CLOSE (Some (demo_args 1)) (Some demo_ops) demo_sys =
     (RUNTIME_SYSCALL_STATUS_EBADF, demo_sys)"
proof -
  have f: "sy_table demo_sys = Some demo_table" "op_process_current_pid demo_ops = Some (\<lambda>_. 7)"
      "RUNTIME_SYSCALL_HANDLE_CLOSE \<in> handle_syscalls" "arg0 (demo_args 1) = of_nat (0 + 1)"
    by (simp_all add: demo_sys_def demo_ops_def no_ops_def handle_syscalls_def demo_args_def)
  have "0 < length demo_table" "hi_type (demo_table ! 0) \<noteq> 0" "hi_owner_pid (demo_table ! 0) \<notin> {0, 7}"
    by (simp_all add: demo_table_entries entry_for_def)
  from foreign_handles_confined [OF f(1) demo_table_ok f(2) this] f(3,4) show ?thesis by blast
qed

lemma demo_dup:
  "fst (runtime_syscall_dispatch RUNTIME_SYSCALL_HANDLE_DUP (Some (demo_args 2)) (Some demo_ops) demo_sys) = 3"
  by code_simp

theorem dup_close_roundtrip_witness:
  "\<exists>s1. runtime_syscall_dispatch RUNTIME_SYSCALL_HANDLE_DUP (Some (demo_args 2)) (Some demo_ops) demo_sys = (3, s1) \<and>
     runtime_syscall_dispatch RUNTIME_SYSCALL_HANDLE_CLOSE (Some (demo_args 3)) (Some demo_ops) s1 =
       (RUNTIME_SYSCALL_STATUS_OK, demo_sys)"
proof -
  obtain s1 where d: "runtime_syscall_dispatch RUNTIME_SYSCALL_HANDLE_DUP (Some (demo_args 2)) (Some demo_ops) demo_sys = (3, s1)"
    using demo_dup by (metis prod.collapse)
  from dup_close_roundtrip [OF _ demo_table_ok d] d show ?thesis by (auto simp: demo_sys_def demo_args_def)
qed

section \<open>Releasing the handles of a process\<close>

definition owned :: "runtime_syscall_table \<Rightarrow> u32 \<Rightarrow> nat set" where
  "owned t p = {i. used_entry t i \<and> hi_owner_pid (t ! i) = p}"

text \<open>The destructors are there and do not refuse.\<close>

definition never_refuses :: "'c runtime_syscall_ops \<Rightarrow> bool" where
  "never_refuses ops \<longleftrightarrow>
     (\<exists>f. op_event_destroy ops = Some f \<and> (\<forall>x c. fst (f x c) \<noteq> 0)) \<and>
     (\<exists>f. op_mailbox_destroy ops = Some f \<and> (\<forall>x c. fst (f x c) \<noteq> 0)) \<and>
     (\<exists>f. Option.bind (op_file_ops ops) fo_close = Some f \<and> (\<forall>x c. \<not> fst (f x c) < 0)) \<and>
     (\<forall>f. op_service_close ops = Some f \<longrightarrow> (\<forall>x c. \<not> fst (f x c) < 0))"

lemma close_object_result:
  assumes "close_object f refused st i t c = (r, t', c')" and "st \<noteq> 0"
  shows "(r = 0 \<and> t' = t[i := no_entry]) \<or> (r \<noteq> 0 \<and> t' = t)" and "(\<forall>x c. \<not> refused (fst (f x c))) \<Longrightarrow> r = 0"
proof -
  obtain q d where "f (hi_object (t ! i)) c = (q, d)" by force
  with assms show "(r = 0 \<and> t' = t[i := no_entry]) \<or> (r \<noteq> 0 \<and> t' = t)" "(\<forall>x c. \<not> refused (fst (f x c))) \<Longrightarrow> r = 0"
    by (auto simp: close_object_def split: if_splits) (metis fst_conv)
qed

lemma close_result:
  assumes "runtime_syscall_close_handle (Some i) (Some ops) t c False = (r, t', c')"
  shows "(r = 0 \<and> t' = t[i := no_entry]) \<or> (r \<noteq> 0 \<and> t' = t)"
  using assms
  by (auto simp: runtime_syscall_close_handle_def Let_def split: if_splits option.splits dest!: close_object_result(1))

lemma close_succeeds:
  assumes "runtime_syscall_close_handle (Some i) (Some ops) t c False = (r, t', c')"
    and "never_refuses ops" and "hi_type (t ! i) \<in> {1, 2, 3, 4, 5}"
  shows "r = 0"
  using assms
  by (auto simp: runtime_syscall_close_handle_def never_refuses_def Let_def split: if_splits option.splits
      dest: close_object_result(2))

lemma owned_upd:
  "i \<in> owned t p \<Longrightarrow> owned (t[i := no_entry]) p = owned t p - {i}"
  by (auto simp: owned_def used_entry_def nth_list_update_if no_entry_def split: if_splits)

lemma finite_owned [simp]: "finite (owned t p)"
  by (rule finite_subset [of _ "{..<length t}"]) (auto simp: owned_def used_entry_def)

lemma release_from_account:
  assumes "release_from p ops is n t c = (n', t', c')" and "\<forall>i \<in> set is. i < length t" and "distinct is"
  shows "n' + card (owned t' p) = n + card (owned t p) \<and> owned t' p \<subseteq> owned t p \<and>
    (\<forall>i. i \<notin> owned t p \<longrightarrow> t' ! i = t ! i) \<and>
    (never_refuses ops \<and> table_ok t \<longrightarrow> owned t' p \<inter> set is = {})"
  using assms
proof (induction "is" arbitrary: n t c)
  case (Cons i "is")
  show ?case
  proof (cases "i \<in> owned t p")
    case False
    then have "release_from p ops is n t c = (n', t', c')" using Cons.prems by (auto simp: owned_def used_entry_def)
    with Cons.IH [OF this] Cons.prems False show ?thesis by auto
  next
    case True
    obtain r t1 c1 where close: "runtime_syscall_close_handle (Some i) (Some ops) t c False = (r, t1, c1)"
      by (cases "runtime_syscall_close_handle (Some i) (Some ops) t c False")
    have rest: "release_from p ops is (if r = 0 then n + 1 else n) t1 c1 = (n', t', c')"
      using Cons.prems(1) True close by (simp add: owned_def used_entry_def)
    from close_result [OF close] consider (closed) "r = 0" "t1 = t[i := no_entry]" | (kept) "r \<noteq> 0" "t1 = t" by blast
    then show ?thesis
    proof cases
      case closed
      have o1: "owned t1 p = owned t p - {i}" using closed(2) owned_upd [OF True] by simp
      have c1: "card (owned t p) = Suc (card (owned t1 p))"
        using o1 True by (metis card_Suc_Diff1 finite_owned)
      have same: "\<forall>k. k \<noteq> i \<longrightarrow> t1 ! k = t ! k" using closed(2) by (simp add: nth_list_update_if)
      have ok1: "table_ok t \<Longrightarrow> table_ok t1" using closed(2) by (simp add: table_ok_upd)
      note IH = Cons.IH [OF rest]
      from IH Cons.prems(2,3) closed have IH: "n' + card (owned t' p) = n + 1 + card (owned t1 p)"
          "owned t' p \<subseteq> owned t1 p" "\<forall>i. i \<notin> owned t1 p \<longrightarrow> t' ! i = t1 ! i"
          "never_refuses ops \<and> table_ok t1 \<longrightarrow> owned t' p \<inter> set is = {}" by auto
      have "t' ! k = t ! k" if "k \<notin> owned t p" for k
        using that IH(3) [rule_format, of k] same [rule_format, of k] o1 True by (cases "k = i") simp_all
      then have "\<forall>k. k \<notin> owned t p \<longrightarrow> t' ! k = t ! k" by blast
      moreover have "never_refuses ops \<and> table_ok t \<longrightarrow> owned t' p \<inter> set (i # is) = {}" using IH(2,4) ok1 o1 by auto
      moreover have "n' + card (owned t' p) = n + card (owned t p)" using IH(1) c1 by simp
      moreover have "owned t' p \<subseteq> owned t p" using IH(2) o1 by blast
      ultimately show ?thesis by blast
    next
      case kept
      have "\<not> (never_refuses ops \<and> table_ok t)"
      proof
        assume a: "never_refuses ops \<and> table_ok t"
        then have "hi_type (t ! i) \<in> {1, 2, 3, 4, 5}"
          using True handle_type_cases [of "hi_type (t ! i)"]
          by (auto simp: owned_def used_entry_def table_ok_def entry_ok_def split: if_splits)
        from close_succeeds [OF close _ this] a kept(1) show False by blast
      qed
      with Cons.IH [OF rest] Cons.prems(2,3) kept show ?thesis by auto
    qed
  qed
qed auto

text \<open>When a process goes, runtime_syscall_release_owner_handles closes handles of this process only; the result counts
  exactly the handles that went away, so what it does not count is still there; and if no destructor refuses, no handle of
  the process is left.\<close>

theorem release_owner_handles_account:
  assumes "table_ok t" and "p \<noteq> 0" and "runtime_syscall_release_owner_handles (Some t) p (Some ops) c = (n, t', c')"
  shows "\<exists>u. t' = Some u \<and> n + card (owned u p) = card (owned t p) \<and> owned u p \<subseteq> owned t p \<and>
    (\<forall>i. i \<notin> owned t p \<longrightarrow> u ! i = t ! i) \<and> (never_refuses ops \<longrightarrow> owned u p = {})"
proof -
  obtain u where u: "release_from p ops [0..<RUNTIME_SYSCALL_MAX_HANDLES] 0 t c = (n, u, c')" "t' = Some u"
    using assms(2,3) by (auto simp: runtime_syscall_release_owner_handles_def split: prod.splits)
  have len: "length t = RUNTIME_SYSCALL_MAX_HANDLES" using assms(1) by (simp add: table_ok_def)
  from release_from_account [OF u(1)] len have
    "n + card (owned u p) = card (owned t p)" "owned u p \<subseteq> owned t p" "\<forall>i. i \<notin> owned t p \<longrightarrow> u ! i = t ! i"
    "never_refuses ops \<longrightarrow> owned u p \<inter> {0..<RUNTIME_SYSCALL_MAX_HANDLES} = {}" using assms(1) by auto
  moreover have "owned t p \<subseteq> {0..<RUNTIME_SYSCALL_MAX_HANDLES}" using len by (auto simp: owned_def used_entry_def)
  ultimately show ?thesis using u(2) by blast
qed

theorem release_owner_handles_account_witness:
  "\<exists>n t' c'. runtime_syscall_release_owner_handles (Some demo_table) 7 (Some demo_ops) () = (n, t', c') \<and>
     (\<exists>u. t' = Some u \<and> n + card (owned u 7) = card (owned demo_table 7))"
proof -
  obtain n t' c' where r: "runtime_syscall_release_owner_handles (Some demo_table) 7 (Some demo_ops) () = (n, t', c')"
    by (cases "runtime_syscall_release_owner_handles (Some demo_table) 7 (Some demo_ops) ()")
  from release_owner_handles_account [OF demo_table_ok _ r] r show ?thesis by auto
qed

section \<open>A full table\<close>

text \<open>
  With a full table EVENT_CREATE still creates the event: the call reports ENOSPC, the table stays, and the context keeps
  an event that no handle stands for. (FILE_OPEN and SERVICE_OPEN close the object again.)
\<close>

lemma event_create_leaks:
  assumes "sy_table s = Some t" "table_ok t" "\<not> (\<exists>i. free_entry t i)"
    and "op_event_create ops = Some f" "f (sy_context s) = (x, c')"
  shows "runtime_syscall_dispatch RUNTIME_SYSCALL_EVENT_CREATE (Some args) (Some ops) s =
    (RUNTIME_SYSCALL_STATUS_ENOSPC, s\<lparr>sy_context := c'\<rparr>)"
  using assms(2)
proof (cases rule: alloc_handle_cases [of t "current_pid_or_0 ops (sy_context s)" RUNTIME_HANDLE_TYPE_EVENT x])
  case full
  then show ?thesis using assms
    by (simp add: runtime_syscall_dispatch_def syscall_table_of_def syscall_event_create_def create_object_def call_op_def
        alloc_handle_in_def)
qed (use assms(3) in blast)

end
