(* ===== verification/Runtime_Syscall_Objects.thy ===== *)
theory Runtime_Syscall_Objects
  imports Runtime_Syscall_Props
begin

text \<open>
  When handles never outlive their objects. The locale \<open>object_lifetime\<close> states what the operations
  behind the system calls must promise about the objects of one type; under it every handle of the type stands for a live
  object, in every state that calls and releases lead to.
\<close>

inductive syscall_reachable ::
  "'c runtime_syscall_ops \<Rightarrow> runtime_syscall_table \<times> 'c \<Rightarrow> runtime_syscall_table \<times> 'c \<Rightarrow> bool" for ops start where
  start: "syscall_reachable ops start start"
| call: "syscall_reachable ops start (t, c) \<Longrightarrow> sy_table s = Some t \<Longrightarrow> sy_context s = c \<Longrightarrow>
    runtime_syscall_dispatch n (Some args) (Some ops) s = (r, s') \<Longrightarrow> sy_table s' = Some t' \<Longrightarrow>
    syscall_reachable ops start (t', sy_context s')"
| release: "syscall_reachable ops start (t, c) \<Longrightarrow>
    runtime_syscall_release_owner_handles (Some t) p (Some ops) c = (n, Some t', c') \<Longrightarrow> syscall_reachable ops start (t', c')"

lemma release_handle_steps:
  assumes "runtime_syscall_release_owner_handles (Some t) p (Some ops) c = (n, Some t', c')" and "table_ok t"
  shows "(handle_step ops p)\<^sup>*\<^sup>* (t, c) (t', c')"
proof (cases "p = 0")
  case False
  then have "release_from p ops [0..<RUNTIME_SYSCALL_MAX_HANDLES] 0 t c = (n, t', c')"
    using assms(1) by (auto simp: runtime_syscall_release_owner_handles_def split: prod.splits)
  from release_steps [OF this] assms(2) show ?thesis by (simp add: table_ok_def)
qed (use assms(1) in \<open>simp add: runtime_syscall_release_owner_handles_def\<close>)

text \<open>What every handle step keeps holds in every reachable state.\<close>

lemma syscall_reachable_induct:
  assumes "syscall_reachable ops start tc" and "table_ok (fst start)" and "I start"
    and step: "\<And>p tc tc'. I tc \<Longrightarrow> table_ok (fst tc) \<Longrightarrow> handle_step ops p tc tc' \<Longrightarrow> I tc'"
  shows "I tc \<and> table_ok (fst tc)"
  using assms(1)
proof induction
  case start
  then show ?case using assms(2,3) by simp
next
  case (call t c s n args r s' t')
  have "refines ops s (runtime_syscall_dispatch n (Some args) (Some ops) s)"
    using call by (intro dispatch_step) (auto simp: sys_ok_def)
  then have "handle_step ops (current_pid_or_0 ops (sy_context s)) (t, c) (t', sy_context s')"
    using call by (simp add: refines_def)
  then show ?case using step call.IH handle_step_table_ok by fastforce
next
  case (release t c p n t' c')
  have "(handle_step ops p)\<^sup>*\<^sup>* (t, c) (t', c')" using release_handle_steps [OF release(2)] release.IH by simp
  then show ?case
  proof (induction "(t', c')" arbitrary: t' c' rule: rtranclp_induct)
    case base
    then show ?case using release.IH by simp
  next
    case (step y)
    then show ?case using assms(4) handle_step_table_ok by (cases y) fastforce
  qed
qed

locale object_lifetime =
  fixes ops :: "'c runtime_syscall_ops" and ty :: u32 and live :: "'c \<Rightarrow> uintptr set" and ok :: "'c \<Rightarrow> bool"
  assumes ty: "ty \<noteq> RUNTIME_HANDLE_TYPE_NONE" "ty \<noteq> RUNTIME_HANDLE_TYPE_PROCESS"
    and plain_law: "ok c \<Longrightarrow> plain ops c c' \<Longrightarrow> ok c' \<and> live c' = live c"
    and make_law: "ok c \<Longrightarrow> makes ops ty' c x c' \<Longrightarrow> ok c' \<and>
      (if ty' = ty then x \<notin> live c \<and> live c' = insert x (live c) else live c' = live c)"
    and fail_law: "ok c \<Longrightarrow> make_fails ops c c' \<Longrightarrow> ok c' \<and> live c' = live c"
    and destroy_law: "ok c \<Longrightarrow> destroys ops ty' c x r c' \<Longrightarrow> ok c' \<and>
      live c' = (if ty' = ty \<and> r then live c - {x} else live c)"
begin

definition of_type :: "runtime_syscall_table \<Rightarrow> nat \<Rightarrow> bool" where
  "of_type t i \<longleftrightarrow> i < length t \<and> hi_type (t ! i) = ty"

text \<open>Every handle of the type stands for a live object, and the object determines the owner of the handle.\<close>

definition owned_by :: "(uintptr \<Rightarrow> u32) \<Rightarrow> runtime_syscall_table \<Rightarrow> uintptr set \<Rightarrow> bool" where
  "owned_by own t L \<longleftrightarrow> (\<forall>i. of_type t i \<longrightarrow> hi_object (t ! i) \<in> L \<and> hi_owner_pid (t ! i) = own (hi_object (t ! i)))"

definition handles_live :: "runtime_syscall_table \<times> 'c \<Rightarrow> bool" where
  "handles_live tc \<longleftrightarrow> ok (snd tc) \<and> (\<exists>own. owned_by own (fst tc) (live (snd tc)))"

lemma owned_byD: "owned_by own t L \<Longrightarrow> of_type t i \<Longrightarrow> hi_object (t ! i) \<in> L \<and> hi_owner_pid (t ! i) = own (hi_object (t ! i))"
  by (simp add: owned_by_def)

lemma handles_liveE:
  assumes "handles_live (t, c)"
  obtains own where "ok c" "owned_by own t (live c)"
  using assms by (auto simp: handles_live_def)

lemma handles_liveI: "ok c \<Longrightarrow> owned_by own t (live c) \<Longrightarrow> handles_live (t, c)"
  by (auto simp: handles_live_def)

lemma handles_live_same: "handles_live (t, c) \<Longrightarrow> ok c' \<Longrightarrow> live c \<subseteq> live c' \<Longrightarrow> handles_live (t, c')"
  by (force simp: handles_live_def owned_by_def)

lemma of_type_upd:
  assumes "i < length t"
  shows "of_type (t[i := h]) j \<longleftrightarrow> (if j = i then hi_type h = ty else of_type t j)"
  using assms by (auto simp: of_type_def nth_list_update_if)

lemma owned_by_upd:
  assumes "i < length t" and "\<And>j. j \<noteq> i \<Longrightarrow> of_type t j \<Longrightarrow> hi_object (t ! j) \<in> L \<and> hi_owner_pid (t ! j) = own (hi_object (t ! j))"
    and "hi_type h = ty \<Longrightarrow> hi_object h \<in> L \<and> hi_owner_pid h = own (hi_object h)"
  shows "owned_by own (t[i := h]) L"
  unfolding owned_by_def
proof (intro allI impI)
  fix j
  assume "of_type (t[i := h]) j"
  then show "hi_object (t[i := h] ! j) \<in> L \<and> hi_owner_pid (t[i := h] ! j) = own (hi_object (t[i := h] ! j))"
    using assms(1) assms(2) [of j] assms(3) by (cases "j = i") (simp_all add: of_type_upd)
qed

lemma handles_live_other:
  assumes "handles_live (t, c)" "ok c'" "live c' = live c" "hi_type h \<noteq> ty" "i < length t"
  shows "handles_live (t[i := h], c')"
proof -
  obtain own where "owned_by own t (live c)" using assms(1) by (rule handles_liveE)
  then have "owned_by own (t[i := h]) (live c')" using assms(3-5) by (intro owned_by_upd) (auto dest: owned_byD)
  with assms(2) show ?thesis by (rule handles_liveI)
qed

lemma handles_live_new:
  assumes "handles_live (t, c)" "ok c'" "live c' = insert x (live c)" "i < length t"
    and "\<And>j. of_type t j \<Longrightarrow> hi_object (t ! j) = x \<Longrightarrow> hi_owner_pid (t ! j) = p"
  shows "handles_live (t[i := entry_for i p ty x], c')"
proof -
  obtain own where own: "owned_by own t (live c)" using assms(1) by (rule handles_liveE)
  have "owned_by (own(x := p)) (t[i := entry_for i p ty x]) (live c')"
  proof (rule owned_by_upd [OF assms(4)])
    fix j
    assume "of_type t j"
    with owned_byD [OF own this] assms(5) [OF this] assms(3)
    show "hi_object (t ! j) \<in> live c' \<and> hi_owner_pid (t ! j) = (own(x := p)) (hi_object (t ! j))" by simp
  qed (simp add: entry_for_def assms(3))
  with assms(2) show ?thesis by (rule handles_liveI)
qed

lemma handles_live_close:
  assumes "handles_live (t, c)" "i < length t" "ok c'" "live c' = live c - {x}"
    and "\<And>j. j \<noteq> i \<Longrightarrow> of_type t j \<Longrightarrow> hi_object (t ! j) \<noteq> x"
  shows "handles_live (t[i := no_entry], c')"
proof -
  obtain own where own: "owned_by own t (live c)" using assms(1) by (rule handles_liveE)
  have "owned_by own (t[i := no_entry]) (live c')"
    using assms(4,5) owned_byD [OF own] ty(1) by (intro owned_by_upd [OF assms(2)]) (simp_all add: no_entry_def)
  with assms(3) show ?thesis by (rule handles_liveI)
qed

lemma handles_live_step:
  assumes inv: "handles_live tc" and step: "handle_step ops p tc tc'"
  shows "handles_live tc'"
proof -
  obtain t c where tc: "tc = (t, c)" by force
  obtain own where ok: "ok c" and own: "owned_by own t (live c)" using inv unfolding tc by (rule handles_liveE)
  note inv = inv [unfolded tc]
  from step [unfolded tc] show ?thesis
  proof cases
    case (plain c')
    then show ?thesis using plain_law [OF ok plain(2)] handles_live_same [OF inv] by simp
  next
    case (make ty' x c' i)
    have i: "i < length t" using make by (simp add: free_entry_def)
    note m = make_law [OF ok make(2)]
    show ?thesis
    proof (cases "ty' = ty")
      case True
      then have "x \<notin> live c" "live c' = insert x (live c)" "ok c'" using m by simp_all
      then show ?thesis unfolding make(1) True using owned_byD [OF own]
        by (intro handles_live_new [OF inv]) (auto simp: i)
    next
      case False
      then show ?thesis unfolding make(1) using m by (intro handles_live_other [OF inv]) (simp_all add: i entry_for_def)
    qed
  next
    case (make_fails c')
    then show ?thesis using fail_law [OF ok make_fails(2)] handles_live_same [OF inv] by simp
  next
    case (make_leaks ty' x c')
    then show ?thesis using make_law [OF ok make_leaks(2)] handles_live_same [OF inv] by (auto split: if_splits)
  next
    case (make_undone ty' x c' r c'')
    note m = make_law [OF ok make_undone(2)]
    with destroy_law [of c' ty' x r c''] make_undone(3) have "ok c''" "live c \<subseteq> live c''" by (auto split: if_splits)
    then show ?thesis using make_undone(1) handles_live_same [OF inv] by simp
  next
    case (process c' i x)
    then show ?thesis using plain_law [OF ok process(2)] ty(2)
      by (auto simp: entry_for_def free_entry_def intro!: handles_live_other [OF inv])
  next
    case (dup j i)
    have i: "i < length t" using dup by (simp add: free_entry_def)
    show ?thesis
    proof (cases "hi_type (t ! j) = ty")
      case True
      then have j: "of_type t j" using dup(2) by (simp add: of_type_def used_entry_def)
      note oj = owned_byD [OF own j]
      then have "live c = insert (hi_object (t ! j)) (live c)" by auto
      then show ?thesis unfolding dup(1) True using owned_byD [OF own] oj
        by (intro handles_live_new [OF inv ok]) (simp_all add: i)
    next
      case False
      then show ?thesis unfolding dup(1) by (intro handles_live_other [OF inv ok]) (simp_all add: i entry_for_def)
    qed
  next
    case (drop i)
    then show ?thesis using ty(1) by (auto simp: no_entry_def used_entry_def intro!: handles_live_other [OF inv ok])
  next
    case (last i c')
    have i: "i < length t" using last by (simp add: used_entry_def)
    note d = destroy_law [OF ok last(5)]
    show ?thesis
    proof (cases "hi_type (t ! i) = ty")
      case True
      then have ti: "of_type t i" using i by (simp add: of_type_def)
      have other: "hi_object (t ! j) \<noteq> hi_object (t ! i)" if j: "j \<noteq> i" "of_type t j" for j
      proof
        assume eq: "hi_object (t ! j) = hi_object (t ! i)"
        then have "hi_owner_pid (t ! j) = hi_owner_pid (t ! i)" using owned_byD [OF own ti] owned_byD [OF own j(2)] by simp
        then have "same_object (t ! j) (t ! i)" using eq j(2) ti by (simp add: same_object_def of_type_def)
        then show False using last(4) j by (auto simp: of_type_def)
      qed
      show ?thesis unfolding last(1) by (rule handles_live_close [OF inv i _ _ other]) (use d True in simp_all)
    next
      case False
      then show ?thesis unfolding last(1) using d ty(1) by (intro handles_live_other [OF inv]) (simp_all add: i no_entry_def)
    qed
  next
    case (refused i c')
    then show ?thesis using destroy_law [OF ok refused(4)] handles_live_same [OF inv] by simp
  qed
qed

text \<open>No handle of the type dangles.\<close>

lemma no_dangling_handle:
  assumes "syscall_reachable ops (replicate RUNTIME_SYSCALL_MAX_HANDLES no_entry, c0) (t, c)" and "ok c0"
    and "i < length t" "hi_type (t ! i) = ty"
  shows "hi_object (t ! i) \<in> live c"
proof -
  let ?start = "(replicate RUNTIME_SYSCALL_MAX_HANDLES no_entry, c0)"
  have "table_ok (fst ?start)" by (simp add: table_ok_def)
  moreover have "handles_live ?start"
    using assms(2) ty(1) by (intro handles_liveI) (auto simp: owned_by_def of_type_def no_entry_def)
  ultimately have "handles_live (t, c)"
    using syscall_reachable_induct [OF assms(1), of handles_live] handles_live_step by blast
  then obtain own where "owned_by own t (live c)" by (rule handles_liveE)
  from owned_byD [OF this] show ?thesis using assms(3,4) by (simp add: of_type_def)
qed

end

end
