(* ===== verification/Runtime_Service.thy ===== *)
theory Runtime_Service
  imports Runtime_Syscall
begin

text \<open>
  The table of service sessions of \<open>kernel/runtime_service.c\<close>. A session object is the number of its slot; the
  theorems say that the table implements a finite map from objects to sessions, and show what the reuse of slot
  numbers means for an object that was closed behind its owner's back.
\<close>

section \<open>Sessions\<close>

definition RUNTIME_SERVICE_SESSION_CAPACITY :: nat where "RUNTIME_SERVICE_SESSION_CAPACITY = 8"

record runtime_service_session_info =
  ss_object :: uintptr
  ss_owner_pid :: u32
  ss_provider_pid :: u32
  ss_service_slot :: u32

record runtime_service_session_entry = runtime_service_session_info +
  ss_active :: u8

type_synonym runtime_service_session_table = "runtime_service_session_entry list"

definition runtime_service_session_clear :: "runtime_service_session_entry \<Rightarrow> runtime_service_session_entry" where
  "runtime_service_session_clear e =
     e\<lparr>ss_object := 0, ss_owner_pid := 0, ss_provider_pid := 0, ss_service_slot := 0, ss_active := 0\<rparr>"

definition runtime_service_session_table_init :: "runtime_service_session_table ptr \<Rightarrow> runtime_service_session_table ptr" where
  "runtime_service_session_table_init table = map_option (map runtime_service_session_clear) table"

definition runtime_service_session_open ::
  "runtime_service_session_table ptr \<Rightarrow> u32 \<Rightarrow> u32 \<Rightarrow> u32 \<Rightarrow> uintptr ptr \<Rightarrow>
   int \<times> runtime_service_session_table ptr \<times> uintptr ptr" where
  "runtime_service_session_open table owner_pid provider_pid service_slot object =
     (case (table, object) of
        (Some t, Some _) \<Rightarrow>
          (if owner_pid = 0 \<or> provider_pid = 0 then (RUNTIME_SYSCALL_STATUS_EINVAL, table, object)
           else case first_index (\<lambda>e. ss_active e = 0) t of
             None \<Rightarrow> (RUNTIME_SYSCALL_STATUS_ENOSPC, table, object)
           | Some i \<Rightarrow>
               (RUNTIME_SYSCALL_STATUS_OK,
                Some (t[i := (t ! i)\<lparr>ss_object := of_nat (i + 1), ss_owner_pid := owner_pid,
                  ss_provider_pid := provider_pid, ss_service_slot := service_slot, ss_active := 1\<rparr>]),
                Some (of_nat (i + 1))))
      | _ \<Rightarrow> (RUNTIME_SYSCALL_STATUS_EINVAL, table, object))"

definition runtime_service_session_close ::
  "runtime_service_session_table ptr \<Rightarrow> uintptr \<Rightarrow> int \<times> runtime_service_session_table ptr" where
  "runtime_service_session_close table object =
     (case table of
        None \<Rightarrow> (RUNTIME_SYSCALL_STATUS_EINVAL, table)
      | Some t \<Rightarrow>
          (if object = 0 then (RUNTIME_SYSCALL_STATUS_EINVAL, table)
           else case first_index (\<lambda>e. ss_active e \<noteq> 0 \<and> ss_object e = object) t of
             None \<Rightarrow> (RUNTIME_SYSCALL_STATUS_EBADF, table)
           | Some i \<Rightarrow> (RUNTIME_SYSCALL_STATUS_OK, Some (t[i := runtime_service_session_clear (t ! i)]))))"

definition runtime_service_session_info ::
  "runtime_service_session_table ptr \<Rightarrow> uintptr \<Rightarrow> runtime_service_session_info ptr \<Rightarrow>
   int \<times> runtime_service_session_info ptr" where
  "runtime_service_session_info table object info =
     (case (table, info) of
        (Some t, Some _) \<Rightarrow>
          (if object = 0 then (RUNTIME_SYSCALL_STATUS_EINVAL, info)
           else case first_index (\<lambda>e. ss_active e \<noteq> 0 \<and> ss_object e = object) t of
             None \<Rightarrow> (RUNTIME_SYSCALL_STATUS_EBADF, info)
           | Some i \<Rightarrow> (RUNTIME_SYSCALL_STATUS_OK,
               Some \<lparr>ss_object = ss_object (t ! i), ss_owner_pid = ss_owner_pid (t ! i),
                 ss_provider_pid = ss_provider_pid (t ! i), ss_service_slot = ss_service_slot (t ! i)\<rparr>))
      | _ \<Rightarrow> (RUNTIME_SYSCALL_STATUS_EINVAL, info))"

definition provided_by :: "u32 \<Rightarrow> runtime_service_session_entry \<Rightarrow> bool" where
  "provided_by provider_pid e \<longleftrightarrow> \<not> (ss_active e = 0 \<or> ss_provider_pid e \<noteq> provider_pid)"

definition runtime_service_session_invalidate_provider ::
  "runtime_service_session_table ptr \<Rightarrow> u32 \<Rightarrow> nat \<times> runtime_service_session_table ptr" where
  "runtime_service_session_invalidate_provider table provider_pid =
     (case table of
        None \<Rightarrow> (0, table)
      | Some t \<Rightarrow>
          (if provider_pid = 0 then (0, table)
           else (length (filter (provided_by provider_pid) t),
             Some (map (\<lambda>e. if provided_by provider_pid e then runtime_service_session_clear e else e) t))))"

section \<open>The table as a map\<close>

text \<open>An active entry carries the number of its slot.\<close>

definition sessions_ok :: "runtime_service_session_table \<Rightarrow> bool" where
  "sessions_ok t \<longleftrightarrow> length t = RUNTIME_SERVICE_SESSION_CAPACITY \<and>
     (\<forall>i < length t. ss_active (t ! i) \<noteq> 0 \<longrightarrow> ss_object (t ! i) = of_nat (i + 1))"

text \<open>The session behind an object: owner, provider and service slot.\<close>

definition sessions :: "runtime_service_session_table \<Rightarrow> uintptr \<rightharpoonup> u32 \<times> u32 \<times> u32" where
  "sessions t x = (case first_index (\<lambda>e. ss_active e \<noteq> 0 \<and> ss_object e = x) t of
     None \<Rightarrow> None | Some i \<Rightarrow> Some (ss_owner_pid (t ! i), ss_provider_pid (t ! i), ss_service_slot (t ! i)))"

lemma small_numbers:
  assumes "i < RUNTIME_SERVICE_SESSION_CAPACITY" "j < RUNTIME_SERVICE_SESSION_CAPACITY"
  shows "(of_nat (i + 1) :: uintptr) = of_nat (j + 1) \<longleftrightarrow> i = j" "(of_nat (i + 1) :: uintptr) \<noteq> 0"
proof -
  have u: "unat (of_nat (k + 1) :: uintptr) = k + 1" if "k < RUNTIME_SERVICE_SESSION_CAPACITY" for k
    using that by (intro unat_small) (simp add: RUNTIME_SERVICE_SESSION_CAPACITY_def)
  show "(of_nat (i + 1) :: uintptr) = of_nat (j + 1) \<longleftrightarrow> i = j" using u [OF assms(1)] u [OF assms(2)] by (metis add_right_cancel)
  show "(of_nat (i + 1) :: uintptr) \<noteq> 0" using u [OF assms(1)] by (metis Suc_eq_plus1 nat.simps(3) unat_0)
qed

lemma sessions_Some:
  assumes "sessions_ok t"
  shows "sessions t x = Some (p, q, k) \<longleftrightarrow> (\<exists>i < length t. ss_active (t ! i) \<noteq> 0 \<and> x = of_nat (i + 1) \<and>
    p = ss_owner_pid (t ! i) \<and> q = ss_provider_pid (t ! i) \<and> k = ss_service_slot (t ! i))"
proof (cases "first_index (\<lambda>e. ss_active e \<noteq> 0 \<and> ss_object e = x) t")
  case None
  then have "\<forall>i < length t. \<not> (ss_active (t ! i) \<noteq> 0 \<and> ss_object (t ! i) = x)" by (auto simp: first_index_None)
  then show ?thesis using None assms by (auto simp: sessions_def sessions_ok_def)
next
  case (Some i)
  then have i: "i < length t" "ss_active (t ! i) \<noteq> 0" "ss_object (t ! i) = x" by (auto simp: first_index_Some)
  then have x: "x = of_nat (i + 1)" using assms by (auto simp: sessions_ok_def)
  have "j = i" if "j < length t" "x = of_nat (j + 1)" for j
    using that i(1) x small_numbers(1) [of j i] assms unfolding sessions_ok_def by metis
  then show ?thesis using Some i x by (auto simp: sessions_def)
qed

lemma sessions_eqI:
  assumes "sessions_ok t" "\<And>x p q k. m x = Some (p, q, k) \<longleftrightarrow> (\<exists>i < length t. ss_active (t ! i) \<noteq> 0 \<and> x = of_nat (i + 1) \<and>
    p = ss_owner_pid (t ! i) \<and> q = ss_provider_pid (t ! i) \<and> k = ss_service_slot (t ! i))"
  shows "sessions t = m"
proof
  fix x
  have "sessions t x = Some (p, q, k) \<longleftrightarrow> m x = Some (p, q, k)" for p q k
    unfolding sessions_Some [OF assms(1)] assms(2) ..
  then show "sessions t x = m x" by (metis (no_types, opaque_lifting) not_None_eq surj_pair)
qed

lemma sessions_init: "length t = RUNTIME_SERVICE_SESSION_CAPACITY \<Longrightarrow>
  \<exists>t'. runtime_service_session_table_init (Some t) = Some t' \<and> sessions_ok t' \<and> sessions t' = Map.empty"
  by (auto simp: runtime_service_session_table_init_def sessions_ok_def runtime_service_session_clear_def
      sessions_def first_index_None fun_eq_iff split: option.split dest: first_index_Some [THEN iffD1])

lemma sessions_free: "sessions_ok t \<Longrightarrow> i < length t \<Longrightarrow> ss_active (t ! i) = 0 \<Longrightarrow> sessions t (of_nat (i + 1)) = None"
proof (rule ccontr)
  assume ok: "sessions_ok t" and i: "i < length t" "ss_active (t ! i) = 0" and "sessions t (of_nat (i + 1)) \<noteq> None"
  then obtain p q k where "sessions t (of_nat (i + 1)) = Some (p, q, k)" by auto
  then obtain j where j: "j < length t" "ss_active (t ! j) \<noteq> 0" "(of_nat (i + 1) :: uintptr) = of_nat (j + 1)"
    unfolding sessions_Some [OF ok] by blast
  then have "i = j" using small_numbers(1) [of i j] i(1) ok by (simp add: sessions_ok_def del: of_nat_add of_nat_Suc)
  then show False using i(2) j(2) by simp
qed

lemma sessions_put:
  assumes ok: "sessions_ok t" and i: "i < length t" and e: "ss_active e \<noteq> 0" "ss_object e = of_nat (i + 1)"
  shows "sessions_ok (t[i := e])"
    "sessions (t[i := e]) = (sessions t)(of_nat (i + 1) \<mapsto> (ss_owner_pid e, ss_provider_pid e, ss_service_slot e))"
proof -
  show ok': "sessions_ok (t[i := e])" using ok i e by (auto simp: sessions_ok_def nth_list_update)
  have ne: "j \<noteq> i \<Longrightarrow> j < length t \<Longrightarrow> (of_nat (j + 1) :: uintptr) \<noteq> of_nat (i + 1)" for j
    using small_numbers(1) [of j i] i ok by (simp add: sessions_ok_def del: of_nat_add of_nat_Suc)
  show "sessions (t[i := e]) = (sessions t)(of_nat (i + 1) \<mapsto> (ss_owner_pid e, ss_provider_pid e, ss_service_slot e))"
  proof (rule sessions_eqI [OF ok'])
    fix x p q k
    show "((sessions t)(of_nat (i + 1) \<mapsto> (ss_owner_pid e, ss_provider_pid e, ss_service_slot e))) x = Some (p, q, k) \<longleftrightarrow>
      (\<exists>j < length (t[i := e]). ss_active (t[i := e] ! j) \<noteq> 0 \<and> x = of_nat (j + 1) \<and> p = ss_owner_pid (t[i := e] ! j) \<and>
        q = ss_provider_pid (t[i := e] ! j) \<and> k = ss_service_slot (t[i := e] ! j))"
    proof (cases "x = of_nat (i + 1)")
      case True
      have eq: "x = of_nat (j + 1) \<longleftrightarrow> j = i" if "j < length t" for j using that ne True by metis
      have "(\<exists>j < length (t[i := e]). ss_active (t[i := e] ! j) \<noteq> 0 \<and> x = of_nat (j + 1) \<and> R j) \<longleftrightarrow> R i" for R
        using eq i e(1) by (auto simp: nth_list_update simp del: of_nat_add of_nat_Suc)
      from this [of "\<lambda>j. p = ss_owner_pid (t[i := e] ! j) \<and> q = ss_provider_pid (t[i := e] ! j) \<and>
        k = ss_service_slot (t[i := e] ! j)"] show ?thesis using True i by auto
    next
      case False
      show ?thesis unfolding fun_upd_other [OF False] sessions_Some [OF ok]
      proof (rule ex_cong1)
        fix j
        show "(j < length t \<and> ss_active (t ! j) \<noteq> 0 \<and> x = of_nat (j + 1) \<and> p = ss_owner_pid (t ! j) \<and>
            q = ss_provider_pid (t ! j) \<and> k = ss_service_slot (t ! j)) \<longleftrightarrow>
          (j < length (t[i := e]) \<and> ss_active (t[i := e] ! j) \<noteq> 0 \<and> x = of_nat (j + 1) \<and> p = ss_owner_pid (t[i := e] ! j) \<and>
            q = ss_provider_pid (t[i := e] ! j) \<and> k = ss_service_slot (t[i := e] ! j))"
          using False by (cases "j = i") simp_all
      qed
    qed
  qed
qed

text \<open>Clearing the entries at some indices takes their objects out of the map.\<close>

lemma sessions_clear:
  assumes ok: "sessions_ok t" and len: "length u = length t"
    and u: "\<And>i. i < length t \<Longrightarrow> u ! i = (if D i then runtime_service_session_clear (t ! i) else t ! i)"
  shows "sessions_ok u"
    "sessions u = (\<lambda>x. if \<exists>i < length t. x = of_nat (i + 1) \<and> D i then None else sessions t x)"
proof -
  show ok': "sessions_ok u" using ok len u by (auto simp: sessions_ok_def runtime_service_session_clear_def)
  have one: "i = j" if "i < length t" "j < length t" "(of_nat (i + 1) :: uintptr) = of_nat (j + 1)" for i j
    using that small_numbers(1) [of i j] ok by (simp add: sessions_ok_def del: of_nat_add of_nat_Suc)
  show "sessions u = (\<lambda>x. if \<exists>i < length t. x = of_nat (i + 1) \<and> D i then None else sessions t x)"
  proof (rule sessions_eqI [OF ok'])
    fix x p q k
    have "(if \<exists>i < length t. x = of_nat (i + 1) \<and> D i then None else sessions t x) = Some (p, q, k) \<longleftrightarrow>
        sessions t x = Some (p, q, k) \<and> \<not> (\<exists>i < length t. x = of_nat (i + 1) \<and> D i)" by auto
    also have "\<dots> \<longleftrightarrow> (\<exists>i < length t. ss_active (t ! i) \<noteq> 0 \<and> x = of_nat (i + 1) \<and> \<not> D i \<and>
        p = ss_owner_pid (t ! i) \<and> q = ss_provider_pid (t ! i) \<and> k = ss_service_slot (t ! i))"
      unfolding sessions_Some [OF ok] using one by blast
    also have "\<dots> \<longleftrightarrow> (\<exists>i < length u. ss_active (u ! i) \<noteq> 0 \<and> x = of_nat (i + 1) \<and>
        p = ss_owner_pid (u ! i) \<and> q = ss_provider_pid (u ! i) \<and> k = ss_service_slot (u ! i))"
    proof (rule ex_cong1)
      fix i
      show "(i < length t \<and> ss_active (t ! i) \<noteq> 0 \<and> x = of_nat (i + 1) \<and> \<not> D i \<and>
          p = ss_owner_pid (t ! i) \<and> q = ss_provider_pid (t ! i) \<and> k = ss_service_slot (t ! i)) \<longleftrightarrow>
        (i < length u \<and> ss_active (u ! i) \<noteq> 0 \<and> x = of_nat (i + 1) \<and>
          p = ss_owner_pid (u ! i) \<and> q = ss_provider_pid (u ! i) \<and> k = ss_service_slot (u ! i))"
        using u [of i] len by (cases "i < length t"; cases "D i") (simp_all add: runtime_service_session_clear_def)
    qed
    finally show "(if \<exists>i < length t. x = of_nat (i + 1) \<and> D i then None else sessions t x) = Some (p, q, k) \<longleftrightarrow>
        (\<exists>i < length u. ss_active (u ! i) \<noteq> 0 \<and> x = of_nat (i + 1) \<and>
        p = ss_owner_pid (u ! i) \<and> q = ss_provider_pid (u ! i) \<and> k = ss_service_slot (u ! i))" .
  qed
qed

lemma lookup_index:
  assumes ok: "sessions_ok t"
  shows "first_index (\<lambda>e. ss_active e \<noteq> 0 \<and> ss_object e = x) t = None \<longleftrightarrow> sessions t x = None"
    and "first_index (\<lambda>e. ss_active e \<noteq> 0 \<and> ss_object e = x) t = Some i \<Longrightarrow>
      i < length t \<and> x = of_nat (i + 1) \<and> sessions t x = Some (ss_owner_pid (t ! i), ss_provider_pid (t ! i), ss_service_slot (t ! i))"
proof -
  show "first_index (\<lambda>e. ss_active e \<noteq> 0 \<and> ss_object e = x) t = None \<longleftrightarrow> sessions t x = None"
    by (simp add: sessions_def split: option.split)
  assume i: "first_index (\<lambda>e. ss_active e \<noteq> 0 \<and> ss_object e = x) t = Some i"
  then have "i < length t" "ss_active (t ! i) \<noteq> 0" "ss_object (t ! i) = x" by (auto simp: first_index_Some)
  then show "i < length t \<and> x = of_nat (i + 1) \<and> sessions t x = Some (ss_owner_pid (t ! i), ss_provider_pid (t ! i), ss_service_slot (t ! i))"
    using ok i by (simp add: sessions_def sessions_ok_def)
qed

lemma same_number:
  "sessions_ok t \<Longrightarrow> i < length t \<Longrightarrow> j < length t \<Longrightarrow> (of_nat (i + 1) :: uintptr) = of_nat (j + 1) \<longleftrightarrow> i = j"
  unfolding sessions_ok_def by (metis small_numbers(1))

lemma sessions_length: "sessions_ok t \<Longrightarrow> length t = 8"
  by (simp add: sessions_ok_def RUNTIME_SERVICE_SESSION_CAPACITY_def)

lemma open_refines:
  assumes ok: "sessions_ok t" and "owner \<noteq> 0" "provider \<noteq> 0"
  shows "case runtime_service_session_open (Some t) owner provider slot (Some x0) of (r, t', x) \<Rightarrow>
    if r = RUNTIME_SYSCALL_STATUS_OK then \<exists>u y. t' = Some u \<and> x = Some y \<and> y \<noteq> 0 \<and> sessions_ok u \<and> sessions t y = None \<and>
      sessions u = (sessions t)(y \<mapsto> (owner, provider, slot))
    else r = RUNTIME_SYSCALL_STATUS_ENOSPC \<and> t' = Some t \<and> (\<forall>i < 8. sessions t (of_nat (i + 1)) \<noteq> None)"
proof (cases "first_index (\<lambda>e. ss_active e = 0) t")
  case None
  then have "\<forall>i < length t. ss_active (t ! i) \<noteq> 0" by (auto simp: first_index_None)
  then have "\<forall>i < 8. sessions t (of_nat (i + 1)) \<noteq> None" using sessions_Some [OF ok] sessions_length [OF ok] by fastforce
  then show ?thesis using None assms(2,3) by (simp add: runtime_service_session_open_def)
next
  case (Some i)
  then have i: "i < length t" "ss_active (t ! i) = 0" by (auto simp: first_index_Some)
  let ?e = "(t ! i)\<lparr>ss_object := of_nat (i + 1), ss_owner_pid := owner, ss_provider_pid := provider,
    ss_service_slot := slot, ss_active := 1\<rparr>"
  have e: "ss_active ?e \<noteq> 0" "ss_object ?e = of_nat (i + 1)" by simp_all
  from sessions_put [OF ok i(1) e] sessions_free [OF ok i] small_numbers(2) [of i i] sessions_length [OF ok] i(1) Some assms(2,3)
  show ?thesis by (simp add: runtime_service_session_open_def RUNTIME_SERVICE_SESSION_CAPACITY_def del: of_nat_add of_nat_Suc)
qed

lemma close_refines:
  assumes ok: "sessions_ok t" and "object \<noteq> 0"
  shows "case runtime_service_session_close (Some t) object of (r, t') \<Rightarrow>
    if sessions t object = None then r = RUNTIME_SYSCALL_STATUS_EBADF \<and> t' = Some t
    else r = RUNTIME_SYSCALL_STATUS_OK \<and> (\<exists>u. t' = Some u \<and> sessions_ok u \<and> sessions u = (sessions t)(object := None))"
proof (cases "first_index (\<lambda>e. ss_active e \<noteq> 0 \<and> ss_object e = object) t")
  case None
  then have "sessions t object = None" using lookup_index(1) [OF ok] by blast
  then show ?thesis using None assms(2) by (simp add: runtime_service_session_close_def)
next
  case (Some i)
  note i = lookup_index(2) [OF ok Some]
  have eq: "j = i" if "j < length t" "object = of_nat (j + 1)" for j
    using that i same_number [OF ok, of j i] by simp
  let ?u = "t[i := runtime_service_session_clear (t ! i)]"
  have u: "length ?u = length t"
    "j < length t \<Longrightarrow> ?u ! j = (if j = i then runtime_service_session_clear (t ! j) else t ! j)" for j
    by simp_all
  note cleared = sessions_clear [of t ?u "\<lambda>j. j = i", OF ok u]
  moreover have "(\<lambda>x. if \<exists>j < length t. x = of_nat (j + 1) \<and> j = i then None else sessions t x) = (sessions t)(object := None)"
    using i by (auto simp: fun_eq_iff)
  moreover have "sessions t object \<noteq> None" using i by auto
  ultimately show ?thesis using Some assms(2) by (simp add: runtime_service_session_close_def)
qed

lemma info_refines:
  assumes ok: "sessions_ok t" and "object \<noteq> 0"
  shows "runtime_service_session_info (Some t) object (Some i0) =
    (case sessions t object of None \<Rightarrow> (RUNTIME_SYSCALL_STATUS_EBADF, Some i0)
     | Some (p, q, k) \<Rightarrow> (RUNTIME_SYSCALL_STATUS_OK, Some \<lparr>ss_object = object, ss_owner_pid = p, ss_provider_pid = q,
         ss_service_slot = k\<rparr>))"
proof (cases "first_index (\<lambda>e. ss_active e \<noteq> 0 \<and> ss_object e = object) t")
  case None
  then have "sessions t object = None" using lookup_index(1) [OF ok] by blast
  then show ?thesis using None assms(2) by (simp add: runtime_service_session_info_def)
next
  case (Some i)
  then have "ss_object (t ! i) = object" by (auto simp: first_index_Some)
  moreover have "sessions t object = Some (ss_owner_pid (t ! i), ss_provider_pid (t ! i), ss_service_slot (t ! i))"
    using lookup_index(2) [OF ok Some] by blast
  ultimately show ?thesis using Some assms(2) by (simp add: runtime_service_session_info_def)
qed

lemma invalidate_refines:
  assumes ok: "sessions_ok t" and "provider \<noteq> 0"
  shows "case runtime_service_session_invalidate_provider (Some t) provider of (n, t') \<Rightarrow>
    \<exists>u. t' = Some u \<and> sessions_ok u \<and>
      sessions u = (\<lambda>y. case sessions t y of Some (p, q, k) \<Rightarrow> if q = provider then None else Some (p, q, k) | None \<Rightarrow> None)"
proof -
  let ?u = "map (\<lambda>e. if provided_by provider e then runtime_service_session_clear e else e) t"
  have u: "sessions_ok ?u" "sessions ?u = (\<lambda>x. if \<exists>i < length t. x = of_nat (i + 1) \<and> provided_by provider (t ! i) then None else sessions t x)"
    by (rule sessions_clear [OF ok, of _ "\<lambda>i. provided_by provider (t ! i)"]; simp)+
  have "(if \<exists>i < length t. y = of_nat (i + 1) \<and> provided_by provider (t ! i) then None else sessions t y) =
    (case sessions t y of Some (p, q, k) \<Rightarrow> if q = provider then None else Some (p, q, k) | None \<Rightarrow> None)" for y
  proof (cases "sessions t y")
    case None
    then show ?thesis by simp
  next
    case (Some s)
    obtain p q k where s: "s = (p, q, k)" by (cases s)
    with Some obtain i where i: "i < length t" "ss_active (t ! i) \<noteq> 0" "y = of_nat (i + 1)" "q = ss_provider_pid (t ! i)"
      unfolding s sessions_Some [OF ok] by blast
    have "(\<exists>j < length t. y = of_nat (j + 1) \<and> provided_by provider (t ! j)) \<longleftrightarrow> q = provider"
      using i same_number [OF ok i(1)] by (auto simp: provided_by_def simp del: of_nat_add of_nat_Suc)
    then show ?thesis using Some s by simp
  qed
  then show ?thesis using u assms(2) by (simp add: runtime_service_session_invalidate_provider_def)
qed

text \<open>C27: the session table implements a finite map from session objects to (owner, provider, slot). Opening adds a session under an
  object that was not in use and fails only when all 8 slots are taken; closing removes exactly the session of the object and
  fails if there is none; the query returns what was stored; and invalidating a provider removes exactly its sessions.\<close>

theorem session_table_refines_map:
  assumes ok: "sessions_ok t" and "owner \<noteq> 0" "provider \<noteq> 0" "object \<noteq> 0"
  shows "(case runtime_service_session_open (Some t) owner provider slot (Some x0) of (r, t', x) \<Rightarrow>
      if r = RUNTIME_SYSCALL_STATUS_OK then \<exists>u y. t' = Some u \<and> x = Some y \<and> y \<noteq> 0 \<and> sessions_ok u \<and> sessions t y = None \<and>
        sessions u = (sessions t)(y \<mapsto> (owner, provider, slot))
      else r = RUNTIME_SYSCALL_STATUS_ENOSPC \<and> t' = Some t \<and> (\<forall>i < 8. sessions t (of_nat (i + 1)) \<noteq> None)) \<and>
    (case runtime_service_session_close (Some t) object of (r, t') \<Rightarrow>
      if sessions t object = None then r = RUNTIME_SYSCALL_STATUS_EBADF \<and> t' = Some t
      else r = RUNTIME_SYSCALL_STATUS_OK \<and> (\<exists>u. t' = Some u \<and> sessions_ok u \<and> sessions u = (sessions t)(object := None))) \<and>
    runtime_service_session_info (Some t) object (Some i0) =
      (case sessions t object of None \<Rightarrow> (RUNTIME_SYSCALL_STATUS_EBADF, Some i0)
       | Some (p, q, k) \<Rightarrow> (RUNTIME_SYSCALL_STATUS_OK, Some \<lparr>ss_object = object, ss_owner_pid = p, ss_provider_pid = q,
           ss_service_slot = k\<rparr>)) \<and>
    (case runtime_service_session_invalidate_provider (Some t) provider of (n, t') \<Rightarrow>
      \<exists>u. t' = Some u \<and> sessions_ok u \<and>
        sessions u = (\<lambda>y. case sessions t y of Some (p, q, k) \<Rightarrow> if q = provider then None else Some (p, q, k) | None \<Rightarrow> None))"
  using open_refines [OF ok assms(2,3)] close_refines [OF ok assms(4)] info_refines [OF ok assms(4)]
    invalidate_refines [OF ok assms(3)] by (intro conjI)

definition demo_sessions :: runtime_service_session_table where
  "demo_sessions = replicate 8 \<lparr>ss_object = 0, ss_owner_pid = 0, ss_provider_pid = 0, ss_service_slot = 0, ss_active = 0\<rparr>"

theorem session_table_refines_map_witness:
  "runtime_service_session_info (Some demo_sessions) 1 (Some \<lparr>ss_object = 0, ss_owner_pid = 0, ss_provider_pid = 0, ss_service_slot = 0\<rparr>) =
    (case sessions demo_sessions 1 of
       None \<Rightarrow> (RUNTIME_SYSCALL_STATUS_EBADF, Some \<lparr>ss_object = 0, ss_owner_pid = 0, ss_provider_pid = 0, ss_service_slot = 0\<rparr>)
     | Some (p, q, k) \<Rightarrow> (RUNTIME_SYSCALL_STATUS_OK, Some \<lparr>ss_object = 1, ss_owner_pid = p, ss_provider_pid = q, ss_service_slot = k\<rparr>))"
proof -
  have "sessions_ok demo_sessions" by (simp add: sessions_ok_def demo_sessions_def RUNTIME_SERVICE_SESSION_CAPACITY_def)
  from session_table_refines_map [OF this, of 7 9 1 0 0] have
    "runtime_service_session_info (Some demo_sessions) 1 (Some i0) =
      (case sessions demo_sessions 1 of None \<Rightarrow> (RUNTIME_SYSCALL_STATUS_EBADF, Some i0)
       | Some (p, q, k) \<Rightarrow> (RUNTIME_SYSCALL_STATUS_OK, Some \<lparr>ss_object = 1, ss_owner_pid = p, ss_provider_pid = q, ss_service_slot = k\<rparr>))"
    for i0 by simp
  then show ?thesis .
qed

section \<open>Objects are reused\<close>

text \<open>
  Process 7 opens a session with provider 9 and gets object 1. The provider goes and its sessions are invalidated; process 8
  opens a session and gets object 1 again. The handle that process 7 still holds now stands for the session of
  process 8: closing it closes the session of process 8.
\<close>

lemma session_object_reused:
  "(let (r1, t1, x1) = runtime_service_session_open (Some demo_sessions) 7 9 0 (Some 0);
        (n, t2) = runtime_service_session_invalidate_provider t1 9;
        (r2, t3, x2) = runtime_service_session_open t2 8 10 0 (Some 0);
        (r3, t4) = runtime_service_session_close t3 (case x1 of Some x \<Rightarrow> x | None \<Rightarrow> 0)
    in r1 = 0 \<and> n = 1 \<and> r2 = 0 \<and> x1 = x2 \<and> r3 = 0 \<and>
       fst (runtime_service_session_info t4 (case x2 of Some x \<Rightarrow> x | None \<Rightarrow> 0) (Some undefined)) = RUNTIME_SYSCALL_STATUS_EBADF)"
  by code_simp

end
