(* ===== verification/Runtime_Fs.thy ===== *)
theory Runtime_Fs
  imports Tensor_Prelude
begin

text \<open>
  The in-memory file system of \<open>kernel/runtime_fs.c\<close>: sixteen nodes that form a tree by their
  \<open>parent_index\<close>, eight open-file slots, and the path, file and directory operations on them. The
  operations take the file system and return it updated with the \<open>int32_t\<close> result of the source.
  An access outside an array is the result \<open>None\<close> of \<open>runtime_fs_write\<close> and
  \<open>runtime_fs_validate\<close>, and a loop that does not return is the result \<open>None\<close> of
  \<open>fs_parent_chain_contains\<close> and \<open>runtime_fs_rename\<close>.
\<close>

section \<open>Data (include/runtime_fs.h)\<close>

definition RUNTIME_FS_MAX_NODES :: nat where "RUNTIME_FS_MAX_NODES = 16"
definition RUNTIME_FS_MAX_OPEN_FILES :: nat where "RUNTIME_FS_MAX_OPEN_FILES = 8"
definition RUNTIME_FS_NAME_CAPACITY :: nat where "RUNTIME_FS_NAME_CAPACITY = 16"
definition RUNTIME_FS_FILE_CAPACITY :: nat where "RUNTIME_FS_FILE_CAPACITY = 256"

abbreviation (input) RUNTIME_FILE_TYPE_UNKNOWN :: u32 where "RUNTIME_FILE_TYPE_UNKNOWN \<equiv> 0"
abbreviation (input) RUNTIME_FILE_TYPE_REGULAR :: u32 where "RUNTIME_FILE_TYPE_REGULAR \<equiv> 1"
abbreviation (input) RUNTIME_FILE_TYPE_DIRECTORY :: u32 where "RUNTIME_FILE_TYPE_DIRECTORY \<equiv> 2"

abbreviation (input) RUNTIME_FILE_OPEN_READ :: u32 where "RUNTIME_FILE_OPEN_READ \<equiv> 1"
abbreviation (input) RUNTIME_FILE_OPEN_WRITE :: u32 where "RUNTIME_FILE_OPEN_WRITE \<equiv> 2"
abbreviation (input) RUNTIME_FILE_OPEN_CREATE :: u32 where "RUNTIME_FILE_OPEN_CREATE \<equiv> 4"
abbreviation (input) RUNTIME_FILE_OPEN_TRUNCATE :: u32 where "RUNTIME_FILE_OPEN_TRUNCATE \<equiv> 8"

abbreviation (input) RUNTIME_FILE_SEEK_SET :: u32 where "RUNTIME_FILE_SEEK_SET \<equiv> 0"
abbreviation (input) RUNTIME_FILE_SEEK_CUR :: u32 where "RUNTIME_FILE_SEEK_CUR \<equiv> 1"
abbreviation (input) RUNTIME_FILE_SEEK_END :: u32 where "RUNTIME_FILE_SEEK_END \<equiv> 2"

record runtime_fs_node =
  nd_used :: bool
  nd_type :: u32
  nd_parent_index :: nat
  nd_owner_pid :: u32
  nd_mode :: u32
  nd_size_bytes :: nat
  nd_name :: string
  nd_data :: "u8 list"

record runtime_fs_open_file =
  of_used :: bool
  of_node_index :: nat
  of_owner_pid :: u32
  of_flags :: u32
  of_offset :: nat
  of_dir_cursor :: nat

record runtime_fs =
  nodes :: "runtime_fs_node list"
  open_files :: "runtime_fs_open_file list"

record runtime_file_stat =
  st_type :: u32
  st_mode :: u32
  st_size_bytes :: nat

record runtime_dir_entry =
  de_type :: u32
  de_name :: string

definition upd_node :: "nat \<Rightarrow> (runtime_fs_node \<Rightarrow> runtime_fs_node) \<Rightarrow> runtime_fs \<Rightarrow> runtime_fs" where
  "upd_node i f fs = fs\<lparr>nodes := (nodes fs)[i := f (nodes fs ! i)]\<rparr>"

definition upd_open ::
  "nat \<Rightarrow> (runtime_fs_open_file \<Rightarrow> runtime_fs_open_file) \<Rightarrow> runtime_fs \<Rightarrow> runtime_fs" where
  "upd_open i f fs = fs\<lparr>open_files := (open_files fs)[i := f (open_files fs ! i)]\<rparr>"

section \<open>Names and paths\<close>

fun name_equals :: "string \<Rightarrow> string \<Rightarrow> bool" where
  "name_equals [] [] = True"
| "name_equals [] (y # ys) = (y = NUL)"
| "name_equals (x # xs) [] = (x = NUL)"
| "name_equals (x # xs) (y # ys) =
     (if x \<noteq> NUL \<and> y \<noteq> NUL then (if x \<noteq> y then False else name_equals xs ys)
      else x = NUL \<and> y = NUL)"

function copy_name_at :: "string \<Rightarrow> string \<Rightarrow> nat \<Rightarrow> string" where
  "copy_name_at dest src index =
     (if cchar src index \<noteq> NUL \<and> index + 1 < RUNTIME_FS_NAME_CAPACITY
      then copy_name_at (dest[index := cchar src index]) src (Suc index)
      else dest[index := NUL])"
  by pat_completeness auto
termination
  by (relation "measure (\<lambda>(dest, src, index). RUNTIME_FS_NAME_CAPACITY - index)") auto

declare copy_name_at.simps [simp del]

definition copy_name :: "string \<Rightarrow> string \<Rightarrow> string" where
  "copy_name dest src = copy_name_at dest src 0"

definition zero_bytes :: "u8 list \<Rightarrow> nat \<Rightarrow> nat \<Rightarrow> u8 list" where
  "zero_bytes data start stop = fold (\<lambda>index d. d[index := 0]) [start..<stop] data"

lemma length_zero_bytes [simp]: "length (zero_bytes data a b) = length data"
proof -
  have "length (fold (\<lambda>i d. d[i := 0]) is data) = length data" for "is"
    by (induction "is" arbitrary: data) simp_all
  then show ?thesis by (simp add: zero_bytes_def)
qed

lemma zero_bytes_nth: "zero_bytes d a b ! j = (if a \<le> j \<and> j < b \<and> j < length d then 0 else d ! j)"
proof -
  have "fold (\<lambda>i d. d[i := 0]) [a..<b] d ! j = (if a \<le> j \<and> j < b \<and> j < length d then 0 else d ! j)" for d :: "u8 list"
  proof (induction b)
    case (Suc b)
    then show ?case by (auto simp: nth_list_update_if less_Suc_eq)
  qed auto
  then show ?thesis by (simp add: zero_bytes_def)
qed

lemma zero_bytes_code [code]:
  "zero_bytes d a b = (if a < b \<and> a < length d
     then take a d @ replicate (min b (length d) - a) 0 @ drop b d else d)"
proof (rule nth_equalityI)
  show "length (zero_bytes d a b) = length (if a < b \<and> a < length d
      then take a d @ replicate (min b (length d) - a) 0 @ drop b d else d)"
    by auto
  fix j
  assume "j < length (zero_bytes d a b)"
  then show "zero_bytes d a b ! j = (if a < b \<and> a < length d
      then take a d @ replicate (min b (length d) - a) 0 @ drop b d else d) ! j"
    by (auto simp: zero_bytes_nth nth_append min_def)
qed

definition fs_zero_range :: "runtime_fs_node \<Rightarrow> nat \<Rightarrow> nat \<Rightarrow> runtime_fs_node" where
  "fs_zero_range node start stop =
     (if start \<ge> stop \<or> start \<ge> RUNTIME_FS_FILE_CAPACITY then node
      else node\<lparr>nd_data := zero_bytes (nd_data node) start
        (if stop > RUNTIME_FS_FILE_CAPACITY then RUNTIME_FS_FILE_CAPACITY else stop)\<rparr>)"

fun skip_slashes :: "string \<Rightarrow> string" where
  "skip_slashes [] = []"
| "skip_slashes (c # cs) = (if c = CHR ''/'' then skip_slashes cs else c # cs)"

text \<open>
  The second loop of \<open>fs_token_next\<close>: the characters stored in \<open>token\<close> and the rest of the path,
  or \<open>None\<close> where the component does not fit.
\<close>

fun scan_token :: "string \<Rightarrow> nat \<Rightarrow> (string \<times> string) option" where
  "scan_token [] len = Some ([], [])"
| "scan_token (c # cs) len =
     (if c = NUL \<or> c = CHR ''/'' then Some ([], c # cs)
      else if len + 1 \<ge> RUNTIME_FS_NAME_CAPACITY then None
      else map_option (\<lambda>(t, r). (c # t, r)) (scan_token cs (Suc len)))"

text \<open>The results 0, -1 and 1 of \<open>fs_token_next\<close>, with the token and the advanced cursor.\<close>

datatype token_step = Token_End | Token_Too_Long | Token string string

definition fs_token_next :: "string \<Rightarrow> token_step" where
  "fs_token_next cursor =
     (let scan = skip_slashes cursor in
      if cchar scan 0 = NUL then Token_End
      else case scan_token scan 0 of None \<Rightarrow> Token_Too_Long | Some (t, r) \<Rightarrow> Token t r)"

definition fs_find_child :: "runtime_fs \<Rightarrow> nat \<Rightarrow> string \<Rightarrow> nat option" where
  "fs_find_child fs parent_index name =
     first_index (\<lambda>nd. nd_used nd \<and> nd_parent_index nd = parent_index \<and> name_equals (nd_name nd) name)
       (nodes fs)"

definition fs_path_is_root :: "string ptr \<Rightarrow> bool" where
  "fs_path_is_root path = (case path of None \<Rightarrow> False
     | Some p \<Rightarrow> cchar p 0 = CHR ''/'' \<and> cchar p 1 = NUL)"

definition fs_path_is_absolute_non_root :: "string ptr \<Rightarrow> bool" where
  "fs_path_is_absolute_non_root path = (case path of None \<Rightarrow> False
     | Some p \<Rightarrow> cchar p 0 = CHR ''/'' \<and> cchar p 1 \<noteq> NUL)"

lemma skip_slashes_length: "length (skip_slashes s) \<le> length s"
  by (induction s) auto

lemma scan_token_length: "scan_token s n = Some (t, r) \<Longrightarrow> length s = length t + length r"
  by (induction s n arbitrary: t r rule: scan_token.induct) (auto split: if_splits)

lemma fs_token_next_shorter: "fs_token_next cursor = Token t rest \<Longrightarrow> length rest < length cursor"
proof -
  assume step: "fs_token_next cursor = Token t rest"
  let ?scan = "skip_slashes cursor"
  from step have ne: "cchar ?scan 0 \<noteq> NUL" and scan: "scan_token ?scan 0 = Some (t, rest)"
    by (auto simp: fs_token_next_def Let_def split: if_splits option.splits)
  obtain c cs where s: "?scan = c # cs" using ne by (cases ?scan) auto
  have "c \<noteq> CHR ''/''" using s by (induction cursor) (auto split: if_splits)
  with ne scan s have "t \<noteq> []" by (auto split: if_splits)
  with scan_token_length [OF scan] skip_slashes_length [of cursor] show ?thesis
    by (cases t) auto
qed

section \<open>Resolving paths\<close>

function fs_resolve_from :: "runtime_fs \<Rightarrow> nat \<Rightarrow> string \<Rightarrow> nat option" where
  "fs_resolve_from fs current cursor =
     (case fs_token_next cursor of
        Token_End \<Rightarrow> Some current
      | Token_Too_Long \<Rightarrow> None
      | Token token rest \<Rightarrow>
          (case fs_find_child fs current token of
             None \<Rightarrow> None
           | Some child \<Rightarrow> fs_resolve_from fs child rest))"
  by pat_completeness auto
termination
  by (relation "measure (\<lambda>(fs, current, cursor). length cursor)") (auto dest: fs_token_next_shorter)

declare fs_resolve_from.simps [simp del]

text \<open>\<open>fs_resolve_path\<close>; the result -1 is \<open>None\<close>.\<close>

definition fs_resolve_path :: "runtime_fs \<Rightarrow> string ptr \<Rightarrow> nat option" where
  "fs_resolve_path fs path = (case path of None \<Rightarrow> None
     | Some p \<Rightarrow>
         (if cchar p 0 \<noteq> CHR ''/'' then None
          else if cchar p 0 = CHR ''/'' \<and> cchar p 1 = NUL then Some 0
          else fs_resolve_from fs 0 p))"

definition fs_resolve_existing_path :: "runtime_fs \<Rightarrow> string ptr \<Rightarrow> int + nat" where
  "fs_resolve_existing_path fs path = (case path of None \<Rightarrow> Inl RUNTIME_SYSCALL_STATUS_EINVAL
     | Some p \<Rightarrow>
         (if cchar p 0 \<noteq> CHR ''/'' then Inl RUNTIME_SYSCALL_STATUS_EINVAL
          else case fs_resolve_path fs path of
            None \<Rightarrow> Inl RUNTIME_SYSCALL_STATUS_ENOENT
          | Some i \<Rightarrow> Inr i))"

text \<open>
  The loop of \<open>fs_resolve_parent_path\<close>: \<open>current\<close> is the directory reached, \<open>token\<close> the
  component not yet looked up.
\<close>

function fs_parent_from :: "runtime_fs \<Rightarrow> nat \<Rightarrow> string \<Rightarrow> string \<Rightarrow> int + (string \<times> nat)" where
  "fs_parent_from fs current token cursor =
     (case fs_token_next cursor of
        Token_End \<Rightarrow> Inr (token, current)
      | Token_Too_Long \<Rightarrow> Inl RUNTIME_SYSCALL_STATUS_EINVAL
      | Token next_token rest \<Rightarrow>
          (case fs_find_child fs current token of
             None \<Rightarrow> Inl RUNTIME_SYSCALL_STATUS_ENOENT
           | Some child \<Rightarrow>
               (if nd_type (nodes fs ! child) \<noteq> RUNTIME_FILE_TYPE_DIRECTORY
                then Inl RUNTIME_SYSCALL_STATUS_ENOTDIR
                else fs_parent_from fs child next_token rest)))"
  by pat_completeness auto
termination
  by (relation "measure (\<lambda>(fs, current, token, cursor). length cursor)")
     (auto dest: fs_token_next_shorter)

declare fs_parent_from.simps [simp del]

definition fs_resolve_parent_path :: "runtime_fs \<Rightarrow> string ptr \<Rightarrow> int + (string \<times> nat)" where
  "fs_resolve_parent_path fs path =
     (if \<not> fs_path_is_absolute_non_root path then Inl RUNTIME_SYSCALL_STATUS_EINVAL
      else case fs_token_next (the path) of
        Token token rest \<Rightarrow> fs_parent_from fs 0 token rest
      | _ \<Rightarrow> Inl RUNTIME_SYSCALL_STATUS_EINVAL)"

section \<open>Nodes and open files\<close>

definition fresh_node :: "runtime_fs_node \<Rightarrow> runtime_fs_node" where
  "fresh_node nd = fs_zero_range (nd\<lparr>
     nd_used := True,
     nd_type := RUNTIME_FILE_TYPE_UNKNOWN,
     nd_parent_index := 0,
     nd_owner_pid := 0,
     nd_mode := 0,
     nd_size_bytes := 0,
     nd_name := (nd_name nd)[0 := NUL]\<rparr>) 0 RUNTIME_FS_FILE_CAPACITY"

definition fs_alloc_node :: "runtime_fs \<Rightarrow> (runtime_fs \<times> nat) option" where
  "fs_alloc_node fs =
     map_option (\<lambda>index. (upd_node index fresh_node fs, index))
       (find (\<lambda>index. \<not> nd_used (nodes fs ! index)) [1..<RUNTIME_FS_MAX_NODES])"

definition fs_open_slot_alloc :: "runtime_fs \<Rightarrow> nat \<Rightarrow> u32 \<Rightarrow> int \<times> runtime_fs" where
  "fs_open_slot_alloc fs node_index flags =
     (case first_index (\<lambda>f. \<not> of_used f) (open_files fs) of
        None \<Rightarrow> (RUNTIME_SYSCALL_STATUS_ENOSPC, fs)
      | Some index \<Rightarrow>
          (int (index + 1),
           upd_open index (\<lambda>f. f\<lparr>of_used := True, of_node_index := node_index, of_owner_pid := 0,
             of_flags := flags, of_offset := 0, of_dir_cursor := 0\<rparr>) fs))"

definition fs_open_file_lookup :: "runtime_fs \<Rightarrow> nat \<Rightarrow> nat option" where
  "fs_open_file_lookup fs file_object =
     (if file_object = 0 \<or> file_object > RUNTIME_FS_MAX_OPEN_FILES then None
      else if \<not> of_used (open_files fs ! (file_object - 1)) then None
      else Some (file_object - 1))"

definition fs_clear_node :: "runtime_fs_node \<Rightarrow> runtime_fs_node" where
  "fs_clear_node nd = nd\<lparr>
     nd_used := False,
     nd_type := RUNTIME_FILE_TYPE_UNKNOWN,
     nd_parent_index := 0,
     nd_owner_pid := 0,
     nd_mode := 0,
     nd_size_bytes := 0,
     nd_name := (nd_name nd)[0 := NUL],
     nd_data := zero_bytes (nd_data nd) 0 RUNTIME_FS_FILE_CAPACITY\<rparr>"

definition fs_node_has_children :: "runtime_fs \<Rightarrow> nat \<Rightarrow> bool" where
  "fs_node_has_children fs node_index \<longleftrightarrow>
     list_ex (\<lambda>i. nd_used (nodes fs ! i) \<and> nd_parent_index (nodes fs ! i) = node_index \<and> i \<noteq> node_index)
       [0..<RUNTIME_FS_MAX_NODES]"

definition fs_node_is_open :: "runtime_fs \<Rightarrow> nat \<Rightarrow> bool" where
  "fs_node_is_open fs node_index \<longleftrightarrow>
     list_ex (\<lambda>f. of_used f \<and> of_node_index f = node_index) (open_files fs)"

definition fs_node_owner_allows :: "runtime_fs_node \<Rightarrow> u32 \<Rightarrow> bool" where
  "fs_node_owner_allows nd current_pid \<longleftrightarrow>
     nd_owner_pid nd = 0 \<or> current_pid = 0 \<or> nd_owner_pid nd = current_pid"

definition fs_node_has_open_writer :: "runtime_fs \<Rightarrow> nat \<Rightarrow> bool" where
  "fs_node_has_open_writer fs node_index \<longleftrightarrow>
     list_ex (\<lambda>f. of_used f \<and> of_node_index f = node_index \<and>
       of_flags f AND RUNTIME_FILE_OPEN_WRITE \<noteq> 0) (open_files fs)"

partial_function (option) fs_parent_chain_contains :: "runtime_fs \<Rightarrow> nat \<Rightarrow> nat \<Rightarrow> bool option" where
  "fs_parent_chain_contains fs current candidate_ancestor =
     (if current \<noteq> 0
      then if current = candidate_ancestor then Some True
           else fs_parent_chain_contains fs (nd_parent_index (nodes fs ! current)) candidate_ancestor
      else Some False)"

declare fs_parent_chain_contains.simps [code]

definition fs_name_is_empty :: "string \<Rightarrow> bool" where
  "fs_name_is_empty name \<longleftrightarrow> cchar name 0 = NUL"

section \<open>Operations\<close>

definition zero_node :: runtime_fs_node where
  "zero_node = \<lparr>nd_used = False, nd_type = 0, nd_parent_index = 0, nd_owner_pid = 0, nd_mode = 0,
     nd_size_bytes = 0, nd_name = replicate RUNTIME_FS_NAME_CAPACITY NUL,
     nd_data = replicate RUNTIME_FS_FILE_CAPACITY 0\<rparr>"

definition zero_open_file :: runtime_fs_open_file where
  "zero_open_file = \<lparr>of_used = False, of_node_index = 0, of_owner_pid = 0, of_flags = 0,
     of_offset = 0, of_dir_cursor = 0\<rparr>"

definition runtime_fs_init :: runtime_fs where
  "runtime_fs_init =
     upd_node 0 (\<lambda>nd. nd\<lparr>nd_used := True, nd_type := RUNTIME_FILE_TYPE_DIRECTORY,
         nd_parent_index := 0, nd_owner_pid := 0, nd_mode := 493,
         nd_name := (nd_name nd)[0 := CHR ''/'', 1 := NUL]\<rparr>)
       \<lparr>nodes = replicate RUNTIME_FS_MAX_NODES zero_node,
        open_files = replicate RUNTIME_FS_MAX_OPEN_FILES zero_open_file\<rparr>"

text \<open>
  The octal literals of the source: 0755 is 493, 0644 is 420, 0222 is 146 and 0444 is 292.
\<close>

definition runtime_fs_mkdir :: "runtime_fs \<Rightarrow> u32 \<Rightarrow> string ptr \<Rightarrow> u32 \<Rightarrow> int \<times> runtime_fs" where
  "runtime_fs_mkdir fs current_pid path mode =
     (if \<not> fs_path_is_absolute_non_root path then (RUNTIME_SYSCALL_STATUS_EINVAL, fs)
      else case fs_resolve_path fs path of
        Some _ \<Rightarrow> (RUNTIME_SYSCALL_STATUS_EEXIST, fs)
      | None \<Rightarrow>
          (case fs_resolve_parent_path fs path of
             Inl status \<Rightarrow> (status, fs)
           | Inr (leaf_name, parent_index) \<Rightarrow>
               (if \<not> fs_node_owner_allows (nodes fs ! parent_index) current_pid
                then (RUNTIME_SYSCALL_STATUS_EACCES, fs)
                else case fs_alloc_node fs of
                  None \<Rightarrow> (RUNTIME_SYSCALL_STATUS_ENOSPC, fs)
                | Some (fs1, node_index) \<Rightarrow>
                    (RUNTIME_SYSCALL_STATUS_OK,
                     upd_node node_index (\<lambda>nd. nd\<lparr>
                       nd_type := RUNTIME_FILE_TYPE_DIRECTORY,
                       nd_parent_index := parent_index,
                       nd_owner_pid := current_pid,
                       nd_mode := mode,
                       nd_name := copy_name (nd_name nd) leaf_name\<rparr>) fs1))))"

text \<open>
  \<open>runtime_fs_open\<close> in three parts: find the node or create a regular file, check the access and
  truncate, take an open-file slot. A failure keeps what the code has changed before it.
\<close>

definition fs_open_lookup ::
  "runtime_fs \<Rightarrow> u32 \<Rightarrow> string ptr \<Rightarrow> u32 \<Rightarrow> int + (runtime_fs \<times> nat)" where
  "fs_open_lookup fs current_pid path flags =
     (case fs_resolve_path fs path of
        Some node_index \<Rightarrow> Inr (fs, node_index)
      | None \<Rightarrow>
          (if flags AND RUNTIME_FILE_OPEN_CREATE = 0 then Inl RUNTIME_SYSCALL_STATUS_ENOENT
           else case fs_resolve_parent_path fs path of
             Inl status \<Rightarrow> Inl status
           | Inr (leaf_name, parent_index) \<Rightarrow>
               (if \<not> fs_node_owner_allows (nodes fs ! parent_index) current_pid
                then Inl RUNTIME_SYSCALL_STATUS_EACCES
                else case fs_alloc_node fs of
                  None \<Rightarrow> Inl RUNTIME_SYSCALL_STATUS_ENOSPC
                | Some (fs1, node_index) \<Rightarrow>
                    Inr (upd_node node_index (\<lambda>nd. nd\<lparr>
                           nd_type := RUNTIME_FILE_TYPE_REGULAR,
                           nd_parent_index := parent_index,
                           nd_owner_pid := current_pid,
                           nd_mode := 420,
                           nd_name := copy_name (nd_name nd) leaf_name\<rparr>) fs1,
                         node_index))))"

definition fs_truncate_node :: "runtime_fs_node \<Rightarrow> runtime_fs_node" where
  "fs_truncate_node nd = fs_zero_range (nd\<lparr>nd_size_bytes := 0\<rparr>) 0 RUNTIME_FS_FILE_CAPACITY"

definition fs_open_check ::
  "runtime_fs \<Rightarrow> u32 \<Rightarrow> nat \<Rightarrow> u32 \<Rightarrow> int \<times> runtime_fs" where
  "fs_open_check fs current_pid node_index flags =
     (let nd = nodes fs ! node_index;
          truncated = (if flags AND RUNTIME_FILE_OPEN_TRUNCATE \<noteq> 0 \<and>
                          nd_type nd = RUNTIME_FILE_TYPE_REGULAR
                       then upd_node node_index fs_truncate_node fs else fs) in
      if nd_type nd = RUNTIME_FILE_TYPE_DIRECTORY \<and> flags AND RUNTIME_FILE_OPEN_WRITE \<noteq> 0
      then (RUNTIME_SYSCALL_STATUS_EISDIR, fs)
      else if nd_type nd \<noteq> RUNTIME_FILE_TYPE_DIRECTORY \<and> nd_type nd \<noteq> RUNTIME_FILE_TYPE_REGULAR
      then (RUNTIME_SYSCALL_STATUS_ENOTSUP, fs)
      else if flags AND RUNTIME_FILE_OPEN_WRITE \<noteq> 0 \<and> nd_mode nd AND 146 = 0
      then (RUNTIME_SYSCALL_STATUS_EBADF, fs)
      else if flags AND RUNTIME_FILE_OPEN_READ \<noteq> 0 \<and> nd_mode nd AND 292 = 0
      then (RUNTIME_SYSCALL_STATUS_EBADF, fs)
      else if flags AND RUNTIME_FILE_OPEN_WRITE \<noteq> 0 \<and> fs_node_has_open_writer truncated node_index
      then (RUNTIME_SYSCALL_STATUS_EBUSY, truncated)
      else if flags AND (RUNTIME_FILE_OPEN_WRITE OR RUNTIME_FILE_OPEN_TRUNCATE) \<noteq> 0 \<and>
              \<not> fs_node_owner_allows (nodes truncated ! node_index) current_pid
      then (RUNTIME_SYSCALL_STATUS_EACCES, truncated)
      else (RUNTIME_SYSCALL_STATUS_OK, truncated))"

definition runtime_fs_open ::
  "runtime_fs \<Rightarrow> u32 \<Rightarrow> string ptr \<Rightarrow> u32 \<Rightarrow> u32 ptr \<Rightarrow> int \<times> runtime_fs \<times> u32 ptr" where
  "runtime_fs_open fs current_pid path flags file_object =
     (if path = None \<or> file_object = None \<or> cchar (the path) 0 \<noteq> CHR ''/''
      then (RUNTIME_SYSCALL_STATUS_EINVAL, fs, file_object)
      else case fs_open_lookup fs current_pid path flags of
        Inl status \<Rightarrow> (status, fs, file_object)
      | Inr (fs1, node_index) \<Rightarrow>
          (case fs_open_check fs1 current_pid node_index flags of (status, fs2) \<Rightarrow>
             if status \<noteq> RUNTIME_SYSCALL_STATUS_OK then (status, fs2, file_object)
             else case fs_open_slot_alloc fs2 node_index flags of (slot, fs3) \<Rightarrow>
               if slot < 0 then (slot, fs3, Some (word_of_int slot))
               else (RUNTIME_SYSCALL_STATUS_OK,
                     upd_open (nat slot - 1) (\<lambda>f. f\<lparr>of_owner_pid := current_pid\<rparr>) fs3,
                     Some (word_of_int slot))))"

text \<open>The status for an open node that is not a regular file (a directory, for \<open>readdir\<close>).\<close>

definition fs_not_regular_status :: "u32 \<Rightarrow> int" where
  "fs_not_regular_status ty =
     (if ty = RUNTIME_FILE_TYPE_DIRECTORY then RUNTIME_SYSCALL_STATUS_EISDIR
      else RUNTIME_SYSCALL_STATUS_ENOTSUP)"

text \<open>The caller's buffer holds at least the number of bytes it asks for.\<close>

definition runtime_fs_read ::
  "runtime_fs \<Rightarrow> nat \<Rightarrow> u8 list ptr \<Rightarrow> nat \<Rightarrow> int \<times> runtime_fs \<times> u8 list ptr" where
  "runtime_fs_read fs file_object buffer nbytes =
     (case buffer of
        None \<Rightarrow> (RUNTIME_SYSCALL_STATUS_EBADF, fs, buffer)
      | Some bytes \<Rightarrow>
          (case fs_open_file_lookup fs file_object of
             None \<Rightarrow> (RUNTIME_SYSCALL_STATUS_EBADF, fs, buffer)
           | Some slot \<Rightarrow>
               (let open_file = open_files fs ! slot; node = nodes fs ! of_node_index open_file in
                if of_flags open_file AND RUNTIME_FILE_OPEN_READ = 0
                then (RUNTIME_SYSCALL_STATUS_EBADF, fs, buffer)
                else if nd_type node \<noteq> RUNTIME_FILE_TYPE_REGULAR
                then (fs_not_regular_status (nd_type node), fs, buffer)
                else if of_offset open_file \<ge> nd_size_bytes node then (0, fs, buffer)
                else let remaining = nd_size_bytes node - of_offset open_file;
                         count = (if nbytes < remaining then nbytes else remaining) in
                  (int count,
                   upd_open slot (\<lambda>f. f\<lparr>of_offset := of_offset f + count\<rparr>) fs,
                   Some (fold (\<lambda>index b. b[index := nd_data node ! (of_offset open_file + index)])
                     [0..<count] bytes)))))"

text \<open>The stores of \<open>runtime_fs_write\<close>: the gap up to the offset, the bytes, the size.\<close>

definition fs_write_node :: "runtime_fs_node \<Rightarrow> nat \<Rightarrow> u8 list \<Rightarrow> nat \<Rightarrow> runtime_fs_node" where
  "fs_write_node node offset bytes nbytes =
     (let end_offset = u32_add offset nbytes;
          zeroed = (if offset > nd_size_bytes node
                    then fs_zero_range node (nd_size_bytes node) offset else node) in
      zeroed\<lparr>nd_data :=
          fold (\<lambda>index d. d[offset + index := bytes ! index]) [0..<nbytes] (nd_data zeroed),
        nd_size_bytes := (if end_offset > nd_size_bytes zeroed then end_offset
                          else nd_size_bytes zeroed)\<rparr>)"

text \<open>
  \<open>None\<close>: \<open>nodes[open_file->node_index]\<close> is read outside the node array, or the copy loop stores
  outside \<open>node->data\<close> or reads outside the caller's buffer. The end offset is computed in \<open>uint32_t\<close>
  and wraps.
\<close>

definition runtime_fs_write ::
  "runtime_fs \<Rightarrow> nat \<Rightarrow> u8 list ptr \<Rightarrow> nat \<Rightarrow> (int \<times> runtime_fs) option" where
  "runtime_fs_write fs file_object buffer nbytes =
     (case buffer of
        None \<Rightarrow> Some (RUNTIME_SYSCALL_STATUS_EBADF, fs)
      | Some bytes \<Rightarrow>
          (case fs_open_file_lookup fs file_object of
             None \<Rightarrow> Some (RUNTIME_SYSCALL_STATUS_EBADF, fs)
           | Some slot \<Rightarrow>
               (let open_file = open_files fs ! slot; node = nodes fs ! of_node_index open_file;
                    offset = of_offset open_file; end_offset = u32_add offset nbytes in
                if of_flags open_file AND RUNTIME_FILE_OPEN_WRITE = 0
                then Some (RUNTIME_SYSCALL_STATUS_EBADF, fs)
                else if of_node_index open_file \<ge> RUNTIME_FS_MAX_NODES then None
                else if nd_type node \<noteq> RUNTIME_FILE_TYPE_REGULAR
                then Some (fs_not_regular_status (nd_type node), fs)
                else if end_offset > RUNTIME_FS_FILE_CAPACITY
                then Some (RUNTIME_SYSCALL_STATUS_ENOSPC, fs)
                else if offset + nbytes > RUNTIME_FS_FILE_CAPACITY \<or> nbytes > length bytes then None
                else Some (int nbytes,
                    upd_open slot (\<lambda>f. f\<lparr>of_offset := end_offset\<rparr>)
                      (upd_node (of_node_index open_file)
                        (\<lambda>node. fs_write_node node offset bytes nbytes) fs)))))"

definition runtime_fs_close :: "runtime_fs \<Rightarrow> nat \<Rightarrow> int \<times> runtime_fs" where
  "runtime_fs_close fs file_object =
     (case fs_open_file_lookup fs file_object of
        None \<Rightarrow> (RUNTIME_SYSCALL_STATUS_EBADF, fs)
      | Some slot \<Rightarrow>
          (RUNTIME_SYSCALL_STATUS_OK,
           upd_open slot (\<lambda>f. f\<lparr>of_used := False, of_node_index := 0, of_owner_pid := 0,
             of_flags := 0, of_offset := 0, of_dir_cursor := 0\<rparr>) fs))"

definition runtime_fs_stat ::
  "runtime_fs \<Rightarrow> nat \<Rightarrow> runtime_file_stat ptr \<Rightarrow> int \<times> runtime_file_stat ptr" where
  "runtime_fs_stat fs file_object stat =
     (case stat of
        None \<Rightarrow> (RUNTIME_SYSCALL_STATUS_EBADF, stat)
      | Some _ \<Rightarrow>
          (case fs_open_file_lookup fs file_object of
             None \<Rightarrow> (RUNTIME_SYSCALL_STATUS_EBADF, stat)
           | Some slot \<Rightarrow>
               (let node = nodes fs ! of_node_index (open_files fs ! slot) in
                (RUNTIME_SYSCALL_STATUS_OK,
                 Some \<lparr>st_type = nd_type node, st_mode = nd_mode node,
                       st_size_bytes = nd_size_bytes node\<rparr>))))"

definition runtime_fs_readdir ::
  "runtime_fs \<Rightarrow> nat \<Rightarrow> runtime_dir_entry ptr \<Rightarrow> int \<times> runtime_fs \<times> runtime_dir_entry ptr" where
  "runtime_fs_readdir fs file_object entry =
     (case entry of
        None \<Rightarrow> (RUNTIME_SYSCALL_STATUS_EBADF, fs, entry)
      | Some old \<Rightarrow>
          (case fs_open_file_lookup fs file_object of
             None \<Rightarrow> (RUNTIME_SYSCALL_STATUS_EBADF, fs, entry)
           | Some slot \<Rightarrow>
               (let open_file = open_files fs ! slot; node = nodes fs ! of_node_index open_file in
                if of_flags open_file AND RUNTIME_FILE_OPEN_READ = 0
                then (RUNTIME_SYSCALL_STATUS_EBADF, fs, entry)
                else if nd_type node \<noteq> RUNTIME_FILE_TYPE_DIRECTORY
                then ((if nd_type node = RUNTIME_FILE_TYPE_REGULAR then RUNTIME_SYSCALL_STATUS_ENOTDIR
                       else RUNTIME_SYSCALL_STATUS_ENOTSUP), fs, entry)
                else case find (\<lambda>index. nd_used (nodes fs ! index) \<and>
                       nd_parent_index (nodes fs ! index) = of_node_index open_file)
                       [of_dir_cursor open_file..<RUNTIME_FS_MAX_NODES] of
                  None \<Rightarrow> (0, fs, entry)
                | Some index \<Rightarrow>
                    (1, upd_open slot (\<lambda>f. f\<lparr>of_dir_cursor := index + 1\<rparr>) fs,
                     Some (old\<lparr>de_type := nd_type (nodes fs ! index),
                       de_name := copy_name (de_name old) (nd_name (nodes fs ! index))\<rparr>)))))"

definition runtime_fs_seek :: "runtime_fs \<Rightarrow> nat \<Rightarrow> int \<Rightarrow> u32 \<Rightarrow> int \<times> runtime_fs" where
  "runtime_fs_seek fs file_object offset whence =
     (case fs_open_file_lookup fs file_object of
        None \<Rightarrow> (RUNTIME_SYSCALL_STATUS_EBADF, fs)
      | Some slot \<Rightarrow>
          (let open_file = open_files fs ! slot; node = nodes fs ! of_node_index open_file in
           if nd_type node \<noteq> RUNTIME_FILE_TYPE_REGULAR
           then (fs_not_regular_status (nd_type node), fs)
           else let base = (if whence = RUNTIME_FILE_SEEK_SET then Some 0
                            else if whence = RUNTIME_FILE_SEEK_CUR then Some (int (of_offset open_file))
                            else if whence = RUNTIME_FILE_SEEK_END then Some (int (nd_size_bytes node))
                            else None) in
             (case base of
                None \<Rightarrow> (RUNTIME_SYSCALL_STATUS_EINVAL, fs)
              | Some b \<Rightarrow>
                  (let next_offset = b + offset in
                   if next_offset < 0 \<or> next_offset > int RUNTIME_FS_FILE_CAPACITY \<or>
                      next_offset > 2 ^ 31 - 1
                   then (RUNTIME_SYSCALL_STATUS_EINVAL, fs)
                   else (next_offset,
                         upd_open slot (\<lambda>f. f\<lparr>of_offset := nat next_offset\<rparr>) fs)))))"

definition runtime_fs_remove :: "runtime_fs \<Rightarrow> u32 \<Rightarrow> string ptr \<Rightarrow> int \<times> runtime_fs" where
  "runtime_fs_remove fs current_pid path =
     (if path = None \<or> cchar (the path) 0 \<noteq> CHR ''/'' then (RUNTIME_SYSCALL_STATUS_EINVAL, fs)
      else if fs_path_is_root path then (RUNTIME_SYSCALL_STATUS_EBUSY, fs)
      else case fs_resolve_existing_path fs path of
        Inl status \<Rightarrow> (status, fs)
      | Inr node_index \<Rightarrow>
          (let node = nodes fs ! node_index in
           if \<not> fs_node_owner_allows node current_pid \<or>
              \<not> fs_node_owner_allows (nodes fs ! nd_parent_index node) current_pid
           then (RUNTIME_SYSCALL_STATUS_EACCES, fs)
           else if fs_node_is_open fs node_index then (RUNTIME_SYSCALL_STATUS_EBUSY, fs)
           else if nd_type node = RUNTIME_FILE_TYPE_DIRECTORY \<and> fs_node_has_children fs node_index
           then (RUNTIME_SYSCALL_STATUS_ENOTEMPTY, fs)
           else (RUNTIME_SYSCALL_STATUS_OK, upd_node node_index fs_clear_node fs)))"

text \<open>\<open>None\<close>: the walk up the parents does not end.\<close>

definition runtime_fs_rename ::
  "runtime_fs \<Rightarrow> u32 \<Rightarrow> string ptr \<Rightarrow> string ptr \<Rightarrow> (int \<times> runtime_fs) option" where
  "runtime_fs_rename fs current_pid old_path new_path =
     (if old_path = None \<or> new_path = None \<or> cchar (the old_path) 0 \<noteq> CHR ''/'' \<or>
         cchar (the new_path) 0 \<noteq> CHR ''/''
      then Some (RUNTIME_SYSCALL_STATUS_EINVAL, fs)
      else if name_equals (the old_path) (the new_path) then Some (RUNTIME_SYSCALL_STATUS_OK, fs)
      else if fs_path_is_root old_path \<or> fs_path_is_root new_path
      then Some (RUNTIME_SYSCALL_STATUS_EBUSY, fs)
      else case fs_resolve_existing_path fs old_path of
        Inl status \<Rightarrow> Some (status, fs)
      | Inr node_index \<Rightarrow>
          (if fs_resolve_path fs new_path \<noteq> None then Some (RUNTIME_SYSCALL_STATUS_EEXIST, fs)
           else case fs_resolve_parent_path fs new_path of
             Inl status \<Rightarrow> Some (status, fs)
           | Inr (leaf_name, parent_index) \<Rightarrow>
               (let node = nodes fs ! node_index;
                    renamed = upd_node node_index (\<lambda>nd. nd\<lparr>nd_parent_index := parent_index,
                      nd_name := copy_name (nd_name nd) leaf_name\<rparr>) fs in
                if \<not> fs_node_owner_allows node current_pid \<or>
                   \<not> fs_node_owner_allows (nodes fs ! nd_parent_index node) current_pid \<or>
                   \<not> fs_node_owner_allows (nodes fs ! parent_index) current_pid
                then Some (RUNTIME_SYSCALL_STATUS_EACCES, fs)
                else if nd_type node = RUNTIME_FILE_TYPE_DIRECTORY
                then map_option (\<lambda>inside. if inside then (RUNTIME_SYSCALL_STATUS_EINVAL, fs)
                       else (RUNTIME_SYSCALL_STATUS_OK, renamed))
                       (fs_parent_chain_contains fs parent_index node_index)
                else Some (RUNTIME_SYSCALL_STATUS_OK, renamed))))"

section \<open>Validation\<close>

text \<open>
  The walk of \<open>runtime_fs_validate\<close> up the parents. \<open>None\<close>: it reads \<open>nodes[current]\<close> outside the
  array; otherwise the status.
\<close>

function fs_validate_chain :: "runtime_fs \<Rightarrow> nat \<Rightarrow> nat \<Rightarrow> int option" where
  "fs_validate_chain fs current depth =
     (if current = 0 then Some RUNTIME_SYSCALL_STATUS_OK
      else let parent = nd_parent_index (nodes fs ! current) in
        if Suc depth > RUNTIME_FS_MAX_NODES then Some RUNTIME_SYSCALL_STATUS_EINVAL
        else if parent \<ge> RUNTIME_FS_MAX_NODES then None
        else if \<not> nd_used (nodes fs ! parent) then Some RUNTIME_SYSCALL_STATUS_EINVAL
        else fs_validate_chain fs parent (Suc depth))"
  by pat_completeness auto
termination
  by (relation "measure (\<lambda>(fs, current, depth). Suc RUNTIME_FS_MAX_NODES - depth)")
     (auto simp: Let_def)

declare fs_validate_chain.simps [simp del]

definition fs_has_twin :: "runtime_fs \<Rightarrow> nat \<Rightarrow> bool" where
  "fs_has_twin fs index \<longleftrightarrow>
     list_ex (\<lambda>other. nd_used (nodes fs ! other) \<and>
       nd_parent_index (nodes fs ! other) = nd_parent_index (nodes fs ! index) \<and>
       name_equals (nd_name (nodes fs ! other)) (nd_name (nodes fs ! index)))
     [Suc index..<RUNTIME_FS_MAX_NODES]"

definition fs_validate_node :: "runtime_fs \<Rightarrow> nat \<Rightarrow> int option" where
  "fs_validate_node fs index =
     (let node = nodes fs ! index in
      if \<not> nd_used node then Some RUNTIME_SYSCALL_STATUS_OK
      else if nd_type node \<noteq> RUNTIME_FILE_TYPE_DIRECTORY \<and> nd_type node \<noteq> RUNTIME_FILE_TYPE_REGULAR
      then Some RUNTIME_SYSCALL_STATUS_EINVAL
      else if fs_name_is_empty (nd_name node) then Some RUNTIME_SYSCALL_STATUS_EINVAL
      else if nd_parent_index node \<ge> RUNTIME_FS_MAX_NODES then Some RUNTIME_SYSCALL_STATUS_EINVAL
      else if \<not> nd_used (nodes fs ! nd_parent_index node) \<or>
              nd_type (nodes fs ! nd_parent_index node) \<noteq> RUNTIME_FILE_TYPE_DIRECTORY
      then Some RUNTIME_SYSCALL_STATUS_EINVAL
      else if nd_size_bytes node > RUNTIME_FS_FILE_CAPACITY then Some RUNTIME_SYSCALL_STATUS_EINVAL
      else case fs_validate_chain fs index 0 of
        None \<Rightarrow> None
      | Some status \<Rightarrow>
          (if status \<noteq> RUNTIME_SYSCALL_STATUS_OK then Some status
           else if fs_has_twin fs index then Some RUNTIME_SYSCALL_STATUS_EEXIST
           else Some RUNTIME_SYSCALL_STATUS_OK))"

definition fs_validate_open :: "runtime_fs \<Rightarrow> nat \<Rightarrow> int option" where
  "fs_validate_open fs index =
     (let open_file = open_files fs ! index; node = nodes fs ! of_node_index open_file in
      if \<not> of_used open_file then Some RUNTIME_SYSCALL_STATUS_OK
      else if of_node_index open_file \<ge> RUNTIME_FS_MAX_NODES then Some RUNTIME_SYSCALL_STATUS_EBADF
      else if \<not> nd_used node then Some RUNTIME_SYSCALL_STATUS_EBADF
      else if nd_type node = RUNTIME_FILE_TYPE_REGULAR \<and> of_offset open_file > RUNTIME_FS_FILE_CAPACITY
      then Some RUNTIME_SYSCALL_STATUS_EINVAL
      else if nd_type node = RUNTIME_FILE_TYPE_DIRECTORY \<and>
              of_flags open_file AND RUNTIME_FILE_OPEN_WRITE \<noteq> 0
      then Some RUNTIME_SYSCALL_STATUS_EISDIR
      else Some RUNTIME_SYSCALL_STATUS_OK)"

text \<open>A sequence of checks stops at the first one that faults or fails.\<close>

fun first_failure :: "int option list \<Rightarrow> int option" where
  "first_failure [] = Some RUNTIME_SYSCALL_STATUS_OK"
| "first_failure (r # rs) = (if r = Some RUNTIME_SYSCALL_STATUS_OK then first_failure rs else r)"

definition fs_root_ok :: "runtime_fs \<Rightarrow> bool" where
  "fs_root_ok fs \<longleftrightarrow>
     (let root = nodes fs ! 0 in
      \<not> (\<not> nd_used root \<or> nd_type root \<noteq> RUNTIME_FILE_TYPE_DIRECTORY \<or> nd_parent_index root \<noteq> 0 \<or>
         cchar (nd_name root) 0 \<noteq> CHR ''/'' \<or> cchar (nd_name root) 1 \<noteq> NUL))"

definition runtime_fs_validate :: "runtime_fs \<Rightarrow> int option" where
  "runtime_fs_validate fs =
     (if \<not> fs_root_ok fs then Some RUNTIME_SYSCALL_STATUS_EINVAL
      else first_failure
        (map (fs_validate_node fs) [1..<RUNTIME_FS_MAX_NODES] @
         map (fs_validate_open fs) [0..<RUNTIME_FS_MAX_OPEN_FILES]))"

end
