(* ===== verification/Runtime_Fs_Inv.thy ===== *)
theory Runtime_Fs_Inv
  imports Runtime_Fs
begin

text \<open>
  The consistency of a file system, stated without the loops of \<open>runtime_fs_validate\<close>, its
  equivalence with the result of that function, and that every operation keeps it.
\<close>

section \<open>Names\<close>

lemma name_equals_iff: "name_equals a b \<longleftrightarrow> cstr a = cstr b"
  by (induction a b rule: name_equals.induct) auto

lemma cchar_cstr: "i < length (cstr s) \<Longrightarrow> cchar s i = cstr s ! i"
  by (induction s arbitrary: i) (auto split: if_splits simp: less_Suc_eq_0_disj)

lemma cchar_NUL_iff: "i \<le> length (cstr s) \<Longrightarrow> cchar s i = NUL \<longleftrightarrow> i = length (cstr s)"
proof (induction s arbitrary: i)
  case (Cons c s)
  then show ?case by (cases i) auto
qed simp

lemma cchar_0_NUL: "cchar s 0 = NUL \<longleftrightarrow> cstr s = []"
  using cchar_NUL_iff [of 0 s] by auto

lemma copy_name_at_eq:
  "i \<le> length (cstr src) \<Longrightarrow> i < RUNTIME_FS_NAME_CAPACITY \<Longrightarrow> length dest = RUNTIME_FS_NAME_CAPACITY \<Longrightarrow>
   take i dest = take i (cstr src) \<Longrightarrow>
   copy_name_at dest src i =
     take (RUNTIME_FS_NAME_CAPACITY - 1) (cstr src) @ NUL #
     drop (Suc (min (RUNTIME_FS_NAME_CAPACITY - 1) (length (cstr src)))) dest"
proof (induction dest src i rule: copy_name_at.induct)
  case (1 dest src i)
  show ?case
  proof (cases "cchar src i \<noteq> NUL \<and> i + 1 < RUNTIME_FS_NAME_CAPACITY")
    case True
    then have i: "i < length (cstr src)" using 1 cchar_NUL_iff [of i src] by auto
    have "take (Suc i) (dest[i := cchar src i]) = take (Suc i) (cstr src)"
      using 1 True i by (simp add: take_Suc_conv_app_nth cchar_cstr)
    with 1 True i have "copy_name_at (dest[i := cchar src i]) src (Suc i) =
        take (RUNTIME_FS_NAME_CAPACITY - 1) (cstr src) @ NUL #
        drop (Suc (min (RUNTIME_FS_NAME_CAPACITY - 1) (length (cstr src)))) (dest[i := cchar src i])"
      by (intro "1.IH") auto
    moreover have "drop (Suc (min (RUNTIME_FS_NAME_CAPACITY - 1) (length (cstr src))))
        (dest[i := cchar src i]) =
        drop (Suc (min (RUNTIME_FS_NAME_CAPACITY - 1) (length (cstr src)))) dest"
      using i 1 by (intro drop_update_cancel) simp
    ultimately show ?thesis using True by (subst copy_name_at.simps) simp
  next
    case False
    then have "i = length (cstr src) \<or> i = RUNTIME_FS_NAME_CAPACITY - 1"
      using 1 cchar_NUL_iff [of i src] by auto
    then have i: "i = min (RUNTIME_FS_NAME_CAPACITY - 1) (length (cstr src))"
      using 1 by auto
    then have "dest[i := NUL] = take i (cstr src) @ NUL # drop (Suc i) dest"
      using 1 by (simp add: upd_conv_take_nth_drop)
    moreover have "take i (cstr src) = take (RUNTIME_FS_NAME_CAPACITY - 1) (cstr src)"
      using i by (simp add: min_def)
    ultimately show ?thesis using False i by (subst copy_name_at.simps) auto
  qed
qed

lemma copy_name_eq:
  "length dest = RUNTIME_FS_NAME_CAPACITY \<Longrightarrow>
   copy_name dest src = take (RUNTIME_FS_NAME_CAPACITY - 1) (cstr src) @ NUL #
     drop (Suc (min (RUNTIME_FS_NAME_CAPACITY - 1) (length (cstr src)))) dest"
  unfolding copy_name_def
  by (rule copy_name_at_eq) (simp_all add: RUNTIME_FS_NAME_CAPACITY_def)

lemma length_copy_name_at [simp]: "length (copy_name_at dest src i) = length dest"
  by (induction dest src i rule: copy_name_at.induct) (subst copy_name_at.simps, simp)

lemma length_copy_name [simp]: "length (copy_name dest src) = length dest"
  by (simp add: copy_name_def)

lemma cstr_copy_name:
  "length dest = RUNTIME_FS_NAME_CAPACITY \<Longrightarrow>
   cstr (copy_name dest src) = take (RUNTIME_FS_NAME_CAPACITY - 1) (cstr src)"
  unfolding copy_name_eq by (intro cstr_append_NUL) (auto dest: in_set_takeD)

text \<open>A path component that \<open>fs_token_next\<close> returns.\<close>

definition component :: "string \<Rightarrow> bool" where
  "component t \<longleftrightarrow> t \<noteq> [] \<and> NUL \<notin> set t \<and> CHR ''/'' \<notin> set t \<and> length t < RUNTIME_FS_NAME_CAPACITY"

lemma component_copy_name:
  assumes "component t" and "length dest = RUNTIME_FS_NAME_CAPACITY"
  shows "cstr (copy_name dest t) = t"
  using assms by (simp add: cstr_copy_name component_def cstr_id less_imp_le_nat Suc_leI le_diff_conv2)

lemma component_cstr [simp]: "component t \<Longrightarrow> cstr t = t"
  by (simp add: component_def cstr_id)

lemma scan_token_component:
  "scan_token s n = Some (t, r) \<Longrightarrow> n < RUNTIME_FS_NAME_CAPACITY \<Longrightarrow>
   NUL \<notin> set t \<and> CHR ''/'' \<notin> set t \<and> n + length t < RUNTIME_FS_NAME_CAPACITY"
  by (induction s n arbitrary: t r rule: scan_token.induct) (fastforce split: if_splits)+

lemma skip_slashes_head: "skip_slashes s = c # cs \<Longrightarrow> c \<noteq> CHR ''/''"
  by (induction s) (auto split: if_splits)

lemma fs_token_next_component:
  assumes "fs_token_next cursor = Token t rest"
  shows "component t"
proof -
  let ?scan = "skip_slashes cursor"
  from assms have ne: "cchar ?scan 0 \<noteq> NUL" and scan: "scan_token ?scan 0 = Some (t, rest)"
    by (auto simp: fs_token_next_def Let_def split: if_splits option.splits)
  obtain c cs where s: "?scan = c # cs" using ne by (cases ?scan) auto
  with ne scan skip_slashes_head [OF s] have "t \<noteq> []" by (auto split: if_splits)
  with scan_token_component [OF scan] show ?thesis
    by (simp add: component_def RUNTIME_FS_NAME_CAPACITY_def)
qed

section \<open>Consistency\<close>

definition fs_parent :: "runtime_fs \<Rightarrow> nat \<Rightarrow> nat" where
  "fs_parent fs i = nd_parent_index (nodes fs ! i)"

text \<open>The walk up the parents from a node reaches the root.\<close>

inductive rooted :: "runtime_fs \<Rightarrow> nat \<Rightarrow> bool" for fs where
  rooted_root: "rooted fs 0"
| rooted_step: "rooted fs (fs_parent fs i) \<Longrightarrow> rooted fs i"

definition live :: "runtime_fs \<Rightarrow> nat \<Rightarrow> bool" where
  "live fs i \<longleftrightarrow> i < RUNTIME_FS_MAX_NODES \<and> nd_used (nodes fs ! i)"

definition live_dir :: "runtime_fs \<Rightarrow> nat \<Rightarrow> bool" where
  "live_dir fs i \<longleftrightarrow> live fs i \<and> nd_type (nodes fs ! i) = RUNTIME_FILE_TYPE_DIRECTORY"

definition node_ok :: "runtime_fs \<Rightarrow> nat \<Rightarrow> bool" where
  "node_ok fs i \<longleftrightarrow>
     nd_type (nodes fs ! i) \<in> {RUNTIME_FILE_TYPE_DIRECTORY, RUNTIME_FILE_TYPE_REGULAR} \<and>
     cstr (nd_name (nodes fs ! i)) \<noteq> [] \<and>
     live_dir fs (fs_parent fs i) \<and>
     nd_size_bytes (nodes fs ! i) \<le> RUNTIME_FS_FILE_CAPACITY"

definition fs_tree :: "runtime_fs \<Rightarrow> bool" where
  "fs_tree fs \<longleftrightarrow> fs_root_ok fs \<and> (\<forall>i. i \<noteq> 0 \<longrightarrow> live fs i \<longrightarrow> node_ok fs i \<and> rooted fs i)"

definition fs_distinct :: "runtime_fs \<Rightarrow> bool" where
  "fs_distinct fs \<longleftrightarrow> (\<forall>i j. i \<noteq> 0 \<longrightarrow> j \<noteq> 0 \<longrightarrow> i \<noteq> j \<longrightarrow> live fs i \<longrightarrow> live fs j \<longrightarrow>
     fs_parent fs i = fs_parent fs j \<longrightarrow>
     cstr (nd_name (nodes fs ! i)) \<noteq> cstr (nd_name (nodes fs ! j)))"

definition open_ok :: "runtime_fs \<Rightarrow> runtime_fs_open_file \<Rightarrow> bool" where
  "open_ok fs f \<longleftrightarrow> (of_used f \<longrightarrow> live fs (of_node_index f) \<and>
     (nd_type (nodes fs ! of_node_index f) = RUNTIME_FILE_TYPE_REGULAR \<longrightarrow>
        of_offset f \<le> RUNTIME_FS_FILE_CAPACITY) \<and>
     (nd_type (nodes fs ! of_node_index f) = RUNTIME_FILE_TYPE_DIRECTORY \<longrightarrow>
        of_flags f AND RUNTIME_FILE_OPEN_WRITE = 0))"

definition fs_consistent :: "runtime_fs \<Rightarrow> bool" where
  "fs_consistent fs \<longleftrightarrow> fs_tree fs \<and> fs_distinct fs \<and>
     (\<forall>i<RUNTIME_FS_MAX_OPEN_FILES. open_ok fs (open_files fs ! i))"

lemma first_failure_OK: "first_failure rs = Some 0 \<longleftrightarrow> (\<forall>r\<in>set rs. r = Some 0)"
  by (induction rs) auto

lemma first_failure_maps_OK:
  "first_failure (map f xs @ map g ys) = Some 0 \<longleftrightarrow>
     (\<forall>x\<in>set xs. f x = Some 0) \<and> (\<forall>y\<in>set ys. g y = Some 0)"
  by (induction xs) (auto simp: first_failure_OK)

lemma first_failure_not_None: "(\<forall>r\<in>set rs. r \<noteq> None) \<Longrightarrow> first_failure rs \<noteq> None"
  by (induction rs) auto

section \<open>The walk up the parents\<close>

lemma validate_chain_rooted: "fs_validate_chain fs i d = Some 0 \<Longrightarrow> rooted fs i"
proof (induction fs i d rule: fs_validate_chain.induct)
  case (1 fs i d)
  show ?case
  proof (cases "i = 0")
    case True
    then show ?thesis by (simp add: rooted_root)
  next
    case False
    with 1(2) have "fs_validate_chain fs (nd_parent_index (nodes fs ! i)) (Suc d) = Some 0"
        and "Suc d \<le> RUNTIME_FS_MAX_NODES"
        and "nd_parent_index (nodes fs ! i) < RUNTIME_FS_MAX_NODES"
        and "nd_used (nodes fs ! nd_parent_index (nodes fs ! i))"
      by (auto simp: fs_validate_chain.simps [of fs i] Let_def split: if_splits)
    with False 1(1) have "rooted fs (fs_parent fs i)" by (simp add: fs_parent_def)
    then show ?thesis by (rule rooted_step)
  qed
qed

text \<open>\<open>depth fs i n\<close>: the walk from \<open>i\<close> visits \<open>n\<close> nodes other than the root.\<close>

inductive depth :: "runtime_fs \<Rightarrow> nat \<Rightarrow> nat \<Rightarrow> bool" for fs where
  depth_root: "depth fs 0 0"
| depth_step: "i \<noteq> 0 \<Longrightarrow> depth fs (fs_parent fs i) n \<Longrightarrow> depth fs i (Suc n)"

inductive_cases depth_SucE: "depth fs i (Suc n)"
inductive_cases depth_rootE: "depth fs 0 n"

lemma depth_fun: "depth fs i m \<Longrightarrow> depth fs i n \<Longrightarrow> m = n"
proof (induction arbitrary: n rule: depth.induct)
  case depth_root
  then show ?case by (auto elim: depth_rootE)
next
  case (depth_step i m)
  from depth_step.prems depth_step.hyps(1) obtain k where "n = Suc k" and "depth fs (fs_parent fs i) k"
    by (auto elim: depth.cases)
  with depth_step.IH show ?case by simp
qed

lemma rooted_depth: "rooted fs i \<Longrightarrow> \<exists>n. depth fs i n"
proof (induction rule: rooted.induct)
  case rooted_root
  show ?case using depth_root by blast
next
  case (rooted_step i)
  then show ?case
    by (cases "i = 0") (auto intro: depth.intros)
qed

text \<open>The nodes of the walk are different, so a walk inside the table is short.\<close>

lemma depth_bound:
  assumes closed: "\<And>j. j \<in> S \<Longrightarrow> j \<noteq> 0 \<Longrightarrow> fs_parent fs j \<in> S"
    and "depth fs i n" and "i \<in> S"
  shows "\<exists>W. W \<subseteq> S \<and> finite W \<and> card W = n \<and> (\<forall>j\<in>W. \<exists>m. m \<le> n \<and> m \<noteq> 0 \<and> depth fs j m)"
  using assms(2,3)
proof (induction rule: depth.induct)
  case depth_root
  show ?case by (rule exI [of _ "{}"]) auto
next
  case (depth_step i n)
  then obtain W where W: "W \<subseteq> S" "finite W" "card W = n"
      "\<forall>j\<in>W. \<exists>m. m \<le> n \<and> m \<noteq> 0 \<and> depth fs j m"
    using closed by blast
  have "depth fs i (Suc n)" using depth_step by (auto intro: depth.intros)
  moreover have "i \<notin> W"
  proof
    assume "i \<in> W"
    with W(4) obtain m where "m \<le> n" and "depth fs i m" by blast
    with depth_fun [OF \<open>depth fs i (Suc n)\<close>, of m] show False by simp
  qed
  ultimately show ?case using W depth_step.prems
    by (intro exI [of _ "insert i W"]) (auto simp: le_Suc_eq)
qed

lemma rooted_short:
  assumes "\<And>j. live fs j \<Longrightarrow> j \<noteq> 0 \<Longrightarrow> live fs (fs_parent fs j)" and "live fs i" and "rooted fs i"
  shows "\<exists>n<RUNTIME_FS_MAX_NODES. depth fs i n"
proof -
  obtain n where n: "depth fs i n" using rooted_depth [OF assms(3)] by blast
  obtain W where W: "W \<subseteq> {j. live fs j}" "finite W" "card W = n"
      "\<forall>j\<in>W. \<exists>m. m \<le> n \<and> m \<noteq> 0 \<and> depth fs j m"
    using depth_bound [of "{j. live fs j}" fs i n] assms n by auto
  have "0 \<notin> W" using W(4) depth_fun [OF depth_root] by blast
  then have "W \<subseteq> {1..<RUNTIME_FS_MAX_NODES}" using W(1) by (force simp: live_def Suc_le_eq intro: gr0I)
  then have "card W \<le> card {1..<RUNTIME_FS_MAX_NODES}" by (intro card_mono) auto
  then have "n \<le> RUNTIME_FS_MAX_NODES - 1" using W(3) by simp
  with n show ?thesis by (intro exI [of _ n]) (simp add: RUNTIME_FS_MAX_NODES_def)
qed

lemma depth_validate_chain:
  assumes "\<And>j. live fs j \<Longrightarrow> j \<noteq> 0 \<Longrightarrow> live fs (fs_parent fs j)"
    and "depth fs i n" and "live fs i" and "d + n \<le> RUNTIME_FS_MAX_NODES"
  shows "fs_validate_chain fs i d = Some 0"
  using assms(2-4)
proof (induction arbitrary: d rule: depth.induct)
  case depth_root
  then show ?case by (simp add: fs_validate_chain.simps)
next
  case (depth_step i n)
  then have "live fs (fs_parent fs i)" using assms(1) by blast
  with depth_step show ?case
    by (simp add: fs_validate_chain.simps [of fs i d] Let_def live_def fs_parent_def)
qed

section \<open>Validation decides consistency\<close>

lemma root_live_dir: "fs_root_ok fs \<Longrightarrow> live_dir fs 0"
  by (simp add: fs_root_ok_def Let_def live_dir_def live_def RUNTIME_FS_MAX_NODES_def)

lemma fs_tree_parent_live: "fs_tree fs \<Longrightarrow> live fs j \<Longrightarrow> j \<noteq> 0 \<Longrightarrow> live fs (fs_parent fs j)"
  by (auto simp: fs_tree_def node_ok_def live_dir_def)

lemma fs_tree_chain:
  assumes "fs_tree fs" and "live fs i"
  shows "fs_validate_chain fs i 0 = Some 0"
proof (cases "i = 0")
  case True
  then show ?thesis by (simp add: fs_validate_chain.simps)
next
  case False
  with assms have "rooted fs i" by (simp add: fs_tree_def)
  then obtain n where "n < RUNTIME_FS_MAX_NODES" and "depth fs i n"
    using rooted_short fs_tree_parent_live assms by blast
  then show ?thesis
    using depth_validate_chain [of fs i n 0] fs_tree_parent_live assms by auto
qed

definition twins :: "runtime_fs \<Rightarrow> nat \<Rightarrow> nat \<Rightarrow> bool" where
  "twins fs i j \<longleftrightarrow> live fs i \<and> live fs j \<and> fs_parent fs i = fs_parent fs j \<and>
     cstr (nd_name (nodes fs ! i)) = cstr (nd_name (nodes fs ! j))"

lemma fs_has_twin_iff: "live fs i \<Longrightarrow> fs_has_twin fs i \<longleftrightarrow> (\<exists>j>i. twins fs i j)"
  unfolding fs_has_twin_def list_ex_iff name_equals_iff live_def fs_parent_def twins_def Bex_def
  by (auto simp: Suc_le_eq)

lemma twins_sym: "twins fs i j \<longleftrightarrow> twins fs j i"
  by (auto simp: twins_def)

lemma fs_distinct_twins: "fs_distinct fs \<longleftrightarrow> (\<forall>i j. i \<noteq> 0 \<longrightarrow> j \<noteq> 0 \<longrightarrow> i \<noteq> j \<longrightarrow> \<not> twins fs i j)"
  by (auto simp: fs_distinct_def twins_def)

lemma no_twin_iff:
  "fs_distinct fs \<longleftrightarrow> (\<forall>i. i \<noteq> 0 \<longrightarrow> live fs i \<longrightarrow> \<not> fs_has_twin fs i)"
proof
  assume "fs_distinct fs"
  then show "\<forall>i. i \<noteq> 0 \<longrightarrow> live fs i \<longrightarrow> \<not> fs_has_twin fs i"
    by (auto simp: fs_distinct_twins fs_has_twin_iff)
next
  assume no: "\<forall>i. i \<noteq> 0 \<longrightarrow> live fs i \<longrightarrow> \<not> fs_has_twin fs i"
  have "\<not> twins fs i j" if "i \<noteq> 0" "j \<noteq> 0" "i < j" for i j
    using no that fs_has_twin_iff [of fs i] by (auto simp: twins_def)
  then show "fs_distinct fs"
    unfolding fs_distinct_twins by (metis linorder_neqE_nat twins_sym)
qed

lemma fs_validate_node_OK:
  "fs_validate_node fs i = Some 0 \<longleftrightarrow>
     (nd_used (nodes fs ! i) \<longrightarrow> node_ok fs i \<and> fs_validate_chain fs i 0 = Some 0 \<and> \<not> fs_has_twin fs i)"
  by (auto simp: fs_validate_node_def Let_def node_ok_def live_dir_def live_def fs_parent_def
      fs_name_is_empty_def cchar_0_NUL split: option.splits)

lemma fs_validate_open_OK: "fs_validate_open fs i = Some 0 \<longleftrightarrow> open_ok fs (open_files fs ! i)"
  by (auto simp: fs_validate_open_def Let_def open_ok_def live_def)

lemma runtime_fs_validate_iff: "runtime_fs_validate fs = Some 0 \<longleftrightarrow> fs_consistent fs"
proof -
  have "runtime_fs_validate fs = Some 0 \<longleftrightarrow> fs_root_ok fs \<and>
      (\<forall>i. i \<noteq> 0 \<longrightarrow> live fs i \<longrightarrow> node_ok fs i \<and> fs_validate_chain fs i 0 = Some 0 \<and> \<not> fs_has_twin fs i) \<and>
      (\<forall>i<RUNTIME_FS_MAX_OPEN_FILES. open_ok fs (open_files fs ! i))"
    by (auto simp: runtime_fs_validate_def first_failure_maps_OK fs_validate_node_OK
        fs_validate_open_OK live_def Suc_le_eq)
  also have "\<dots> \<longleftrightarrow> fs_consistent fs"
    unfolding fs_consistent_def no_twin_iff
    using fs_tree_chain [of fs] validate_chain_rooted [of fs _ 0]
    by (auto simp: fs_tree_def)
  finally show ?thesis .
qed

section \<open>Shape of the arrays\<close>

definition node_shape :: "runtime_fs_node \<Rightarrow> bool" where
  "node_shape nd \<longleftrightarrow> length (nd_name nd) = RUNTIME_FS_NAME_CAPACITY \<and>
     length (nd_data nd) = RUNTIME_FS_FILE_CAPACITY"

definition fs_shape :: "runtime_fs \<Rightarrow> bool" where
  "fs_shape fs \<longleftrightarrow> length (nodes fs) = RUNTIME_FS_MAX_NODES \<and>
     length (open_files fs) = RUNTIME_FS_MAX_OPEN_FILES \<and>
     (\<forall>i<RUNTIME_FS_MAX_NODES. node_shape (nodes fs ! i))"

definition fs_inv :: "runtime_fs \<Rightarrow> bool" where
  "fs_inv fs \<longleftrightarrow> fs_shape fs \<and> fs_consistent fs"

lemma nodes_upd_node [simp]: "nodes (upd_node i f fs) = (nodes fs)[i := f (nodes fs ! i)]"
  by (simp add: upd_node_def)

lemma open_files_upd_node [simp]: "open_files (upd_node i f fs) = open_files fs"
  by (simp add: upd_node_def)

lemma nodes_upd_open [simp]: "nodes (upd_open i f fs) = nodes fs"
  by (simp add: upd_open_def)

lemma open_files_upd_open [simp]:
  "open_files (upd_open i f fs) = (open_files fs)[i := f (open_files fs ! i)]"
  by (simp add: upd_open_def)

lemma fs_shape_upd_node:
  assumes "fs_shape fs" and "i < RUNTIME_FS_MAX_NODES" and "node_shape (f (nodes fs ! i))"
  shows "fs_shape (upd_node i f fs)"
  using assms by (auto simp: fs_shape_def nth_list_update_if)

lemma fs_shape_upd_open: "fs_shape (upd_open i f fs) = fs_shape fs"
  by (simp add: fs_shape_def)

section \<open>Lookup\<close>

lemma fs_find_child_Some:
  assumes "fs_shape fs" and "fs_find_child fs p name = Some i"
  shows "live fs i" and "fs_parent fs i = p" and "cstr (nd_name (nodes fs ! i)) = cstr name"
  using assms by (auto simp: fs_find_child_def first_index_Some fs_shape_def live_def fs_parent_def name_equals_iff)

lemma fs_find_child_None:
  assumes "fs_shape fs"
  shows "fs_find_child fs p name = None \<longleftrightarrow>
    (\<forall>i. live fs i \<longrightarrow> fs_parent fs i = p \<longrightarrow> cstr (nd_name (nodes fs ! i)) \<noteq> cstr name)"
  using assms by (auto simp: fs_find_child_def first_index_None fs_shape_def live_def fs_parent_def name_equals_iff)

lemma root_name: "fs_root_ok fs \<Longrightarrow> cstr (nd_name (nodes fs ! 0)) = ''/''"
proof -
  assume "fs_root_ok fs"
  then have "cchar (nd_name (nodes fs ! 0)) 0 = CHR ''/''" and "cchar (nd_name (nodes fs ! 0)) 1 = NUL"
    by (auto simp: fs_root_ok_def Let_def)
  then show ?thesis
    by (cases "nd_name (nodes fs ! 0)"; cases "tl (nd_name (nodes fs ! 0))") (auto simp: cchar_def)
qed

lemma fs_find_child_not_root:
  assumes "fs_shape fs" and "fs_root_ok fs" and "component t" and "fs_find_child fs p t = Some i"
  shows "i \<noteq> 0"
  using fs_find_child_Some(3) [OF assms(1,4)] root_name [OF assms(2)] assms(3)
  by (cases "i = 0") (auto simp: component_def cstr_id)

lemma fs_resolve_from_live:
  "fs_resolve_from fs current cursor = Some i \<Longrightarrow> fs_shape fs \<Longrightarrow> live fs current \<Longrightarrow> live fs i"
proof (induction fs current cursor rule: fs_resolve_from.induct)
  case (1 fs current cursor)
  then show ?case
    by (auto simp: fs_resolve_from.simps [of fs current cursor] dest: fs_find_child_Some
        split: token_step.splits option.splits)
qed

lemma fs_resolve_path_live:
  assumes "fs_resolve_path fs path = Some i" and "fs_shape fs" and "fs_root_ok fs"
  shows "live fs i"
  using assms root_live_dir [OF assms(3)]
  by (auto simp: fs_resolve_path_def live_dir_def intro: fs_resolve_from_live
      split: option.splits if_splits)

lemma fs_parent_from_Inr:
  "fs_parent_from fs current token cursor = Inr (leaf, p) \<Longrightarrow> fs_shape fs \<Longrightarrow> live_dir fs current \<Longrightarrow>
   component token \<Longrightarrow>
   live_dir fs p \<and> component leaf \<and>
   (case fs_find_child fs current token of None \<Rightarrow> None | Some c \<Rightarrow> fs_resolve_from fs c cursor) =
     fs_find_child fs p leaf"
proof (induction fs current token cursor rule: fs_parent_from.induct)
  case (1 fs current token cursor)
  show ?case
  proof (cases "fs_token_next cursor")
    case Token_End
    with 1 show ?thesis
      by (auto simp: fs_parent_from.simps [of fs current token cursor]
          fs_resolve_from.simps [of fs _ cursor] split: option.splits)
  next
    case Token_Too_Long
    with 1 show ?thesis by (simp add: fs_parent_from.simps [of fs current token cursor])
  next
    case (Token next_token rest)
    with 1(2) obtain c where c: "fs_find_child fs current token = Some c"
        "nd_type (nodes fs ! c) = RUNTIME_FILE_TYPE_DIRECTORY"
        "fs_parent_from fs c next_token rest = Inr (leaf, p)"
      by (auto simp: fs_parent_from.simps [of fs current token cursor] split: option.splits if_splits)
    have "live_dir fs c"
      using c fs_find_child_Some(1) [OF 1(3) c(1)] by (simp add: live_dir_def)
    with 1(1) [OF Token c(1)] c 1(3) fs_token_next_component [OF Token]
    have "live_dir fs p \<and> component leaf \<and>
        (case fs_find_child fs c next_token of None \<Rightarrow> None | Some d \<Rightarrow> fs_resolve_from fs d rest) =
          fs_find_child fs p leaf"
      by simp
    with c Token show ?thesis
      by (simp add: fs_resolve_from.simps [of fs c cursor])
  qed
qed

lemma fs_resolve_parent_path_Inr:
  assumes "fs_resolve_parent_path fs path = Inr (leaf, p)" and "fs_shape fs" and "fs_root_ok fs"
  shows "live_dir fs p" and "component leaf" and "fs_resolve_path fs path = fs_find_child fs p leaf"
proof -
  obtain s t rest where s: "path = Some s" "cchar s 0 = CHR ''/''" "cchar s 1 \<noteq> NUL"
      and t: "fs_token_next s = Token t rest" "fs_parent_from fs 0 t rest = Inr (leaf, p)"
    using assms(1)
    by (auto simp: fs_resolve_parent_path_def fs_path_is_absolute_non_root_def
        split: if_splits option.splits token_step.splits)
  from fs_parent_from_Inr [OF t(2) assms(2) root_live_dir [OF assms(3)] fs_token_next_component [OF t(1)]]
  show "live_dir fs p" "component leaf" "fs_resolve_path fs path = fs_find_child fs p leaf"
    using s t(1) by (auto simp: fs_resolve_path_def fs_resolve_from.simps [of fs 0 s])
qed

section \<open>Changing one node\<close>

lemma rooted_transfer:
  assumes "rooted fs i" and "i \<in> S"
    and "\<And>j. j \<in> S \<Longrightarrow> j \<noteq> 0 \<Longrightarrow> fs_parent fs j \<in> S \<and> fs_parent fs' j = fs_parent fs j"
  shows "rooted fs' i"
  using assms(1,2)
proof (induction rule: rooted.induct)
  case rooted_root
  show ?case by (rule rooted.rooted_root)
next
  case (rooted_step i)
  show ?case
  proof (cases "i = 0")
    case True
    then show ?thesis by (simp add: rooted.rooted_root)
  next
    case False
    with rooted_step assms(3) have "rooted fs' (fs_parent fs' i)" by simp
    then show ?thesis by (rule rooted.rooted_step)
  qed
qed

definition node_skel :: "runtime_fs_node \<Rightarrow> bool \<times> u32 \<times> nat \<times> string" where
  "node_skel nd = (nd_used nd, nd_type nd, nd_parent_index nd, nd_name nd)"

definition same_skel :: "runtime_fs \<Rightarrow> runtime_fs \<Rightarrow> bool" where
  "same_skel fs fs' \<longleftrightarrow> (\<forall>i<RUNTIME_FS_MAX_NODES. node_skel (nodes fs' ! i) = node_skel (nodes fs ! i))"

lemma same_skel_live: "same_skel fs fs' \<Longrightarrow> live fs' = live fs"
  by (auto simp: same_skel_def live_def node_skel_def fun_eq_iff)

lemma same_skel_node:
  assumes "same_skel fs fs'" and "live fs i"
  shows "nd_type (nodes fs' ! i) = nd_type (nodes fs ! i)" and "fs_parent fs' i = fs_parent fs i"
    and "nd_name (nodes fs' ! i) = nd_name (nodes fs ! i)" and "nd_used (nodes fs' ! i)"
  using assms by (auto simp: same_skel_def live_def node_skel_def fs_parent_def)

lemma same_skel_tree:
  assumes skel: "same_skel fs fs'" and tree: "fs_tree fs" and dist: "fs_distinct fs"
    and size: "\<And>i. i \<noteq> 0 \<Longrightarrow> live fs i \<Longrightarrow> nd_size_bytes (nodes fs' ! i) \<le> RUNTIME_FS_FILE_CAPACITY"
  shows "fs_tree fs'" and "fs_distinct fs'"
proof -
  note node = same_skel_node [OF skel]
  have root: "live fs 0" using tree root_live_dir by (auto simp: fs_tree_def live_dir_def)
  have dir: "live_dir fs' i = live_dir fs i" for i
    using node(1) [of i] by (auto simp: live_dir_def same_skel_live [OF skel])
  have "rooted fs' i" if "i \<noteq> 0" "live fs i" for i
    using rooted_transfer [of fs i "{j. live fs j}" fs'] that node(2) tree fs_tree_parent_live [OF tree]
    by (auto simp: fs_tree_def)
  moreover have "node_ok fs' i" if "i \<noteq> 0" "live fs i" for i
    using that node [of i] tree size by (auto simp: node_ok_def fs_tree_def dir)
  moreover have "fs_root_ok fs'"
    using node [OF root] tree by (auto simp: fs_tree_def fs_root_ok_def Let_def fs_parent_def)
  ultimately show "fs_tree fs'" by (simp add: fs_tree_def same_skel_live [OF skel])
  show "fs_distinct fs'"
    using dist node by (simp add: fs_distinct_def same_skel_live [OF skel])
qed

lemma open_ok_same_skel:
  assumes "same_skel fs fs'" and "open_ok fs f"
  shows "open_ok fs' f"
  using assms same_skel_node [OF assms(1), of "of_node_index f"]
  by (auto simp: open_ok_def same_skel_live)

lemma same_skel_upd_node:
  "node_skel (f (nodes fs ! i)) = node_skel (nodes fs ! i) \<Longrightarrow> length (nodes fs) = RUNTIME_FS_MAX_NODES \<Longrightarrow>
   same_skel fs (upd_node i f fs)"
  by (auto simp: same_skel_def nth_list_update_if)

lemma same_skel_upd_open [simp]: "same_skel fs (upd_open i f fs)"
  by (simp add: same_skel_def)

lemma same_skel_refl [simp]: "same_skel fs fs"
  by (simp add: same_skel_def)

text \<open>Changes to the open files alone, and to the data of one node alone.\<close>

lemma fs_inv_upd_open:
  assumes inv: "fs_inv fs" and new: "open_ok fs (f (open_files fs ! i))"
  shows "fs_inv (upd_open i f fs)"
proof -
  have "fs_tree fs" and "fs_distinct fs" using inv by (simp_all add: fs_inv_def fs_consistent_def)
  moreover have "nd_size_bytes (nodes (upd_open i f fs) ! j) \<le> RUNTIME_FS_FILE_CAPACITY"
    if "j \<noteq> 0" "live fs j" for j
    using that \<open>fs_tree fs\<close> by (simp add: fs_tree_def node_ok_def)
  ultimately have tree: "fs_tree (upd_open i f fs)" "fs_distinct (upd_open i f fs)"
    using same_skel_tree [OF same_skel_upd_open] by blast+
  have old: "open_ok fs (open_files fs ! j)" if "j < RUNTIME_FS_MAX_OPEN_FILES" for j
    using that inv by (simp add: fs_inv_def fs_consistent_def)
  have "open_ok (upd_open i f fs) (open_files (upd_open i f fs) ! j)"
    if "j < RUNTIME_FS_MAX_OPEN_FILES" for j
    by (rule open_ok_same_skel [of fs]) (use that new old in \<open>auto simp: nth_list_update_if\<close>)
  with tree inv show ?thesis by (simp add: fs_inv_def fs_consistent_def fs_shape_upd_open)
qed

lemma fs_inv_upd_node_data:
  assumes inv: "fs_inv fs" and i: "i < RUNTIME_FS_MAX_NODES"
    and skel: "node_skel (f (nodes fs ! i)) = node_skel (nodes fs ! i)"
    and shape: "node_shape (f (nodes fs ! i))"
    and size: "nd_size_bytes (f (nodes fs ! i)) \<le> RUNTIME_FS_FILE_CAPACITY"
  shows "fs_inv (upd_node i f fs)"
proof -
  have len: "length (nodes fs) = RUNTIME_FS_MAX_NODES" using inv by (simp add: fs_inv_def fs_shape_def)
  note same = same_skel_upd_node [of f fs i, OF skel len]
  have sizes: "nd_size_bytes (nodes (upd_node i f fs) ! j) \<le> RUNTIME_FS_FILE_CAPACITY"
    if "j \<noteq> 0" "live fs j" for j
    using that inv size len
    by (auto simp: nth_list_update_if live_def fs_inv_def fs_consistent_def fs_tree_def node_ok_def)
  have "fs_shape (upd_node i f fs)"
    using inv i shape by (simp add: fs_inv_def fs_shape_upd_node)
  moreover have "open_ok (upd_node i f fs) (open_files fs ! j)" if "j < RUNTIME_FS_MAX_OPEN_FILES" for j
    using inv that same by (auto simp: fs_inv_def fs_consistent_def intro: open_ok_same_skel)
  ultimately show ?thesis
    using same_skel_tree [OF same _ _ sizes] inv by (simp add: fs_inv_def fs_consistent_def)
qed

text \<open>One node replaced by another whose name is new in its directory.\<close>

lemma fs_distinct_put:
  assumes dist: "fs_distinct fs"
    and nth: "\<And>i. (nodes fs)[k := nd] ! i = (if i = k then nd else nodes fs ! i)"
    and new: "\<And>i. live fs i \<Longrightarrow> fs_parent fs i = nd_parent_index nd \<Longrightarrow>
      cstr (nd_name (nodes fs ! i)) \<noteq> cstr (nd_name nd)"
    and live: "\<And>i. live (fs\<lparr>nodes := (nodes fs)[k := nd]\<rparr>) i \<Longrightarrow> i = k \<or> live fs i"
  shows "fs_distinct (fs\<lparr>nodes := (nodes fs)[k := nd]\<rparr>)" (is "fs_distinct ?fs")
  unfolding fs_distinct_def
proof (intro allI impI)
  fix i j
  assume ij: "i \<noteq> 0" "j \<noteq> 0" "i \<noteq> j" "live ?fs i" "live ?fs j" "fs_parent ?fs i = fs_parent ?fs j"
  have fresh: "cstr (nd_name (nodes fs ! i)) \<noteq> cstr (nd_name nd)"
    if "live fs i" "nd_parent_index (nodes fs ! i) = nd_parent_index nd" for i
    using new that by (simp add: fs_parent_def)
  consider "i = k" "live fs j" "j \<noteq> k" | "j = k" "live fs i" "i \<noteq> k"
    | "live fs i" "live fs j" "i \<noteq> k" "j \<noteq> k"
    using ij(3) live [OF ij(4)] live [OF ij(5)] by blast
  then show "cstr (nd_name (nodes ?fs ! i)) \<noteq> cstr (nd_name (nodes ?fs ! j))"
    using ij fresh [of i] fresh [of j] dist
    by cases (auto simp: fs_parent_def nth fs_distinct_def)
qed

text \<open>Putting a new node \<open>nd\<close> into the free slot \<open>k\<close> of a consistent file system.\<close>

lemma fs_inv_insert:
  assumes inv: "fs_inv fs" and k: "k < RUNTIME_FS_MAX_NODES" and free: "\<not> nd_used (nodes fs ! k)"
    and used: "nd_used nd" and shape: "node_shape nd"
    and type: "nd_type nd \<in> {RUNTIME_FILE_TYPE_DIRECTORY, RUNTIME_FILE_TYPE_REGULAR}"
    and parent: "live_dir fs (nd_parent_index nd)" and name: "cstr (nd_name nd) \<noteq> []"
    and size: "nd_size_bytes nd \<le> RUNTIME_FS_FILE_CAPACITY"
    and new: "\<And>i. live fs i \<Longrightarrow> fs_parent fs i = nd_parent_index nd \<Longrightarrow>
      cstr (nd_name (nodes fs ! i)) \<noteq> cstr (nd_name nd)"
  shows "fs_inv (fs\<lparr>nodes := (nodes fs)[k := nd]\<rparr>)" (is "fs_inv ?fs")
proof -
  have len: "length (nodes fs) = RUNTIME_FS_MAX_NODES" and tree: "fs_tree fs" and dist: "fs_distinct fs"
    using inv by (simp_all add: fs_inv_def fs_consistent_def fs_shape_def)
  have nth: "(nodes fs)[k := nd] ! i = (if i = k then nd else nodes fs ! i)" for i
    using k len by (simp add: nth_list_update_if eq_commute)
  have k_dead: "\<not> live fs k" using free by (simp add: live_def)
  have live: "live ?fs i \<longleftrightarrow> i = k \<or> live fs i" for i
    using k used by (auto simp: live_def nth)
  have dir: "live_dir ?fs i" if "live_dir fs i" for i
    using that k_dead by (auto simp: live_dir_def live nth)
  have par: "fs_parent ?fs i = fs_parent fs i" if "live fs i" for i
    using that k_dead by (auto simp: fs_parent_def nth)
  have "live fs 0" using tree root_live_dir by (simp add: fs_tree_def live_dir_def)
  with k_dead have "k \<noteq> 0" by (cases "k = 0") auto
  have old: "rooted ?fs i" if "live fs i" for i
  proof (cases "i = 0")
    case False
    with that show ?thesis
      using rooted_transfer [of fs i "{j. live fs j}" ?fs] tree fs_tree_parent_live [OF tree] par
      by (auto simp: fs_tree_def)
  qed (simp add: rooted_root)
  have "rooted ?fs (nd_parent_index nd)" using old parent by (simp add: live_dir_def)
  then have rk: "rooted ?fs k" by - (rule rooted_step, simp add: fs_parent_def nth)
  have "node_ok ?fs i \<and> rooted ?fs i" if "i \<noteq> 0" "live ?fs i" for i
  proof (cases "i = k")
    case True
    then show ?thesis using type name dir [OF parent] size rk
      by (simp add: node_ok_def nth fs_parent_def)
  next
    case False
    then have "live fs i" using that live by simp
    moreover have "node_ok fs i" using that tree calculation by (simp add: fs_tree_def)
    ultimately show ?thesis using old False dir par by (auto simp: node_ok_def nth)
  qed
  moreover have "fs_root_ok ?fs"
    using tree \<open>k \<noteq> 0\<close> by (simp add: fs_tree_def fs_root_ok_def nth)
  ultimately have "fs_tree ?fs" by (simp add: fs_tree_def)
  moreover have "fs_distinct ?fs"
    using fs_distinct_put [OF dist nth new] live by blast
  moreover have "open_ok ?fs f" if "open_ok fs f" for f
    using that k_dead by (auto simp: open_ok_def live nth)
  moreover have "fs_shape ?fs"
    using inv shape by (auto simp: fs_inv_def fs_shape_def nth_list_update_if)
  ultimately show ?thesis using inv by (simp add: fs_inv_def fs_consistent_def)
qed

text \<open>Freeing a node that has no children and is not open.\<close>

lemma fs_inv_remove:
  assumes inv: "fs_inv fs" and k: "live fs k" "k \<noteq> 0"
    and nd: "\<not> nd_used nd" "node_shape nd"
    and leaf: "\<And>i. live fs i \<Longrightarrow> i \<noteq> k \<Longrightarrow> fs_parent fs i \<noteq> k"
    and closed: "\<not> fs_node_is_open fs k"
  shows "fs_inv (fs\<lparr>nodes := (nodes fs)[k := nd]\<rparr>)" (is "fs_inv ?fs")
proof -
  have len: "length (nodes fs) = RUNTIME_FS_MAX_NODES" "length (open_files fs) = RUNTIME_FS_MAX_OPEN_FILES"
    and tree: "fs_tree fs" and dist: "fs_distinct fs"
    using inv by (simp_all add: fs_inv_def fs_consistent_def fs_shape_def)
  have kb: "k < RUNTIME_FS_MAX_NODES" using k by (simp add: live_def)
  have nth: "(nodes fs)[k := nd] ! i = (if i = k then nd else nodes fs ! i)" for i
    using kb len by (simp add: nth_list_update_if eq_commute)
  have live: "live ?fs i \<longleftrightarrow> i \<noteq> k \<and> live fs i" for i
    using nd by (auto simp: live_def nth)
  have par: "fs_parent ?fs i = fs_parent fs i" if "i \<noteq> k" for i
    using that by (simp add: fs_parent_def nth)
  have up: "live fs (fs_parent fs i) \<and> fs_parent fs i \<noteq> k" if "live fs i" "i \<noteq> k" "i \<noteq> 0" for i
    using that leaf fs_tree_parent_live [OF tree] by blast
  have "node_ok ?fs i \<and> rooted ?fs i" if "i \<noteq> 0" "live ?fs i" for i
  proof -
    have i: "live fs i" "i \<noteq> k" using that live by simp_all
    have ok: "node_ok fs i" "rooted fs i" using i that tree by (simp_all add: fs_tree_def)
    have "live_dir ?fs (fs_parent fs i)"
      using ok up [OF i that(1)] by (simp add: node_ok_def live_dir_def live nth)
    moreover have "rooted ?fs i"
      using rooted_transfer [OF ok(2), of "{j. live fs j \<and> j \<noteq> k}" ?fs] i up par by simp
    ultimately show ?thesis using ok i par by (simp add: node_ok_def nth)
  qed
  moreover have "fs_root_ok ?fs"
    using tree k(2) by (simp add: fs_tree_def fs_root_ok_def nth)
  ultimately have "fs_tree ?fs" by (simp add: fs_tree_def)
  moreover have "fs_distinct ?fs"
    using dist by (auto simp: fs_distinct_def live nth fs_parent_def)
  moreover have "open_ok ?fs (open_files fs ! j)" if "j < RUNTIME_FS_MAX_OPEN_FILES" for j
  proof -
    have "open_ok fs (open_files fs ! j)" using inv that by (simp add: fs_inv_def fs_consistent_def)
    moreover have "of_used (open_files fs ! j) \<Longrightarrow> of_node_index (open_files fs ! j) \<noteq> k"
      using closed that len by (auto simp: fs_node_is_open_def list_ex_length)
    ultimately show ?thesis by (auto simp: open_ok_def live nth)
  qed
  moreover have "fs_shape ?fs"
    using inv nd by (auto simp: fs_inv_def fs_shape_def nth_list_update_if)
  ultimately show ?thesis by (simp add: fs_inv_def fs_consistent_def)
qed

text \<open>The walk of \<open>fs_parent_chain_contains\<close> returns, and what its answer says.\<close>

lemma parent_chain_root [simp]: "fs_parent_chain_contains fs 0 a = Some False"
  by (simp add: fs_parent_chain_contains.simps)

lemma parent_chain_self: "a \<noteq> 0 \<Longrightarrow> fs_parent_chain_contains fs a a = Some True"
  by (simp add: fs_parent_chain_contains.simps)

lemma parent_chain_step:
  "i \<noteq> 0 \<Longrightarrow> i \<noteq> a \<Longrightarrow> fs_parent_chain_contains fs i a = fs_parent_chain_contains fs (fs_parent fs i) a"
  by (simp add: fs_parent_chain_contains.simps [of fs i] fs_parent_def)

lemma parent_chain_returns: "rooted fs i \<Longrightarrow> \<exists>b. fs_parent_chain_contains fs i a = Some b"
proof (induction rule: rooted.induct)
  case rooted_root
  show ?case using parent_chain_root by blast
next
  case (rooted_step i)
  then show ?case
    using parent_chain_root parent_chain_self parent_chain_step by (cases "i = 0"; cases "i = a") metis+
qed

lemma parent_chain_avoids:
  assumes "rooted fs i" and "fs_parent_chain_contains fs i a = Some False"
    and "\<And>j. j \<noteq> a \<Longrightarrow> fs_parent fs' j = fs_parent fs j"
  shows "rooted fs' i"
  using assms(1,2)
proof (induction rule: rooted.induct)
  case rooted_root
  show ?case by (rule rooted.rooted_root)
next
  case (rooted_step i)
  show ?case
  proof (cases "i = 0")
    case False
    with rooted_step.prems have "i \<noteq> a" and "fs_parent_chain_contains fs (fs_parent fs i) a = Some False"
      by (auto simp: fs_parent_chain_contains.simps [of fs i] fs_parent_def split: if_splits)
    with rooted_step.IH assms(3) have "rooted fs' (fs_parent fs' i)" by simp
    then show ?thesis by (rule rooted.rooted_step)
  qed (simp add: rooted.rooted_root)
qed

lemma parent_chain_file_avoids:
  assumes "fs_tree fs" and "live_dir fs i" and "nd_type (nodes fs ! a) \<noteq> RUNTIME_FILE_TYPE_DIRECTORY"
  shows "fs_parent_chain_contains fs i a = Some False"
proof -
  have "rooted fs i" using assms by (cases "i = 0") (auto simp: fs_tree_def live_dir_def rooted_root)
  then show ?thesis using assms(2)
  proof (induction rule: rooted.induct)
    case rooted_root
    show ?case by (simp add: fs_parent_chain_contains.simps)
  next
    case (rooted_step i)
    have "i \<noteq> a" using rooted_step.prems assms(3) by (auto simp: live_dir_def)
    moreover have "live_dir fs (fs_parent fs i)" if "i \<noteq> 0"
      using that rooted_step.prems assms(1) by (auto simp: fs_tree_def node_ok_def live_dir_def)
    ultimately show ?case using rooted_step.IH
      by (subst fs_parent_chain_contains.simps) (simp add: fs_parent_def)
  qed
qed

text \<open>Moving node \<open>k\<close> below a directory that is not inside it.\<close>

lemma fs_inv_move:
  assumes inv: "fs_inv fs" and k: "live fs k" "k \<noteq> 0"
    and nd: "nd_used nd" "node_shape nd" "nd_type nd = nd_type (nodes fs ! k)"
      "nd_size_bytes nd = nd_size_bytes (nodes fs ! k)"
    and parent: "live_dir fs (nd_parent_index nd)" and name: "cstr (nd_name nd) \<noteq> []"
    and outside: "fs_parent_chain_contains fs (nd_parent_index nd) k = Some False"
    and new: "\<And>i. live fs i \<Longrightarrow> fs_parent fs i = nd_parent_index nd \<Longrightarrow>
      cstr (nd_name (nodes fs ! i)) \<noteq> cstr (nd_name nd)"
  shows "fs_inv (fs\<lparr>nodes := (nodes fs)[k := nd]\<rparr>)" (is "fs_inv ?fs")
proof -
  have len: "length (nodes fs) = RUNTIME_FS_MAX_NODES" and tree: "fs_tree fs" and dist: "fs_distinct fs"
    using inv by (simp_all add: fs_inv_def fs_consistent_def fs_shape_def)
  have kb: "k < RUNTIME_FS_MAX_NODES" "nd_used (nodes fs ! k)" using k by (simp_all add: live_def)
  have nth: "(nodes fs)[k := nd] ! i = (if i = k then nd else nodes fs ! i)" for i
    using kb len by (simp add: nth_list_update_if eq_commute)
  have live: "live ?fs i \<longleftrightarrow> live fs i" for i
    using nd kb by (auto simp: live_def nth)
  have dir: "live_dir ?fs i \<longleftrightarrow> live_dir fs i" for i
    using nd by (auto simp: live_dir_def live nth)
  have par: "fs_parent ?fs i = fs_parent fs i" if "i \<noteq> k" for i
    using that by (simp add: fs_parent_def nth)
  have "rooted fs (nd_parent_index nd)"
    using parent tree by (cases "nd_parent_index nd = 0") (auto simp: fs_tree_def live_dir_def rooted_root)
  then have "rooted ?fs (nd_parent_index nd)" using outside par by (rule parent_chain_avoids)
  then have rk: "rooted ?fs k" by - (rule rooted_step, simp add: fs_parent_def nth)
  have moved: "rooted ?fs i" if "rooted fs i" for i
    using that
  proof (induction rule: rooted.induct)
    case rooted_root
    show ?case by (rule rooted.rooted_root)
  next
    case (rooted_step i)
    show ?case
    proof (cases "i = k")
      case False
      with rooted_step.IH par have "rooted ?fs (fs_parent ?fs i)" by simp
      then show ?thesis by (rule rooted.rooted_step)
    qed (simp add: rk)
  qed
  have "node_ok ?fs i \<and> rooted ?fs i" if "i \<noteq> 0" "live fs i" for i
  proof -
    have ok: "node_ok fs i" and "rooted fs i" using that tree by (simp_all add: fs_tree_def)
    from moved [OF \<open>rooted fs i\<close>] have "rooted ?fs i" .
    moreover have "node_ok ?fs i"
      using ok nd name parent par
      by (cases "i = k") (simp_all add: node_ok_def nth dir fs_parent_def)
    ultimately show ?thesis by simp
  qed
  moreover have "fs_root_ok ?fs"
    using tree k(2) by (simp add: fs_tree_def fs_root_ok_def nth)
  ultimately have "fs_tree ?fs" by (simp add: fs_tree_def live)
  moreover have "fs_distinct ?fs"
    using fs_distinct_put [OF dist nth new] live by blast
  moreover have "open_ok ?fs f" if "open_ok fs f" for f
    using that nd by (auto simp: open_ok_def live nth)
  moreover have "fs_shape ?fs"
    using inv nd by (auto simp: fs_inv_def fs_shape_def nth_list_update_if)
  ultimately show ?thesis using inv by (simp add: fs_inv_def fs_consistent_def)
qed

section \<open>Every operation keeps the invariant\<close>

lemma zero_node_shape [simp]: "node_shape zero_node"
  by (simp add: zero_node_def node_shape_def)

lemma fs_zero_range_simps [simp]:
  "nd_used (fs_zero_range nd a b) = nd_used nd"
  "nd_type (fs_zero_range nd a b) = nd_type nd"
  "nd_parent_index (fs_zero_range nd a b) = nd_parent_index nd"
  "nd_owner_pid (fs_zero_range nd a b) = nd_owner_pid nd"
  "nd_mode (fs_zero_range nd a b) = nd_mode nd"
  "nd_size_bytes (fs_zero_range nd a b) = nd_size_bytes nd"
  "nd_name (fs_zero_range nd a b) = nd_name nd"
  "length (nd_data (fs_zero_range nd a b)) = length (nd_data nd)"
  by (simp_all add: fs_zero_range_def)

lemma fs_inv_shape: "fs_inv fs \<Longrightarrow> fs_shape fs"
  and fs_inv_root: "fs_inv fs \<Longrightarrow> fs_root_ok fs"
  and fs_inv_tree: "fs_inv fs \<Longrightarrow> fs_tree fs"
  by (simp_all add: fs_inv_def fs_consistent_def fs_tree_def)

lemma fs_inv_node_shape: "fs_inv fs \<Longrightarrow> live fs i \<Longrightarrow> node_shape (nodes fs ! i)"
  by (simp add: fs_inv_def fs_shape_def live_def)

lemma fs_inv_init: "fs_inv runtime_fs_init"
proof -
  have "runtime_fs_validate runtime_fs_init = Some 0" by code_simp
  then have "fs_consistent runtime_fs_init" by (simp add: runtime_fs_validate_iff)
  moreover have "fs_shape runtime_fs_init"
    by (auto simp: fs_shape_def runtime_fs_init_def nth_list_update_if node_shape_def zero_node_def)
  ultimately show ?thesis by (simp add: fs_inv_def)
qed

lemma fs_alloc_node_result:
  "fs_alloc_node fs = Some (fs1, k) \<Longrightarrow>
   k \<noteq> 0 \<and> k < RUNTIME_FS_MAX_NODES \<and> \<not> nd_used (nodes fs ! k) \<and> fs1 = upd_node k fresh_node fs"
  by (auto simp: fs_alloc_node_def find_Some_iff)

lemma fs_alloc_node_Some:
  assumes "fs_alloc_node fs = Some (fs1, k)"
  shows "k \<noteq> 0" and "k < RUNTIME_FS_MAX_NODES" and "\<not> nd_used (nodes fs ! k)"
    and "fs1 = upd_node k fresh_node fs"
  using fs_alloc_node_result [OF assms] by simp_all

lemma create_node_eq:
  "length (nodes fs) = RUNTIME_FS_MAX_NODES \<Longrightarrow> k < RUNTIME_FS_MAX_NODES \<Longrightarrow>
   upd_node k f (upd_node k fresh_node fs) = fs\<lparr>nodes := (nodes fs)[k := f (fresh_node (nodes fs ! k))]\<rparr>"
  by (simp add: upd_node_def)

text \<open>What \<open>runtime_fs_mkdir\<close> and a creating \<open>runtime_fs_open\<close> do once the parent is known.\<close>

lemma fs_inv_create:
  assumes inv: "fs_inv fs" and path: "fs_resolve_path fs path = None"
      "fs_resolve_parent_path fs path = Inr (leaf, p)"
    and alloc: "fs_alloc_node fs = Some (fs1, k)"
    and ty: "ty \<in> {RUNTIME_FILE_TYPE_DIRECTORY, RUNTIME_FILE_TYPE_REGULAR}"
  shows "fs_inv (upd_node k (\<lambda>nd. nd\<lparr>nd_type := ty, nd_parent_index := p, nd_owner_pid := pid,
    nd_mode := m, nd_name := copy_name (nd_name nd) leaf\<rparr>) fs1)"
proof -
  note k = fs_alloc_node_Some [OF alloc]
  note p = fs_resolve_parent_path_Inr [OF path(2) fs_inv_shape [OF inv] fs_inv_root [OF inv]]
  have len: "length (nodes fs) = RUNTIME_FS_MAX_NODES" and shape: "node_shape (nodes fs ! k)"
    using fs_inv_shape [OF inv] k by (auto simp: fs_shape_def)
  have name: "cstr (copy_name (nd_name (fresh_node (nodes fs ! k))) leaf) = leaf"
    using component_copy_name [OF p(2)] shape by (simp add: node_shape_def fresh_node_def)
  have new: "cstr (nd_name (nodes fs ! i)) \<noteq> leaf" if "live fs i" "fs_parent fs i = p" for i
    using that path(1) p(2,3) fs_find_child_None [OF fs_inv_shape [OF inv], of p leaf] by auto
  show ?thesis
    unfolding k(4) create_node_eq [OF len k(2)]
    by (rule fs_inv_insert [OF inv k(2,3)])
       (use p(1,2) ty shape name new in \<open>auto simp: fresh_node_def node_shape_def component_def\<close>)
qed

lemma fs_inv_mkdir: "fs_inv fs \<Longrightarrow> fs_inv (snd (runtime_fs_mkdir fs pid path m))"
  by (auto simp: runtime_fs_mkdir_def intro: fs_inv_create split: option.splits sum.splits prod.splits)

lemma fs_inv_open_lookup:
  "fs_inv fs \<Longrightarrow> fs_open_lookup fs pid path flags = Inr (fs1, k) \<Longrightarrow> fs_inv fs1"
  by (auto simp: fs_open_lookup_def intro: fs_inv_create
      split: option.splits sum.splits prod.splits if_splits)

lemma fs_open_lookup_live:
  assumes "fs_inv fs" and "fs_open_lookup fs pid path flags = Inr (fs1, k)"
  shows "live fs1 k"
  using assms fs_resolve_path_live [OF _ fs_inv_shape fs_inv_root, of fs path k]
  by (auto simp: fs_open_lookup_def live_def fs_inv_def fs_shape_def fresh_node_def
      dest!: fs_alloc_node_result split: option.splits sum.splits prod.splits if_splits)

lemma fs_truncate_node_simps:
  "node_skel (fs_truncate_node nd) = node_skel nd"
  "node_shape (fs_truncate_node nd) = node_shape nd"
  "nd_size_bytes (fs_truncate_node nd) = 0"
  "nd_owner_pid (fs_truncate_node nd) = nd_owner_pid nd"
  by (simp_all add: fs_truncate_node_def node_skel_def node_shape_def)

lemma fs_inv_truncate: "fs_inv fs \<Longrightarrow> live fs k \<Longrightarrow> fs_inv (upd_node k fs_truncate_node fs)"
  using fs_inv_node_shape [of fs k]
  by (intro fs_inv_upd_node_data) (simp_all add: fs_truncate_node_simps live_def)

lemma fs_open_check_state:
  "snd (fs_open_check fs pid k flags) = fs \<or>
   snd (fs_open_check fs pid k flags) = upd_node k fs_truncate_node fs"
  unfolding fs_open_check_def Let_def by (simp only: split: if_split) auto

lemma fs_open_check_inv:
  assumes "fs_inv fs" and "live fs k"
  shows "fs_inv (snd (fs_open_check fs pid k flags))"
    and "same_skel fs (snd (fs_open_check fs pid k flags))"
  using fs_open_check_state [of fs pid k flags] fs_inv_truncate [OF assms] assms(1)
    same_skel_upd_node [of fs_truncate_node fs k]
  by (auto simp: fs_inv_def fs_shape_def fs_truncate_node_simps)

lemma fs_open_check_OK:
  "fst (fs_open_check fs pid k flags) = 0 \<Longrightarrow>
   nd_type (nodes fs ! k) = RUNTIME_FILE_TYPE_DIRECTORY \<Longrightarrow> flags AND RUNTIME_FILE_OPEN_WRITE = 0"
  by (auto simp: fs_open_check_def Let_def split: if_splits)

text \<open>The state after a successful open: a new slot that refers to the node.\<close>

lemma fs_open_slot_inv:
  assumes inv: "fs_inv fs" and k: "live fs k"
    and dir: "nd_type (nodes fs ! k) = RUNTIME_FILE_TYPE_DIRECTORY \<Longrightarrow> flags AND RUNTIME_FILE_OPEN_WRITE = 0"
  shows "fs_inv (snd (fs_open_slot_alloc fs k flags))"
    and "0 \<le> fst (fs_open_slot_alloc fs k flags) \<Longrightarrow>
      fs_inv (upd_open (nat (fst (fs_open_slot_alloc fs k flags)) - 1) (\<lambda>f. f\<lparr>of_owner_pid := pid\<rparr>)
        (snd (fs_open_slot_alloc fs k flags)))"
proof -
  have ok: "open_ok fs (f\<lparr>of_used := True, of_node_index := k, of_owner_pid := p, of_flags := flags,
      of_offset := 0, of_dir_cursor := 0\<rparr>)" for f p
    using k dir by (simp add: open_ok_def)
  show 1: "fs_inv (snd (fs_open_slot_alloc fs k flags))"
    using inv ok by (auto simp: fs_open_slot_alloc_def intro: fs_inv_upd_open split: option.splits)
  assume "0 \<le> fst (fs_open_slot_alloc fs k flags)"
  then obtain i where i: "first_index (\<lambda>f. \<not> of_used f) (open_files fs) = Some i"
    by (auto simp: fs_open_slot_alloc_def split: option.splits)
  let ?fs = "upd_open i (\<lambda>f. f\<lparr>of_used := True, of_node_index := k, of_owner_pid := 0,
             of_flags := flags, of_offset := 0, of_dir_cursor := 0\<rparr>) fs"
  have alloc: "fs_open_slot_alloc fs k flags = (int (i + 1), ?fs)"
    by (simp add: fs_open_slot_alloc_def i)
  have "fs_inv (upd_open i (\<lambda>f. f\<lparr>of_owner_pid := pid\<rparr>) ?fs)"
  proof (rule fs_inv_upd_open)
    show "fs_inv ?fs" using 1 alloc by simp
    show "open_ok ?fs ((open_files ?fs ! i)\<lparr>of_owner_pid := pid\<rparr>)"
      using k dir first_index_bound [OF i]
      by (intro open_ok_same_skel [OF same_skel_upd_open]) (simp add: open_ok_def)
  qed
  then show "fs_inv (upd_open (nat (fst (fs_open_slot_alloc fs k flags)) - 1)
      (\<lambda>f. f\<lparr>of_owner_pid := pid\<rparr>) (snd (fs_open_slot_alloc fs k flags)))"
    unfolding alloc fst_conv snd_conv nat_int by simp
qed

lemma fs_inv_open: "fs_inv fs \<Longrightarrow> fs_inv (fst (snd (runtime_fs_open fs pid path flags file_object)))"
proof (cases "path = None \<or> file_object = None \<or> cchar (the path) 0 \<noteq> CHR ''/''")
  case True
  then show "fs_inv fs \<Longrightarrow> ?thesis" by (simp add: runtime_fs_open_def)
next
  case guard: False
  assume inv: "fs_inv fs"
  show ?thesis
  proof (cases "fs_open_lookup fs pid path flags")
    case (Inl e)
    with guard inv show ?thesis by (simp add: runtime_fs_open_def)
  next
    case (Inr r)
    obtain fs1 k where r: "r = (fs1, k)" by (cases r)
    have inv1: "fs_inv fs1" and k: "live fs1 k"
      using fs_inv_open_lookup [OF inv] fs_open_lookup_live [OF inv] Inr r by auto
    obtain st fs2 where chk: "fs_open_check fs1 pid k flags = (st, fs2)"
      by (cases "fs_open_check fs1 pid k flags")
    have inv2: "fs_inv fs2" and skel: "same_skel fs1 fs2"
      using fs_open_check_inv [OF inv1 k, of pid flags] chk by simp_all
    have k2: "live fs2 k" using k same_skel_live [OF skel] by simp
    show ?thesis
    proof (cases "st = 0")
      case False
      with guard Inr r chk inv2 show ?thesis by (auto simp: runtime_fs_open_def)
    next
      case True
      have dir: "flags AND RUNTIME_FILE_OPEN_WRITE = 0"
        if "nd_type (nodes fs2 ! k) = RUNTIME_FILE_TYPE_DIRECTORY"
        using fs_open_check_OK [of fs1 pid k flags] chk True that same_skel_node(1) [OF skel k] by simp
      obtain slot fs3 where "fs_open_slot_alloc fs2 k flags = (slot, fs3)"
        by (cases "fs_open_slot_alloc fs2 k flags")
      with guard Inr r chk True fs_open_slot_inv [OF inv2 k2 dir] show ?thesis
        by (auto simp: runtime_fs_open_def)
    qed
  qed
qed

text \<open>An open slot refers to a live node.\<close>

lemma fs_open_file_lookup_Some:
  assumes inv: "fs_inv fs" and look: "fs_open_file_lookup fs obj = Some slot"
  shows "slot < RUNTIME_FS_MAX_OPEN_FILES" and "open_ok fs (open_files fs ! slot)"
    and "of_used (open_files fs ! slot)" and "live fs (of_node_index (open_files fs ! slot))"
    and "node_shape (nodes fs ! of_node_index (open_files fs ! slot))"
proof -
  show slot: "slot < RUNTIME_FS_MAX_OPEN_FILES"
    using look by (auto simp: fs_open_file_lookup_def split: if_splits)
  show used: "of_used (open_files fs ! slot)"
    using look by (auto simp: fs_open_file_lookup_def split: if_splits)
  show ok: "open_ok fs (open_files fs ! slot)"
    using inv slot by (simp add: fs_inv_def fs_consistent_def)
  show live: "live fs (of_node_index (open_files fs ! slot))"
    using ok used by (simp add: open_ok_def)
  show "node_shape (nodes fs ! of_node_index (open_files fs ! slot))"
    by (rule fs_inv_node_shape [OF inv live])
qed

lemma fs_inv_read: "fs_inv fs \<Longrightarrow> fs_inv (fst (snd (runtime_fs_read fs obj buffer n)))"
proof (cases "fs_open_file_lookup fs obj")
  case None
  then show "fs_inv fs \<Longrightarrow> ?thesis" by (simp add: runtime_fs_read_def split: option.splits)
next
  case (Some slot)
  assume inv: "fs_inv fs"
  let ?f = "open_files fs ! slot"
  note s = fs_open_file_lookup_Some [OF inv Some]
  have size: "nd_size_bytes (nodes fs ! of_node_index ?f) \<le> RUNTIME_FS_FILE_CAPACITY"
    if "nd_type (nodes fs ! of_node_index ?f) = RUNTIME_FILE_TYPE_REGULAR"
  proof -
    have "of_node_index ?f \<noteq> 0"
      using that root_live_dir [OF fs_inv_root [OF inv]] by (auto simp: live_dir_def intro: gr0I)
    with s(4) fs_inv_tree [OF inv] show ?thesis by (simp add: fs_tree_def node_ok_def)
  qed
  show ?thesis
    using inv Some s(2) size
    by (auto simp: runtime_fs_read_def Let_def open_ok_def intro!: fs_inv_upd_open split: option.splits)
qed

lemma fs_inv_close: "fs_inv fs \<Longrightarrow> fs_inv (snd (runtime_fs_close fs obj))"
  by (auto simp: runtime_fs_close_def open_ok_def intro!: fs_inv_upd_open split: option.splits)

lemma fs_inv_readdir: "fs_inv fs \<Longrightarrow> fs_inv (fst (snd (runtime_fs_readdir fs obj entry)))"
  using fs_open_file_lookup_Some(2) [of fs obj]
  by (auto simp: runtime_fs_readdir_def Let_def open_ok_def intro!: fs_inv_upd_open split: option.splits)

lemma fs_inv_seek: "fs_inv fs \<Longrightarrow> fs_inv (snd (runtime_fs_seek fs obj off whence))"
  using fs_open_file_lookup_Some(2) [of fs obj]
  by (auto simp: runtime_fs_seek_def Let_def open_ok_def nat_le_iff intro!: fs_inv_upd_open split: option.splits)

end
