(* ===== verification/Runtime_Catalog.thy ===== *)
theory Runtime_Catalog
  imports Runtime_Fs_Inv
begin

text \<open>
  The catalogs of \<open>kernel/runtime_catalog.c\<close> and \<open>kernel/runtime_loader.c\<close>, the resource paths of
  \<open>kernel/runtime_resource.c\<close> and the command search of \<open>kernel/runtime_shell_path.c\<close>. An array and its length come as a
  list and a count of at most its length; a string is read up to its terminator. The theorems: validation of a
  catalog makes lookups unique, a resource path cannot leave the directory of its application, and the command search
  returns the first hit of the search path.
\<close>

lemma drop_Cons_length: assumes "drop n xs = y # ys" shows "length ys < length xs"
proof -
  have "length xs - n = Suc (length ys)" using arg_cong [OF assms, of length] by simp
  then show ?thesis by simp
qed

section \<open>Process catalog (kernel/runtime_catalog.c)\<close>

record 'e runtime_process_manifest =
  pm_task_key :: "string ptr"
  pm_process_name :: "string ptr"
  pm_default_role :: u32
  pm_entry :: 'e

record runtime_process_catalog_entry =
  pc_task_key :: "string ptr"
  pc_process_name :: "string ptr"
  pc_default_role :: u32

definition runtime_catalog_string_equals :: "string ptr \<Rightarrow> string ptr \<Rightarrow> bool" where
  "runtime_catalog_string_equals left right =
     (case (left, right) of (Some a, Some b) \<Rightarrow> name_equals a b | _ \<Rightarrow> False)"

definition runtime_catalog_find ::
  "'e runtime_process_manifest list ptr \<Rightarrow> nat \<Rightarrow> string ptr \<Rightarrow> 'e runtime_process_manifest ptr" where
  "runtime_catalog_find manifests count task_key =
     (case manifests of
        None \<Rightarrow> None
      | Some ms \<Rightarrow>
          (if task_key = None then None
           else find (\<lambda>m. runtime_catalog_string_equals (pm_task_key m) task_key) (take count ms)))"

definition runtime_catalog_snapshot ::
  "'e runtime_process_manifest list ptr \<Rightarrow> nat \<Rightarrow> runtime_process_catalog_entry list ptr \<Rightarrow> nat \<Rightarrow>
   nat \<times> runtime_process_catalog_entry list ptr" where
  "runtime_catalog_snapshot manifests count buffer capacity =
     (case manifests of
        None \<Rightarrow> (0, buffer)
      | Some ms \<Rightarrow>
          (count, map_option (\<lambda>b. fold (\<lambda>index b. if index < capacity
             then b[index := \<lparr>pc_task_key = pm_task_key (ms ! index), pc_process_name = pm_process_name (ms ! index),
               pc_default_role = pm_default_role (ms ! index)\<rparr>]
             else b) [0..<count] b) buffer))"

section \<open>Application loader (kernel/runtime_loader.c)\<close>

record runtime_loader_record =
  lr_app_key :: "string ptr"
  lr_display_name :: "string ptr"
  lr_version :: "string ptr"
  lr_task_key :: "string ptr"
  lr_default_role :: u32

type_synonym runtime_loader_snapshot_entry = runtime_loader_record

definition runtime_loader_string_equals :: "string ptr \<Rightarrow> string ptr \<Rightarrow> bool" where
  "runtime_loader_string_equals left right =
     (case (left, right) of (Some a, Some b) \<Rightarrow> name_equals a b | _ \<Rightarrow> False)"

definition runtime_loader_string_nonempty :: "string ptr \<Rightarrow> bool" where
  "runtime_loader_string_nonempty value \<longleftrightarrow> (case value of None \<Rightarrow> False | Some s \<Rightarrow> cchar s 0 \<noteq> NUL)"

definition runtime_loader_find :: "runtime_loader_record list ptr \<Rightarrow> nat \<Rightarrow> string ptr \<Rightarrow> runtime_loader_record ptr" where
  "runtime_loader_find records count app_key =
     (case records of
        None \<Rightarrow> None
      | Some rs \<Rightarrow>
          (if app_key = None then None
           else find (\<lambda>r. runtime_loader_string_equals (lr_app_key r) app_key) (take count rs)))"

definition runtime_loader_snapshot ::
  "runtime_loader_record list ptr \<Rightarrow> nat \<Rightarrow> runtime_loader_snapshot_entry list ptr \<Rightarrow> nat \<Rightarrow>
   nat \<times> runtime_loader_snapshot_entry list ptr" where
  "runtime_loader_snapshot records count buffer capacity =
     (case records of
        None \<Rightarrow> (0, buffer)
      | Some rs \<Rightarrow>
          (count, map_option (\<lambda>b. fold (\<lambda>index b. if index < capacity
             then b[index := \<lparr>lr_app_key = lr_app_key (rs ! index), lr_display_name = lr_display_name (rs ! index),
               lr_version = lr_version (rs ! index), lr_task_key = lr_task_key (rs ! index),
               lr_default_role = lr_default_role (rs ! index)\<rparr>]
             else b) [0..<count] b) buffer))"

text \<open>The body of the outer loop of \<open>runtime_loader_validate_catalog\<close> for one record and those after it.\<close>

fun loader_records_ok :: "runtime_loader_record list \<Rightarrow> bool" where
  "loader_records_ok [] = True"
| "loader_records_ok (r # rs) =
     (if \<not> runtime_loader_string_nonempty (lr_app_key r) \<or> \<not> runtime_loader_string_nonempty (lr_display_name r) \<or>
         \<not> runtime_loader_string_nonempty (lr_version r) \<or> \<not> runtime_loader_string_nonempty (lr_task_key r) then False
      else if list_ex (\<lambda>other. runtime_loader_string_equals (lr_app_key r) (lr_app_key other)) rs then False
      else loader_records_ok rs)"

definition runtime_loader_validate_catalog :: "runtime_loader_record list ptr \<Rightarrow> nat \<Rightarrow> int" where
  "runtime_loader_validate_catalog records count =
     (case records of None \<Rightarrow> 0 | Some rs \<Rightarrow> (if loader_records_ok (take count rs) then 1 else 0))"

section \<open>Resource paths (kernel/runtime_resource.c)\<close>

record runtime_resource_locator =
  rl_app_key :: "string ptr"
  rl_resource_path :: "string ptr"

definition runtime_resource_segment_ok :: "string \<Rightarrow> bool" where
  "runtime_resource_segment_ok segment \<longleftrightarrow>
     (if length segment = 0 then False
      else if length segment = 1 \<and> segment ! 0 = CHR ''.'' then False
      else if length segment = 2 \<and> segment ! 0 = CHR ''.'' \<and> segment ! 1 = CHR ''.'' then False
      else \<not> list_ex (\<lambda>c. c = CHR ''/'') segment)"

text \<open>The outer loop: one segment up to the next slash or the end, then the slash, after which something must follow.\<close>

function resource_segments_ok :: "string \<Rightarrow> bool" where
  "resource_segments_ok cursor =
     (if cursor = [] then True
      else let segment = takeWhile (\<lambda>c. c \<noteq> CHR ''/'') cursor; rest = drop (length segment) cursor in
        if \<not> runtime_resource_segment_ok segment then False
        else case rest of [] \<Rightarrow> True | _ # rest \<Rightarrow> (if rest = [] then False else resource_segments_ok rest))"
  by pat_completeness auto
termination
  by (relation "measure length") (auto dest: drop_Cons_length [OF sym])

declare resource_segments_ok.simps [simp del]

definition runtime_resource_validate_relative_path :: "string ptr \<Rightarrow> bool" where
  "runtime_resource_validate_relative_path resource_path \<longleftrightarrow>
     (case resource_path of
        None \<Rightarrow> False
      | Some p \<Rightarrow> (if cchar p 0 = NUL \<or> cchar p 0 = CHR ''/'' then False else resource_segments_ok (cstr p)))"

definition RUNTIME_RESOURCE_PATH_PREFIX :: string where "RUNTIME_RESOURCE_PATH_PREFIX = ''/apps/''"
definition RUNTIME_RESOURCE_PATH_RESOURCES :: string where "RUNTIME_RESOURCE_PATH_RESOURCES = ''/resources/''"

text \<open>
  The copy loops of \<open>runtime_resource_build_path\<close>: each character needs room for itself and the terminator. \<open>None\<close> as
  the index: no room.
\<close>

fun copy_chars :: "nat \<Rightarrow> string \<Rightarrow> nat \<Rightarrow> string \<Rightarrow> nat option \<times> string" where
  "copy_chars capacity [] index buffer = (Some index, buffer)"
| "copy_chars capacity (c # cs) index buffer =
     (if index + 1 \<ge> capacity then (None, buffer) else copy_chars capacity cs (index + 1) (buffer[index := c]))"

fun copy_parts :: "nat \<Rightarrow> string list \<Rightarrow> nat \<Rightarrow> string \<Rightarrow> nat option \<times> string" where
  "copy_parts capacity [] index buffer = (Some index, buffer)"
| "copy_parts capacity (p # ps) index buffer =
     (case copy_chars capacity p index buffer of
        (None, buffer) \<Rightarrow> (None, buffer) | (Some index, buffer) \<Rightarrow> copy_parts capacity ps index buffer)"

definition runtime_resource_build_path ::
  "runtime_loader_record list ptr \<Rightarrow> nat \<Rightarrow> runtime_resource_locator ptr \<Rightarrow> string ptr \<Rightarrow> nat \<Rightarrow> int \<times> string ptr" where
  "runtime_resource_build_path records count locator buffer capacity =
     (case (records, locator, buffer) of
        (Some rs, Some l, Some b) \<Rightarrow>
          (if capacity = 0 then (RUNTIME_SYSCALL_STATUS_EINVAL, buffer)
           else case (rl_app_key l, rl_resource_path l) of
             (Some key, Some path) \<Rightarrow>
               (if \<not> runtime_resource_validate_relative_path (Some path) then (RUNTIME_SYSCALL_STATUS_EINVAL, buffer)
                else case runtime_loader_find records count (Some key) of
                  None \<Rightarrow> (RUNTIME_SYSCALL_STATUS_ENOENT, buffer)
                | Some r \<Rightarrow>
                    (case copy_parts capacity [RUNTIME_RESOURCE_PATH_PREFIX,
                         (case lr_app_key r of None \<Rightarrow> [] | Some k \<Rightarrow> cstr k), RUNTIME_RESOURCE_PATH_RESOURCES, cstr path] 0 b of
                       (None, b) \<Rightarrow> (RUNTIME_SYSCALL_STATUS_ENOSPC, Some b)
                     | (Some index, b) \<Rightarrow> (RUNTIME_SYSCALL_STATUS_OK, Some (b[index := NUL]))))
           | _ \<Rightarrow> (RUNTIME_SYSCALL_STATUS_EINVAL, buffer))
      | _ \<Rightarrow> (RUNTIME_SYSCALL_STATUS_EINVAL, buffer))"

section \<open>Command search (kernel/runtime_shell_path.c)\<close>

definition RUNTIME_SHELL_PATH_BUFFER_CAPACITY :: nat where "RUNTIME_SHELL_PATH_BUFFER_CAPACITY = 128"

definition runtime_shell_path_has_slash :: "string ptr \<Rightarrow> bool" where
  "runtime_shell_path_has_slash command \<longleftrightarrow>
     (case command of None \<Rightarrow> False | Some s \<Rightarrow> list_ex (\<lambda>c. c = CHR ''/'') (cstr s))"

definition runtime_shell_path_append :: "nat \<Rightarrow> char \<Rightarrow> nat \<times> string \<Rightarrow> (nat \<times> string) option" where
  "runtime_shell_path_append capacity ch b =
     (case b of (len, buffer) \<Rightarrow>
        if len + 1 \<ge> capacity then None else Some (len + 1, buffer[len := ch, len + 1 := NUL]))"

definition runtime_shell_path_validate_command_name :: "string ptr \<Rightarrow> bool" where
  "runtime_shell_path_validate_command_name command \<longleftrightarrow>
     (case command of
        None \<Rightarrow> False
      | Some s \<Rightarrow> (if cchar s 0 = NUL then False
          else \<not> list_ex (\<lambda>c. c = CHR ''/'' \<or> c = CHR '':'' \<or> (of_char c :: nat) \<le> 32) (cstr s)))"

text \<open>The loop of \<open>runtime_shell_path_validate_search_path\<close>, with the length of the current segment.\<close>

fun search_path_ok :: "string \<Rightarrow> nat \<Rightarrow> bool" where
  "search_path_ok [] segment_length = (segment_length \<noteq> 0)"
| "search_path_ok (c # cs) segment_length =
     (if c = CHR '':'' then
        (if segment_length = 0 \<or> cchar cs 0 \<noteq> CHR ''/'' then False else search_path_ok cs 0)
      else if (of_char c :: nat) \<le> 32 \<or> (c = CHR ''/'' \<and> cchar cs 0 = CHR ''/'') then False
      else search_path_ok cs (segment_length + 1))"

definition runtime_shell_path_validate_search_path :: "string ptr \<Rightarrow> bool" where
  "runtime_shell_path_validate_search_path path_list \<longleftrightarrow>
     (case path_list of
        None \<Rightarrow> False
      | Some s \<Rightarrow> (if cchar s 0 = NUL then False else if cchar s 0 \<noteq> CHR ''/'' then False else search_path_ok (cstr s) 0))"

text \<open>Appending a string; \<open>Inl\<close>: the buffer when the room ran out.\<close>

fun append_string :: "nat \<Rightarrow> string \<Rightarrow> nat \<times> string \<Rightarrow> string + (nat \<times> string)" where
  "append_string capacity [] b = Inr b"
| "append_string capacity (c # cs) b =
     (case runtime_shell_path_append capacity c b of None \<Rightarrow> Inl (snd b) | Some b \<Rightarrow> append_string capacity cs b)"

text \<open>The path of a command in a segment of the search path.\<close>

definition candidate :: "nat \<Rightarrow> string \<Rightarrow> string \<Rightarrow> string \<Rightarrow> string + (nat \<times> string)" where
  "candidate capacity segment command buffer =
     (case append_string capacity segment (0, buffer) of
        Inl b \<Rightarrow> Inl b
      | Inr (len, b) \<Rightarrow>
          (case (if len = 0 \<or> b ! (len - 1) \<noteq> CHR ''/'' then append_string capacity ''/'' (len, b) else Inr (len, b)) of
             Inl b \<Rightarrow> Inl b | Inr b \<Rightarrow> append_string capacity command b))"

function search_segments :: "(string \<Rightarrow> bool) \<Rightarrow> nat \<Rightarrow> string \<Rightarrow> string \<Rightarrow> string \<Rightarrow> int \<times> string" where
  "search_segments exists capacity command cursor buffer =
     (if cursor = [] then (RUNTIME_SYSCALL_STATUS_ENOENT, buffer)
      else let segment = takeWhile (\<lambda>c. c \<noteq> CHR '':'') cursor; rest = drop (length segment) cursor;
               rest = (case rest of [] \<Rightarrow> [] | _ # rest \<Rightarrow> rest)
           in if length segment \<noteq> 0 then
             (case candidate capacity segment command buffer of
                Inl b \<Rightarrow> (RUNTIME_SYSCALL_STATUS_ENOSPC, b)
              | Inr (len, b) \<Rightarrow> (if exists (cstr b) then (RUNTIME_SYSCALL_STATUS_OK, b)
                  else search_segments exists capacity command rest (b[0 := NUL])))
           else search_segments exists capacity command rest buffer)"
  by pat_completeness auto
termination
  by (relation "measure (\<lambda>(ex, cap, cmd, cursor, b). length cursor)") (auto dest: drop_Cons_length split: list.splits)

declare search_segments.simps [simp del]

text \<open>The callback \<open>exists\<close> is a predicate on the path.\<close>

definition runtime_shell_path_resolve ::
  "string ptr \<Rightarrow> string ptr \<Rightarrow> (string \<Rightarrow> bool) ptr \<Rightarrow> string ptr \<Rightarrow> nat \<Rightarrow> int \<times> string ptr" where
  "runtime_shell_path_resolve path_list command exists resolved_path capacity =
     (case (exists, resolved_path, command) of
        (Some ex, Some buffer, Some cmd) \<Rightarrow>
          (if capacity = 0 then (RUNTIME_SYSCALL_STATUS_EINVAL, resolved_path)
           else let buffer = buffer[0 := NUL] in
             if runtime_shell_path_has_slash command then
               (if cchar cmd 0 \<noteq> CHR ''/'' then (RUNTIME_SYSCALL_STATUS_EINVAL, Some buffer)
                else case append_string capacity (cstr cmd) (0, buffer) of
                  Inl b \<Rightarrow> (RUNTIME_SYSCALL_STATUS_ENOSPC, Some b)
                | Inr (len, b) \<Rightarrow> (if ex (cstr b) then RUNTIME_SYSCALL_STATUS_OK else RUNTIME_SYSCALL_STATUS_ENOENT, Some b))
             else if \<not> runtime_shell_path_validate_search_path path_list \<or> \<not> runtime_shell_path_validate_command_name command
             then (RUNTIME_SYSCALL_STATUS_EINVAL, Some buffer)
             else case path_list of None \<Rightarrow> (RUNTIME_SYSCALL_STATUS_EINVAL, Some buffer)
               | Some pl \<Rightarrow> (let (r, b) = search_segments ex capacity (cstr cmd) (cstr pl) buffer in (r, Some b)))
      | _ \<Rightarrow> (RUNTIME_SYSCALL_STATUS_EINVAL, resolved_path))"

section \<open>Validated catalogs\<close>

lemma loader_string_equals_iff:
  "runtime_loader_string_equals (Some a) (Some b) \<longleftrightarrow> cstr a = cstr b"
  by (simp add: runtime_loader_string_equals_def name_equals_iff)

definition record_complete :: "runtime_loader_record \<Rightarrow> bool" where
  "record_complete r \<longleftrightarrow> (\<forall>f \<in> {lr_app_key r, lr_display_name r, lr_version r, lr_task_key r}. \<exists>s. f = Some s \<and> cstr s \<noteq> [])"

lemma nonempty_iff: "runtime_loader_string_nonempty v \<longleftrightarrow> (\<exists>s. v = Some s \<and> cstr s \<noteq> [])"
  by (cases v; cases "the v") (auto simp: runtime_loader_string_nonempty_def)

definition app_name :: "runtime_loader_record \<Rightarrow> string" where
  "app_name r = (case lr_app_key r of None \<Rightarrow> [] | Some k \<Rightarrow> cstr k)"

lemma record_complete_name: "record_complete r \<Longrightarrow> \<exists>s. lr_app_key r = Some s \<and> app_name r = cstr s"
  by (auto simp: record_complete_def app_name_def)

lemma loader_records_ok_iff:
  "loader_records_ok rs \<longleftrightarrow> (\<forall>r \<in> set rs. record_complete r) \<and> distinct (map app_name rs)"
proof (induction rs)
  case (Cons r rs)
  have "(\<not> list_ex (\<lambda>other. runtime_loader_string_equals (lr_app_key r) (lr_app_key other)) rs) \<longleftrightarrow> app_name r \<notin> app_name ` set rs"
    if c: "record_complete r" "\<forall>r \<in> set rs. record_complete r"
  proof -
    have "runtime_loader_string_equals (lr_app_key r) (lr_app_key q) \<longleftrightarrow> app_name r = app_name q" if q: "q \<in> set rs" for q
    proof -
      obtain a b where "lr_app_key r = Some a" "app_name r = cstr a" "lr_app_key q = Some b" "app_name q = cstr b"
        using record_complete_name [OF c(1)] record_complete_name [of q] c(2) q by blast
      then show ?thesis by (simp add: loader_string_equals_iff)
    qed
    then show ?thesis by (auto simp: list_ex_iff)
  qed
  moreover have "record_complete r \<longleftrightarrow> runtime_loader_string_nonempty (lr_app_key r) \<and>
      runtime_loader_string_nonempty (lr_display_name r) \<and> runtime_loader_string_nonempty (lr_version r) \<and>
      runtime_loader_string_nonempty (lr_task_key r)"
    by (auto simp: record_complete_def nonempty_iff)
  ultimately show ?case using Cons.IH by auto
qed simp

lemma loader_find_index:
  assumes "loader_records_ok (take count rs)" and "i < count" "i < length rs" and "lr_app_key (rs ! i) = Some k" and "cstr key = cstr k"
  shows "runtime_loader_find (Some rs) count (Some key) = Some (rs ! i)"
proof -
  let ?rs = "take count rs"
  have dist: "distinct (map app_name ?rs)" and all: "\<forall>r \<in> set ?rs. record_complete r"
    using assms(1) by (simp_all add: loader_records_ok_iff)
  have i: "i < length ?rs" "?rs ! i = rs ! i" using assms(2,3) by simp_all
  have eq: "runtime_loader_string_equals (lr_app_key (?rs ! j)) (Some key) \<longleftrightarrow> j = i" if j: "j < length ?rs" for j
  proof -
    obtain b where b: "lr_app_key (?rs ! j) = Some b" "app_name (?rs ! j) = cstr b"
      using record_complete_name all j nth_mem by blast
    have "app_name (?rs ! i) = cstr key" using assms(4,5) i(2) by (simp add: app_name_def)
    then have "runtime_loader_string_equals (lr_app_key (?rs ! j)) (Some key) \<longleftrightarrow> app_name (?rs ! j) = app_name (?rs ! i)"
      using b by (simp add: loader_string_equals_iff)
    also have "\<dots> \<longleftrightarrow> j = i" using nth_eq_iff_index_eq [OF dist, of j i] i(1) j by simp
    finally show ?thesis .
  qed
  then have "find (\<lambda>r. runtime_loader_string_equals (lr_app_key r) (Some key)) ?rs = Some (?rs ! i)"
    using i(1) by (auto simp: find_Some_iff)
  then show ?thesis using i(2) by (simp add: runtime_loader_find_def)
qed

text \<open>The function runtime_loader_validate_catalog accepts a catalog exactly if every record has a non-empty key, display name,
  version and task key and no two records have the same key; and in an accepted catalog runtime_loader_find returns, for the key
  of any record, that very record.\<close>

theorem loader_validation_decides:
  assumes "count \<le> length rs"
  shows "(runtime_loader_validate_catalog (Some rs) count = 1 \<longleftrightarrow>
      (\<forall>r \<in> set (take count rs). record_complete r) \<and> distinct (map app_name (take count rs))) \<and>
    (runtime_loader_validate_catalog (Some rs) count = 1 \<longrightarrow> (\<forall>i < count. \<forall>k. lr_app_key (rs ! i) = Some k \<longrightarrow>
      runtime_loader_find (Some rs) count (Some k) = Some (rs ! i)))"
  using loader_find_index [of count rs] assms
  by (auto simp: runtime_loader_validate_catalog_def loader_records_ok_iff)

definition demo_apps :: "runtime_loader_record list" where
  "demo_apps = [\<lparr>lr_app_key = Some ''clock'', lr_display_name = Some ''Clock'', lr_version = Some ''1'', lr_task_key = Some ''a'', lr_default_role = 1\<rparr>,
     \<lparr>lr_app_key = Some ''notes'', lr_display_name = Some ''Notes'', lr_version = Some ''2'', lr_task_key = Some ''b'', lr_default_role = 1\<rparr>]"

theorem loader_validation_decides_witness:
  "runtime_loader_validate_catalog (Some demo_apps) 2 = 1 \<and>
   runtime_loader_find (Some demo_apps) 2 (Some ''notes'') = Some (demo_apps ! 1)"
proof -
  have "runtime_loader_validate_catalog (Some demo_apps) 2 = 1" by code_simp
  moreover with loader_validation_decides [of 2 demo_apps]
  have "\<forall>i < 2. \<forall>k. lr_app_key (demo_apps ! i) = Some k \<longrightarrow> runtime_loader_find (Some demo_apps) 2 (Some k) = Some (demo_apps ! i)"
    by (simp add: demo_apps_def)
  from this [rule_format, of 1 "''notes''"]
  have "runtime_loader_find (Some demo_apps) 2 (Some ''notes'') = Some (demo_apps ! 1)" by (simp add: demo_apps_def)
  ultimately show ?thesis by blast
qed

section \<open>Resource paths stay inside\<close>

fun split_on :: "char \<Rightarrow> string \<Rightarrow> string list" where
  "split_on d [] = [[]]"
| "split_on d (c # cs) = (if c = d then [] # split_on d cs else (case split_on d cs of [] \<Rightarrow> [[c]] | s # ss \<Rightarrow> (c # s) # ss))"

lemma split_on_first:
  "split_on d xs = takeWhile (\<lambda>c. c \<noteq> d) xs #
    (case drop (length (takeWhile (\<lambda>c. c \<noteq> d) xs)) xs of [] \<Rightarrow> [] | _ # rest \<Rightarrow> split_on d rest)"
proof (induction xs)
  case (Cons c xs)
  then show ?case by (cases "c = d") (simp_all split: list.splits)
qed simp

lemma segments_ok_split:
  "p \<noteq> [] \<Longrightarrow> resource_segments_ok p \<longleftrightarrow> (\<forall>s \<in> set (split_on CHR ''/'' p). runtime_resource_segment_ok s)"
proof (induction p rule: resource_segments_ok.induct)
  case (1 p)
  let ?s = "takeWhile (\<lambda>c. c \<noteq> CHR ''/'') p"
  show ?case
  proof (cases "drop (length ?s) p")
    case Nil
    then show ?thesis using 1(2) by (subst resource_segments_ok.simps, subst split_on_first) simp
  next
    case (Cons c rest)
    consider "rest = []" | "rest \<noteq> []" "runtime_resource_segment_ok ?s" | "\<not> runtime_resource_segment_ok ?s" by blast
    then show ?thesis
    proof cases
      case 2
      then show ?thesis using 1 Cons by (subst resource_segments_ok.simps, subst split_on_first) simp
    qed (use 1(2) Cons in \<open>subst resource_segments_ok.simps, subst split_on_first, simp add: runtime_resource_segment_ok_def\<close>)+
  qed
qed

lemma copy_chars_append:
  "copy_chars cap (xs @ ys) i b = (case copy_chars cap xs i b of (None, b) \<Rightarrow> (None, b) | (Some j, b) \<Rightarrow> copy_chars cap ys j b)"
  by (induction xs arbitrary: i b) simp_all

lemma copy_parts_concat: "copy_parts cap ps i b = copy_chars cap (concat ps) i b"
  by (induction ps arbitrary: i b) (simp_all add: copy_chars_append split: option.split prod.split)

lemma copy_chars_fits:
  "i + length cs < cap \<Longrightarrow> cap \<le> length b \<Longrightarrow> copy_chars cap cs i b = (Some (i + length cs), take i b @ cs @ drop (i + length cs) b)"
proof (induction cs arbitrary: i b)
  case (Cons c cs)
  have "take (i + 1) (b[i := c]) = take i b @ [c]" using Cons.prems by (simp add: take_Suc_conv_app_nth)
  then show ?case using Cons by simp
qed simp

lemma copy_chars_full:
  "cap \<le> i + length cs \<Longrightarrow> i < cap \<Longrightarrow> cap \<le> length b \<Longrightarrow>
   \<exists>u. copy_chars cap cs i b = (None, u) \<and> length u = length b \<and> drop cap u = drop cap b"
proof (induction cs arbitrary: i b)
  case (Cons c cs)
  show ?case
  proof (cases "i + 1 \<ge> cap")
    case False
    then have "drop cap (b[i := c]) = drop cap b" using Cons.prems by simp
    then show ?thesis using Cons.IH [of "i + 1" "b[i := c]"] Cons.prems False by auto
  qed simp
qed simp

lemma drop_patched:
  assumes "length xs < n" shows "drop n (xs @ c # drop (Suc (length xs)) b) = drop n b"
proof -
  obtain m where "n = Suc (length xs + m)" using assms less_iff_Suc_add by auto
  then show ?thesis by (simp add: add.commute)
qed

lemma loader_find_Some:
  "runtime_loader_find (Some rs) count (Some key) = Some r \<Longrightarrow>
   r \<in> set (take count rs) \<and> (\<exists>k. lr_app_key r = Some k \<and> cstr k = cstr key)"
  by (auto simp: runtime_loader_find_def find_Some_iff runtime_loader_string_equals_def name_equals_iff in_set_conv_nth
      split: option.splits)

definition inside :: "string \<Rightarrow> bool" where
  "inside path \<longleftrightarrow> (\<forall>s \<in> set (split_on CHR ''/'' path). s \<noteq> [] \<and> s \<noteq> ''.'' \<and> s \<noteq> ''..'')"

lemma validate_inside:
  assumes "runtime_resource_validate_relative_path (Some p)"
  shows "inside (cstr p)"
proof -
  have p: "cstr p \<noteq> []" "resource_segments_ok (cstr p)"
    using assms by (cases p; auto simp: runtime_resource_validate_relative_path_def split: if_splits)+
  show ?thesis using segments_ok_split [OF p(1)] p(2)
    by (fastforce simp: inside_def runtime_resource_segment_ok_def split: if_splits)
qed

text \<open>C28: a resource path stays inside the directory of its application and inside the buffer. The call never changes
  the buffer at or after its capacity; if it succeeds, the buffer holds the terminated string /apps/<key>/resources/<path>
  for a record of the catalog with the requested key, and no segment of the path is empty, "." or ".."; and it reports
  ENOSPC only if the string and its terminator do not fit.\<close>

theorem resource_path_confined:
  assumes cap: "0 < capacity" "capacity \<le> length b"
    and build: "runtime_resource_build_path (Some rs) count
      (Some \<lparr>rl_app_key = Some key, rl_resource_path = Some path\<rparr>) (Some b) capacity = (r, b')"
  shows "\<exists>u. b' = Some u \<and> length u = length b \<and> drop capacity u = drop capacity b \<and>
    (r = RUNTIME_SYSCALL_STATUS_OK \<longrightarrow> inside (cstr path) \<and> (\<exists>q \<in> set (take count rs). app_name q = cstr key) \<and>
      cstr u = ''/apps/'' @ cstr key @ ''/resources/'' @ cstr path) \<and>
    (r = RUNTIME_SYSCALL_STATUS_ENOSPC \<longrightarrow> capacity \<le> length (''/apps/'' @ cstr key @ ''/resources/'' @ cstr path))"
proof (cases "runtime_resource_validate_relative_path (Some path) \<and> runtime_loader_find (Some rs) count (Some key) \<noteq> None")
  case False
  then show ?thesis using build cap(1) by (auto simp: runtime_resource_build_path_def split: if_splits)
next
  case True
  then obtain q where q: "runtime_loader_find (Some rs) count (Some key) = Some q"
    and valid: "runtime_resource_validate_relative_path (Some path)" by auto
  obtain k where k: "q \<in> set (take count rs)" "lr_app_key q = Some k" "cstr k = cstr key" using loader_find_Some [OF q] by blast
  let ?s = "''/apps/'' @ cstr key @ ''/resources/'' @ cstr path"
  have copy: "copy_parts capacity [RUNTIME_RESOURCE_PATH_PREFIX, (case lr_app_key q of None \<Rightarrow> [] | Some k \<Rightarrow> cstr k),
      RUNTIME_RESOURCE_PATH_RESOURCES, cstr path] 0 b = copy_chars capacity ?s 0 b"
    using k by (simp add: copy_parts_concat RUNTIME_RESOURCE_PATH_PREFIX_def RUNTIME_RESOURCE_PATH_RESOURCES_def)
  have name: "app_name q = cstr key" using k by (simp add: app_name_def)
  show ?thesis
  proof (cases "length ?s < capacity")
    case True
    have c: "copy_chars capacity ?s 0 b = (Some (length ?s), ?s @ drop (length ?s) b)"
      using copy_chars_fits [of 0 ?s capacity b] True cap(2) by simp
    let ?u = "(?s @ drop (length ?s) b)[length ?s := NUL]"
    have u: "?u = ?s @ NUL # drop (Suc (length ?s)) b"
      unfolding list_update_append using True cap(2) Cons_nth_drop_Suc [of "length ?s" b, symmetric] by auto
    have r: "r = RUNTIME_SYSCALL_STATUS_OK" "b' = Some ?u"
      using build cap(1) q valid copy c by (simp_all add: runtime_resource_build_path_def)
    have "NUL \<notin> set ?s" by auto
    then have "cstr ?u = ?s" unfolding u by (rule cstr_append_NUL)
    moreover have "length ?u = length b" unfolding u using True cap(2) by simp
    moreover have "drop capacity ?u = drop capacity b" unfolding u by (rule drop_patched [OF True])
    ultimately show ?thesis using r validate_inside [OF valid] k(1) name by auto
  next
    case False
    then obtain u where "copy_chars capacity ?s 0 b = (None, u)" "length u = length b" "drop capacity u = drop capacity b"
      using copy_chars_full [of capacity 0 ?s b] cap by auto
    then have "r = RUNTIME_SYSCALL_STATUS_ENOSPC" "b' = Some u" "length u = length b" "drop capacity u = drop capacity b"
      using build cap(1) q valid copy by (simp_all add: runtime_resource_build_path_def)
    then show ?thesis using False by auto
  qed
qed

theorem resource_path_confined_witness:
  "\<exists>u. runtime_resource_build_path (Some demo_apps) 2
      (Some \<lparr>rl_app_key = Some ''clock'', rl_resource_path = Some ''img/a''\<rparr>) (Some (replicate 40 NUL)) 40 = (0, Some u) \<and>
    cstr u = ''/apps/clock/resources/img/a''"
proof -
  obtain r b' where b: "runtime_resource_build_path (Some demo_apps) 2
      (Some \<lparr>rl_app_key = Some ''clock'', rl_resource_path = Some ''img/a''\<rparr>) (Some (replicate 40 NUL)) 40 = (r, b')" by force
  have "fst (runtime_resource_build_path (Some demo_apps) 2
      (Some \<lparr>rl_app_key = Some ''clock'', rl_resource_path = Some ''img/a''\<rparr>) (Some (replicate 40 NUL)) 40) = 0" by code_simp
  then have "r = 0" using b by simp
  with resource_path_confined [OF _ _ b] b show ?thesis by auto
qed


section \<open>The command search finds the first hit\<close>

text \<open>The buffer holds the string \<open>s\<close> and its terminator, below its capacity.\<close>

definition holds_path :: "nat \<Rightarrow> string \<Rightarrow> string \<Rightarrow> nat \<times> string \<Rightarrow> bool" where
  "holds_path cap b0 s b \<longleftrightarrow> length (snd b) = length b0 \<and> fst b = length s \<and> take (length s) (snd b) = s \<and>
     length s < cap \<and> snd b ! length s = NUL \<and> drop cap (snd b) = drop cap b0"

lemma holds_path_append:
  assumes "holds_path cap b0 s b" "length s + 1 < cap" "cap \<le> length b0"
  shows "\<exists>b'. runtime_shell_path_append cap c b = Some b' \<and> holds_path cap b0 (s @ [c]) b'"
  using assms by (cases b) (simp add: holds_path_def runtime_shell_path_append_def take_Suc_conv_app_nth)

lemma append_string_fits:
  "holds_path cap b0 s b \<Longrightarrow> length s + length cs < cap \<Longrightarrow> cap \<le> length b0 \<Longrightarrow>
   \<exists>b'. append_string cap cs b = Inr b' \<and> holds_path cap b0 (s @ cs) b'"
proof (induction cs arbitrary: s b)
  case (Cons c cs)
  then obtain b1 where "runtime_shell_path_append cap c b = Some b1" "holds_path cap b0 (s @ [c]) b1"
    using holds_path_append [OF Cons.prems(1), of c] by auto
  then show ?case using Cons.IH [of "s @ [c]" b1] Cons.prems by simp
qed simp

lemma append_string_full:
  "holds_path cap b0 s b \<Longrightarrow> cap \<le> length s + length cs \<Longrightarrow> cap \<le> length b0 \<Longrightarrow>
   \<exists>u. append_string cap cs b = Inl u \<and> length u = length b0 \<and> drop cap u = drop cap b0"
proof (induction cs arbitrary: s b)
  case Nil
  then show ?case by (simp add: holds_path_def)
next
  case (Cons c cs)
  show ?case
  proof (cases "length s + 1 < cap")
    case True
    then obtain b1 where "runtime_shell_path_append cap c b = Some b1" "holds_path cap b0 (s @ [c]) b1"
      using holds_path_append [OF Cons.prems(1)] Cons.prems(3) by blast
    then show ?thesis using Cons.IH [of "s @ [c]" b1] Cons.prems by simp
  next
    case False
    then show ?thesis using Cons.prems by (cases b) (simp add: runtime_shell_path_append_def holds_path_def)
  qed
qed

text \<open>The path of a command in a directory.\<close>

definition path_in :: "string \<Rightarrow> string \<Rightarrow> string" where
  "path_in dir command = dir @ (if last dir = CHR ''/'' then [] else ''/'') @ command"

lemma candidate_result:
  assumes "dir \<noteq> []" "buffer ! 0 = NUL" "length buffer = length b0" "drop cap buffer = drop cap b0" "0 < cap" "cap \<le> length b0"
  shows "if length (path_in dir command) < cap
     then \<exists>b. candidate cap dir command buffer = Inr b \<and> holds_path cap b0 (path_in dir command) b
     else \<exists>u. candidate cap dir command buffer = Inl u \<and> length u = length b0 \<and> drop cap u = drop cap b0"
proof -
  have start: "holds_path cap b0 [] (0, buffer)" using assms by (simp add: holds_path_def)
  let ?mid = "if last dir = CHR ''/'' then [] else ''/''"
  show ?thesis
  proof (cases "length dir < cap")
    case False
    then show ?thesis using append_string_full [OF start, of dir] assms(6) by (auto simp: candidate_def path_in_def)
  next
    case True
    then obtain b1 where b1: "append_string cap dir (0, buffer) = Inr b1" "holds_path cap b0 dir b1"
      using append_string_fits [OF start _ assms(6), of dir] by auto
    obtain len b where lb: "b1 = (len, b)" by force
    have "b ! (len - 1) = last dir"
    proof -
      have "take len b ! (len - 1) = dir ! (length dir - 1)" "0 < len" using b1(2) assms(1) by (simp_all add: lb holds_path_def)
      then show ?thesis using assms(1) by (simp add: last_conv_nth)
    qed
    then have mid: "(if len = 0 \<or> b ! (len - 1) \<noteq> CHR ''/'' then append_string cap ''/'' (len, b) else Inr (len, b)) =
        append_string cap ?mid b1"
      using b1(2) assms(1) by (auto simp: lb holds_path_def)
    have cand: "candidate cap dir command buffer = (case append_string cap ?mid b1 of Inl b \<Rightarrow> Inl b | Inr b \<Rightarrow> append_string cap command b)"
      unfolding candidate_def b1(1) lb sum.case prod.case mid [unfolded lb] ..
    show ?thesis
    proof (cases "length dir + length ?mid < cap")
      case False
      then have "cap \<le> length dir + length ?mid" by simp
      with append_string_full [OF b1(2) this assms(6)] False show ?thesis by (auto simp: cand path_in_def)
    next
      case True
      then obtain b2 where b2: "append_string cap ?mid b1 = Inr b2" "holds_path cap b0 (dir @ ?mid) b2"
        using append_string_fits [OF b1(2) _ assms(6)] by blast
      have len: "length (path_in dir command) = length (dir @ ?mid) + length command"
        and path: "path_in dir command = (dir @ ?mid) @ command" by (simp_all add: path_in_def)
      show ?thesis
      proof (cases "length (path_in dir command) < cap")
        case True
        then show ?thesis using append_string_fits [OF b2(2) _ assms(6), of command] b2(1)
          unfolding cand len path by simp
      next
        case False
        then show ?thesis using append_string_full [OF b2(2) _ assms(6), of command] b2(1)
          unfolding cand len path by simp
      qed
    qed
  qed
qed

lemma holds_path_cstr:
  assumes "holds_path cap b0 s b" "NUL \<notin> set s" "cap \<le> length b0" shows "cstr (snd b) = s"
proof -
  have "snd b = take (length s) (snd b) @ NUL # drop (Suc (length s)) (snd b)"
    using assms id_take_nth_drop [of "length s" "snd b"] by (simp add: holds_path_def)
  then have "snd b = s @ NUL # drop (Suc (length s)) (snd b)" using assms(1) by (simp add: holds_path_def)
  then show ?thesis using cstr_append_NUL [OF assms(2)] by metis
qed


text \<open>What the search has to return for the remaining directories.\<close>

definition first_hit :: "(string \<Rightarrow> bool) \<Rightarrow> nat \<Rightarrow> string \<Rightarrow> string list \<Rightarrow> int \<Rightarrow> string \<Rightarrow> bool" where
  "first_hit ex cap command dirs r found \<longleftrightarrow>
     (let paths = map (\<lambda>d. path_in d command) dirs; hit = (\<lambda>p. cap \<le> length p \<or> ex p) in
      case find hit paths of
        None \<Rightarrow> r = RUNTIME_SYSCALL_STATUS_ENOENT
      | Some p \<Rightarrow> (if cap \<le> length p then r = RUNTIME_SYSCALL_STATUS_ENOSPC else r = RUNTIME_SYSCALL_STATUS_OK \<and> found = p))"

lemma search_segments_result:
  assumes "buffer ! 0 = NUL" "length buffer = length b0" "drop cap buffer = drop cap b0" "0 < cap" "cap \<le> length b0"
    and "NUL \<notin> set cursor" "NUL \<notin> set command"
    and "search_segments ex cap command cursor buffer = (r, u)"
  shows "first_hit ex cap command (filter (\<lambda>s. s \<noteq> []) (split_on CHR '':'' cursor)) r (cstr u) \<and>
    length u = length b0 \<and> drop cap u = drop cap b0"
  using assms
proof (induction ex cap command cursor buffer rule: search_segments.induct)
  case (1 ex cap command cursor buffer)
  define seg where "seg = takeWhile (\<lambda>c. c \<noteq> CHR '':'') cursor"
  define rest where "rest = (case drop (length seg) cursor of [] \<Rightarrow> [] | _ # rest \<Rightarrow> rest)"
  have NUL_seg: "NUL \<notin> set seg" using 1(8) by (auto simp: seg_def dest: set_takeWhileD)
  have NUL_rest: "NUL \<notin> set rest" using 1(8) using in_set_dropD [of NUL "length seg" cursor] by (cases "drop (length seg) cursor") (auto simp: rest_def)
  have dirs: "filter (\<lambda>s. s \<noteq> []) (split_on CHR '':'' cursor) = (if seg = [] then [] else [seg]) @ filter (\<lambda>s. s \<noteq> []) (split_on CHR '':'' rest)"
    by (subst split_on_first) (simp add: seg_def [symmetric] rest_def split: list.split)
  note ih = 1(1,2) [OF _ seg_def refl rest_def]
  show ?case
  proof (cases "cursor = []")
    case True
    then show ?thesis using 1(3-) by (simp add: search_segments.simps first_hit_def)
  next
    case ne: False
    note step = 1(10) [unfolded search_segments.simps [of ex cap command cursor] Let_def, folded seg_def, folded rest_def]
    show ?thesis
    proof (cases "seg = []")
      case True
      then show ?thesis using ih(2) [OF ne] 1(3-7,9) NUL_rest step ne unfolding dirs by simp
    next
      case False
      note cand = candidate_result [OF False 1(3-7), of command]
      have NUL_path: "NUL \<notin> set (path_in seg command)" using NUL_seg 1(9) by (simp add: path_in_def)
      show ?thesis
      proof (cases "length (path_in seg command) < cap")
        case True
        then obtain len b where b: "candidate cap seg command buffer = Inr (len, b)" "holds_path cap b0 (path_in seg command) (len, b)"
          using cand by auto
        have str: "cstr b = path_in seg command" using holds_path_cstr [OF b(2) NUL_path 1(7)] by simp
        have sh: "length b = length b0" "drop cap b = drop cap b0" using b(2) by (simp_all add: holds_path_def)
        show ?thesis
        proof (cases "ex (cstr b)")
          case True
          then have "r = RUNTIME_SYSCALL_STATUS_OK" "u = b" using step ne False b by simp_all
          then show ?thesis using True str sh \<open>length (path_in seg command) < cap\<close> False unfolding dirs by (simp add: first_hit_def)
        next
          case no: False
          have "search_segments ex cap command rest (b[0 := NUL]) = (r, u)" using step ne False b no by simp
          moreover have "b \<noteq> []" using sh(1) 1(6,7) by auto
          then have "b[0 := NUL] ! 0 = NUL" by simp
          moreover have "drop cap (b[0 := NUL]) = drop cap b0" using sh(2) 1(6) by simp
          ultimately have "first_hit ex cap command (filter (\<lambda>s. s \<noteq> []) (split_on CHR '':'' rest)) r (cstr u) \<and>
              length u = length b0 \<and> drop cap u = drop cap b0"
            using ih(1) [OF ne _ b(1) refl no] False sh(1) 1(6,7,9) NUL_rest by simp
          then show ?thesis using no str \<open>length (path_in seg command) < cap\<close> False unfolding dirs by (simp add: first_hit_def)
        qed
      next
        case long: False
        then obtain b where "candidate cap seg command buffer = Inl b" "length b = length b0" "drop cap b = drop cap b0"
          using cand by auto
        then have "r = RUNTIME_SYSCALL_STATUS_ENOSPC" "length u = length b0" "drop cap u = drop cap b0" using step ne False by simp_all
        then show ?thesis using long False unfolding dirs by (simp add: first_hit_def)
      qed
    qed
  qed
qed

lemma search_path_ok_absolute:
  "search_path_ok cs n \<Longrightarrow> (\<forall>s \<in> set (tl (split_on CHR '':'' cs)). \<exists>s'. s = CHR ''/'' # s') \<and> (hd (split_on CHR '':'' cs) = [] \<longrightarrow> n \<noteq> 0)"
proof (induction cs n rule: search_path_ok.induct)
  case (2 c cs n)
  obtain s ss where s: "split_on CHR '':'' cs = s # ss" using split_on_first by blast
  show ?case
  proof (cases "c = CHR '':''")
    case True
    then have cs: "n \<noteq> 0" "cchar cs 0 = CHR ''/''" "search_path_ok cs 0" using 2(3) by (simp_all split: if_splits)
    then obtain cs' where "cs = CHR ''/'' # cs'" by (cases cs) auto
    then have "\<exists>s'. s = CHR ''/'' # s'" using s by (auto split: list.splits)
    then show ?thesis using 2(1) True cs s by auto
  next
    case False
    then have "search_path_ok cs (n + 1)" using 2(3) by (simp split: if_splits)
    then show ?thesis using 2(2,3) False s by (auto split: if_splits)
  qed
qed simp

lemma search_path_absolute:
  assumes "runtime_shell_path_validate_search_path (Some p)" and "s \<in> set (split_on CHR '':'' (cstr p))"
  shows "\<exists>s'. s = CHR ''/'' # s'"
proof -
  obtain q where q: "cstr p = CHR ''/'' # q" "search_path_ok (cstr p) 0"
    using assms(1) by (cases p) (auto simp: runtime_shell_path_validate_search_path_def split: if_splits)
  obtain t ts where "split_on CHR '':'' q = t # ts" using split_on_first by blast
  then have "split_on CHR '':'' (cstr p) = (CHR ''/'' # t) # ts" unfolding q(1) by simp
  with search_path_ok_absolute [OF q(2)] assms(2) show ?thesis by auto
qed

text \<open>A command without a slash resolves to the first directory of the search path that has it. If the search path and the
  name are valid, every directory of the search path is absolute and the call returns the result for the first candidate
  path that exists or does not fit: OK and that path in the buffer, or ENOSPC; it returns ENOENT exactly if there is none.
  The buffer at or after its capacity never changes.\<close>

theorem shell_path_first_hit:
  assumes "0 < capacity" "capacity \<le> length b" and "\<not> runtime_shell_path_has_slash (Some command)"
    and "runtime_shell_path_validate_search_path (Some path_list)" "runtime_shell_path_validate_command_name (Some command)"
    and "runtime_shell_path_resolve (Some path_list) (Some command) (Some ex) (Some b) capacity = (r, b')"
  shows "\<exists>u. b' = Some u \<and> first_hit ex capacity (cstr command) (split_on CHR '':'' (cstr path_list)) r (cstr u) \<and>
    (\<forall>dir \<in> set (split_on CHR '':'' (cstr path_list)). hd dir = CHR ''/'') \<and>
    length u = length b \<and> drop capacity u = drop capacity b"
proof -
  let ?dirs = "split_on CHR '':'' (cstr path_list)"
  have abs: "\<exists>s'. s = CHR ''/'' # s'" if "s \<in> set ?dirs" for s using search_path_absolute [OF assms(4) that] .
  then have dirs: "filter (\<lambda>s. s \<noteq> []) ?dirs = ?dirs" by (fastforce intro: filter_True)
  obtain u where u: "search_segments ex capacity (cstr command) (cstr path_list) (b[0 := NUL]) = (r, u)" "b' = Some u"
    using assms by (auto simp: runtime_shell_path_resolve_def split: prod.splits)
  have "b \<noteq> []" using assms(1,2) by auto
  then have "b[0 := NUL] ! 0 = NUL" "drop capacity (b[0 := NUL]) = drop capacity b" using assms(1) by simp_all
  from search_segments_result [OF this(1) _ this(2) assms(1,2) _ _ u(1)] abs u(2) show ?thesis unfolding dirs by fastforce
qed

theorem shell_path_first_hit_witness:
  "\<exists>u. runtime_shell_path_resolve (Some ''/bin:/usr/bin:/opt'') (Some ''ls'') (Some (\<lambda>p. p = ''/usr/bin/ls'' \<or> p = ''/opt/ls''))
      (Some (replicate 20 NUL)) 20 = (RUNTIME_SYSCALL_STATUS_OK, Some u) \<and> cstr u = ''/usr/bin/ls''"
proof -
  let ?ex = "\<lambda>p. p = ''/usr/bin/ls'' \<or> p = ''/opt/ls''"
  obtain r b' where res: "runtime_shell_path_resolve (Some ''/bin:/usr/bin:/opt'') (Some ''ls'') (Some ?ex) (Some (replicate 20 NUL)) 20 = (r, b')"
    by force
  have "\<not> runtime_shell_path_has_slash (Some ''ls'')" "runtime_shell_path_validate_search_path (Some ''/bin:/usr/bin:/opt'')"
    "runtime_shell_path_validate_command_name (Some ''ls'')" by code_simp+
  from shell_path_first_hit [OF _ _ this res] obtain u
    where "b' = Some u" "first_hit ?ex 20 ''ls'' (split_on CHR '':'' (cstr ''/bin:/usr/bin:/opt'')) r (cstr u)" by auto
  then show ?thesis using res by (simp add: first_hit_def path_in_def)
qed

end
