(* ===== verification/Runtime_Fs_Ops.thy ===== *)
theory Runtime_Fs_Ops
  imports Runtime_Fs_Inv
begin

text \<open>
  The remaining operations of the file system keep the invariant, the invariant holds in every
  reachable state, and what each operation does to the paths and to the bytes.
\<close>

section \<open>Write, remove and rename keep the invariant\<close>

lemma fs_write_node_skel [simp]: "node_skel (fs_write_node nd off bytes n) = node_skel nd"
  by (simp add: fs_write_node_def node_skel_def Let_def)

lemma fs_write_node_shape [simp]: "node_shape (fs_write_node nd off bytes n) = node_shape nd"
  by (simp add: fs_write_node_def node_shape_def Let_def)

lemma fs_write_node_size:
  "nd_size_bytes (fs_write_node nd off bytes n) = max (nd_size_bytes nd) (u32_add off n)"
  by (simp add: fs_write_node_def Let_def)

text \<open>The branches of \<open>runtime_fs_write\<close>: an error that changes nothing, or the stores.\<close>

lemma runtime_fs_write_result:
  "runtime_fs_write fs obj buffer n = Some (st, fs') \<Longrightarrow> st < 0 \<and> fs' = fs \<or>
   (\<exists>slot bytes. buffer = Some bytes \<and> fs_open_file_lookup fs obj = Some slot \<and> st = int n \<and>
      nd_type (nodes fs ! of_node_index (open_files fs ! slot)) = RUNTIME_FILE_TYPE_REGULAR \<and>
      of_flags (open_files fs ! slot) AND RUNTIME_FILE_OPEN_WRITE \<noteq> 0 \<and>
      of_offset (open_files fs ! slot) + n \<le> RUNTIME_FS_FILE_CAPACITY \<and> n \<le> length bytes \<and>
      fs' = upd_open slot (\<lambda>f. f\<lparr>of_offset := of_offset (open_files fs ! slot) + n\<rparr>)
         (upd_node (of_node_index (open_files fs ! slot))
           (\<lambda>nd. fs_write_node nd (of_offset (open_files fs ! slot)) bytes n) fs))"
  by (auto simp: runtime_fs_write_def Let_def fs_not_regular_status_def u32_add_def
      RUNTIME_FS_FILE_CAPACITY_def split: option.splits if_splits)

lemma runtime_fs_write_cases:
  assumes "runtime_fs_write fs obj buffer n = Some (st, fs')"
  obtains (failed) "fs' = fs" "st < 0"
  | (written) slot bytes where "buffer = Some bytes" "fs_open_file_lookup fs obj = Some slot" "st = int n"
      "nd_type (nodes fs ! of_node_index (open_files fs ! slot)) = RUNTIME_FILE_TYPE_REGULAR"
      "of_flags (open_files fs ! slot) AND RUNTIME_FILE_OPEN_WRITE \<noteq> 0"
      "of_offset (open_files fs ! slot) + n \<le> RUNTIME_FS_FILE_CAPACITY" "n \<le> length bytes"
      "fs' = upd_open slot (\<lambda>f. f\<lparr>of_offset := of_offset (open_files fs ! slot) + n\<rparr>)
         (upd_node (of_node_index (open_files fs ! slot))
           (\<lambda>nd. fs_write_node nd (of_offset (open_files fs ! slot)) bytes n) fs)"
  using runtime_fs_write_result [OF assms] by blast

lemma regular_size:
  assumes "fs_inv fs" and "live fs k" and "nd_type (nodes fs ! k) = RUNTIME_FILE_TYPE_REGULAR"
  shows "nd_size_bytes (nodes fs ! k) \<le> RUNTIME_FS_FILE_CAPACITY"
  using assms(2,3) fs_inv_tree [OF assms(1)] root_live_dir [OF fs_inv_root [OF assms(1)]]
  by (cases "k = 0") (auto simp: fs_tree_def node_ok_def live_dir_def)

lemma fs_inv_write:
  assumes inv: "fs_inv fs" and w: "runtime_fs_write fs obj buffer n = Some (st, fs')"
  shows "fs_inv fs'"
  using w
proof (cases rule: runtime_fs_write_cases)
  case failed
  then show ?thesis using inv by simp
next
  case (written slot bytes)
  let ?k = "of_node_index (open_files fs ! slot)"
  let ?f = "\<lambda>nd. fs_write_node nd (of_offset (open_files fs ! slot)) bytes n"
  note s = fs_open_file_lookup_Some [OF inv written(2)]
  have inv1: "fs_inv (upd_node ?k ?f fs)"
    using s(4,5) regular_size [OF inv s(4) written(4)] written(6)
    by (intro fs_inv_upd_node_data [OF inv])
       (auto simp: live_def fs_write_node_size u32_add_def RUNTIME_FS_FILE_CAPACITY_def)
  have "open_ok (upd_node ?k ?f fs) (open_files fs ! slot)"
    using open_ok_same_skel [OF same_skel_upd_node s(2), of ?f ?k] inv
    by (simp add: fs_inv_def fs_shape_def)
  with written(6) inv1 show ?thesis
    unfolding written(8) by (intro fs_inv_upd_open) (auto simp: open_ok_def)
qed

lemma fs_resolve_path_absolute:
  "fs_resolve_path fs path = Some k \<Longrightarrow> \<exists>p. path = Some p \<and> cchar p 0 = CHR ''/''"
  by (auto simp: fs_resolve_path_def split: option.splits if_splits)

lemma fs_resolve_existing_path_Inr:
  "fs_resolve_existing_path fs path = Inr k \<longleftrightarrow> fs_resolve_path fs path = Some k"
  using fs_resolve_path_absolute [of fs path k]
  by (auto simp: fs_resolve_existing_path_def split: option.splits)

lemma fs_resolve_existing_path_Inl: "fs_resolve_existing_path fs path = Inl st \<Longrightarrow> st < 0"
  by (auto simp: fs_resolve_existing_path_def split: option.splits if_splits)

text \<open>The branches of \<open>runtime_fs_remove\<close>.\<close>

lemma runtime_fs_remove_result:
  "runtime_fs_remove fs pid path = (st, fs') \<Longrightarrow> st < 0 \<and> fs' = fs \<or>
   (\<exists>k. fs_resolve_path fs path = Some k \<and> st = 0 \<and> \<not> fs_node_is_open fs k \<and>
      (nd_type (nodes fs ! k) = RUNTIME_FILE_TYPE_DIRECTORY \<longrightarrow> \<not> fs_node_has_children fs k) \<and>
      fs' = upd_node k fs_clear_node fs)"
  by (auto simp: runtime_fs_remove_def Let_def fs_resolve_existing_path_Inr
      dest: fs_resolve_existing_path_Inl split: sum.splits if_splits)

lemma fs_leaf:
  assumes inv: "fs_inv fs" and i: "live fs i" "i \<noteq> k" and k: "live fs k" "k \<noteq> 0"
    and leaf: "nd_type (nodes fs ! k) = RUNTIME_FILE_TYPE_DIRECTORY \<longrightarrow> \<not> fs_node_has_children fs k"
  shows "fs_parent fs i \<noteq> k"
proof
  assume p: "fs_parent fs i = k"
  show False
  proof (cases "i = 0")
    case True
    then have "nd_parent_index (nodes fs ! 0) = 0"
      using fs_inv_root [OF inv] by (simp add: fs_root_ok_def Let_def)
    with True p k show False by (simp add: fs_parent_def)
  next
    case False
    with i fs_inv_tree [OF inv] have "live_dir fs k" using p by (auto simp: fs_tree_def node_ok_def)
    with leaf i p show False
      by (auto simp: live_dir_def live_def fs_node_has_children_def list_ex_iff fs_parent_def)
  qed
qed

lemma fs_clear_node_simps [simp]:
  "\<not> nd_used (fs_clear_node nd)" "node_shape (fs_clear_node nd) = node_shape nd"
  by (simp_all add: fs_clear_node_def node_shape_def)

lemma fs_inv_remove_op:
  assumes inv: "fs_inv fs" and no_root: "fs_resolve_path fs path \<noteq> Some 0"
    and rem: "runtime_fs_remove fs pid path = (st, fs')"
  shows "fs_inv fs'"
  using runtime_fs_remove_result [OF rem]
proof (elim disjE exE conjE)
  fix k
  assume k: "fs_resolve_path fs path = Some k" and closed: "\<not> fs_node_is_open fs k"
    and leaf: "nd_type (nodes fs ! k) = RUNTIME_FILE_TYPE_DIRECTORY \<longrightarrow> \<not> fs_node_has_children fs k"
    and fs': "fs' = upd_node k fs_clear_node fs"
  have live: "live fs k" "k \<noteq> 0"
    using fs_resolve_path_live [OF k fs_inv_shape [OF inv] fs_inv_root [OF inv]] k no_root by auto
  show "fs_inv fs'"
    unfolding fs' upd_node_def
    by (rule fs_inv_remove [OF inv live])
       (use fs_inv_node_shape [OF inv live(1)] fs_leaf [OF inv _ _ live leaf] closed in simp_all)
qed (simp add: inv)

text \<open>The branches of \<open>runtime_fs_rename\<close>.\<close>

definition fs_moved :: "nat \<Rightarrow> nat \<Rightarrow> string \<Rightarrow> runtime_fs \<Rightarrow> runtime_fs" where
  "fs_moved k p leaf = upd_node k (\<lambda>nd. nd\<lparr>nd_parent_index := p, nd_name := copy_name (nd_name nd) leaf\<rparr>)"

lemma fs_resolve_parent_path_Inl: "fs_resolve_parent_path fs path = Inl st \<Longrightarrow> st < 0"
proof -
  have from_neg: "fs_parent_from fs c t rest = Inl st \<Longrightarrow> st < 0" for c t rest
    by (induction fs c t rest rule: fs_parent_from.induct)
       (subst (asm) fs_parent_from.simps, auto split: token_step.splits option.splits if_splits)
  show "fs_resolve_parent_path fs path = Inl st \<Longrightarrow> st < 0"
    by (auto simp: fs_resolve_parent_path_def dest: from_neg
        split: option.splits if_splits token_step.splits)
qed

lemma runtime_fs_rename_result:
  "runtime_fs_rename fs pid old new = Some (st, fs') \<Longrightarrow>
   st \<le> 0 \<and> fs' = fs \<and> (st = 0 \<longrightarrow> cstr (the old) = cstr (the new)) \<or>
   (\<exists>k leaf p. fs_resolve_path fs old = Some k \<and> st = 0 \<and> fs_resolve_path fs new = None \<and>
      fs_resolve_parent_path fs new = Inr (leaf, p) \<and>
      (nd_type (nodes fs ! k) = RUNTIME_FILE_TYPE_DIRECTORY \<longrightarrow>
         fs_parent_chain_contains fs p k = Some False) \<and>
      fs' = fs_moved k p leaf fs)"
  by (auto simp: runtime_fs_rename_def Let_def fs_resolve_existing_path_Inr name_equals_iff fs_moved_def
      dest: fs_resolve_existing_path_Inl fs_resolve_parent_path_Inl
      split: sum.splits if_splits option.splits prod.splits)

lemma fs_outside:
  assumes inv: "fs_inv fs" and p: "live_dir fs p"
    and dir: "nd_type (nodes fs ! k) = RUNTIME_FILE_TYPE_DIRECTORY \<longrightarrow>
      fs_parent_chain_contains fs p k = Some False"
  shows "fs_parent_chain_contains fs p k = Some False"
  using dir parent_chain_file_avoids [OF fs_inv_tree [OF inv] p] by blast

lemma fs_inv_rename_op:
  assumes inv: "fs_inv fs" and no_root: "fs_resolve_path fs old \<noteq> Some 0"
    and ren: "runtime_fs_rename fs pid old new = Some (st, fs')"
  shows "fs_inv fs'"
  using runtime_fs_rename_result [OF ren]
proof (elim disjE exE conjE)
  fix k leaf p
  assume k: "fs_resolve_path fs old = Some k" and new: "fs_resolve_path fs new = None"
    and parent: "fs_resolve_parent_path fs new = Inr (leaf, p)"
    and dir: "nd_type (nodes fs ! k) = RUNTIME_FILE_TYPE_DIRECTORY \<longrightarrow>
      fs_parent_chain_contains fs p k = Some False"
    and fs': "fs' = fs_moved k p leaf fs"
  have live: "live fs k" "k \<noteq> 0"
    using fs_resolve_path_live [OF k fs_inv_shape [OF inv] fs_inv_root [OF inv]] k no_root by auto
  note pp = fs_resolve_parent_path_Inr [OF parent fs_inv_shape [OF inv] fs_inv_root [OF inv]]
  note shape = fs_inv_node_shape [OF inv live(1)]
  have name: "cstr (copy_name (nd_name (nodes fs ! k)) leaf) = leaf"
    using component_copy_name [OF pp(2)] shape by (simp add: node_shape_def)
  have "fs_find_child fs p leaf = None" using new pp(3) by simp
  then have fresh: "cstr (nd_name (nodes fs ! i)) \<noteq> leaf" if "live fs i" "fs_parent fs i = p" for i
    using that pp(2) fs_find_child_None [OF fs_inv_shape [OF inv], of p leaf] by auto
  show "fs_inv fs'"
    unfolding fs' fs_moved_def upd_node_def
    by (rule fs_inv_move [OF inv live])
       (use live pp(1,2) shape name fresh fs_outside [OF inv pp(1) dir] in
         \<open>auto simp: live_def node_shape_def component_def\<close>)
qed (simp add: inv)

lemma live_rooted: "fs_inv fs \<Longrightarrow> live fs i \<Longrightarrow> rooted fs i"
  using fs_inv_tree [of fs] by (cases "i = 0") (auto simp: fs_tree_def rooted_root)

lemma rename_returns: "fs_inv fs \<Longrightarrow> \<exists>r. runtime_fs_rename fs pid old new = Some r"
proof -
  assume inv: "fs_inv fs"
  have chain: "\<exists>b. fs_parent_chain_contains fs p k = Some b"
    if "fs_resolve_parent_path fs path = Inr (leaf, p)" for path leaf p k
    using that fs_resolve_parent_path_Inr(1) [OF that fs_inv_shape [OF inv] fs_inv_root [OF inv]]
      parent_chain_returns [of fs p k] live_rooted [OF inv, of p] by (auto simp: live_dir_def)
  have "runtime_fs_rename fs pid old new \<noteq> None"
    unfolding runtime_fs_rename_def
    by (auto simp: Let_def simp del: not_None_eq split: sum.splits option.splits prod.splits)
       (auto intro: chain)
  then show ?thesis by blast
qed

section \<open>Reachable states\<close>

text \<open>
  One rule per operation of \<open>runtime_fs.c\<close> that takes the file system, with any arguments. A write
  or a rename whose model has no result (an access outside an array, a walk that does not end) has
  no step.
\<close>

inductive fs_step :: "runtime_fs \<Rightarrow> runtime_fs \<Rightarrow> bool" where
  step_mkdir: "fs_step fs (snd (runtime_fs_mkdir fs pid path mode))"
| step_open: "fs_step fs (fst (snd (runtime_fs_open fs pid path flags obj)))"
| step_read: "fs_step fs (fst (snd (runtime_fs_read fs fd buffer n)))"
| step_write: "runtime_fs_write fs fd buffer n = Some (st, fs') \<Longrightarrow> fs_step fs fs'"
| step_close: "fs_step fs (snd (runtime_fs_close fs fd))"
| step_readdir: "fs_step fs (fst (snd (runtime_fs_readdir fs fd entry)))"
| step_seek: "fs_step fs (snd (runtime_fs_seek fs fd off whence))"
| step_remove: "fs_step fs (snd (runtime_fs_remove fs pid path))"
| step_rename: "runtime_fs_rename fs pid old new = Some (st, fs') \<Longrightarrow> fs_step fs fs'"

inductive fs_reachable :: "runtime_fs \<Rightarrow> bool" where
  reachable_init: "fs_reachable runtime_fs_init"
| reachable_step: "fs_reachable fs \<Longrightarrow> fs_step fs fs' \<Longrightarrow> fs_reachable fs'"

lemmas fs_inv_ops = fs_inv_mkdir fs_inv_open fs_inv_read fs_inv_write fs_inv_close fs_inv_readdir
  fs_inv_seek

text \<open>
  \<open>fs_path_is_root\<close> recognises only the path of one slash, so remove and rename act on the root when
  it is named by another path, such as two slashes. Such a call is the only one that damages a
  consistent file system: it frees the root or gives it the name of a component, and no operation
  repairs that.
\<close>

definition root_alias_call :: "runtime_fs \<Rightarrow> runtime_fs \<Rightarrow> bool" where
  "root_alias_call fs fs' \<longleftrightarrow> (\<exists>path pid. fs_resolve_path fs path = Some 0 \<and> \<not> fs_path_is_root path \<and>
     (fs' = snd (runtime_fs_remove fs pid path) \<or>
      (\<exists>new st. runtime_fs_rename fs pid path new = Some (st, fs'))))"

definition root_damaged :: "runtime_fs \<Rightarrow> bool" where
  "root_damaged fs \<longleftrightarrow> \<not> nd_used (nodes fs ! 0) \<or> cchar (nd_name (nodes fs ! 0)) 0 \<noteq> CHR ''/''"

lemma root_damaged_not_ok: "root_damaged fs \<Longrightarrow> \<not> fs_root_ok fs"
  by (auto simp: root_damaged_def fs_root_ok_def Let_def)

lemma fs_parent_from_component:
  "fs_parent_from fs c t rest = Inr (leaf, p) \<Longrightarrow> component t \<Longrightarrow> component leaf"
proof (induction fs c t rest rule: fs_parent_from.induct)
  case (1 fs c t rest)
  then show ?case
    by (auto simp: fs_parent_from.simps [of fs c t rest] dest: fs_token_next_component
        split: token_step.splits option.splits if_splits)
qed

lemma fs_resolve_parent_path_component: "fs_resolve_parent_path fs path = Inr (leaf, p) \<Longrightarrow> component leaf"
  by (auto simp: fs_resolve_parent_path_def dest: fs_token_next_component fs_parent_from_component
      split: token_step.splits if_splits)

lemma copy_name_at_first: "0 < i \<Longrightarrow> cchar (copy_name_at dest src i) 0 = cchar dest 0"
proof (induction dest src i rule: copy_name_at.induct)
  case (1 dest src i)
  have "cchar (dest[i := c]) 0 = cchar dest 0" for c using 1(2) by (cases dest; cases i) auto
  with 1 show ?case by (subst copy_name_at.simps) auto
qed

lemma copy_name_first:
  assumes "component t"
  shows "cchar (copy_name dest t) 0 \<noteq> CHR ''/''"
proof -
  obtain c cs where t: "t = c # cs" "c \<noteq> NUL" "c \<noteq> CHR ''/''" using assms by (cases t) (auto simp: component_def)
  then have "copy_name dest t = copy_name_at (dest[0 := c]) t 1"
    by (simp add: copy_name_def copy_name_at.simps [of dest] RUNTIME_FS_NAME_CAPACITY_def)
  then show ?thesis using copy_name_at_first [of 1 "dest[0 := c]" t] t(3) by (cases dest) auto
qed

lemma root_damaged_upd:
  assumes "root_damaged fs" and "k = 0 \<Longrightarrow> (\<not> nd_used (nodes fs ! 0) \<longrightarrow> \<not> nd_used (f (nodes fs ! 0))) \<and>
    (nd_name (f (nodes fs ! 0)) = nd_name (nodes fs ! 0) \<or> cchar (nd_name (f (nodes fs ! 0))) 0 \<noteq> CHR ''/'' \<or>
     \<not> nd_used (f (nodes fs ! 0)))"
  shows "root_damaged (upd_node k f fs)"
  using assms by (cases "k = 0") (auto simp: root_damaged_def nth_list_update_if)

lemma root_damaged_nodes: "root_damaged fs \<Longrightarrow> nodes fs' ! 0 = nodes fs ! 0 \<Longrightarrow> root_damaged fs'"
  by (simp add: root_damaged_def)

lemma root_damaged_moved: "component leaf \<Longrightarrow> root_damaged fs \<Longrightarrow> root_damaged (fs_moved k p leaf fs)"
  unfolding fs_moved_def by (rule root_damaged_upd) (auto simp: copy_name_first)

lemma root_damaged_open_lookup:
  "fs_open_lookup fs pid path flags = Inr (fs1, k) \<Longrightarrow> nodes fs1 ! 0 = nodes fs ! 0"
  by (auto simp: fs_open_lookup_def dest!: fs_alloc_node_result
      split: option.splits sum.splits prod.splits if_splits)

lemma root_damaged_open:
  assumes "root_damaged fs"
  shows "root_damaged (fst (snd (runtime_fs_open fs pid path flags obj)))"
proof (cases "path = None \<or> obj = None \<or> cchar (the path) 0 \<noteq> CHR ''/'' \<or>
    (\<exists>e. fs_open_lookup fs pid path flags = Inl e)")
  case True
  then show ?thesis using assms by (auto simp: runtime_fs_open_def)
next
  case False
  then obtain fs1 k where look: "fs_open_lookup fs pid path flags = Inr (fs1, k)"
    by (cases "fs_open_lookup fs pid path flags") auto
  obtain st fs2 where chk: "fs_open_check fs1 pid k flags = (st, fs2)" by fastforce
  have "root_damaged fs1" by (rule root_damaged_nodes [OF assms root_damaged_open_lookup [OF look]])
  moreover have "root_damaged (upd_node k fs_truncate_node fs1)" if "root_damaged fs1"
    using that by (rule root_damaged_upd) (auto simp: fs_truncate_node_def)
  ultimately have bad: "root_damaged fs2" using fs_open_check_state [of fs1 pid k flags] chk by auto
  obtain slot fs3 where slot: "fs_open_slot_alloc fs2 k flags = (slot, fs3)" by fastforce
  have "nodes fs3 = nodes fs2" using slot by (auto simp: fs_open_slot_alloc_def split: option.splits)
  then have "nodes (fst (snd (runtime_fs_open fs pid path flags obj))) ! 0 = nodes fs2 ! 0"
    using False look chk slot by (auto simp: runtime_fs_open_def)
  with bad show ?thesis by (rule root_damaged_nodes)
qed

lemma root_damaged_step: "fs_step fs fs' \<Longrightarrow> root_damaged fs \<Longrightarrow> root_damaged fs'"
proof (induction rule: fs_step.induct)
  case (step_mkdir fs pid path mode)
  then show ?case
    by (rule root_damaged_nodes)
       (auto simp: runtime_fs_mkdir_def dest!: fs_alloc_node_result split: option.splits sum.splits prod.splits)
next
  case (step_open fs pid path flags obj)
  then show ?case by (rule root_damaged_open)
next
  case (step_read fs fd buffer n)
  then show ?case by (rule root_damaged_nodes) (simp add: runtime_fs_read_def Let_def split: option.split)
next
  case (step_write fs fd buffer n st fs')
  from step_write(1) show ?case
  proof (cases rule: runtime_fs_write_cases)
    case (written slot bytes)
    have "root_damaged (upd_node k (\<lambda>nd. fs_write_node nd off bytes n) fs)" for k off
      by (rule root_damaged_upd [OF step_write(2)]) (simp add: fs_write_node_def Let_def)
    then show ?thesis unfolding written(8) by (rule root_damaged_nodes) simp
  qed (use step_write in simp)
next
  case (step_close fs fd)
  then show ?case by (rule root_damaged_nodes) (simp add: runtime_fs_close_def split: option.split)
next
  case (step_readdir fs fd entry)
  then show ?case by (rule root_damaged_nodes) (simp add: runtime_fs_readdir_def Let_def split: option.split)
next
  case (step_seek fs fd off whence)
  then show ?case by (rule root_damaged_nodes) (simp add: runtime_fs_seek_def Let_def split: option.split)
next
  case (step_remove fs pid path)
  obtain st fs' where rm: "runtime_fs_remove fs pid path = (st, fs')" by force
  have "root_damaged (upd_node k fs_clear_node fs)" for k
    by (rule root_damaged_upd [OF step_remove]) simp
  with runtime_fs_remove_result [OF rm] step_remove show ?case by (auto simp: rm)
next
  case (step_rename fs pid old new st fs')
  from runtime_fs_rename_result [OF step_rename(1)] step_rename(2) show ?case
    using root_damaged_moved fs_resolve_parent_path_component by blast
qed

text \<open>A step from a consistent file system keeps it consistent or is such a call.\<close>

lemma fs_root_in_table: "fs_inv fs \<Longrightarrow> nodes fs \<noteq> []"
  using fs_inv_shape [of fs] by (auto simp: fs_shape_def RUNTIME_FS_MAX_NODES_def)

lemma fs_inv_remove_step:
  assumes "fs_inv fs"
  shows "fs_inv (snd (runtime_fs_remove fs pid path)) \<or>
    root_damaged (snd (runtime_fs_remove fs pid path)) \<and> root_alias_call fs (snd (runtime_fs_remove fs pid path))"
proof (cases "fs_resolve_path fs path = Some 0 \<and> \<not> fs_path_is_root path")
  case True
  obtain st fs' where rm: "runtime_fs_remove fs pid path = (st, fs')" by force
  have "root_damaged (upd_node 0 fs_clear_node fs)"
    using fs_root_in_table [OF assms] by (simp add: root_damaged_def)
  moreover have "root_alias_call fs (snd (runtime_fs_remove fs pid path))"
    using True unfolding root_alias_call_def by blast
  ultimately show ?thesis using runtime_fs_remove_result [OF rm] True assms by (auto simp: rm)
next
  case False
  then consider "fs_resolve_path fs path \<noteq> Some 0" | "fs_path_is_root path" by blast
  then show ?thesis
  proof cases
    case 1
    then show ?thesis using fs_inv_remove_op [OF assms, of path pid] by (cases "runtime_fs_remove fs pid path") auto
  qed (simp add: runtime_fs_remove_def assms)
qed

lemma fs_inv_rename_step:
  assumes inv: "fs_inv fs" and ren: "runtime_fs_rename fs pid old new = Some (st, fs')"
  shows "fs_inv fs' \<or> root_damaged fs' \<and> root_alias_call fs fs'"
proof (cases "fs_resolve_path fs old = Some 0 \<and> \<not> fs_path_is_root old")
  case True
  have "root_damaged (fs_moved 0 p leaf fs)" if "component leaf" for p leaf
    using fs_root_in_table [OF inv] copy_name_first [OF that] by (simp add: root_damaged_def fs_moved_def)
  moreover have "root_alias_call fs fs'"
    using True ren unfolding root_alias_call_def by blast
  ultimately show ?thesis
    using runtime_fs_rename_result [OF ren] True inv by (auto dest: fs_resolve_parent_path_component)
next
  case False
  then consider "fs_resolve_path fs old \<noteq> Some 0" | "fs_path_is_root old" by blast
  then show ?thesis
  proof cases
    case 1
    then show ?thesis using fs_inv_rename_op [OF inv _ ren] by blast
  next
    case 2
    then have "fs' = fs" using ren by (auto simp: runtime_fs_rename_def split: if_splits)
    then show ?thesis using inv by simp
  qed
qed

lemma fs_inv_step: "fs_step fs fs' \<Longrightarrow> fs_inv fs \<Longrightarrow> fs_inv fs' \<or> root_damaged fs' \<and> root_alias_call fs fs'"
proof (induction rule: fs_step.induct)
  case (step_remove fs pid path)
  then show ?case by (rule fs_inv_remove_step)
next
  case (step_rename fs pid old new st fs')
  then show ?case by (intro fs_inv_rename_step)
qed (auto intro: fs_inv_ops)

lemma fs_reachable_cases: "fs_reachable fs \<Longrightarrow> fs_inv fs \<or> root_damaged fs"
  by (induction rule: fs_reachable.induct) (auto intro: fs_inv_init dest: fs_inv_step root_damaged_step)

lemma fs_inv_reachable: "fs_reachable fs \<Longrightarrow> fs_root_ok fs \<Longrightarrow> fs_inv fs"
  using fs_reachable_cases root_damaged_not_ok by blast

lemma fs_inv_before: "fs_reachable fs \<Longrightarrow> fs_step fs fs' \<Longrightarrow> fs_root_ok fs' \<Longrightarrow> fs_inv fs"
  using fs_reachable_cases root_damaged_step root_damaged_not_ok by blast

section \<open>Paths\<close>

lemma fs_find_child_unique:
  assumes inv: "fs_inv fs" and i: "live fs i" "i \<noteq> 0"
    and t: "component t" "cstr (nd_name (nodes fs ! i)) = t"
  shows "fs_find_child fs (fs_parent fs i) t = Some i"
proof (cases "fs_find_child fs (fs_parent fs i) t")
  case None
  with fs_find_child_None [OF fs_inv_shape [OF inv]] i t show ?thesis by auto
next
  case (Some j)
  note j = fs_find_child_Some [OF fs_inv_shape [OF inv] Some]
  have "j \<noteq> 0" by (rule fs_find_child_not_root [OF fs_inv_shape [OF inv] fs_inv_root [OF inv] t(1) Some])
  moreover have "fs_distinct fs" using inv by (simp add: fs_inv_def fs_consistent_def)
  ultimately have "j = i" using j i t component_cstr [OF t(1)] unfolding fs_distinct_def by metis
  with Some show ?thesis by simp
qed

text \<open>
  Two states that agree on every node but \<open>k\<close>: a walk down to a directory that is not inside \<open>k\<close>
  is the same in both.
\<close>

definition agree_but :: "nat \<Rightarrow> runtime_fs \<Rightarrow> runtime_fs \<Rightarrow> bool" where
  "agree_but k fs fs' \<longleftrightarrow> (\<forall>i. i \<noteq> k \<longrightarrow> nodes fs' ! i = nodes fs ! i)"

lemma agree_but_upd: "agree_but k fs (upd_node k f fs)"
  by (simp add: agree_but_def)

lemma agree_but_live: "agree_but k fs fs' \<Longrightarrow> i \<noteq> k \<Longrightarrow> live fs' i = live fs i"
  by (simp add: agree_but_def live_def)

lemma fs_find_child_agree:
  assumes inv: "fs_inv fs" "fs_inv fs'" and agree: "agree_but k fs fs'"
    and t: "component t" and c: "fs_find_child fs p t = Some c" "c \<noteq> k"
  shows "fs_find_child fs' p t = Some c"
proof -
  note f = fs_find_child_Some [OF fs_inv_shape [OF inv(1)] c(1)]
  have "c \<noteq> 0" by (rule fs_find_child_not_root [OF fs_inv_shape [OF inv(1)] fs_inv_root [OF inv(1)] t c(1)])
  then have "fs_find_child fs' (fs_parent fs' c) t = Some c"
    using f t c(2) agree agree_but_live [OF agree]
    by (intro fs_find_child_unique [OF inv(2)]) (auto simp: agree_but_def)
  with f(2) agree c(2) show ?thesis by (simp add: agree_but_def fs_parent_def)
qed

lemma fs_parent_from_agree:
  assumes inv: "fs_inv fs" "fs_inv fs'" and agree: "agree_but k fs fs'"
  shows "fs_parent_from fs cur t rest = Inr (leaf, p) \<Longrightarrow> component t \<Longrightarrow>
    fs_parent_chain_contains fs p k = Some False \<Longrightarrow>
    fs_parent_chain_contains fs cur k = Some False \<and> fs_parent_from fs' cur t rest = Inr (leaf, p)"
  using inv(1) agree
proof (induction fs cur t rest rule: fs_parent_from.induct)
  case (1 fs cur t rest)
  show ?case
  proof (cases "fs_token_next rest")
    case Token_End
    with 1 show ?thesis by (auto simp: fs_parent_from.simps)
  next
    case Token_Too_Long
    with 1 show ?thesis by (auto simp: fs_parent_from.simps)
  next
    case (Token t2 rest2)
    with 1(2) obtain c where c: "fs_find_child fs cur t = Some c"
        "nd_type (nodes fs ! c) = RUNTIME_FILE_TYPE_DIRECTORY" "fs_parent_from fs c t2 rest2 = Inr (leaf, p)"
      by (auto simp: fs_parent_from.simps [of fs cur t rest] split: option.splits if_splits)
    have IH: "fs_parent_chain_contains fs c k = Some False" "fs_parent_from fs' c t2 rest2 = Inr (leaf, p)"
      using 1(1) [OF Token c(1)] c 1(4-6) fs_token_next_component [OF Token] by simp_all
    have "c \<noteq> 0"
      by (rule fs_find_child_not_root [OF fs_inv_shape [OF 1(5)] fs_inv_root [OF 1(5)] 1(3) c(1)])
    then have "c \<noteq> k" using IH(1) parent_chain_self [of k fs] by auto
    have "fs_parent_chain_contains fs cur k = Some False"
      using IH(1) parent_chain_step [OF \<open>c \<noteq> 0\<close> \<open>c \<noteq> k\<close>] fs_find_child_Some(2) [OF fs_inv_shape [OF 1(5)] c(1)]
      by simp
    moreover have "fs_find_child fs' cur t = Some c"
      by (rule fs_find_child_agree [OF 1(5) inv(2) 1(6) 1(3) c(1) \<open>c \<noteq> k\<close>])
    moreover have "nd_type (nodes fs' ! c) = RUNTIME_FILE_TYPE_DIRECTORY"
      using c(2) \<open>c \<noteq> k\<close> 1(6) by (simp add: agree_but_def)
    ultimately show ?thesis using IH(2) Token by (simp add: fs_parent_from.simps [of fs' cur t rest])
  qed
qed

lemma fs_resolve_parent_path_agree:
  assumes "fs_inv fs" "fs_inv fs'" "agree_but k fs fs'"
    and "fs_resolve_parent_path fs path = Inr (leaf, p)"
    and "fs_parent_chain_contains fs p k = Some False"
  shows "fs_resolve_parent_path fs' path = Inr (leaf, p)"
  using assms(4) fs_parent_from_agree [OF assms(1-3) _ _ assms(5), of 0]
  by (auto simp: fs_resolve_parent_path_def dest: fs_token_next_component
      split: option.splits if_splits token_step.splits)

text \<open>A path that resolves to a node other than the root has a parent path.\<close>

lemma fs_resolve_from_parent:
  assumes inv: "fs_inv fs"
  shows "fs_resolve_from fs cur cursor = Some k \<Longrightarrow> fs_token_next cursor = Token t rest \<Longrightarrow>
    \<exists>leaf p. fs_parent_from fs cur t rest = Inr (leaf, p)"
  using inv
proof (induction fs cur cursor arbitrary: t rest rule: fs_resolve_from.induct)
  case (1 fs cur cursor)
  then obtain c where c: "fs_find_child fs cur t = Some c" "fs_resolve_from fs c rest = Some k"
    by (auto simp: fs_resolve_from.simps [of fs cur cursor] split: option.splits)
  show ?case
  proof (cases "fs_token_next rest")
    case Token_End
    then show ?thesis by (simp add: fs_parent_from.simps)
  next
    case Token_Too_Long
    with c(2) show ?thesis by (simp add: fs_resolve_from.simps)
  next
    case (Token t2 rest2)
    with c(2) obtain d where d: "fs_find_child fs c t2 = Some d"
      by (auto simp: fs_resolve_from.simps [of fs c rest] split: option.splits)
    have "d \<noteq> 0"
      by (rule fs_find_child_not_root [OF fs_inv_shape [OF 1(4)] fs_inv_root [OF 1(4)]
        fs_token_next_component [OF Token] d])
    then have "live_dir fs c"
      using fs_find_child_Some [OF fs_inv_shape [OF 1(4)] d] fs_inv_tree [OF 1(4)]
      by (auto simp: fs_tree_def node_ok_def)
    moreover obtain leaf p where "fs_parent_from fs c t2 rest2 = Inr (leaf, p)"
      using 1(1) [OF 1(3) c(1) c(2) Token 1(4)] by blast
    ultimately show ?thesis using Token c by (simp add: fs_parent_from.simps [of fs cur t] live_dir_def)
  qed
qed

lemma fs_resolve_path_parent:
  assumes inv: "fs_inv fs" and k: "fs_resolve_path fs path = Some k" "k \<noteq> 0"
  shows "\<exists>leaf p. fs_resolve_parent_path fs path = Inr (leaf, p)"
proof -
  obtain s where s: "path = Some s" "cchar s 0 = CHR ''/''" "cchar s 1 \<noteq> NUL" "fs_resolve_from fs 0 s = Some k"
    using k by (auto simp: fs_resolve_path_def split: option.splits if_splits)
  obtain t rest where t: "fs_token_next s = Token t rest"
    using s(4) k(2) by (auto simp: fs_resolve_from.simps [of fs 0 s] split: token_step.splits)
  with fs_resolve_from_parent [OF inv s(4) t] s show ?thesis
    by (auto simp: fs_resolve_parent_path_def fs_path_is_absolute_non_root_def)
qed

text \<open>No directory is inside one of its children, and a free node is on no chain.\<close>

lemma parent_chain_in:
  assumes "rooted fs i" and "fs_parent_chain_contains fs i k = Some True" and "depth fs i n"
  shows "\<exists>m. depth fs k m \<and> m \<le> n"
  using assms
proof (induction arbitrary: n rule: rooted.induct)
  case rooted_root
  then show ?case by simp
next
  case (rooted_step i)
  show ?case
  proof (cases "i = 0 \<or> i = k")
    case True
    with rooted_step.prems show ?thesis by auto
  next
    case False
    then obtain n' where "n = Suc n'" "depth fs (fs_parent fs i) n'"
      using rooted_step.prems(2) by (auto elim: depth.cases)
    with rooted_step.IH rooted_step.prems(1) False parent_chain_step [of i k fs] show ?thesis
      by (metis le_SucI)
  qed
qed

lemma parent_outside_child:
  assumes inv: "fs_inv fs" and k: "live fs k" "k \<noteq> 0"
  shows "fs_parent_chain_contains fs (fs_parent fs k) k = Some False"
proof -
  have up: "rooted fs (fs_parent fs k)"
    using fs_tree_parent_live [OF fs_inv_tree [OF inv] k] live_rooted [OF inv] by blast
  then obtain n where n: "depth fs (fs_parent fs k) n" using rooted_depth by blast
  then have kn: "depth fs k (Suc n)" using k by (auto intro: depth.intros)
  obtain b where b: "fs_parent_chain_contains fs (fs_parent fs k) k = Some b"
    using parent_chain_returns [OF up] by blast
  show ?thesis
  proof (cases b)
    case True
    with b parent_chain_in [OF up _ n, of k] obtain m where "depth fs k m" "m \<le> n" by auto
    with depth_fun [OF kn, of m] show ?thesis by simp
  qed (use b in simp)
qed

lemma free_outside:
  assumes inv: "fs_inv fs" and p: "live fs p" and k: "\<not> live fs k"
  shows "fs_parent_chain_contains fs p k = Some False"
  using live_rooted [OF inv p] p
proof (induction rule: rooted.induct)
  case (rooted_step i)
  then show ?case
    using k fs_tree_parent_live [OF fs_inv_tree [OF inv]] parent_chain_step [of i k fs]
    by (cases "i = 0"; cases "i = k") auto
qed simp

section \<open>What the operations do to the tree\<close>

text \<open>The branches of \<open>runtime_fs_mkdir\<close>.\<close>

definition fs_made :: "u32 \<Rightarrow> nat \<Rightarrow> u32 \<Rightarrow> u32 \<Rightarrow> string \<Rightarrow> nat \<Rightarrow> runtime_fs \<Rightarrow> runtime_fs" where
  "fs_made ty p pid m leaf k fs = upd_node k (\<lambda>nd. nd\<lparr>nd_type := ty, nd_parent_index := p,
     nd_owner_pid := pid, nd_mode := m, nd_name := copy_name (nd_name nd) leaf\<rparr>) (upd_node k fresh_node fs)"

lemma runtime_fs_mkdir_result:
  "runtime_fs_mkdir fs pid path m = (st, fs') \<Longrightarrow> st < 0 \<and> fs' = fs \<or>
   (\<exists>k leaf p. st = 0 \<and> fs_resolve_path fs path = None \<and> fs_resolve_parent_path fs path = Inr (leaf, p) \<and>
      k \<noteq> 0 \<and> k < RUNTIME_FS_MAX_NODES \<and> \<not> nd_used (nodes fs ! k) \<and>
      fs_node_owner_allows (nodes fs ! p) pid \<and>
      fs' = fs_made RUNTIME_FILE_TYPE_DIRECTORY p pid m leaf k fs)"
  by (auto simp: runtime_fs_mkdir_def fs_made_def dest: fs_resolve_parent_path_Inl
      dest!: fs_alloc_node_result split: option.splits sum.splits prod.splits if_splits)

text \<open>A node put at \<open>k\<close> below \<open>p\<close> under the name \<open>leaf\<close> is what the path now resolves to.\<close>

lemma fs_resolves_to_put:
  assumes inv: "fs_inv fs" "fs_inv fs'" and agree: "agree_but k fs fs'"
    and path: "fs_resolve_parent_path fs path = Inr (leaf, p)"
    and out: "fs_parent_chain_contains fs p k = Some False"
    and k: "live fs' k" "k \<noteq> 0" "fs_parent fs' k = p" "cstr (nd_name (nodes fs' ! k)) = leaf"
  shows "fs_resolve_path fs' path = Some k"
proof -
  have pp: "fs_resolve_parent_path fs' path = Inr (leaf, p)"
    by (rule fs_resolve_parent_path_agree [OF inv agree path out])
  note p = fs_resolve_parent_path_Inr [OF pp fs_inv_shape [OF inv(2)] fs_inv_root [OF inv(2)]]
  show ?thesis using fs_find_child_unique [OF inv(2) k(1,2) p(2) k(4)] p(3) k(3) by simp
qed

text \<open>A node taken away from \<open>p\<close> and the name \<open>leaf\<close> is no longer found.\<close>

lemma fs_resolves_to_none:
  assumes inv: "fs_inv fs" "fs_inv fs'" and agree: "agree_but k fs fs'"
    and path: "fs_resolve_path fs path = Some k" "k \<noteq> 0"
    and gone: "live fs' k \<Longrightarrow> fs_parent fs' k = fs_parent fs k \<Longrightarrow>
      cstr (nd_name (nodes fs' ! k)) \<noteq> cstr (nd_name (nodes fs ! k))"
  shows "fs_resolve_path fs' path = None"
proof -
  obtain leaf p where pp: "fs_resolve_parent_path fs path = Inr (leaf, p)"
    using fs_resolve_path_parent [OF inv(1) path] by blast
  note p = fs_resolve_parent_path_Inr [OF pp fs_inv_shape [OF inv(1)] fs_inv_root [OF inv(1)]]
  have fc: "fs_find_child fs p leaf = Some k" using p(3) path by simp
  note k = fs_find_child_Some [OF fs_inv_shape [OF inv(1)] fc]
  have out: "fs_parent_chain_contains fs p k = Some False"
    using parent_outside_child [OF inv(1) k(1) path(2)] k(2) by simp
  note pp' = fs_resolve_parent_path_agree [OF inv agree pp out]
  have "fs_find_child fs' p leaf = None"
  proof (rule ccontr)
    assume "fs_find_child fs' p leaf \<noteq> None"
    then obtain j where j: "fs_find_child fs' p leaf = Some j" by blast
    note j' = fs_find_child_Some [OF fs_inv_shape [OF inv(2)] j]
    show False
    proof (cases "j = k")
      case True
      with gone j' k show False by simp
    next
      case False
      have "agree_but k fs' fs" using agree by (simp add: agree_but_def)
      from fs_find_child_agree [OF inv(2,1) this p(2) j False] fc False show False by simp
    qed
  qed
  with fs_resolve_parent_path_Inr(3) [OF pp' fs_inv_shape [OF inv(2)] fs_inv_root [OF inv(2)]]
  show ?thesis by simp
qed

lemma fs_made_facts:
  assumes "fs_inv fs" and "k < RUNTIME_FS_MAX_NODES" and "component leaf"
  shows "live (fs_made ty p pid m leaf k fs) k" and "fs_parent (fs_made ty p pid m leaf k fs) k = p"
    and "cstr (nd_name (nodes (fs_made ty p pid m leaf k fs) ! k)) = leaf"
    and "nd_type (nodes (fs_made ty p pid m leaf k fs) ! k) = ty"
    and "nd_owner_pid (nodes (fs_made ty p pid m leaf k fs) ! k) = pid"
    and "nd_mode (nodes (fs_made ty p pid m leaf k fs) ! k) = m"
    and "agree_but k fs (fs_made ty p pid m leaf k fs)"
    and "open_files (fs_made ty p pid m leaf k fs) = open_files fs"
  using assms component_copy_name [OF assms(3), of "nd_name (fresh_node (nodes fs ! k))"]
  by (auto simp: fs_made_def live_def fs_parent_def agree_but_def fs_inv_def fs_shape_def fresh_node_def
      node_shape_def)

lemma fs_moved_facts:
  assumes "fs_inv fs" and "live fs k" and "component leaf"
  shows "live (fs_moved k p leaf fs) k" and "fs_parent (fs_moved k p leaf fs) k = p"
    and "cstr (nd_name (nodes (fs_moved k p leaf fs) ! k)) = leaf"
    and "nodes (fs_moved k p leaf fs) ! k = (nodes fs ! k)\<lparr>nd_parent_index := p,
           nd_name := copy_name (nd_name (nodes fs ! k)) leaf\<rparr>"
    and "agree_but k fs (fs_moved k p leaf fs)" and "open_files (fs_moved k p leaf fs) = open_files fs"
  using assms component_copy_name [OF assms(3), of "nd_name (nodes fs ! k)"]
  by (auto simp: fs_moved_def live_def fs_parent_def agree_but_def fs_inv_def fs_shape_def node_shape_def)

text \<open>A successful \<open>runtime_fs_mkdir\<close> on a consistent file system creates one new directory,
  owned by the caller with the mode asked for; the path, which resolved to nothing, resolves to it;
  every other node and every open file is unchanged.\<close>

theorem mkdir_creates:
  assumes inv: "fs_inv fs" and mk: "runtime_fs_mkdir fs pid path m = (0, fs')"
  shows "\<exists>k. \<not> live fs k \<and> fs_resolve_path fs path = None \<and> fs_resolve_path fs' path = Some k \<and>
    live_dir fs' k \<and> nd_owner_pid (nodes fs' ! k) = pid \<and> nd_mode (nodes fs' ! k) = m \<and>
    (\<forall>i. i \<noteq> k \<longrightarrow> nodes fs' ! i = nodes fs ! i) \<and> open_files fs' = open_files fs"
proof -
  from runtime_fs_mkdir_result [OF mk] obtain k leaf p where r: "fs_resolve_path fs path = None"
      "fs_resolve_parent_path fs path = Inr (leaf, p)" "k \<noteq> 0" "k < RUNTIME_FS_MAX_NODES"
      "\<not> nd_used (nodes fs ! k)" and fs': "fs' = fs_made RUNTIME_FILE_TYPE_DIRECTORY p pid m leaf k fs"
    by auto
  have inv': "fs_inv fs'" using fs_inv_mkdir [OF inv, of pid path m] mk by simp
  note pp = fs_resolve_parent_path_Inr [OF r(2) fs_inv_shape [OF inv] fs_inv_root [OF inv]]
  note facts = fs_made_facts [OF inv r(4) pp(2), of RUNTIME_FILE_TYPE_DIRECTORY p pid m, folded fs']
  have dead: "\<not> live fs k" using r(5) by (simp add: live_def)
  have "fs_resolve_path fs' path = Some k"
    by (rule fs_resolves_to_put [OF inv inv' facts(7) r(2) _ facts(1) r(3) facts(2,3)])
       (use free_outside [OF inv _ dead] pp(1) in \<open>simp add: live_dir_def\<close>)
  with dead facts r(1) show ?thesis by (auto simp: live_dir_def agree_but_def)
qed

theorem mkdir_creates_witness:
  "\<exists>k. fs_resolve_path (snd (runtime_fs_mkdir runtime_fs_init 1 (Some ''/a'') 493)) (Some ''/a'') = Some k"
proof -
  have "fst (runtime_fs_mkdir runtime_fs_init 1 (Some ''/a'') 493) = 0" by code_simp
  then have "runtime_fs_mkdir runtime_fs_init 1 (Some ''/a'') 493 =
      (0, snd (runtime_fs_mkdir runtime_fs_init 1 (Some ''/a'') 493))"
    by (simp add: prod_eq_iff)
  from mkdir_creates [OF fs_inv_init this] show ?thesis by blast
qed

text \<open>A successful \<open>runtime_fs_remove\<close> of a path that does not name the root frees the node the
  path resolved to; the path then resolves to nothing; every other node and every open file is
  unchanged, and the node was not open and not the parent of another.\<close>

theorem remove_removes:
  assumes inv: "fs_inv fs" and no_root: "fs_resolve_path fs path \<noteq> Some 0"
    and rem: "runtime_fs_remove fs pid path = (0, fs')"
  shows "\<exists>k. live fs k \<and> fs_resolve_path fs path = Some k \<and> fs_resolve_path fs' path = None \<and>
    \<not> live fs' k \<and> (\<forall>i. i \<noteq> k \<longrightarrow> nodes fs' ! i = nodes fs ! i) \<and> open_files fs' = open_files fs \<and>
    (\<forall>i. live fs' i \<longrightarrow> fs_parent fs' i \<noteq> k) \<and> \<not> fs_node_is_open fs' k"
proof -
  from runtime_fs_remove_result [OF rem] obtain k where k: "fs_resolve_path fs path = Some k"
      "\<not> fs_node_is_open fs k"
      "nd_type (nodes fs ! k) = RUNTIME_FILE_TYPE_DIRECTORY \<longrightarrow> \<not> fs_node_has_children fs k"
      and fs': "fs' = upd_node k fs_clear_node fs"
    by auto
  have live: "live fs k" "k \<noteq> 0"
    using fs_resolve_path_live [OF k(1) fs_inv_shape [OF inv] fs_inv_root [OF inv]] k no_root by auto
  have len: "length (nodes fs) = RUNTIME_FS_MAX_NODES" using fs_inv_shape [OF inv] by (simp add: fs_shape_def)
  have inv': "fs_inv fs'" by (rule fs_inv_remove_op [OF inv no_root rem])
  have agree: "agree_but k fs fs'" by (simp add: fs' agree_but_upd)
  have dead: "\<not> live fs' k" using live len by (simp add: fs' live_def)
  have none: "fs_resolve_path fs' path = None"
    by (rule fs_resolves_to_none [OF inv inv' agree k(1) live(2)]) (use dead in simp)
  have "fs_parent fs' i \<noteq> k" if "live fs' i" for i
    using that dead agree fs_leaf [OF inv _ _ live k(3), of i] agree_but_live [OF agree, of i]
    by (cases "i = k") (auto simp: agree_but_def fs_parent_def)
  with k(1,2) live none dead agree show ?thesis
    by (intro exI [of _ k]) (simp add: fs' agree_but_def fs_node_is_open_def)
qed

theorem remove_removes_witness:
  "fs_resolve_path (snd (runtime_fs_remove (snd (runtime_fs_mkdir runtime_fs_init 1 (Some ''/a'') 493)) 1
     (Some ''/a''))) (Some ''/a'') = None"
proof -
  let ?fs = "snd (runtime_fs_mkdir runtime_fs_init 1 (Some ''/a'') 493)"
  have "fst (runtime_fs_remove ?fs 1 (Some ''/a'')) = 0" by code_simp
  then have rem: "runtime_fs_remove ?fs 1 (Some ''/a'') = (0, snd (runtime_fs_remove ?fs 1 (Some ''/a'')))"
    by (simp add: prod_eq_iff)
  have "fs_resolve_path ?fs (Some ''/a'') \<noteq> Some 0" by code_simp
  from remove_removes [OF fs_inv_mkdir [OF fs_inv_init] this rem] show ?thesis by blast
qed

text \<open>A successful \<open>runtime_fs_rename\<close> to another path moves one node: the new path, which
  resolved to nothing, resolves to the node the old path resolved to, the old path resolves to
  nothing, the node keeps its type, owner, mode and content, and nothing else changes.\<close>

theorem rename_moves:
  assumes inv: "fs_inv fs" and no_root: "fs_resolve_path fs (Some old) \<noteq> Some 0"
    and differ: "cstr old \<noteq> cstr new"
    and ren: "runtime_fs_rename fs pid (Some old) (Some new) = Some (0, fs')"
  shows "\<exists>k. fs_resolve_path fs (Some old) = Some k \<and> fs_resolve_path fs (Some new) = None \<and>
    fs_resolve_path fs' (Some new) = Some k \<and> fs_resolve_path fs' (Some old) = None \<and>
    (\<exists>p name. nodes fs' ! k = (nodes fs ! k)\<lparr>nd_parent_index := p, nd_name := name\<rparr>) \<and>
    (\<forall>i. i \<noteq> k \<longrightarrow> nodes fs' ! i = nodes fs ! i) \<and> open_files fs' = open_files fs"
proof -
  from runtime_fs_rename_result [OF ren] differ obtain k leaf p where
      k: "fs_resolve_path fs (Some old) = Some k" and new: "fs_resolve_path fs (Some new) = None"
      and parent: "fs_resolve_parent_path fs (Some new) = Inr (leaf, p)"
      and dir: "nd_type (nodes fs ! k) = RUNTIME_FILE_TYPE_DIRECTORY \<longrightarrow>
        fs_parent_chain_contains fs p k = Some False"
      and fs': "fs' = fs_moved k p leaf fs"
    by auto
  have live: "live fs k" "k \<noteq> 0"
    using fs_resolve_path_live [OF k fs_inv_shape [OF inv] fs_inv_root [OF inv]] k no_root by auto
  have inv': "fs_inv fs'" by (rule fs_inv_rename_op [OF inv no_root ren])
  note pp = fs_resolve_parent_path_Inr [OF parent fs_inv_shape [OF inv] fs_inv_root [OF inv]]
  note facts = fs_moved_facts [OF inv live(1) pp(2), of p, folded fs']
  have to_new: "fs_resolve_path fs' (Some new) = Some k"
    by (rule fs_resolves_to_put [OF inv inv' facts(5) parent fs_outside [OF inv pp(1) dir] facts(1) live(2)
      facts(2,3)])
  have "cstr (nd_name (nodes fs ! k)) \<noteq> leaf" if "fs_parent fs k = p"
    using that new pp(2,3) live fs_find_child_None [OF fs_inv_shape [OF inv], of p leaf] by auto
  then have "fs_resolve_path fs' (Some old) = None"
    by (intro fs_resolves_to_none [OF inv inv' facts(5) k live(2)]) (use facts(2,3) in auto)
  with k new to_new facts show ?thesis by (intro exI [of _ k]) (auto simp: agree_but_def)
qed

theorem rename_moves_witness:
  "\<exists>fs' k. runtime_fs_rename (snd (runtime_fs_mkdir runtime_fs_init 1 (Some ''/a'') 493)) 1
       (Some ''/a'') (Some ''/b'') = Some (0, fs') \<and>
     fs_resolve_path fs' (Some ''/b'') = Some k \<and> fs_resolve_path fs' (Some ''/a'') = None"
proof -
  let ?fs = "snd (runtime_fs_mkdir runtime_fs_init 1 (Some ''/a'') 493)"
  have "map_option fst (runtime_fs_rename ?fs 1 (Some ''/a'') (Some ''/b'')) = Some 0" by code_simp
  then obtain fs' where ren: "runtime_fs_rename ?fs 1 (Some ''/a'') (Some ''/b'') = Some (0, fs')" by auto
  have no_root: "fs_resolve_path ?fs (Some ''/a'') \<noteq> Some 0" by code_simp
  have "cstr ''/a'' \<noteq> cstr ''/b''" by simp
  from rename_moves [OF fs_inv_mkdir [OF fs_inv_init] no_root this ren] ren show ?thesis by blast
qed

end
