(* ===== verification/Runtime_Fs_Files.thy ===== *)
theory Runtime_Fs_Files
  imports Runtime_Fs_Ops
begin

text \<open>
  Open files: reading and writing refine the operations of a byte string with a position, at most
  one open file writes to a node, and the properties of the file system as a whole.
\<close>

section \<open>The content of a file\<close>

definition fs_content :: "runtime_fs_node \<Rightarrow> u8 list" where
  "fs_content nd = take (nd_size_bytes nd) (nd_data nd)"

text \<open>The specification: overwriting a byte string from an offset, with zeros in a gap.\<close>

definition file_write :: "u8 list \<Rightarrow> nat \<Rightarrow> u8 list \<Rightarrow> u8 list" where
  "file_write c off bs = take off (c @ replicate (off - length c) 0) @ bs @ drop (off + length bs) c"

definition file_read :: "u8 list \<Rightarrow> nat \<Rightarrow> nat \<Rightarrow> u8 list" where
  "file_read c off n = take n (drop off c)"

lemma file_read_write: "file_read (file_write c off bs) off (length bs) = bs"
  by (simp add: file_read_def file_write_def)

lemma length_file_write [simp]: "length (file_write c off bs) = max (length c) (off + length bs)"
  by (simp add: file_write_def)

lemma file_write_nth:
  assumes "j < max (length c) (off + length bs)"
  shows "file_write c off bs ! j =
    (if off \<le> j \<and> j < off + length bs then bs ! (j - off) else if length c \<le> j then 0 else c ! j)"
proof -
  have pre: "length (take off (c @ replicate (off - length c) 0)) = off" by simp
  consider "j < off" | "off \<le> j" "j < off + length bs" | "off + length bs \<le> j" "j < length c"
    using assms by linarith
  then show ?thesis
  proof cases
    case 1
    then show ?thesis by (auto simp: file_write_def nth_append)
  next
    case 2
    then show ?thesis unfolding file_write_def by (simp only: nth_append pre) auto
  next
    case 3
    then show ?thesis unfolding file_write_def by (simp only: nth_append pre) auto
  qed
qed

lemma fs_content_write_node:
  assumes "length (nd_data nd) = RUNTIME_FS_FILE_CAPACITY" and "nd_size_bytes nd \<le> RUNTIME_FS_FILE_CAPACITY"
    and "off + n \<le> RUNTIME_FS_FILE_CAPACITY" and "n \<le> length bytes"
  shows "fs_content (fs_write_node nd off bytes n) = file_write (fs_content nd) off (take n bytes)"
proof -
  have add: "u32_add off n = off + n" using assms(3) by (simp add: u32_add_def RUNTIME_FS_FILE_CAPACITY_def)
  have size: "nd_size_bytes (fs_write_node nd off bytes n) = max (nd_size_bytes nd) (off + n)"
    by (simp add: fs_write_node_size add)
  have data: "nd_data (fs_write_node nd off bytes n) ! j =
      (if off \<le> j \<and> j < off + n then bytes ! (j - off)
       else if nd_size_bytes nd \<le> j \<and> j < off then 0 else nd_data nd ! j)"
    if "j < RUNTIME_FS_FILE_CAPACITY" for j
    using that assms by (auto simp: fs_write_node_def Let_def nth_fold_update fs_zero_range_def zero_bytes_nth)
  have len: "length (nd_data (fs_write_node nd off bytes n)) = RUNTIME_FS_FILE_CAPACITY"
    using assms(1) by (simp add: fs_write_node_def Let_def)
  have lc: "length (fs_content nd) = nd_size_bytes nd" using assms by (simp add: fs_content_def)
  show ?thesis
  proof (rule nth_equalityI)
    show "length (fs_content (fs_write_node nd off bytes n)) = length (file_write (fs_content nd) off (take n bytes))"
      using assms len size lc by (simp add: fs_content_def)
    fix j
    assume "j < length (fs_content (fs_write_node nd off bytes n))"
    then have j: "j < max (nd_size_bytes nd) (off + n)" "j < RUNTIME_FS_FILE_CAPACITY"
      using len size by (simp_all add: fs_content_def)
    have "fs_content (fs_write_node nd off bytes n) ! j = nd_data (fs_write_node nd off bytes n) ! j"
      using j(1) by (simp add: fs_content_def size)
    also have "\<dots> = file_write (fs_content nd) off (take n bytes) ! j"
      using j assms(4) lc by (auto simp: data file_write_nth fs_content_def)
    finally show "fs_content (fs_write_node nd off bytes n) ! j =
        file_write (fs_content nd) off (take n bytes) ! j" .
  qed
qed

text \<open>What an open file shows: its position and the content of its node.\<close>

definition fs_file :: "runtime_fs \<Rightarrow> nat \<Rightarrow> nat \<times> u8 list" where
  "fs_file fs slot = (of_offset (open_files fs ! slot),
     fs_content (nodes fs ! of_node_index (open_files fs ! slot)))"

lemma write_node_bounds:
  assumes "fs_inv fs" and "fs_open_file_lookup fs fd = Some slot"
    and "nd_type (nodes fs ! of_node_index (open_files fs ! slot)) = RUNTIME_FILE_TYPE_REGULAR"
  shows "nd_size_bytes (nodes fs ! of_node_index (open_files fs ! slot)) \<le> RUNTIME_FS_FILE_CAPACITY"
    and "length (nd_data (nodes fs ! of_node_index (open_files fs ! slot))) = RUNTIME_FS_FILE_CAPACITY"
    and "of_node_index (open_files fs ! slot) < length (nodes fs)" and "slot < length (open_files fs)"
  using fs_open_file_lookup_Some [OF assms(1,2)] regular_size [OF assms(1) _ assms(3)] fs_inv_shape [OF assms(1)]
  by (auto simp: node_shape_def live_def fs_shape_def)

lemma write_refines_op:
  assumes inv: "fs_inv fs" and look: "fs_open_file_lookup fs fd = Some slot"
    and w: "runtime_fs_write fs fd (Some bytes) n = Some (st, fs')" "0 \<le> st"
  shows "st = int n \<and> n \<le> length bytes \<and> fs_file fs' slot = (fst (fs_file fs slot) + n,
      file_write (snd (fs_file fs slot)) (fst (fs_file fs slot)) (take n bytes)) \<and>
      fs_open_file_lookup fs' fd = Some slot \<and>
      of_flags (open_files fs' ! slot) = of_flags (open_files fs ! slot) \<and>
      nd_type (nodes fs' ! of_node_index (open_files fs' ! slot)) = RUNTIME_FILE_TYPE_REGULAR \<and>
      fst (fs_file fs slot) + n \<le> RUNTIME_FS_FILE_CAPACITY"
  using w(1)
proof (cases rule: runtime_fs_write_cases)
  case failed
  with w show ?thesis by simp
next
  case (written slot' bytes')
  have [simp]: "slot' = slot" "bytes' = bytes" using written(1,2) look by simp_all
  note b = write_node_bounds [OF inv look written(4) [simplified]]
  note c = fs_content_write_node [OF b(2,1) written(6,7) [simplified]]
  have "nd_type (fs_write_node nd off bytes n) = nd_type nd" for nd off
    using fs_write_node_skel [of nd off bytes n] by (simp add: node_skel_def)
  then show ?thesis
    using written b c look
    by (auto simp: fs_file_def fs_open_file_lookup_def nth_list_update_if split: if_splits)
qed

lemma read_refines_op:
  assumes inv: "fs_inv fs" and look: "fs_open_file_lookup fs fd = Some slot"
    and ok: "of_flags (open_files fs ! slot) AND RUNTIME_FILE_OPEN_READ \<noteq> 0"
      "nd_type (nodes fs ! of_node_index (open_files fs ! slot)) = RUNTIME_FILE_TYPE_REGULAR"
    and buf: "n \<le> length buf"
  shows "\<exists>fs' bs. bs = file_read (snd (fs_file fs slot)) (fst (fs_file fs slot)) n \<and>
    runtime_fs_read fs fd (Some buf) n = (int (length bs), fs', Some (bs @ drop (length bs) buf)) \<and>
    fs_file fs' slot = (fst (fs_file fs slot) + length bs, snd (fs_file fs slot)) \<and> nodes fs' = nodes fs"
proof -
  note b = write_node_bounds [OF inv look ok(2)]
  let ?f = "open_files fs ! slot" and ?nd = "nodes fs ! of_node_index (open_files fs ! slot)"
  let ?bs = "file_read (fs_content ?nd) (of_offset ?f) n"
  have len: "length ?bs = min n (nd_size_bytes ?nd - of_offset ?f)"
    using b by (simp add: file_read_def fs_content_def)
  have copy: "fold (\<lambda>i d. d[i := nd_data ?nd ! (of_offset ?f + i)]) [0..<length ?bs] buf = ?bs @ drop (length ?bs) buf"
  proof -
    have "map (\<lambda>i. nd_data ?nd ! (of_offset ?f + i)) [0..<length ?bs] = ?bs"
      using len b by (intro nth_equalityI) (auto simp: file_read_def fs_content_def)
    then show ?thesis using buf len by (simp add: fold_update_0 min_def)
  qed
  show ?thesis
  proof (cases "nd_size_bytes ?nd \<le> of_offset ?f")
    case True
    then have "?bs = []" using len by simp
    with True look ok show ?thesis by (simp add: runtime_fs_read_def fs_file_def)
  next
    case False
    then have "(if n < nd_size_bytes ?nd - of_offset ?f then n else nd_size_bytes ?nd - of_offset ?f) = length ?bs"
      using len by simp
    with False look ok copy b show ?thesis
      by (simp add: runtime_fs_read_def fs_file_def Let_def)
  qed
qed

text \<open>A file system in which descriptor 1 is open for reading and writing on a new file.\<close>

definition demo_fs :: runtime_fs where
  "demo_fs = fst (snd (runtime_fs_open runtime_fs_init 1 (Some ''/f'') 7 (Some 0)))"

lemma demo_fs_reachable: "fs_reachable demo_fs"
  unfolding demo_fs_def by (rule reachable_step [OF reachable_init step_open])

lemma demo_fs_inv: "fs_inv demo_fs"
  unfolding demo_fs_def by (rule fs_inv_open [OF fs_inv_init])

lemma demo_fs_facts:
  "fs_open_file_lookup demo_fs 1 = Some 0"
  "of_flags (open_files demo_fs ! 0) = 7" "of_node_index (open_files demo_fs ! 0) = 1"
  "of_offset (open_files demo_fs ! 0) = 0" "nd_type (nodes demo_fs ! 1) = RUNTIME_FILE_TYPE_REGULAR"
  "length (open_files demo_fs) = 8" "of_used (open_files demo_fs ! 0)"
  by code_simp+

lemma demo_fs_write: "\<exists>fs1. runtime_fs_write demo_fs 1 (Some [1, 2, 3]) 3 = Some (3, fs1)"
  using demo_fs_facts
  by (simp add: runtime_fs_write_def u32_add_def RUNTIME_FS_FILE_CAPACITY_def RUNTIME_FS_MAX_NODES_def)

text \<open>C10: a successful write through a descriptor returns the number of bytes, advances the position
  by it, and makes the content of the file the old content overwritten from the position, with zeros
  in the gap when the position was past the end.\<close>

theorem write_refines:
  assumes "fs_inv fs" and "fs_open_file_lookup fs fd = Some slot"
    and "runtime_fs_write fs fd (Some bytes) n = Some (st, fs')" "0 \<le> st"
  shows "st = int n \<and> fs_file fs' slot = (fst (fs_file fs slot) + n,
    file_write (snd (fs_file fs slot)) (fst (fs_file fs slot)) (take n bytes))"
  using write_refines_op [OF assms] by blast

theorem write_refines_witness:
  "\<exists>fs'. fs_file fs' 0 = (fst (fs_file demo_fs 0) + 3,
     file_write (snd (fs_file demo_fs 0)) (fst (fs_file demo_fs 0)) [1, 2, 3])"
proof -
  obtain fs1 where w: "runtime_fs_write demo_fs 1 (Some [1, 2, 3]) 3 = Some (3, fs1)"
    using demo_fs_write by blast
  have "(0 :: int) \<le> 3" by simp
  from write_refines [OF demo_fs_inv demo_fs_facts(1) w this]
  show ?thesis by auto
qed

text \<open>C11: bytes written through a descriptor open for reading and writing are read back after
  seeking to where the write began, and the rest of the reader's buffer is unchanged.\<close>

theorem write_seek_read:
  assumes inv: "fs_inv fs" and look: "fs_open_file_lookup fs fd = Some slot"
    and rd: "of_flags (open_files fs ! slot) AND RUNTIME_FILE_OPEN_READ \<noteq> 0"
    and w: "runtime_fs_write fs fd (Some bytes) n = Some (st, fs1)" "0 \<le> st" and buf: "n \<le> length buf"
  shows "\<exists>fs2 fs3. runtime_fs_seek fs1 fd (- int n) RUNTIME_FILE_SEEK_CUR = (int (fst (fs_file fs slot)), fs2) \<and>
    runtime_fs_read fs2 fd (Some buf) n = (int n, fs3, Some (take n bytes @ drop n buf))"
proof -
  note wr = write_refines_op [OF inv look w]
  have inv1: "fs_inv fs1" by (rule fs_inv_write [OF inv w(1)])
  have look1: "fs_open_file_lookup fs1 fd = Some slot" using wr by simp
  have off1: "of_offset (open_files fs1 ! slot) = fst (fs_file fs slot) + n"
    using wr by (auto simp: fs_file_def)
  let ?fs2 = "upd_open slot (\<lambda>f. f\<lparr>of_offset := fst (fs_file fs slot)\<rparr>) fs1"
  have seek: "runtime_fs_seek fs1 fd (- int n) RUNTIME_FILE_SEEK_CUR = (int (fst (fs_file fs slot)), ?fs2)"
    using look1 wr off1 by (simp add: runtime_fs_seek_def RUNTIME_FS_FILE_CAPACITY_def)
  have inv2: "fs_inv ?fs2" using fs_inv_seek [OF inv1, of fd "- int n" RUNTIME_FILE_SEEK_CUR] seek by simp
  note b = write_node_bounds [OF inv1 look1]
  have look2: "fs_open_file_lookup ?fs2 fd = Some slot"
    using look1 b(4) wr by (auto simp: fs_open_file_lookup_def nth_list_update_if split: if_splits)
  have file2: "fs_file ?fs2 slot = (fst (fs_file fs slot),
      file_write (snd (fs_file fs slot)) (fst (fs_file fs slot)) (take n bytes))"
    using b(4) wr by (auto simp: fs_file_def)
  have "length (take n bytes) = n" using wr by simp
  then have "file_read (snd (fs_file ?fs2 slot)) (fst (fs_file ?fs2 slot)) n = take n bytes"
    using file_read_write [of _ _ "take n bytes"] file2 by (metis fst_conv snd_conv)
  with read_refines_op [OF inv2 look2 _ _ buf] rd b(4) wr seek show ?thesis by (auto simp: min_absorb2)
qed

theorem write_seek_read_witness:
  "\<exists>fs1 fs2 fs3. runtime_fs_write demo_fs 1 (Some [1, 2, 3]) 3 = Some (3, fs1) \<and>
     runtime_fs_seek fs1 1 (- 3) RUNTIME_FILE_SEEK_CUR = (0, fs2) \<and>
     runtime_fs_read fs2 1 (Some [0, 0, 0, 9]) 3 = (3, fs3, Some [1, 2, 3, 9])"
proof -
  obtain fs1 where w: "runtime_fs_write demo_fs 1 (Some [1, 2, 3]) 3 = Some (3, fs1)"
    using demo_fs_write by blast
  have rd: "of_flags (open_files demo_fs ! 0) AND RUNTIME_FILE_OPEN_READ \<noteq> 0"
    by (simp add: demo_fs_facts)
  have "fst (fs_file demo_fs 0) = 0" by (simp add: fs_file_def demo_fs_facts)
  with write_seek_read [OF demo_fs_inv demo_fs_facts(1) rd w,
      of "[0, 0, 0, 9]"] w
  show ?thesis by auto
qed

section \<open>One writer per file\<close>

definition writes_to :: "runtime_fs_open_file \<Rightarrow> nat \<Rightarrow> bool" where
  "writes_to f k \<longleftrightarrow> of_used f \<and> of_node_index f = k \<and> of_flags f AND RUNTIME_FILE_OPEN_WRITE \<noteq> 0"

definition single_writer :: "runtime_fs \<Rightarrow> bool" where
  "single_writer fs \<longleftrightarrow> (\<forall>i j k. i < length (open_files fs) \<longrightarrow> j < length (open_files fs) \<longrightarrow>
     writes_to (open_files fs ! i) k \<longrightarrow> writes_to (open_files fs ! j) k \<longrightarrow> i = j)"

lemma single_writer_upd:
  assumes "single_writer fs" and "\<And>k. writes_to (f (open_files fs ! i)) k \<Longrightarrow> writes_to (open_files fs ! i) k"
  shows "single_writer (upd_open i f fs)"
  using assms unfolding single_writer_def by (auto simp: nth_list_update_if)

lemma single_writer_new:
  assumes "single_writer fs" and "\<And>j k. j < length (open_files fs) \<Longrightarrow>
      writes_to (f (open_files fs ! i)) k \<Longrightarrow> \<not> writes_to (open_files fs ! j) k"
  shows "single_writer (upd_open i f fs)"
  using assms unfolding single_writer_def by (auto simp: nth_list_update_if)

lemma single_writer_cong: "open_files fs' = open_files fs \<Longrightarrow> single_writer fs' = single_writer fs"
  by (simp add: single_writer_def)

lemma fs_node_has_open_writer_iff:
  "fs_node_has_open_writer fs k \<longleftrightarrow> (\<exists>j<length (open_files fs). writes_to (open_files fs ! j) k)"
  by (auto simp: fs_node_has_open_writer_def list_ex_length writes_to_def)

lemma fs_open_lookup_open_files:
  "fs_open_lookup fs pid path flags = Inr (fs1, k) \<Longrightarrow> open_files fs1 = open_files fs"
  by (auto simp: fs_open_lookup_def dest!: fs_alloc_node_result
      split: option.splits sum.splits prod.splits if_splits)

lemma fs_open_check_writer:
  assumes "fs_open_check fs pid k flags = (st, fs')"
  shows "open_files fs' = open_files fs"
    and "st = 0 \<Longrightarrow> flags AND RUNTIME_FILE_OPEN_WRITE \<noteq> 0 \<Longrightarrow> \<not> fs_node_has_open_writer fs' k"
  using assms by (auto simp: fs_open_check_def Let_def split: if_splits)

lemma single_writer_slot:
  assumes "single_writer fs" and "flags AND RUNTIME_FILE_OPEN_WRITE \<noteq> 0 \<Longrightarrow> \<not> fs_node_has_open_writer fs k"
  shows "single_writer (snd (fs_open_slot_alloc fs k flags))"
  using assms
  by (auto simp: fs_open_slot_alloc_def fs_node_has_open_writer_iff writes_to_def intro!: single_writer_new
      split: option.splits)

lemma single_writer_open:
  assumes sw: "single_writer fs"
  shows "single_writer (fst (snd (runtime_fs_open fs pid path flags obj)))"
proof (cases "path = None \<or> obj = None \<or> cchar (the path) 0 \<noteq> CHR ''/'' \<or>
    (\<exists>e. fs_open_lookup fs pid path flags = Inl e)")
  case True
  then show ?thesis using sw by (auto simp: runtime_fs_open_def)
next
  case False
  then obtain fs1 k where look: "fs_open_lookup fs pid path flags = Inr (fs1, k)"
    by (cases "fs_open_lookup fs pid path flags") auto
  obtain st fs2 where chk: "fs_open_check fs1 pid k flags = (st, fs2)" by fastforce
  have sw2: "single_writer fs2"
    using sw fs_open_lookup_open_files [OF look] fs_open_check_writer(1) [OF chk] single_writer_cong by metis
  obtain slot fs3 where slot: "fs_open_slot_alloc fs2 k flags = (slot, fs3)" by fastforce
  have "single_writer fs3" if "st = 0"
    using single_writer_slot [OF sw2, of flags k] fs_open_check_writer(2) [OF chk that] slot by auto
  with False look chk slot sw2 show ?thesis
    by (auto simp: runtime_fs_open_def writes_to_def intro!: single_writer_upd)
qed

lemma tree_ops_open_files:
  "open_files (snd (runtime_fs_mkdir fs pid path m)) = open_files fs"
  "open_files (snd (runtime_fs_remove fs pid path)) = open_files fs"
  "runtime_fs_rename fs pid old new = Some (st, fs') \<Longrightarrow> open_files fs' = open_files fs"
proof -
  obtain st1 fs1 where 1: "runtime_fs_mkdir fs pid path m = (st1, fs1)" by fastforce
  show "open_files (snd (runtime_fs_mkdir fs pid path m)) = open_files fs"
    using runtime_fs_mkdir_result [OF 1] 1 by (auto simp: fs_made_def)
  obtain st2 fs2 where 2: "runtime_fs_remove fs pid path = (st2, fs2)" by fastforce
  show "open_files (snd (runtime_fs_remove fs pid path)) = open_files fs"
    using runtime_fs_remove_result [OF 2] 2 by auto
  show "open_files fs' = open_files fs" if "runtime_fs_rename fs pid old new = Some (st, fs')"
    using runtime_fs_rename_result [OF that] by (auto simp: fs_moved_def)
qed

lemma single_writer_step: "fs_step fs fs' \<Longrightarrow> single_writer fs \<Longrightarrow> single_writer fs'"
proof (induction rule: fs_step.induct)
  case (step_mkdir fs pid path mode)
  then show ?case using single_writer_cong [OF tree_ops_open_files(1)] by blast
next
  case (step_open fs pid path flags obj)
  then show ?case by (rule single_writer_open)
next
  case (step_read fs fd buffer n)
  then show ?case
    by (auto simp: runtime_fs_read_def Let_def writes_to_def intro!: single_writer_upd split: option.splits)
next
  case (step_write fs fd buffer n st fs')
  from step_write(1) show ?case
  proof (cases rule: runtime_fs_write_cases)
    case (written slot bytes)
    have "single_writer (upd_node k f fs)" for k f
      using step_write(2) single_writer_cong [of "upd_node k f fs" fs] by simp
    then show ?thesis unfolding written(8) by (intro single_writer_upd) (auto simp: writes_to_def)
  qed (use step_write in simp)
next
  case (step_close fs fd)
  then show ?case
    by (auto simp: runtime_fs_close_def writes_to_def intro!: single_writer_upd split: option.splits)
next
  case (step_readdir fs fd entry)
  then show ?case
    by (auto simp: runtime_fs_readdir_def Let_def writes_to_def intro!: single_writer_upd split: option.splits)
next
  case (step_seek fs fd off whence)
  then show ?case
    by (auto simp: runtime_fs_seek_def Let_def writes_to_def intro!: single_writer_upd split: option.splits)
next
  case (step_remove fs pid path)
  then show ?case using single_writer_cong [OF tree_ops_open_files(2)] by blast
next
  case (step_rename fs pid old new st fs')
  then show ?case using single_writer_cong [OF tree_ops_open_files(3)] by blast
qed

lemma single_writer_reachable: "fs_reachable fs \<Longrightarrow> single_writer fs"
proof (induction rule: fs_reachable.induct)
  case reachable_init
  have "\<not> of_used (open_files runtime_fs_init ! i)" if "i < length (open_files runtime_fs_init)" for i
    using that by (simp add: runtime_fs_init_def zero_open_file_def)
  then show ?case by (auto simp: single_writer_def writes_to_def)
qed (rule single_writer_step)

section \<open>Properties of the whole file system\<close>

text \<open>C8: in every state that the operations of the file system reach from \<open>runtime_fs_init\<close>, with any
  arguments, \<open>runtime_fs_validate\<close> succeeds when the root entry is in order and returns \<open>EINVAL\<close>
  otherwise; and the only step that takes the root entry out of order is a remove or rename of a path
  that resolves to the root without being the path of one slash (such as two slashes).\<close>

theorem fs_reachable_validate:
  assumes "fs_reachable fs"
  shows "runtime_fs_validate fs =
      Some (if fs_root_ok fs then RUNTIME_SYSCALL_STATUS_OK else RUNTIME_SYSCALL_STATUS_EINVAL) \<and>
    (\<forall>fs'. fs_root_ok fs \<longrightarrow> fs_step fs fs' \<longrightarrow> fs_root_ok fs' \<or> root_alias_call fs fs')"
proof (intro conjI allI impI)
  show "runtime_fs_validate fs =
      Some (if fs_root_ok fs then RUNTIME_SYSCALL_STATUS_OK else RUNTIME_SYSCALL_STATUS_EINVAL)"
  proof (cases "fs_root_ok fs")
    case True
    then have "fs_consistent fs" using fs_inv_reachable [OF assms] by (simp add: fs_inv_def)
    with True show ?thesis by (simp add: runtime_fs_validate_iff)
  qed (simp add: runtime_fs_validate_def)
  fix fs'
  assume "fs_root_ok fs" "fs_step fs fs'"
  then show "fs_root_ok fs' \<or> root_alias_call fs fs'"
    using fs_inv_step fs_inv_reachable [OF assms] fs_inv_root by blast
qed

theorem fs_reachable_validate_witness:
  "runtime_fs_validate (snd (runtime_fs_mkdir runtime_fs_init 1 (Some ''/a'') 493)) = Some 0 \<and>
   root_alias_call runtime_fs_init (snd (runtime_fs_remove runtime_fs_init 0 (Some ''//'')))"
proof -
  have "fs_root_ok (snd (runtime_fs_mkdir runtime_fs_init 1 (Some ''/a'') 493))" by code_simp
  moreover have "fs_root_ok runtime_fs_init" by code_simp
  moreover have "\<not> fs_root_ok (snd (runtime_fs_remove runtime_fs_init 0 (Some ''//'')))" by code_simp
  ultimately show ?thesis
    using fs_reachable_validate [OF reachable_step [OF reachable_init step_mkdir [of _ 1 "Some ''/a''" 493]]]
      fs_reachable_validate [OF reachable_init] step_remove [of runtime_fs_init 0 "Some ''//''"]
    by auto
qed

text \<open>C9: \<open>runtime_fs_validate\<close> returns success exactly for the consistent file systems: the root is
  a directory, every used node has a name and sits in a used directory, the walk up its parents
  ends at the root, no two nodes of a directory share a name, and open files refer to used nodes.\<close>

theorem validate_decides_consistency:
  "runtime_fs_validate fs = Some RUNTIME_SYSCALL_STATUS_OK \<longleftrightarrow> fs_consistent fs"
  by (rule runtime_fs_validate_iff)

text \<open>C12: on a consistent file system \<open>runtime_fs_rename\<close> returns: its walk up the parents of the
  new place ends.\<close>

theorem rename_terminates: "fs_inv fs \<Longrightarrow> \<exists>st fs'. runtime_fs_rename fs pid old new = Some (st, fs')"
  using rename_returns [of fs pid old new] by auto

theorem rename_terminates_witness:
  "\<exists>st fs'. runtime_fs_rename runtime_fs_init 1 (Some ''/a'') (Some ''/b'') = Some (st, fs')"
  by (rule rename_terminates [OF fs_inv_init])

text \<open>C13: in every reachable state two different open files do not both write to one node.\<close>

theorem fs_reachable_single_writer:
  assumes "fs_reachable fs" and "i < length (open_files fs)" "j < length (open_files fs)" "i \<noteq> j"
    and "of_used (open_files fs ! i)" "of_used (open_files fs ! j)"
    and "of_node_index (open_files fs ! i) = of_node_index (open_files fs ! j)"
    and "of_flags (open_files fs ! i) AND RUNTIME_FILE_OPEN_WRITE \<noteq> 0"
  shows "of_flags (open_files fs ! j) AND RUNTIME_FILE_OPEN_WRITE = 0"
  using single_writer_reachable [OF assms(1)] assms(2-) unfolding single_writer_def writes_to_def by blast

theorem fs_reachable_single_writer_witness:
  "\<exists>fs :: runtime_fs. of_used (open_files fs ! 0) \<and> of_used (open_files fs ! 1) \<and>
     of_node_index (open_files fs ! 0) = of_node_index (open_files fs ! 1) \<and>
     of_flags (open_files fs ! 0) AND RUNTIME_FILE_OPEN_WRITE \<noteq> 0 \<and>
     of_flags (open_files fs ! 1) AND RUNTIME_FILE_OPEN_WRITE = 0"
proof -
  let ?fs = "fst (snd (runtime_fs_open demo_fs 1 (Some ''/f'') 1 (Some 0)))"
  have facts: "of_used (open_files ?fs ! 0)" "of_used (open_files ?fs ! 1)"
      "of_node_index (open_files ?fs ! 0) = of_node_index (open_files ?fs ! 1)"
      "of_flags (open_files ?fs ! 0) AND RUNTIME_FILE_OPEN_WRITE \<noteq> 0"
      "0 < length (open_files ?fs)" "1 < length (open_files ?fs)"
    by code_simp+
  have "fs_reachable ?fs" by (rule reachable_step [OF demo_fs_reachable step_open])
  moreover have "(0 :: nat) \<noteq> 1" by simp
  ultimately have "of_flags (open_files ?fs ! 1) AND RUNTIME_FILE_OPEN_WRITE = 0"
    using facts by (intro fs_reachable_single_writer [of ?fs 0 1])
  with facts(1-4) show ?thesis by - (rule exI [of _ ?fs], intro conjI)
qed

text \<open>C14: on a consistent file system, a write through any descriptor of a number of bytes that the
  caller's buffer holds, and that does not carry the position out of the 32-bit range, reads and
  stores inside the node array, the data of the node and the buffer; and it never changes the data of
  another node.\<close>

theorem write_in_bounds:
  assumes inv: "fs_inv fs" and n: "n \<le> length bytes" and fits: "\<And>slot. fs_open_file_lookup fs fd = Some slot \<Longrightarrow>
    of_offset (open_files fs ! slot) + n < 2 ^ 32"
  shows "\<exists>st fs'. runtime_fs_write fs fd (Some bytes) n = Some (st, fs') \<and>
    (\<forall>k. fs_open_file_lookup fs fd \<noteq> None \<longrightarrow>
      k \<noteq> of_node_index (open_files fs ! the (fs_open_file_lookup fs fd)) \<longrightarrow> nodes fs' ! k = nodes fs ! k)"
proof -
  have "of_node_index (open_files fs ! slot) < RUNTIME_FS_MAX_NODES" if "fs_open_file_lookup fs fd = Some slot" for slot
    using fs_open_file_lookup_Some(4) [OF inv that] by (simp add: live_def)
  with n fits obtain st fs' where w: "runtime_fs_write fs fd (Some bytes) n = Some (st, fs')"
    by (fastforce simp: runtime_fs_write_def Let_def u32_add_def split: option.splits)
  from runtime_fs_write_result [OF w] have "nodes fs' ! k = nodes fs ! k"
    if "fs_open_file_lookup fs fd \<noteq> None" "k \<noteq> of_node_index (open_files fs ! the (fs_open_file_lookup fs fd))" for k
    using that by auto
  with w show ?thesis by blast
qed

theorem write_in_bounds_witness:
  "\<exists>st fs'. runtime_fs_write demo_fs 1 (Some [1, 2, 3]) 3 = Some (st, fs') \<and> nodes fs' ! 0 = nodes demo_fs ! 0"
proof -
  have "fs_open_file_lookup demo_fs 1 \<noteq> None" "0 \<noteq> of_node_index (open_files demo_fs ! the (fs_open_file_lookup demo_fs 1))"
    using demo_fs_facts by simp_all
  moreover have "(3 :: nat) \<le> length [1, 2, 3 :: u8]" by simp
  ultimately show ?thesis
    using write_in_bounds [OF demo_fs_inv, of 3 "[1, 2, 3]" 1] demo_fs_facts by fastforce
qed

section \<open>Behaviours that the code does not mean to have\<close>

text \<open>The end offset of a write is a 32-bit sum: when it wraps, the capacity check passes and the
  copy loop stores outside the node.\<close>

theorem write_wraps_out_of_bounds:
  assumes "fs_open_file_lookup fs fd = Some slot"
    and "of_flags (open_files fs ! slot) AND RUNTIME_FILE_OPEN_WRITE \<noteq> 0"
    and "nd_type (nodes fs ! of_node_index (open_files fs ! slot)) = RUNTIME_FILE_TYPE_REGULAR"
    and "of_node_index (open_files fs ! slot) < RUNTIME_FS_MAX_NODES"
    and "of_offset (open_files fs ! slot) = 1" and "n = 2 ^ 32 - 1"
  shows "runtime_fs_write fs fd (Some bytes) n = None"
  using assms by (simp add: runtime_fs_write_def u32_add_def RUNTIME_FS_FILE_CAPACITY_def)

text \<open>\<open>fs_path_is_root\<close> does not recognise a path of two slashes: the root of an empty file system
  can be removed, and validation then fails.\<close>

theorem remove_clears_root:
  "fst (runtime_fs_remove runtime_fs_init 0 (Some ''//'')) = RUNTIME_SYSCALL_STATUS_OK"
  "runtime_fs_validate (snd (runtime_fs_remove runtime_fs_init 0 (Some ''//''))) =
     Some RUNTIME_SYSCALL_STATUS_EINVAL"
  by code_simp+

text \<open>An open that is refused because another process owns the file has already truncated it.\<close>

theorem open_truncates_before_access_check:
  assumes "nd_type (nodes fs ! k) = RUNTIME_FILE_TYPE_REGULAR" and "nd_mode (nodes fs ! k) = 420"
    and "\<not> fs_node_owner_allows (fs_truncate_node (nodes fs ! k)) pid" and "k < length (nodes fs)"
  shows "fs_open_check fs pid k RUNTIME_FILE_OPEN_TRUNCATE =
    (RUNTIME_SYSCALL_STATUS_EACCES, upd_node k fs_truncate_node fs)"
  using assms by (simp add: fs_open_check_def)

end
