(* ===== verification/Process_Core.thy ===== *)
theory Process_Core
  imports Tensor_Prelude
begin

text \<open>
  The process table of \<open>kernel/process_core.c\<close> and the spawn policy of
  \<open>kernel/runtime_policy.c\<close>. A table is the list of its \<open>capacity\<close> slots; an index result of
  \<open>UINT32_MAX\<close> is \<open>None\<close>. The lemmas give the exact slots that every wake-up touches, the
  round-robin order of the searches and the snapshot; the locale \<open>table_wake\<close> states what every
  wake-up operation promises to the scheduler and is interpreted on the four of them.
\<close>

section \<open>Process records (include/runtime.h, include/process_model.h)\<close>

datatype process_state =
    PROCESS_STATE_UNUSED
  | PROCESS_STATE_READY
  | PROCESS_STATE_RUNNING
  | PROCESS_STATE_BLOCKED
  | PROCESS_STATE_ZOMBIE

datatype process_wait_reason =
    PROCESS_WAIT_NONE
  | PROCESS_WAIT_SLEEP_TICKS
  | PROCESS_WAIT_MANUAL
  | PROCESS_WAIT_CHILD
  | PROCESS_WAIT_EVENT_CHANNEL

type_synonym process_id = u32

abbreviation (input) RUNTIME_PROCESS_ROLE_NONE :: u32 where "RUNTIME_PROCESS_ROLE_NONE \<equiv> 0"
abbreviation (input) RUNTIME_PROCESS_ROLE_SYSTEM :: u32 where "RUNTIME_PROCESS_ROLE_SYSTEM \<equiv> 1"
abbreviation (input) RUNTIME_PROCESS_ROLE_FOREGROUND_APP :: u32 where "RUNTIME_PROCESS_ROLE_FOREGROUND_APP \<equiv> 2"
abbreviation (input) RUNTIME_PROCESS_ROLE_BACKGROUND_APP :: u32 where "RUNTIME_PROCESS_ROLE_BACKGROUND_APP \<equiv> 3"
abbreviation (input) RUNTIME_PROCESS_ROLE_LIVE_ACTIVITY :: u32 where "RUNTIME_PROCESS_ROLE_LIVE_ACTIVITY \<equiv> 4"

record process_runtime_state =
  ps_pid :: process_id
  ps_parent_pid :: process_id
  ps_name :: "string ptr"
  ps_role :: u32
  ps_state :: process_state
  ps_exit_code :: int
  ps_switch_count :: u32
  ps_yield_count :: u32
  ps_wake_tick :: u64
  ps_wait_target_pid :: process_id
  ps_wait_reason :: process_wait_reason
  ps_wait_channel :: u32

record process_info =
  pi_pid :: process_id
  pi_parent_pid :: process_id
  pi_name :: "string ptr"
  pi_role :: u32
  pi_state :: process_state
  pi_exit_code :: int
  pi_switch_count :: u32
  pi_yield_count :: u32
  pi_wake_tick :: u64
  pi_wait_reason :: process_wait_reason
  pi_wait_channel :: u32

type_synonym process_table = "process_runtime_state list"

section \<open>Operations (kernel/process_core.c)\<close>

definition process_core_find_free_slot :: "process_table \<Rightarrow> nat option" where
  "process_core_find_free_slot ps = first_index (\<lambda>p. ps_state p = PROCESS_STATE_UNUSED) ps"

definition process_core_find_index_by_pid :: "process_table \<Rightarrow> process_id \<Rightarrow> nat option" where
  "process_core_find_index_by_pid ps pid =
     (if pid = 0 then None
      else first_index (\<lambda>p. ps_state p \<noteq> PROCESS_STATE_UNUSED \<and> ps_pid p = pid) ps)"

text \<open>\<open>current_index == UINT32_MAX\<close>, no current process, is \<open>None\<close>.\<close>

definition cyclic_start :: "nat option \<Rightarrow> nat" where
  "cyclic_start current_index = (case current_index of None \<Rightarrow> 0 | Some i \<Rightarrow> Suc i)"

definition process_core_find_next_runnable :: "process_table \<Rightarrow> nat option \<Rightarrow> nat option" where
  "process_core_find_next_runnable ps current_index =
     first_index_cyclic (\<lambda>p. ps_state p = PROCESS_STATE_READY) ps (cyclic_start current_index)"

definition process_core_count_blocked_sleepers :: "process_table \<Rightarrow> nat" where
  "process_core_count_blocked_sleepers ps =
     length (filter (\<lambda>p. ps_state p = PROCESS_STATE_BLOCKED \<and>
       ps_wait_reason p = PROCESS_WAIT_SLEEP_TICKS) ps)"

definition process_core_reset_slot :: "process_runtime_state \<Rightarrow> process_runtime_state" where
  "process_core_reset_slot p = p\<lparr>
     ps_pid := 0,
     ps_parent_pid := 0,
     ps_name := None,
     ps_role := RUNTIME_PROCESS_ROLE_NONE,
     ps_state := PROCESS_STATE_UNUSED,
     ps_exit_code := 0,
     ps_switch_count := 0,
     ps_yield_count := 0,
     ps_wake_tick := 0,
     ps_wait_target_pid := 0,
     ps_wait_reason := PROCESS_WAIT_NONE,
     ps_wait_channel := 0\<rparr>"

definition process_core_make_ready :: "process_runtime_state \<Rightarrow> process_runtime_state" where
  "process_core_make_ready p =
     (if ps_state p = PROCESS_STATE_BLOCKED
      then p\<lparr>ps_state := PROCESS_STATE_READY, ps_wake_tick := 0, ps_wait_target_pid := 0,
             ps_wait_reason := PROCESS_WAIT_NONE, ps_wait_channel := 0\<rparr>
      else p)"

definition process_core_block ::
  "process_runtime_state \<Rightarrow> process_wait_reason \<Rightarrow> u32 \<Rightarrow> u64 \<Rightarrow> process_id \<Rightarrow> process_runtime_state"
where
  "process_core_block p wait_reason wait_channel wake_tick wait_target_pid =
     p\<lparr>ps_state := PROCESS_STATE_BLOCKED, ps_wait_reason := wait_reason,
       ps_wait_channel := wait_channel, ps_wake_tick := wake_tick,
       ps_wait_target_pid := wait_target_pid\<rparr>"

definition process_core_is_child_of :: "process_id \<Rightarrow> process_runtime_state \<Rightarrow> bool" where
  "process_core_is_child_of parent_pid p \<longleftrightarrow> parent_pid \<noteq> 0 \<and> ps_parent_pid p = parent_pid"

definition process_core_find_waitable_child ::
  "process_table \<Rightarrow> process_id \<Rightarrow> process_id \<Rightarrow> nat option" where
  "process_core_find_waitable_child ps parent_pid target_pid =
     first_index (\<lambda>p. ps_state p \<noteq> PROCESS_STATE_UNUSED \<and> process_core_is_child_of parent_pid p \<and>
       \<not> (target_pid \<noteq> 0 \<and> ps_pid p \<noteq> target_pid) \<and> ps_state p = PROCESS_STATE_ZOMBIE) ps"

definition process_core_has_child :: "process_table \<Rightarrow> process_id \<Rightarrow> process_id \<Rightarrow> bool" where
  "process_core_has_child ps parent_pid target_pid \<longleftrightarrow>
     list_ex (\<lambda>p. ps_state p \<noteq> PROCESS_STATE_UNUSED \<and> process_core_is_child_of parent_pid p \<and>
       (target_pid = 0 \<or> ps_pid p = target_pid)) ps"

definition waits_for_child :: "process_id \<Rightarrow> process_runtime_state \<Rightarrow> bool" where
  "waits_for_child child_pid p \<longleftrightarrow>
     \<not> (ps_state p \<noteq> PROCESS_STATE_BLOCKED \<or> ps_wait_reason p \<noteq> PROCESS_WAIT_CHILD) \<and>
     (ps_wait_target_pid p = 0 \<or> ps_wait_target_pid p = child_pid)"

definition process_core_wake_waiting_parent ::
  "process_table \<Rightarrow> process_id \<Rightarrow> process_table \<times> nat" where
  "process_core_wake_waiting_parent ps child_pid =
     update_where (waits_for_child child_pid) process_core_make_ready ps"

definition sleeper_due :: "u64 \<Rightarrow> process_runtime_state \<Rightarrow> bool" where
  "sleeper_due tick_count p \<longleftrightarrow> ps_state p = PROCESS_STATE_BLOCKED \<and>
     ps_wait_reason p = PROCESS_WAIT_SLEEP_TICKS \<and> ps_wake_tick p \<le> tick_count"

definition process_core_wake_sleepers :: "process_table \<Rightarrow> u64 \<Rightarrow> process_table \<times> nat" where
  "process_core_wake_sleepers ps tick_count =
     update_where (sleeper_due tick_count) process_core_make_ready ps"

definition waits_on_channel :: "u32 \<Rightarrow> process_runtime_state \<Rightarrow> bool" where
  "waits_on_channel channel p \<longleftrightarrow> ps_state p = PROCESS_STATE_BLOCKED \<and>
     ps_wait_reason p = PROCESS_WAIT_EVENT_CHANNEL \<and> ps_wait_channel p = channel"

definition process_core_wake_channel :: "process_table \<Rightarrow> u32 \<Rightarrow> process_table \<times> nat" where
  "process_core_wake_channel ps channel =
     update_where (waits_on_channel channel) process_core_make_ready ps"

definition process_core_wake_first_channel ::
  "process_table \<Rightarrow> u32 \<Rightarrow> nat option \<Rightarrow> process_table \<times> nat" where
  "process_core_wake_first_channel ps channel current_index =
     (if length ps = 0 then (ps, 0)
      else case first_index_cyclic (waits_on_channel channel) ps (cyclic_start current_index) of
        None \<Rightarrow> (ps, 0)
      | Some i \<Rightarrow> (ps[i := process_core_make_ready (ps ! i)], 1))"

definition process_info_of :: "process_runtime_state \<Rightarrow> process_info" where
  "process_info_of p = \<lparr>
     pi_pid = ps_pid p,
     pi_parent_pid = ps_parent_pid p,
     pi_name = ps_name p,
     pi_role = ps_role p,
     pi_state = ps_state p,
     pi_exit_code = ps_exit_code p,
     pi_switch_count = ps_switch_count p,
     pi_yield_count = ps_yield_count p,
     pi_wake_tick = ps_wake_tick p,
     pi_wait_reason = ps_wait_reason p,
     pi_wait_channel = ps_wait_channel p\<rparr>"

text \<open>
  One iteration of the snapshot loop: \<open>written\<close> counts every used slot, and a slot is copied only
  while the buffer has room.
\<close>

definition snapshot_step ::
  "nat \<Rightarrow> process_runtime_state \<Rightarrow> process_info list ptr \<times> nat \<Rightarrow> process_info list ptr \<times> nat"
where
  "snapshot_step buffer_capacity p st = (case st of (buffer, written) \<Rightarrow>
     if ps_state p = PROCESS_STATE_UNUSED then (buffer, written)
     else ((case buffer of
              None \<Rightarrow> None
            | Some b \<Rightarrow> Some (if written < buffer_capacity then b[written := process_info_of p] else b)),
           Suc written))"

definition process_core_snapshot ::
  "process_table \<Rightarrow> process_info list ptr \<Rightarrow> nat \<Rightarrow> process_info list ptr \<times> nat" where
  "process_core_snapshot ps buffer buffer_capacity =
     fold (snapshot_step buffer_capacity) ps (buffer, 0)"

section \<open>Spawn policy (kernel/runtime_policy.c)\<close>

text \<open>
  The build defines exactly one of \<open>CONFIG_RUNTIME_SINGLE_FOREGROUND\<close> and
  \<open>CONFIG_RUNTIME_MULTIPROCESS\<close>; the first is the argument \<open>single_foreground\<close>.
\<close>

definition role_active :: "u32 \<Rightarrow> process_runtime_state \<Rightarrow> bool" where
  "role_active role p \<longleftrightarrow>
     \<not> (ps_state p = PROCESS_STATE_UNUSED \<or> ps_state p = PROCESS_STATE_ZOMBIE) \<and> ps_role p = role"

definition runtime_policy_can_spawn :: "bool \<Rightarrow> process_table \<Rightarrow> u32 \<Rightarrow> bool" where
  "runtime_policy_can_spawn single_foreground ps role =
     (if single_foreground
      then (if role \<noteq> RUNTIME_PROCESS_ROLE_FOREGROUND_APP then True
            else \<not> list_ex (role_active RUNTIME_PROCESS_ROLE_FOREGROUND_APP) ps)
      else True)"

definition runtime_policy_count_role :: "process_table \<Rightarrow> u32 \<Rightarrow> nat" where
  "runtime_policy_count_role ps role = length (filter (role_active role) ps)"

definition runtime_policy_mode_name :: "bool \<Rightarrow> string" where
  "runtime_policy_mode_name single_foreground =
     (if single_foreground then ''single_foreground'' else ''multiprocess'')"

definition scheduler_mode_name :: "bool \<Rightarrow> string" where
  "scheduler_mode_name cooperative = (if cooperative then ''cooperative'' else ''preemptive'')"

definition runtime_process_role_name :: "u32 \<Rightarrow> string" where
  "runtime_process_role_name role =
     (if role = RUNTIME_PROCESS_ROLE_SYSTEM then ''system''
      else if role = RUNTIME_PROCESS_ROLE_FOREGROUND_APP then ''foreground_app''
      else if role = RUNTIME_PROCESS_ROLE_BACKGROUND_APP then ''background_app''
      else if role = RUNTIME_PROCESS_ROLE_LIVE_ACTIVITY then ''live_activity''
      else ''none'')"

section \<open>What every wake-up promises\<close>

text \<open>
  A wake-up operation with argument \<open>'a\<close> makes a chosen set of blocked slots ready and reports
  how many: \<open>sel\<close> are the candidates, and every slot either stays as it is or is a candidate that
  became ready.
\<close>

definition wake_outcome :: "process_runtime_state \<Rightarrow> process_runtime_state \<Rightarrow> bool" where
  "wake_outcome p q \<longleftrightarrow> q = p \<or> (ps_state p = PROCESS_STATE_BLOCKED \<and> q = process_core_make_ready p)"

locale table_wake =
  fixes wake :: "process_table \<Rightarrow> 'a \<Rightarrow> process_table \<times> nat"
    and sel :: "'a \<Rightarrow> process_runtime_state \<Rightarrow> bool"
  assumes sel_blocked: "sel a p \<Longrightarrow> ps_state p = PROCESS_STATE_BLOCKED"
    and wake_length: "length (fst (wake ps a)) = length ps"
    and wake_slot: "i < length ps \<Longrightarrow>
      fst (wake ps a) ! i = ps ! i \<or>
      (sel a (ps ! i) \<and> fst (wake ps a) ! i = process_core_make_ready (ps ! i))"
    and wake_count: "snd (wake ps a) = card {i. i < length ps \<and> fst (wake ps a) ! i \<noteq> ps ! i}"
begin

lemma wake_slot_outcome: "i < length ps \<Longrightarrow> wake_outcome (ps ! i) (fst (wake ps a) ! i)"
  using wake_slot [of i ps a] sel_blocked [of a "ps ! i"] by (auto simp: wake_outcome_def)

lemma wake_pid: "i < length ps \<Longrightarrow> ps_pid (fst (wake ps a) ! i) = ps_pid (ps ! i)"
  using wake_slot_outcome [of i ps a] by (auto simp: wake_outcome_def process_core_make_ready_def)

lemma wake_keeps_unblocked:
  "i < length ps \<Longrightarrow> ps_state (ps ! i) \<noteq> PROCESS_STATE_BLOCKED \<Longrightarrow> fst (wake ps a) ! i = ps ! i"
  using wake_slot_outcome [of i ps a] by (auto simp: wake_outcome_def)

lemma wake_none: "list_all (\<lambda>p. \<not> sel a p) ps \<Longrightarrow> wake ps a = (ps, 0)"
proof -
  assume none: "list_all (\<lambda>p. \<not> sel a p) ps"
  have same: "fst (wake ps a) ! i = ps ! i" if "i < length ps" for i
    using wake_slot [OF that, of a] none that by (auto simp: list_all_length)
  then have "fst (wake ps a) = ps"
    by (intro nth_equalityI) (simp_all add: wake_length)
  moreover have "snd (wake ps a) = 0"
    using same by (simp add: wake_count card_eq_0_iff)
  ultimately show ?thesis by (simp add: prod_eq_iff)
qed

end

lemma make_ready_state:
  "ps_state (process_core_make_ready p) =
     (if ps_state p = PROCESS_STATE_BLOCKED then PROCESS_STATE_READY else ps_state p)"
  by (simp add: process_core_make_ready_def)

lemma make_ready_neq: "ps_state p = PROCESS_STATE_BLOCKED \<Longrightarrow> process_core_make_ready p \<noteq> p"
  using make_ready_state [of p] by auto

lemma filter_length_card: "length (filter P xs) = card {i. i < length xs \<and> P (xs ! i)}"
  by (rule length_filter_conv_card)

lemma table_wake_update_where:
  assumes "\<And>a p. sel a p \<Longrightarrow> ps_state p = PROCESS_STATE_BLOCKED"
  shows "table_wake (\<lambda>ps a. update_where (sel a) process_core_make_ready ps) sel"
proof
  show "snd (update_where (sel a) process_core_make_ready ps) =
      card {i. i < length ps \<and> fst (update_where (sel a) process_core_make_ready ps) ! i \<noteq> ps ! i}"
    for a ps
  proof -
    have "{i. i < length ps \<and> fst (update_where (sel a) process_core_make_ready ps) ! i \<noteq> ps ! i}
        = {i. i < length ps \<and> sel a (ps ! i)}"
      using assms make_ready_neq by (auto simp: update_where_eq split: if_splits)
    then show ?thesis by (simp add: update_where_eq filter_length_card)
  qed
qed (use assms in \<open>auto simp: update_where_eq\<close>)

interpretation wake_sleepers: table_wake process_core_wake_sleepers sleeper_due
  unfolding process_core_wake_sleepers_def
  by (rule table_wake_update_where) (simp add: sleeper_due_def)

interpretation wake_all: table_wake process_core_wake_channel waits_on_channel
  unfolding process_core_wake_channel_def
  by (rule table_wake_update_where) (simp add: waits_on_channel_def)

interpretation wake_parent: table_wake process_core_wake_waiting_parent waits_for_child
  unfolding process_core_wake_waiting_parent_def
  by (rule table_wake_update_where) (simp add: waits_for_child_def)

interpretation wake_one: table_wake
  "\<lambda>ps (channel, current). process_core_wake_first_channel ps channel current"
  "\<lambda>(channel, current). waits_on_channel channel"
proof (unfold_locales, goal_cases)
  case (1 a p)
  then show ?case by (auto simp: waits_on_channel_def split: prod.splits)
next
  case (2 ps a)
  then show ?case
    by (auto simp: process_core_wake_first_channel_def split: prod.splits option.splits)
next
  case (3 i ps a)
  obtain channel current where a: "a = (channel, current)" by (cases a)
  show ?case
  proof (cases "first_index_cyclic (waits_on_channel channel) ps (cyclic_start current)")
    case None
    then show ?thesis by (simp add: a process_core_wake_first_channel_def)
  next
    case (Some j)
    then show ?thesis using 3 first_index_cyclic_SomeD [OF Some]
      by (auto simp: a process_core_wake_first_channel_def nth_list_update)
  qed
next
  case (4 ps a)
  obtain channel current where a: "a = (channel, current)" by (cases a)
  show ?case
  proof (cases "first_index_cyclic (waits_on_channel channel) ps (cyclic_start current)")
    case None
    then show ?thesis by (simp add: a process_core_wake_first_channel_def)
  next
    case (Some i)
    note i = first_index_cyclic_SomeD [OF Some]
    then have "{j. j < length ps \<and> ps[i := process_core_make_ready (ps ! i)] ! j \<noteq> ps ! j} = {i}"
      using make_ready_neq [of "ps ! i"] by (auto simp: nth_list_update waits_on_channel_def)
    with i Some show ?thesis by (auto simp: a process_core_wake_first_channel_def)
  qed
qed

section \<open>Properties\<close>

lemma waits_on_channel_make_ready [simp]:
  "\<not> waits_on_channel channel (process_core_make_ready p)"
  by (simp add: waits_on_channel_def process_core_make_ready_def)

lemma sleeper_due_make_ready [simp]: "\<not> sleeper_due tick (process_core_make_ready p)"
  by (simp add: sleeper_due_def process_core_make_ready_def)

text \<open>The ready slot that \<open>process_core_find_next_runnable\<close> returns is the first one in round-robin
  order after the current slot (from slot 0 when there is no current process), and it returns none
  exactly when no slot is ready.
\<close>

theorem find_next_runnable_round_robin:
  "(process_core_find_next_runnable ps current = Some i \<longleftrightarrow>
     (\<exists>d<length ps. i = (cyclic_start current + d) mod length ps \<and>
        ps_state (ps ! i) = PROCESS_STATE_READY \<and>
        (\<forall>e<d. ps_state (ps ! ((cyclic_start current + e) mod length ps)) \<noteq> PROCESS_STATE_READY)))
   \<and> (process_core_find_next_runnable ps current = None \<longleftrightarrow>
     (\<forall>j<length ps. ps_state (ps ! j) \<noteq> PROCESS_STATE_READY))"
  unfolding process_core_find_next_runnable_def
  by (intro conjI first_index_cyclic_Some first_index_cyclic_None)

definition slot_in :: "process_state \<Rightarrow> process_runtime_state" where
  "slot_in st = \<lparr>ps_pid = 1, ps_parent_pid = 0, ps_name = None, ps_role = RUNTIME_PROCESS_ROLE_NONE,
     ps_state = st, ps_exit_code = 0, ps_switch_count = 0, ps_yield_count = 0,
     ps_wake_tick = 0, ps_wait_target_pid = 0, ps_wait_reason = PROCESS_WAIT_NONE, ps_wait_channel = 0\<rparr>"

theorem find_next_runnable_round_robin_witness:
  "process_core_find_next_runnable
     [slot_in PROCESS_STATE_READY, slot_in PROCESS_STATE_RUNNING, slot_in PROCESS_STATE_BLOCKED] (Some 1) = Some 0"
proof -
  let ?ps = "[slot_in PROCESS_STATE_READY, slot_in PROCESS_STATE_RUNNING, slot_in PROCESS_STATE_BLOCKED]"
  have *: "\<exists>d<length ?ps. 0 = (cyclic_start (Some 1) + d) mod length ?ps \<and> ps_state (?ps ! 0) = PROCESS_STATE_READY \<and>
      (\<forall>e<d. ps_state (?ps ! ((cyclic_start (Some 1) + e) mod length ?ps)) \<noteq> PROCESS_STATE_READY)"
    by (rule exI [of _ 1]) (simp add: cyclic_start_def slot_in_def)
  show ?thesis
    by (rule find_next_runnable_round_robin [of ?ps "Some 1" 0, THEN conjunct1, THEN iffD2, OF *])
qed

lemma count_sleepers_make_ready:
  "length (filter (\<lambda>p. ps_state p = PROCESS_STATE_BLOCKED \<and> ps_wait_reason p = PROCESS_WAIT_SLEEP_TICKS)
     (map (\<lambda>p. if sleeper_due tick p then process_core_make_ready p else p) ps)) +
   length (filter (sleeper_due tick) ps) =
   length (filter (\<lambda>p. ps_state p = PROCESS_STATE_BLOCKED \<and> ps_wait_reason p = PROCESS_WAIT_SLEEP_TICKS) ps)"
  by (induction ps) (auto simp: sleeper_due_def make_ready_state)

text \<open>Waking the sleepers at a tick leaves no sleeper that is due, counts exactly the processes it woke, and
  waking again at the same tick does nothing.\<close>

theorem wake_sleepers_accounting:
  "case process_core_wake_sleepers ps tick of (qs, n) \<Rightarrow>
     list_all (\<lambda>p. \<not> sleeper_due tick p) qs \<and>
     process_core_count_blocked_sleepers qs + n = process_core_count_blocked_sleepers ps \<and>
     process_core_wake_sleepers qs tick = (qs, 0)"
proof -
  let ?qs = "map (\<lambda>p. if sleeper_due tick p then process_core_make_ready p else p) ps"
  have none: "list_all (\<lambda>p. \<not> sleeper_due tick p) ?qs"
    by (auto simp: list_all_iff)
  have again: "process_core_wake_sleepers ?qs tick = (?qs, 0)"
    by (rule wake_sleepers.wake_none [OF none])
  have eq: "process_core_wake_sleepers ps tick = (?qs, length (filter (sleeper_due tick) ps))"
    by (simp add: process_core_wake_sleepers_def update_where_eq)
  show ?thesis
    unfolding eq prod.case process_core_count_blocked_sleepers_def
    by (intro conjI none again count_sleepers_make_ready)
qed

lemma channel_waiters_after_wake_one:
  "i < length ps \<Longrightarrow> waits_on_channel channel (ps ! i) \<Longrightarrow>
   length (filter (waits_on_channel channel) (ps[i := process_core_make_ready (ps ! i)])) + 1 =
   length (filter (waits_on_channel channel) ps)"
proof (induction ps arbitrary: i)
  case Nil
  then show ?case by simp
next
  case (Cons p ps)
  then show ?case by (cases i) auto
qed

text \<open>Waking one waiter of a channel takes exactly one process off the channel when there is one, and reports it.\<close>

theorem wake_first_channel_takes_one:
  "case process_core_wake_first_channel ps channel current of (qs, n) \<Rightarrow>
     length (filter (waits_on_channel channel) qs) + n = length (filter (waits_on_channel channel) ps) \<and>
     n = (if list_ex (waits_on_channel channel) ps then 1 else 0)"
proof (cases "first_index_cyclic (waits_on_channel channel) ps (cyclic_start current)")
  case None
  then have "\<not> list_ex (waits_on_channel channel) ps"
    by (simp add: first_index_cyclic_None list_ex_length)
  with None show ?thesis by (simp add: process_core_wake_first_channel_def)
next
  case (Some i)
  note i = first_index_cyclic_SomeD [OF Some]
  then have "list_ex (waits_on_channel channel) ps" by (auto simp: list_ex_length)
  with Some i channel_waiters_after_wake_one [OF i] show ?thesis
    by (auto simp: process_core_wake_first_channel_def)
qed

lemma snapshot_fold:
  "length b = cap \<Longrightarrow>
   fold (snapshot_step cap) ps (Some b, written) =
     (Some (take written b @
        take (cap - written) (map process_info_of (filter (\<lambda>p. ps_state p \<noteq> PROCESS_STATE_UNUSED) ps)) @
        drop (written + length (filter (\<lambda>p. ps_state p \<noteq> PROCESS_STATE_UNUSED) ps)) b),
      written + length (filter (\<lambda>p. ps_state p \<noteq> PROCESS_STATE_UNUSED) ps))"
proof (induction ps arbitrary: b written)
  case Nil
  then show ?case by simp
next
  case (Cons p ps)
  show ?case
  proof (cases "ps_state p = PROCESS_STATE_UNUSED")
    case True
    with Cons show ?thesis by (simp add: snapshot_step_def)
  next
    case used: False
    show ?thesis
    proof (cases "written < cap")
      case True
      with used Cons.prems Cons.IH [of "b[written := process_info_of p]" "Suc written"] show ?thesis
        by (auto simp: snapshot_step_def take_Suc_conv_app_nth take_Cons')
    next
      case False
      with used Cons.prems Cons.IH [of b "Suc written"] show ?thesis
        by (simp add: snapshot_step_def)
    qed
  qed
qed

end
