(* ===== verification/Ready_Queue.thy ===== *)
theory Ready_Queue
  imports Tensor_Prelude "HOL-Library.Monad_Syntax" "HOL-Library.Tree"
begin

text \<open>
  The ready queue of \<open>kernel/scheduler.c\<close>: a red-black tree threaded through static arrays that are
  indexed by process slots. An index \<open>UINT32_MAX\<close> is \<open>None\<close>, an array is a function of the index and
  every access checks the index, so that an operation returns \<open>None\<close> when the code would read or
  write outside an array or would not return. The code writes each rotation and each fix-up step
  twice, once for each side; the definitions take the side as an argument, \<open>L\<close> for the first copy.
\<close>

section \<open>State\<close>

definition MAX_PROCESSES :: nat where "MAX_PROCESSES = 10"

datatype rb_color = SCHED_RB_RED | SCHED_RB_BLACK

datatype side = L | R

record ready_queue =
  g_sched_rb_parent :: "nat \<Rightarrow> nat option"
  g_sched_rb_left :: "nat \<Rightarrow> nat option"
  g_sched_rb_right :: "nat \<Rightarrow> nat option"
  g_sched_rb_color :: "nat \<Rightarrow> rb_color"
  g_sched_on_rq :: "nat \<Rightarrow> bool"
  g_sched_rq_root :: "nat option"
  g_sched_rq_leftmost :: "nat option"

fun opp :: "side \<Rightarrow> side" where
  "opp L = R"
| "opp R = L"

fun child :: "ready_queue \<Rightarrow> side \<Rightarrow> nat \<Rightarrow> nat option" where
  "child q L = g_sched_rb_left q"
| "child q R = g_sched_rb_right q"

text \<open>Reading an array at an index that may be \<open>UINT32_MAX\<close>, and writing it.\<close>

definition rd :: "(nat \<Rightarrow> 'a) \<Rightarrow> nat option \<Rightarrow> 'a option" where
  "rd a p = (case p of None \<Rightarrow> None | Some i \<Rightarrow> if i < MAX_PROCESSES then Some (a i) else None)"

definition in_array :: "nat option \<Rightarrow> nat option" where
  "in_array p = rd id p"

fun upd_child :: "side \<Rightarrow> nat \<Rightarrow> nat option \<Rightarrow> ready_queue \<Rightarrow> ready_queue" where
  "upd_child L i v q = q\<lparr>g_sched_rb_left := (g_sched_rb_left q)(i := v)\<rparr>"
| "upd_child R i v q = q\<lparr>g_sched_rb_right := (g_sched_rb_right q)(i := v)\<rparr>"

definition upd_parent :: "nat \<Rightarrow> nat option \<Rightarrow> ready_queue \<Rightarrow> ready_queue" where
  "upd_parent i v q = q\<lparr>g_sched_rb_parent := (g_sched_rb_parent q)(i := v)\<rparr>"

definition upd_color :: "nat \<Rightarrow> rb_color \<Rightarrow> ready_queue \<Rightarrow> ready_queue" where
  "upd_color i v q = q\<lparr>g_sched_rb_color := (g_sched_rb_color q)(i := v)\<rparr>"

definition wr_child :: "side \<Rightarrow> nat option \<Rightarrow> nat option \<Rightarrow> ready_queue \<Rightarrow> ready_queue option" where
  "wr_child d p v q = map_option (\<lambda>i. upd_child d i v q) (in_array p)"

definition wr_parent :: "nat option \<Rightarrow> nat option \<Rightarrow> ready_queue \<Rightarrow> ready_queue option" where
  "wr_parent p v q = map_option (\<lambda>i. upd_parent i v q) (in_array p)"

definition wr_color :: "nat option \<Rightarrow> rb_color \<Rightarrow> ready_queue \<Rightarrow> ready_queue option" where
  "wr_color p v q = map_option (\<lambda>i. upd_color i v q) (in_array p)"

section \<open>Operations\<close>

partial_function (option) leftmost_from :: "ready_queue \<Rightarrow> nat \<Rightarrow> nat option" where
  "leftmost_from q index =
     do { l \<leftarrow> rd (g_sched_rb_left q) (Some index);
          (case l of None \<Rightarrow> Some index | Some j \<Rightarrow> leftmost_from q j) }"

definition scheduler_ready_queue_recompute_leftmost :: "ready_queue \<Rightarrow> ready_queue option" where
  "scheduler_ready_queue_recompute_leftmost q =
     (case g_sched_rq_root q of
        None \<Rightarrow> Some (q\<lparr>g_sched_rq_leftmost := None\<rparr>)
      | Some index \<Rightarrow>
          do { m \<leftarrow> leftmost_from q index; Some (q\<lparr>g_sched_rq_leftmost := Some m\<rparr>) })"

text \<open>
  Making \<open>new\<close> the child of \<open>parent\<close> in place of \<open>old\<close>, the root when there is no parent; the side
  \<open>d\<close> is the one that the code tests first.
\<close>

definition relink :: "side \<Rightarrow> nat option \<Rightarrow> nat \<Rightarrow> nat option \<Rightarrow> ready_queue \<Rightarrow> ready_queue option" where
  "relink d parent old new q =
     (if parent = None then Some (q\<lparr>g_sched_rq_root := new\<rparr>)
      else do { c \<leftarrow> rd (child q d) parent;
                if c = Some old then wr_child d parent new q else wr_child (opp d) parent new q })"

text \<open>\<open>scheduler_ready_queue_rotate_left\<close> is the side \<open>L\<close>, \<open>scheduler_ready_queue_rotate_right\<close> the
  side \<open>R\<close>.\<close>

definition scheduler_ready_queue_rotate :: "side \<Rightarrow> nat option \<Rightarrow> ready_queue \<Rightarrow> ready_queue option" where
  "scheduler_ready_queue_rotate d index q =
     do { i \<leftarrow> in_array index;
          right \<leftarrow> rd (child q (opp d)) index;
          parent \<leftarrow> rd (g_sched_rb_parent q) index;
          inner \<leftarrow> rd (child q d) right;
          q \<leftarrow> wr_child (opp d) index inner q;
          q \<leftarrow> (if inner \<noteq> None then wr_parent inner index q else Some q);
          q \<leftarrow> wr_parent right parent q;
          q \<leftarrow> relink d parent i right q;
          q \<leftarrow> wr_child d right index q;
          wr_parent index right q }"

definition is_red :: "ready_queue \<Rightarrow> nat option \<Rightarrow> bool option" where
  "is_red q p = map_option (\<lambda>c. c = SCHED_RB_RED) (rd (g_sched_rb_color q) p)"

text \<open>\<open>(p != UINT32_MAX) && (color[p] == RED)\<close>\<close>

definition red_node :: "ready_queue \<Rightarrow> nat option \<Rightarrow> bool option" where
  "red_node q p = (if p = None then Some False else is_red q p)"

partial_function (option) insert_descend ::
  "(nat \<Rightarrow> nat \<Rightarrow> bool) \<Rightarrow> ready_queue \<Rightarrow> nat \<Rightarrow> nat option \<Rightarrow> nat option \<Rightarrow> nat option option" where
  "insert_descend precedes q index parent cursor =
     (case cursor of None \<Rightarrow> Some parent
      | Some c \<Rightarrow>
          do { next \<leftarrow> rd (child q (if precedes index c then L else R)) cursor;
               insert_descend precedes q index cursor next })"

partial_function (option) insert_fixup :: "ready_queue \<Rightarrow> nat option \<Rightarrow> ready_queue option" where
  "insert_fixup q index =
     (if index = g_sched_rq_root q then Some q
      else do {
        parent_index \<leftarrow> rd (g_sched_rb_parent q) index;
        red \<leftarrow> is_red q parent_index;
        if \<not> red then Some q
        else do {
          grandparent \<leftarrow> rd (g_sched_rb_parent q) parent_index;
          gl \<leftarrow> rd (g_sched_rb_left q) grandparent;
          let d = (if gl = parent_index then L else R);
          uncle \<leftarrow> rd (child q (opp d)) grandparent;
          uncle_red \<leftarrow> red_node q uncle;
          if uncle_red then do {
            q \<leftarrow> wr_color parent_index SCHED_RB_BLACK q;
            q \<leftarrow> wr_color uncle SCHED_RB_BLACK q;
            q \<leftarrow> wr_color grandparent SCHED_RB_RED q;
            insert_fixup q grandparent }
          else do {
            inner \<leftarrow> rd (child q (opp d)) parent_index;
            (q, index, parent_index, grandparent) \<leftarrow>
              (if inner = index then do {
                 q \<leftarrow> scheduler_ready_queue_rotate d parent_index q;
                 p \<leftarrow> rd (g_sched_rb_parent q) parent_index;
                 g \<leftarrow> rd (g_sched_rb_parent q) p;
                 Some (q, parent_index, p, g) }
               else Some (q, index, parent_index, grandparent));
            q \<leftarrow> wr_color parent_index SCHED_RB_BLACK q;
            q \<leftarrow> wr_color grandparent SCHED_RB_RED q;
            q \<leftarrow> scheduler_ready_queue_rotate (opp d) grandparent q;
            insert_fixup q index } } })"

definition scheduler_ready_queue_insert ::
  "(nat \<Rightarrow> nat \<Rightarrow> bool) \<Rightarrow> nat \<Rightarrow> ready_queue \<Rightarrow> ready_queue option" where
  "scheduler_ready_queue_insert precedes index q =
     do {
       queued \<leftarrow> rd (g_sched_on_rq q) (Some index);
       if queued then Some q
       else do {
         q \<leftarrow> wr_child L (Some index) None q;
         q \<leftarrow> wr_child R (Some index) None q;
         parent \<leftarrow> insert_descend precedes q index None (g_sched_rq_root q);
         q \<leftarrow> wr_parent (Some index) parent q;
         q \<leftarrow> wr_color (Some index) SCHED_RB_RED q;
         let q = q\<lparr>g_sched_on_rq := (g_sched_on_rq q)(index := True)\<rparr>;
         q \<leftarrow> (case parent of None \<Rightarrow> Some (q\<lparr>g_sched_rq_root := Some index\<rparr>)
               | Some p \<Rightarrow> wr_child (if precedes index p then L else R) parent (Some index) q);
         q \<leftarrow> insert_fixup q (Some index);
         q \<leftarrow> wr_color (g_sched_rq_root q) SCHED_RB_BLACK q;
         scheduler_ready_queue_recompute_leftmost q } }"

definition scheduler_ready_queue_minimum :: "ready_queue \<Rightarrow> nat option \<Rightarrow> nat option option" where
  "scheduler_ready_queue_minimum q index =
     (case index of None \<Rightarrow> Some None | Some i \<Rightarrow> map_option Some (leftmost_from q i))"

definition scheduler_ready_queue_transplant ::
  "nat \<Rightarrow> nat option \<Rightarrow> ready_queue \<Rightarrow> ready_queue option" where
  "scheduler_ready_queue_transplant old_index new_index q =
     do { parent \<leftarrow> rd (g_sched_rb_parent q) (Some old_index);
          q \<leftarrow> relink L parent old_index new_index q;
          if new_index \<noteq> None then wr_parent new_index parent q else Some q }"

text \<open>The colour test of the fix-up: a missing node counts as black.\<close>

definition black_node :: "ready_queue \<Rightarrow> nat option \<Rightarrow> bool option" where
  "black_node q p = map_option Not (red_node q p)"

text \<open>
  One side of the loop body of \<open>scheduler_ready_queue_remove_fixup\<close>, in the four parts of the code: a
  red sibling is rotated up, the test for a sibling without red children, the rotation of the
  sibling, the last rotation. The result of the body is the state with the next \<open>index\<close> and
  \<open>parent\<close>, or with the root as \<open>index\<close> and a flag for the \<open>break\<close>.
\<close>

definition fixup_raise_sibling ::
  "side \<Rightarrow> nat option \<Rightarrow> nat option \<Rightarrow> ready_queue \<Rightarrow> (ready_queue \<times> nat option) option" where
  "fixup_raise_sibling d parent sibling q =
     do {
       sibling_red \<leftarrow> red_node q sibling;
       if sibling_red then do {
         q \<leftarrow> wr_color sibling SCHED_RB_BLACK q;
         q \<leftarrow> wr_color parent SCHED_RB_RED q;
         q \<leftarrow> scheduler_ready_queue_rotate d parent q;
         s \<leftarrow> rd (child q (opp d)) parent;
         Some (q, s) }
       else Some (q, sibling) }"

definition fixup_sibling_plain :: "nat option \<Rightarrow> ready_queue \<Rightarrow> bool option" where
  "fixup_sibling_plain sibling q =
     (if sibling = None then Some True
      else do {
        l \<leftarrow> rd (g_sched_rb_left q) sibling;
        bl \<leftarrow> black_node q l;
        if \<not> bl then Some False
        else do { r \<leftarrow> rd (g_sched_rb_right q) sibling; black_node q r } })"

definition fixup_rotate_sibling ::
  "side \<Rightarrow> nat option \<Rightarrow> nat option \<Rightarrow> ready_queue \<Rightarrow> (ready_queue \<times> nat option) option" where
  "fixup_rotate_sibling d parent sibling q =
     do {
       far \<leftarrow> rd (child q (opp d)) sibling;
       far_black \<leftarrow> black_node q far;
       if far_black then do {
         near \<leftarrow> rd (child q d) sibling;
         q \<leftarrow> (if near \<noteq> None then wr_color near SCHED_RB_BLACK q else Some q);
         q \<leftarrow> wr_color sibling SCHED_RB_RED q;
         q \<leftarrow> scheduler_ready_queue_rotate (opp d) sibling q;
         s \<leftarrow> rd (child q (opp d)) parent;
         Some (q, s) }
       else Some (q, sibling) }"

definition fixup_last_rotation ::
  "side \<Rightarrow> nat option \<Rightarrow> nat option \<Rightarrow> ready_queue \<Rightarrow> ready_queue option" where
  "fixup_last_rotation d parent sibling q =
     do {
       parent_color \<leftarrow> rd (g_sched_rb_color q) parent;
       q \<leftarrow> wr_color sibling parent_color q;
       q \<leftarrow> wr_color parent SCHED_RB_BLACK q;
       far \<leftarrow> rd (child q (opp d)) sibling;
       q \<leftarrow> (if far \<noteq> None then wr_color far SCHED_RB_BLACK q else Some q);
       scheduler_ready_queue_rotate d parent q }"

definition remove_fixup_body ::
  "side \<Rightarrow> ready_queue \<Rightarrow> nat option \<Rightarrow> (ready_queue \<times> nat option \<times> nat option \<times> bool) option" where
  "remove_fixup_body d q parent =
     do {
       sibling \<leftarrow> rd (child q (opp d)) parent;
       (q, sibling) \<leftarrow> fixup_raise_sibling d parent sibling q;
       plain \<leftarrow> fixup_sibling_plain sibling q;
       if plain then do {
         q \<leftarrow> (if sibling \<noteq> None then wr_color sibling SCHED_RB_RED q else Some q);
         up \<leftarrow> rd (g_sched_rb_parent q) parent;
         Some (q, parent, up, False) }
       else do {
         (q, sibling) \<leftarrow> fixup_rotate_sibling d parent sibling q;
         q \<leftarrow> fixup_last_rotation d parent sibling q;
         Some (q, g_sched_rq_root q, None, True) } }"

partial_function (option) remove_fixup_loop ::
  "ready_queue \<Rightarrow> nat option \<Rightarrow> nat option \<Rightarrow> (ready_queue \<times> nat option) option" where
  "remove_fixup_loop q index parent =
     (if index = g_sched_rq_root q then Some (q, index)
      else do {
        black \<leftarrow> black_node q index;
        if \<not> black then Some (q, index)
        else if parent = None then Some (q, index)
        else do {
          pl \<leftarrow> rd (g_sched_rb_left q) parent;
          (q, index, parent, stop) \<leftarrow> remove_fixup_body (if index = pl then L else R) q parent;
          if stop then Some (q, index) else remove_fixup_loop q index parent } })"

definition scheduler_ready_queue_remove_fixup ::
  "nat option \<Rightarrow> nat option \<Rightarrow> ready_queue \<Rightarrow> ready_queue option" where
  "scheduler_ready_queue_remove_fixup index parent q =
     do { (q, index) \<leftarrow> remove_fixup_loop q index parent;
          if index \<noteq> None then wr_color index SCHED_RB_BLACK q else Some q }"

text \<open>The unlinking of \<open>scheduler_ready_queue_remove\<close>: the state, the colour that is removed from the
  tree, and where the fix-up starts.\<close>

definition remove_unlink ::
  "nat \<Rightarrow> ready_queue \<Rightarrow> (ready_queue \<times> rb_color \<times> nat option \<times> nat option) option" where
  "remove_unlink index q =
     do {
       removed_color \<leftarrow> rd (g_sched_rb_color q) (Some index);
       left \<leftarrow> rd (g_sched_rb_left q) (Some index);
       right \<leftarrow> rd (g_sched_rb_right q) (Some index);
       parent \<leftarrow> rd (g_sched_rb_parent q) (Some index);
       if left = None then do {
         q \<leftarrow> scheduler_ready_queue_transplant index right q;
         Some (q, removed_color, right, parent) }
       else if right = None then do {
         q \<leftarrow> scheduler_ready_queue_transplant index left q;
         Some (q, removed_color, left, parent) }
       else do {
         removed \<leftarrow> scheduler_ready_queue_minimum q right;
         removed_index \<leftarrow> in_array removed;
         removed_color \<leftarrow> rd (g_sched_rb_color q) removed;
         replacement \<leftarrow> rd (g_sched_rb_right q) removed;
         removed_parent \<leftarrow> rd (g_sched_rb_parent q) removed;
         (q, replacement_parent) \<leftarrow>
           (if removed_parent = Some index then do {
              q \<leftarrow> (if replacement \<noteq> None then wr_parent replacement removed q else Some q);
              Some (q, removed) }
            else do {
              q \<leftarrow> scheduler_ready_queue_transplant removed_index replacement q;
              right \<leftarrow> rd (g_sched_rb_right q) (Some index);
              q \<leftarrow> wr_child R removed right q;
              q \<leftarrow> wr_parent right removed q;
              Some (q, removed_parent) });
         q \<leftarrow> scheduler_ready_queue_transplant index removed q;
         left \<leftarrow> rd (g_sched_rb_left q) (Some index);
         q \<leftarrow> wr_child L removed left q;
         q \<leftarrow> wr_parent left removed q;
         color \<leftarrow> rd (g_sched_rb_color q) (Some index);
         q \<leftarrow> wr_color removed color q;
         Some (q, removed_color, replacement, replacement_parent) } }"

definition clear_links :: "nat \<Rightarrow> ready_queue \<Rightarrow> ready_queue" where
  "clear_links index q = q\<lparr>
     g_sched_on_rq := (g_sched_on_rq q)(index := False),
     g_sched_rb_parent := (g_sched_rb_parent q)(index := None),
     g_sched_rb_left := (g_sched_rb_left q)(index := None),
     g_sched_rb_right := (g_sched_rb_right q)(index := None),
     g_sched_rb_color := (g_sched_rb_color q)(index := SCHED_RB_BLACK)\<rparr>"

definition scheduler_ready_queue_remove :: "nat \<Rightarrow> ready_queue \<Rightarrow> ready_queue option" where
  "scheduler_ready_queue_remove index q =
     do {
       queued \<leftarrow> rd (g_sched_on_rq q) (Some index);
       if \<not> queued then Some q
       else do {
         (q, removed_color, replacement, replacement_parent) \<leftarrow> remove_unlink index q;
         let q = clear_links index q;
         q \<leftarrow> (if removed_color = SCHED_RB_BLACK
               then scheduler_ready_queue_remove_fixup replacement replacement_parent q else Some q);
         scheduler_ready_queue_recompute_leftmost q } }"

definition scheduler_pick_next_ready :: "ready_queue \<Rightarrow> nat option" where
  "scheduler_pick_next_ready q = g_sched_rq_leftmost q"

declare leftmost_from.simps [code] insert_descend.simps [code] insert_fixup.simps [code]
  remove_fixup_loop.simps [code]

end
