(* ===== verification/Ready_Queue_Tree.thy ===== *)
theory Ready_Queue_Tree
  imports Ready_Queue
begin

text \<open>
  The arrays of the ready queue represent a binary tree. A position in the tree is a context, the
  path from a subtree up to the root; relinking, rotating and transplanting act on one position and
  leave the rest of the tree in place.
\<close>

section \<open>Trees and contexts\<close>

fun mk :: "side \<Rightarrow> nat tree \<Rightarrow> nat \<Rightarrow> nat tree \<Rightarrow> nat tree" where
  "mk L a i b = Node a i b"
| "mk R a i b = Node b i a"

text \<open>A frame: the side of the hole, the node, the other subtree. The innermost frame is first.\<close>

type_synonym ctx = "(side \<times> nat \<times> nat tree) list"

fun plug :: "ctx \<Rightarrow> nat tree \<Rightarrow> nat tree" where
  "plug [] t = t"
| "plug ((d, i, s) # c) t = plug c (mk d t i s)"

fun cpar :: "ctx \<Rightarrow> nat option" where
  "cpar [] = None"
| "cpar ((d, i, s) # c) = Some i"

fun cset :: "ctx \<Rightarrow> nat set" where
  "cset [] = {}"
| "cset ((d, i, s) # c) = insert i (set_tree s \<union> cset c)"

fun cdist :: "ctx \<Rightarrow> bool" where
  "cdist [] = True"
| "cdist ((d, i, s) # c) = (distinct (inorder s) \<and> i \<notin> set_tree s \<and> i \<notin> cset c \<and>
     set_tree s \<inter> cset c = {} \<and> cdist c)"

fun cpre :: "ctx \<Rightarrow> nat list" where
  "cpre [] = []"
| "cpre ((d, i, s) # c) = cpre c @ (if d = L then [] else inorder s @ [i])"

fun cpost :: "ctx \<Rightarrow> nat list" where
  "cpost [] = []"
| "cpost ((d, i, s) # c) = (if d = L then i # inorder s else []) @ cpost c"

lemma opp_opp [simp]: "opp (opp d) = d"
  by (cases d) simp_all

lemma opp_neq [simp]: "opp d \<noteq> d" "d \<noteq> opp d"
  by (cases d; simp)+

lemma mk_opp: "mk (opp d) b i a = mk d a i b"
  by (cases d) simp_all

lemma mk_cases: "t \<noteq> Leaf \<Longrightarrow> \<exists>a i b. t = mk d a i b"
  by (cases d; cases t) auto

lemma set_tree_mk [simp]: "set_tree (mk d a i b) = insert i (set_tree a \<union> set_tree b)"
  by (cases d) auto

lemma mk_not_Leaf [simp]: "mk d a i b \<noteq> Leaf" "Leaf \<noteq> mk d a i b"
  by (cases d; simp)+

lemma inorder_mk: "inorder (mk d a i b) = (if d = L then inorder a @ i # inorder b else inorder b @ i # inorder a)"
  by (cases d) simp_all

lemma inorder_rotate: "inorder (mk d (mk d a i b) j e) = inorder (mk d a i (mk d b j e))"
  by (cases d) simp_all

lemma set_tree_plug [simp]: "set_tree (plug c t) = cset c \<union> set_tree t"
  by (induction c t rule: plug.induct) auto

lemma inorder_plug: "inorder (plug c t) = cpre c @ inorder t @ cpost c"
  by (induction c t rule: plug.induct) (auto simp: inorder_mk)

lemma plug_append: "plug (c @ c') t = plug c' (plug c t)"
  by (induction c t rule: plug.induct) simp_all

lemma distinct_mk [simp]: "distinct (inorder (mk d a i b)) \<longleftrightarrow>
    distinct (inorder a) \<and> distinct (inorder b) \<and> i \<notin> set_tree a \<and> i \<notin> set_tree b \<and> set_tree a \<inter> set_tree b = {}"
  by (cases d) auto

lemma distinct_plug: "distinct (inorder (plug c t)) \<longleftrightarrow>
    distinct (inorder t) \<and> cdist c \<and> set_tree t \<inter> cset c = {}"
  by (induction c t rule: plug.induct) auto

text \<open>Every node of a tree is the root of a subtree.\<close>

lemma tree_position: "i \<in> set_tree t \<Longrightarrow> \<exists>c a b. t = plug c (Node a i b)"
proof (induction t)
  case (Node l k r)
  consider "i = k" | "i \<in> set_tree l" | "i \<in> set_tree r" using Node.prems by auto
  then show ?case
  proof cases
    case 1
    then show ?thesis by (intro exI [of _ "[]"]) auto
  next
    case 2
    then obtain c a b where "l = plug c (Node a i b)" using Node.IH by blast
    then have "Node l k r = plug (c @ [(L, k, r)]) (Node a i b)" by (simp add: plug_append)
    then show ?thesis by blast
  next
    case 3
    then obtain c a b where "r = plug c (Node a i b)" using Node.IH by blast
    then have "Node l k r = plug (c @ [(R, k, l)]) (Node a i b)" by (simp add: plug_append)
    then show ?thesis by blast
  qed
qed simp

section \<open>Representation\<close>

fun rep :: "ready_queue \<Rightarrow> nat option \<Rightarrow> nat option \<Rightarrow> nat tree \<Rightarrow> bool" where
  "rep q p par Leaf \<longleftrightarrow> p = None"
| "rep q p par (Node a i b) \<longleftrightarrow> p = Some i \<and> i < MAX_PROCESSES \<and> g_sched_rb_parent q i = par \<and>
     rep q (g_sched_rb_left q i) (Some i) a \<and> rep q (g_sched_rb_right q i) (Some i) b"

fun crep :: "ready_queue \<Rightarrow> ctx \<Rightarrow> nat option \<Rightarrow> bool" where
  "crep q [] p \<longleftrightarrow> g_sched_rq_root q = p"
| "crep q ((d, i, s) # c) p \<longleftrightarrow> i < MAX_PROCESSES \<and> child q d i = p \<and> rep q (child q (opp d) i) (Some i) s \<and>
     g_sched_rb_parent q i = cpar c \<and> crep q c (Some i)"

lemma rep_mk: "rep q p par (mk d a i b) \<longleftrightarrow> p = Some i \<and> i < MAX_PROCESSES \<and> g_sched_rb_parent q i = par \<and>
    rep q (child q d i) (Some i) a \<and> rep q (child q (opp d) i) (Some i) b"
  by (cases d) auto

lemma rep_plug: "rep q (g_sched_rq_root q) None (plug c t) \<longleftrightarrow> (\<exists>p. crep q c p \<and> rep q p (cpar c) t)"
proof (induction c arbitrary: t)
  case (Cons f c)
  obtain d i s where f: "f = (d, i, s)" by (cases f)
  show ?case using Cons by (auto simp: f rep_mk)
qed simp

lemma rep_Leaf_iff: "rep q p par t \<Longrightarrow> p = None \<longleftrightarrow> t = Leaf"
  by (cases t) auto

lemma rep_Some: "rep q (Some i) par t \<Longrightarrow> i \<in> set_tree t \<and> i < MAX_PROCESSES \<and> g_sched_rb_parent q i = par"
  by (cases t) auto

lemma rep_bound: "rep q p par t \<Longrightarrow> i \<in> set_tree t \<Longrightarrow> i < MAX_PROCESSES"
  by (induction t arbitrary: p par) auto

lemma rep_parent_set:
  "rep q p par t \<Longrightarrow> i \<in> set_tree t \<Longrightarrow> g_sched_rb_parent q i = par \<or> (\<exists>j\<in>set_tree t. g_sched_rb_parent q i = Some j)"
proof (induction t arbitrary: p par)
  case (Node a k b)
  from Node.prems consider "i = k" | "i \<in> set_tree a" | "i \<in> set_tree b" by auto
  then show ?case
  proof cases
    case 1
    then show ?thesis using Node.prems by simp
  next
    case 2
    then show ?thesis using Node.IH(1) [of "g_sched_rb_left q k" "Some k"] Node.prems by auto
  next
    case 3
    then show ?thesis using Node.IH(2) [of "g_sched_rb_right q k" "Some k"] Node.prems by auto
  qed
qed simp

text \<open>What a represented part of the tree depends on.\<close>

definition same_at :: "nat set \<Rightarrow> ready_queue \<Rightarrow> ready_queue \<Rightarrow> bool" where
  "same_at S q q' \<longleftrightarrow> (\<forall>i\<in>S. g_sched_rb_parent q' i = g_sched_rb_parent q i \<and>
     g_sched_rb_left q' i = g_sched_rb_left q i \<and> g_sched_rb_right q' i = g_sched_rb_right q i)"

lemma same_at_child: "same_at S q q' \<Longrightarrow> i \<in> S \<Longrightarrow> child q' d i = child q d i"
  by (cases d) (auto simp: same_at_def)

lemma rep_frame: "rep q p par t \<Longrightarrow> same_at (set_tree t) q q' \<Longrightarrow> rep q' p par t"
  by (induction t arbitrary: p par) (auto simp: same_at_def)

lemma crep_frame:
  "crep q c p \<Longrightarrow> same_at (cset c) q q' \<Longrightarrow> g_sched_rq_root q' = g_sched_rq_root q \<Longrightarrow> crep q' c p"
proof (induction c arbitrary: p)
  case (Cons f c)
  obtain d i s where f: "f = (d, i, s)" by (cases f)
  have sub: "same_at (set_tree s) q q'" "same_at (cset c) q q'" "i \<in> cset (f # c)"
    using Cons.prems(2) by (auto simp: f same_at_def)
  show ?case
    using Cons.prems Cons.IH [OF _ sub(2)] rep_frame [OF _ sub(1)] same_at_child [OF Cons.prems(2) sub(3)]
    by (auto simp: f same_at_def)
qed simp

text \<open>The fields that the shape of the tree does not depend on.\<close>

definition same_rest :: "ready_queue \<Rightarrow> ready_queue \<Rightarrow> bool" where
  "same_rest q q' \<longleftrightarrow> g_sched_rb_color q' = g_sched_rb_color q \<and> g_sched_on_rq q' = g_sched_on_rq q \<and>
     g_sched_rq_leftmost q' = g_sched_rq_leftmost q"

lemma child_upd [simp]:
  "child (upd_child d i v q) e = (if d = e then (child q e)(i := v) else child q e)"
  "child (upd_parent i v q) e = child q e" "child (upd_color i k q) e = child q e"
  "child (q\<lparr>g_sched_rq_root := r\<rparr>) e = child q e"
  "child (q\<lparr>g_sched_rq_leftmost := r\<rparr>) e = child q e" "child (q\<lparr>g_sched_on_rq := w\<rparr>) e = child q e"
  by (cases d; cases e; simp add: upd_parent_def upd_color_def)+

lemma upd_fields [simp]:
  "g_sched_rb_parent (upd_child d i v q) = g_sched_rb_parent q"
  "g_sched_rb_color (upd_child d i v q) = g_sched_rb_color q"
  "g_sched_on_rq (upd_child d i v q) = g_sched_on_rq q"
  "g_sched_rq_root (upd_child d i v q) = g_sched_rq_root q"
  "g_sched_rq_leftmost (upd_child d i v q) = g_sched_rq_leftmost q"
  "g_sched_rb_parent (upd_parent i v q) = (g_sched_rb_parent q)(i := v)"
  "g_sched_rb_left (upd_parent i v q) = g_sched_rb_left q"
  "g_sched_rb_right (upd_parent i v q) = g_sched_rb_right q"
  "g_sched_rb_color (upd_parent i v q) = g_sched_rb_color q"
  "g_sched_on_rq (upd_parent i v q) = g_sched_on_rq q"
  "g_sched_rq_root (upd_parent i v q) = g_sched_rq_root q"
  "g_sched_rq_leftmost (upd_parent i v q) = g_sched_rq_leftmost q"
  "g_sched_rb_parent (upd_color i k q) = g_sched_rb_parent q"
  "g_sched_rb_left (upd_color i k q) = g_sched_rb_left q"
  "g_sched_rb_right (upd_color i k q) = g_sched_rb_right q"
  "g_sched_rb_color (upd_color i k q) = (g_sched_rb_color q)(i := k)"
  "g_sched_on_rq (upd_color i k q) = g_sched_on_rq q"
  "g_sched_rq_root (upd_color i k q) = g_sched_rq_root q"
  "g_sched_rq_leftmost (upd_color i k q) = g_sched_rq_leftmost q"
  by (cases d; simp add: upd_parent_def upd_color_def)+

lemma links_upd_child [simp]:
  "g_sched_rb_left (upd_child d i v q) = (if d = L then (g_sched_rb_left q)(i := v) else g_sched_rb_left q)"
  "g_sched_rb_right (upd_child d i v q) = (if d = R then (g_sched_rb_right q)(i := v) else g_sched_rb_right q)"
  by (cases d; simp)+

declare upd_child.simps [simp del]

lemma same_at_iff: "same_at S q q' \<longleftrightarrow> (\<forall>i\<in>S. g_sched_rb_parent q' i = g_sched_rb_parent q i \<and>
    (\<forall>d. child q' d i = child q d i))"
proof -
  have "(\<forall>d. child q' d i = child q d i) \<longleftrightarrow> child q' L i = child q L i \<and> child q' R i = child q R i" for i
    by (metis side.exhaust)
  then show ?thesis by (auto simp: same_at_def)
qed

lemma rep_color [simp]: "rep (upd_color i k q) p par t = rep q p par t"
  by (induction t arbitrary: p par) auto

lemma crep_color [simp]: "crep (upd_color i k q) c p = crep q c p"
  by (induction c arbitrary: p) auto

lemma rd_Some [simp]: "i < MAX_PROCESSES \<Longrightarrow> rd a (Some i) = Some (a i)"
  by (simp add: rd_def)

lemma in_array_Some [simp]: "i < MAX_PROCESSES \<Longrightarrow> in_array (Some i) = Some i"
  by (simp add: in_array_def)

lemma wr_Some [simp]:
  "i < MAX_PROCESSES \<Longrightarrow> wr_child d (Some i) v q = Some (upd_child d i v q)"
  "i < MAX_PROCESSES \<Longrightarrow> wr_parent (Some i) v q = Some (upd_parent i v q)"
  "i < MAX_PROCESSES \<Longrightarrow> wr_color (Some i) k q = Some (upd_color i k q)"
  by (simp_all add: wr_child_def wr_parent_def wr_color_def)

section \<open>Relinking and rotating\<close>

lemma relink_ok:
  assumes c: "crep q c (Some i)" and dist: "cdist c" "i \<notin> cset c"
  shows "\<exists>q'. relink d (cpar c) i new q = Some q' \<and> crep q' c new \<and>
    g_sched_rb_parent q' = g_sched_rb_parent q \<and>
    (\<forall>k e. k \<notin> cset c \<longrightarrow> child q' e k = child q e k) \<and> same_rest q q'"
proof (cases c)
  case Nil
  then show ?thesis by (simp add: relink_def same_rest_def)
next
  case (Cons f c')
  obtain e k s where f: "f = (e, k, s)" by (cases f)
  note [simp] = Cons f
  have k: "k < MAX_PROCESSES" "child q e k = Some i" "rep q (child q (opp e) k) (Some k) s"
      "g_sched_rb_parent q k = cpar c'" "crep q c' (Some k)"
    and ks: "k \<notin> set_tree s" "k \<notin> cset c'" "i \<notin> set_tree s"
    using c dist by auto
  have far: "child q (opp e) k \<noteq> Some i" using k(3) ks(3) rep_Some [of q i "Some k" s] by auto
  have "relink d (cpar c) i new q = Some (upd_child e k new q)"
    using k far by (cases "e = d") (auto simp: relink_def, (cases e; cases d; simp)+)
  moreover have "same_at S q (upd_child e k new q)" if "k \<notin> S" for S
    using that by (auto simp: same_at_iff)
  ultimately show ?thesis
    using k ks by (auto simp: same_rest_def intro: rep_frame crep_frame)
qed

lemma rotate_ok:
  assumes c: "crep q c (Some i)" and t: "rep q (Some i) (cpar c) (mk d a i (mk d b j e))"
    and dist: "distinct (inorder (plug c (mk d a i (mk d b j e))))"
  shows "\<exists>q'. scheduler_ready_queue_rotate d (Some i) q = Some q' \<and> crep q' c (Some j) \<and>
    rep q' (Some j) (cpar c) (mk d (mk d a i b) j e) \<and> same_rest q q'"
proof -
  let ?q1 = "upd_child (opp d) i (child q d j) q"
  let ?q2 = "case child q d j of None \<Rightarrow> ?q1 | Some k \<Rightarrow> upd_parent k (Some i) ?q1"
  define q3 where "q3 = upd_parent j (cpar c) ?q2"
  have i: "i < MAX_PROCESSES" "g_sched_rb_parent q i = cpar c" "rep q (child q d i) (Some i) a"
      "child q (opp d) i = Some j"
    and j: "j < MAX_PROCESSES" "g_sched_rb_parent q j = Some i" "rep q (child q d j) (Some j) b"
      "rep q (child q (opp d) j) (Some j) e"
    using t by (auto simp: rep_mk)
  have dis: "i \<noteq> j" "i \<notin> set_tree a" "i \<notin> set_tree b" "i \<notin> set_tree e" "j \<notin> set_tree a" "j \<notin> set_tree b"
      "j \<notin> set_tree e" "set_tree a \<inter> set_tree b = {}" "set_tree a \<inter> set_tree e = {}"
      "set_tree b \<inter> set_tree e = {}" "i \<notin> cset c" "j \<notin> cset c" "cdist c"
      "set_tree a \<inter> cset c = {}" "set_tree b \<inter> cset c = {}" "set_tree e \<inter> cset c = {}"
    using dist by (auto simp: distinct_plug)
  have off [simp]: "k \<in> set_tree a \<Longrightarrow> k \<notin> cset c" "k \<in> set_tree b \<Longrightarrow> k \<notin> cset c" "k \<in> set_tree e \<Longrightarrow> k \<notin> cset c" for k
    using dis by blast+
  have inner: "k \<in> set_tree b \<and> k < MAX_PROCESSES" if "child q d j = Some k" for k
    using rep_Some [of q k "Some j" b] j(3) that by auto
  have ch3: "child q3 f k = (if f = opp d \<and> k = i then child q d j else child q f k)" for f k
    by (auto simp: q3_def split: option.split)
  have pa3: "g_sched_rb_parent q3 k = (if k = j then cpar c
      else if child q d j = Some k then Some i else g_sched_rb_parent q k)" for k
    by (auto simp: q3_def split: option.split)
  have rest3: "same_rest q q3" "g_sched_rq_root q3 = g_sched_rq_root q"
    by (auto simp: q3_def same_rest_def split: option.split)
  have c3: "crep q3 c (Some i)"
    by (rule crep_frame [OF c]) (use dis inner rest3 in \<open>auto simp: same_at_iff ch3 pa3\<close>)
  from relink_ok [OF c3 dis(13,11), of d "Some j"] obtain q4 where
      q4: "relink d (cpar c) i (Some j) q3 = Some q4" "crep q4 c (Some j)"
        "g_sched_rb_parent q4 = g_sched_rb_parent q3"
        "\<And>k f. k \<notin> cset c \<Longrightarrow> child q4 f k = child q3 f k" "same_rest q3 q4"
    by blast
  define q6 where "q6 = upd_parent i (Some j) (upd_child d j (Some i) q4)"
  have run: "scheduler_ready_queue_rotate d (Some i) q = Some q6"
    using i j inner q4(1)
    by (cases "child q d j") (simp_all add: scheduler_ready_queue_rotate_def q3_def q6_def)
  have ch6: "child q6 f k = (if f = d \<and> k = j then Some i else if f = opp d \<and> k = i then child q d j
      else child q f k)" if "k \<notin> cset c" for f k
    using that dis by (auto simp: q6_def q4(4) ch3)
  have pa6: "g_sched_rb_parent q6 k = (if k = i then Some j else g_sched_rb_parent q3 k)" for k
    by (simp add: q6_def q4(3))
  have crep6: "crep q6 c (Some j)"
    by (rule crep_frame [OF q4(2)]) (use dis in \<open>auto simp: q6_def same_at_iff\<close>)
  have a6: "rep q6 (child q d i) (Some i) a"
    by (rule rep_frame [OF i(3)]) (use dis inner in \<open>auto simp: same_at_iff ch6 pa6 pa3\<close>)
  have e6: "rep q6 (child q (opp d) j) (Some j) e"
    by (rule rep_frame [OF j(4)]) (use dis inner in \<open>auto simp: same_at_iff ch6 pa6 pa3\<close>)
  have b6: "rep q6 (child q d j) (Some i) b"
  proof (cases b)
    case (Node b1 k b2)
    then have k: "child q d j = Some k" "k \<noteq> i" "k \<noteq> j" "k < MAX_PROCESSES" "k \<notin> cset c"
        and kd: "k \<notin> set_tree b1" "k \<notin> set_tree b2"
        and sub: "rep q (g_sched_rb_left q k) (Some k) b1" "rep q (g_sched_rb_right q k) (Some k) b2"
      using j(3) dis dist by (auto simp: distinct_plug)
    have ch: "child q6 f k = child q f k" for f using ch6 k by simp
    have "rep q6 (g_sched_rb_left q k) (Some k) b1"
      by (rule rep_frame [OF sub(1)]) (use dis inner kd k Node in \<open>auto simp: same_at_iff ch6 pa6 pa3\<close>)
    moreover have "rep q6 (g_sched_rb_right q k) (Some k) b2"
      by (rule rep_frame [OF sub(2)]) (use dis inner kd k Node in \<open>auto simp: same_at_iff ch6 pa6 pa3\<close>)
    ultimately show ?thesis using Node k ch [of L] ch [of R] by (simp add: pa6 pa3)
  qed (use j(3) in simp)
  have ci: "child q6 d i = child q d i" "child q6 (opp d) i = child q d j"
      and cj: "child q6 d j = Some i" "child q6 (opp d) j = child q (opp d) j"
    using dis by (simp_all add: ch6)
  have "rep q6 (Some j) (cpar c) (mk d (mk d a i b) j e)"
    unfolding rep_mk cj ci using i j dis a6 b6 e6 by (auto simp: pa6 pa3)
  moreover have "same_rest q q6"
    using rest3(1) q4(5) by (simp add: q6_def same_rest_def)
  ultimately show ?thesis using run crep6 by blast
qed

end
