(* ===== verification/Ready_Queue_Inv.thy ===== *)
theory Ready_Queue_Inv
  imports Ready_Queue_Tree
begin

text \<open>
  Insertion into and removal from the ready queue: both stay inside the arrays and return, and the
  queue is afterwards the sorted sequence of the processes that are on it.
\<close>

section \<open>Walking down\<close>

lemma leftmost_from_ok: "rep q (Some i) par t \<Longrightarrow> leftmost_from q i = Some (hd (inorder t))"
proof (induction t arbitrary: i par)
  case (Node a k b)
  then show ?case
    by (cases "g_sched_rb_left q k")
       (auto simp: leftmost_from.simps [of q k] hd_append dest: rep_Leaf_iff)
qed simp

lemma crep_root: "crep q c p \<Longrightarrow> c \<noteq> [] \<Longrightarrow> \<exists>r\<in>cset c. g_sched_rq_root q = Some r"
proof (induction c arbitrary: p)
  case (Cons f c)
  obtain d i s where f: "f = (d, i, s)" by (cases f)
  then show ?case using Cons by (cases "c = []") auto
qed simp

lemma crep_not_root: "crep q c p \<Longrightarrow> c \<noteq> [] \<Longrightarrow> i \<notin> cset c \<Longrightarrow> g_sched_rq_root q \<noteq> Some i"
  using crep_root by fastforce

text \<open>The frames of a search path for \<open>x\<close>.\<close>

definition search_path :: "(nat \<Rightarrow> nat \<Rightarrow> bool) \<Rightarrow> nat \<Rightarrow> ctx \<Rightarrow> bool" where
  "search_path precedes x c \<longleftrightarrow> (\<forall>(d, i, s)\<in>set c. d = (if precedes x i then L else R))"

lemma insert_descend_ok:
  assumes "rep q p (cpar c) t" and "crep q c p" and "search_path precedes x c"
  shows "\<exists>c'. insert_descend precedes q x (cpar c) p = Some (cpar c') \<and> plug c' Leaf = plug c t \<and>
    crep q c' None \<and> search_path precedes x c'"
  using assms
proof (induction t arbitrary: p c)
  case Leaf
  then show ?case by (intro exI [of _ c]) (simp add: insert_descend.simps)
next
  case (Node a k b)
  let ?d = "if precedes x k then L else R"
  let ?s = "if precedes x k then b else a" and ?t = "if precedes x k then a else b"
  have c': "crep q ((?d, k, ?s) # c) (child q ?d k)" "rep q (child q ?d k) (Some k) ?t" "p = Some k"
      "search_path precedes x ((?d, k, ?s) # c)" "k < MAX_PROCESSES"
    using Node.prems by (auto simp: search_path_def)
  have "insert_descend precedes q x (cpar c) p = insert_descend precedes q x (Some k) (child q ?d k)"
    using c' by (simp add: insert_descend.simps [of _ _ _ _ "Some k"])
  with c' Node.IH [of _ "(?d, k, ?s) # c"] show ?case by (auto split: if_splits)
qed

section \<open>The fix-up after an insertion\<close>

definition root_black :: "ready_queue \<Rightarrow> bool" where
  "root_black q \<longleftrightarrow> (\<forall>r. g_sched_rq_root q = Some r \<longrightarrow> g_sched_rb_color q r = SCHED_RB_BLACK)"

definition fixed_up :: "ready_queue \<Rightarrow> nat list \<Rightarrow> ready_queue \<Rightarrow> bool" where
  "fixed_up q xs q' \<longleftrightarrow> g_sched_on_rq q' = g_sched_on_rq q \<and>
     (\<exists>t. rep q' (g_sched_rq_root q') None t \<and> inorder t = xs)"

lemma insert_fixup_stop:
  "x < MAX_PROCESSES \<Longrightarrow> g_sched_rq_root q \<noteq> Some x \<Longrightarrow> g_sched_rb_parent q x = Some y \<Longrightarrow> y < MAX_PROCESSES \<Longrightarrow>
   g_sched_rb_color q y = SCHED_RB_BLACK \<Longrightarrow> insert_fixup q (Some x) = Some q"
  by (auto simp: insert_fixup.simps [of q] is_red_def)

lemma fixed_upI:
  "crep q' c p \<Longrightarrow> rep q' p (cpar c) t \<Longrightarrow> inorder (plug c t) = xs \<Longrightarrow> g_sched_on_rq q' = g_sched_on_rq q \<Longrightarrow>
   fixed_up q xs q'"
  unfolding fixed_up_def using rep_plug by blast

text \<open>The rotations that end the loop, for the outer and for the inner grandchild.\<close>

lemma insert_outer:
  assumes c: "crep q c (Some g)" and t: "rep q (Some g) (cpar c) (mk d (mk d t p s) g u)"
    and dist: "distinct (inorder (plug c (mk d (mk d t p s) g u)))"
    and x: "x \<in> set_tree t" "g_sched_rb_parent q x = Some p" "rep q (Some x) (Some p) t"
    and col: "g_sched_rb_color q p = SCHED_RB_BLACK"
  shows "\<exists>q'. do { q \<leftarrow> scheduler_ready_queue_rotate (opp d) (Some g) q; insert_fixup q (Some x) } = Some q' \<and>
    fixed_up q (inorder (plug c (mk d (mk d t p s) g u))) q'"
proof -
  have eq: "mk d (mk d t p s) g u = mk (opp d) u g (mk (opp d) s p t)" by (simp add: mk_opp)
  obtain q' where rot: "scheduler_ready_queue_rotate (opp d) (Some g) q = Some q'"
      and c': "crep q' c (Some p)" and t': "rep q' (Some p) (cpar c) (mk (opp d) (mk (opp d) u g s) p t)"
      and rest: "same_rest q q'"
    using rotate_ok [OF c, of "opp d" u s p t] t dist eq by metis
  have sub: "rep q' (child q' d p) (Some p) t" "p < MAX_PROCESSES" using t' by (auto simp: rep_mk)
  have ptr: "child q' d p = Some x"
  proof (cases t)
    case (Node t1 y t2)
    then show ?thesis using sub(1) x(3) by simp
  qed (use x in simp)
  have xx: "x < MAX_PROCESSES" "g_sched_rb_parent q' x = Some p"
    using rep_Some [of q' x "Some p" t] sub ptr by simp_all
  have dp: "p \<noteq> x" "x \<notin> cset c" "p \<notin> cset c" using dist x(1) by (auto simp: distinct_plug)
  have "g_sched_rq_root q' \<noteq> Some x"
    using dp crep_not_root [OF c', of x] c' by (cases c) auto
  then have "insert_fixup q' (Some x) = Some q'"
    using xx sub(2) col rest by (intro insert_fixup_stop) (simp_all add: same_rest_def)
  moreover have "fixed_up q (inorder (plug c (mk d (mk d t p s) g u))) q'"
    using rest by (intro fixed_upI [OF c' t']) (simp_all add: same_rest_def inorder_plug eq inorder_rotate)
  ultimately show ?thesis using rot by simp
qed

lemma rep_child_neq: "rep q p par t \<Longrightarrow> i \<notin> set_tree t \<Longrightarrow> p \<noteq> Some i"
  using rep_Some by blast

lemma root_black_color:
  "root_black q \<Longrightarrow> k = SCHED_RB_BLACK \<or> g_sched_rq_root q \<noteq> Some i \<Longrightarrow> root_black (upd_color i k q)"
  by (auto simp: root_black_def)

text \<open>One iteration of the loop at a node \<open>i\<close> below a red parent \<open>p\<close> and a grandparent \<open>g\<close>.\<close>

lemma insert_fixup_step:
  assumes c: "crep q ((d1, p, s) # (d, g, u) # c) (Some i)" and t: "rep q (Some i) (Some p) t"
    and dist: "distinct (inorder (plug ((d1, p, s) # (d, g, u) # c) t))"
    and red: "g_sched_rb_color q p = SCHED_RB_RED"
    and IH: "\<And>q'. crep q' c (Some g) \<Longrightarrow> rep q' (Some g) (cpar c) (mk d (mk d1 t p s) g u) \<Longrightarrow>
      root_black q' \<or> c = [] \<Longrightarrow> g_sched_on_rq q' = g_sched_on_rq q \<Longrightarrow>
      \<exists>q''. insert_fixup q' (Some g) = Some q'' \<and>
        fixed_up q' (inorder (plug c (mk d (mk d1 t p s) g u))) q''"
    and root: "root_black q"
  shows "\<exists>q'. insert_fixup q (Some i) = Some q' \<and>
    fixed_up q (inorder (plug ((d1, p, s) # (d, g, u) # c) t)) q'"
proof -
  have p: "p < MAX_PROCESSES" "child q d1 p = Some i" "rep q (child q (opp d1) p) (Some p) s"
      "g_sched_rb_parent q p = Some g"
    and g: "g < MAX_PROCESSES" "child q d g = Some p" "rep q (child q (opp d) g) (Some g) u"
      "g_sched_rb_parent q g = cpar c" "crep q c (Some g)"
    using c by auto
  have dis: "i \<noteq> p" "i \<noteq> g" "p \<noteq> g" "i \<notin> set_tree s" "i \<notin> set_tree u" "p \<notin> set_tree u" "p \<notin> set_tree s"
      "g \<notin> set_tree u" "g \<notin> cset c" "p \<notin> cset c" "i \<notin> cset c" "set_tree u \<inter> cset c = {}"
    using dist rep_Some [OF t] by (auto simp: distinct_plug)
  have ib: "i < MAX_PROCESSES" "g_sched_rb_parent q i = Some p" using rep_Some [OF t] by simp_all
  have not_root: "g_sched_rq_root q \<noteq> Some i" using crep_not_root [OF c, of i] dis by auto
  have gl: "(if g_sched_rb_left q g = Some p then L else R) = d"
    using g(2,3) rep_child_neq [OF g(3) dis(6)] by (cases d) auto
  have ub: "w < MAX_PROCESSES" "w \<in> set_tree u" if "child q (opp d) g = Some w" for w
    using rep_Some g(3) that by auto
  show ?thesis
  proof (cases "red_node q (child q (opp d) g) = Some True")
    case True
    then obtain w where w: "child q (opp d) g = Some w" by (auto simp: red_node_def split: if_splits)
    let ?q = "upd_color g SCHED_RB_RED (upd_color w SCHED_RB_BLACK (upd_color p SCHED_RB_BLACK q))"
    have run: "insert_fixup q (Some i) = insert_fixup ?q (Some g)"
      using not_root ib p g True w ub red gl
      by (subst insert_fixup.simps) (auto simp: is_red_def Let_def)
    have "root_black ?q \<or> c = []"
      using root crep_not_root [OF g(5), of g] dis by (cases "c = []") (auto intro!: root_black_color)
    then obtain q'' where "insert_fixup ?q (Some g) = Some q''"
        "fixed_up ?q (inorder (plug c (mk d (mk d1 t p s) g u))) q''"
      using IH [of ?q] p g t by (auto simp: rep_mk)
    with run show ?thesis by (auto simp: fixed_up_def)
  next
    case False
    have black: "red_node q (child q (opp d) g) = Some False"
      using False ub by (cases "child q (opp d) g") (auto simp: red_node_def is_red_def)
    show ?thesis
    proof (cases "d1 = d")
      case True
      let ?q = "upd_color g SCHED_RB_RED (upd_color p SCHED_RB_BLACK q)"
      have far: "child q (opp d) p \<noteq> Some i" using rep_child_neq [OF p(3) dis(4)] True by simp
      have run: "insert_fixup q (Some i) =
          do { q \<leftarrow> scheduler_ready_queue_rotate (opp d) (Some g) ?q; insert_fixup q (Some i) }"
        using not_root ib p g black red gl far
        by (subst insert_fixup.simps) (auto simp: is_red_def Let_def)
      have "\<exists>q'. do { q \<leftarrow> scheduler_ready_queue_rotate (opp d) (Some g) ?q; insert_fixup q (Some i) } = Some q' \<and>
          fixed_up ?q (inorder (plug c (mk d (mk d t p s) g u))) q'"
        by (rule insert_outer) (use p g t ib dis dist True rep_Some [OF t] in \<open>auto simp: rep_mk\<close>)
      with run True show ?thesis by (auto simp: fixed_up_def)
    next
      case False
      then have d1: "d1 = opp d" by (cases d1; cases d) auto
      obtain b e where tt: "t = mk d b i e"
        using t mk_cases [of t d] by (cases "t = Leaf") (auto simp: rep_mk)
      have cg: "crep q ((d, g, u) # c) (Some p)" using g by simp
      have sub: "mk d1 t p s = mk d s p (mk d b i e)" by (simp add: d1 mk_opp tt)
      have tp: "rep q (Some p) (cpar ((d, g, u) # c)) (mk d s p (mk d b i e))"
        using p t by (simp add: rep_mk d1 tt)
      have dist': "distinct (inorder (plug ((d, g, u) # c) (mk d s p (mk d b i e))))"
        using dist by (simp add: sub)
      obtain q1 where rot: "scheduler_ready_queue_rotate d (Some p) q = Some q1"
          and c1: "crep q1 ((d, g, u) # c) (Some i)" and t1: "rep q1 (Some i) (Some g) (mk d (mk d s p b) i e)"
          and rest: "same_rest q q1"
        using rotate_ok [OF cg tp dist'] by auto
      have par1: "g_sched_rb_parent q1 p = Some i" "g_sched_rb_parent q1 i = Some g"
          "rep q1 (child q1 d i) (Some i) (mk d s p b)"
        using t1 by (auto simp: rep_mk)
      let ?q = "upd_color g SCHED_RB_RED (upd_color i SCHED_RB_BLACK q1)"
      have run: "insert_fixup q (Some i) =
          do { q \<leftarrow> scheduler_ready_queue_rotate (opp d) (Some g) ?q; insert_fixup q (Some p) }"
        using not_root ib p g black red gl rot par1 d1
        by (subst insert_fixup.simps) (auto simp: is_red_def Let_def)
      have "\<exists>q'. do { q \<leftarrow> scheduler_ready_queue_rotate (opp d) (Some g) ?q; insert_fixup q (Some p) } = Some q' \<and>
          fixed_up ?q (inorder (plug c (mk d (mk d (mk d s p b) i e) g u))) q'"
        by (rule insert_outer) (use c1 t1 par1 dis dist' in \<open>auto simp: rep_mk distinct_plug\<close>)
      moreover have "inorder (plug c (mk d (mk d (mk d s p b) i e) g u)) =
          inorder (plug c (mk d (mk d1 t p s) g u))"
        by (simp add: inorder_plug sub inorder_mk)
      ultimately show ?thesis using run rest by (auto simp: fixed_up_def same_rest_def)
    qed
  qed
qed

lemma insert_fixup_ok:
  assumes "crep q c (Some i)" and "rep q (Some i) (cpar c) t" and "distinct (inorder (plug c t))"
    and "root_black q \<or> c = []"
  shows "\<exists>q'. insert_fixup q (Some i) = Some q' \<and> fixed_up q (inorder (plug c t)) q'"
  using assms
proof (induction "length c" arbitrary: q c i t rule: less_induct)
  case less
  have fin: "fixed_up q (inorder (plug c t)) q"
    by (rule fixed_upI [OF less.prems(1,2)]) simp_all
  show ?case
  proof (cases c)
    case Nil
    then have "insert_fixup q (Some i) = Some q"
      using less.prems(1) by (simp add: insert_fixup.simps)
    with fin show ?thesis by blast
  next
    case (Cons f1 c1)
    obtain d1 p s where f1: "f1 = (d1, p, s)" by (cases f1)
    have p: "p < MAX_PROCESSES" "g_sched_rb_parent q i = Some p" "i < MAX_PROCESSES"
        "crep q c1 (Some p)"
      using less.prems(1,2) rep_Some by (auto simp: Cons f1)
    have ni: "i \<notin> cset c" using less.prems(3) rep_Some [OF less.prems(2)] by (auto simp: distinct_plug)
    show ?thesis
    proof (cases "g_sched_rb_color q p")
      case SCHED_RB_BLACK
      have "insert_fixup q (Some i) = Some q"
        by (rule insert_fixup_stop)
           (use p SCHED_RB_BLACK crep_not_root [OF less.prems(1) _ ni] Cons in auto)
      with fin show ?thesis by blast
    next
      case SCHED_RB_RED
      have root: "root_black q" using less.prems(4) Cons by simp
      with SCHED_RB_RED p(4) have "c1 \<noteq> []" by (auto simp: root_black_def)
      then obtain d g u c2 where c1: "c1 = (d, g, u) # c2" by (cases c1) auto
      show ?thesis
        unfolding Cons f1 c1
      proof (rule insert_fixup_step [OF _ _ _ SCHED_RB_RED _ root])
        fix q'
        assume "crep q' c2 (Some g)" "rep q' (Some g) (cpar c2) (mk d (mk d1 t p s) g u)"
          "root_black q' \<or> c2 = []"
        then show "\<exists>q''. insert_fixup q' (Some g) = Some q'' \<and>
            fixed_up q' (inorder (plug c2 (mk d (mk d1 t p s) g u))) q''"
          using less.prems(3) by (intro less.hyps) (auto simp: Cons f1 c1)
      qed (use less.prems in \<open>simp_all add: Cons f1 c1\<close>)
    qed
  qed
qed

section \<open>The invariant of the queue\<close>

text \<open>\<open>rq_inv precedes q xs\<close>: the tree is sound, its nodes in order are \<open>xs\<close>, these are exactly the
  processes marked as queued, and \<open>leftmost\<close> is the first of them.\<close>

definition first :: "nat list \<Rightarrow> nat option" where
  "first xs = (case xs of [] \<Rightarrow> None | x # _ \<Rightarrow> Some x)"

definition rq_inv :: "(nat \<Rightarrow> nat \<Rightarrow> bool) \<Rightarrow> ready_queue \<Rightarrow> nat list \<Rightarrow> bool" where
  "rq_inv precedes q xs \<longleftrightarrow>
     (\<exists>t. rep q (g_sched_rq_root q) None t \<and> inorder t = xs) \<and> sorted_wrt precedes xs \<and>
     set xs = {i. i < MAX_PROCESSES \<and> g_sched_on_rq q i} \<and>
     g_sched_rq_leftmost q = first xs \<and> root_black q"

text \<open>What the scheduler's comparison of processes has to provide.\<close>

locale rq_order =
  fixes precedes :: "nat \<Rightarrow> nat \<Rightarrow> bool"
  assumes irrefl: "\<not> precedes x x"
    and trans: "precedes x y \<Longrightarrow> precedes y z \<Longrightarrow> precedes x z"
    and total: "x \<noteq> y \<Longrightarrow> precedes x y \<or> precedes y x"
begin

lemma sorted_distinct: "sorted_wrt precedes xs \<Longrightarrow> distinct xs"
  by (induction xs) (auto simp: irrefl)

lemma search_path_sorted:
  assumes "search_path precedes x c" and "sorted_wrt precedes (cpre c @ cpost c)" and "x \<notin> cset c"
  shows "(\<forall>y\<in>set (cpre c). precedes y x) \<and> (\<forall>y\<in>set (cpost c). precedes x y)"
  using assms
proof (induction c)
  case (Cons f c)
  obtain d i s where f: "f = (d, i, s)" by (cases f)
  have tl: "search_path precedes x c" "x \<notin> cset c" "x \<noteq> i"
    using Cons.prems by (auto simp: f search_path_def)
  have d: "d = (if precedes x i then L else R)" using Cons.prems(1) by (simp add: f search_path_def)
  have sc: "sorted_wrt precedes (cpre c @ cpost c)"
    using Cons.prems(2) by (auto simp: f sorted_wrt_append split: if_splits)
  note IH = Cons.IH [OF tl(1) sc tl(2)]
  show ?case
  proof (cases "precedes x i")
    case True
    with Cons.prems(2) d have "\<forall>y\<in>set_tree s. precedes i y" by (auto simp: f sorted_wrt_append)
    with IH True d trans show ?thesis by (auto simp: f)
  next
    case False
    then have ix: "precedes i x" using total tl(3) by blast
    with Cons.prems(2) d False have "\<forall>y\<in>set_tree s. precedes y i" by (auto simp: f sorted_wrt_append)
    with IH ix d False trans show ?thesis by (auto simp: f)
  qed
qed simp

lemma search_path_insert:
  assumes "search_path precedes x c" and "sorted_wrt precedes (inorder (plug c Leaf))" and "x \<notin> cset c"
  shows "sorted_wrt precedes (inorder (plug c (Node Leaf x Leaf)))"
  using assms search_path_sorted [OF assms(1) _ assms(3)]
  by (auto simp: inorder_plug sorted_wrt_append)

end

lemma recompute_leftmost_ok:
  assumes "rep q (g_sched_rq_root q) None t"
  shows "scheduler_ready_queue_recompute_leftmost q = Some (q\<lparr>g_sched_rq_leftmost := first (inorder t)\<rparr>)"
  using assms leftmost_from_ok [of q _ None t]
  by (cases t) (auto simp: scheduler_ready_queue_recompute_leftmost_def first_def split: list.splits option.splits)

lemma rep_leftmost [simp]: "rep (q\<lparr>g_sched_rq_leftmost := m\<rparr>) p par t = rep q p par t"
  by (induction t arbitrary: p par) auto

text \<open>Linking a new leaf below the position that the descent found.\<close>

lemma link_leaf:
  assumes c: "crep q c None" and dist: "cdist c" "i \<notin> cset c" and i: "i < MAX_PROCESSES"
    and leaf: "child q L i = None" "child q R i = None" "g_sched_rb_parent q i = cpar c"
  obtains q' where
    "(case cpar c of None \<Rightarrow> Some (q\<lparr>g_sched_rq_root := Some i\<rparr>)
      | Some p \<Rightarrow> wr_child (fst (hd c)) (cpar c) (Some i) q) = Some q'"
    "crep q' c (Some i)" "rep q' (Some i) (cpar c) (Node Leaf i Leaf)" "same_rest q q'"
    "c \<noteq> [] \<Longrightarrow> g_sched_rq_root q' = g_sched_rq_root q"
proof (cases c)
  case Nil
  then show thesis using that i leaf by (auto simp: same_rest_def)
next
  case (Cons f c1)
  obtain d k s where f: "f = (d, k, s)" by (cases f)
  let ?q = "upd_child d k (Some i) q"
  have k: "k < MAX_PROCESSES" "rep q (child q (opp d) k) (Some k) s" "g_sched_rb_parent q k = cpar c1"
      "crep q c1 (Some k)" "k \<notin> set_tree s" "k \<notin> cset c1" "k \<noteq> i"
    using c dist by (auto simp: Cons f)
  have same: "same_at S q ?q" if "k \<notin> S" for S using that by (auto simp: same_at_iff)
  have "crep ?q c (Some i)"
    using k rep_frame [OF k(2) same] crep_frame [OF k(4) same] by (simp add: Cons f)
  moreover have "g_sched_rb_left ?q i = None" "g_sched_rb_right ?q i = None"
    using leaf k(7) child_upd(1) [of d k "Some i" q L] child_upd(1) [of d k "Some i" q R]
    by (auto split: if_splits)
  ultimately show thesis
    using k(1) leaf(3) i by (intro that [of ?q]) (auto simp: Cons f same_rest_def)
qed

context rq_order
begin

theorem insert_ok:
  assumes inv: "rq_inv precedes q xs" and i: "i < MAX_PROCESSES"
  shows "\<exists>q' ys. scheduler_ready_queue_insert precedes i q = Some q' \<and> rq_inv precedes q' ys \<and>
    g_sched_on_rq q' = (g_sched_on_rq q)(i := True)"
proof (cases "g_sched_on_rq q i")
  case True
  then show ?thesis using inv i by (auto simp: scheduler_ready_queue_insert_def fun_upd_idem)
next
  case False
  obtain t where t: "rep q (g_sched_rq_root q) None t" "inorder t = xs" "sorted_wrt precedes xs"
      "set xs = {i. i < MAX_PROCESSES \<and> g_sched_on_rq q i}" "root_black q"
    using inv by (auto simp: rq_inv_def)
  let ?q1 = "upd_child R i None (upd_child L i None q)"
  have ti: "i \<notin> set_tree t" using t(2,4) False set_inorder [of t] by auto
  have "same_at (set_tree t) q ?q1" using ti by (auto simp: same_at_def)
  then have t1: "rep ?q1 (g_sched_rq_root q) (cpar []) t" using rep_frame [OF t(1)] by simp
  obtain c where c: "insert_descend precedes ?q1 i None (g_sched_rq_root q) = Some (cpar c)"
      "plug c Leaf = t" "crep ?q1 c None" "search_path precedes i c"
    using insert_descend_ok [OF t1, of precedes i] by (auto simp: search_path_def)
  have dist: "cdist c" "i \<notin> cset c"
    using ti sorted_distinct [OF t(3)] t(2) c(2) by (auto simp: distinct_plug)
  let ?q2 = "(upd_color i SCHED_RB_RED (upd_parent i (cpar c) ?q1))
      \<lparr>g_sched_on_rq := (g_sched_on_rq q)(i := True)\<rparr>"
  have "same_at (cset c) ?q1 ?q2" using dist(2) by (auto simp: same_at_iff)
  then have c2: "crep ?q2 c None" by (rule crep_frame [OF c(3)]) simp
  obtain q3 where link: "(case cpar c of None \<Rightarrow> Some (?q2\<lparr>g_sched_rq_root := Some i\<rparr>)
        | Some p \<Rightarrow> wr_child (fst (hd c)) (cpar c) (Some i) ?q2) = Some q3"
      and c3: "crep q3 c (Some i)" "rep q3 (Some i) (cpar c) (Node Leaf i Leaf)" "same_rest ?q2 q3"
      and r3: "c \<noteq> [] \<Longrightarrow> g_sched_rq_root q3 = g_sched_rq_root ?q2"
    by (rule link_leaf [OF c2 dist i]) auto
  have side: "(case cpar c of None \<Rightarrow> Some (?q2\<lparr>g_sched_rq_root := Some i\<rparr>)
        | Some p \<Rightarrow> wr_child (if precedes i p then L else R) (cpar c) (Some i) ?q2) = Some q3"
    using link c(4) by (cases c) (auto simp: search_path_def)
  let ?ys = "inorder (plug c (Node Leaf i Leaf))"
  have sorted: "sorted_wrt precedes ?ys" by (rule search_path_insert) (use c t dist in auto)
  have "root_black q3 \<or> c = []"
  proof (cases "c = []")
    case False
    then obtain r where "r \<in> cset c" "g_sched_rq_root q3 = Some r" using crep_root [OF c3(1)] by blast
    with t(5) r3 False c3(3) dist(2) show ?thesis by (auto simp: root_black_def same_rest_def)
  qed simp
  then obtain q4 where q4: "insert_fixup q3 (Some i) = Some q4" "fixed_up q3 ?ys q4"
    using insert_fixup_ok [OF c3(1,2) sorted_distinct [OF sorted]] by blast
  then obtain t4 where t4: "rep q4 (g_sched_rq_root q4) None t4" "inorder t4 = ?ys"
      "g_sched_on_rq q4 = (g_sched_on_rq q)(i := True)"
    using c3(3) by (auto simp: fixed_up_def same_rest_def)
  have "t4 \<noteq> Leaf" using t4(2) by (auto simp: inorder_plug)
  then obtain r where r: "g_sched_rq_root q4 = Some r" "r < MAX_PROCESSES" using t4(1) by (cases t4) auto
  let ?q5 = "(upd_color r SCHED_RB_BLACK q4)\<lparr>g_sched_rq_leftmost := first ?ys\<rparr>"
  have run: "scheduler_ready_queue_insert precedes i q = Some ?q5"
    using False i c(1) side q4(1) r recompute_leftmost_ok [of "upd_color r SCHED_RB_BLACK q4" t4] t4
    by (cases "cpar c") (simp_all add: scheduler_ready_queue_insert_def Let_def)
  have "set ?ys = insert i (set xs)" using t(2) c(2) by (auto simp: inorder_plug)
  with t(4) t4 r sorted i have "rq_inv precedes ?q5 ?ys"
    by (auto simp: rq_inv_def root_black_def)
  with run t4(3) show ?thesis by auto
qed

end

end
