(* ===== verification/Ready_Queue_Remove.thy ===== *)
theory Ready_Queue_Remove
  imports Ready_Queue_Inv
begin

text \<open>Removal from the ready queue.\<close>

section \<open>Unlinking a node\<close>

lemma rep_reparent:
  assumes "rep q (Some k) par t" and "distinct (inorder t)"
  shows "rep (upd_parent k par' q) (Some k) par' t"
proof (cases t)
  case (Node a j b)
  have [simp]: "j = k" using assms(1) Node by simp
  have "same_at (set_tree a) q (upd_parent k par' q)" "same_at (set_tree b) q (upd_parent k par' q)"
    using assms(2) Node by (auto simp: same_at_def)
  then show ?thesis using assms(1) Node rep_frame by auto
qed (use assms in simp)

lemma transplant_ok:
  assumes c: "crep q c (Some i)" and i: "i < MAX_PROCESSES" "g_sched_rb_parent q i = cpar c"
    and n: "rep q p par n" "distinct (inorder n)" "set_tree n \<inter> cset c = {}"
    and dist: "cdist c" "i \<notin> cset c"
  shows "\<exists>q'. scheduler_ready_queue_transplant i p q = Some q' \<and> crep q' c p \<and> rep q' p (cpar c) n \<and>
    (\<forall>k e. k \<notin> cset c \<longrightarrow> child q' e k = child q e k) \<and>
    (\<forall>k. p \<noteq> Some k \<longrightarrow> g_sched_rb_parent q' k = g_sched_rb_parent q k) \<and> same_rest q q'"
proof -
  obtain q1 where q1: "relink L (cpar c) i p q = Some q1" "crep q1 c p"
      "g_sched_rb_parent q1 = g_sched_rb_parent q" "\<And>k e. k \<notin> cset c \<Longrightarrow> child q1 e k = child q e k"
      "same_rest q q1"
    using relink_ok [OF c dist, of L p] by blast
  have "same_at (set_tree n) q q1" using n(3) q1(3,4) by (auto simp: same_at_iff)
  then have n1: "rep q1 p par n" by (rule rep_frame [OF n(1)])
  show ?thesis
  proof (cases p)
    case None
    then have "n = Leaf" using n(1) rep_Leaf_iff by blast
    with None q1 i show ?thesis by (auto simp: scheduler_ready_queue_transplant_def)
  next
    case (Some k)
    have k: "k \<in> set_tree n" "k < MAX_PROCESSES" using rep_Some n(1) Some by auto
    let ?q = "upd_parent k (cpar c) q1"
    have "scheduler_ready_queue_transplant i p q = Some ?q"
      using q1(1) i k Some by (simp add: scheduler_ready_queue_transplant_def)
    moreover have "crep ?q c p"
      by (rule crep_frame [OF q1(2)]) (use k n(3) in \<open>auto simp: same_at_iff\<close>)
    moreover have "rep ?q p (cpar c) n" using rep_reparent n1 n(2) Some by simp
    ultimately show ?thesis using q1 Some by (auto simp: same_rest_def)
  qed
qed

text \<open>The last part of the removal of a node with two children: \<open>y\<close>, which has no left child yet,
  takes the place of \<open>i\<close> and its left subtree.\<close>

lemma unlink_finish:
  assumes c: "crep q c (Some i)" and i: "i < MAX_PROCESSES" "g_sched_rb_parent q i = cpar c"
    and l: "rep q (child q L i) (Some i) l" "l \<noteq> Leaf" and y: "rep q (Some y) par (Node Leaf y b)"
    and dist: "cdist c" "i \<notin> cset c" "distinct (inorder l)" "distinct (inorder (Node Leaf y b))"
      "set_tree l \<inter> cset c = {}" "set_tree l \<inter> set_tree (Node Leaf y b) = {}"
      "set_tree (Node Leaf y b) \<inter> cset c = {}" "i \<notin> set_tree l" "i \<notin> set_tree (Node Leaf y b)"
  shows "\<exists>q'. do {
         q \<leftarrow> scheduler_ready_queue_transplant i (Some y) q;
         left \<leftarrow> rd (g_sched_rb_left q) (Some i);
         q \<leftarrow> wr_child L (Some y) left q;
         q \<leftarrow> wr_parent left (Some y) q;
         color \<leftarrow> rd (g_sched_rb_color q) (Some i);
         wr_color (Some y) color q } = Some q' \<and>
    crep q' c (Some y) \<and> rep q' (Some y) (cpar c) (Node l y b) \<and>
    g_sched_rb_color q' = (g_sched_rb_color q)(y := g_sched_rb_color q i) \<and> g_sched_on_rq q' = g_sched_on_rq q"
proof -
  obtain q1 where q1: "scheduler_ready_queue_transplant i (Some y) q = Some q1" "crep q1 c (Some y)"
      "rep q1 (Some y) (cpar c) (Node Leaf y b)" "\<And>k e. k \<notin> cset c \<Longrightarrow> child q1 e k = child q e k"
      "\<And>k. y \<noteq> k \<Longrightarrow> g_sched_rb_parent q1 k = g_sched_rb_parent q k" "same_rest q q1"
    using transplant_ok [OF c i y dist(4,7,1,2)] by auto
  obtain w where w: "child q L i = Some w" using l rep_Leaf_iff by (cases "child q L i") auto
  have wl: "w \<in> set_tree l" "w < MAX_PROCESSES" using rep_Some l(1) w by auto
  have "same_at (set_tree l) q q1" using q1(4,5) dist(5,6) by (fastforce simp: same_at_iff)
  then have l1: "rep q1 (Some w) (Some i) l" using rep_frame [OF l(1)] w by simp
  have yb: "y < MAX_PROCESSES" "rep q1 (g_sched_rb_right q1 y) (Some y) b" "g_sched_rb_parent q1 y = cpar c"
    using q1(3) by auto
  have left: "g_sched_rb_left q1 i = Some w" using q1(4) [of i L] dist(2) w by simp
  let ?q2 = "upd_child L y (Some w) q1"
  let ?q3 = "upd_parent w (Some y) ?q2"
  have "rep ?q2 (Some w) (Some i) l"
    by (rule rep_frame [OF l1]) (use dist(6) in \<open>auto simp: same_at_def\<close>)
  then have l3: "rep ?q3 (Some w) (Some y) l" using dist(3) by (rule rep_reparent)
  have b3: "rep ?q3 (g_sched_rb_right q1 y) (Some y) b"
    by (rule rep_frame [OF yb(2)]) (use dist(4,6) wl in \<open>auto simp: same_at_def\<close>)
  have "crep ?q3 c (Some y)"
    by (rule crep_frame [OF q1(2)]) (use dist(5,7) wl in \<open>auto simp: same_at_def\<close>)
  moreover have "rep ?q3 (Some y) (cpar c) (Node l y b)"
    using l3 b3 yb dist(6) wl by auto
  moreover have "g_sched_rb_color q1 = g_sched_rb_color q" "g_sched_on_rq q1 = g_sched_on_rq q"
    using q1(6) by (auto simp: same_rest_def)
  ultimately show ?thesis
    using q1(1) left i(1) yb(1) wl
    by (intro exI [of _ "upd_color y (g_sched_rb_color q i) ?q3"]) simp
qed

lemma leftmost_position:
  "t \<noteq> Leaf \<Longrightarrow> \<exists>c b. t = plug c (Node Leaf (hd (inorder t)) b) \<and> cpre c = []"
proof (induction t)
  case (Node a k b)
  show ?case
  proof (cases "a = Leaf")
    case True
    then show ?thesis by (intro exI [of _ "[]"]) auto
  next
    case False
    with Node.IH(1) obtain c b' where "a = plug c (Node Leaf (hd (inorder a)) b')" "cpre c = []" by blast
    moreover have "hd (inorder (Node a k b)) = hd (inorder a)" using False by (cases a) (auto simp: hd_append)
    moreover have "cpre (c @ [(L, k, b)]) = cpre c" for c
      by (induction c) auto
    ultimately show ?thesis by (intro exI [of _ "c @ [(L, k, b)]"] exI [of _ b']) (simp add: plug_append)
  qed
qed simp

lemma cpar_append: "cpar (c @ c') = (if c = [] then cpar c' else cpar c)"
  by (cases c) auto

lemma cset_append [simp]: "cset (c @ c') = cset c \<union> cset c'"
  by (induction c) auto

lemma crep_append:
  "(\<exists>p. crep q (c @ c') p \<and> rep q p (cpar (c @ c')) t) \<longleftrightarrow> (\<exists>p. crep q c' p \<and> rep q p (cpar c') (plug c t))"
proof (induction c arbitrary: t)
  case (Cons f c)
  obtain d i s where f: "f = (d, i, s)" by (cases f)
  have "(\<exists>p. crep q ((f # c) @ c') p \<and> rep q p (cpar ((f # c) @ c')) t) \<longleftrightarrow>
      (\<exists>p. crep q (c @ c') p \<and> rep q p (cpar (c @ c')) (mk d t i s))"
    by (auto simp: f rep_mk)
  with Cons show ?case by (simp add: f)
qed simp

text \<open>What \<open>remove_unlink\<close> leaves: a tree without \<open>i\<close>, a hole in it where the fix-up starts.\<close>

definition unlinked ::
  "ready_queue \<Rightarrow> nat \<Rightarrow> nat list \<Rightarrow> ready_queue \<times> rb_color \<times> nat option \<times> nat option \<Rightarrow> bool" where
  "unlinked q i xs r \<longleftrightarrow> (case r of (q', col, repl, up) \<Rightarrow>
     \<exists>c h. crep q' c repl \<and> rep q' repl (cpar c) h \<and> up = cpar c \<and> inorder (plug c h) = filter (\<lambda>k. k \<noteq> i) xs \<and>
       g_sched_on_rq q' = g_sched_on_rq q \<and> (root_black q' \<or> col = SCHED_RB_BLACK \<and> c = []))"

lemma filter_neq: "i \<notin> set xs \<Longrightarrow> filter (\<lambda>k. k \<noteq> i) xs = xs"
  by (induction xs) auto

lemma filter_plug:
  assumes "i \<notin> cset c" and "i \<notin> set_tree a" and "i \<notin> set_tree b"
  shows "filter (\<lambda>k. k \<noteq> i) (inorder (plug c (Node a i b))) = cpre c @ inorder a @ inorder b @ cpost c"
proof -
  have "set (cpre c) \<union> set (cpost c) = cset c"
    by (induction c) (auto split: if_splits)
  then have "i \<notin> set (cpre c)" "i \<notin> set (cpost c)" using assms(1) by auto
  with assms show ?thesis by (simp add: inorder_plug filter_neq)
qed

lemma root_black_same:
  assumes "root_black q" and "same_rest q q'" and "g_sched_rq_root q' = g_sched_rq_root q"
  shows "root_black q'"
  using assms by (auto simp: root_black_def same_rest_def)

lemma crep_same_root: "crep q c p \<Longrightarrow> crep q' c p' \<Longrightarrow> c \<noteq> [] \<Longrightarrow> g_sched_rq_root q' = g_sched_rq_root q"
proof (induction c arbitrary: p p')
  case (Cons f c)
  obtain d i s where f: "f = (d, i, s)" by (cases f)
  show ?case using Cons by (cases "c = []") (auto simp: f)
qed simp

text \<open>One subtree is missing: the other takes the place of the node.\<close>

lemma unlink_one:
  assumes c: "crep q c (Some i)" and t: "rep q (Some i) (cpar c) (mk d Leaf i n)"
    and dist: "distinct (inorder (plug c (mk d Leaf i n)))" and root: "root_black q"
  shows "\<exists>q'. scheduler_ready_queue_transplant i (child q (opp d) i) q = Some q' \<and>
    unlinked q i (inorder (plug c (mk d Leaf i n)))
      (q', g_sched_rb_color q i, child q (opp d) i, g_sched_rb_parent q i)"
proof -
  have i: "i < MAX_PROCESSES" "g_sched_rb_parent q i = cpar c" "rep q (child q (opp d) i) (Some i) n"
    using t by (auto simp: rep_mk)
  have dis: "distinct (inorder n)" "set_tree n \<inter> cset c = {}" "cdist c" "i \<notin> cset c" "i \<notin> set_tree n"
    using dist by (auto simp: distinct_plug)
  obtain q' where q': "scheduler_ready_queue_transplant i (child q (opp d) i) q = Some q'"
      "crep q' c (child q (opp d) i)" "rep q' (child q (opp d) i) (cpar c) n" "same_rest q q'"
    using transplant_ok [OF c i(1,2,3) dis(1-4)] by blast
  have "inorder (plug c n) = filter (\<lambda>k. k \<noteq> i) (inorder (plug c (mk d Leaf i n)))"
    using filter_plug [OF dis(4), of n Leaf] filter_plug [OF dis(4), of Leaf n] dis(5)
    by (cases d) (simp_all add: inorder_plug)
  moreover have "root_black q' \<or> g_sched_rb_color q i = SCHED_RB_BLACK \<and> c = []"
  proof (cases "c = []")
    case True
    then show ?thesis using root c by (auto simp: root_black_def)
  next
    case False
    then show ?thesis using root_black_same [OF root q'(4)] crep_same_root [OF c q'(2)] by blast
  qed
  ultimately show ?thesis using q' i(2) by (auto simp: unlinked_def same_rest_def)
qed

lemma root_black_recolor:
  assumes c: "crep q c (Some i)" "crep q' c (Some y)" and root: "root_black q"
    and col: "g_sched_rb_color q' = (g_sched_rb_color q)(y := g_sched_rb_color q i)" and y: "y \<notin> cset c"
  shows "root_black q'"
proof (cases "c = []")
  case True
  then show ?thesis using assms by (auto simp: root_black_def)
next
  case False
  obtain r where "r \<in> cset c" "g_sched_rq_root q = Some r" using crep_root [OF c(1) False] by blast
  with root col y crep_same_root [OF c False] show ?thesis by (auto simp: root_black_def)
qed

text \<open>Both subtrees are there: the first node \<open>y\<close> of the right one takes the place of the node. When
  \<open>y\<close> is not the right child itself, it is first taken out of the right subtree.\<close>

lemma unlink_successor:
  assumes c: "crep q c (Some i)" and t: "rep q (Some i) (cpar c) (Node l i (plug c' (Node Leaf y b)))"
    and ne: "c' \<noteq> []"
    and dist: "distinct (inorder (plug c (Node l i (plug c' (Node Leaf y b)))))"
  shows "\<exists>q1 z. scheduler_ready_queue_transplant y (g_sched_rb_right q y) q = Some q1 \<and>
    g_sched_rb_right q1 i = Some z \<and> z < MAX_PROCESSES \<and> crep q1 c (Some i) \<and>
    g_sched_rb_parent q1 i = cpar c \<and> rep q1 (child q1 L i) (Some i) l \<and> same_rest q q1 \<and>
    rep (upd_parent z (Some y) (upd_child R y (Some z) q1)) (Some y) (g_sched_rb_parent q1 y)
      (Node Leaf y (plug c' b)) \<and>
    z \<in> set_tree (plug c' b)"
proof -
  let ?cc = "c' @ (R, i, l) # c"
  have sub: "crep q ((R, i, l) # c) (g_sched_rb_right q i)"
      "rep q (g_sched_rb_right q i) (cpar ((R, i, l) # c)) (plug c' (Node Leaf y b))"
    using c t by auto
  then obtain p where cc: "crep q ?cc p" "rep q p (cpar ?cc) (Node Leaf y b)"
    using crep_append [of q c' "(R, i, l) # c" "Node Leaf y b"] by blast
  have y: "p = Some y" "y < MAX_PROCESSES" "g_sched_rb_parent q y = cpar ?cc" "g_sched_rb_left q y = None"
      "rep q (g_sched_rb_right q y) (Some y) b"
    using cc(2) by auto
  have dcc: "distinct (inorder (plug ?cc (Node Leaf y b)))"
    using dist by (simp add: plug_append)
  then have dis: "distinct (inorder b)" "set_tree b \<inter> cset ?cc = {}" "cdist ?cc" "y \<notin> cset ?cc" "y \<notin> set_tree b"
    unfolding distinct_plug by auto
  obtain q1 where q1: "scheduler_ready_queue_transplant y (g_sched_rb_right q y) q = Some q1"
      "crep q1 ?cc (g_sched_rb_right q y)" "rep q1 (g_sched_rb_right q y) (cpar ?cc) b"
      "\<And>k e. k \<notin> cset ?cc \<Longrightarrow> child q1 e k = child q e k"
      "\<And>k. g_sched_rb_right q y \<noteq> Some k \<Longrightarrow> g_sched_rb_parent q1 k = g_sched_rb_parent q k"
      "same_rest q q1"
    using transplant_ok [OF cc(1) [unfolded y(1)] y(2,3,5) dis(1-4)] by blast
  have "\<exists>p. crep q1 ((R, i, l) # c) p \<and> rep q1 p (cpar ((R, i, l) # c)) (plug c' b)"
    using crep_append [of q1 c' "(R, i, l) # c" b] q1(2,3) by blast
  then have top: "rep q1 (g_sched_rb_right q1 i) (Some i) (plug c' b)" "crep q1 c (Some i)"
      "g_sched_rb_parent q1 i = cpar c" "rep q1 (child q1 L i) (Some i) l"
    by auto
  have "plug c' b \<noteq> Leaf"
  proof -
    obtain f c2 where "c' = f # c2" using ne by (cases c') auto
    then have "cset c' \<noteq> {}" by (cases f) auto
    then show ?thesis by (metis Un_empty set_tree_plug tree.set(1))
  qed
  then obtain z where z: "g_sched_rb_right q1 i = Some z"
    using top(1) rep_Leaf_iff by (cases "g_sched_rb_right q1 i") auto
  have zs: "z \<in> set_tree (plug c' b)" "z < MAX_PROCESSES" using rep_Some [OF top(1) [unfolded z]] by simp_all
  let ?q2 = "upd_child R y (Some z) q1"
  have yn: "y \<notin> set_tree (plug c' b)" using dis(4,5) by auto
  have "rep ?q2 (Some z) (Some i) (plug c' b)"
    using rep_frame [OF top(1) [unfolded z], of ?q2] yn by (auto simp: same_at_def)
  moreover have "distinct (inorder (plug c' b))" using dist by (auto simp: distinct_plug)
  ultimately have "rep (upd_parent z (Some y) ?q2) (Some z) (Some y) (plug c' b)" by (rule rep_reparent)
  moreover have "g_sched_rb_left q1 y = None" using q1(4) [OF dis(4), of L] y(4) by simp
  ultimately have "rep (upd_parent z (Some y) ?q2) (Some y) (g_sched_rb_parent q1 y) (Node Leaf y (plug c' b))"
    using y(2) yn zs by auto
  with q1 top z zs show ?thesis by auto
qed

lemma rep_ptr_unique: "rep q p par t \<Longrightarrow> rep q' p' par' t \<Longrightarrow> p = p'"
  by (cases t) auto

lemma unlink_both:
  assumes c: "crep q c (Some i)" and t: "rep q (Some i) (cpar c) (Node l i r)" "l \<noteq> Leaf" "r \<noteq> Leaf"
    and dist: "distinct (inorder (plug c (Node l i r)))" and root: "root_black q"
  shows "\<exists>res. remove_unlink i q = Some res \<and> unlinked q i (inorder (plug c (Node l i r))) res"
proof -
  obtain c' b where r: "r = plug c' (Node Leaf (hd (inorder r)) b)" "cpre c' = []"
    using leftmost_position [OF t(3)] by blast
  define y where "y = hd (inorder r)"
  have i: "i < MAX_PROCESSES" "g_sched_rb_parent q i = cpar c" "rep q (child q L i) (Some i) l"
      "rep q (g_sched_rb_right q i) (Some i) r"
    using t(1) by auto
  have lr: "g_sched_rb_left q i \<noteq> None" "g_sched_rb_right q i \<noteq> None"
    using i(3,4) t(2,3) rep_Leaf_iff by auto
  then obtain j w where j: "g_sched_rb_right q i = Some j" and w: "g_sched_rb_left q i = Some w" by blast
  have min: "scheduler_ready_queue_minimum q (g_sched_rb_right q i) = Some (Some y)"
    using leftmost_from_ok i(4) j by (simp add: scheduler_ready_queue_minimum_def y_def)
  have ry: "r = plug c' (Node Leaf y b)" using r(1) y_def by simp
  have dis: "distinct (inorder l)" "distinct (inorder (plug c' (Node Leaf y b)))" "cdist c" "i \<notin> cset c"
      "i \<notin> set_tree l" "i \<notin> set_tree r" "set_tree l \<inter> set_tree r = {}" "set_tree l \<inter> cset c = {}"
      "set_tree r \<inter> cset c = {}" "y \<in> set_tree r" "set_tree b \<subseteq> set_tree r" "cset c' \<subseteq> set_tree r"
    using dist by (auto simp: distinct_plug ry)
  then have dy: "distinct (inorder b)" "y \<notin> set_tree b" "y \<notin> cset c'" "cdist c'" "set_tree b \<inter> cset c' = {}"
    by (auto simp: distinct_plug)
  obtain p where yc: "crep q (c' @ (R, i, l) # c) p" "rep q p (cpar (c' @ (R, i, l) # c)) (Node Leaf y b)"
    using crep_append [of q c' "(R, i, l) # c" "Node Leaf y b"] c t(1) ry by auto
  have y: "y < MAX_PROCESSES" "g_sched_rb_parent q y = cpar (c' @ (R, i, l) # c)" "g_sched_rb_left q y = None"
      "rep q (g_sched_rb_right q y) (Some y) b"
    using yc(2) by auto
  have fin: "\<exists>q'. do {
         q \<leftarrow> scheduler_ready_queue_transplant i (Some y) q2;
         left \<leftarrow> rd (g_sched_rb_left q) (Some i);
         q \<leftarrow> wr_child L (Some y) left q;
         q \<leftarrow> wr_parent left (Some y) q;
         color \<leftarrow> rd (g_sched_rb_color q) (Some i);
         wr_color (Some y) color q } = Some q' \<and>
      unlinked q i (inorder (plug c (Node l i r)))
        (q', g_sched_rb_color q y, g_sched_rb_right q y, cpar (c' @ [(R, y, l)]))"
    if q2: "crep q2 c (Some i)" "g_sched_rb_parent q2 i = cpar c" "rep q2 (child q2 L i) (Some i) l"
      "rep q2 (Some y) par (Node Leaf y (plug c' b))" "same_rest q q2" for q2 par
  proof -
    have d2: "distinct (inorder (Node Leaf y (plug c' b)))" "set_tree (Node Leaf y (plug c' b)) \<subseteq> set_tree r"
      using dis dy by (auto simp: distinct_plug)
    obtain q' where run: "do {
         q \<leftarrow> scheduler_ready_queue_transplant i (Some y) q2;
         left \<leftarrow> rd (g_sched_rb_left q) (Some i);
         q \<leftarrow> wr_child L (Some y) left q;
         q \<leftarrow> wr_parent left (Some y) q;
         color \<leftarrow> rd (g_sched_rb_color q) (Some i);
         wr_color (Some y) color q } = Some q'"
        and q': "crep q' c (Some y)" "rep q' (Some y) (cpar c) (Node l y (plug c' b))"
          "g_sched_rb_color q' = (g_sched_rb_color q)(y := g_sched_rb_color q i)"
          "g_sched_on_rq q' = g_sched_on_rq q"
      using unlink_finish [OF q2(1) i(1) q2(2,3) t(2) q2(4) dis(3,4,1) d2(1) dis(8)] d2(2) dis q2(5)
      by (fastforce simp: same_rest_def)
    have "root_black q'"
      by (rule root_black_recolor [OF c q'(1) root q'(3)]) (use dis in auto)
    moreover obtain p where p: "crep q' (c' @ (R, y, l) # c) p" "rep q' p (cpar (c' @ (R, y, l) # c)) b"
      using crep_append [of q' c' "(R, y, l) # c" b] q'(1,2) by auto
    moreover have "inorder (plug (c' @ (R, y, l) # c) b) = filter (\<lambda>k. k \<noteq> i) (inorder (plug c (Node l i r)))"
      unfolding filter_plug [OF dis(4,5,6)] by (simp add: plug_append inorder_plug ry r(2))
    ultimately have "unlinked q i (inorder (plug c (Node l i r)))
        (q', g_sched_rb_color q y, g_sched_rb_right q y, cpar (c' @ [(R, y, l)]))"
      using rep_ptr_unique [OF y(4)] q'(4) by (auto simp: unlinked_def cpar_append intro!: exI [of _ "c' @ (R, y, l) # c"])
    with run show ?thesis by blast
  qed
  show ?thesis
  proof (cases "c' = []")
    case True
    let ?q2 = "case g_sched_rb_right q y of None \<Rightarrow> q | Some k \<Rightarrow> upd_parent k (Some y) q"
    have ik: "k \<in> set_tree b \<and> k < MAX_PROCESSES \<and> g_sched_rb_parent q k = Some y"
      if "g_sched_rb_right q y = Some k" for k
      using rep_Some y(4) that by auto
    have same: "?q2 = q" using ik by (auto simp: upd_parent_def fun_upd_idem split: option.split)
    have par: "g_sched_rb_parent q y = Some i" using y(2) True by simp
    obtain q' where run: "do {
         q \<leftarrow> scheduler_ready_queue_transplant i (Some y) q;
         left \<leftarrow> rd (g_sched_rb_left q) (Some i);
         q \<leftarrow> wr_child L (Some y) left q;
         q \<leftarrow> wr_parent left (Some y) q;
         color \<leftarrow> rd (g_sched_rb_color q) (Some i);
         wr_color (Some y) color q } = Some q'"
        and ok: "unlinked q i (inorder (plug c (Node l i r)))
          (q', g_sched_rb_color q y, g_sched_rb_right q y, cpar (c' @ [(R, y, l)]))"
      using fin [OF c i(2,3), of "Some i"] i(4) ry True by (auto simp: same_rest_def)
    have up: "(if g_sched_rb_right q y \<noteq> None then wr_parent (g_sched_rb_right q y) (Some y) q else Some q) = Some q"
      using same ik by (cases "g_sched_rb_right q y") auto
    have "remove_unlink i q = Some (q', g_sched_rb_color q y, g_sched_rb_right q y, Some y)"
      using i(1) j w min y(1) par up run
      by (auto simp: remove_unlink_def bind_eq_Some_conv)
    with ok True show ?thesis by auto
  next
    case False
    obtain q1 z where q1: "scheduler_ready_queue_transplant y (g_sched_rb_right q y) q = Some q1"
        "g_sched_rb_right q1 i = Some z" "z < MAX_PROCESSES" "crep q1 c (Some i)" "g_sched_rb_parent q1 i = cpar c"
        "rep q1 (child q1 L i) (Some i) l" "same_rest q q1"
        "rep (upd_parent z (Some y) (upd_child R y (Some z) q1)) (Some y) (g_sched_rb_parent q1 y)
          (Node Leaf y (plug c' b))" "z \<in> set_tree (plug c' b)"
      using unlink_successor [OF c t(1) [unfolded ry] False dist [unfolded ry]] by blast
    let ?q2 = "upd_parent z (Some y) (upd_child R y (Some z) q1)"
    have off: "z \<notin> cset c" "y \<notin> cset c" "z \<noteq> i" "y \<noteq> i" "z \<notin> set_tree l" "y \<notin> set_tree l"
      using q1(9) dis by auto
    have c2: "crep ?q2 c (Some i)"
      by (rule crep_frame [OF q1(4)]) (use off in \<open>auto simp: same_at_def\<close>)
    have l2: "rep ?q2 (child q1 L i) (Some i) l"
      by (rule rep_frame [OF q1(6)]) (use off in \<open>auto simp: same_at_def\<close>)
    obtain q' where run: "do {
         q \<leftarrow> scheduler_ready_queue_transplant i (Some y) ?q2;
         left \<leftarrow> rd (g_sched_rb_left q) (Some i);
         q \<leftarrow> wr_child L (Some y) left q;
         q \<leftarrow> wr_parent left (Some y) q;
         color \<leftarrow> rd (g_sched_rb_color q) (Some i);
         wr_color (Some y) color q } = Some q'"
        and ok: "unlinked q i (inorder (plug c (Node l i r)))
          (q', g_sched_rb_color q y, g_sched_rb_right q y, cpar (c' @ [(R, y, l)]))"
      using fin [OF c2 _ _ q1(8)] l2 q1(5,7) off by (auto simp: same_rest_def)
    have up: "cpar (c' @ [(R, y, l)]) = cpar c'" "cpar (c' @ (R, i, l) # c) = cpar c'"
      using False by (simp_all add: cpar_append)
    have "cpar c' \<noteq> Some i" using False dis(6,12) by (cases c') auto
    then have "remove_unlink i q = Some (q', g_sched_rb_color q y, g_sched_rb_right q y, cpar c')"
      using i(1) j w min y(1,2) q1(1,2,3) up run
      by (auto simp: remove_unlink_def bind_eq_Some_conv)
    with ok up show ?thesis by auto
  qed
qed

lemma unlink_ok:
  assumes c: "crep q c (Some i)" and t: "rep q (Some i) (cpar c) (Node l i r)"
    and dist: "distinct (inorder (plug c (Node l i r)))" and root: "root_black q"
  shows "\<exists>res. remove_unlink i q = Some res \<and> unlinked q i (inorder (plug c (Node l i r))) res"
proof -
  have i: "i < MAX_PROCESSES" using t by simp
  have ptr: "g_sched_rb_left q i = None \<longleftrightarrow> l = Leaf" "g_sched_rb_right q i = None \<longleftrightarrow> r = Leaf"
    using t rep_Leaf_iff by auto
  consider "l = Leaf" | "l \<noteq> Leaf" "r = Leaf" | "l \<noteq> Leaf" "r \<noteq> Leaf" by blast
  then show ?thesis
  proof cases
    case 1
    then show ?thesis
      using unlink_one [OF c, of L r] t dist root i ptr by (auto simp: remove_unlink_def)
  next
    case 2
    then show ?thesis
      using unlink_one [OF c, of R l] t dist root i ptr by (auto simp: remove_unlink_def)
  next
    case 3
    then show ?thesis using unlink_both [OF c t _ _ dist root] by blast
  qed
qed

section \<open>The fix-up after a removal\<close>

definition blk :: "ready_queue \<Rightarrow> nat option \<Rightarrow> bool" where
  "blk q p \<longleftrightarrow> (\<forall>i. p = Some i \<longrightarrow> g_sched_rb_color q i = SCHED_RB_BLACK)"

lemma color_tests:
  assumes "rep q p par t"
  shows "black_node q p = Some (blk q p)" and "red_node q p = Some (\<not> blk q p)"
  using assms rep_Some [of q _ par t]
  by (cases p; auto simp: black_node_def red_node_def is_red_def blk_def intro: rb_color.exhaust)+

text \<open>A position in the tree during the fix-up: the hole \<open>h\<close> at \<open>p\<close> below the node \<open>k\<close> on side \<open>d\<close>,
  with the sibling subtree \<open>s\<close>.\<close>

definition at_hole ::
  "ready_queue \<Rightarrow> side \<Rightarrow> nat \<Rightarrow> nat tree \<Rightarrow> ctx \<Rightarrow> nat option \<Rightarrow> nat tree \<Rightarrow> nat list \<Rightarrow> bool" where
  "at_hole q d k s c p h xs \<longleftrightarrow> crep q ((d, k, s) # c) p \<and> rep q p (Some k) h \<and>
     distinct xs \<and> inorder (plug ((d, k, s) # c) h) = xs"

lemma at_hole_facts:
  assumes "at_hole q d k s c p h xs"
  shows "k < MAX_PROCESSES" and "child q d k = p" and "rep q (child q (opp d) k) (Some k) s"
    and "g_sched_rb_parent q k = cpar c" and "crep q c (Some k)" and "rep q p (Some k) h"
    and "rep q (Some k) (cpar c) (mk d h k s)" and "inorder (plug c (mk d h k s)) = xs"
    and "distinct (inorder (plug c (mk d h k s)))" and "k \<notin> cset c" and "set_tree s \<inter> cset c = {}"
    and "k \<notin> set_tree s" and "cdist c"
  using assms by (auto simp: at_hole_def rep_mk distinct_plug)

lemma at_hole_color [simp]: "at_hole (upd_color i col q) d k s c p h xs = at_hole q d k s c p h xs"
  by (simp add: at_hole_def)

text \<open>A red sibling is rotated above the parent.\<close>

lemma fixup_red_sibling:
  assumes h: "at_hole q d k s c p h xs" and root: "root_black q"
  shows "\<exists>q1 s1 c1.
    fixup_raise_sibling d (Some k) (child q (opp d) k) q = Some (q1, child q1 (opp d) k) \<and>
    at_hole q1 d k s1 c1 p h xs \<and> g_sched_on_rq q1 = g_sched_on_rq q \<and> root_black q1 \<and>
    (c1 = c \<or> c1 \<noteq> [] \<and> g_sched_rb_color q1 k = SCHED_RB_RED)"
proof (cases "blk q (child q (opp d) k)")
  case True
  then show ?thesis
    using h root color_tests(2) [OF at_hole_facts(3) [OF h]] by (auto simp: fixup_raise_sibling_def)
next
  case False
  note f = at_hole_facts [OF h]
  obtain j where j: "child q (opp d) k = Some j" using False by (auto simp: blk_def)
  have js: "j \<in> set_tree s" "j < MAX_PROCESSES" using rep_Some f(3) j by auto
  obtain b e where s: "s = mk d b j e"
    using f(3) j mk_cases [of s d] by (cases "s = Leaf") (auto simp: rep_mk)
  let ?q = "upd_color k SCHED_RB_RED (upd_color j SCHED_RB_BLACK q)"
  obtain q1 where rot: "scheduler_ready_queue_rotate d (Some k) ?q = Some q1"
      and c1: "crep q1 c (Some j)" and t1: "rep q1 (Some j) (cpar c) (mk d (mk d h k b) j e)"
      and rest: "same_rest ?q q1"
    using rotate_ok [of ?q c k d h b j e] f(5,7,9) by (auto simp: s)
  have "inorder (plug c (mk d (mk d h k b) j e)) = xs"
    using f(8) by (simp add: inorder_plug s inorder_rotate)
  moreover have "distinct xs" using h by (simp add: at_hole_def)
  moreover have "j < MAX_PROCESSES" "child q1 d j = Some k" "k < MAX_PROCESSES" "g_sched_rb_parent q1 k = Some j"
      "rep q1 (child q1 d k) (Some k) h" "rep q1 (child q1 (opp d) k) (Some k) b"
      "rep q1 (child q1 (opp d) j) (Some j) e" "g_sched_rb_parent q1 j = cpar c"
    using t1 by (auto simp: rep_mk)
  moreover from this(5) have "child q1 d k = p" using rep_ptr_unique [OF f(6)] by simp
  ultimately have "at_hole q1 d k b ((d, j, e) # c) p h xs"
    using c1 by (simp add: at_hole_def)
  moreover have "root_black q1"
  proof (cases "c = []")
    case True
    then show ?thesis using c1 rest f(12) js(1) by (auto simp: root_black_def same_rest_def)
  next
    case False
    obtain r where "r \<in> cset c" "g_sched_rq_root q = Some r" using crep_root [OF f(5) False] by blast
    with root rest crep_same_root [OF f(5) c1 False] f(10,11) js(1) show ?thesis
      by (auto simp: root_black_def same_rest_def)
  qed
  moreover have "g_sched_rb_color q1 k = SCHED_RB_RED" "g_sched_on_rq q1 = g_sched_on_rq q"
    using rest by (auto simp: same_rest_def)
  ultimately show ?thesis
    using False j js f(1) rot color_tests(2) [OF f(3)]
    by (intro exI [of _ q1] exI [of _ b] exI [of _ "(d, j, e) # c"]) (simp add: fixup_raise_sibling_def)
qed

text \<open>A red child of the sibling: one or two rotations end the loop.\<close>

lemma fixup_inner_red:
  assumes h: "at_hole q d k s c p h xs" and s: "s = mk d (mk d x n y) j e"
    and black: "blk q (child q (opp d) j)"
  shows "\<exists>q1. fixup_rotate_sibling d (Some k) (Some j) q = Some (q1, Some n) \<and>
    at_hole q1 d k (mk d x n (mk d y j e)) c p h xs \<and> g_sched_on_rq q1 = g_sched_on_rq q"
proof -
  note f = at_hole_facts [OF h]
  have j: "child q (opp d) k = Some j" "j < MAX_PROCESSES" "child q d j = Some n" "n < MAX_PROCESSES"
    using f(3) by (auto simp: s rep_mk)
  let ?q = "upd_color j SCHED_RB_RED (upd_color n SCHED_RB_BLACK q)"
  have cj: "crep ?q ((opp d, k, h) # c) (Some j)" using f j by simp
  have tj: "rep ?q (Some j) (cpar ((opp d, k, h) # c)) (mk (opp d) e j (mk (opp d) y n x))"
    using f(3) j by (simp add: s mk_opp)
  have xs: "inorder (plug ((opp d, k, h) # c) (mk (opp d) e j (mk (opp d) y n x))) = xs"
    using f(8) by (simp add: s mk_opp)
  obtain q1 where rot: "scheduler_ready_queue_rotate (opp d) (Some j) ?q = Some q1"
      and c1: "crep q1 ((opp d, k, h) # c) (Some n)"
      and t1: "rep q1 (Some n) (Some k) (mk (opp d) (mk (opp d) e j y) n x)" and rest: "same_rest ?q q1"
    using rotate_ok [OF cj tj] xs h by (auto simp: at_hole_def)
  have "child q1 (opp d) k = Some n" "child q1 d k = p"
    using c1 rep_ptr_unique [OF f(6)] by auto
  moreover have "inorder (plug c (mk d h k (mk d x n (mk d y j e)))) = xs"
    using f(8) by (cases d) (simp_all add: inorder_plug s)
  moreover have "distinct xs" using h by (simp add: at_hole_def)
  ultimately have "at_hole q1 d k (mk d x n (mk d y j e)) c p h xs"
    using c1 t1 by (auto simp: at_hole_def mk_opp)
  moreover have "rep q (child q (opp d) j) (Some j) e" using f(3) j by (simp add: s rep_mk)
  note color_tests(1) [OF this]
  ultimately show ?thesis
    using rot j f(1) \<open>child q1 (opp d) k = Some n\<close> rest black
    by (auto simp: same_rest_def fixup_rotate_sibling_def)
qed

lemma fixup_outer_red:
  assumes h: "at_hole q d k (mk d b m e) c p h xs"
  shows "\<exists>q1. fixup_last_rotation d (Some k) (Some m) q = Some q1 \<and>
    fixed_up q xs q1 \<and> (\<exists>r. g_sched_rq_root q1 = Some r \<and> r < MAX_PROCESSES)"
proof -
  note f = at_hole_facts [OF h]
  have m: "child q (opp d) k = Some m" "m < MAX_PROCESSES" "rep q (child q (opp d) m) (Some m) e"
    using f(3) by (auto simp: rep_mk)
  let ?q0 = "upd_color k SCHED_RB_BLACK (upd_color m (g_sched_rb_color q k) q)"
  let ?q = "case child q (opp d) m of None \<Rightarrow> ?q0 | Some w \<Rightarrow> upd_color w SCHED_RB_BLACK ?q0"
  have far: "w < MAX_PROCESSES" if "child q (opp d) m = Some w" for w using rep_Some m(3) that by auto
  have "crep ?q c (Some k)" "rep ?q (Some k) (cpar c) (mk d h k (mk d b m e))"
    using f(5,7) by (auto split: option.split)
  from rotate_ok [OF this f(9)] obtain q1 where rot: "scheduler_ready_queue_rotate d (Some k) ?q = Some q1"
      and c1: "crep q1 c (Some m)" and t1: "rep q1 (Some m) (cpar c) (mk d (mk d h k b) m e)"
      and rest: "same_rest ?q q1"
    by blast
  have fx: "fixed_up q xs q1"
    by (rule fixed_upI [OF c1 t1])
       (use f(8) rest in \<open>auto simp: inorder_plug inorder_rotate same_rest_def split: option.splits\<close>)
  have "\<exists>r. g_sched_rq_root q1 = Some r"
    using c1 crep_root [OF c1] by (cases "c = []") auto
  then obtain r where r: "g_sched_rq_root q1 = Some r" by blast
  then have "r < MAX_PROCESSES" using fx rep_Some [of q1 r None] by (auto simp: fixed_up_def)
  with rot fx r m far f(1) show ?thesis
    by (cases "child q (opp d) m") (auto simp: fixup_last_rotation_def)
qed

text \<open>The test for a sibling without red children.\<close>

definition no_red_child :: "ready_queue \<Rightarrow> side \<Rightarrow> nat option \<Rightarrow> bool" where
  "no_red_child q d p \<longleftrightarrow> (\<forall>j. p = Some j \<longrightarrow> blk q (child q d j) \<and> blk q (child q (opp d) j))"

lemma plain_test:
  assumes "rep q p par s"
  shows "fixup_sibling_plain p q = Some (no_red_child q d p)"
proof (cases s)
  case (Node a j b)
  then have "p = Some j" "j < MAX_PROCESSES" "rep q (g_sched_rb_left q j) (Some j) a"
      "rep q (g_sched_rb_right q j) (Some j) b"
    using assms by auto
  then show ?thesis using color_tests(1) by (cases d) (auto simp: no_red_child_def fixup_sibling_plain_def)
qed (use assms in \<open>simp add: no_red_child_def fixup_sibling_plain_def\<close>)

text \<open>What one iteration leaves: either the position moved up to \<open>k\<close>, or the loop is finished.\<close>

definition moved_up :: "ready_queue \<Rightarrow> nat \<Rightarrow> ctx \<Rightarrow> nat list \<Rightarrow> ready_queue \<Rightarrow> nat option \<Rightarrow> bool" where
  "moved_up q k c xs q' up \<longleftrightarrow> (\<exists>c' t. crep q' c' (Some k) \<and> rep q' (Some k) (cpar c') t \<and> up = cpar c' \<and>
     inorder (plug c' t) = xs \<and> g_sched_on_rq q' = g_sched_on_rq q \<and> root_black q' \<and>
     (c' = c \<or> c' \<noteq> [] \<and> g_sched_rb_color q' k = SCHED_RB_RED))"

definition finished :: "ready_queue \<Rightarrow> nat list \<Rightarrow> ready_queue \<Rightarrow> nat option \<Rightarrow> bool" where
  "finished q xs q' p \<longleftrightarrow> fixed_up q xs q' \<and> (root_black q' \<or> p = g_sched_rq_root q') \<and>
     (\<forall>i. p = Some i \<longrightarrow> i < MAX_PROCESSES)"

lemma fixup_plain:
  assumes h: "at_hole q d k s c p h xs" and root: "root_black q"
  shows "\<exists>q'. (if child q (opp d) k \<noteq> None then wr_color (child q (opp d) k) SCHED_RB_RED q else Some q) = Some q' \<and>
    g_sched_rb_parent q' k = cpar c \<and> crep q' c (Some k) \<and> rep q' (Some k) (cpar c) (mk d h k s) \<and>
    g_sched_on_rq q' = g_sched_on_rq q \<and> root_black q' \<and> g_sched_rb_color q' k = g_sched_rb_color q k"
proof (cases "child q (opp d) k")
  case None
  then show ?thesis using at_hole_facts [OF h] root by auto
next
  case (Some j)
  note f = at_hole_facts [OF h]
  have j: "j \<in> set_tree s" "j < MAX_PROCESSES" using rep_Some f(3) Some by auto
  have "g_sched_rq_root q \<noteq> Some j"
    using f(5,11,12) j crep_not_root [OF f(5), of j] by (cases "c = []") auto
  with f j Some root show ?thesis by (auto intro: root_black_color)
qed

lemma fixup_body:
  assumes h: "at_hole q d k s c p h xs" and root: "root_black q"
  shows "\<exists>q' p' up stop. remove_fixup_body d q (Some k) = Some (q', p', up, stop) \<and>
    (if stop then finished q xs q' p' else p' = Some k \<and> moved_up q k c xs q' up)"
proof -
  obtain q1 s1 c1 where ph1: "fixup_raise_sibling d (Some k) (child q (opp d) k) q = Some (q1, child q1 (opp d) k)"
      and h1: "at_hole q1 d k s1 c1 p h xs" and on1: "g_sched_on_rq q1 = g_sched_on_rq q"
      and root1: "root_black q1" and c1: "c1 = c \<or> c1 \<noteq> [] \<and> g_sched_rb_color q1 k = SCHED_RB_RED"
    using fixup_red_sibling [OF h root] by blast
  note f = at_hole_facts [OF h] and f1 = at_hole_facts [OF h1]
  note plain = plain_test [OF f1(3), of d]
  show ?thesis
  proof (cases "no_red_child q1 d (child q1 (opp d) k)")
    case True
    obtain q2 where q2: "(if child q1 (opp d) k \<noteq> None then wr_color (child q1 (opp d) k) SCHED_RB_RED q1
          else Some q1) = Some q2" "g_sched_rb_parent q2 k = cpar c1" "crep q2 c1 (Some k)"
        "rep q2 (Some k) (cpar c1) (mk d h k s1)" "g_sched_on_rq q2 = g_sched_on_rq q1" "root_black q2"
        "g_sched_rb_color q2 k = g_sched_rb_color q1 k"
      using fixup_plain [OF h1 root1] by blast
    have "remove_fixup_body d q (Some k) = Some (q2, Some k, cpar c1, False)"
      using ph1 plain True q2(1,2) f(1) by (simp add: remove_fixup_body_def)
    moreover have "moved_up q k c xs q2 (cpar c1)"
      unfolding moved_up_def using q2 f1(8) on1 c1 by (intro exI [of _ c1] exI [of _ "mk d h k s1"]) auto
    ultimately show ?thesis by auto
  next
    case False
    then obtain j where j: "child q1 (opp d) k = Some j" by (auto simp: no_red_child_def)
    obtain b e where s1: "s1 = mk d b j e"
      using f1(3) j mk_cases [of s1 d] by (cases "s1 = Leaf") (auto simp: rep_mk)
    have jj: "j < MAX_PROCESSES" "rep q1 (child q1 d j) (Some j) b" "rep q1 (child q1 (opp d) j) (Some j) e"
      using f1(3) j by (auto simp: s1 rep_mk)
    have "\<exists>q2 m b' e'. fixup_rotate_sibling d (Some k) (Some j) q1 = Some (q2, Some m) \<and>
        at_hole q2 d k (mk d b' m e') c1 p h xs \<and> g_sched_on_rq q2 = g_sched_on_rq q1"
    proof (cases "blk q1 (child q1 (opp d) j)")
      case True
      with False j have "\<not> blk q1 (child q1 d j)" by (auto simp: no_red_child_def)
      then have "b \<noteq> Leaf" using jj(2) by (auto simp: blk_def)
      then obtain x n y where "b = mk d x n y" using mk_cases by blast
      with fixup_inner_red [OF h1, of x n y j e] True s1 show ?thesis by auto
    next
      case False
      then have "fixup_rotate_sibling d (Some k) (Some j) q1 = Some (q1, Some j)"
        using jj(1) color_tests(1) [OF jj(3)] by (simp add: fixup_rotate_sibling_def)
      with h1 [unfolded s1] show ?thesis by blast
    qed
    then obtain q2 m b' e' where ph2: "fixup_rotate_sibling d (Some k) (Some j) q1 = Some (q2, Some m)"
        and h2: "at_hole q2 d k (mk d b' m e') c1 p h xs" and on2: "g_sched_on_rq q2 = g_sched_on_rq q1"
      by blast
    obtain q3 where ph3: "fixup_last_rotation d (Some k) (Some m) q2 = Some q3"
        and fx: "fixed_up q2 xs q3" "\<exists>r. g_sched_rq_root q3 = Some r \<and> r < MAX_PROCESSES"
      using fixup_outer_red [OF h2] by blast
    have "remove_fixup_body d q (Some k) = Some (q3, g_sched_rq_root q3, None, True)"
      using ph1 plain False j ph2 ph3 f(1) by (simp add: remove_fixup_body_def)
    moreover have "finished q xs q3 (g_sched_rq_root q3)"
      using fx on1 on2 by (auto simp: finished_def fixed_up_def)
    ultimately show ?thesis
      by - (rule exI [of _ q3], rule exI [of _ "g_sched_rq_root q3"], rule exI [of _ None],
        rule exI [of _ True], simp)
  qed
qed

text \<open>The side that the code takes: when both children are missing it is the left one.\<close>

lemma at_hole_side:
  assumes h: "at_hole q d k s c p h xs"
  shows "\<exists>s'. at_hole q (if p = g_sched_rb_left q k then L else R) k s' c p h xs"
proof (cases "d = L \<or> p \<noteq> g_sched_rb_left q k")
  case True
  then have "(if p = g_sched_rb_left q k then L else R) = d"
    using at_hole_facts(2) [OF h] by (cases d) auto
  with h show ?thesis by auto
next
  case False
  then have d: "d = R" "p = g_sched_rb_left q k" by (cases d; auto)+
  note f = at_hole_facts [OF h]
  have "set_tree h \<inter> set_tree s = {}" using f(9) by (auto simp: distinct_plug)
  then have "p = None" using rep_Some f(3,6) d by (cases p) fastforce+
  then have "h = Leaf" "s = Leaf" using f(3,6) d rep_Leaf_iff by auto
  with h d \<open>p = None\<close> show ?thesis by (intro exI [of _ Leaf]) (auto simp: at_hole_def)
qed

lemma remove_fixup_loop_stop:
  "rep q (Some k) par t \<Longrightarrow> g_sched_rb_color q k = SCHED_RB_RED \<Longrightarrow>
   remove_fixup_loop q (Some k) up = Some (q, Some k)"
  using color_tests(1) by (subst remove_fixup_loop.simps) (simp add: blk_def)

lemma remove_fixup_loop_ok:
  assumes "crep q c p" and "rep q p (cpar c) h" and "distinct xs" and "inorder (plug c h) = xs"
    and "root_black q \<or> c = []"
  shows "\<exists>q' p'. remove_fixup_loop q p (cpar c) = Some (q', p') \<and> finished q xs q' p'"
  using assms
proof (induction "length c" arbitrary: q c p h rule: less_induct)
  case less
  have here: "finished q xs q p" if "root_black q \<or> p = g_sched_rq_root q"
    using that less.prems fixed_upI [of q c p h xs q] rep_Some [of q _ "cpar c" h]
    by (auto simp: finished_def)
  show ?case
  proof (cases c)
    case Nil
    then show ?thesis using less.prems(1) here by (subst remove_fixup_loop.simps) auto
  next
    case (Cons f c0)
    obtain d k s where f: "f = (d, k, s)" by (cases f)
    have h: "at_hole q d k s c0 p h xs"
      using less.prems by (simp add: at_hole_def Cons f)
    have root: "root_black q" using less.prems(5) Cons by simp
    have not_root: "p \<noteq> g_sched_rq_root q"
    proof (cases p)
      case None
      then show ?thesis using crep_root [OF less.prems(1)] Cons by auto
    next
      case (Some i)
      have "i \<notin> cset c"
        using rep_Some [OF less.prems(2) [unfolded Some]] less.prems(3,4) by (auto simp: distinct_plug)
      then show ?thesis using crep_not_root [OF less.prems(1), of i] Cons Some by auto
    qed
    show ?thesis
    proof (cases "blk q p")
      case False
      then show ?thesis
        using not_root color_tests(1) [OF less.prems(2)] here root by (subst remove_fixup_loop.simps) auto
    next
      case True
      obtain s' where h': "at_hole q (if p = g_sched_rb_left q k then L else R) k s' c0 p h xs"
        using at_hole_side [OF h] by blast
      obtain q' p' up stop where body: "remove_fixup_body (if p = g_sched_rb_left q k then L else R) q (Some k) =
            Some (q', p', up, stop)"
          and res: "if stop then finished q xs q' p' else p' = Some k \<and> moved_up q k c0 xs q' up"
        using fixup_body [OF h' root] by blast
      have run: "remove_fixup_loop q p (cpar c) = (if stop then Some (q', p') else remove_fixup_loop q' p' up)"
        using not_root True color_tests(1) [OF less.prems(2)] at_hole_facts(1) [OF h] body
        by (subst remove_fixup_loop.simps) (simp add: Cons f)
      show ?thesis
      proof (cases stop)
        case True
        then show ?thesis using run res by simp
      next
        case False
        with res obtain c' t where t: "p' = Some k" "crep q' c' (Some k)" "rep q' (Some k) (cpar c') t"
            "up = cpar c'" "inorder (plug c' t) = xs" "g_sched_on_rq q' = g_sched_on_rq q" "root_black q'"
            and c': "c' = c0 \<or> c' \<noteq> [] \<and> g_sched_rb_color q' k = SCHED_RB_RED"
          by (auto simp: moved_up_def)
        have "\<exists>q2 p2. remove_fixup_loop q' p' up = Some (q2, p2) \<and> finished q' xs q2 p2"
        proof (cases "c' = c0")
          case True
          with t less.prems(3) show ?thesis
            using less.hyps [of c0 q' "Some k" t] by (simp add: Cons)
        next
          case False
          have "finished q' xs q' (Some k)"
            using t fixed_upI [OF t(2,3,5), of q'] rep_Some [OF t(3)] by (simp add: finished_def)
          with False c' t remove_fixup_loop_stop [OF t(3)] show ?thesis by auto
        qed
        with run False t(6) show ?thesis by (auto simp: finished_def fixed_up_def)
      qed
    qed
  qed
qed

lemma remove_fixup_ok:
  assumes "crep q c p" and "rep q p (cpar c) h" and "distinct xs" and "inorder (plug c h) = xs"
    and "root_black q \<or> c = []"
  shows "\<exists>q'. scheduler_ready_queue_remove_fixup p (cpar c) q = Some q' \<and> fixed_up q xs q' \<and> root_black q'"
proof -
  obtain q' p' where r: "remove_fixup_loop q p (cpar c) = Some (q', p')" "finished q xs q' p'"
    using remove_fixup_loop_ok [OF assms] by blast
  then show ?thesis
    by (cases p')
       (auto simp: scheduler_ready_queue_remove_fixup_def finished_def fixed_up_def root_black_def)
qed

section \<open>Removal\<close>

lemma clear_links_facts [simp]:
  "g_sched_rq_root (clear_links i q) = g_sched_rq_root q"
  "g_sched_on_rq (clear_links i q) = (g_sched_on_rq q)(i := False)"
  "g_sched_rb_color (clear_links i q) = (g_sched_rb_color q)(i := SCHED_RB_BLACK)"
  by (simp_all add: clear_links_def)

lemma clear_links_same: "i \<notin> S \<Longrightarrow> same_at S q (clear_links i q)"
  by (auto simp: same_at_def clear_links_def)

lemma clear_links_root: "root_black q \<Longrightarrow> root_black (clear_links i q)"
  by (auto simp: root_black_def)

context rq_order
begin

theorem remove_ok:
  assumes inv: "rq_inv precedes q xs" and i: "i < MAX_PROCESSES"
  shows "\<exists>q'. scheduler_ready_queue_remove i q = Some q' \<and> rq_inv precedes q' (filter (\<lambda>k. k \<noteq> i) xs) \<and>
    g_sched_on_rq q' = (g_sched_on_rq q)(i := False)"
proof (cases "g_sched_on_rq q i")
  case False
  have "i \<notin> set xs" using inv False by (auto simp: rq_inv_def)
  then show ?thesis
    using False inv i by (auto simp: scheduler_ready_queue_remove_def fun_upd_idem filter_neq)
next
  case True
  let ?ys = "filter (\<lambda>k. k \<noteq> i) xs"
  obtain t where t: "rep q (g_sched_rq_root q) None t" "inorder t = xs" "sorted_wrt precedes xs"
      "set xs = {i. i < MAX_PROCESSES \<and> g_sched_on_rq q i}" "root_black q"
    using inv by (auto simp: rq_inv_def)
  have "i \<in> set_tree t" using t(2,4) True i set_inorder [of t] by auto
  then obtain c l r where tt: "t = plug c (Node l i r)" using tree_position by blast
  obtain p where p: "crep q c p" "rep q p (cpar c) (Node l i r)"
    using t(1) unfolding tt rep_plug by blast
  have pi: "p = Some i" using p(2) by simp
  have dist: "distinct xs" by (rule sorted_distinct [OF t(3)])
  obtain res where un: "remove_unlink i q = Some res" "unlinked q i xs res"
    using unlink_ok [OF p(1) [unfolded pi] p(2) [unfolded pi]] dist t(2,5) tt by auto
  obtain q1 col repl up where res: "res = (q1, col, repl, up)" by (cases res) auto
  obtain c1 h where u: "crep q1 c1 repl" "rep q1 repl (cpar c1) h" "up = cpar c1"
      "inorder (plug c1 h) = ?ys" "g_sched_on_rq q1 = g_sched_on_rq q"
      "root_black q1 \<or> col = SCHED_RB_BLACK \<and> c1 = []"
    using un(2) by (auto simp: unlinked_def res)
  have out: "i \<notin> cset c1" "i \<notin> set_tree h"
    using arg_cong [OF u(4), of set] by auto
  let ?q2 = "clear_links i q1"
  have c2: "crep ?q2 c1 repl" "rep ?q2 repl (cpar c1) h"
    using crep_frame [OF u(1) clear_links_same [OF out(1)]] rep_frame [OF u(2) clear_links_same [OF out(2)]]
    by simp_all
  have "\<exists>q3. (if col = SCHED_RB_BLACK then scheduler_ready_queue_remove_fixup repl up ?q2 else Some ?q2) =
      Some q3 \<and> fixed_up ?q2 ?ys q3 \<and> root_black q3"
  proof (cases "col = SCHED_RB_BLACK")
    case True
    have "root_black ?q2 \<or> c1 = []" using u(6) clear_links_root by blast
    with remove_fixup_ok [OF c2 _ u(4)] dist True u(3) show ?thesis by auto
  next
    case False
    then show ?thesis using fixed_upI [OF c2 u(4), of ?q2] u(6) clear_links_root by auto
  qed
  then obtain q3 t3 where q3: "(if col = SCHED_RB_BLACK then scheduler_ready_queue_remove_fixup repl up ?q2
        else Some ?q2) = Some q3" "rep q3 (g_sched_rq_root q3) None t3" "inorder t3 = ?ys" "root_black q3"
        "g_sched_on_rq q3 = (g_sched_on_rq q)(i := False)"
    using u(5) by (auto simp: fixed_up_def)
  let ?q4 = "q3\<lparr>g_sched_rq_leftmost := first ?ys\<rparr>"
  have "scheduler_ready_queue_remove i q = Some ?q4"
    using True i un(1) res q3 recompute_leftmost_ok [OF q3(2)]
    by (simp add: scheduler_ready_queue_remove_def Let_def)
  moreover have "rq_inv precedes ?q4 ?ys"
    using q3 t(3,4) by (auto simp: rq_inv_def root_black_def intro: sorted_wrt_filter)
  ultimately show ?thesis using q3(5) by auto
qed

end

end
