(* ===== verification/Scheduler.thy ===== *)
theory Scheduler
  imports Process_Core Preempt Ready_Queue_Remove
begin

text \<open>
  The scheduler of \<open>kernel/scheduler.c\<close>: its global variables, the process operations that run with
  interrupts disabled, and the choice of the next process in \<open>process_yield\<close>. A result \<open>None\<close> is an
  access outside the arrays of the ready queue. The tick counter of the timer driver is a field,
  and whether a timer tick is pending when \<open>process_yield\<close> polls the timer is an argument, as are the
  address of the task stacks, the stack pointer that the context switch saves and the build
  switches. Log output and the diagnostic registers are left out.
\<close>

section \<open>State\<close>

definition PROCESS_STACK_WORDS :: nat where "PROCESS_STACK_WORDS = 1024"

definition PROCESS_CONTEXT_WORDS :: nat where "PROCESS_CONTEXT_WORDS = 13"

definition DRAM_LOW :: u32 where "DRAM_LOW = 0x3FC80000"

definition DRAM_HIGH :: u32 where "DRAM_HIGH = 0x3FCE0000"

text \<open>A task entry point is an opaque number.\<close>

type_synonym task_entry = nat

record process_execution_slot =
  ex_entry :: "task_entry ptr"
  ex_stack_pointer :: u32

record scheduler =
  g_processes :: process_table
  g_process_exec :: "process_execution_slot list"
  g_current_process_index :: "nat option"
  g_next_pid :: process_id
  g_switch_count :: u32
  g_sched_vruntime :: "u64 list"
  g_sched_exec_start_tick :: "u64 list"
  g_ready :: ready_queue
  g_scheduler_preempt_state :: scheduler_preempt_state
  g_kernel_ticks :: u64

definition upd_proc :: "nat \<Rightarrow> (process_runtime_state \<Rightarrow> process_runtime_state) \<Rightarrow> scheduler \<Rightarrow> scheduler" where
  "upd_proc i f s = s\<lparr>g_processes := (g_processes s)[i := f (g_processes s ! i)]\<rparr>"

definition upd_exec :: "nat \<Rightarrow> (process_execution_slot \<Rightarrow> process_execution_slot) \<Rightarrow> scheduler \<Rightarrow> scheduler" where
  "upd_exec i f s = s\<lparr>g_process_exec := (g_process_exec s)[i := f (g_process_exec s ! i)]\<rparr>"

definition zero_process :: process_runtime_state where
  "zero_process = \<lparr>ps_pid = 0, ps_parent_pid = 0, ps_name = None, ps_role = RUNTIME_PROCESS_ROLE_NONE,
     ps_state = PROCESS_STATE_UNUSED, ps_exit_code = 0, ps_switch_count = 0, ps_yield_count = 0,
     ps_wake_tick = 0, ps_wait_target_pid = 0, ps_wait_reason = PROCESS_WAIT_NONE, ps_wait_channel = 0\<rparr>"

text \<open>The initial values of the static variables.\<close>

definition ready_queue_init :: ready_queue where
  "ready_queue_init = \<lparr>g_sched_rb_parent = (\<lambda>_. Some 0), g_sched_rb_left = (\<lambda>_. Some 0),
     g_sched_rb_right = (\<lambda>_. Some 0), g_sched_rb_color = (\<lambda>_. SCHED_RB_BLACK), g_sched_on_rq = (\<lambda>_. False),
     g_sched_rq_root = None, g_sched_rq_leftmost = None\<rparr>"

definition scheduler_init :: scheduler where
  "scheduler_init = \<lparr>g_processes = replicate MAX_PROCESSES zero_process,
     g_process_exec = replicate MAX_PROCESSES \<lparr>ex_entry = None, ex_stack_pointer = 0\<rparr>,
     g_current_process_index = None, g_next_pid = 1, g_switch_count = 0,
     g_sched_vruntime = replicate MAX_PROCESSES 0, g_sched_exec_start_tick = replicate MAX_PROCESSES 0,
     g_ready = ready_queue_init, g_scheduler_preempt_state = scheduler_preempt_init, g_kernel_ticks = 0\<rparr>"

section \<open>The ready queue and the accounting of run time\<close>

definition scheduler_stack_pointer_in_range :: "u32 \<Rightarrow> bool" where
  "scheduler_stack_pointer_in_range sp \<longleftrightarrow> sp \<ge> DRAM_LOW \<and> sp < DRAM_HIGH"

definition scheduler_stack_pointer_is_aligned :: "u32 \<Rightarrow> bool" where
  "scheduler_stack_pointer_is_aligned sp \<longleftrightarrow> sp AND 3 = 0"

text \<open>The index of the current process, when it is in the table and its slot is used.\<close>

definition scheduler_current_process :: "scheduler \<Rightarrow> nat option" where
  "scheduler_current_process s =
     (case g_current_process_index s of
        None \<Rightarrow> None
      | Some i \<Rightarrow>
          (if i \<ge> MAX_PROCESSES then None
           else if ps_state (g_processes s ! i) = PROCESS_STATE_UNUSED then None else Some i))"

definition scheduler_vruntime_before :: "u64 list \<Rightarrow> process_table \<Rightarrow> nat \<Rightarrow> nat \<Rightarrow> bool" where
  "scheduler_vruntime_before vruntime ps lhs_index rhs_index =
     (if vruntime ! lhs_index < vruntime ! rhs_index then True
      else if vruntime ! lhs_index > vruntime ! rhs_index then False
      else if ps_pid (ps ! lhs_index) < ps_pid (ps ! rhs_index) then True
      else if ps_pid (ps ! lhs_index) > ps_pid (ps ! rhs_index) then False
      else lhs_index < rhs_index)"

definition precedes_in :: "scheduler \<Rightarrow> nat \<Rightarrow> nat \<Rightarrow> bool" where
  "precedes_in s = scheduler_vruntime_before (g_sched_vruntime s) (g_processes s)"

definition scheduler_min_vruntime :: "scheduler \<Rightarrow> u64" where
  "scheduler_min_vruntime s =
     (let queued = map_option (\<lambda>i. g_sched_vruntime s ! i) (g_sched_rq_leftmost (g_ready s)) in
      case g_current_process_index s of
        Some i \<Rightarrow>
          (if i < MAX_PROCESSES \<and> ps_state (g_processes s ! i) = PROCESS_STATE_RUNNING then
             (case queued of
                None \<Rightarrow> g_sched_vruntime s ! i
              | Some m \<Rightarrow> (if g_sched_vruntime s ! i < m then g_sched_vruntime s ! i else m))
           else (case queued of None \<Rightarrow> 0 | Some m \<Rightarrow> m))
      | None \<Rightarrow> (case queued of None \<Rightarrow> 0 | Some m \<Rightarrow> m))"

definition scheduler_account_runtime :: "nat \<Rightarrow> scheduler \<Rightarrow> scheduler" where
  "scheduler_account_runtime index s =
     (if index \<ge> MAX_PROCESSES then s
      else if ps_state (g_processes s ! index) \<noteq> PROCESS_STATE_RUNNING then s
      else let now = g_kernel_ticks s; started = g_sched_exec_start_tick s ! index;
               delta = (if now > started then now - started else 1) in
        s\<lparr>g_sched_vruntime := (g_sched_vruntime s)[index := g_sched_vruntime s ! index + delta],
          g_sched_exec_start_tick := (g_sched_exec_start_tick s)[index := now]\<rparr>)"

definition sync_slot :: "nat \<Rightarrow> scheduler \<Rightarrow> scheduler option" where
  "sync_slot index s =
     map_option (\<lambda>q. s\<lparr>g_ready := q\<rparr>)
       (if ps_state (g_processes s ! index) = PROCESS_STATE_READY
        then scheduler_ready_queue_insert (precedes_in s) index (g_ready s)
        else scheduler_ready_queue_remove index (g_ready s))"

fun sync_slots :: "nat list \<Rightarrow> scheduler \<Rightarrow> scheduler option" where
  "sync_slots [] s = Some s"
| "sync_slots (index # rest) s = do { s \<leftarrow> sync_slot index s; sync_slots rest s }"

definition scheduler_sync_ready_queue :: "scheduler \<Rightarrow> scheduler option" where
  "scheduler_sync_ready_queue s = sync_slots [0..<MAX_PROCESSES] s"

definition scheduler_reset_process_slot :: "nat \<Rightarrow> scheduler \<Rightarrow> scheduler option" where
  "scheduler_reset_process_slot index s =
     do {
       q \<leftarrow> scheduler_ready_queue_remove index (g_ready s);
       let s = upd_proc index process_core_reset_slot (s\<lparr>g_ready := q\<rparr>);
       let s = upd_exec index (\<lambda>_. \<lparr>ex_entry = None, ex_stack_pointer = 0\<rparr>) s;
       Some (s\<lparr>g_sched_vruntime := (g_sched_vruntime s)[index := 0],
         g_sched_exec_start_tick := (g_sched_exec_start_tick s)[index := 0],
         g_ready := clear_links index q\<rparr>) }"

definition scheduler_make_process_ready :: "nat \<Rightarrow> scheduler \<Rightarrow> scheduler option" where
  "scheduler_make_process_ready index s =
     scheduler_sync_ready_queue (upd_proc index process_core_make_ready s)"

definition scheduler_block_process ::
  "nat \<Rightarrow> process_wait_reason \<Rightarrow> u32 \<Rightarrow> u64 \<Rightarrow> process_id \<Rightarrow> scheduler \<Rightarrow> scheduler option" where
  "scheduler_block_process index wait_reason wait_channel wake_tick wait_target_pid s =
     scheduler_sync_ready_queue
       (upd_proc index (\<lambda>p. process_core_block p wait_reason wait_channel wake_tick wait_target_pid) s)"

text \<open>\<open>stacks\<close> is the address of \<open>g_process_stacks\<close>.\<close>

definition scheduler_prepare_initial_context :: "u32 \<Rightarrow> nat \<Rightarrow> scheduler \<Rightarrow> scheduler" where
  "scheduler_prepare_initial_context stacks index s =
     upd_exec index (\<lambda>e. e\<lparr>ex_stack_pointer := stacks +
       of_nat (4 * (Suc index * PROCESS_STACK_WORDS - PROCESS_CONTEXT_WORDS))\<rparr>) s"

section \<open>Switching\<close>

text \<open>
  How a call that may switch ends: it returns to the caller, another process runs, the processor
  waits for a timer interrupt, or \<open>panic_halt\<close>.
\<close>

datatype outcome = Returns scheduler | Switched scheduler | Idle scheduler | Panic

definition scheduler_start_first_process :: "nat option \<Rightarrow> scheduler \<Rightarrow> outcome option" where
  "scheduler_start_first_process process_index s =
     (case process_index of
        None \<Rightarrow> Some Panic
      | Some i \<Rightarrow>
          (if i \<ge> MAX_PROCESSES then Some Panic
           else if \<not> scheduler_stack_pointer_in_range (ex_stack_pointer (g_process_exec s ! i)) then Some Panic
           else if \<not> scheduler_stack_pointer_is_aligned (ex_stack_pointer (g_process_exec s ! i)) then Some Panic
           else map_option Switched
             (scheduler_sync_ready_queue
               ((upd_proc i (\<lambda>p. p\<lparr>ps_state := PROCESS_STATE_RUNNING\<rparr>) s)
                \<lparr>g_current_process_index := Some i,
                 g_sched_exec_start_tick := (g_sched_exec_start_tick s)[i := g_kernel_ticks s]\<rparr>))))"

text \<open>The stack pointer of the old process is stored by the context switch.\<close>

definition scheduler_switch_process :: "u32 \<Rightarrow> nat \<Rightarrow> nat \<Rightarrow> scheduler \<Rightarrow> scheduler option" where
  "scheduler_switch_process saved_sp current_index next_index s =
     (let s = scheduler_account_runtime current_index s;
          s = (if ps_state (g_processes s ! current_index) = PROCESS_STATE_RUNNING
               then upd_proc current_index (\<lambda>p. p\<lparr>ps_state := PROCESS_STATE_READY\<rparr>) s else s);
          s = upd_proc next_index (\<lambda>p. p\<lparr>ps_state := PROCESS_STATE_RUNNING,
                ps_switch_count := ps_switch_count p + 1\<rparr>) s;
          s = s\<lparr>g_current_process_index := Some next_index,
                g_sched_exec_start_tick := (g_sched_exec_start_tick s)[next_index := g_kernel_ticks s]\<rparr> in
      map_option (upd_exec current_index (\<lambda>e. e\<lparr>ex_stack_pointer := saved_sp\<rparr>))
        (scheduler_sync_ready_queue s))"

text \<open>\<open>scheduler_validate_switch_targets\<close> returns, or else panics.\<close>

definition scheduler_validate_switch_targets :: "nat \<Rightarrow> nat \<Rightarrow> scheduler \<Rightarrow> bool" where
  "scheduler_validate_switch_targets current_index next_index s \<longleftrightarrow>
     current_index < MAX_PROCESSES \<and> next_index < MAX_PROCESSES \<and>
     scheduler_stack_pointer_in_range (ex_stack_pointer (g_process_exec s ! current_index)) \<and>
     scheduler_stack_pointer_in_range (ex_stack_pointer (g_process_exec s ! next_index)) \<and>
     scheduler_stack_pointer_is_aligned (ex_stack_pointer (g_process_exec s ! current_index)) \<and>
     scheduler_stack_pointer_is_aligned (ex_stack_pointer (g_process_exec s ! next_index))"

definition process_tick :: "bool \<Rightarrow> u64 \<Rightarrow> scheduler \<Rightarrow> scheduler option" where
  "process_tick preemptive tick_count s =
     scheduler_sync_ready_queue (s\<lparr>
       g_scheduler_preempt_state := scheduler_preempt_on_timer_tick preemptive (g_scheduler_preempt_state s),
       g_processes := fst (process_core_wake_sleepers (g_processes s) tick_count)\<rparr>)"

text \<open>\<open>systimer_tick_isr\<close> of the timer driver, as far as the scheduler sees it, and the poll for it.\<close>

definition systimer_tick :: "bool \<Rightarrow> scheduler \<Rightarrow> scheduler option" where
  "systimer_tick preemptive s =
     process_tick preemptive (g_kernel_ticks s + 1) (s\<lparr>g_kernel_ticks := g_kernel_ticks s + 1\<rparr>)"

definition runtime_poll_timer_delivery :: "bool \<Rightarrow> bool \<Rightarrow> scheduler \<Rightarrow> scheduler option" where
  "runtime_poll_timer_delivery preemptive pending s =
     (if pending then systimer_tick preemptive s else Some s)"

record yield_env =
  env_preemptive :: bool
  env_capable :: bool
  env_tick_pending :: bool
  env_saved_sp :: u32

definition upd_preempt ::
  "(scheduler_preempt_state \<Rightarrow> scheduler_preempt_state) \<Rightarrow> scheduler \<Rightarrow> scheduler" where
  "upd_preempt f s = s\<lparr>g_scheduler_preempt_state := f (g_scheduler_preempt_state s)\<rparr>"

text \<open>The end of \<open>process_yield\<close>, once the next process is known.\<close>

definition yield_to :: "yield_env \<Rightarrow> nat \<Rightarrow> nat \<Rightarrow> scheduler \<Rightarrow> outcome option" where
  "yield_to env current_index next_index s =
     (let enable = preempt_enable (env_preemptive env) (env_capable env) in
      if next_index = current_index then
        Some (Returns (upd_preempt enable
          (if scheduler_current_process s \<noteq> None
           then upd_proc current_index (\<lambda>p. p\<lparr>ps_state := PROCESS_STATE_RUNNING\<rparr>) s else s)))
      else if \<not> scheduler_validate_switch_targets current_index next_index s then Some Panic
      else map_option Switched
        (scheduler_switch_process (env_saved_sp env) current_index next_index
          (upd_preempt enable (s\<lparr>g_switch_count := g_switch_count s + 1\<rparr>))))"

definition process_yield :: "yield_env \<Rightarrow> scheduler \<Rightarrow> outcome option" where
  "process_yield env s =
     (case g_current_process_index s of
        None \<Rightarrow>
          do { s \<leftarrow> runtime_poll_timer_delivery (env_preemptive env) (env_tick_pending env) s;
               scheduler_start_first_process (scheduler_pick_next_ready (g_ready s)) s }
      | Some current_index \<Rightarrow>
          do {
            let current = scheduler_current_process s;
            s \<leftarrow> runtime_poll_timer_delivery (env_preemptive env) (env_tick_pending env) (upd_preempt preempt_disable s);
            let s = (if current \<noteq> None
                     then upd_proc current_index (\<lambda>p. p\<lparr>ps_yield_count := ps_yield_count p + 1\<rparr>) s else s);
            let s = upd_preempt (\<lambda>p. snd (scheduler_maybe_preempt_at_safe_point (env_preemptive env)
                      (env_capable env) p)) s;
            (case scheduler_pick_next_ready (g_ready s) of
               None \<Rightarrow>
                 (if current \<noteq> None \<and> ps_state (g_processes s ! current_index) = PROCESS_STATE_RUNNING
                  then Some (Returns (upd_preempt (preempt_enable (env_preemptive env) (env_capable env)) s))
                  else if process_core_count_blocked_sleepers (g_processes s) \<noteq> 0 then Some (Idle s)
                  else Some Panic)
             | Some next_index \<Rightarrow> yield_to env current_index next_index s) })"

text \<open>The wait for an interrupt inside \<open>process_yield\<close>: after each timer tick the queue is looked at again.\<close>

definition idle_wakeup :: "yield_env \<Rightarrow> scheduler \<Rightarrow> outcome option" where
  "idle_wakeup env s =
     do {
       s \<leftarrow> systimer_tick (env_preemptive env) s;
       s \<leftarrow> scheduler_sync_ready_queue s;
       (case (scheduler_pick_next_ready (g_ready s), g_current_process_index s) of
          (Some next_index, Some current_index) \<Rightarrow> yield_to env current_index next_index s
        | _ \<Rightarrow> Some (Idle s)) }"

text \<open>The loop of these waits, for a bounded number of ticks.\<close>

fun idle_loop :: "nat \<Rightarrow> yield_env \<Rightarrow> scheduler \<Rightarrow> outcome option" where
  "idle_loop 0 env s = Some (Idle s)"
| "idle_loop (Suc ticks) env s =
     do { r \<leftarrow> idle_wakeup env s; (case r of Idle s' \<Rightarrow> idle_loop ticks env s' | _ \<Rightarrow> Some r) }"

text \<open>What a process does first when a context switch inside \<open>process_yield\<close> comes back to it.\<close>

definition yield_resumed :: "yield_env \<Rightarrow> scheduler \<Rightarrow> scheduler" where
  "yield_resumed env s = upd_preempt (preempt_enable (env_preemptive env) (env_capable env)) s"

section \<open>Process operations\<close>

definition process_current_pid :: "scheduler \<Rightarrow> process_id" where
  "process_current_pid s =
     (case scheduler_current_process s of None \<Rightarrow> 0 | Some i \<Rightarrow> ps_pid (g_processes s ! i))"

definition process_spawn_with_role ::
  "bool \<Rightarrow> u32 \<Rightarrow> string ptr \<Rightarrow> task_entry ptr \<Rightarrow> u32 \<Rightarrow> scheduler \<Rightarrow> (process_id \<times> scheduler) option" where
  "process_spawn_with_role single_foreground stacks name entry role s =
     (case process_core_find_free_slot (g_processes s) of
        None \<Rightarrow> Some (0, s)
      | Some index \<Rightarrow>
          (if entry = None \<or> g_next_pid s = 0 then Some (0, s)
           else if \<not> runtime_policy_can_spawn single_foreground (g_processes s) role then Some (0, s)
           else let pid = g_next_pid s; parent_pid = process_current_pid s;
                    s = upd_proc index (\<lambda>_. \<lparr>ps_pid = pid, ps_parent_pid = parent_pid,
                          ps_name = Some (case name of None \<Rightarrow> ''PROC'' | Some n \<Rightarrow> n), ps_role = role,
                          ps_state = PROCESS_STATE_READY, ps_exit_code = 0, ps_switch_count = 0,
                          ps_yield_count = 0, ps_wake_tick = 0, ps_wait_target_pid = 0,
                          ps_wait_reason = PROCESS_WAIT_NONE, ps_wait_channel = 0\<rparr>)
                          (s\<lparr>g_next_pid := g_next_pid s + 1\<rparr>);
                    s = upd_exec index (\<lambda>e. e\<lparr>ex_entry := entry\<rparr>) s;
                    s = s\<lparr>g_sched_vruntime := (g_sched_vruntime s)[index := scheduler_min_vruntime s],
                          g_sched_exec_start_tick := (g_sched_exec_start_tick s)[index := 0]\<rparr> in
             map_option (\<lambda>s. (pid, s))
               (scheduler_sync_ready_queue (scheduler_prepare_initial_context stacks index s))))"

definition process_spawn ::
  "bool \<Rightarrow> u32 \<Rightarrow> string ptr \<Rightarrow> task_entry ptr \<Rightarrow> scheduler \<Rightarrow> (process_id \<times> scheduler) option" where
  "process_spawn single_foreground stacks name entry s =
     process_spawn_with_role single_foreground stacks name entry RUNTIME_PROCESS_ROLE_SYSTEM s"

text \<open>\<open>process_exit\<close> up to its call of \<open>process_yield\<close>, from which it does not come back.\<close>

definition exit_current :: "int \<Rightarrow> scheduler \<Rightarrow> scheduler" where
  "exit_current exit_code s =
     (case scheduler_current_process s of
        None \<Rightarrow> s
      | Some i \<Rightarrow>
          (let s = upd_proc i (\<lambda>p. p\<lparr>ps_state := PROCESS_STATE_ZOMBIE, ps_exit_code := exit_code\<rparr>) s in
           s\<lparr>g_processes := fst (process_core_wake_waiting_parent (g_processes s) (ps_pid (g_processes s ! i)))\<rparr>))"

text \<open>A return of \<open>process_yield\<close> here runs into \<open>panic_halt\<close>.\<close>

definition process_exit :: "yield_env \<Rightarrow> int \<Rightarrow> scheduler \<Rightarrow> outcome option" where
  "process_exit env exit_code s =
     map_option (\<lambda>r. case r of Returns _ \<Rightarrow> Panic | _ \<Rightarrow> r) (process_yield env (exit_current exit_code s))"

definition kill_other :: "nat \<Rightarrow> process_id \<Rightarrow> int \<Rightarrow> scheduler \<Rightarrow> scheduler option" where
  "kill_other index pid exit_code s =
     (if ps_state (g_processes s ! index) \<in> {PROCESS_STATE_READY, PROCESS_STATE_RUNNING, PROCESS_STATE_BLOCKED}
      then let s = upd_proc index (\<lambda>p. p\<lparr>ps_state := PROCESS_STATE_ZOMBIE, ps_exit_code := exit_code\<rparr>) s in
        scheduler_sync_ready_queue
          (s\<lparr>g_processes := fst (process_core_wake_waiting_parent (g_processes s) pid)\<rparr>)
      else Some s)"

text \<open>\<open>Inl\<close>: the process kills itself and the call ends like \<open>process_exit\<close>; \<open>Inr\<close>: the result.\<close>

definition process_kill ::
  "yield_env \<Rightarrow> process_id \<Rightarrow> int \<Rightarrow> scheduler \<Rightarrow> (outcome + (int \<times> scheduler)) option" where
  "process_kill env pid exit_code s =
     (case process_core_find_index_by_pid (g_processes s) pid of
        None \<Rightarrow> Some (Inr (0, s))
      | Some index \<Rightarrow>
          (if Some index = g_current_process_index s then map_option Inl (process_exit env exit_code s)
           else map_option (\<lambda>s. Inr (1, s)) (kill_other index pid exit_code s)))"

definition process_reap :: "process_id \<Rightarrow> int ptr \<Rightarrow> scheduler \<Rightarrow> (int \<times> int ptr \<times> scheduler) option" where
  "process_reap pid exit_code s =
     (case process_core_find_index_by_pid (g_processes s) pid of
        None \<Rightarrow> Some (0, exit_code, s)
      | Some index \<Rightarrow>
          (if ps_state (g_processes s ! index) \<noteq> PROCESS_STATE_ZOMBIE then Some (0, exit_code, s)
           else map_option (\<lambda>s'. (1, map_option (\<lambda>_. ps_exit_code (g_processes s ! index)) exit_code, s'))
             (scheduler_reset_process_slot index s)))"

text \<open>
  One round of the loop of \<open>process_waitpid\<close>: \<open>Inr\<close>, the call returns; \<open>Inl\<close>, the process is blocked and
  yields, and the next round follows when it runs again.
\<close>

definition waitpid_round ::
  "process_id \<Rightarrow> process_id \<Rightarrow> int ptr \<Rightarrow> scheduler \<Rightarrow> (scheduler + (int \<times> int ptr \<times> scheduler)) option" where
  "waitpid_round current_pid pid exit_code s =
     (case process_core_find_waitable_child (g_processes s) current_pid pid of
        Some child_index \<Rightarrow>
          map_option (\<lambda>s'. Inr (sint (ps_pid (g_processes s ! child_index)),
              map_option (\<lambda>_. ps_exit_code (g_processes s ! child_index)) exit_code, s'))
            (scheduler_reset_process_slot child_index s)
      | None \<Rightarrow>
          (if \<not> process_core_has_child (g_processes s) current_pid pid then Some (Inr (- 1, exit_code, s))
           else case g_current_process_index s of
             Some i \<Rightarrow> (if i < MAX_PROCESSES
                        then map_option Inl (scheduler_block_process i PROCESS_WAIT_CHILD pid 0 pid s)
                        else Some (Inl s))
           | None \<Rightarrow> Some (Inl s)))"

definition process_waitpid ::
  "process_id \<Rightarrow> int ptr \<Rightarrow> scheduler \<Rightarrow> (scheduler + (int \<times> int ptr \<times> scheduler)) option" where
  "process_waitpid pid exit_code s =
     (if process_current_pid s = 0 then Some (Inr (- 1, exit_code, s))
      else waitpid_round (process_current_pid s) pid exit_code s)"

definition process_wait :: "int ptr \<Rightarrow> scheduler \<Rightarrow> (scheduler + (int \<times> int ptr \<times> scheduler)) option" where
  "process_wait exit_code s = process_waitpid 0 exit_code s"

definition process_sleep :: "yield_env \<Rightarrow> u32 \<Rightarrow> scheduler \<Rightarrow> outcome option" where
  "process_sleep env ticks s =
     (case scheduler_current_process s of
        None \<Rightarrow> Some (Returns s)
      | Some i \<Rightarrow>
          (if ticks = 0 then process_yield env s
           else let wake = g_kernel_ticks s + ucast ticks in
             do { s \<leftarrow> scheduler_block_process i PROCESS_WAIT_SLEEP_TICKS ticks wake 0
                    (upd_proc i (\<lambda>p. p\<lparr>ps_wake_tick := wake\<rparr>) s);
                  process_yield env s }))"

definition process_block :: "yield_env \<Rightarrow> process_id \<Rightarrow> scheduler \<Rightarrow> (int \<times> outcome) option" where
  "process_block env pid s =
     (case process_core_find_index_by_pid (g_processes s) pid of
        None \<Rightarrow> Some (0, Returns s)
      | Some index \<Rightarrow>
          (if ps_state (g_processes s ! index) \<noteq> PROCESS_STATE_READY \<and>
              ps_state (g_processes s ! index) \<noteq> PROCESS_STATE_RUNNING
           then Some (0, Returns s)
           else do {
             s' \<leftarrow> scheduler_block_process index PROCESS_WAIT_MANUAL pid 0 0 s;
             if Some index = g_current_process_index s then map_option (Pair 1) (process_yield env s')
             else Some (1, Returns s') }))"

definition process_wake :: "process_id \<Rightarrow> scheduler \<Rightarrow> (int \<times> scheduler) option" where
  "process_wake pid s =
     (case process_core_find_index_by_pid (g_processes s) pid of
        None \<Rightarrow> Some (0, s)
      | Some index \<Rightarrow> map_option (Pair 1) (scheduler_make_process_ready index s))"

definition process_wait_channel :: "yield_env \<Rightarrow> u32 \<Rightarrow> scheduler \<Rightarrow> outcome option" where
  "process_wait_channel env channel s =
     (case g_current_process_index s of
        None \<Rightarrow> Some (Returns s)
      | Some i \<Rightarrow>
          (if i \<ge> MAX_PROCESSES then Some (Returns s)
           else do { s \<leftarrow> scheduler_block_process i PROCESS_WAIT_EVENT_CHANNEL channel 0 0 s;
                     process_yield env s }))"

definition process_wake_channel :: "u32 \<Rightarrow> scheduler \<Rightarrow> (nat \<times> scheduler) option" where
  "process_wake_channel channel s =
     (case process_core_wake_channel (g_processes s) channel of (ps, woke) \<Rightarrow>
        map_option (Pair woke) (scheduler_sync_ready_queue (s\<lparr>g_processes := ps\<rparr>)))"

definition process_wake_first_channel :: "u32 \<Rightarrow> scheduler \<Rightarrow> (nat \<times> scheduler) option" where
  "process_wake_first_channel channel s =
     (case process_core_wake_first_channel (g_processes s) channel (g_current_process_index s) of (ps, woke) \<Rightarrow>
        map_option (Pair woke) (scheduler_sync_ready_queue (s\<lparr>g_processes := ps\<rparr>)))"

definition process_count :: "scheduler \<Rightarrow> nat" where
  "process_count s = length (filter (\<lambda>p. ps_state p \<noteq> PROCESS_STATE_UNUSED) (g_processes s))"

definition process_snapshot :: "process_info list ptr \<Rightarrow> nat \<Rightarrow> scheduler \<Rightarrow> process_info list ptr \<times> nat" where
  "process_snapshot buffer capacity s = process_core_snapshot (g_processes s) buffer capacity"

definition scheduler_run :: "yield_env \<Rightarrow> scheduler \<Rightarrow> outcome option" where
  "scheduler_run env s =
     map_option (\<lambda>r. case r of Returns _ \<Rightarrow> Panic | _ \<Rightarrow> r)
       (process_yield env (s\<lparr>g_current_process_index := None\<rparr>))"

text \<open>\<open>Inl\<close>: panic; \<open>Inr\<close>: the entry point that the new process runs before \<open>process_exit\<close>.\<close>

definition scheduler_task_bootstrap :: "scheduler \<Rightarrow> unit + task_entry" where
  "scheduler_task_bootstrap s =
     (case scheduler_current_process s of
        None \<Rightarrow> Inl ()
      | Some i \<Rightarrow> (case ex_entry (g_process_exec s ! i) of None \<Rightarrow> Inl () | Some e \<Rightarrow> Inr e))"

definition scheduler_current_task_name :: "scheduler \<Rightarrow> string ptr" where
  "scheduler_current_task_name s =
     (case scheduler_current_process s of None \<Rightarrow> Some ''idle'' | Some i \<Rightarrow> ps_name (g_processes s ! i))"

definition scheduler_switch_count_read :: "scheduler \<Rightarrow> u32" where
  "scheduler_switch_count_read s = g_switch_count s"

definition task_create ::
  "bool \<Rightarrow> u32 \<Rightarrow> string ptr \<Rightarrow> task_entry ptr \<Rightarrow> scheduler \<Rightarrow> (unit + scheduler) option" where
  "task_create single_foreground stacks name entry s =
     map_option (\<lambda>(pid, s). if pid = 0 then Inl () else Inr s)
       (process_spawn single_foreground stacks name entry s)"

definition task_yield :: "yield_env \<Rightarrow> scheduler \<Rightarrow> outcome option" where
  "task_yield env s = process_yield env s"

definition task_exit :: "yield_env \<Rightarrow> scheduler \<Rightarrow> outcome option" where
  "task_exit env s = process_exit env 0 s"

end
