(* ===== verification/Kernel_Ops.thy ===== *)
theory Kernel_Ops
  imports Runtime_Syscall_Objects Runtime_Service Runtime_Catalog Runtime_Fs_Files Scheduler
begin

text \<open>
  How \<open>kernel/kernel.c\<close> puts the kernel behind the system calls: the functions of the tables
  \<open>g_runtime_fs_stress_file_ops\<close> and \<open>g_runtime_fs_stress_ops\<close>, from the process list to the file system. The context
  is the state that these functions reach: the file system of the state, the scheduler, the service sessions and the
  globals of the service, and the caller's strings, buffers and structures by address. The exchange of a service request
  with its server blocks the caller, so that other processes run; it is the function \<open>ke_exchange\<close> of the environment,
  which acts on the scheduler: the process that makes the calls is the only one that uses the file system and the sessions.
  The theorem: no file handle outlives its open file, in any sequence of system calls and releases.
\<close>

section \<open>Catalogs\<close>

text \<open>The entry points, by name; the linker places them.\<close>

datatype kernel_task = task_a | task_b | task_c | task_d | task_e | process_oneshot | process_event_waiter
  | process_mailbox_receiver | process_service_server | process_supervisor

definition g_runtime_process_catalog :: "kernel_task runtime_process_manifest list" where
  "g_runtime_process_catalog =
     [\<lparr>pm_task_key = Some ''a'', pm_process_name = Some ''TASKA'', pm_default_role = RUNTIME_PROCESS_ROLE_FOREGROUND_APP, pm_entry = task_a\<rparr>,
      \<lparr>pm_task_key = Some ''b'', pm_process_name = Some ''TASKB'', pm_default_role = RUNTIME_PROCESS_ROLE_FOREGROUND_APP, pm_entry = task_b\<rparr>,
      \<lparr>pm_task_key = Some ''c'', pm_process_name = Some ''TASKC'', pm_default_role = RUNTIME_PROCESS_ROLE_FOREGROUND_APP, pm_entry = task_c\<rparr>,
      \<lparr>pm_task_key = Some ''d'', pm_process_name = Some ''TASKD'', pm_default_role = RUNTIME_PROCESS_ROLE_BACKGROUND_APP, pm_entry = task_d\<rparr>,
      \<lparr>pm_task_key = Some ''e'', pm_process_name = Some ''TASKE'', pm_default_role = RUNTIME_PROCESS_ROLE_FOREGROUND_APP, pm_entry = task_e\<rparr>,
      \<lparr>pm_task_key = Some ''on'', pm_process_name = Some ''ONESHOT'', pm_default_role = RUNTIME_PROCESS_ROLE_SYSTEM, pm_entry = process_oneshot\<rparr>,
      \<lparr>pm_task_key = Some ''ev'', pm_process_name = Some ''EVENTWAITER'', pm_default_role = RUNTIME_PROCESS_ROLE_LIVE_ACTIVITY, pm_entry = process_event_waiter\<rparr>,
      \<lparr>pm_task_key = Some ''mb'', pm_process_name = Some ''MAILBOXRX'', pm_default_role = RUNTIME_PROCESS_ROLE_BACKGROUND_APP, pm_entry = process_mailbox_receiver\<rparr>,
      \<lparr>pm_task_key = Some ''sv'', pm_process_name = Some ''SVCSERVER'', pm_default_role = RUNTIME_PROCESS_ROLE_SYSTEM, pm_entry = process_service_server\<rparr>,
      \<lparr>pm_task_key = Some ''su'', pm_process_name = Some ''SUPERVISOR'', pm_default_role = RUNTIME_PROCESS_ROLE_SYSTEM, pm_entry = process_supervisor\<rparr>]"

record runtime_service_manifest =
  sm_service_key :: "string ptr"
  sm_service_name :: "string ptr"
  sm_flags :: u32

definition RUNTIME_SERVICE_FLAG_REQUEST_REPLY :: u32 where "RUNTIME_SERVICE_FLAG_REQUEST_REPLY = 1"

definition g_runtime_service_catalog :: "runtime_service_manifest list" where
  "g_runtime_service_catalog =
     [\<lparr>sm_service_key = Some ''accum'', sm_service_name = Some ''SVCSERVER'', sm_flags = RUNTIME_SERVICE_FLAG_REQUEST_REPLY\<rparr>]"

definition g_runtime_loader_catalog :: "runtime_loader_record list" where
  "g_runtime_loader_catalog =
     [\<lparr>lr_app_key = Some ''demo.calc'', lr_display_name = Some ''Demo Calculator'', lr_version = Some ''0.1.0'',
        lr_task_key = Some ''a'', lr_default_role = RUNTIME_PROCESS_ROLE_FOREGROUND_APP\<rparr>,
      \<lparr>lr_app_key = Some ''demo.inbox'', lr_display_name = Some ''Demo Inbox'', lr_version = Some ''0.1.0'',
        lr_task_key = Some ''mb'', lr_default_role = RUNTIME_PROCESS_ROLE_BACKGROUND_APP\<rparr>,
      \<lparr>lr_app_key = Some ''demo.live'', lr_display_name = Some ''Demo Live Activity'', lr_version = Some ''0.1.0'',
        lr_task_key = Some ''ev'', lr_default_role = RUNTIME_PROCESS_ROLE_LIVE_ACTIVITY\<rparr>]"

section \<open>The context\<close>

record runtime_app_info =
  ap_app_key :: "string ptr"
  ap_display_name :: "string ptr"
  ap_task_key :: "string ptr"
  ap_default_role :: u32

record fs_context =
  fx_fs :: runtime_fs
  fx_sched :: scheduler
  g_runtime_service_sessions :: runtime_service_session_table
  g_service_pid :: process_id
  g_service_request_event :: uintptr
  g_service_request_mailbox :: uintptr
  g_service_reply_mailbox :: uintptr
  g_service_reply_semaphore :: uintptr
  fx_strings :: "uintptr \<Rightarrow> string"
  fx_buffers :: "uintptr \<Rightarrow> u8 list"
  fx_stats :: "uintptr \<Rightarrow> runtime_file_stat"
  fx_entries :: "uintptr \<Rightarrow> runtime_dir_entry"
  fx_processes :: "uintptr \<Rightarrow> process_info"
  fx_spawnables :: "uintptr \<Rightarrow> runtime_process_catalog_entry"
  fx_services :: "uintptr \<Rightarrow> runtime_service_manifest"
  fx_apps :: "uintptr \<Rightarrow> runtime_app_info"
  fx_words :: "uintptr \<Rightarrow> u32"
  fx_fault :: bool

text \<open>
  The build's policy and stack addresses, the addresses of the entry points, and the blocking exchange of a request
  with the service's server.
\<close>

record kernel_env =
  ke_single_foreground :: bool
  ke_stacks :: u32
  ke_code :: "kernel_task \<Rightarrow> task_entry"
  ke_exchange :: "u32 \<Rightarrow> scheduler \<Rightarrow> u32 \<times> scheduler"

text \<open>A null address is a null pointer.\<close>

definition at_addr :: "(uintptr \<Rightarrow> 'a) \<Rightarrow> uintptr \<Rightarrow> 'a ptr" where
  "at_addr m a = (if a = 0 then None else Some (m a))"

definition put_addr :: "(uintptr \<Rightarrow> 'a) \<Rightarrow> uintptr \<Rightarrow> 'a ptr \<Rightarrow> uintptr \<Rightarrow> 'a" where
  "put_addr m a p = (case p of None \<Rightarrow> m | Some x \<Rightarrow> m(a := x))"

text \<open>The value of an out parameter after a call, given the one before.\<close>

definition the_or :: "'a ptr \<Rightarrow> 'a \<Rightarrow> 'a" where
  "the_or p x = (case p of None \<Rightarrow> x | Some y \<Rightarrow> y)"

definition runtime_fs_stress_current_pid :: "fs_context \<Rightarrow> u32" where
  "runtime_fs_stress_current_pid c = process_current_pid (fx_sched c)"

text \<open>The buffer of the snapshot on the stack has 16 entries; its contents before the call do not matter.\<close>

definition runtime_process_snapshot_find :: "process_id \<Rightarrow> scheduler \<Rightarrow> process_info option" where
  "runtime_process_snapshot_find pid s =
     (if pid = 0 then None
      else let blank = \<lparr>pi_pid = 0, pi_parent_pid = 0, pi_name = None, pi_role = 0, pi_state = PROCESS_STATE_UNUSED, pi_exit_code = 0,
                 pi_switch_count = 0, pi_yield_count = 0, pi_wake_tick = 0, pi_wait_reason = PROCESS_WAIT_NONE, pi_wait_channel = 0\<rparr>
           in case process_snapshot (Some (replicate 16 blank)) 16 s of
             (Some snapshot, count) \<Rightarrow> find (\<lambda>info. pi_pid info = pid) (take count snapshot)
           | (None, count) \<Rightarrow> None)"

definition runtime_syscall_process_info :: "u32 \<Rightarrow> uintptr \<Rightarrow> fs_context \<Rightarrow> int \<times> fs_context" where
  "runtime_syscall_process_info pid info c =
     (if pid = 0 \<or> info = 0 then (RUNTIME_SYSCALL_STATUS_ENOENT, c)
      else case runtime_process_snapshot_find pid (fx_sched c) of
        None \<Rightarrow> (RUNTIME_SYSCALL_STATUS_ENOENT, c)
      | Some snapshot \<Rightarrow> (RUNTIME_SYSCALL_STATUS_OK, c\<lparr>fx_processes := (fx_processes c)(info := snapshot)\<rparr>))"

definition runtime_management_spawn_process ::
  "kernel_env \<Rightarrow> kernel_task \<Rightarrow> string ptr \<Rightarrow> u32 \<Rightarrow> fs_context \<Rightarrow> process_id \<times> fs_context" where
  "runtime_management_spawn_process env entry name role c =
     (case process_spawn_with_role (ke_single_foreground env) (ke_stacks env) name (Some (ke_code env entry)) role (fx_sched c) of
        None \<Rightarrow> (0, c\<lparr>fx_fault := True\<rparr>)
      | Some (pid, s) \<Rightarrow> (pid, c\<lparr>fx_sched := s\<rparr>))"

definition runtime_spawn_process_from_task_key :: "kernel_env \<Rightarrow> string ptr \<Rightarrow> u32 \<Rightarrow> fs_context \<Rightarrow> process_id \<times> fs_context" where
  "runtime_spawn_process_from_task_key env task_key role c =
     (if task_key = None then (0, c)
      else case runtime_catalog_find (Some g_runtime_process_catalog) (length g_runtime_process_catalog) task_key of
        None \<Rightarrow> (0, c)
      | Some manifest \<Rightarrow> runtime_management_spawn_process env (pm_entry manifest) (pm_process_name manifest) role c)"

definition runtime_syscall_spawnable_count :: "fs_context \<Rightarrow> u32 \<times> fs_context" where
  "runtime_syscall_spawnable_count c = (of_nat (length g_runtime_process_catalog), c)"

definition runtime_syscall_spawnable_info :: "u32 \<Rightarrow> uintptr \<Rightarrow> fs_context \<Rightarrow> int \<times> fs_context" where
  "runtime_syscall_spawnable_info index info c =
     (if info = 0 then (RUNTIME_SYSCALL_STATUS_EINVAL, c)
      else if unat index \<ge> length g_runtime_process_catalog then (RUNTIME_SYSCALL_STATUS_ENOENT, c)
      else let manifest = g_runtime_process_catalog ! unat index in
        (RUNTIME_SYSCALL_STATUS_OK, c\<lparr>fx_spawnables := (fx_spawnables c)(info := \<lparr>pc_task_key = pm_task_key manifest,
          pc_process_name = pm_process_name manifest, pc_default_role = pm_default_role manifest\<rparr>)\<rparr>))"

definition runtime_fs_stress_mkdir :: "uintptr \<Rightarrow> u32 \<Rightarrow> fs_context \<Rightarrow> int \<times> fs_context" where
  "runtime_fs_stress_mkdir path mode c =
     (let (r, fs) = runtime_fs_mkdir (fx_fs c) (process_current_pid (fx_sched c)) (at_addr (fx_strings c) path) mode in
      (r, c\<lparr>fx_fs := fs\<rparr>))"

definition runtime_fs_stress_open ::
  "uintptr \<Rightarrow> u32 \<Rightarrow> uintptr \<Rightarrow> fs_context \<Rightarrow> int \<times> uintptr \<times> fs_context" where
  "runtime_fs_stress_open path flags file_object c =
     (let (r, fs, out) = runtime_fs_open (fx_fs c) (process_current_pid (fx_sched c)) (at_addr (fx_strings c) path) flags
            (Some file_object) in
      (r, the_or out file_object, c\<lparr>fx_fs := fs\<rparr>))"

definition runtime_fs_stress_read :: "uintptr \<Rightarrow> uintptr \<Rightarrow> u32 \<Rightarrow> fs_context \<Rightarrow> int \<times> fs_context" where
  "runtime_fs_stress_read file_object buffer n c =
     (let (r, fs, out) = runtime_fs_read (fx_fs c) (unat file_object) (at_addr (fx_buffers c) buffer) (unat n) in
      (r, c\<lparr>fx_fs := fs, fx_buffers := put_addr (fx_buffers c) buffer out\<rparr>))"

text \<open>A store outside the file or a read outside the buffer is recorded in \<open>fx_fault\<close>.\<close>

definition runtime_fs_stress_write :: "uintptr \<Rightarrow> uintptr \<Rightarrow> u32 \<Rightarrow> fs_context \<Rightarrow> int \<times> fs_context" where
  "runtime_fs_stress_write file_object buffer n c =
     (case runtime_fs_write (fx_fs c) (unat file_object) (at_addr (fx_buffers c) buffer) (unat n) of
        None \<Rightarrow> (0, c\<lparr>fx_fault := True\<rparr>)
      | Some (r, fs) \<Rightarrow> (r, c\<lparr>fx_fs := fs\<rparr>))"

definition runtime_fs_stress_close :: "uintptr \<Rightarrow> fs_context \<Rightarrow> int \<times> fs_context" where
  "runtime_fs_stress_close file_object c =
     (let (r, fs) = runtime_fs_close (fx_fs c) (unat file_object) in (r, c\<lparr>fx_fs := fs\<rparr>))"

definition runtime_fs_stress_stat :: "uintptr \<Rightarrow> uintptr \<Rightarrow> fs_context \<Rightarrow> int \<times> fs_context" where
  "runtime_fs_stress_stat file_object stat c =
     (let (r, out) = runtime_fs_stat (fx_fs c) (unat file_object) (at_addr (fx_stats c) stat) in
      (r, c\<lparr>fx_stats := put_addr (fx_stats c) stat out\<rparr>))"

definition runtime_fs_stress_readdir :: "uintptr \<Rightarrow> uintptr \<Rightarrow> fs_context \<Rightarrow> int \<times> fs_context" where
  "runtime_fs_stress_readdir file_object entry c =
     (let (r, fs, out) = runtime_fs_readdir (fx_fs c) (unat file_object) (at_addr (fx_entries c) entry) in
      (r, c\<lparr>fx_fs := fs, fx_entries := put_addr (fx_entries c) entry out\<rparr>))"

definition runtime_fs_stress_seek :: "uintptr \<Rightarrow> int \<Rightarrow> u32 \<Rightarrow> fs_context \<Rightarrow> int \<times> fs_context" where
  "runtime_fs_stress_seek file_object offset whence c =
     (let (r, fs) = runtime_fs_seek (fx_fs c) (unat file_object) offset whence in (r, c\<lparr>fx_fs := fs\<rparr>))"

definition runtime_fs_stress_remove :: "uintptr \<Rightarrow> fs_context \<Rightarrow> int \<times> fs_context" where
  "runtime_fs_stress_remove path c =
     (let (r, fs) = runtime_fs_remove (fx_fs c) (process_current_pid (fx_sched c)) (at_addr (fx_strings c) path) in
      (r, c\<lparr>fx_fs := fs\<rparr>))"

definition runtime_fs_stress_rename :: "uintptr \<Rightarrow> uintptr \<Rightarrow> fs_context \<Rightarrow> int \<times> fs_context" where
  "runtime_fs_stress_rename old_path new_path c =
     (case runtime_fs_rename (fx_fs c) (process_current_pid (fx_sched c)) (at_addr (fx_strings c) old_path)
             (at_addr (fx_strings c) new_path) of
        None \<Rightarrow> (0, c\<lparr>fx_fault := True\<rparr>)
      | Some (r, fs) \<Rightarrow> (r, c\<lparr>fx_fs := fs\<rparr>))"

definition runtime_service_string_equals :: "string ptr \<Rightarrow> string ptr \<Rightarrow> bool" where
  "runtime_service_string_equals lhs rhs = (case (lhs, rhs) of (Some a, Some b) \<Rightarrow> name_equals a b | _ \<Rightarrow> False)"

definition runtime_service_provider_pid :: "fs_context \<Rightarrow> process_id" where
  "runtime_service_provider_pid c =
     (if g_service_pid c = 0 then 0
      else case runtime_process_snapshot_find (g_service_pid c) (fx_sched c) of
        None \<Rightarrow> 0
      | Some info \<Rightarrow> (if pi_state info = PROCESS_STATE_ZOMBIE \<or> pi_state info = PROCESS_STATE_UNUSED then 0 else g_service_pid c))"

definition runtime_service_request_sync ::
  "kernel_env \<Rightarrow> process_id \<Rightarrow> u32 \<Rightarrow> uintptr \<Rightarrow> fs_context \<Rightarrow> int \<times> fs_context" where
  "runtime_service_request_sync env provider_pid request response c =
     (if response = 0 \<or> provider_pid = 0 \<or> g_service_pid c \<noteq> provider_pid \<or> g_service_request_event c = 0 \<or>
         g_service_request_mailbox c = 0 \<or> g_service_reply_mailbox c = 0 \<or> g_service_reply_semaphore c = 0 then (0, c)
      else let (reply, s) = ke_exchange env request (fx_sched c) in
        (1, c\<lparr>fx_sched := s, fx_words := (fx_words c)(response := reply)\<rparr>))"

definition runtime_syscall_service_count :: "fs_context \<Rightarrow> u32 \<times> fs_context" where
  "runtime_syscall_service_count c = (of_nat (length g_runtime_service_catalog), c)"

definition runtime_syscall_service_info :: "u32 \<Rightarrow> uintptr \<Rightarrow> fs_context \<Rightarrow> int \<times> fs_context" where
  "runtime_syscall_service_info index info c =
     (if info = 0 then (RUNTIME_SYSCALL_STATUS_EINVAL, c)
      else if unat index \<ge> length g_runtime_service_catalog then (RUNTIME_SYSCALL_STATUS_ENOENT, c)
      else let m = g_runtime_service_catalog ! unat index in
        (RUNTIME_SYSCALL_STATUS_OK, c\<lparr>fx_services := (fx_services c)(info := \<lparr>sm_service_key = sm_service_key m,
          sm_service_name = sm_service_name m, sm_flags = sm_flags m\<rparr>)\<rparr>))"

text \<open>The pointer for the session object is never null.\<close>

definition runtime_syscall_service_open :: "uintptr \<Rightarrow> uintptr \<Rightarrow> fs_context \<Rightarrow> int \<times> uintptr \<times> fs_context" where
  "runtime_syscall_service_open service_key service_object c =
     (if service_key = 0 then (RUNTIME_SYSCALL_STATUS_EINVAL, service_object, c)
      else if \<not> runtime_service_string_equals (at_addr (fx_strings c) service_key) (Some ''accum'')
      then (RUNTIME_SYSCALL_STATUS_ENOENT, service_object, c)
      else let provider_pid = runtime_service_provider_pid c in
        if provider_pid = 0 then (RUNTIME_SYSCALL_STATUS_ESRCH, service_object, c)
        else let (r, t, x) = runtime_service_session_open (Some (g_runtime_service_sessions c)) (process_current_pid (fx_sched c))
                   provider_pid 0 (Some service_object) in
          (r, the_or x service_object, c\<lparr>g_runtime_service_sessions := the_or t (g_runtime_service_sessions c)\<rparr>))"

definition runtime_syscall_service_close :: "uintptr \<Rightarrow> fs_context \<Rightarrow> int \<times> fs_context" where
  "runtime_syscall_service_close service_object c =
     (let (r, t) = runtime_service_session_close (Some (g_runtime_service_sessions c)) service_object in
      (r, c\<lparr>g_runtime_service_sessions := the_or t (g_runtime_service_sessions c)\<rparr>))"

definition runtime_syscall_service_request :: "kernel_env \<Rightarrow> uintptr \<Rightarrow> u32 \<Rightarrow> uintptr \<Rightarrow> fs_context \<Rightarrow> int \<times> fs_context" where
  "runtime_syscall_service_request env service_object request response c =
     (if response = 0 then (RUNTIME_SYSCALL_STATUS_EINVAL, c)
      else case runtime_service_session_info (Some (g_runtime_service_sessions c)) service_object
             (Some \<lparr>ss_object = 0, ss_owner_pid = 0, ss_provider_pid = 0, ss_service_slot = 0\<rparr>) of
        (r, None) \<Rightarrow> (RUNTIME_SYSCALL_STATUS_EBADF, c)
      | (r, Some session) \<Rightarrow>
          (if r \<noteq> RUNTIME_SYSCALL_STATUS_OK then (RUNTIME_SYSCALL_STATUS_EBADF, c)
           else let provider_pid = runtime_service_provider_pid c in
             if provider_pid = 0 \<or> provider_pid \<noteq> ss_provider_pid session
             then (RUNTIME_SYSCALL_STATUS_ESRCH, c\<lparr>g_runtime_service_sessions := the_or
                 (snd (runtime_service_session_invalidate_provider (Some (g_runtime_service_sessions c)) (ss_provider_pid session)))
                 (g_runtime_service_sessions c)\<rparr>)
             else let (sent, c) = runtime_service_request_sync env provider_pid request response c in
               (if sent \<noteq> 0 then RUNTIME_SYSCALL_STATUS_OK else RUNTIME_SYSCALL_STATUS_EBUSY, c)))"

definition runtime_syscall_app_count :: "fs_context \<Rightarrow> u32 \<times> fs_context" where
  "runtime_syscall_app_count c = (of_nat (length g_runtime_loader_catalog), c)"

definition runtime_syscall_app_info :: "u32 \<Rightarrow> uintptr \<Rightarrow> fs_context \<Rightarrow> int \<times> fs_context" where
  "runtime_syscall_app_info index info c =
     (if info = 0 then (RUNTIME_SYSCALL_STATUS_EINVAL, c)
      else let blank = \<lparr>lr_app_key = None, lr_display_name = None, lr_version = None, lr_task_key = None, lr_default_role = 0\<rparr>
           in case runtime_loader_snapshot (Some g_runtime_loader_catalog) (length g_runtime_loader_catalog)
                (Some (replicate 3 blank)) 3 of
             (count, None) \<Rightarrow> (RUNTIME_SYSCALL_STATUS_ENOENT, c)
           | (count, Some snapshot) \<Rightarrow>
               (if unat index \<ge> count then (RUNTIME_SYSCALL_STATUS_ENOENT, c)
                else let e = snapshot ! unat index in
                  (RUNTIME_SYSCALL_STATUS_OK, c\<lparr>fx_apps := (fx_apps c)(info := \<lparr>ap_app_key = lr_app_key e,
                    ap_display_name = lr_display_name e, ap_task_key = lr_task_key e, ap_default_role = lr_default_role e\<rparr>)\<rparr>)))"

definition runtime_syscall_app_launch :: "kernel_env \<Rightarrow> uintptr \<Rightarrow> fs_context \<Rightarrow> u32 \<times> fs_context" where
  "runtime_syscall_app_launch env app_key c =
     (if app_key = 0 then (0, c)
      else case runtime_loader_find (Some g_runtime_loader_catalog) (length g_runtime_loader_catalog) (at_addr (fx_strings c) app_key) of
        None \<Rightarrow> (0, c)
      | Some r \<Rightarrow> runtime_spawn_process_from_task_key env (lr_task_key r) (lr_default_role r) c)"

definition g_runtime_fs_stress_file_ops :: "fs_context runtime_syscall_file_ops" where
  "g_runtime_fs_stress_file_ops =
     \<lparr>fo_open = Some runtime_fs_stress_open, fo_read = Some runtime_fs_stress_read, fo_write = Some runtime_fs_stress_write,
      fo_close = Some runtime_fs_stress_close, fo_stat = Some runtime_fs_stress_stat,
      fo_readdir = Some runtime_fs_stress_readdir, fo_seek = Some runtime_fs_stress_seek,
      fo_remove = Some runtime_fs_stress_remove, fo_rename = Some runtime_fs_stress_rename\<rparr>"

definition g_runtime_fs_stress_ops :: "kernel_env \<Rightarrow> fs_context runtime_syscall_ops" where
  "g_runtime_fs_stress_ops env =
     \<lparr>op_process_current_pid = Some runtime_fs_stress_current_pid, op_process_sleep = None, op_process_kill = None,
      op_process_info = Some runtime_syscall_process_info, op_process_spawn_named = None,
      op_process_spawnable_count = Some runtime_syscall_spawnable_count,
      op_process_spawnable_info = Some runtime_syscall_spawnable_info,
      op_service_count = Some runtime_syscall_service_count, op_service_info = Some runtime_syscall_service_info,
      op_service_open = Some runtime_syscall_service_open, op_service_close = Some runtime_syscall_service_close,
      op_service_request = Some (runtime_syscall_service_request env),
      op_app_count = Some runtime_syscall_app_count, op_app_info = Some runtime_syscall_app_info,
      op_app_launch = Some (runtime_syscall_app_launch env),
      op_event_create = None, op_event_destroy = None, op_event_signal = None, op_mailbox_create = None,
      op_mailbox_destroy = None, op_mailbox_send = None, op_mailbox_receive = None,
      op_fs_mkdir = Some runtime_fs_stress_mkdir, op_file_ops = Some g_runtime_fs_stress_file_ops\<rparr>"

definition runtime_fs_stress_dispatch ::
  "kernel_env \<Rightarrow> u32 \<Rightarrow> uintptr \<Rightarrow> uintptr \<Rightarrow> uintptr \<Rightarrow> fs_context sys_state \<Rightarrow> int \<times> fs_context sys_state" where
  "runtime_fs_stress_dispatch env syscall_number a0 a1 a2 s =
     runtime_syscall_dispatch syscall_number (Some \<lparr>arg0 = a0, arg1 = a1, arg2 = a2, arg3 = 0\<rparr>)
       (Some (g_runtime_fs_stress_ops env)) s"

section \<open>Open files\<close>

text \<open>The objects of open files, as handles carry them.\<close>

definition open_objects :: "fs_context \<Rightarrow> uintptr set" where
  "open_objects c = {of_nat (slot + 1) |slot. slot < RUNTIME_FS_MAX_OPEN_FILES \<and> of_used (open_files (fx_fs c) ! slot)}"

definition files_ok :: "fs_context \<Rightarrow> bool" where
  "files_ok c \<longleftrightarrow> length (open_files (fx_fs c)) = RUNTIME_FS_MAX_OPEN_FILES"

definition same_open :: "runtime_fs \<Rightarrow> runtime_fs \<Rightarrow> bool" where
  "same_open fs fs' \<longleftrightarrow> map of_used (open_files fs') = map of_used (open_files fs)"

lemma same_open_refl [simp]: "same_open fs fs" and same_open_eq: "open_files fs' = open_files fs \<Longrightarrow> same_open fs fs'"
  by (simp_all add: same_open_def)

lemma same_open_upd: "(\<And>f. of_used (g f) = of_used f) \<Longrightarrow> same_open fs (upd_open i g fs)"
  by (cases "i < length (open_files fs)") (simp_all add: same_open_def open_files_upd_open map_update list_update_same_conv list_update_beyond)

lemma same_open_ok:
  assumes "files_ok c" "same_open (fx_fs c) fs" "fx_fs c' = fs"
  shows "files_ok c' \<and> open_objects c' = open_objects c"
proof -
  have len: "length (open_files fs) = length (open_files (fx_fs c))"
    using assms(2) by (metis length_map same_open_def)
  have used: "of_used (open_files fs ! i) = of_used (open_files (fx_fs c) ! i)" if "i < RUNTIME_FS_MAX_OPEN_FILES" for i
  proof -
    have "map of_used (open_files fs) ! i = map of_used (open_files (fx_fs c)) ! i" using assms(2) by (simp add: same_open_def)
    then show ?thesis using that assms(1) len by (simp add: files_ok_def)
  qed
  have "open_objects c' = open_objects c" unfolding open_objects_def assms(3) using used by blast
  then show ?thesis using assms(1,3) len by (simp add: files_ok_def)
qed

lemma mkdir_same_open: "same_open fs (snd (runtime_fs_mkdir fs pid path m))"
  by (simp add: same_open_eq tree_ops_open_files)

lemma remove_same_open: "same_open fs (snd (runtime_fs_remove fs pid path))"
  by (simp add: same_open_eq tree_ops_open_files)

lemma rename_same_open: "runtime_fs_rename fs pid old new = Some (r, fs') \<Longrightarrow> same_open fs fs'"
  by (simp add: same_open_eq tree_ops_open_files(3))

lemma read_same_open: "same_open fs (fst (snd (runtime_fs_read fs obj buffer n)))"
  by (simp add: runtime_fs_read_def Let_def same_open_upd split: option.split)

lemma write_same_open: "runtime_fs_write fs obj buffer n = Some (r, fs') \<Longrightarrow> same_open fs fs'"
proof (erule runtime_fs_write_cases)
  fix slot and bytes :: "u8 list"
  let ?k = "of_node_index (open_files fs ! slot)" and ?o = "of_offset (open_files fs ! slot)"
  let ?fs = "upd_node ?k (\<lambda>nd. fs_write_node nd ?o bytes n) fs"
  assume "fs' = upd_open slot (\<lambda>f. f\<lparr>of_offset := ?o + n\<rparr>) ?fs"
  moreover have "same_open ?fs (upd_open slot (\<lambda>f. f\<lparr>of_offset := ?o + n\<rparr>) ?fs)" by (rule same_open_upd) simp
  ultimately show ?thesis by (simp add: same_open_def)
qed simp

lemma readdir_same_open: "same_open fs (fst (snd (runtime_fs_readdir fs obj entry)))"
  by (simp add: runtime_fs_readdir_def Let_def same_open_upd split: option.split)

lemma seek_same_open: "same_open fs (snd (runtime_fs_seek fs obj off whence))"
  by (simp add: runtime_fs_seek_def Let_def same_open_upd split: option.split)


section \<open>Opening and closing\<close>

lemma parent_from_negative: "fs_parent_from fs k token cursor = Inl st \<Longrightarrow> st < 0"
proof (induction fs k token cursor rule: fs_parent_from.induct)
  case (1 fs k token cursor)
  then show ?case by (subst (asm) (2) fs_parent_from.simps) (auto split: token_step.splits option.splits if_splits)
qed

lemma open_lookup_negative: "fs_open_lookup fs pid path flags = Inl st \<Longrightarrow> st < 0"
  by (auto simp: fs_open_lookup_def fs_resolve_parent_path_def dest: parent_from_negative
      split: option.splits if_splits sum.splits token_step.splits prod.splits)

lemma open_check_negative: "fs_open_check fs pid k flags = (st, fs') \<Longrightarrow> st \<noteq> 0 \<Longrightarrow> st < 0"
  by (auto simp: fs_open_check_def Let_def split: if_splits)

text \<open>An open either fails and leaves all open files, or takes a slot that was free.\<close>

lemma open_result:
  assumes "runtime_fs_open fs pid path flags (Some x0) = (r, fs', x)"
  shows "r < 0 \<and> same_open fs fs' \<or> r = 0 \<and> (\<exists>slot < length (open_files fs). \<not> of_used (open_files fs ! slot) \<and>
    x = Some (word_of_int (int (slot + 1))) \<and> map of_used (open_files fs') = (map of_used (open_files fs))[slot := True])"
proof (cases "path = None \<or> cchar (the path) 0 \<noteq> CHR ''/''")
  case True
  then show ?thesis using assms by (auto simp: runtime_fs_open_def)
next
  case path: False
  show ?thesis
  proof (cases "fs_open_lookup fs pid path flags")
    case (Inl st)
    then show ?thesis using assms path open_lookup_negative [OF Inl] by (auto simp: runtime_fs_open_def)
  next
    case (Inr p)
    obtain fs1 k where look: "fs_open_lookup fs pid path flags = Inr (fs1, k)" using Inr by (cases p) simp
    obtain st fs2 where chk: "fs_open_check fs1 pid k flags = (st, fs2)" by fastforce
    have files: "open_files fs2 = open_files fs"
      using fs_open_lookup_open_files [OF look] fs_open_check_writer(1) [OF chk] by simp
    show ?thesis
    proof (cases "st = 0")
      case False
      then show ?thesis using assms path look chk files open_check_negative [OF chk]
        by (auto simp: runtime_fs_open_def same_open_eq)
    next
      case True
      show ?thesis
      proof (cases "first_index (\<lambda>f. \<not> of_used f) (open_files fs)")
        case None
        then show ?thesis using assms path look chk files True
          by (auto simp: runtime_fs_open_def fs_open_slot_alloc_def same_open_eq)
      next
        case (Some slot)
        then have slot: "slot < length (open_files fs)" "\<not> of_used (open_files fs ! slot)" by (simp_all add: first_index_Some)
        have n: "nat (int (slot + 1)) - 1 = slot" by simp
        from slot have "r = 0 \<and> x = Some (word_of_int (int (slot + 1))) \<and> map of_used (open_files fs') = (map of_used (open_files fs))[slot := True]"
          using assms path look chk files True Some
          by (auto simp: runtime_fs_open_def fs_open_slot_alloc_def map_update n simp del: of_nat_add of_nat_Suc)
        then show ?thesis using slot by blast
      qed
    qed
  qed
qed

lemma fs_close_result:
  "runtime_fs_close fs x = (if x \<noteq> 0 \<and> x \<le> RUNTIME_FS_MAX_OPEN_FILES \<and> of_used (open_files fs ! (x - 1))
     then (0, upd_open (x - 1) (\<lambda>f. f\<lparr>of_used := False, of_node_index := 0, of_owner_pid := 0, of_flags := 0, of_offset := 0,
       of_dir_cursor := 0\<rparr>) fs)
     else (RUNTIME_SYSCALL_STATUS_EBADF, fs))"
  by (simp add: runtime_fs_close_def fs_open_file_lookup_def)

lemma slot_object:
  assumes "slot < RUNTIME_FS_MAX_OPEN_FILES"
  shows "unat (of_nat (slot + 1) :: uintptr) = slot + 1"
  using assms by (intro unat_small) (simp add: RUNTIME_FS_MAX_OPEN_FILES_def)

lemma mem_open_objects:
  "x \<in> open_objects c \<longleftrightarrow> unat x \<noteq> 0 \<and> unat x \<le> RUNTIME_FS_MAX_OPEN_FILES \<and> of_used (open_files (fx_fs c) ! (unat x - 1))"
proof
  assume "x \<in> open_objects c"
  then obtain slot where "slot < RUNTIME_FS_MAX_OPEN_FILES" "of_used (open_files (fx_fs c) ! slot)" "x = of_nat (slot + 1)"
    by (auto simp: open_objects_def)
  then show "unat x \<noteq> 0 \<and> unat x \<le> RUNTIME_FS_MAX_OPEN_FILES \<and> of_used (open_files (fx_fs c) ! (unat x - 1))"
    using slot_object by simp
next
  assume x: "unat x \<noteq> 0 \<and> unat x \<le> RUNTIME_FS_MAX_OPEN_FILES \<and> of_used (open_files (fx_fs c) ! (unat x - 1))"
  have "x = of_nat (unat x - 1 + 1)" using x by simp
  then show "x \<in> open_objects c" unfolding open_objects_def using x
    by (intro CollectI exI [of _ "unat x - 1"]) auto
qed

lemma unat_minus_1_eq: "unat z \<noteq> 0 \<Longrightarrow> unat x \<noteq> 0 \<Longrightarrow> unat z - 1 = unat x - 1 \<longleftrightarrow> z = (x :: uintptr)"
  by (auto simp: word_unat_eq_iff)

lemma stress_open_law:
  assumes "files_ok c" and "runtime_fs_stress_open path flags x0 c = (r, x, c')"
  shows "files_ok c' \<and> (if r < 0 then open_objects c' = open_objects c
    else x \<notin> open_objects c \<and> open_objects c' = insert x (open_objects c))"
proof -
  obtain fs' y where op: "runtime_fs_open (fx_fs c) (process_current_pid (fx_sched c)) (at_addr (fx_strings c) path) flags (Some x0) = (r, fs', y)"
    and c': "c' = c\<lparr>fx_fs := fs'\<rparr>" "x = the_or y x0"
    using assms(2) by (auto simp: runtime_fs_stress_open_def split: prod.splits)
  from open_result [OF op] show ?thesis
  proof (elim disjE conjE exE)
    assume "r < 0" "same_open (fx_fs c) fs'"
    then show ?thesis using same_open_ok [OF assms(1)] c'(1) by simp
  next
    fix slot
    assume r: "r = 0" and slot: "slot < length (open_files (fx_fs c))" "\<not> of_used (open_files (fx_fs c) ! slot)"
      and y: "y = Some (word_of_int (int (slot + 1)))"
      and used: "map of_used (open_files fs') = (map of_used (open_files (fx_fs c)))[slot := True]"
    have x: "x = of_nat (slot + 1)" using c'(2) y by (simp add: the_or_def)
    have len: "length (open_files fs') = RUNTIME_FS_MAX_OPEN_FILES" "slot < RUNTIME_FS_MAX_OPEN_FILES"
      using arg_cong [OF used, of length] assms(1) slot(1) by (simp_all add: files_ok_def)
    have ux: "unat x = slot + 1" using slot_object [OF len(2)] x by simp
    have at: "of_used (open_files fs' ! i) \<longleftrightarrow> (i = slot \<or> of_used (open_files (fx_fs c) ! i))" if "i < RUNTIME_FS_MAX_OPEN_FILES" for i
      using arg_cong [OF used, of "\<lambda>xs. xs ! i"] that len assms(1) by (auto simp: files_ok_def nth_list_update_if)
    have "z \<in> open_objects c' \<longleftrightarrow> z = x \<or> z \<in> open_objects c" for z
    proof (cases "unat z \<noteq> 0 \<and> unat z \<le> RUNTIME_FS_MAX_OPEN_FILES")
      case True
      then have "unat z - 1 = slot \<longleftrightarrow> z = x" using ux unat_minus_1_eq [of z x] by simp
      moreover have "unat z - 1 < RUNTIME_FS_MAX_OPEN_FILES" using True by linarith
      ultimately show ?thesis using True at [of "unat z - 1"] by (simp add: mem_open_objects c'(1))
    next
      case False
      then show ?thesis using ux len(2) by (auto simp: mem_open_objects)
    qed
    moreover have "x \<notin> open_objects c" using slot(2) ux by (simp add: mem_open_objects)
    ultimately show ?thesis using r len(1) c'(1) by (auto simp: files_ok_def)
  qed
qed

lemma stress_close_law:
  assumes "files_ok c" and "runtime_fs_stress_close x c = (r, c')"
  shows "files_ok c' \<and> open_objects c' = (if r < 0 then open_objects c else open_objects c - {x})"
proof (cases "x \<in> open_objects c")
  case False
  then have "runtime_fs_close (fx_fs c) (unat x) = (RUNTIME_SYSCALL_STATUS_EBADF, fx_fs c)"
    by (auto simp: fs_close_result mem_open_objects)
  then show ?thesis using assms by (auto simp: runtime_fs_stress_close_def)
next
  case True
  then have x: "unat x \<noteq> 0" "unat x \<le> RUNTIME_FS_MAX_OPEN_FILES" "of_used (open_files (fx_fs c) ! (unat x - 1))"
    by (simp_all add: mem_open_objects)
  then have r: "r = 0" and c': "fx_fs c' = upd_open (unat x - 1) (\<lambda>f. f\<lparr>of_used := False, of_node_index := 0, of_owner_pid := 0,
      of_flags := 0, of_offset := 0, of_dir_cursor := 0\<rparr>) (fx_fs c)"
    using assms(2) by (auto simp: runtime_fs_stress_close_def fs_close_result)
  have "z \<in> open_objects c' \<longleftrightarrow> z \<noteq> x \<and> z \<in> open_objects c" for z
  proof (cases "unat z \<noteq> 0 \<and> unat z \<le> RUNTIME_FS_MAX_OPEN_FILES")
    case True
    then have "unat z - 1 = unat x - 1 \<longleftrightarrow> z = x" using x(1) unat_minus_1_eq [of z x] by simp
    then show ?thesis using True x assms(1) by (auto simp: mem_open_objects c' files_ok_def nth_list_update_if)
  next
    case False
    then show ?thesis using x by (auto simp: mem_open_objects)
  qed
  then show ?thesis using r assms(1) by (auto simp: files_ok_def c')
qed


section \<open>No file handle dangles\<close>

lemma same_files: "files_ok c \<Longrightarrow> open_files (fx_fs c') = open_files (fx_fs c) \<Longrightarrow> files_ok c' \<and> open_objects c' = open_objects c"
  by (simp add: files_ok_def open_objects_def)

lemma spawn_files: "fx_fs (snd (runtime_spawn_process_from_task_key env key role c)) = fx_fs c"
  by (simp add: runtime_spawn_process_from_task_key_def runtime_management_spawn_process_def split: option.split prod.split)

lemma service_files:
  "fx_fs (snd (snd (runtime_syscall_service_open key x0 c))) = fx_fs c"
  "fx_fs (snd (runtime_syscall_service_close x c)) = fx_fs c"
  "fx_fs (snd (runtime_syscall_service_request env x n a c)) = fx_fs c"
  "fx_fs (snd (runtime_syscall_app_launch env a c)) = fx_fs c"
  "fx_fs (snd (runtime_syscall_process_info pid a c)) = fx_fs c"
  "fx_fs (snd (runtime_syscall_spawnable_info i a c)) = fx_fs c"
  "fx_fs (snd (runtime_syscall_service_info i a c)) = fx_fs c"
  "fx_fs (snd (runtime_syscall_app_info i a c)) = fx_fs c"
  by (simp_all add: runtime_syscall_service_open_def runtime_syscall_service_close_def runtime_syscall_service_request_def
      runtime_service_request_sync_def runtime_syscall_app_launch_def spawn_files runtime_syscall_process_info_def
      runtime_syscall_spawnable_info_def runtime_syscall_service_info_def runtime_syscall_app_info_def Let_def
      split: prod.split option.split)

lemmas stress_same_open_defs = runtime_fs_stress_mkdir_def runtime_fs_stress_read_def runtime_fs_stress_write_def
  runtime_fs_stress_stat_def runtime_fs_stress_readdir_def runtime_fs_stress_seek_def runtime_fs_stress_remove_def
  runtime_fs_stress_rename_def

lemma stress_plain_files:
  "same_open (fx_fs c) (fx_fs (snd (runtime_fs_stress_mkdir a m c)))"
  "same_open (fx_fs c) (fx_fs (snd (runtime_fs_stress_read x a n c)))"
  "same_open (fx_fs c) (fx_fs (snd (runtime_fs_stress_write x a n c)))"
  "same_open (fx_fs c) (fx_fs (snd (runtime_fs_stress_stat x a c)))"
  "same_open (fx_fs c) (fx_fs (snd (runtime_fs_stress_readdir x a c)))"
  "same_open (fx_fs c) (fx_fs (snd (runtime_fs_stress_seek x d w c)))"
  "same_open (fx_fs c) (fx_fs (snd (runtime_fs_stress_remove a c)))"
  "same_open (fx_fs c) (fx_fs (snd (runtime_fs_stress_rename a b c)))"
proof -
  show "same_open (fx_fs c) (fx_fs (snd (runtime_fs_stress_write x a n c)))"
    by (auto simp: runtime_fs_stress_write_def dest: write_same_open split: option.split)
  show "same_open (fx_fs c) (fx_fs (snd (runtime_fs_stress_rename a b c)))"
    by (auto simp: runtime_fs_stress_rename_def dest: rename_same_open split: option.split)
qed (simp_all add: stress_same_open_defs case_prod_beta mkdir_same_open remove_same_open read_same_open readdir_same_open seek_same_open)

lemma kernel_plain_files:
  assumes "plain (g_runtime_fs_stress_ops env) c c'"
  shows "same_open (fx_fs c) (fx_fs c')"
proof -
  note simps = g_runtime_fs_stress_ops_def g_runtime_fs_stress_file_ops_def
  from assms show ?thesis
  proof cases
    case (info f pid a r)
    then show ?thesis using service_files(5) [of pid a c] by (auto simp: simps)
  next
    case (launch f a pid)
    then show ?thesis using service_files(4) [of env a c] by (auto simp: simps)
  next
    case (spawnable_info f n a r)
    then show ?thesis using service_files(6) [of n a c] by (auto simp: simps)
  next
    case (service_info f n a r)
    then show ?thesis using service_files(7) [of n a c] by (auto simp: simps)
  next
    case (app_info f n a r)
    then show ?thesis using service_files(8) [of n a c] by (auto simp: simps)
  next
    case (request f x n a r)
    then show ?thesis using service_files(3) [of env x n a c] by (auto simp: simps)
  next
    case (mkdir f a n r)
    then show ?thesis using stress_plain_files(1) [of c a n] by (auto simp: simps)
  next
    case (file_read fo f x a n r)
    then show ?thesis using stress_plain_files(2) [of c x a n] by (auto simp: simps)
  next
    case (file_write fo f x a n r)
    then show ?thesis using stress_plain_files(3) [of c x a n] by (auto simp: simps)
  next
    case (file_stat fo f x a r)
    then show ?thesis using stress_plain_files(4) [of c x a] by (auto simp: simps)
  next
    case (file_readdir fo f x a r)
    then show ?thesis using stress_plain_files(5) [of c x a] by (auto simp: simps)
  next
    case (seek fo f x d w r)
    then show ?thesis using stress_plain_files(6) [of c x d w] by (auto simp: simps)
  next
    case (remove fo f a r)
    then show ?thesis using stress_plain_files(7) [of c a] by (auto simp: simps)
  next
    case (rename fo f a b r)
    then show ?thesis using stress_plain_files(8) [of c a b] by (auto simp: simps)
  qed (auto simp: simps runtime_syscall_spawnable_count_def runtime_syscall_service_count_def runtime_syscall_app_count_def)
qed

lemma kernel_make_files:
  assumes "files_ok c" and "makes (g_runtime_fs_stress_ops env) ty c x c'"
  shows "files_ok c' \<and> (if ty = RUNTIME_HANDLE_TYPE_FILE then x \<notin> open_objects c \<and> open_objects c' = insert x (open_objects c)
    else open_objects c' = open_objects c)"
  using assms(2)
proof cases
  case (opened fo f a n r)
  then show ?thesis using stress_open_law [OF assms(1), of a n 0 r x c']
    by (auto simp: g_runtime_fs_stress_ops_def g_runtime_fs_stress_file_ops_def)
next
  case (service f a r)
  then have "fx_fs c' = fx_fs c" using service_files(1) [of a 0 c] by (auto simp: g_runtime_fs_stress_ops_def)
  then show ?thesis using same_files [OF assms(1), of c'] service(1) by simp
qed (simp_all add: g_runtime_fs_stress_ops_def)

lemma kernel_fail_files:
  assumes "files_ok c" and "make_fails (g_runtime_fs_stress_ops env) c c'"
  shows "files_ok c' \<and> open_objects c' = open_objects c"
  using assms(2)
proof cases
  case (opened fo f a n r x)
  then show ?thesis using stress_open_law [OF assms(1), of a n 0 r x c']
    by (auto simp: g_runtime_fs_stress_ops_def g_runtime_fs_stress_file_ops_def)
next
  case (service f a r x)
  then have "fx_fs c' = fx_fs c" using service_files(1) [of a 0 c] by (auto simp: g_runtime_fs_stress_ops_def)
  then show ?thesis using same_files [OF assms(1), of c'] by simp
qed (simp_all add: g_runtime_fs_stress_ops_def)

lemma kernel_destroy_files:
  assumes "files_ok c" and "destroys (g_runtime_fs_stress_ops env) ty c x r c'"
  shows "files_ok c' \<and> open_objects c' = (if ty = RUNTIME_HANDLE_TYPE_FILE \<and> r then open_objects c - {x} else open_objects c)"
  using assms(2)
proof cases
  case (opened fo f k)
  then show ?thesis using stress_close_law [OF assms(1), of x k c']
    by (auto simp: g_runtime_fs_stress_ops_def g_runtime_fs_stress_file_ops_def)
next
  case (service f k)
  then have "fx_fs c' = fx_fs c" using service_files(2) [of x c] by (auto simp: g_runtime_fs_stress_ops_def)
  then show ?thesis using same_files [OF assms(1), of c'] service(1) by simp
qed (simp_all add: g_runtime_fs_stress_ops_def)

interpretation kernel_file: object_lifetime "g_runtime_fs_stress_ops env" RUNTIME_HANDLE_TYPE_FILE open_objects files_ok
proof unfold_locales
  fix c c'
  assume "files_ok c" "plain (g_runtime_fs_stress_ops env) c c'"
  then show "files_ok c' \<and> open_objects c' = open_objects c" using same_open_ok kernel_plain_files by blast
next
  fix c ty' x c'
  assume "files_ok c" "makes (g_runtime_fs_stress_ops env) ty' c x c'"
  then show "files_ok c' \<and> (if ty' = RUNTIME_HANDLE_TYPE_FILE then x \<notin> open_objects c \<and> open_objects c' = insert x (open_objects c)
      else open_objects c' = open_objects c)"
    by (rule kernel_make_files)
next
  fix c c'
  assume "files_ok c" "make_fails (g_runtime_fs_stress_ops env) c c'"
  then show "files_ok c' \<and> open_objects c' = open_objects c" by (rule kernel_fail_files)
next
  fix c ty' x r c'
  assume "files_ok c" "destroys (g_runtime_fs_stress_ops env) ty' c x r c'"
  then show "files_ok c' \<and> open_objects c' = (if ty' = RUNTIME_HANDLE_TYPE_FILE \<and> r then open_objects c - {x} else open_objects c)"
    by (rule kernel_destroy_files)
qed simp_all


text \<open>C26: no file handle outlives its file. In every state that system calls and releases of a process's handles lead to, with
  the operations of the kernel and starting from an empty table of handles, every handle of type file stands for an open file
  of the file system: the operations on it find the file.\<close>

theorem file_handles_never_dangle:
  assumes "syscall_reachable (g_runtime_fs_stress_ops env) (replicate RUNTIME_SYSCALL_MAX_HANDLES no_entry, c0) (t, c)"
    and "length (open_files (fx_fs c0)) = RUNTIME_FS_MAX_OPEN_FILES"
    and "i < length t" "hi_type (t ! i) = RUNTIME_HANDLE_TYPE_FILE"
  shows "fs_open_file_lookup (fx_fs c) (unat (hi_object (t ! i))) = Some (unat (hi_object (t ! i)) - 1)"
  using kernel_file.no_dangling_handle [OF assms(1) _ assms(3,4)] assms(2)
  by (simp add: files_ok_def mem_open_objects fs_open_file_lookup_def)

definition demo_kernel_env :: kernel_env where
  "demo_kernel_env = \<lparr>ke_single_foreground = False, ke_stacks = 0x3FC90000, ke_code = (\<lambda>_. 7), ke_exchange = (\<lambda>n s. (n, s))\<rparr>"

definition demo_context :: fs_context where
  "demo_context = \<lparr>fx_fs = runtime_fs_init, fx_sched = scheduler_init, g_runtime_service_sessions = [], g_service_pid = 0,
     g_service_request_event = 0, g_service_request_mailbox = 0, g_service_reply_mailbox = 0, g_service_reply_semaphore = 0,
     fx_strings = (\<lambda>_. ''/f''), fx_buffers = (\<lambda>_. []), fx_stats = (\<lambda>_. undefined), fx_entries = (\<lambda>_. undefined),
     fx_processes = (\<lambda>_. undefined), fx_spawnables = (\<lambda>_. undefined), fx_services = (\<lambda>_. undefined), fx_apps = (\<lambda>_. undefined),
     fx_words = (\<lambda>_. 0), fx_fault = False\<rparr>"

definition demo_open :: "fs_context sys_state" where
  "demo_open = snd (runtime_fs_stress_dispatch demo_kernel_env RUNTIME_SYSCALL_FILE_OPEN 64 7 0
     \<lparr>sy_table = Some (replicate RUNTIME_SYSCALL_MAX_HANDLES no_entry), sy_context = demo_context, sy_infos = (\<lambda>_. no_entry)\<rparr>)"

theorem file_handles_never_dangle_witness:
  "hi_type (the (sy_table demo_open) ! 0) = RUNTIME_HANDLE_TYPE_FILE \<and>
   fs_open_file_lookup (fx_fs (sy_context demo_open)) (unat (hi_object (the (sy_table demo_open) ! 0))) =
     Some (unat (hi_object (the (sy_table demo_open) ! 0)) - 1)"
proof -
  let ?s = "\<lparr>sy_table = Some (replicate RUNTIME_SYSCALL_MAX_HANDLES no_entry), sy_context = demo_context, sy_infos = (\<lambda>_. no_entry)\<rparr>"
  let ?args = "\<lparr>arg0 = 64, arg1 = 7, arg2 = 0, arg3 = 0\<rparr>"
  obtain r where call: "runtime_syscall_dispatch RUNTIME_SYSCALL_FILE_OPEN (Some ?args) (Some (g_runtime_fs_stress_ops demo_kernel_env)) ?s =
      (r, demo_open)" by (simp add: demo_open_def runtime_fs_stress_dispatch_def prod_eq_iff)
  have ty: "hi_type (the (sy_table demo_open) ! 0) = RUNTIME_HANDLE_TYPE_FILE" by code_simp
  have len: "0 < length (the (sy_table demo_open))" "sy_table demo_open \<noteq> None" by code_simp+
  have "syscall_reachable (g_runtime_fs_stress_ops demo_kernel_env) (replicate RUNTIME_SYSCALL_MAX_HANDLES no_entry, demo_context)
      (the (sy_table demo_open), sy_context demo_open)"
    by (rule syscall_reachable.call [OF syscall_reachable.start _ _ call]) (use len(2) in simp_all)
  from file_handles_never_dangle [OF this _ len(1) ty] ty show ?thesis by (simp add: demo_context_def runtime_fs_init_def)
qed

end
