(* ===== verification/Runtime_Manage.thy ===== *)
theory Runtime_Manage
  imports Scheduler Kmem
begin

text \<open>
  The management console of \<open>kernel/runtime_manage.c\<close>: the tokenizer and the number parser, the reports, the command
  interpreter and the line editor. The operations and the logs are function pointers that act on the context. A token is the list of
  its characters. The result \<open>None\<close> of a command: it reads behind the end of its array of processes.
\<close>

section \<open>Data (include/runtime_manage.h)\<close>

definition RUNTIME_MANAGE_LINE_CAPACITY :: nat where "RUNTIME_MANAGE_LINE_CAPACITY = 64"
definition RUNTIME_MANAGE_SPAWNABLE_SNAPSHOT_CAPACITY :: nat where "RUNTIME_MANAGE_SPAWNABLE_SNAPSHOT_CAPACITY = 16"
definition RUNTIME_MANAGE_PATH_CAPACITY :: nat where "RUNTIME_MANAGE_PATH_CAPACITY = 96"
definition RUNTIME_MANAGE_DEMO_PROFILE_OFF :: u32 where "RUNTIME_MANAGE_DEMO_PROFILE_OFF = 0"
definition RUNTIME_MANAGE_DEMO_PROFILE_SMOKE :: u32 where "RUNTIME_MANAGE_DEMO_PROFILE_SMOKE = 1"

datatype runtime_manage_status = RUNTIME_MANAGE_STATUS_OK | RUNTIME_MANAGE_STATUS_EMPTY | RUNTIME_MANAGE_STATUS_UNKNOWN_COMMAND
  | RUNTIME_MANAGE_STATUS_BAD_ARGUMENT | RUNTIME_MANAGE_STATUS_UNAVAILABLE

record runtime_manage_spawnable_info =
  sp_task_name :: "string ptr"
  sp_process_name :: "string ptr"
  sp_default_role :: u32

record 'c runtime_manage_ops =
  mo_snapshot :: "(process_info list \<Rightarrow> nat \<Rightarrow> 'c \<Rightarrow> nat \<times> process_info list \<times> 'c) ptr"
  mo_spawnable_snapshot :: "(runtime_manage_spawnable_info list \<Rightarrow> nat \<Rightarrow> 'c \<Rightarrow> nat \<times> runtime_manage_spawnable_info list \<times> 'c) ptr"
  mo_kmem_stats :: "('c \<Rightarrow> kmem_stats \<times> 'c) ptr"
  mo_mailbox_has_message :: "('c \<Rightarrow> int \<times> 'c) ptr"
  mo_mailbox_waiting_senders :: "('c \<Rightarrow> u32 \<times> 'c) ptr"
  mo_mailbox_waiting_receivers :: "('c \<Rightarrow> u32 \<times> 'c) ptr"
  mo_mailbox_send :: "(u32 \<Rightarrow> 'c \<Rightarrow> int \<times> 'c) ptr"
  mo_mailbox_receive :: "('c \<Rightarrow> int \<times> u32 \<times> 'c) ptr"
  mo_event_signal :: "('c \<Rightarrow> u32 \<times> 'c) ptr"
  mo_process_wake :: "(u32 \<Rightarrow> 'c \<Rightarrow> int \<times> 'c) ptr"
  mo_process_kill :: "(u32 \<Rightarrow> int \<Rightarrow> 'c \<Rightarrow> int \<times> 'c) ptr"
  mo_spawn_named_process :: "(string \<Rightarrow> u32 \<Rightarrow> 'c \<Rightarrow> u32 \<times> 'c) ptr"
  mo_demo_profile :: "('c \<Rightarrow> u32 \<times> 'c) ptr"
  mo_demo_set_profile :: "(u32 \<Rightarrow> 'c \<Rightarrow> int \<times> 'c) ptr"
  mo_demo_completed_steps :: "('c \<Rightarrow> u32 \<times> 'c) ptr"
  mo_demo_total_steps :: "('c \<Rightarrow> u32 \<times> 'c) ptr"
  mo_shell_path :: "('c \<Rightarrow> string ptr \<times> 'c) ptr"
  mo_resolve_command_path :: "(string \<Rightarrow> string \<Rightarrow> nat \<Rightarrow> 'c \<Rightarrow> int \<times> string \<times> 'c) ptr"
  mo_scheduler_mode_name :: "('c \<Rightarrow> string \<times> 'c) ptr"
  mo_runtime_mode_name :: "('c \<Rightarrow> string \<times> 'c) ptr"
  mo_preempt_status_name :: "('c \<Rightarrow> string \<times> 'c) ptr"
  mo_log :: "(string \<Rightarrow> string \<Rightarrow> 'c \<Rightarrow> 'c) ptr"
  mo_log_u32 :: "(string \<Rightarrow> string \<Rightarrow> u32 \<Rightarrow> 'c \<Rightarrow> 'c) ptr"

record runtime_manage_line_state =
  ls_buffer :: string
  ls_length :: nat

section \<open>Tokens and numbers\<close>

definition ascii_is_space :: "char \<Rightarrow> bool" where
  "ascii_is_space ch \<longleftrightarrow> ch = CHR '' '' \<or> ch = CHR 0x09 \<or> ch = CHR 0x0A \<or> ch = CHR 0x0D"

fun skip_spaces :: "string \<Rightarrow> string" where
  "skip_spaces [] = []"
| "skip_spaces (c # cs) = (if c \<noteq> NUL \<and> ascii_is_space c then skip_spaces cs else c # cs)"

text \<open>The token and the rest of the command after it.\<close>

definition next_token :: "string \<Rightarrow> string \<times> string" where
  "next_token cursor =
     (let token_start = skip_spaces cursor; token = takeWhile (\<lambda>c. c \<noteq> NUL \<and> \<not> ascii_is_space c) token_start in
      (token, drop (length token) token_start))"

fun token_equals :: "string \<Rightarrow> string \<Rightarrow> bool" where
  "token_equals [] word = (cchar word 0 = NUL)"
| "token_equals (c # cs) word = (if cchar word 0 = NUL then False else if c \<noteq> cchar word 0 then False else token_equals cs (tl word))"

definition token_is_empty :: "string \<Rightarrow> bool" where
  "token_is_empty token \<longleftrightarrow> length token = 0"

definition token_digit :: "nat \<Rightarrow> char \<Rightarrow> nat option" where
  "token_digit base ch =
     (let n = (of_char ch :: nat) in
      if 48 \<le> n \<and> n \<le> 57 then Some (n - 48)
      else if base = 16 \<and> 97 \<le> n \<and> n \<le> 102 then Some (10 + (n - 97))
      else if base = 16 \<and> 65 \<le> n \<and> n \<le> 70 then Some (10 + (n - 65))
      else None)"

text \<open>The loop of \<open>parse_u32_token\<close>; the result wraps.\<close>

fun parse_digits :: "nat \<Rightarrow> string \<Rightarrow> u32 \<Rightarrow> u32 option" where
  "parse_digits base [] result = Some result"
| "parse_digits base (ch # rest) result =
     (case token_digit base ch of
        None \<Rightarrow> None
      | Some digit \<Rightarrow> (if digit \<ge> base then None else parse_digits base rest (result * of_nat base + of_nat digit)))"

definition parse_u32_token :: "string \<Rightarrow> u32 option" where
  "parse_u32_token token =
     (if length token = 0 then None
      else if length token > 2 \<and> token ! 0 = CHR ''0'' \<and> (token ! 1 = CHR ''x'' \<or> token ! 1 = CHR ''X'')
      then parse_digits 16 (drop 2 token) 0
      else parse_digits 10 token 0)"

text \<open>The negation of \<open>INT32_MIN\<close> wraps to itself, as the compiler does it.\<close>

definition parse_i32_token :: "string \<Rightarrow> int option" where
  "parse_i32_token token =
     (if length token > 1 \<and> token ! 0 = CHR ''-'' then
        (case parse_u32_token (drop 1 token) of
           None \<Rightarrow> None
         | Some v \<Rightarrow> (if v > 2147483648 then None else Some (sint (- v))))
      else case parse_u32_token token of
        None \<Rightarrow> None
      | Some v \<Rightarrow> (if v > 2147483647 then None else Some (sint v)))"

section \<open>Reports\<close>

text \<open>A pointer to a log function that is not null.\<close>

definition log_all :: "(string \<Rightarrow> string \<Rightarrow> 'c \<Rightarrow> 'c) \<Rightarrow> string \<Rightarrow> string list \<Rightarrow> 'c \<Rightarrow> 'c" where
  "log_all log tag messages c = fold (log tag) messages c"

definition runtime_manage_log_help :: "'c runtime_manage_ops \<Rightarrow> 'c \<Rightarrow> 'c" where
  "runtime_manage_log_help ops c =
     (case mo_log ops of
        None \<Rightarrow> c
      | Some log \<Rightarrow> log_all log ''MGMT''
          [''commands:'', ''help'', ''runtime'', ''path'', ''which <name>'', ''ps'', ''inspect <pid>'', ''kmem'', ''mailbox status'',
           ''mailbox send <value>'', ''mailbox recv'', ''event signal'', ''wake <pid>'', ''kill <pid> [exit_code]'', ''spawn list'',
           ''spawn <role> <task>'', ''demo status'', ''demo auto on'', ''demo auto off'', ''demo profile smoke'', ''demo profile off''] c)"

definition runtime_manage_demo_profile_name :: "u32 \<Rightarrow> string" where
  "runtime_manage_demo_profile_name profile =
     (if profile = RUNTIME_MANAGE_DEMO_PROFILE_SMOKE then ''profile_smoke''
      else if profile = RUNTIME_MANAGE_DEMO_PROFILE_OFF then ''profile_off'' else ''profile_unknown'')"

definition process_state_name :: "process_state \<Rightarrow> string" where
  "process_state_name st = (case st of PROCESS_STATE_READY \<Rightarrow> ''ready'' | PROCESS_STATE_RUNNING \<Rightarrow> ''running''
     | PROCESS_STATE_BLOCKED \<Rightarrow> ''blocked'' | PROCESS_STATE_ZOMBIE \<Rightarrow> ''zombie'' | _ \<Rightarrow> ''unused'')"

definition process_wait_reason_name :: "process_wait_reason \<Rightarrow> string" where
  "process_wait_reason_name r = (case r of PROCESS_WAIT_SLEEP_TICKS \<Rightarrow> ''sleep_ticks'' | PROCESS_WAIT_MANUAL \<Rightarrow> ''manual''
     | PROCESS_WAIT_CHILD \<Rightarrow> ''child'' | PROCESS_WAIT_EVENT_CHANNEL \<Rightarrow> ''event_channel'' | _ \<Rightarrow> ''none'')"

text \<open>\<open>None\<close>: more entries are counted than the array has.\<close>

definition count_role_in_snapshot :: "process_info list \<Rightarrow> nat \<Rightarrow> u32 \<Rightarrow> nat option" where
  "count_role_in_snapshot snapshot count role =
     (if count > length snapshot then None else Some (length (filter (\<lambda>p. pi_role p = role) (take count snapshot))))"

definition runtime_manage_log_runtime :: "'c runtime_manage_ops \<Rightarrow> 'c \<Rightarrow> 'c" where
  "runtime_manage_log_runtime ops c =
     (case (mo_log ops, mo_scheduler_mode_name ops, mo_runtime_mode_name ops, mo_preempt_status_name ops) of
        (Some log, Some scheduler_mode, Some runtime_mode, Some preempt_status) \<Rightarrow>
          (let c = log ''MGMT'' ''runtime'' c; (name, c) = scheduler_mode c; c = log ''MGMT'' name c;
               (name, c) = runtime_mode c; c = log ''MGMT'' name c; (name, c) = preempt_status c in
           log ''MGMT'' name c)
      | _ \<Rightarrow> c)"

definition blank_info :: process_info where
  "blank_info = \<lparr>pi_pid = 0, pi_parent_pid = 0, pi_name = None, pi_role = 0, pi_state = PROCESS_STATE_UNUSED, pi_exit_code = 0,
     pi_switch_count = 0, pi_yield_count = 0, pi_wake_tick = 0, pi_wait_reason = PROCESS_WAIT_NONE, pi_wait_channel = 0\<rparr>"

definition log_wait :: "(string \<Rightarrow> string \<Rightarrow> 'c \<Rightarrow> 'c) \<Rightarrow> (string \<Rightarrow> string \<Rightarrow> u32 \<Rightarrow> 'c \<Rightarrow> 'c) \<Rightarrow> process_info \<Rightarrow> 'c \<Rightarrow> 'c" where
  "log_wait log log_u32 p c =
     (let c = (if pi_wait_reason p \<noteq> PROCESS_WAIT_NONE
               then log_u32 ''PROC'' ''wait_channel='' (pi_wait_channel p) (log ''PROC'' (process_wait_reason_name (pi_wait_reason p)) c)
               else c) in
      if pi_wake_tick p \<noteq> 0 then log_u32 ''PROC'' ''wake_tick='' (ucast (pi_wake_tick p)) c else c)"

definition runtime_manage_log_snapshot :: "'c runtime_manage_ops \<Rightarrow> 'c \<Rightarrow> 'c option" where
  "runtime_manage_log_snapshot ops c =
     (case (mo_snapshot ops, mo_log ops, mo_log_u32 ops) of
        (Some snapshot_of, Some log, Some log_u32) \<Rightarrow>
          (let (count, snapshot, c) = snapshot_of (replicate 8 blank_info) 8 c; c = log_u32 ''PROC'' ''count='' (of_nat count) c in
           map_option (\<lambda>n. fold (\<lambda>p c. log_wait log log_u32 p (log ''PROC'' (process_state_name (pi_state p))
               (log ''PROC'' (runtime_process_role_name (pi_role p)) (log_u32 ''PROC'' ''pid='' (pi_pid p) c))))
               (take (min count 8) snapshot) (log_u32 ''PROC'' ''foreground_count='' (of_nat n) c))
             (count_role_in_snapshot snapshot count RUNTIME_PROCESS_ROLE_FOREGROUND_APP))
      | _ \<Rightarrow> Some c)"

definition runtime_manage_log_process_detail :: "'c runtime_manage_ops \<Rightarrow> u32 \<Rightarrow> 'c \<Rightarrow> int \<times> 'c" where
  "runtime_manage_log_process_detail ops target_pid c =
     (case (mo_snapshot ops, mo_log ops, mo_log_u32 ops) of
        (Some snapshot_of, Some log, Some log_u32) \<Rightarrow>
          (let (count, snapshot, c) = snapshot_of (replicate 8 blank_info) 8 c in
           case find (\<lambda>p. pi_pid p = target_pid) (take (min count 8) snapshot) of
             None \<Rightarrow> (0, c)
           | Some p \<Rightarrow>
               (let c = log ''PROC'' ''inspect'' c; c = log_u32 ''PROC'' ''pid='' (pi_pid p) c;
                    c = log_u32 ''PROC'' ''parent_pid='' (pi_parent_pid p) c;
                    c = (case pi_name p of None \<Rightarrow> c | Some name \<Rightarrow> log ''PROC'' name c);
                    c = log ''PROC'' (runtime_process_role_name (pi_role p)) c; c = log ''PROC'' (process_state_name (pi_state p)) c;
                    c = log_u32 ''PROC'' ''switch_count='' (pi_switch_count p) c;
                    c = log_u32 ''PROC'' ''yield_count='' (pi_yield_count p) c;
                    c = log_u32 ''PROC'' ''exit_code='' (word_of_int (pi_exit_code p)) c in
                (1, log_wait log log_u32 p c)))
      | _ \<Rightarrow> (0, c))"

definition runtime_manage_log_kmem :: "'c runtime_manage_ops \<Rightarrow> 'c \<Rightarrow> 'c" where
  "runtime_manage_log_kmem ops c =
     (case (mo_log_u32 ops, mo_kmem_stats ops) of
        (Some log_u32, Some kmem_stats_of) \<Rightarrow>
          (let (st, c) = kmem_stats_of c in
           fold (\<lambda>(label, v). log_u32 ''MGMT'' label v)
             [(''kmem_arena_capacity_bytes='', arena_capacity_bytes st), (''kmem_free_bytes='', free_bytes st),
              (''kmem_largest_free_block='', largest_free_block st), (''kmem_bytes_in_use='', bytes_in_use st),
              (''kmem_peak_bytes_in_use='', peak_bytes_in_use st), (''kmem_allocation_count='', allocation_count st),
              (''kmem_free_count='', free_count st), (''kmem_allocation_fail_count='', allocation_fail_count st),
              (''kmem_live_allocations='', live_allocations st), (''kmem_peak_live_allocations='', peak_live_allocations st),
              (''kmem_block_count='', block_count st), (''kmem_free_block_count='', free_block_count st),
              (''kmem_used_block_count='', used_block_count st)] c)
      | _ \<Rightarrow> c)"

definition runtime_manage_log_mailbox_status :: "'c runtime_manage_ops \<Rightarrow> 'c \<Rightarrow> 'c" where
  "runtime_manage_log_mailbox_status ops c =
     (case (mo_log_u32 ops, mo_mailbox_has_message ops, mo_mailbox_waiting_senders ops, mo_mailbox_waiting_receivers ops) of
        (Some log_u32, Some has_message, Some senders, Some receivers) \<Rightarrow>
          (let (m, c) = has_message c; c = log_u32 ''MGMT'' ''mailbox_has_message='' (word_of_int m) c;
               (n, c) = senders c; c = log_u32 ''MGMT'' ''mailbox_waiting_senders='' n c; (n, c) = receivers c in
           log_u32 ''MGMT'' ''mailbox_waiting_receivers='' n c)
      | _ \<Rightarrow> c)"

definition runtime_manage_log_demo_status :: "'c runtime_manage_ops \<Rightarrow> 'c \<Rightarrow> 'c" where
  "runtime_manage_log_demo_status ops c =
     (case (mo_log ops, mo_demo_profile ops) of
        (Some log, Some demo_profile) \<Rightarrow>
          (let c = log ''MGMT'' ''demo'' c; (p, c) = demo_profile c; c = log ''MGMT'' (runtime_manage_demo_profile_name p) c;
               (p, c) = demo_profile c;
               c = log ''MGMT'' (if p = RUNTIME_MANAGE_DEMO_PROFILE_OFF then ''auto_off'' else ''auto_on'') c in
           case (mo_log_u32 ops, mo_demo_completed_steps ops, mo_demo_total_steps ops) of
             (Some log_u32, Some completed, Some total_steps) \<Rightarrow>
               (let (n, c) = completed c; c = log_u32 ''MGMT'' ''demo_completed_steps='' n c; (n, c) = total_steps c in
                log_u32 ''MGMT'' ''demo_total_steps='' n c)
           | _ \<Rightarrow> c)
      | _ \<Rightarrow> c)"

definition runtime_manage_log_spawnables :: "'c runtime_manage_ops \<Rightarrow> 'c \<Rightarrow> 'c" where
  "runtime_manage_log_spawnables ops c =
     (case (mo_spawnable_snapshot ops, mo_log ops, mo_log_u32 ops) of
        (Some snapshot_of, Some log, Some log_u32) \<Rightarrow>
          (let (count, snapshot, c) = snapshot_of (replicate RUNTIME_MANAGE_SPAWNABLE_SNAPSHOT_CAPACITY
                 \<lparr>sp_task_name = None, sp_process_name = None, sp_default_role = 0\<rparr>) RUNTIME_MANAGE_SPAWNABLE_SNAPSHOT_CAPACITY c;
               c = log ''MGMT'' ''spawnables'' c; c = log_u32 ''MGMT'' ''spawnable_count='' (of_nat count) c in
           fold (\<lambda>e c. let c = (case sp_task_name e of None \<Rightarrow> c | Some n \<Rightarrow> log ''MGMT'' n c);
                           c = (case sp_process_name e of None \<Rightarrow> c | Some n \<Rightarrow> log ''MGMT'' n c) in
                       log ''MGMT'' (runtime_process_role_name (sp_default_role e)) c)
             (take (min count RUNTIME_MANAGE_SPAWNABLE_SNAPSHOT_CAPACITY) snapshot) c)
      | _ \<Rightarrow> c)"

definition runtime_manage_parse_role :: "string \<Rightarrow> u32 option" where
  "runtime_manage_parse_role token =
     (if token_equals token ''system'' then Some RUNTIME_PROCESS_ROLE_SYSTEM
      else if token_equals token ''foreground'' \<or> token_equals token ''foreground_app'' then Some RUNTIME_PROCESS_ROLE_FOREGROUND_APP
      else if token_equals token ''background'' \<or> token_equals token ''background_app'' then Some RUNTIME_PROCESS_ROLE_BACKGROUND_APP
      else if token_equals token ''live'' \<or> token_equals token ''live_activity'' then Some RUNTIME_PROCESS_ROLE_LIVE_ACTIVITY
      else None)"

definition runtime_manage_log_shell_path :: "'c runtime_manage_ops \<Rightarrow> 'c \<Rightarrow> 'c" where
  "runtime_manage_log_shell_path ops c =
     (case (mo_log ops, mo_shell_path ops) of
        (Some log, Some shell_path) \<Rightarrow>
          (let (p, c) = shell_path c in
           if p = None then c else let (p, c) = shell_path c in log ''MGMT'' (case p of None \<Rightarrow> [] | Some p \<Rightarrow> p) c)
      | _ \<Rightarrow> c)"


section \<open>Commands\<close>

text \<open>The branches of \<open>runtime_manage_execute\<close>, for the rest of the command after its first word.\<close>

definition manage_path :: "'c runtime_manage_ops \<Rightarrow> 'c \<Rightarrow> runtime_manage_status \<times> 'c" where
  "manage_path ops c =
     (if mo_shell_path ops = None then (RUNTIME_MANAGE_STATUS_UNAVAILABLE, c)
      else (RUNTIME_MANAGE_STATUS_OK, runtime_manage_log_shell_path ops c))"

definition manage_which :: "'c runtime_manage_ops \<Rightarrow> string \<Rightarrow> 'c \<Rightarrow> runtime_manage_status \<times> 'c" where
  "manage_which ops cursor c =
     (let (command_token, cursor) = next_token cursor in
      if token_is_empty command_token \<or> length command_token \<ge> 24 then (RUNTIME_MANAGE_STATUS_BAD_ARGUMENT, c)
      else case (mo_resolve_command_path ops, mo_log ops) of
        (Some resolve, Some log) \<Rightarrow>
          (let (found, resolved_path, c) = resolve command_token (replicate RUNTIME_MANAGE_PATH_CAPACITY NUL) RUNTIME_MANAGE_PATH_CAPACITY c in
           if found = 0 then (RUNTIME_MANAGE_STATUS_BAD_ARGUMENT, c) else (RUNTIME_MANAGE_STATUS_OK, log ''MGMT'' (cstr resolved_path) c))
      | _ \<Rightarrow> (RUNTIME_MANAGE_STATUS_BAD_ARGUMENT, c))"

definition manage_inspect :: "'c runtime_manage_ops \<Rightarrow> string \<Rightarrow> 'c \<Rightarrow> runtime_manage_status \<times> 'c" where
  "manage_inspect ops cursor c =
     (case parse_u32_token (fst (next_token cursor)) of
        None \<Rightarrow> (RUNTIME_MANAGE_STATUS_BAD_ARGUMENT, c)
      | Some pid \<Rightarrow> (let (found, c) = runtime_manage_log_process_detail ops pid c in
          (if found \<noteq> 0 then RUNTIME_MANAGE_STATUS_OK else RUNTIME_MANAGE_STATUS_BAD_ARGUMENT, c)))"

definition manage_wake :: "'c runtime_manage_ops \<Rightarrow> string \<Rightarrow> 'c \<Rightarrow> runtime_manage_status \<times> 'c" where
  "manage_wake ops cursor c =
     (case (parse_u32_token (fst (next_token cursor)), mo_process_wake ops) of
        (Some pid, Some wake_op) \<Rightarrow> (let (woke, c) = wake_op pid c in
          (if woke = 0 then RUNTIME_MANAGE_STATUS_BAD_ARGUMENT else RUNTIME_MANAGE_STATUS_OK, c))
      | _ \<Rightarrow> (RUNTIME_MANAGE_STATUS_BAD_ARGUMENT, c))"

definition manage_kill :: "'c runtime_manage_ops \<Rightarrow> string \<Rightarrow> 'c \<Rightarrow> runtime_manage_status \<times> 'c" where
  "manage_kill ops cursor c =
     (let (pid_token, cursor) = next_token cursor in
      case (parse_u32_token pid_token, mo_process_kill ops) of
        (Some pid, Some kill_op) \<Rightarrow>
          (let (exit_token, cursor) = next_token cursor in
           case (if token_is_empty exit_token then Some (- 1) else parse_i32_token exit_token) of
             None \<Rightarrow> (RUNTIME_MANAGE_STATUS_BAD_ARGUMENT, c)
           | Some exit_code \<Rightarrow> (let (killed, c) = kill_op pid exit_code c in
               (if killed = 0 then RUNTIME_MANAGE_STATUS_BAD_ARGUMENT else RUNTIME_MANAGE_STATUS_OK, c)))
      | _ \<Rightarrow> (RUNTIME_MANAGE_STATUS_BAD_ARGUMENT, c))"

definition manage_spawn :: "'c runtime_manage_ops \<Rightarrow> string \<Rightarrow> 'c \<Rightarrow> runtime_manage_status \<times> 'c" where
  "manage_spawn ops cursor c =
     (let (role_token, cursor) = next_token cursor in
      if token_equals role_token ''list'' then
        (if mo_spawnable_snapshot ops = None then (RUNTIME_MANAGE_STATUS_UNAVAILABLE, c)
         else (RUNTIME_MANAGE_STATUS_OK, runtime_manage_log_spawnables ops c))
      else let (task_token, cursor) = next_token cursor in
        case (runtime_manage_parse_role role_token, mo_spawn_named_process ops) of
          (Some role, Some spawn) \<Rightarrow>
            (if token_is_empty task_token \<or> length task_token \<ge> 24 then (RUNTIME_MANAGE_STATUS_BAD_ARGUMENT, c)
             else let (pid, c) = spawn task_token role c in
               (if pid = 0 then RUNTIME_MANAGE_STATUS_UNAVAILABLE else RUNTIME_MANAGE_STATUS_OK, c))
        | _ \<Rightarrow> (RUNTIME_MANAGE_STATUS_BAD_ARGUMENT, c))"

definition manage_event :: "'c runtime_manage_ops \<Rightarrow> string \<Rightarrow> 'c \<Rightarrow> runtime_manage_status \<times> 'c" where
  "manage_event ops cursor c =
     (if \<not> token_equals (fst (next_token cursor)) ''signal'' then (RUNTIME_MANAGE_STATUS_BAD_ARGUMENT, c)
      else case mo_event_signal ops of
        None \<Rightarrow> (RUNTIME_MANAGE_STATUS_BAD_ARGUMENT, c)
      | Some signal_op \<Rightarrow> (RUNTIME_MANAGE_STATUS_OK, snd (signal_op c)))"

definition demo_profile_command ::
  "'c runtime_manage_ops \<Rightarrow> string \<Rightarrow> string \<Rightarrow> string \<Rightarrow> 'c \<Rightarrow> runtime_manage_status \<times> 'c" where
  "demo_profile_command ops mode on off c =
     (case mo_demo_set_profile ops of
        None \<Rightarrow> (RUNTIME_MANAGE_STATUS_BAD_ARGUMENT, c)
      | Some set_profile \<Rightarrow>
          (if token_is_empty mode then (RUNTIME_MANAGE_STATUS_BAD_ARGUMENT, c)
           else if token_equals mode on then (let (r, c) = set_profile RUNTIME_MANAGE_DEMO_PROFILE_SMOKE c in
             (if r = 0 then RUNTIME_MANAGE_STATUS_BAD_ARGUMENT else RUNTIME_MANAGE_STATUS_OK, c))
           else if token_equals mode off then (let (r, c) = set_profile RUNTIME_MANAGE_DEMO_PROFILE_OFF c in
             (if r = 0 then RUNTIME_MANAGE_STATUS_BAD_ARGUMENT else RUNTIME_MANAGE_STATUS_OK, c))
           else (RUNTIME_MANAGE_STATUS_BAD_ARGUMENT, c)))"

definition manage_demo :: "'c runtime_manage_ops \<Rightarrow> string \<Rightarrow> 'c \<Rightarrow> runtime_manage_status \<times> 'c" where
  "manage_demo ops cursor c =
     (let (verb, cursor) = next_token cursor; mode = fst (next_token cursor) in
      if token_equals verb ''status'' then (RUNTIME_MANAGE_STATUS_OK, runtime_manage_log_demo_status ops c)
      else if token_equals verb ''auto'' then demo_profile_command ops mode ''on'' ''off'' c
      else if token_equals verb ''profile'' then demo_profile_command ops mode ''smoke'' ''off'' c
      else (RUNTIME_MANAGE_STATUS_BAD_ARGUMENT, c))"

definition manage_mailbox :: "'c runtime_manage_ops \<Rightarrow> string \<Rightarrow> 'c \<Rightarrow> runtime_manage_status \<times> 'c" where
  "manage_mailbox ops cursor c =
     (let (verb, cursor) = next_token cursor in
      if token_is_empty verb then (RUNTIME_MANAGE_STATUS_BAD_ARGUMENT, c)
      else if token_equals verb ''send'' then
        (case parse_u32_token (fst (next_token cursor)) of
           None \<Rightarrow> (RUNTIME_MANAGE_STATUS_BAD_ARGUMENT, c)
         | Some message \<Rightarrow>
             (case mo_mailbox_send ops of
                None \<Rightarrow> (RUNTIME_MANAGE_STATUS_UNAVAILABLE, c)
              | Some send_op \<Rightarrow> (let (sent, c) = send_op message c in
                  (if sent = 0 then RUNTIME_MANAGE_STATUS_UNAVAILABLE else RUNTIME_MANAGE_STATUS_OK, c))))
      else if token_equals verb ''status'' then (RUNTIME_MANAGE_STATUS_OK, runtime_manage_log_mailbox_status ops c)
      else if token_equals verb ''recv'' then
        (case mo_mailbox_receive ops of
           None \<Rightarrow> (RUNTIME_MANAGE_STATUS_UNAVAILABLE, c)
         | Some receive_op \<Rightarrow> (let (received, message, c) = receive_op c in
             (if received = 0 then RUNTIME_MANAGE_STATUS_UNAVAILABLE else RUNTIME_MANAGE_STATUS_OK, c)))
      else (RUNTIME_MANAGE_STATUS_UNKNOWN_COMMAND, c))"

definition runtime_manage_execute :: "string ptr \<Rightarrow> 'c runtime_manage_ops ptr \<Rightarrow> 'c \<Rightarrow> (runtime_manage_status \<times> 'c) option" where
  "runtime_manage_execute command ops c =
     (case (command, ops) of
        (Some command, Some ops) \<Rightarrow>
          (let (token, cursor) = next_token (cstr command) in
           if token_is_empty token then Some (RUNTIME_MANAGE_STATUS_EMPTY, c)
           else if token_equals token ''runtime'' then Some (RUNTIME_MANAGE_STATUS_OK, runtime_manage_log_runtime ops c)
           else if token_equals token ''help'' then Some (RUNTIME_MANAGE_STATUS_OK, runtime_manage_log_help ops c)
           else if token_equals token ''path'' then Some (manage_path ops c)
           else if token_equals token ''which'' then Some (manage_which ops cursor c)
           else if token_equals token ''ps'' then map_option (Pair RUNTIME_MANAGE_STATUS_OK) (runtime_manage_log_snapshot ops c)
           else if token_equals token ''inspect'' then Some (manage_inspect ops cursor c)
           else if token_equals token ''kmem'' then Some (RUNTIME_MANAGE_STATUS_OK, runtime_manage_log_kmem ops c)
           else if token_equals token ''wake'' then Some (manage_wake ops cursor c)
           else if token_equals token ''kill'' then Some (manage_kill ops cursor c)
           else if token_equals token ''spawn'' then Some (manage_spawn ops cursor c)
           else if token_equals token ''event'' then Some (manage_event ops cursor c)
           else if token_equals token ''demo'' then Some (manage_demo ops cursor c)
           else if token_equals token ''mailbox'' then Some (manage_mailbox ops cursor c)
           else Some (RUNTIME_MANAGE_STATUS_UNKNOWN_COMMAND, c))
      | _ \<Rightarrow> Some (RUNTIME_MANAGE_STATUS_BAD_ARGUMENT, c))"

definition runtime_manage_status_name :: "runtime_manage_status \<Rightarrow> string" where
  "runtime_manage_status_name status = (case status of RUNTIME_MANAGE_STATUS_OK \<Rightarrow> ''ok'' | RUNTIME_MANAGE_STATUS_EMPTY \<Rightarrow> ''empty''
     | RUNTIME_MANAGE_STATUS_UNKNOWN_COMMAND \<Rightarrow> ''unknown_command'' | RUNTIME_MANAGE_STATUS_BAD_ARGUMENT \<Rightarrow> ''bad_argument''
     | RUNTIME_MANAGE_STATUS_UNAVAILABLE \<Rightarrow> ''unavailable'')"

section \<open>The line editor\<close>

definition runtime_manage_line_init :: "runtime_manage_line_state ptr \<Rightarrow> runtime_manage_line_state ptr" where
  "runtime_manage_line_init state = map_option (\<lambda>s. s\<lparr>ls_length := 0, ls_buffer := (ls_buffer s)[0 := NUL]\<rparr>) state"

text \<open>
  The results: whether a line is complete, the state of the editor, the status, and the context. A null pointer for the state or for the
  status is \<open>None\<close>.
\<close>

definition runtime_manage_line_push_char ::
  "runtime_manage_line_state ptr \<Rightarrow> char \<Rightarrow> 'c runtime_manage_ops ptr \<Rightarrow> 'c \<Rightarrow> runtime_manage_status ptr \<Rightarrow>
   (int \<times> runtime_manage_line_state ptr \<times> runtime_manage_status ptr \<times> 'c) option" where
  "runtime_manage_line_push_char state ch ops c status =
     (case (state, status) of
        (Some s, Some _) \<Rightarrow>
          (let empty = Some RUNTIME_MANAGE_STATUS_EMPTY in
           if ch = CHR 0x08 \<or> ch = CHR 0x7F then
             (if ls_length s \<noteq> 0
              then Some (0, Some (s\<lparr>ls_length := ls_length s - 1, ls_buffer := (ls_buffer s)[ls_length s - 1 := NUL]\<rparr>), empty, c)
              else Some (0, Some s, empty, c))
           else if ch = CHR 0x0D \<or> ch = CHR 0x0A then
             (if ls_length s = 0 then Some (1, Some s, empty, c)
              else let buffer = (ls_buffer s)[ls_length s := NUL] in
                map_option (\<lambda>(st, c). (1, runtime_manage_line_init (Some (s\<lparr>ls_buffer := buffer\<rparr>)), Some st, c))
                  (runtime_manage_execute (Some buffer) ops c))
           else if (of_char ch :: nat) < 32 \<or> (of_char ch :: nat) > 126 then Some (0, Some s, empty, c)
           else if ls_length s \<ge> RUNTIME_MANAGE_LINE_CAPACITY - 1
           then Some (1, runtime_manage_line_init (Some s), Some RUNTIME_MANAGE_STATUS_BAD_ARGUMENT, c)
           else Some (0, Some (s\<lparr>ls_length := ls_length s + 1,
                ls_buffer := (ls_buffer s)[ls_length s := ch, ls_length s + 1 := NUL]\<rparr>), empty, c))
      | _ \<Rightarrow> Some (0, state, status, c))"

end
