(* ===== verification/Runtime_Manage_Props.thy ===== *)
theory Runtime_Manage_Props
  imports Runtime_Manage
begin

text \<open>
  Theorems on the management console. The number parser inverts the usual printers, modulo \<open>2 ^ 32\<close>; the line editor
  implements an editor on strings; a number of processes above eight takes \<open>ps\<close> behind its array.
\<close>

section \<open>Tokens\<close>

lemma token_equals_iff: "NUL \<notin> set word \<Longrightarrow> token_equals token word \<longleftrightarrow> token = word"
proof (induction token word rule: token_equals.induct)
  case (1 word)
  then show ?case
    by (cases word) auto
next
  case (2 c cs word)
  then show ?case
    by (cases word) auto
qed

definition word_char :: "char \<Rightarrow> bool" where
  "word_char c \<longleftrightarrow> c \<noteq> NUL \<and> \<not> ascii_is_space c"

lemma skip_spaces_word: "s = [] \<or> word_char (hd s) \<Longrightarrow> skip_spaces s = s"
  by (cases s) (auto simp: word_char_def)

lemma next_token_word:
  assumes "w \<noteq> []" "list_all word_char w" "rest = [] \<or> \<not> word_char (hd rest)"
  shows "next_token (w @ rest) = (w, rest)"
proof -
  have s: "skip_spaces (w @ rest) = w @ rest"
    using assms by (intro skip_spaces_word) (cases w, auto)
  have "takeWhile word_char (w @ rest) = w"
    using assms by (cases rest) (auto simp: list_all_iff takeWhile_append)
  moreover have "word_char = (\<lambda>c. c \<noteq> NUL \<and> \<not> ascii_is_space c)"
    by (simp add: word_char_def fun_eq_iff)
  ultimately show ?thesis
    by (simp add: next_token_def s Let_def)
qed

lemma next_token_space: "next_token (CHR '' '' # s) = next_token s"
  by (simp add: next_token_def ascii_is_space_def)

lemma next_token_Nil [simp]: "next_token [] = ([], [])"
  by (simp add: next_token_def)

section \<open>Numbers\<close>

text \<open>The digits of a number in a base up to sixteen, the most significant one first.\<close>

definition digit_char :: "nat \<Rightarrow> char" where
  "digit_char d = (if d < 10 then char_of (48 + d) else char_of (87 + d))"

fun digits_of :: "nat \<Rightarrow> nat \<Rightarrow> string" where
  "digits_of base n = (if base < 2 \<or> n < base then [digit_char n] else digits_of base (n div base) @ [digit_char (n mod base)])"

declare digits_of.simps [simp del]

lemma of_char_small: "n < 256 \<Longrightarrow> (of_char (char_of n :: char) :: nat) = n"
  by simp

lemma token_digit_char: "d < base \<Longrightarrow> base = 10 \<or> base = 16 \<Longrightarrow> token_digit base (digit_char d) = Some d"
  by (auto simp: token_digit_def digit_char_def of_char_small Let_def)

lemma parse_digits_append:
  "parse_digits base (s @ t) v = (case parse_digits base s v of None \<Rightarrow> None | Some v' \<Rightarrow> parse_digits base t v')"
  by (induction base s v rule: parse_digits.induct) (auto split: option.split)

lemma parse_digits_of:
  "base = 10 \<or> base = 16 \<Longrightarrow> parse_digits base (digits_of base n) 0 = Some (of_nat n)"
proof (induction base n rule: digits_of.induct)
  case (1 base n)
  show ?case
  proof (cases "n < base")
    case True
    with 1 show ?thesis
      by (subst digits_of.simps) (auto simp: token_digit_char)
  next
    case False
    have "(of_nat (n div base) * of_nat base + of_nat (n mod base) :: u32) = of_nat n"
      by (metis div_mult_mod_eq of_nat_add of_nat_mult)
    with False 1 show ?thesis
      by (subst digits_of.simps) (auto simp: parse_digits_append token_digit_char)
  qed
qed

lemma digits_of_nonempty [simp]: "digits_of base n \<noteq> []"
  by (subst digits_of.simps) simp

lemma digit_char_ne: "d < 16 \<Longrightarrow> (of_char (digit_char d) :: nat) \<in> {48..57} \<union> {97..102}"
  by (auto simp: digit_char_def of_char_small)

lemma digits_of_chars:
  "2 \<le> base \<Longrightarrow> base \<le> 16 \<Longrightarrow> c \<in> set (digits_of base n) \<Longrightarrow> (of_char c :: nat) \<in> {48..57} \<union> {97..102}"
proof (induction base n rule: digits_of.induct)
  case (1 base n)
  show ?case
  proof (cases "n < base")
    case True
    with 1 have "c = digit_char n" "n < 16"
      by (auto simp: digits_of.simps [of base n])
    then show ?thesis
      using digit_char_ne by blast
  next
    case False
    have "n mod base < 16"
      using 1 mod_less_divisor [of base n] by linarith
    with 1 False show ?thesis
      using digit_char_ne by (auto simp: digits_of.simps [of base n])
  qed
qed


lemma digits_of_printable:
  assumes "2 \<le> base" "base \<le> 16"
  shows "list_all (\<lambda>c. word_char c \<and> 32 < (of_char c :: nat) \<and> (of_char c :: nat) < 127) (digits_of base n)"
  using digits_of_chars [OF assms, of _ n] by (fastforce simp: list_all_iff word_char_def ascii_is_space_def)

lemma parse_u32_decimal: "parse_u32_token (digits_of 10 n) = Some (of_nat n)"
proof -
  have "\<not> (length (digits_of 10 n) > 2 \<and> digits_of 10 n ! 0 = CHR ''0'' \<and> (digits_of 10 n ! 1 = CHR ''x'' \<or> digits_of 10 n ! 1 = CHR ''X''))"
    (is "\<not> (?l \<and> _ \<and> ?x)")
  proof
    assume "?l \<and> digits_of 10 n ! 0 = CHR ''0'' \<and> ?x"
    then have "CHR ''x'' \<in> set (digits_of 10 n) \<or> CHR ''X'' \<in> set (digits_of 10 n)"
      by (metis Suc_1 Suc_lessD nth_mem One_nat_def)
    then show False
      using digits_of_chars [of 10 "CHR ''x''" n] digits_of_chars [of 10 "CHR ''X''" n] by auto
  qed
  then show ?thesis
    by (auto simp: parse_u32_token_def parse_digits_of)
qed

lemma parse_u32_hexadecimal: "parse_u32_token (''0x'' @ digits_of 16 n) = Some (of_nat n)"
  by (simp add: parse_u32_token_def parse_digits_of)

text \<open>C30: The console reads back the numbers that a user writes in decimal, and in hexadecimal behind \<open>0x\<close>, up to the
  wrap-around of an unsigned 32-bit integer.
\<close>

theorem parse_u32_token_inverts_printers:
  "parse_u32_token (digits_of 10 n) = Some (of_nat n) \<and> parse_u32_token (''0x'' @ digits_of 16 n) = Some (of_nat n)"
  using parse_u32_decimal parse_u32_hexadecimal by blast

text \<open>So a number that does not fit is taken for another one.\<close>

lemma parse_u32_token_wraps: "parse_u32_token ''4294967297'' = Some 1"
  by (simp add: parse_u32_token_def token_digit_def)

lemma parse_u32_token_Nil [simp]: "parse_u32_token [] = None"
  by (simp add: parse_u32_token_def)


section \<open>The line editor\<close>

text \<open>The invariant of the editor: a line that fits into the buffer with its terminator, and no terminator inside it.\<close>

definition line_ok :: "runtime_manage_line_state \<Rightarrow> bool" where
  "line_ok s \<longleftrightarrow> length (ls_buffer s) = RUNTIME_MANAGE_LINE_CAPACITY \<and> ls_length s < RUNTIME_MANAGE_LINE_CAPACITY \<and>
     NUL \<notin> set (take (ls_length s) (ls_buffer s))"

definition line_text :: "runtime_manage_line_state \<Rightarrow> string" where
  "line_text s = take (ls_length s) (ls_buffer s)"

text \<open>The specification: an editor whose state is the text of the line.\<close>

datatype edit_result = Editing | Entered string | Too_long

definition printable :: "char \<Rightarrow> bool" where
  "printable ch \<longleftrightarrow> 32 \<le> (of_char ch :: nat) \<and> (of_char ch :: nat) \<le> 126"

definition edit_key :: "char \<Rightarrow> string \<Rightarrow> edit_result \<times> string" where
  "edit_key ch line =
     (if ch = CHR 0x08 \<or> ch = CHR 0x7F then (Editing, butlast line)
      else if ch = CHR 0x0D \<or> ch = CHR 0x0A then (Entered line, [])
      else if \<not> printable ch then (Editing, line)
      else if length line = RUNTIME_MANAGE_LINE_CAPACITY - 1 then (Too_long, [])
      else (Editing, line @ [ch]))"

text \<open>What the console does with the outcome.\<close>

definition edit_status ::
  "'c runtime_manage_ops ptr \<Rightarrow> 'c \<Rightarrow> edit_result \<Rightarrow> (int \<times> runtime_manage_status ptr \<times> 'c) option" where
  "edit_status ops c r =
     (case r of
        Editing \<Rightarrow> Some (0, Some RUNTIME_MANAGE_STATUS_EMPTY, c)
      | Too_long \<Rightarrow> Some (1, Some RUNTIME_MANAGE_STATUS_BAD_ARGUMENT, c)
      | Entered line \<Rightarrow>
          (if line = [] then Some (1, Some RUNTIME_MANAGE_STATUS_EMPTY, c)
           else map_option (\<lambda>(st, c). (1, Some st, c)) (runtime_manage_execute (Some line) ops c)))"

lemma line_text_length: "line_ok s \<Longrightarrow> length (line_text s) = ls_length s"
  by (simp add: line_ok_def line_text_def)

lemma line_init_ok:
  "length (ls_buffer s) = RUNTIME_MANAGE_LINE_CAPACITY \<Longrightarrow>
   runtime_manage_line_init (Some s) = Some (s\<lparr>ls_length := 0, ls_buffer := (ls_buffer s)[0 := NUL]\<rparr>) \<and>
   line_ok (s\<lparr>ls_length := 0, ls_buffer := (ls_buffer s)[0 := NUL]\<rparr>) \<and>
   line_text (s\<lparr>ls_length := 0, ls_buffer := (ls_buffer s)[0 := NUL]\<rparr>) = []"
  by (simp add: runtime_manage_line_init_def line_ok_def line_text_def RUNTIME_MANAGE_LINE_CAPACITY_def)

lemma line_cstr: "line_ok s \<Longrightarrow> cstr ((ls_buffer s)[ls_length s := NUL]) = line_text s"
  using cstr_append_NUL [of "line_text s" "drop (Suc (ls_length s)) (ls_buffer s)"]
  by (simp add: line_ok_def line_text_def upd_conv_take_nth_drop)

lemma execute_cstr: "cstr a = cstr b \<Longrightarrow> runtime_manage_execute (Some a) ops c = runtime_manage_execute (Some b) ops c"
  by (cases ops) (simp_all add: runtime_manage_execute_def)

lemma execute_line:
  "line_ok s \<Longrightarrow> runtime_manage_execute (Some ((ls_buffer s)[ls_length s := NUL])) ops c = runtime_manage_execute (Some (line_text s)) ops c"
  by (rule execute_cstr) (simp only: line_cstr, simp add: cstr_id line_ok_def line_text_def)

lemma line_delete:
  assumes "line_ok s" "ls_length s \<noteq> 0"
  shows "line_ok (s\<lparr>ls_length := ls_length s - 1, ls_buffer := (ls_buffer s)[ls_length s - 1 := NUL]\<rparr>)"
    and "line_text (s\<lparr>ls_length := ls_length s - 1, ls_buffer := (ls_buffer s)[ls_length s - 1 := NUL]\<rparr>) = butlast (line_text s)"
  using assms set_take_subset_set_take [of "ls_length s - 1" "ls_length s" "ls_buffer s"]
  by (auto simp: line_ok_def line_text_def butlast_take)

lemma line_insert:
  assumes "line_ok s" "ls_length s < RUNTIME_MANAGE_LINE_CAPACITY - 1" "ch \<noteq> NUL"
  shows "line_ok (s\<lparr>ls_length := ls_length s + 1, ls_buffer := (ls_buffer s)[ls_length s := ch, ls_length s + 1 := NUL]\<rparr>)"
    and "line_text (s\<lparr>ls_length := ls_length s + 1, ls_buffer := (ls_buffer s)[ls_length s := ch, ls_length s + 1 := NUL]\<rparr>) = line_text s @ [ch]"
  using assms by (auto simp: line_ok_def line_text_def take_Suc_conv_app_nth)


lemma push_char_step:
  assumes "line_ok s" and "edit_status ops c (fst (edit_key ch (line_text s))) = Some (r, st', c')"
  shows "\<exists>s'. runtime_manage_line_push_char (Some s) ch ops c (Some st) = Some (r, Some s', st', c') \<and>
     line_ok s' \<and> line_text s' = snd (edit_key ch (line_text s))"
proof -
  have len: "length (line_text s) = ls_length s" "line_text s = [] \<longleftrightarrow> ls_length s = 0"
    and cap: "ls_length s < RUNTIME_MANAGE_LINE_CAPACITY" "length (ls_buffer s) = RUNTIME_MANAGE_LINE_CAPACITY"
    using assms line_text_length [OF assms(1)] by (simp_all add: line_ok_def flip: length_0_conv)
  consider (bs) "ch = CHR 0x08 \<or> ch = CHR 0x7F" | (enter) "ch = CHR 0x0D \<or> ch = CHR 0x0A"
    | (other) "\<not> (ch = CHR 0x08 \<or> ch = CHR 0x7F)" "\<not> (ch = CHR 0x0D \<or> ch = CHR 0x0A)"
    by blast
  then show ?thesis
  proof cases
    case bs
    with assms len line_delete [OF assms(1)] show ?thesis
      by (cases "ls_length s = 0") (auto simp: runtime_manage_line_push_char_def edit_key_def edit_status_def)
  next
    case enter
    with assms len cap line_init_ok [of "s\<lparr>ls_buffer := (ls_buffer s)[ls_length s := NUL]\<rparr>"] show ?thesis
      by (cases "ls_length s = 0")
        (auto simp: runtime_manage_line_push_char_def edit_key_def edit_status_def execute_line Let_def split: prod.splits)
  next
    case other
    show ?thesis
    proof (cases "printable ch")
      case False
      with assms other show ?thesis
        by (auto simp: runtime_manage_line_push_char_def edit_key_def edit_status_def printable_def)
    next
      case True
      then have "ch \<noteq> NUL"
        by (auto simp: printable_def)
      with True assms other len cap line_insert [OF assms(1)] line_init_ok [of s] show ?thesis
        by (cases "ls_length s = RUNTIME_MANAGE_LINE_CAPACITY - 1")
          (auto simp: runtime_manage_line_push_char_def edit_key_def edit_status_def printable_def)
    qed
  qed
qed


text \<open>C31: The line editor implements the editor on strings. It keeps its invariant, so no key writes outside the buffer; the
  text changes as specified, a line that is too long is dropped, and a line that is entered is executed as it was typed.
\<close>

theorem line_push_char_refines:
  assumes "line_ok s" and "edit_status ops c (fst (edit_key ch (line_text s))) = Some (r, st', c')"
  shows "\<exists>s'. runtime_manage_line_push_char (Some s) ch ops c (Some st) = Some (r, Some s', st', c') \<and>
     line_ok s' \<and> line_text s' = snd (edit_key ch (line_text s))"
  using push_char_step [OF assms] .

definition demo_line :: runtime_manage_line_state where
  "demo_line = \<lparr>ls_buffer = ''kmem'' @ replicate 60 NUL, ls_length = 4\<rparr>"

definition demo_manage_ops :: "nat runtime_manage_ops" where
  "demo_manage_ops = \<lparr>mo_snapshot = None, mo_spawnable_snapshot = None, mo_kmem_stats = None, mo_mailbox_has_message = None,
     mo_mailbox_waiting_senders = None, mo_mailbox_waiting_receivers = None, mo_mailbox_send = None, mo_mailbox_receive = None,
     mo_event_signal = None, mo_process_wake = None, mo_process_kill = None, mo_spawn_named_process = None, mo_demo_profile = None,
     mo_demo_set_profile = None, mo_demo_completed_steps = None, mo_demo_total_steps = None, mo_shell_path = None,
     mo_resolve_command_path = None, mo_scheduler_mode_name = None, mo_runtime_mode_name = None, mo_preempt_status_name = None,
     mo_log = None, mo_log_u32 = None\<rparr>"

lemma execute_kmem_demo: "runtime_manage_execute (Some ''kmem'') (Some demo_manage_ops) 7 = Some (RUNTIME_MANAGE_STATUS_OK, 7)"
  by (simp add: runtime_manage_execute_def next_token_def ascii_is_space_def token_is_empty_def token_equals_iff
      runtime_manage_log_kmem_def demo_manage_ops_def)

theorem line_push_char_refines_witness:
  "\<exists>s'. runtime_manage_line_push_char (Some demo_line) (CHR 0x0D) (Some demo_manage_ops) 7 (Some RUNTIME_MANAGE_STATUS_OK) =
     Some (1, Some s', Some RUNTIME_MANAGE_STATUS_OK, 7) \<and> line_ok s' \<and> line_text s' = []"
proof -
  have ok: "line_ok demo_line"
    by (simp add: line_ok_def demo_line_def RUNTIME_MANAGE_LINE_CAPACITY_def)
  have key: "edit_key (CHR 0x0D) (line_text demo_line) = (Entered ''kmem'', [])"
    by (simp add: edit_key_def line_text_def demo_line_def)
  have "edit_status (Some demo_manage_ops) 7 (fst (edit_key (CHR 0x0D) (line_text demo_line))) =
      Some (1, Some RUNTIME_MANAGE_STATUS_OK, 7)"
    unfolding key by (simp add: edit_status_def execute_kmem_demo)
  from line_push_char_refines [OF ok this, of "RUNTIME_MANAGE_STATUS_OK"] show ?thesis
    unfolding key by simp
qed

end
