(* ===== verification/Sync.thy ===== *)
theory Sync
  imports Scheduler Kmem
begin

text \<open>
  The synchronisation objects of \<open>kernel/wait_queue.c\<close>, \<open>event.c\<close>, \<open>semaphore.c\<close>, \<open>mutex.c\<close> and
  \<open>mailbox.c\<close>, on top of the scheduler and the heap. Objects live at heap addresses; a pointer is valid for
  an operation if it leads to an object of its kind with the magic number set. The memory of a freed object keeps
  its last value, with the magic number cleared, until the address is used again.

  An operation that waits is cut at the call of \<open>process_wait_channel\<close>: the part before it ends with the
  outcome of the scheduler, the part after it is run when the process continues. A loop around such a wait is
  given by its rounds. A result \<open>None\<close> is an access outside the arrays of the scheduler or the heap.
\<close>

section \<open>Objects\<close>

definition KERNEL_WAIT_QUEUE_MAGIC :: u32 where "KERNEL_WAIT_QUEUE_MAGIC = 0x57515545"
definition KERNEL_EVENT_MAGIC :: u32 where "KERNEL_EVENT_MAGIC = 0x45564E54"
definition KERNEL_SEMAPHORE_MAGIC :: u32 where "KERNEL_SEMAPHORE_MAGIC = 0x53454D41"
definition KERNEL_MUTEX_MAGIC :: u32 where "KERNEL_MUTEX_MAGIC = 0x4D555458"
definition KERNEL_MAILBOX_MAGIC :: u32 where "KERNEL_MAILBOX_MAGIC = 0x4D41494C"

record kernel_wait_queue =
  wq_magic :: u32
  wq_channel :: u32
  wq_waiter_count :: u32

record kernel_event =
  ev_magic :: u32
  ev_wait_queue :: "nat ptr"

record kernel_semaphore =
  sem_magic :: u32
  sem_count :: u32
  sem_max_count :: u32
  sem_wait_queue :: "nat ptr"

record kernel_mutex =
  mx_magic :: u32
  mx_owner_pid :: process_id
  mx_wait_queue :: "nat ptr"

record kernel_mailbox =
  mb_magic :: u32
  mb_message :: u32
  mb_has_message :: u32
  mb_sender_wait_queue :: "nat ptr"
  mb_receiver_wait_queue :: "nat ptr"

datatype kobject =
    Wait_Queue kernel_wait_queue
  | Event kernel_event
  | Semaphore kernel_semaphore
  | Mutex kernel_mutex
  | Mailbox kernel_mailbox

record ksync =
  ks_sched :: scheduler
  ks_kmem :: kmem
  ks_objs :: "nat \<Rightarrow> kobject option"
  g_next_wait_queue_channel :: u32

definition ksync_boot :: ksync where
  "ksync_boot = \<lparr>ks_sched = scheduler_init, ks_kmem = kmem_boot, ks_objs = (\<lambda>_. None),
     g_next_wait_queue_channel = 0x1000\<rparr>"

definition put_obj :: "nat \<Rightarrow> kobject \<Rightarrow> ksync \<Rightarrow> ksync" where
  "put_obj a x s = s\<lparr>ks_objs := (ks_objs s)(a \<mapsto> x)\<rparr>"

definition kmem_alloc_in :: "u32 \<Rightarrow> ksync \<Rightarrow> (nat ptr \<times> ksync) option" where
  "kmem_alloc_in n s = map_option (\<lambda>(p, k). (p, s\<lparr>ks_kmem := k\<rparr>)) (kmem_alloc n (ks_kmem s))"

definition kmem_free_in :: "nat \<Rightarrow> ksync \<Rightarrow> ksync option" where
  "kmem_free_in a s = map_option (\<lambda>k. s\<lparr>ks_kmem := k\<rparr>) (kmem_free (Some a) (ks_kmem s))"

section \<open>Wait queues\<close>

text \<open>The object at a pointer that \<open>kernel_wait_queue_is_valid\<close> accepts.\<close>

definition kernel_wait_queue_is_valid :: "nat ptr \<Rightarrow> ksync \<Rightarrow> (nat \<times> kernel_wait_queue) option" where
  "kernel_wait_queue_is_valid p s =
     (case p of None \<Rightarrow> None
      | Some a \<Rightarrow> (case ks_objs s a of
          Some (Wait_Queue w) \<Rightarrow> (if wq_magic w = KERNEL_WAIT_QUEUE_MAGIC then Some (a, w) else None)
        | _ \<Rightarrow> None))"

definition kernel_wait_queue_create :: "ksync \<Rightarrow> (nat ptr \<times> ksync) option" where
  "kernel_wait_queue_create s =
     do {
       (p, s) \<leftarrow> kmem_alloc_in 12 s;
       (case p of None \<Rightarrow> Some (None, s)
        | Some a \<Rightarrow>
            Some (Some a, put_obj a (Wait_Queue \<lparr>wq_magic = KERNEL_WAIT_QUEUE_MAGIC,
              wq_channel = g_next_wait_queue_channel s, wq_waiter_count = 0\<rparr>)
              (s\<lparr>g_next_wait_queue_channel := g_next_wait_queue_channel s + 1\<rparr>))) }"

definition kernel_wait_queue_destroy :: "nat ptr \<Rightarrow> ksync \<Rightarrow> (int \<times> ksync) option" where
  "kernel_wait_queue_destroy p s =
     (case kernel_wait_queue_is_valid p s of
        None \<Rightarrow> Some (0, s)
      | Some (a, w) \<Rightarrow>
          (if wq_waiter_count w \<noteq> 0 then Some (0, s)
           else map_option (Pair 1) (kmem_free_in a (put_obj a (Wait_Queue (w\<lparr>wq_magic := 0\<rparr>)) s))))"

text \<open>\<open>kernel_wait_queue_wait\<close> up to the switch, with the way the scheduler goes on; \<open>None\<close>: it returned at once.\<close>

definition wait_queue_enter :: "yield_env \<Rightarrow> nat ptr \<Rightarrow> ksync \<Rightarrow> (ksync \<times> outcome option) option" where
  "wait_queue_enter env p s =
     (case kernel_wait_queue_is_valid p s of
        None \<Rightarrow> Some (s, None)
      | Some (a, w) \<Rightarrow>
          map_option (\<lambda>r. (put_obj a (Wait_Queue (w\<lparr>wq_waiter_count := wq_waiter_count w + 1\<rparr>)) s, Some r))
            (process_wait_channel env (wq_channel w) (ks_sched s)))"

text \<open>The rest of \<open>kernel_wait_queue_wait\<close>, when the process continues. The code does not look at the magic
  number again.\<close>

definition wait_queue_leave :: "nat ptr \<Rightarrow> ksync \<Rightarrow> ksync" where
  "wait_queue_leave p s =
     (case p of Some a \<Rightarrow> (case ks_objs s a of
          Some (Wait_Queue w) \<Rightarrow>
            (if wq_waiter_count w \<noteq> 0
             then put_obj a (Wait_Queue (w\<lparr>wq_waiter_count := wq_waiter_count w - 1\<rparr>)) s else s)
        | _ \<Rightarrow> s)
      | None \<Rightarrow> s)"

definition kernel_wait_queue_wake_one :: "nat ptr \<Rightarrow> ksync \<Rightarrow> (nat \<times> ksync) option" where
  "kernel_wait_queue_wake_one p s =
     (case kernel_wait_queue_is_valid p s of
        None \<Rightarrow> Some (0, s)
      | Some (_, w) \<Rightarrow>
          map_option (\<lambda>(n, sched). (n, s\<lparr>ks_sched := sched\<rparr>))
            (process_wake_first_channel (wq_channel w) (ks_sched s)))"

definition kernel_wait_queue_wake_all :: "nat ptr \<Rightarrow> ksync \<Rightarrow> (nat \<times> ksync) option" where
  "kernel_wait_queue_wake_all p s =
     (case kernel_wait_queue_is_valid p s of
        None \<Rightarrow> Some (0, s)
      | Some (_, w) \<Rightarrow>
          map_option (\<lambda>(n, sched). (n, s\<lparr>ks_sched := sched\<rparr>))
            (process_wake_channel (wq_channel w) (ks_sched s)))"

definition kernel_wait_queue_waiter_count :: "nat ptr \<Rightarrow> ksync \<Rightarrow> u32" where
  "kernel_wait_queue_waiter_count p s =
     (case kernel_wait_queue_is_valid p s of None \<Rightarrow> 0 | Some (_, w) \<Rightarrow> wq_waiter_count w)"

section \<open>Events\<close>

definition kernel_event_is_valid :: "nat ptr \<Rightarrow> ksync \<Rightarrow> (nat \<times> kernel_event) option" where
  "kernel_event_is_valid p s =
     (case p of None \<Rightarrow> None
      | Some a \<Rightarrow> (case ks_objs s a of
          Some (Event e) \<Rightarrow> (if ev_magic e = KERNEL_EVENT_MAGIC then Some (a, e) else None)
        | _ \<Rightarrow> None))"

text \<open>
  What the constructors of events, semaphores and mutexes share: allocate the object, then its wait queue,
  and give the object back when there is no memory for the queue.
\<close>

definition create_with_queue :: "u32 \<Rightarrow> (nat \<Rightarrow> kobject) \<Rightarrow> ksync \<Rightarrow> (nat ptr \<times> ksync) option" where
  "create_with_queue n obj s =
     do {
       (p, s) \<leftarrow> kmem_alloc_in n s;
       (case p of None \<Rightarrow> Some (None, s)
        | Some a \<Rightarrow>
            do {
              (q, s) \<leftarrow> kernel_wait_queue_create s;
              (case q of None \<Rightarrow> map_option (Pair None) (kmem_free_in a s)
               | Some b \<Rightarrow> Some (Some a, put_obj a (obj b) s)) }) }"

definition kernel_event_create :: "ksync \<Rightarrow> (nat ptr \<times> ksync) option" where
  "kernel_event_create s =
     create_with_queue 8 (\<lambda>q. Event \<lparr>ev_magic = KERNEL_EVENT_MAGIC, ev_wait_queue = Some q\<rparr>) s"

definition kernel_event_destroy :: "nat ptr \<Rightarrow> ksync \<Rightarrow> (int \<times> ksync) option" where
  "kernel_event_destroy p s =
     (case kernel_event_is_valid p s of
        None \<Rightarrow> Some (0, s)
      | Some (a, e) \<Rightarrow>
          do {
            (done1, s) \<leftarrow> kernel_wait_queue_destroy (ev_wait_queue e) s;
            if done1 = 0 then Some (0, s)
            else map_option (Pair 1) (kmem_free_in a
              (put_obj a (Event (e\<lparr>ev_magic := 0, ev_wait_queue := None\<rparr>)) s)) })"

definition kernel_event_wait :: "yield_env \<Rightarrow> nat ptr \<Rightarrow> ksync \<Rightarrow> (ksync \<times> outcome option) option" where
  "kernel_event_wait env p s =
     (case kernel_event_is_valid p s of
        None \<Rightarrow> Some (s, None) | Some (_, e) \<Rightarrow> wait_queue_enter env (ev_wait_queue e) s)"

definition kernel_event_signal :: "nat ptr \<Rightarrow> ksync \<Rightarrow> (nat \<times> ksync) option" where
  "kernel_event_signal p s =
     (case kernel_event_is_valid p s of
        None \<Rightarrow> Some (0, s) | Some (_, e) \<Rightarrow> kernel_wait_queue_wake_all (ev_wait_queue e) s)"

definition kernel_event_waiter_count :: "nat ptr \<Rightarrow> ksync \<Rightarrow> u32" where
  "kernel_event_waiter_count p s =
     (case kernel_event_is_valid p s of
        None \<Rightarrow> 0 | Some (_, e) \<Rightarrow> kernel_wait_queue_waiter_count (ev_wait_queue e) s)"

section \<open>Semaphores\<close>

definition kernel_semaphore_is_valid :: "nat ptr \<Rightarrow> ksync \<Rightarrow> (nat \<times> kernel_semaphore) option" where
  "kernel_semaphore_is_valid p s =
     (case p of None \<Rightarrow> None
      | Some a \<Rightarrow> (case ks_objs s a of
          Some (Semaphore x) \<Rightarrow>
            (if sem_magic x = KERNEL_SEMAPHORE_MAGIC \<and> sem_wait_queue x \<noteq> None then Some (a, x) else None)
        | _ \<Rightarrow> None))"

definition kernel_semaphore_create :: "u32 \<Rightarrow> u32 \<Rightarrow> ksync \<Rightarrow> (nat ptr \<times> ksync) option" where
  "kernel_semaphore_create initial_count max_count s =
     (if max_count = 0 \<or> initial_count > max_count then Some (None, s)
      else create_with_queue 16 (\<lambda>q. Semaphore \<lparr>sem_magic = KERNEL_SEMAPHORE_MAGIC, sem_count = initial_count,
        sem_max_count = max_count, sem_wait_queue = Some q\<rparr>) s)"

definition kernel_semaphore_destroy :: "nat ptr \<Rightarrow> ksync \<Rightarrow> (int \<times> ksync) option" where
  "kernel_semaphore_destroy p s =
     (case kernel_semaphore_is_valid p s of
        None \<Rightarrow> Some (0, s)
      | Some (a, x) \<Rightarrow>
          do {
            (done1, s) \<leftarrow> kernel_wait_queue_destroy (sem_wait_queue x) s;
            if done1 = 0 then Some (0, s)
            else map_option (Pair 1) (kmem_free_in a
              (put_obj a (Semaphore (x\<lparr>sem_magic := 0, sem_wait_queue := None\<rparr>)) s)) })"

definition kernel_semaphore_try_acquire :: "nat ptr \<Rightarrow> ksync \<Rightarrow> int \<times> ksync" where
  "kernel_semaphore_try_acquire p s =
     (case kernel_semaphore_is_valid p s of
        None \<Rightarrow> (0, s)
      | Some (a, x) \<Rightarrow>
          (if sem_count x = 0 then (0, s)
           else (1, put_obj a (Semaphore (x\<lparr>sem_count := sem_count x - 1\<rparr>)) s)))"

text \<open>
  One round of a waiting loop: the operation is done, the process waits in the queue, or the wait returned at once
  and the next round follows.
\<close>

datatype 'a round = Done 'a ksync | Waits ksync outcome | Again ksync

definition wait_round :: "yield_env \<Rightarrow> nat ptr \<Rightarrow> ksync \<Rightarrow> 'a round option" where
  "wait_round env q s =
     map_option (\<lambda>(s, r). case r of None \<Rightarrow> Again s | Some r \<Rightarrow> Waits s r) (wait_queue_enter env q s)"

definition kernel_semaphore_acquire :: "yield_env \<Rightarrow> nat ptr \<Rightarrow> ksync \<Rightarrow> unit round option" where
  "kernel_semaphore_acquire env p s =
     (case kernel_semaphore_is_valid p s of
        None \<Rightarrow> Some (Done () s)
      | Some (_, x) \<Rightarrow>
          (case kernel_semaphore_try_acquire p s of (ok, s') \<Rightarrow>
             if ok \<noteq> 0 then Some (Done () s') else wait_round env (sem_wait_queue x) s'))"

text \<open>The wake-up that a release, an unlock, a send or a receive does when someone waits.\<close>

definition wake_if_waiting :: "nat ptr \<Rightarrow> ksync \<Rightarrow> ksync option" where
  "wake_if_waiting q s =
     (if kernel_wait_queue_waiter_count q s \<noteq> 0 then map_option snd (kernel_wait_queue_wake_one q s) else Some s)"

definition kernel_semaphore_release :: "nat ptr \<Rightarrow> ksync \<Rightarrow> (int \<times> ksync) option" where
  "kernel_semaphore_release p s =
     (case kernel_semaphore_is_valid p s of
        None \<Rightarrow> Some (0, s)
      | Some (a, x) \<Rightarrow>
          (if sem_count x = sem_max_count x then Some (0, s)
           else map_option (Pair 1) (wake_if_waiting (sem_wait_queue x)
             (put_obj a (Semaphore (x\<lparr>sem_count := sem_count x + 1\<rparr>)) s))))"

definition kernel_semaphore_count :: "nat ptr \<Rightarrow> ksync \<Rightarrow> u32" where
  "kernel_semaphore_count p s = (case kernel_semaphore_is_valid p s of None \<Rightarrow> 0 | Some (_, x) \<Rightarrow> sem_count x)"

definition kernel_semaphore_waiter_count :: "nat ptr \<Rightarrow> ksync \<Rightarrow> u32" where
  "kernel_semaphore_waiter_count p s =
     (case kernel_semaphore_is_valid p s of
        None \<Rightarrow> 0 | Some (_, x) \<Rightarrow> kernel_wait_queue_waiter_count (sem_wait_queue x) s)"

section \<open>Mutexes\<close>

definition kernel_mutex_is_valid :: "nat ptr \<Rightarrow> ksync \<Rightarrow> (nat \<times> kernel_mutex) option" where
  "kernel_mutex_is_valid p s =
     (case p of None \<Rightarrow> None
      | Some a \<Rightarrow> (case ks_objs s a of
          Some (Mutex m) \<Rightarrow>
            (if mx_magic m = KERNEL_MUTEX_MAGIC \<and> mx_wait_queue m \<noteq> None then Some (a, m) else None)
        | _ \<Rightarrow> None))"

definition kernel_mutex_create :: "ksync \<Rightarrow> (nat ptr \<times> ksync) option" where
  "kernel_mutex_create s =
     create_with_queue 12 (\<lambda>q. Mutex \<lparr>mx_magic = KERNEL_MUTEX_MAGIC, mx_owner_pid = 0, mx_wait_queue = Some q\<rparr>) s"

definition kernel_mutex_destroy :: "nat ptr \<Rightarrow> ksync \<Rightarrow> (int \<times> ksync) option" where
  "kernel_mutex_destroy p s =
     (case kernel_mutex_is_valid p s of
        None \<Rightarrow> Some (0, s)
      | Some (a, m) \<Rightarrow>
          (if mx_owner_pid m \<noteq> 0 then Some (0, s)
           else do {
            (done1, s) \<leftarrow> kernel_wait_queue_destroy (mx_wait_queue m) s;
            if done1 = 0 then Some (0, s)
            else map_option (Pair 1) (kmem_free_in a
              (put_obj a (Mutex (m\<lparr>mx_magic := 0, mx_wait_queue := None\<rparr>)) s)) }))"

definition kernel_mutex_try_lock :: "nat ptr \<Rightarrow> ksync \<Rightarrow> int \<times> ksync" where
  "kernel_mutex_try_lock p s =
     (case kernel_mutex_is_valid p s of
        None \<Rightarrow> (0, s)
      | Some (a, m) \<Rightarrow>
          (let current_pid = process_current_pid (ks_sched s) in
           if current_pid = 0 \<or> mx_owner_pid m \<noteq> 0 then (0, s)
           else (1, put_obj a (Mutex (m\<lparr>mx_owner_pid := current_pid\<rparr>)) s)))"

definition kernel_mutex_lock :: "yield_env \<Rightarrow> nat ptr \<Rightarrow> ksync \<Rightarrow> unit round option" where
  "kernel_mutex_lock env p s =
     (case kernel_mutex_is_valid p s of
        None \<Rightarrow> Some (Done () s)
      | Some (_, m) \<Rightarrow>
          (case kernel_mutex_try_lock p s of (ok, s') \<Rightarrow>
             if ok \<noteq> 0 then Some (Done () s') else wait_round env (mx_wait_queue m) s'))"

definition kernel_mutex_unlock :: "nat ptr \<Rightarrow> ksync \<Rightarrow> (int \<times> ksync) option" where
  "kernel_mutex_unlock p s =
     (case kernel_mutex_is_valid p s of
        None \<Rightarrow> Some (0, s)
      | Some (a, m) \<Rightarrow>
          (let current_pid = process_current_pid (ks_sched s) in
           if current_pid = 0 \<or> mx_owner_pid m \<noteq> current_pid then Some (0, s)
           else map_option (Pair 1) (wake_if_waiting (mx_wait_queue m) (put_obj a (Mutex (m\<lparr>mx_owner_pid := 0\<rparr>)) s))))"

definition kernel_mutex_owner_pid :: "nat ptr \<Rightarrow> ksync \<Rightarrow> process_id" where
  "kernel_mutex_owner_pid p s = (case kernel_mutex_is_valid p s of None \<Rightarrow> 0 | Some (_, m) \<Rightarrow> mx_owner_pid m)"

definition kernel_mutex_waiter_count :: "nat ptr \<Rightarrow> ksync \<Rightarrow> u32" where
  "kernel_mutex_waiter_count p s =
     (case kernel_mutex_is_valid p s of
        None \<Rightarrow> 0 | Some (_, m) \<Rightarrow> kernel_wait_queue_waiter_count (mx_wait_queue m) s)"

section \<open>Mailboxes\<close>

definition kernel_mailbox_is_valid :: "nat ptr \<Rightarrow> ksync \<Rightarrow> (nat \<times> kernel_mailbox) option" where
  "kernel_mailbox_is_valid p s =
     (case p of None \<Rightarrow> None
      | Some a \<Rightarrow> (case ks_objs s a of
          Some (Mailbox m) \<Rightarrow>
            (if mb_magic m = KERNEL_MAILBOX_MAGIC \<and> mb_sender_wait_queue m \<noteq> None \<and> mb_receiver_wait_queue m \<noteq> None
             then Some (a, m) else None)
        | _ \<Rightarrow> None))"

definition kernel_mailbox_create :: "ksync \<Rightarrow> (nat ptr \<times> ksync) option" where
  "kernel_mailbox_create s =
     do {
       (p, s) \<leftarrow> kmem_alloc_in 20 s;
       (case p of None \<Rightarrow> Some (None, s)
        | Some a \<Rightarrow>
            do {
              (q, s) \<leftarrow> kernel_wait_queue_create s;
              (case q of None \<Rightarrow> map_option (Pair None) (kmem_free_in a s)
               | Some b \<Rightarrow>
                   do {
                     (r, s) \<leftarrow> kernel_wait_queue_create s;
                     (case r of
                        None \<Rightarrow> do { (_, s) \<leftarrow> kernel_wait_queue_destroy (Some b) s; map_option (Pair None) (kmem_free_in a s) }
                      | Some c \<Rightarrow>
                          Some (Some a, put_obj a (Mailbox \<lparr>mb_magic = KERNEL_MAILBOX_MAGIC, mb_message = 0,
                            mb_has_message = 0, mb_sender_wait_queue = Some b, mb_receiver_wait_queue = Some c\<rparr>) s)) }) }) }"

definition kernel_mailbox_destroy :: "nat ptr \<Rightarrow> ksync \<Rightarrow> (int \<times> ksync) option" where
  "kernel_mailbox_destroy p s =
     (case kernel_mailbox_is_valid p s of
        None \<Rightarrow> Some (0, s)
      | Some (a, m) \<Rightarrow>
          (if mb_has_message m \<noteq> 0 then Some (0, s)
           else do {
             (done1, s) \<leftarrow> kernel_wait_queue_destroy (mb_sender_wait_queue m) s;
             if done1 = 0 then Some (0, s)
             else do {
               (done2, s) \<leftarrow> kernel_wait_queue_destroy (mb_receiver_wait_queue m) s;
               if done2 = 0 then Some (0, s)
               else map_option (Pair 1) (kmem_free_in a (put_obj a (Mailbox (m\<lparr>mb_magic := 0,
                 mb_sender_wait_queue := None, mb_receiver_wait_queue := None\<rparr>)) s)) } }))"

definition kernel_mailbox_try_send :: "nat ptr \<Rightarrow> u32 \<Rightarrow> ksync \<Rightarrow> (int \<times> ksync) option" where
  "kernel_mailbox_try_send p message s =
     (case kernel_mailbox_is_valid p s of
        None \<Rightarrow> Some (0, s)
      | Some (a, m) \<Rightarrow>
          (if mb_has_message m \<noteq> 0 then Some (0, s)
           else map_option (Pair 1) (wake_if_waiting (mb_receiver_wait_queue m)
             (put_obj a (Mailbox (m\<lparr>mb_message := message, mb_has_message := 1\<rparr>)) s))))"

definition kernel_mailbox_send :: "yield_env \<Rightarrow> nat ptr \<Rightarrow> u32 \<Rightarrow> ksync \<Rightarrow> unit round option" where
  "kernel_mailbox_send env p message s =
     (case kernel_mailbox_is_valid p s of
        None \<Rightarrow> Some (Done () s)
      | Some (_, m) \<Rightarrow>
          do { (ok, s) \<leftarrow> kernel_mailbox_try_send p message s;
               if ok \<noteq> 0 then Some (Done () s) else wait_round env (mb_sender_wait_queue m) s })"

definition kernel_mailbox_try_receive :: "nat ptr \<Rightarrow> u32 ptr \<Rightarrow> ksync \<Rightarrow> (int \<times> u32 ptr \<times> ksync) option" where
  "kernel_mailbox_try_receive p message s =
     (case kernel_mailbox_is_valid p s of
        None \<Rightarrow> Some (0, message, s)
      | Some (a, m) \<Rightarrow>
          (if mb_has_message m = 0 then Some (0, message, s)
           else map_option (\<lambda>s. (1, map_option (\<lambda>_. mb_message m) message, s))
             (wake_if_waiting (mb_sender_wait_queue m) (put_obj a (Mailbox (m\<lparr>mb_has_message := 0\<rparr>)) s))))"

definition kernel_mailbox_receive :: "yield_env \<Rightarrow> nat ptr \<Rightarrow> ksync \<Rightarrow> u32 round option" where
  "kernel_mailbox_receive env p s =
     (case kernel_mailbox_is_valid p s of
        None \<Rightarrow> Some (Done 0 s)
      | Some (_, m) \<Rightarrow>
          do { (ok, message, s) \<leftarrow> kernel_mailbox_try_receive p (Some 0) s;
               if ok \<noteq> 0 then Some (Done (case message of None \<Rightarrow> 0 | Some x \<Rightarrow> x) s)
               else wait_round env (mb_receiver_wait_queue m) s })"

definition kernel_mailbox_has_message :: "nat ptr \<Rightarrow> ksync \<Rightarrow> bool" where
  "kernel_mailbox_has_message p s \<longleftrightarrow>
     (case kernel_mailbox_is_valid p s of None \<Rightarrow> False | Some (_, m) \<Rightarrow> mb_has_message m \<noteq> 0)"

definition kernel_mailbox_waiting_senders :: "nat ptr \<Rightarrow> ksync \<Rightarrow> u32" where
  "kernel_mailbox_waiting_senders p s =
     (case kernel_mailbox_is_valid p s of
        None \<Rightarrow> 0 | Some (_, m) \<Rightarrow> kernel_wait_queue_waiter_count (mb_sender_wait_queue m) s)"

definition kernel_mailbox_waiting_receivers :: "nat ptr \<Rightarrow> ksync \<Rightarrow> u32" where
  "kernel_mailbox_waiting_receivers p s =
     (case kernel_mailbox_is_valid p s of
        None \<Rightarrow> 0 | Some (_, m) \<Rightarrow> kernel_wait_queue_waiter_count (mb_receiver_wait_queue m) s)"

end
