(* ===== verification/Kernel_Manage.thy ===== *)
theory Kernel_Manage
  imports Kernel_Ops Runtime_Manage_Props Sync
begin

text \<open>
  How \<open>kernel/kernel.c\<close> puts the kernel behind the management console: the functions of the table
  \<open>g_runtime_manage_ops\<close>, the polling of the serial line and the echo. The context has the state of the demo, the
  scheduler with the globals of \<open>Kernel_Ops\<close>, the synchronisation objects with the heap, the characters that wait in the
  serial line and the output of the console. The pointer to the state of the demo is that of its global. A send or receive that blocks
  lets other processes run; the whole call is a function of the environment. A process that kills itself does not come
  back: then \<open>mg_ended\<close> holds how the scheduler goes on, and what follows in the model does not happen.
\<close>

section \<open>The context\<close>

datatype console_item = Log string string | Log_u32 string string u32 | Echo string

definition RUNTIME_MANAGEMENT_DEMO_PROFILE_OFF :: u8 where "RUNTIME_MANAGEMENT_DEMO_PROFILE_OFF = 0"
definition RUNTIME_MANAGEMENT_DEMO_PROFILE_SMOKE :: u8 where "RUNTIME_MANAGEMENT_DEMO_PROFILE_SMOKE = 1"
definition RUNTIME_MANAGEMENT_DEMO_MAILBOX_TARGET :: u8 where "RUNTIME_MANAGEMENT_DEMO_MAILBOX_TARGET = 3"

record runtime_management_demo_state =
  md_mailbox :: "nat ptr"
  md_event :: "nat ptr"
  md_mailbox_send_count :: u32
  md_mailbox_receive_count :: u32
  md_spawn_count :: u32
  md_demo_profile :: u8
  md_demo_runtime_logged :: u8
  md_demo_child_wait_done :: u8
  md_demo_manual_wake_done :: u8
  md_demo_event_signal_done :: u8
  md_demo_mailbox_auto_count :: u8

record manage_context =
  g_runtime_management_state :: runtime_management_demo_state
  mg_fs :: fs_context
  mg_sync :: ksync
  g_mailbox_receiver_pid :: process_id
  mg_uart :: string
  mg_console :: "console_item list"
  mg_fault :: bool
  mg_ended :: "outcome option"

record manage_env =
  me_kernel :: kernel_env
  me_yield :: yield_env
  me_cooperative :: bool
  me_mailbox_send :: "nat ptr \<Rightarrow> u32 \<Rightarrow> ksync \<Rightarrow> ksync"
  me_mailbox_receive :: "nat ptr \<Rightarrow> ksync \<Rightarrow> u32 \<times> ksync"

definition mg_sched :: "manage_context \<Rightarrow> scheduler" where
  "mg_sched c = fx_sched (mg_fs c)"

definition put_sched :: "scheduler \<Rightarrow> manage_context \<Rightarrow> manage_context" where
  "put_sched s c = c\<lparr>mg_fs := (mg_fs c)\<lparr>fx_sched := s\<rparr>\<rparr>"

text \<open>The objects with the scheduler as it is, and back.\<close>

definition sync_now :: "manage_context \<Rightarrow> ksync" where
  "sync_now c = (mg_sync c)\<lparr>ks_sched := mg_sched c\<rparr>"

definition put_sync :: "ksync \<Rightarrow> manage_context \<Rightarrow> manage_context" where
  "put_sync s c = put_sched (ks_sched s) (c\<lparr>mg_sync := s\<rparr>)"

definition console_log :: "string \<Rightarrow> string \<Rightarrow> manage_context \<Rightarrow> manage_context" where
  "console_log tag message c = c\<lparr>mg_console := mg_console c @ [Log tag message]\<rparr>"

definition console_log_u32 :: "string \<Rightarrow> string \<Rightarrow> u32 \<Rightarrow> manage_context \<Rightarrow> manage_context" where
  "console_log_u32 tag label v c = c\<lparr>mg_console := mg_console c @ [Log_u32 tag label v]\<rparr>"

definition console_write :: "string \<Rightarrow> manage_context \<Rightarrow> manage_context" where
  "console_write s c = c\<lparr>mg_console := mg_console c @ [Echo s]\<rparr>"

definition upd_demo :: "(runtime_management_demo_state \<Rightarrow> runtime_management_demo_state) \<Rightarrow> manage_context \<Rightarrow> manage_context" where
  "upd_demo f c = c\<lparr>g_runtime_management_state := f (g_runtime_management_state c)\<rparr>"

section \<open>The operations\<close>

definition runtime_management_demo_reset :: "runtime_management_demo_state \<Rightarrow> runtime_management_demo_state" where
  "runtime_management_demo_reset state = state\<lparr>md_demo_runtime_logged := 0, md_demo_child_wait_done := 0, md_demo_manual_wake_done := 0,
     md_demo_event_signal_done := 0, md_demo_mailbox_auto_count := 0\<rparr>"

definition runtime_management_snapshot :: "process_info list \<Rightarrow> nat \<Rightarrow> manage_context \<Rightarrow> nat \<times> process_info list \<times> manage_context" where
  "runtime_management_snapshot buffer capacity c =
     (case process_snapshot (Some buffer) capacity (mg_sched c) of
        (Some b, n) \<Rightarrow> (n, b, c)
      | (None, n) \<Rightarrow> (n, buffer, c))"

definition runtime_management_kmem_stats :: "manage_context \<Rightarrow> kmem_stats \<times> manage_context" where
  "runtime_management_kmem_stats c =
     (let blank = \<lparr>arena_capacity_bytes = 0, free_bytes = 0, largest_free_block = 0, bytes_in_use = 0, peak_bytes_in_use = 0,
            allocation_count = 0, free_count = 0, allocation_fail_count = 0, live_allocations = 0, peak_live_allocations = 0,
            block_count = 0, free_block_count = 0, used_block_count = 0\<rparr> in
      case kmem_stats_snapshot (Some blank) (ks_kmem (mg_sync c)) of
        Some (Some st, k) \<Rightarrow> (st, c\<lparr>mg_sync := (mg_sync c)\<lparr>ks_kmem := k\<rparr>\<rparr>)
      | _ \<Rightarrow> (blank, c\<lparr>mg_fault := True\<rparr>))"

definition runtime_management_mailbox_has_message :: "manage_context \<Rightarrow> int \<times> manage_context" where
  "runtime_management_mailbox_has_message c =
     (let mailbox = md_mailbox (g_runtime_management_state c) in
      (if mailbox = None then 0 else if kernel_mailbox_has_message mailbox (sync_now c) then 1 else 0, c))"

definition runtime_management_mailbox_waiting_senders :: "manage_context \<Rightarrow> u32 \<times> manage_context" where
  "runtime_management_mailbox_waiting_senders c =
     (let mailbox = md_mailbox (g_runtime_management_state c) in
      (if mailbox = None then 0 else kernel_mailbox_waiting_senders mailbox (sync_now c), c))"

definition runtime_management_mailbox_waiting_receivers :: "manage_context \<Rightarrow> u32 \<times> manage_context" where
  "runtime_management_mailbox_waiting_receivers c =
     (let mailbox = md_mailbox (g_runtime_management_state c) in
      (if mailbox = None then 0 else kernel_mailbox_waiting_receivers mailbox (sync_now c), c))"

definition runtime_management_mailbox_send :: "manage_env \<Rightarrow> u32 \<Rightarrow> manage_context \<Rightarrow> int \<times> manage_context" where
  "runtime_management_mailbox_send env message c =
     (let mailbox = md_mailbox (g_runtime_management_state c) in
      if mailbox = None then (0, c)
      else let c = put_sync (me_mailbox_send env mailbox message (sync_now c)) c;
               c = upd_demo (\<lambda>d. d\<lparr>md_mailbox_send_count := md_mailbox_send_count d + 1\<rparr>) c in
        (1, console_log_u32 ''PROC'' ''mailbox_sent_count='' (md_mailbox_send_count (g_runtime_management_state c)) c))"

definition runtime_management_mailbox_receive :: "manage_env \<Rightarrow> manage_context \<Rightarrow> int \<times> u32 \<times> manage_context" where
  "runtime_management_mailbox_receive env c =
     (let mailbox = md_mailbox (g_runtime_management_state c) in
      if mailbox = None then (0, 0, c)
      else let (message, s) = me_mailbox_receive env mailbox (sync_now c);
               c = upd_demo (\<lambda>d. d\<lparr>md_mailbox_receive_count := md_mailbox_receive_count d + 1\<rparr>) (put_sync s c);
               c = console_log_u32 ''PROC'' ''mailbox_message='' message c in
        (1, message, console_log_u32 ''PROC'' ''mailbox_receive_count='' (md_mailbox_receive_count (g_runtime_management_state c)) c))"

definition runtime_management_event_signal :: "manage_context \<Rightarrow> u32 \<times> manage_context" where
  "runtime_management_event_signal c =
     (let event = md_event (g_runtime_management_state c) in
      if event = None then (0, c)
      else case kernel_event_signal event (sync_now c) of
        None \<Rightarrow> (0, c\<lparr>mg_fault := True\<rparr>)
      | Some (woke, s) \<Rightarrow> (of_nat woke, console_log_u32 ''PROC'' ''event_signal_woke='' (of_nat woke) (put_sync s c)))"

definition runtime_management_process_wake :: "u32 \<Rightarrow> manage_context \<Rightarrow> int \<times> manage_context" where
  "runtime_management_process_wake pid c =
     (case process_wake pid (mg_sched c) of
        None \<Rightarrow> (0, c\<lparr>mg_fault := True\<rparr>)
      | Some (r, s) \<Rightarrow> (r, put_sched s c))"

definition runtime_management_process_kill :: "manage_env \<Rightarrow> u32 \<Rightarrow> int \<Rightarrow> manage_context \<Rightarrow> int \<times> manage_context" where
  "runtime_management_process_kill env pid exit_code c =
     (case process_kill (me_yield env) pid exit_code (mg_sched c) of
        None \<Rightarrow> (0, c\<lparr>mg_fault := True\<rparr>)
      | Some (Inl r) \<Rightarrow> (0, c\<lparr>mg_ended := Some r\<rparr>)
      | Some (Inr (r, s)) \<Rightarrow> (r, put_sched s c))"

definition runtime_management_spawnable_snapshot ::
  "runtime_manage_spawnable_info list \<Rightarrow> nat \<Rightarrow> manage_context \<Rightarrow> nat \<times> runtime_manage_spawnable_info list \<times> manage_context" where
  "runtime_management_spawnable_snapshot buffer capacity c =
     (let blank = \<lparr>pc_task_key = None, pc_process_name = None, pc_default_role = 0\<rparr>;
          (count, catalog) = runtime_catalog_snapshot (Some g_runtime_process_catalog) (length g_runtime_process_catalog)
            (Some (replicate RUNTIME_MANAGE_SPAWNABLE_SNAPSHOT_CAPACITY blank)) RUNTIME_MANAGE_SPAWNABLE_SNAPSHOT_CAPACITY;
          entries = (case catalog of None \<Rightarrow> [] | Some b \<Rightarrow> b);
          buffer = fold (\<lambda>index b. b[index := \<lparr>sp_task_name = pc_task_key (entries ! index),
            sp_process_name = pc_process_name (entries ! index), sp_default_role = pc_default_role (entries ! index)\<rparr>])
            [0..<min (min count capacity) RUNTIME_MANAGE_SPAWNABLE_SNAPSHOT_CAPACITY] buffer in
      (count, buffer, c))"

text \<open>The spawn of \<open>Kernel_Ops\<close>, with the line that it logs.\<close>

definition runtime_management_spawn_named_process :: "manage_env \<Rightarrow> string \<Rightarrow> u32 \<Rightarrow> manage_context \<Rightarrow> u32 \<times> manage_context" where
  "runtime_management_spawn_named_process env task_name role c =
     (let c = upd_demo (\<lambda>d. d\<lparr>md_spawn_count := md_spawn_count d + 1\<rparr>) c in
      case runtime_catalog_find (Some g_runtime_process_catalog) (length g_runtime_process_catalog) (Some task_name) of
        None \<Rightarrow> (0, c)
      | Some manifest \<Rightarrow>
          (let (pid, fs) = runtime_spawn_process_from_task_key (me_kernel env) (Some task_name) role (mg_fs c);
               c = console_log_u32 ''MGMT'' ''spawn_pid='' pid (c\<lparr>mg_fs := fs\<rparr>) in
           if pid = 0 then (0, c)
           else if pm_entry manifest = process_mailbox_receiver then (pid, c\<lparr>g_mailbox_receiver_pid := pid\<rparr>)
           else if pm_entry manifest = process_service_server then (pid, c\<lparr>mg_fs := (mg_fs c)\<lparr>g_service_pid := pid\<rparr>\<rparr>)
           else (pid, c)))"

definition runtime_management_demo_profile :: "manage_context \<Rightarrow> u32 \<times> manage_context" where
  "runtime_management_demo_profile c =
     (if md_demo_profile (g_runtime_management_state c) = RUNTIME_MANAGEMENT_DEMO_PROFILE_SMOKE
      then RUNTIME_MANAGE_DEMO_PROFILE_SMOKE else RUNTIME_MANAGE_DEMO_PROFILE_OFF, c)"

definition runtime_management_demo_set_profile :: "u32 \<Rightarrow> manage_context \<Rightarrow> int \<times> manage_context" where
  "runtime_management_demo_set_profile profile c =
     (if profile \<noteq> RUNTIME_MANAGE_DEMO_PROFILE_OFF \<and> profile \<noteq> RUNTIME_MANAGE_DEMO_PROFILE_SMOKE then (0, c)
      else let c = upd_demo (\<lambda>d. d\<lparr>md_demo_profile := (if profile = RUNTIME_MANAGE_DEMO_PROFILE_SMOKE
                 then RUNTIME_MANAGEMENT_DEMO_PROFILE_SMOKE else RUNTIME_MANAGEMENT_DEMO_PROFILE_OFF)\<rparr>) c;
               smoke = (md_demo_profile (g_runtime_management_state c) = RUNTIME_MANAGEMENT_DEMO_PROFILE_SMOKE);
               c = (if smoke then upd_demo runtime_management_demo_reset c else c) in
        (1, console_log ''MGMT'' (if smoke then ''auto_on'' else ''auto_off'') c))"

definition runtime_management_demo_completed_steps :: "manage_context \<Rightarrow> u32 \<times> manage_context" where
  "runtime_management_demo_completed_steps c =
     (let d = g_runtime_management_state c in
      ((if md_demo_runtime_logged d \<noteq> 0 then 1 else 0) + (if md_demo_child_wait_done d \<noteq> 0 then 1 else 0) +
       (if md_demo_manual_wake_done d \<noteq> 0 then 1 else 0) + (if md_demo_event_signal_done d \<noteq> 0 then 1 else 0) +
       (if md_demo_mailbox_auto_count d \<ge> RUNTIME_MANAGEMENT_DEMO_MAILBOX_TARGET then 1 else 0), c))"

definition runtime_management_demo_total_steps :: "manage_context \<Rightarrow> u32 \<times> manage_context" where
  "runtime_management_demo_total_steps c =
     (if md_demo_profile (g_runtime_management_state c) \<noteq> RUNTIME_MANAGEMENT_DEMO_PROFILE_SMOKE then 0 else 5, c)"

definition runtime_management_scheduler_mode_name :: "manage_env \<Rightarrow> manage_context \<Rightarrow> string \<times> manage_context" where
  "runtime_management_scheduler_mode_name env c = (scheduler_mode_name (me_cooperative env), c)"

definition runtime_management_runtime_mode_name :: "manage_env \<Rightarrow> manage_context \<Rightarrow> string \<times> manage_context" where
  "runtime_management_runtime_mode_name env c = (runtime_policy_mode_name (ke_single_foreground (me_kernel env)), c)"

definition runtime_management_preempt_status_name :: "manage_env \<Rightarrow> manage_context \<Rightarrow> string \<times> manage_context" where
  "runtime_management_preempt_status_name env c =
     (scheduler_preempt_status_name (env_preemptive (me_yield env)) (env_capable (me_yield env)) (g_scheduler_preempt_state (mg_sched c)), c)"

definition runtime_management_log :: "string \<Rightarrow> string \<Rightarrow> manage_context \<Rightarrow> manage_context" where
  "runtime_management_log tag message c = console_log tag message c"

definition runtime_management_log_u32 :: "string \<Rightarrow> string \<Rightarrow> u32 \<Rightarrow> manage_context \<Rightarrow> manage_context" where
  "runtime_management_log_u32 tag label v c = console_log_u32 tag label v c"

text \<open>The table has no shell path and no command search.\<close>

definition g_runtime_manage_ops :: "manage_env \<Rightarrow> manage_context runtime_manage_ops" where
  "g_runtime_manage_ops env =
     \<lparr>mo_snapshot = Some runtime_management_snapshot, mo_spawnable_snapshot = Some runtime_management_spawnable_snapshot,
      mo_kmem_stats = Some runtime_management_kmem_stats, mo_mailbox_has_message = Some runtime_management_mailbox_has_message,
      mo_mailbox_waiting_senders = Some runtime_management_mailbox_waiting_senders,
      mo_mailbox_waiting_receivers = Some runtime_management_mailbox_waiting_receivers,
      mo_mailbox_send = Some (runtime_management_mailbox_send env), mo_mailbox_receive = Some (runtime_management_mailbox_receive env),
      mo_event_signal = Some runtime_management_event_signal, mo_process_wake = Some runtime_management_process_wake,
      mo_process_kill = Some (runtime_management_process_kill env),
      mo_spawn_named_process = Some (runtime_management_spawn_named_process env), mo_demo_profile = Some runtime_management_demo_profile,
      mo_demo_set_profile = Some runtime_management_demo_set_profile, mo_demo_completed_steps = Some runtime_management_demo_completed_steps,
      mo_demo_total_steps = Some runtime_management_demo_total_steps, mo_shell_path = None, mo_resolve_command_path = None,
      mo_scheduler_mode_name = Some (runtime_management_scheduler_mode_name env),
      mo_runtime_mode_name = Some (runtime_management_runtime_mode_name env),
      mo_preempt_status_name = Some (runtime_management_preempt_status_name env), mo_log = Some runtime_management_log,
      mo_log_u32 = Some runtime_management_log_u32\<rparr>"

definition runtime_management_demo_is_active :: "manage_context \<Rightarrow> bool" where
  "runtime_management_demo_is_active c \<longleftrightarrow> md_demo_profile (g_runtime_management_state c) = RUNTIME_MANAGEMENT_DEMO_PROFILE_SMOKE"

section \<open>The serial line\<close>

text \<open>One character: the echo, the line editor, the status of a command and the prompt.\<close>

definition console_char ::
  "manage_env \<Rightarrow> char \<Rightarrow> runtime_manage_line_state \<times> manage_context \<Rightarrow> (runtime_manage_line_state \<times> manage_context) option" where
  "console_char env ch st =
     (case st of (line, c) \<Rightarrow>
        let c = (if ch = CHR 0x08 \<or> ch = CHR 0x7F then console_write [CHR 0x08, CHR '' '', CHR 0x08] c
                 else if ch = CHR 0x0D then console_write [CHR 0x0A] c
                 else if 32 \<le> (of_char ch :: nat) \<and> (of_char ch :: nat) \<le> 126 then console_write [ch] c else c) in
        case runtime_manage_line_push_char (Some line) ch (Some (g_runtime_manage_ops env)) c (Some RUNTIME_MANAGE_STATUS_OK) of
          Some (line_done, Some line, Some status, c) \<Rightarrow>
            (if line_done = 0 then Some (line, c)
             else let c = (if status \<noteq> RUNTIME_MANAGE_STATUS_OK \<and> status \<noteq> RUNTIME_MANAGE_STATUS_EMPTY
                           then console_log ''MGMT'' (runtime_manage_status_name status) c else c) in
               Some (line, console_write ''mgmt> '' c))
        | _ \<Rightarrow> None)"

text \<open>At most eight characters that wait are handled.\<close>

fun poll_chars :: "nat \<Rightarrow> manage_env \<Rightarrow> runtime_manage_line_state \<times> manage_context \<Rightarrow> (runtime_manage_line_state \<times> manage_context) option" where
  "poll_chars 0 env st = Some st"
| "poll_chars (Suc n) env (line, c) =
     (case mg_uart c of
        [] \<Rightarrow> Some (line, c)
      | ch # rest \<Rightarrow> (case console_char env ch (line, c\<lparr>mg_uart := rest\<rparr>) of None \<Rightarrow> None | Some st \<Rightarrow> poll_chars n env st))"

definition runtime_management_poll_uart_commands ::
  "manage_env \<Rightarrow> runtime_manage_line_state \<times> manage_context \<Rightarrow> (runtime_manage_line_state \<times> manage_context) option" where
  "runtime_management_poll_uart_commands env st = poll_chars 8 env st"


section \<open>From the keyboard to the scheduler\<close>

fun console_chars :: "manage_env \<Rightarrow> string \<Rightarrow> runtime_manage_line_state \<times> manage_context \<Rightarrow> (runtime_manage_line_state \<times> manage_context) option" where
  "console_chars env [] st = Some st"
| "console_chars env (ch # keys) st = (case console_char env ch st of None \<Rightarrow> None | Some st \<Rightarrow> console_chars env keys st)"

lemma console_chars_append:
  "console_chars env (a @ b) st = (case console_chars env a st of None \<Rightarrow> None | Some st \<Rightarrow> console_chars env b st)"
  by (induction a arbitrary: st) (auto split: option.split)

lemma printable_not_control: "printable ch \<Longrightarrow> ch \<noteq> CHR 0x08 \<and> ch \<noteq> CHR 0x7F \<and> ch \<noteq> CHR 0x0D \<and> ch \<noteq> CHR 0x0A"
  by (auto simp: printable_def)

lemma console_char_printable:
  assumes "line_ok l" "printable ch" "length (line_text l) < RUNTIME_MANAGE_LINE_CAPACITY - 1"
  shows "\<exists>l'. console_char env ch (l, c) = Some (l', console_write [ch] c) \<and> line_ok l' \<and> line_text l' = line_text l @ [ch]"
proof -
  have key: "edit_key ch (line_text l) = (Editing, line_text l @ [ch])"
    using assms(2,3) printable_not_control by (simp add: edit_key_def)
  then have "edit_status (Some (g_runtime_manage_ops env)) (console_write [ch] c) (fst (edit_key ch (line_text l))) =
      Some (0, Some RUNTIME_MANAGE_STATUS_EMPTY, console_write [ch] c)"
    by (simp add: edit_status_def)
  from push_char_step [OF assms(1) this, of RUNTIME_MANAGE_STATUS_OK] key show ?thesis
    using assms(2) printable_not_control [OF assms(2)] by (auto simp: console_char_def printable_def)
qed

text \<open>Typing a line shows it and changes nothing else.\<close>

definition echoed :: "string \<Rightarrow> manage_context \<Rightarrow> manage_context" where
  "echoed s c = c\<lparr>mg_console := mg_console c @ map (\<lambda>ch. Echo [ch]) s\<rparr>"

lemma console_types:
  "line_ok l \<Longrightarrow> list_all printable s \<Longrightarrow> length (line_text l) + length s < RUNTIME_MANAGE_LINE_CAPACITY \<Longrightarrow>
   \<exists>l'. console_chars env s (l, c) = Some (l', echoed s c) \<and> line_ok l' \<and> line_text l' = line_text l @ s"
proof (induction s arbitrary: l c)
  case (Cons ch s)
  have "length (line_text l) < RUNTIME_MANAGE_LINE_CAPACITY - 1"
    using Cons.prems(3) by simp
  with Cons.prems obtain l' where l': "console_char env ch (l, c) = Some (l', console_write [ch] c)" "line_ok l'" "line_text l' = line_text l @ [ch]"
    using console_char_printable [of l ch env c] by auto
  with Cons.IH [of l' "console_write [ch] c"] Cons.prems show ?case
    by (auto simp: echoed_def console_write_def)
qed (simp add: echoed_def)

text \<open>The enter key runs the command.\<close>

lemma console_enters:
  assumes "line_ok l" "line_text l \<noteq> []"
    and "runtime_manage_execute (Some (line_text l)) (Some (g_runtime_manage_ops env)) (console_write [CHR 0x0A] c) = Some (RUNTIME_MANAGE_STATUS_OK, c')"
  shows "\<exists>l'. console_char env (CHR 0x0D) (l, c) = Some (l', console_write ''mgmt> '' c') \<and> line_ok l' \<and> line_text l' = []"
proof -
  have key: "edit_key (CHR 0x0D) (line_text l) = (Entered (line_text l), [])"
    by (simp add: edit_key_def)
  then have "edit_status (Some (g_runtime_manage_ops env)) (console_write [CHR 0x0A] c) (fst (edit_key (CHR 0x0D) (line_text l))) =
      Some (1, Some RUNTIME_MANAGE_STATUS_OK, c')"
    using assms(2,3) by (simp add: edit_status_def)
  from push_char_step [OF assms(1) this, of RUNTIME_MANAGE_STATUS_OK] key show ?thesis
    by (auto simp: console_char_def)
qed

lemma length_digits_of: "n < 10 ^ Suc k \<Longrightarrow> length (digits_of 10 n) \<le> Suc k"
proof (induction k arbitrary: n)
  case 0
  then show ?case
    by (simp add: digits_of.simps [of 10 n])
next
  case (Suc k)
  have "n div 10 < 10 ^ Suc k"
    using Suc.prems by (simp add: less_mult_imp_div_less mult.commute)
  from Suc.IH [OF this] show ?case
    by (simp add: digits_of.simps [of 10 n])
qed

lemma command_token: "next_token (''kill '' @ w) = (''kill'', CHR '' '' # w)"
  using next_token_word [of "''kill''" "CHR '' '' # w"] by (simp add: word_char_def ascii_is_space_def)

lemma execute_kill:
  assumes "process_kill (me_yield env) (of_nat n) (- 1) (mg_sched c) = Some (Inr (1, s))"
  shows "runtime_manage_execute (Some (''kill '' @ digits_of 10 n)) (Some (g_runtime_manage_ops env)) c =
    Some (RUNTIME_MANAGE_STATUS_OK, put_sched s c)"
proof -
  have d: "list_all word_char (digits_of 10 n)"
    using digits_of_printable [of 10 n] by (auto simp: list_all_iff)
  then have "NUL \<notin> set (''kill '' @ digits_of 10 n)"
    by (auto simp: list_all_iff word_char_def)
  then have "cstr (''kill '' @ digits_of 10 n) = ''kill '' @ digits_of 10 n"
    by (rule cstr_id)
  moreover have "next_token (CHR '' '' # digits_of 10 n) = (digits_of 10 n, [])"
    using next_token_word [of "digits_of 10 n" "[]"] d by (simp add: next_token_space)
  then have "manage_kill (g_runtime_manage_ops env) (CHR '' '' # digits_of 10 n) c = (RUNTIME_MANAGE_STATUS_OK, put_sched s c)"
    using assms by (simp add: manage_kill_def parse_u32_decimal g_runtime_manage_ops_def token_is_empty_def runtime_management_process_kill_def)
  ultimately show ?thesis
    unfolding runtime_manage_execute_def by (simp only: command_token prod.case option.case Let_def) (simp add: token_is_empty_def token_equals_iff)
qed



definition demo_sched :: scheduler where
  "demo_sched = scheduler_init\<lparr>g_processes := (g_processes scheduler_init)[0 := zero_process\<lparr>ps_pid := 5, ps_state := PROCESS_STATE_BLOCKED\<rparr>]\<rparr>"

definition demo_yield_env :: yield_env where
  "demo_yield_env = \<lparr>env_preemptive = False, env_capable = False, env_tick_pending = False, env_saved_sp = 0\<rparr>"

lemma demo_kill: "case process_kill demo_yield_env 5 (- 1) demo_sched of
    Some (Inr (r, s)) \<Rightarrow> r = 1 \<and> ps_state (g_processes s ! 0) = PROCESS_STATE_ZOMBIE | _ \<Rightarrow> False"
  by code_simp

definition demo_manage_env :: manage_env where
  "demo_manage_env = \<lparr>me_kernel = demo_kernel_env, me_yield = demo_yield_env, me_cooperative = True, me_mailbox_send = (\<lambda>_ _ s. s),
     me_mailbox_receive = (\<lambda>_ s. (0, s))\<rparr>"

definition demo_manage_context :: manage_context where
  "demo_manage_context = \<lparr>g_runtime_management_state = \<lparr>md_mailbox = None, md_event = None, md_mailbox_send_count = 0,
       md_mailbox_receive_count = 0, md_spawn_count = 0, md_demo_profile = 0, md_demo_runtime_logged = 0, md_demo_child_wait_done = 0,
       md_demo_manual_wake_done = 0, md_demo_event_signal_done = 0, md_demo_mailbox_auto_count = 0\<rparr>,
     mg_fs = demo_context\<lparr>fx_sched := demo_sched\<rparr>, mg_sync = ksync_boot, g_mailbox_receiver_pid = 0, mg_uart = [], mg_console = [],
     mg_fault = False, mg_ended = None\<rparr>"


section \<open>What goes wrong\<close>

text \<open>The array of \<open>ps\<close> has eight entries, the process table ten: with more than eight processes the count of foreground
  processes reads behind the array.\<close>

lemma ps_reads_behind_array:
  assumes "process_count (mg_sched c) > 8"
  shows "runtime_manage_execute (Some ''ps'') (Some (g_runtime_manage_ops env)) c = None"
proof -
  obtain b where "process_snapshot (Some (replicate 8 blank_info)) 8 (mg_sched c) = (Some b, process_count (mg_sched c))" "length b = 8"
    using snapshot_fold [of "replicate 8 blank_info" 8 "g_processes (mg_sched c)" 0] assms
    by (simp add: process_snapshot_def process_core_snapshot_def process_count_def)
  then have "runtime_manage_log_snapshot (g_runtime_manage_ops env) c = None"
    using assms by (simp add: runtime_manage_log_snapshot_def g_runtime_manage_ops_def runtime_management_snapshot_def count_role_in_snapshot_def)
  then show ?thesis
    by (simp add: runtime_manage_execute_def next_token_def ascii_is_space_def token_is_empty_def token_equals_iff)
qed

end
