(* ===== verification/Scheduler_Inv.thy ===== *)
theory Scheduler_Inv
  imports Scheduler
begin

text \<open>
  The invariant of the scheduler and its preservation: the ready queue holds the ready processes, and at
  most the running process besides them, in the order of their virtual run time, at most the current process
  is running, and the process ids in the table are different.
\<close>

section \<open>The order of the processes\<close>

interpretation vruntime_order: rq_order "scheduler_vruntime_before vruntime ps" for vruntime ps
proof
  fix x y z
  show "\<not> scheduler_vruntime_before vruntime ps x x" by (simp add: scheduler_vruntime_before_def)
  show "scheduler_vruntime_before vruntime ps x y \<Longrightarrow> scheduler_vruntime_before vruntime ps y z \<Longrightarrow>
      scheduler_vruntime_before vruntime ps x z"
    by (auto simp: scheduler_vruntime_before_def split: if_splits)
  show "x \<noteq> y \<Longrightarrow> scheduler_vruntime_before vruntime ps x y \<or> scheduler_vruntime_before vruntime ps y x"
    by (auto simp: scheduler_vruntime_before_def)
qed

section \<open>Invariants\<close>

definition in_state :: "scheduler \<Rightarrow> nat \<Rightarrow> process_state \<Rightarrow> bool" where
  "in_state s i st \<longleftrightarrow> ps_state (g_processes s ! i) = st"

abbreviation ready :: "scheduler \<Rightarrow> nat \<Rightarrow> bool" where
  "ready s i \<equiv> in_state s i PROCESS_STATE_READY"

definition sched_shape :: "scheduler \<Rightarrow> bool" where
  "sched_shape s \<longleftrightarrow> length (g_processes s) = MAX_PROCESSES \<and> length (g_process_exec s) = MAX_PROCESSES \<and>
     length (g_sched_vruntime s) = MAX_PROCESSES \<and> length (g_sched_exec_start_tick s) = MAX_PROCESSES"

definition queue_sound :: "scheduler \<Rightarrow> bool" where
  "queue_sound s \<longleftrightarrow> (\<exists>xs. rq_inv (precedes_in s) (g_ready s) xs)"

text \<open>
  A process that blocks, is woken by the tick that \<open>process_yield\<close> polls and is picked again runs on without
  leaving the queue. It lingers there, as its first process, until the queue is synchronised again.
\<close>

definition lingers :: "scheduler \<Rightarrow> nat \<Rightarrow> bool" where
  "lingers s i \<longleftrightarrow> g_current_process_index s = Some i \<and> in_state s i PROCESS_STATE_RUNNING \<and> scheduler_pick_next_ready (g_ready s) = Some i"

text \<open>Only ready processes and such a process are queued; all ready processes are queued; both, with no such process (\<open>synced\<close>).\<close>

definition queued_ready :: "scheduler \<Rightarrow> bool" where
  "queued_ready s \<longleftrightarrow> (\<forall>i<MAX_PROCESSES. g_sched_on_rq (g_ready s) i \<longrightarrow> ready s i \<or> lingers s i)"

definition all_queued :: "scheduler \<Rightarrow> bool" where
  "all_queued s \<longleftrightarrow> (\<forall>i<MAX_PROCESSES. ready s i \<longrightarrow> g_sched_on_rq (g_ready s) i)"

definition synced :: "scheduler \<Rightarrow> bool" where
  "synced s \<longleftrightarrow> (\<forall>i<MAX_PROCESSES. g_sched_on_rq (g_ready s) i \<longleftrightarrow> ready s i)"

definition one_running :: "scheduler \<Rightarrow> bool" where
  "one_running s \<longleftrightarrow> (\<forall>i<MAX_PROCESSES. in_state s i PROCESS_STATE_RUNNING \<longrightarrow> g_current_process_index s = Some i) \<and>
     (\<forall>i. g_current_process_index s = Some i \<longrightarrow> i < MAX_PROCESSES \<and> \<not> in_state s i PROCESS_STATE_UNUSED)"

definition pids_ok :: "scheduler \<Rightarrow> bool" where
  "pids_ok s \<longleftrightarrow> (\<forall>i<MAX_PROCESSES. \<not> in_state s i PROCESS_STATE_UNUSED \<longrightarrow>
     ps_pid (g_processes s ! i) \<noteq> 0 \<and>
     (g_next_pid s = 0 \<or> ps_pid (g_processes s ! i) < g_next_pid s) \<and>
     (\<forall>j<MAX_PROCESSES. j \<noteq> i \<longrightarrow> \<not> in_state s j PROCESS_STATE_UNUSED \<longrightarrow>
        ps_pid (g_processes s ! j) \<noteq> ps_pid (g_processes s ! i)))"

definition sched_loose :: "scheduler \<Rightarrow> bool" where
  "sched_loose s \<longleftrightarrow> sched_shape s \<and> queue_sound s \<and> one_running s \<and> pids_ok s"

definition sched_weak :: "scheduler \<Rightarrow> bool" where
  "sched_weak s \<longleftrightarrow> sched_shape s \<and> queue_sound s \<and> queued_ready s \<and> one_running s \<and> pids_ok s"

definition sched_live :: "scheduler \<Rightarrow> bool" where
  "sched_live s \<longleftrightarrow> sched_weak s \<and> all_queued s"

definition sched_inv :: "scheduler \<Rightarrow> bool" where
  "sched_inv s \<longleftrightarrow> sched_shape s \<and> queue_sound s \<and> synced s \<and> one_running s \<and> pids_ok s"

lemma sched_inv_weak: "sched_inv s \<Longrightarrow> sched_weak s"
  by (simp add: sched_inv_def sched_weak_def synced_def queued_ready_def)

lemma sched_inv_live: "sched_inv s \<Longrightarrow> sched_live s"
  by (simp add: sched_live_def sched_inv_weak) (simp add: sched_inv_def synced_def all_queued_def)

lemma sched_inv_all: "sched_inv s \<Longrightarrow> all_queued s"
  by (simp add: sched_inv_def synced_def all_queued_def)

lemma sched_live_weak: "sched_live s \<Longrightarrow> sched_weak s"
  by (simp add: sched_live_def)

lemma queued_used: "sched_weak s \<Longrightarrow> i < MAX_PROCESSES \<Longrightarrow> g_sched_on_rq (g_ready s) i \<Longrightarrow> ready s i \<or> in_state s i PROCESS_STATE_RUNNING"
  by (auto simp: sched_weak_def queued_ready_def lingers_def)

lemma sched_weak_loose: "sched_weak s \<Longrightarrow> sched_loose s"
  by (simp add: sched_loose_def sched_weak_def)

lemma sched_inv_loose: "sched_inv s \<Longrightarrow> sched_loose s"
  by (simp add: sched_loose_def sched_inv_def)

lemma sched_live_loose: "sched_live s \<Longrightarrow> sched_loose s"
  by (simp add: sched_live_weak sched_weak_loose)

section \<open>Synchronising the queue\<close>

lemma rq_inv_cong:
  assumes "rq_inv p q xs" and "\<And>x y. x \<in> set xs \<Longrightarrow> y \<in> set xs \<Longrightarrow> p x y \<Longrightarrow> p' x y"
  shows "rq_inv p' q xs"
  using assms by (auto simp: rq_inv_def intro: sorted_wrt_mono_rel [rotated])

lemma sync_slot_ok:
  assumes "queue_sound s" and "i < MAX_PROCESSES"
  shows "\<exists>q. sync_slot i s = Some (s\<lparr>g_ready := q\<rparr>) \<and> queue_sound (s\<lparr>g_ready := q\<rparr>) \<and>
    g_sched_on_rq q = (g_sched_on_rq (g_ready s))(i := ready s i)"
proof -
  obtain xs where xs: "rq_inv (precedes_in s) (g_ready s) xs" using assms(1) by (auto simp: queue_sound_def)
  have [simp]: "precedes_in (s\<lparr>g_ready := q\<rparr>) = precedes_in s" for q by (simp add: precedes_in_def)
  show ?thesis
    using vruntime_order.insert_ok [OF xs [unfolded precedes_in_def] assms(2)]
      vruntime_order.remove_ok [OF xs [unfolded precedes_in_def] assms(2)]
    unfolding precedes_in_def [symmetric]
    by (cases "ready s i") (auto simp: sync_slot_def in_state_def queue_sound_def)
qed

lemma sync_slots_ok:
  assumes "queue_sound s" and "set is \<subseteq> {..<MAX_PROCESSES}"
  shows "\<exists>q. sync_slots is s = Some (s\<lparr>g_ready := q\<rparr>) \<and> queue_sound (s\<lparr>g_ready := q\<rparr>) \<and>
    (\<forall>i. g_sched_on_rq q i = (if i \<in> set is then ready s i else g_sched_on_rq (g_ready s) i))"
  using assms
proof (induction "is" arbitrary: s)
  case Nil
  then show ?case by (intro exI [of _ "g_ready s"]) simp
next
  case (Cons i "is")
  obtain q where q: "sync_slot i s = Some (s\<lparr>g_ready := q\<rparr>)" "queue_sound (s\<lparr>g_ready := q\<rparr>)"
      "g_sched_on_rq q = (g_sched_on_rq (g_ready s))(i := ready s i)"
    using sync_slot_ok [of s i] Cons.prems by auto
  obtain q' where q': "sync_slots is (s\<lparr>g_ready := q\<rparr>) = Some (s\<lparr>g_ready := q'\<rparr>)"
      "queue_sound (s\<lparr>g_ready := q'\<rparr>)"
      "\<forall>j. g_sched_on_rq q' j = (if j \<in> set is then ready s j else g_sched_on_rq q j)"
    using Cons.IH [OF q(2)] Cons.prems(2) by (auto simp: in_state_def)
  then show ?case using q by (intro exI [of _ q']) auto
qed

lemma sync_ok:
  assumes "queue_sound s"
  shows "\<exists>q. scheduler_sync_ready_queue s = Some (s\<lparr>g_ready := q\<rparr>) \<and> queue_sound (s\<lparr>g_ready := q\<rparr>) \<and>
    synced (s\<lparr>g_ready := q\<rparr>)"
proof -
  have "set [0..<MAX_PROCESSES] \<subseteq> {..<MAX_PROCESSES}" by auto
  from sync_slots_ok [OF assms this] show ?thesis
    by (auto simp: scheduler_sync_ready_queue_def synced_def in_state_def)
qed

lemma g_ready_irrelevant [simp]:
  "sched_shape (s\<lparr>g_ready := q\<rparr>) = sched_shape s" "one_running (s\<lparr>g_ready := q\<rparr>) = one_running s"
  "pids_ok (s\<lparr>g_ready := q\<rparr>) = pids_ok s" "in_state (s\<lparr>g_ready := q\<rparr>) = in_state s"
  "precedes_in (s\<lparr>g_ready := q\<rparr>) = precedes_in s"
  by (auto simp: sched_shape_def one_running_def pids_ok_def in_state_def precedes_in_def fun_eq_iff)

text \<open>The queue stays sound when the keys of the queued processes do not change.\<close>

definition same_keys :: "scheduler \<Rightarrow> scheduler \<Rightarrow> bool" where
  "same_keys s s' \<longleftrightarrow> g_ready s' = g_ready s \<and> (\<forall>i<MAX_PROCESSES. g_sched_on_rq (g_ready s) i \<longrightarrow>
     g_sched_vruntime s' ! i = g_sched_vruntime s ! i \<and> ps_pid (g_processes s' ! i) = ps_pid (g_processes s ! i))"

lemma queue_sound_same_keys:
  assumes "queue_sound s" and "same_keys s s'"
  shows "queue_sound s'"
proof -
  obtain xs where xs: "rq_inv (precedes_in s) (g_ready s) xs" using assms(1) by (auto simp: queue_sound_def)
  then have "set xs = {i. i < MAX_PROCESSES \<and> g_sched_on_rq (g_ready s) i}" by (simp add: rq_inv_def)
  with assms(2) have "rq_inv (precedes_in s') (g_ready s) xs"
    by (intro rq_inv_cong [OF xs]) (auto simp: same_keys_def precedes_in_def scheduler_vruntime_before_def)
  with assms(2) show ?thesis by (auto simp: queue_sound_def same_keys_def)
qed

text \<open>What every operation has to check before it synchronises the queue.\<close>

lemma resync:
  assumes weak: "sched_loose s" and keys: "same_keys s s1"
    and rest: "sched_shape s1" "one_running s1" "pids_ok s1"
  shows "\<exists>q. scheduler_sync_ready_queue s1 = Some (s1\<lparr>g_ready := q\<rparr>) \<and> sched_inv (s1\<lparr>g_ready := q\<rparr>)"
proof -
  have "queue_sound s1" using weak queue_sound_same_keys [OF _ keys] by (simp add: sched_loose_def)
  then obtain q where "scheduler_sync_ready_queue s1 = Some (s1\<lparr>g_ready := q\<rparr>)"
      "queue_sound (s1\<lparr>g_ready := q\<rparr>)" "synced (s1\<lparr>g_ready := q\<rparr>)"
    using sync_ok by blast
  with rest show ?thesis by (intro exI [of _ q]) (simp add: sched_inv_def)
qed

section \<open>The choice of the next process\<close>

lemma pick_first:
  assumes "queue_sound s"
  shows "case scheduler_pick_next_ready (g_ready s) of
      None \<Rightarrow> \<forall>i<MAX_PROCESSES. \<not> g_sched_on_rq (g_ready s) i
    | Some i \<Rightarrow> i < MAX_PROCESSES \<and> g_sched_on_rq (g_ready s) i \<and>
        (\<forall>j<MAX_PROCESSES. g_sched_on_rq (g_ready s) j \<longrightarrow> j \<noteq> i \<longrightarrow> precedes_in s i j)"
proof -
  obtain xs where xs: "rq_inv (precedes_in s) (g_ready s) xs"
    using assms by (auto simp: queue_sound_def)
  have set: "i \<in> set xs \<longleftrightarrow> i < MAX_PROCESSES \<and> g_sched_on_rq (g_ready s) i" for i
    using xs by (auto simp: rq_inv_def)
  show ?thesis
  proof (cases xs)
    case Nil
    then show ?thesis using xs set by (simp add: scheduler_pick_next_ready_def rq_inv_def first_def)
  next
    case (Cons i ys)
    then have "scheduler_pick_next_ready (g_ready s) = Some i" and "\<forall>y\<in>set ys. precedes_in s i y"
      using xs by (auto simp: scheduler_pick_next_ready_def rq_inv_def first_def)
    moreover have "i < MAX_PROCESSES" "g_sched_on_rq (g_ready s) i" using set [of i] Cons by simp_all
    moreover have "j \<in> set ys" if "j < MAX_PROCESSES" "g_sched_on_rq (g_ready s) j" "j \<noteq> i" for j
      using set [of j] Cons that by simp
    ultimately show ?thesis by simp
  qed
qed

lemma pick_live:
  assumes "sched_live s"
  shows "case scheduler_pick_next_ready (g_ready s) of
      None \<Rightarrow> \<forall>i<MAX_PROCESSES. \<not> ready s i
    | Some i \<Rightarrow> i < MAX_PROCESSES \<and> (ready s i \<or> lingers s i) \<and>
        (\<forall>j<MAX_PROCESSES. ready s j \<longrightarrow> j \<noteq> i \<longrightarrow> precedes_in s i j)"
  using pick_first [of s] assms
  by (auto simp: sched_live_def sched_weak_def queued_ready_def all_queued_def split: option.splits)

lemma pick_next_least:
  assumes "sched_inv s"
  shows "case scheduler_pick_next_ready (g_ready s) of
      None \<Rightarrow> \<forall>i<MAX_PROCESSES. \<not> ready s i
    | Some i \<Rightarrow> i < MAX_PROCESSES \<and> ready s i \<and>
        (\<forall>j<MAX_PROCESSES. ready s j \<longrightarrow> j \<noteq> i \<longrightarrow> precedes_in s i j)"
  using pick_first [of s] assms by (auto simp: sched_inv_def synced_def split: option.splits)

section \<open>Operations that change states of processes\<close>

lemma sched_fields_upd [simp]:
  "g_processes (upd_proc i f s) = (g_processes s)[i := f (g_processes s ! i)]"
  "g_process_exec (upd_proc i f s) = g_process_exec s" "g_current_process_index (upd_proc i f s) = g_current_process_index s"
  "g_next_pid (upd_proc i f s) = g_next_pid s" "g_sched_vruntime (upd_proc i f s) = g_sched_vruntime s"
  "g_sched_exec_start_tick (upd_proc i f s) = g_sched_exec_start_tick s" "g_ready (upd_proc i f s) = g_ready s"
  "g_kernel_ticks (upd_proc i f s) = g_kernel_ticks s"
  "g_processes (upd_exec i h s) = g_processes s"
  "g_process_exec (upd_exec i h s) = (g_process_exec s)[i := h (g_process_exec s ! i)]"
  "g_current_process_index (upd_exec i h s) = g_current_process_index s"
  "g_next_pid (upd_exec i h s) = g_next_pid s" "g_sched_vruntime (upd_exec i h s) = g_sched_vruntime s"
  "g_sched_exec_start_tick (upd_exec i h s) = g_sched_exec_start_tick s" "g_ready (upd_exec i h s) = g_ready s"
  "g_processes (upd_preempt k s) = g_processes s" "g_process_exec (upd_preempt k s) = g_process_exec s"
  "g_current_process_index (upd_preempt k s) = g_current_process_index s"
  "g_next_pid (upd_preempt k s) = g_next_pid s" "g_sched_vruntime (upd_preempt k s) = g_sched_vruntime s"
  "g_sched_exec_start_tick (upd_preempt k s) = g_sched_exec_start_tick s" "g_ready (upd_preempt k s) = g_ready s"
  by (simp_all add: upd_proc_def upd_exec_def upd_preempt_def)

text \<open>The slots keep their processes, and no process starts to run.\<close>

definition keeps_slots :: "scheduler \<Rightarrow> scheduler \<Rightarrow> bool" where
  "keeps_slots s s' \<longleftrightarrow> g_ready s' = g_ready s \<and> g_next_pid s' = g_next_pid s \<and>
     g_current_process_index s' = g_current_process_index s \<and> sched_shape s' = sched_shape s \<and>
     g_sched_vruntime s' = g_sched_vruntime s \<and>
     (\<forall>i<MAX_PROCESSES. ps_pid (g_processes s' ! i) = ps_pid (g_processes s ! i) \<and>
        in_state s' i PROCESS_STATE_UNUSED = in_state s i PROCESS_STATE_UNUSED \<and>
        (in_state s' i PROCESS_STATE_RUNNING \<longrightarrow> in_state s i PROCESS_STATE_RUNNING))"

lemma keeps_slots_keys: "keeps_slots s s' \<Longrightarrow> same_keys s s'"
  by (simp add: keeps_slots_def same_keys_def)

lemma keeps_slots_shape: "keeps_slots s s' \<Longrightarrow> sched_shape s \<Longrightarrow> sched_shape s'"
  by (simp add: keeps_slots_def)

lemma one_running_mono:
  assumes "one_running s" and "g_current_process_index s' = g_current_process_index s"
    and "\<And>k. k < MAX_PROCESSES \<Longrightarrow> in_state s' k PROCESS_STATE_RUNNING \<Longrightarrow> in_state s k PROCESS_STATE_RUNNING"
    and "\<And>c. g_current_process_index s = Some c \<Longrightarrow> in_state s' c PROCESS_STATE_UNUSED \<Longrightarrow> in_state s c PROCESS_STATE_UNUSED"
  shows "one_running s'"
  using assms unfolding one_running_def by metis

lemma keeps_slots_running: "keeps_slots s s' \<Longrightarrow> one_running s \<Longrightarrow> one_running s'"
  unfolding keeps_slots_def one_running_def by metis

lemma pids_ok_mono:
  assumes ok: "pids_ok s" and nxt: "g_next_pid s' = g_next_pid s"
    and same: "\<And>j. j < MAX_PROCESSES \<Longrightarrow> \<not> in_state s' j PROCESS_STATE_UNUSED \<Longrightarrow>
      \<not> in_state s j PROCESS_STATE_UNUSED \<and> ps_pid (g_processes s' ! j) = ps_pid (g_processes s ! j)"
  shows "pids_ok s'"
  unfolding pids_ok_def
proof (intro allI impI)
  fix i
  assume i: "i < MAX_PROCESSES" "\<not> in_state s' i PROCESS_STATE_UNUSED"
  have oki: "ps_pid (g_processes s ! i) \<noteq> 0 \<and>
     (g_next_pid s = 0 \<or> ps_pid (g_processes s ! i) < g_next_pid s) \<and>
     (\<forall>j<MAX_PROCESSES. j \<noteq> i \<longrightarrow> \<not> in_state s j PROCESS_STATE_UNUSED \<longrightarrow>
        ps_pid (g_processes s ! j) \<noteq> ps_pid (g_processes s ! i))"
    using ok i same unfolding pids_ok_def by blast
  then show "ps_pid (g_processes s' ! i) \<noteq> 0 \<and>
     (g_next_pid s' = 0 \<or> ps_pid (g_processes s' ! i) < g_next_pid s') \<and>
     (\<forall>j<MAX_PROCESSES. j \<noteq> i \<longrightarrow> \<not> in_state s' j PROCESS_STATE_UNUSED \<longrightarrow>
        ps_pid (g_processes s' ! j) \<noteq> ps_pid (g_processes s' ! i))"
    using same [OF i] same by (simp add: nxt)
qed

lemma keeps_slots_pids: "keeps_slots s s' \<Longrightarrow> pids_ok s \<Longrightarrow> pids_ok s'"
  by (rule pids_ok_mono [of s s']) (simp_all add: keeps_slots_def)

lemma resync_keeps:
  assumes "sched_loose s" and "keeps_slots s s1"
  shows "\<exists>q. scheduler_sync_ready_queue s1 = Some (s1\<lparr>g_ready := q\<rparr>) \<and> sched_inv (s1\<lparr>g_ready := q\<rparr>)"
proof (rule resync [OF assms(1) keeps_slots_keys [OF assms(2)]])
  show "sched_shape s1" "one_running s1" "pids_ok s1"
    using assms(1) keeps_slots_shape [OF assms(2)] keeps_slots_running [OF assms(2)]
      keeps_slots_pids [OF assms(2)] by (simp_all add: sched_loose_def)
qed

lemma keeps_slots_upd_proc:
  assumes "ps_pid (f (g_processes s ! i)) = ps_pid (g_processes s ! i)"
    and "ps_state (f (g_processes s ! i)) = PROCESS_STATE_UNUSED \<longleftrightarrow> ps_state (g_processes s ! i) = PROCESS_STATE_UNUSED"
    and "ps_state (f (g_processes s ! i)) = PROCESS_STATE_RUNNING \<Longrightarrow> ps_state (g_processes s ! i) = PROCESS_STATE_RUNNING"
  shows "keeps_slots s (upd_proc i f s)"
  using assms by (auto simp: keeps_slots_def sched_shape_def in_state_def nth_list_update_if)

lemma keeps_slots_trans: "keeps_slots a b \<Longrightarrow> keeps_slots b c \<Longrightarrow> keeps_slots a c"
  by (auto simp: keeps_slots_def)

lemma keeps_slots_update_where:
  assumes "\<And>p. P p \<Longrightarrow> ps_state p = PROCESS_STATE_BLOCKED" and "sched_shape s"
  shows "keeps_slots s (s\<lparr>g_processes := fst (update_where P process_core_make_ready (g_processes s))\<rparr>)"
  using assms
  by (auto simp: keeps_slots_def sched_shape_def in_state_def update_where_eq process_core_make_ready_def)

lemma wake_blocked:
  "waits_for_child pid p \<Longrightarrow> ps_state p = PROCESS_STATE_BLOCKED"
  "sleeper_due tick p \<Longrightarrow> ps_state p = PROCESS_STATE_BLOCKED"
  "waits_on_channel channel p \<Longrightarrow> ps_state p = PROCESS_STATE_BLOCKED"
  by (auto simp: waits_for_child_def sleeper_due_def waits_on_channel_def)

lemma keeps_slots_wake:
  assumes "sched_shape s"
  shows "keeps_slots s (s\<lparr>g_processes := fst (process_core_wake_waiting_parent (g_processes s) pid)\<rparr>)"
    and "keeps_slots s (s\<lparr>g_processes := fst (process_core_wake_sleepers (g_processes s) tick)\<rparr>)"
    and "keeps_slots s (s\<lparr>g_processes := fst (process_core_wake_channel (g_processes s) channel)\<rparr>)"
  unfolding process_core_wake_waiting_parent_def process_core_wake_sleepers_def process_core_wake_channel_def
  by (intro keeps_slots_update_where assms; rule wake_blocked; assumption)+

lemma keeps_slots_wake_first:
  "sched_shape s \<Longrightarrow>
   keeps_slots s (s\<lparr>g_processes := fst (process_core_wake_first_channel (g_processes s) channel cur)\<rparr>)"
  by (auto simp: keeps_slots_def sched_shape_def in_state_def process_core_wake_first_channel_def
      nth_list_update_if process_core_make_ready_def split: option.split)

lemma keeps_slots_other_fields:
  "keeps_slots s (s\<lparr>g_scheduler_preempt_state := p, g_kernel_ticks := t\<rparr>)"
  by (simp add: keeps_slots_def sched_shape_def in_state_def)

lemma sched_shape_of: "sched_loose s \<Longrightarrow> sched_shape s"
  by (simp add: sched_loose_def)

lemma block_ok:
  assumes "sched_loose s" and "ps_state (g_processes s ! i) \<noteq> PROCESS_STATE_UNUSED"
  shows "\<exists>s'. scheduler_block_process i reason channel wake target s = Some s' \<and> sched_inv s'"
proof -
  have "keeps_slots s (upd_proc i (\<lambda>p. process_core_block p reason channel wake target) s)"
    by (rule keeps_slots_upd_proc) (use assms(2) in \<open>simp_all add: process_core_block_def\<close>)
  from resync_keeps [OF assms(1) this] show ?thesis unfolding scheduler_block_process_def by blast
qed

lemma make_ready_ok:
  assumes "sched_loose s"
  shows "\<exists>s'. scheduler_make_process_ready i s = Some s' \<and> sched_inv s'"
proof -
  have "keeps_slots s (upd_proc i process_core_make_ready s)"
    by (rule keeps_slots_upd_proc) (auto simp: process_core_make_ready_def split: if_splits)
  from resync_keeps [OF assms this] show ?thesis unfolding scheduler_make_process_ready_def by blast
qed

lemma tick_ok:
  assumes "sched_loose s"
  shows "\<exists>s'. process_tick preemptive tick s = Some s' \<and> sched_inv s'"
proof -
  let ?s1 = "s\<lparr>g_processes := fst (process_core_wake_sleepers (g_processes s) tick)\<rparr>"
  let ?s2 = "s\<lparr>g_scheduler_preempt_state := scheduler_preempt_on_timer_tick preemptive (g_scheduler_preempt_state s),
       g_processes := fst (process_core_wake_sleepers (g_processes s) tick)\<rparr>"
  have "keeps_slots ?s1 ?s2" by (simp add: keeps_slots_def sched_shape_def in_state_def)
  then have "keeps_slots s ?s2"
    using keeps_slots_trans keeps_slots_wake(2) [OF sched_shape_of [OF assms]] by blast
  from resync_keeps [OF assms this] show ?thesis unfolding process_tick_def by blast
qed

lemma kill_other_ok:
  assumes "sched_live s" and "ps_state (g_processes s ! i) \<noteq> PROCESS_STATE_UNUSED"
  shows "\<exists>s'. kill_other i pid code s = Some s' \<and> sched_live s'"
proof -
  let ?s1 = "upd_proc i (\<lambda>p. p\<lparr>ps_state := PROCESS_STATE_ZOMBIE, ps_exit_code := code\<rparr>) s"
  let ?s2 = "?s1\<lparr>g_processes := fst (process_core_wake_waiting_parent (g_processes ?s1) pid)\<rparr>"
  have k1: "keeps_slots s ?s1" using assms(2) by (intro keeps_slots_upd_proc) auto
  have "sched_shape ?s1" using keeps_slots_shape [OF k1] sched_shape_of [OF sched_live_loose [OF assms(1)]] by simp
  then have "keeps_slots s ?s2" using keeps_slots_trans [OF k1] keeps_slots_wake(1) by blast
  from resync_keeps [OF sched_live_loose [OF assms(1)] this] assms(1) show ?thesis
    unfolding kill_other_def Let_def by (cases "ps_state (g_processes s ! i)") (auto intro: sched_inv_live)
qed

lemma wake_channel_ok:
  assumes "sched_loose s"
  shows "\<exists>n s'. process_wake_channel channel s = Some (n, s') \<and> sched_inv s'"
    and "\<exists>n s'. process_wake_first_channel channel s = Some (n, s') \<and> sched_inv s'"
proof -
  note shape = sched_shape_of [OF assms]
  show "\<exists>n s'. process_wake_channel channel s = Some (n, s') \<and> sched_inv s'"
    using resync_keeps [OF assms keeps_slots_wake(3) [OF shape, of channel]]
    by (cases "process_core_wake_channel (g_processes s) channel") (auto simp: process_wake_channel_def)
  show "\<exists>n s'. process_wake_first_channel channel s = Some (n, s') \<and> sched_inv s'"
    using resync_keeps [OF assms keeps_slots_wake_first [OF shape, of channel "g_current_process_index s"]]
    by (cases "process_core_wake_first_channel (g_processes s) channel (g_current_process_index s)")
       (auto simp: process_wake_first_channel_def)
qed

section \<open>Creating and freeing slots\<close>

lemma spawn_pids:
  assumes ok: "pids_ok s" and i: "i < MAX_PROCESSES" "length (g_processes s) = MAX_PROCESSES"
      "in_state s i PROCESS_STATE_UNUSED"
    and nz: "g_next_pid s \<noteq> 0" and p: "ps_pid p = g_next_pid s"
    and s': "g_processes s' = (g_processes s)[i := p]" "g_next_pid s' = g_next_pid s + 1"
  shows "pids_ok s'"
proof -
  have old: "ps_pid (g_processes s ! j) \<noteq> 0" "ps_pid (g_processes s ! j) < g_next_pid s"
      "k < MAX_PROCESSES \<Longrightarrow> k \<noteq> j \<Longrightarrow> \<not> in_state s k PROCESS_STATE_UNUSED \<Longrightarrow>
        ps_pid (g_processes s ! k) \<noteq> ps_pid (g_processes s ! j)"
    if "j < MAX_PROCESSES" "\<not> in_state s j PROCESS_STATE_UNUSED" for j k
    using ok that nz by (auto simp: pids_ok_def)
  have nth: "g_processes s' ! j = (if j = i then p else g_processes s ! j)" for j
    using i by (simp add: s' nth_list_update_if eq_commute)
  show ?thesis
    unfolding pids_ok_def
  proof (intro allI impI conjI)
    fix j
    assume j: "j < MAX_PROCESSES" "\<not> in_state s' j PROCESS_STATE_UNUSED"
    have used: "\<not> in_state s j PROCESS_STATE_UNUSED" if "j \<noteq> i" using j that by (simp add: in_state_def nth)
    show "ps_pid (g_processes s' ! j) \<noteq> 0" using old(1) j(1) used nz p by (auto simp: nth)
    show "g_next_pid s' = 0 \<or> ps_pid (g_processes s' ! j) < g_next_pid s'"
      using word_less_Suc [of "ps_pid (g_processes s' ! j)" "g_next_pid s"] old(2) j(1) used p
      by (cases "j = i") (auto simp: nth s'(2) order.strict_implies_order)
    fix k
    assume k: "k < MAX_PROCESSES" "k \<noteq> j" "\<not> in_state s' k PROCESS_STATE_UNUSED"
    have usedk: "\<not> in_state s k PROCESS_STATE_UNUSED" if "k \<noteq> i" using k that by (simp add: in_state_def nth)
    show "ps_pid (g_processes s' ! k) \<noteq> ps_pid (g_processes s' ! j)"
      using old(3) [of j k] old(2) [of j] old(2) [of k] used usedk j(1) k(1,2) p by (auto simp: nth)
  qed
qed

lemma rq_inv_clear:
  assumes "rq_inv p q xs" and "i \<notin> set xs"
  shows "rq_inv p (clear_links i q) xs"
proof -
  obtain t where t: "rep q (g_sched_rq_root q) None t" "inorder t = xs" using assms(1) by (auto simp: rq_inv_def)
  have "i \<notin> set_tree t" using t(2) assms(2) set_inorder [of t] by simp
  then have "rep (clear_links i q) (g_sched_rq_root q) None t"
    using rep_frame [OF t(1)] clear_links_same by blast
  with assms t(2) show ?thesis
    by (auto simp: rq_inv_def root_black_def clear_links_def)
qed

lemma reset_slot_ok:
  assumes inv: "sched_live s" and i: "i < MAX_PROCESSES" "in_state s i PROCESS_STATE_ZOMBIE"
    and cur: "g_current_process_index s \<noteq> Some i"
  shows "\<exists>s'. scheduler_reset_process_slot i s = Some s' \<and> sched_live s' \<and> in_state s' i PROCESS_STATE_UNUSED"
proof -
  note weak = sched_live_weak [OF inv, unfolded sched_weak_def]
  obtain xs where xs: "rq_inv (precedes_in s) (g_ready s) xs" using weak by (auto simp: queue_sound_def)
  have off: "i \<notin> set xs" "\<not> g_sched_on_rq (g_ready s) i"
    using queued_used [OF sched_live_weak [OF inv] i(1)] i(2) xs by (auto simp: rq_inv_def in_state_def)
  have rem: "scheduler_ready_queue_remove i (g_ready s) = Some (g_ready s)"
    using off(2) i by (simp add: scheduler_ready_queue_remove_def)
  have len: "length (g_processes s) = MAX_PROCESSES" "length (g_sched_vruntime s) = MAX_PROCESSES"
    using weak by (auto simp: sched_shape_def)
  define s' where "s' = (upd_exec i (\<lambda>_. \<lparr>ex_entry = None, ex_stack_pointer = 0\<rparr>)
      (upd_proc i process_core_reset_slot s))\<lparr>g_sched_vruntime := (g_sched_vruntime s)[i := 0],
        g_sched_exec_start_tick := (g_sched_exec_start_tick s)[i := 0], g_ready := clear_links i (g_ready s)\<rparr>"
  have run: "scheduler_reset_process_slot i s = Some s'"
    by (simp add: scheduler_reset_process_slot_def rem Let_def s'_def upd_proc_def upd_exec_def)
  have f: "g_processes s' = (g_processes s)[i := process_core_reset_slot (g_processes s ! i)]"
      "g_sched_vruntime s' = (g_sched_vruntime s)[i := 0]" "g_ready s' = clear_links i (g_ready s)"
      "g_current_process_index s' = g_current_process_index s" "g_next_pid s' = g_next_pid s"
    by (simp_all add: s'_def)
  have st: "in_state s' k st \<longleftrightarrow> (if k = i then st = PROCESS_STATE_UNUSED else in_state s k st)" for k st
    using i len by (auto simp: in_state_def f nth_list_update_if process_core_reset_slot_def)
  have prec: "precedes_in s' x y = precedes_in s x y" if "x \<noteq> i" "y \<noteq> i" for x y
    using that by (simp add: precedes_in_def f scheduler_vruntime_before_def)
  have "rq_inv (precedes_in s') (clear_links i (g_ready s)) xs"
  proof (rule rq_inv_cong [OF rq_inv_clear [OF xs off(1)]])
    fix x y
    assume "x \<in> set xs" "y \<in> set xs" "precedes_in s x y"
    then show "precedes_in s' x y" using off(1) prec [of x y] by (cases "x = i"; cases "y = i") auto
  qed
  then have "queue_sound s'" by (auto simp: queue_sound_def f)
  moreover have "scheduler_pick_next_ready (g_ready s') = scheduler_pick_next_ready (g_ready s)"
    by (simp add: f clear_links_def scheduler_pick_next_ready_def)
  then have "queued_ready s'" "all_queued s'"
    using inv off(2) cur unfolding sched_live_def sched_weak_def queued_ready_def all_queued_def lingers_def st f by simp_all
  moreover have "one_running s'"
  proof -
    have "one_running s" using weak by simp
    moreover have "in_state s k PROCESS_STATE_RUNNING" if "in_state s' k PROCESS_STATE_RUNNING" for k
      using that st [of k PROCESS_STATE_RUNNING] by (simp split: if_splits)
    moreover have "in_state s k PROCESS_STATE_UNUSED" if "in_state s' k PROCESS_STATE_UNUSED"
        "g_current_process_index s = Some k" for k
      using that cur st [of k PROCESS_STATE_UNUSED] by (simp split: if_splits)
    ultimately show ?thesis using one_running_mono [of s s'] f(4) by blast
  qed
  moreover have "pids_ok s'"
    by (rule pids_ok_mono [of s]) (use weak in \<open>auto simp: st f nth_list_update_if split: if_splits\<close>)
  moreover have "sched_shape s'" using weak by (simp add: sched_shape_def s'_def)
  ultimately show ?thesis using run st [of i PROCESS_STATE_UNUSED] by (simp add: sched_live_def sched_weak_def)
qed

lemma spawn_ok:
  assumes inv: "sched_live s"
  shows "\<exists>pid s'. process_spawn_with_role sf stacks name entry role s = Some (pid, s') \<and> sched_live s' \<and> (sched_inv s \<longrightarrow> sched_inv s')"
proof (cases "\<exists>i. process_core_find_free_slot (g_processes s) = Some i \<and> entry \<noteq> None \<and> g_next_pid s \<noteq> 0 \<and>
    runtime_policy_can_spawn sf (g_processes s) role")
  case False
  then show ?thesis using inv by (auto simp: process_spawn_with_role_def split: option.splits)
next
  case True
  then obtain i where i: "process_core_find_free_slot (g_processes s) = Some i" "entry \<noteq> None" "g_next_pid s \<noteq> 0"
      "runtime_policy_can_spawn sf (g_processes s) role"
    by blast
  have len: "length (g_processes s) = MAX_PROCESSES" "length (g_sched_vruntime s) = MAX_PROCESSES"
    using inv by (auto simp: sched_live_def sched_weak_def sched_shape_def)
  have free: "i < MAX_PROCESSES" "in_state s i PROCESS_STATE_UNUSED"
    using i(1) len by (auto simp: process_core_find_free_slot_def first_index_Some in_state_def)
  have off: "\<not> g_sched_on_rq (g_ready s) i"
    using queued_used [OF sched_live_weak [OF inv] free(1)] free(2) by (auto simp: in_state_def)
  define p where "p = \<lparr>ps_pid = g_next_pid s, ps_parent_pid = process_current_pid s,
      ps_name = Some (case name of None \<Rightarrow> ''PROC'' | Some n \<Rightarrow> n), ps_role = role,
      ps_state = PROCESS_STATE_READY, ps_exit_code = 0, ps_switch_count = 0, ps_yield_count = 0,
      ps_wake_tick = 0, ps_wait_target_pid = 0, ps_wait_reason = PROCESS_WAIT_NONE, ps_wait_channel = 0\<rparr>"
  define s1 where "s1 = upd_exec i (\<lambda>e. e\<lparr>ex_entry := entry\<rparr>) (upd_proc i (\<lambda>_. p) (s\<lparr>g_next_pid := g_next_pid s + 1\<rparr>))"
  define s2 where "s2 = scheduler_prepare_initial_context stacks i
      (s1\<lparr>g_sched_vruntime := (g_sched_vruntime s1)[i := scheduler_min_vruntime s1],
          g_sched_exec_start_tick := (g_sched_exec_start_tick s1)[i := 0]\<rparr>)"
  have run: "process_spawn_with_role sf stacks name entry role s =
      map_option (\<lambda>s. (g_next_pid s1 - 1, s)) (scheduler_sync_ready_queue s2)"
    using i by (cases entry) (simp_all add: process_spawn_with_role_def Let_def s2_def s1_def p_def)
  have f: "g_processes s2 = (g_processes s)[i := p]" "g_ready s2 = g_ready s" "g_next_pid s2 = g_next_pid s + 1"
      "g_sched_vruntime s2 = (g_sched_vruntime s)[i := scheduler_min_vruntime s1]"
      "g_current_process_index s2 = g_current_process_index s"
    by (simp_all add: s2_def s1_def scheduler_prepare_initial_context_def)
  have keys: "same_keys s s2" using off by (auto simp: same_keys_def f nth_list_update_if)
  have shape: "sched_shape s2"
    using inv by (simp add: sched_live_def sched_weak_def sched_shape_def s2_def s1_def scheduler_prepare_initial_context_def)
  have "in_state s k PROCESS_STATE_RUNNING" if "in_state s2 k PROCESS_STATE_RUNNING" for k
    using that free len by (auto simp: in_state_def f nth_list_update_if p_def split: if_splits)
  moreover have "in_state s k PROCESS_STATE_UNUSED" if "in_state s2 k PROCESS_STATE_UNUSED" for k
    using that free len by (auto simp: in_state_def f nth_list_update_if p_def split: if_splits)
  ultimately have "one_running s2" using one_running_mono [of s s2] inv f(5) unfolding sched_live_def sched_weak_def by blast
  moreover have "pids_ok s2"
    by (rule spawn_pids [of s i p]) (use inv free len i f in \<open>auto simp: sched_live_def sched_weak_def p_def\<close>)
  ultimately obtain q where "scheduler_sync_ready_queue s2 = Some (s2\<lparr>g_ready := q\<rparr>)" "sched_inv (s2\<lparr>g_ready := q\<rparr>)"
    using resync [OF sched_live_loose [OF inv] keys shape] by blast
  with run show ?thesis by (auto intro: sched_inv_live)
qed

section \<open>Switching\<close>

lemma exec_irrelevant [simp]:
  "sched_shape (upd_exec i f s) = sched_shape s" "one_running (upd_exec i f s) = one_running s"
  "pids_ok (upd_exec i f s) = pids_ok s" "in_state (upd_exec i f s) = in_state s"
  "queue_sound (upd_exec i f s) = queue_sound s" "synced (upd_exec i f s) = synced s"
  unfolding sched_shape_def one_running_def pids_ok_def in_state_def queue_sound_def synced_def precedes_in_def
  by (simp_all add: fun_eq_iff)

lemma preempt_irrelevant [simp]:
  "sched_shape (upd_preempt f s) = sched_shape s" "one_running (upd_preempt f s) = one_running s"
  "pids_ok (upd_preempt f s) = pids_ok s" "in_state (upd_preempt f s) = in_state s"
  "queue_sound (upd_preempt f s) = queue_sound s" "synced (upd_preempt f s) = synced s"
  "queued_ready (upd_preempt f s) = queued_ready s" "all_queued (upd_preempt f s) = all_queued s"
  "lingers (upd_preempt f s) = lingers s" "precedes_in (upd_preempt f s) = precedes_in s"
  unfolding sched_shape_def one_running_def pids_ok_def in_state_def queue_sound_def synced_def precedes_in_def
    queued_ready_def all_queued_def lingers_def
  by (simp_all add: fun_eq_iff)

lemma account_fields:
  "g_processes (scheduler_account_runtime i s) = g_processes s"
  "g_ready (scheduler_account_runtime i s) = g_ready s"
  "g_next_pid (scheduler_account_runtime i s) = g_next_pid s"
  "g_current_process_index (scheduler_account_runtime i s) = g_current_process_index s"
  "sched_shape (scheduler_account_runtime i s) = sched_shape s"
  "j \<noteq> i \<or> \<not> in_state s i PROCESS_STATE_RUNNING \<Longrightarrow>
     g_sched_vruntime (scheduler_account_runtime i s) ! j = g_sched_vruntime s ! j"
  by (auto simp: scheduler_account_runtime_def Let_def sched_shape_def in_state_def nth_list_update_if)

lemma one_running_switch:
  assumes "one_running s" and "n < MAX_PROCESSES" "in_state s' n PROCESS_STATE_RUNNING" and "g_current_process_index s' = Some n"
    and "\<And>j. j < MAX_PROCESSES \<Longrightarrow> in_state s' j PROCESS_STATE_RUNNING \<Longrightarrow>
      j = n \<or> j \<noteq> c \<and> in_state s j PROCESS_STATE_RUNNING" and "g_current_process_index s = Some c"
  shows "one_running s'"
  using assms unfolding one_running_def in_state_def by (metis option.inject process_state.distinct(3))

lemma switch_ok:
  assumes weak: "sched_weak s" and c: "g_current_process_index s = Some c" "\<not> in_state s c PROCESS_STATE_UNUSED"
    and n: "n < MAX_PROCESSES" "n \<noteq> c" "ready s n" and pick: "scheduler_pick_next_ready (g_ready s) = Some n"
  shows "\<exists>s'. scheduler_switch_process sp c n s = Some s' \<and> sched_inv s' \<and>
    g_current_process_index s' = Some n \<and> in_state s' n PROCESS_STATE_RUNNING \<and>
    (in_state s c PROCESS_STATE_RUNNING \<longrightarrow> ready s' c)"
proof -
  have cb: "c < MAX_PROCESSES" using weak c by (simp add: sched_weak_def one_running_def)
  have len: "length (g_processes s) = MAX_PROCESSES" using weak by (simp add: sched_weak_def sched_shape_def)
  define s1 where "s1 = scheduler_account_runtime c s"
  define s2 where "s2 = (if ps_state (g_processes s1 ! c) = PROCESS_STATE_RUNNING
      then upd_proc c (\<lambda>p. p\<lparr>ps_state := PROCESS_STATE_READY\<rparr>) s1 else s1)"
  define s3 where "s3 = upd_proc n (\<lambda>p. p\<lparr>ps_state := PROCESS_STATE_RUNNING, ps_switch_count := ps_switch_count p + 1\<rparr>) s2"
  define s4 where "s4 = s3\<lparr>g_current_process_index := Some n,
      g_sched_exec_start_tick := (g_sched_exec_start_tick s3)[n := g_kernel_ticks s3]\<rparr>"
  have run: "scheduler_switch_process sp c n s =
      map_option (upd_exec c (\<lambda>e. e\<lparr>ex_stack_pointer := sp\<rparr>)) (scheduler_sync_ready_queue s4)"
    by (simp add: scheduler_switch_process_def Let_def s4_def s3_def s2_def s1_def)
  have f: "g_ready s4 = g_ready s" "g_next_pid s4 = g_next_pid s" "g_current_process_index s4 = Some n"
      "g_sched_vruntime s4 = g_sched_vruntime s1"
    by (simp_all add: s4_def s3_def s2_def s1_def account_fields)
  have p4: "ps_pid (g_processes s4 ! j) = ps_pid (g_processes s ! j)"
      "in_state s4 j st \<longleftrightarrow> (if j = n then st = PROCESS_STATE_RUNNING
         else if j = c \<and> in_state s c PROCESS_STATE_RUNNING then st = PROCESS_STATE_READY else in_state s j st)" for j st
    using len n(1,2) cb
    by (auto simp: s4_def s3_def s2_def s1_def account_fields in_state_def nth_list_update_if)
  have "same_keys s s4"
    unfolding same_keys_def f p4
  proof (intro conjI allI impI refl)
    fix j
    assume "j < MAX_PROCESSES" "g_sched_on_rq (g_ready s) j"
    then have "ready s j" using weak pick n(2) c(1) by (auto simp: sched_weak_def queued_ready_def lingers_def)
    then have "j \<noteq> c \<or> \<not> in_state s c PROCESS_STATE_RUNNING" by (auto simp: in_state_def)
    then show "g_sched_vruntime s1 ! j = g_sched_vruntime s ! j" unfolding s1_def by (rule account_fields(6))
  qed
  moreover have "sched_shape s4"
    using weak by (simp add: sched_weak_def sched_shape_def s4_def s3_def s2_def s1_def scheduler_account_runtime_def Let_def)
  moreover have "one_running s4"
    by (rule one_running_switch [of s n _ c])
       (use weak n c f p4 in \<open>auto simp: sched_weak_def split: if_splits\<close>)
  moreover have "pids_ok s4"
    by (rule pids_ok_mono [of s])
       (use weak c(2) n(3) f p4 in \<open>auto simp: sched_weak_def in_state_def split: if_splits\<close>)
  ultimately obtain q where q: "scheduler_sync_ready_queue s4 = Some (s4\<lparr>g_ready := q\<rparr>)"
      "sched_inv (s4\<lparr>g_ready := q\<rparr>)"
    using resync [OF sched_weak_loose [OF weak]] by blast
  let ?s5 = "upd_exec c (\<lambda>e. e\<lparr>ex_stack_pointer := sp\<rparr>) (s4\<lparr>g_ready := q\<rparr>)"
  have "sched_inv ?s5"
    using q(2) unfolding sched_inv_def exec_irrelevant .
  moreover have "g_current_process_index ?s5 = Some n" "in_state ?s5 n PROCESS_STATE_RUNNING"
      "in_state s c PROCESS_STATE_RUNNING \<longrightarrow> ready ?s5 c"
    using f(3) p4(2) [of n PROCESS_STATE_RUNNING] p4(2) [of c PROCESS_STATE_READY] n(2)
    by (simp_all add: in_state_def)
  ultimately show ?thesis using run q(1) by simp
qed

lemma weak_keeps:
  assumes "sched_weak s" and "keeps_slots s s'"
    and "\<And>i. i < MAX_PROCESSES \<Longrightarrow> ready s i \<Longrightarrow> ready s' i"
    and "\<And>i. i < MAX_PROCESSES \<Longrightarrow> lingers s i \<Longrightarrow> in_state s' i PROCESS_STATE_RUNNING"
  shows "sched_weak s'"
proof -
  have "queue_sound s'"
    using assms(1) queue_sound_same_keys [OF _ keeps_slots_keys [OF assms(2)]] by (simp add: sched_weak_def)
  moreover have "lingers s' i" if "i < MAX_PROCESSES" "lingers s i" for i
    using assms(2,4) that by (simp add: lingers_def keeps_slots_def)
  then have "queued_ready s'"
    using assms(1-3) unfolding sched_weak_def queued_ready_def keeps_slots_def by metis
  ultimately show ?thesis
    using assms(1) keeps_slots_shape [OF assms(2)] keeps_slots_running [OF assms(2)] keeps_slots_pids [OF assms(2)]
    by (simp add: sched_weak_def)
qed

text \<open>A poll with a tick pending synchronises the queue, whatever is in it.\<close>

lemma systimer_tick_ok:
  assumes "sched_loose s"
  shows "\<exists>s'. systimer_tick preemptive s = Some s' \<and> sched_inv s'"
proof -
  let ?t = "s\<lparr>g_kernel_ticks := g_kernel_ticks s + 1\<rparr>"
  have k: "keeps_slots s ?t" by (simp add: keeps_slots_def sched_shape_def in_state_def)
  have "sched_loose ?t"
    using assms queue_sound_same_keys [OF _ keeps_slots_keys [OF k]] keeps_slots_shape [OF k]
      keeps_slots_running [OF k] keeps_slots_pids [OF k] by (simp add: sched_loose_def)
  from tick_ok [OF this] show ?thesis by (simp add: systimer_tick_def)
qed

lemma poll_ok:
  assumes "sched_weak s \<or> sched_loose s \<and> pending"
  shows "\<exists>p. runtime_poll_timer_delivery preemptive pending s = Some p \<and> sched_weak p \<and>
    (sched_inv s \<longrightarrow> sched_inv p) \<and> (all_queued s \<longrightarrow> all_queued p) \<and> (pending \<longrightarrow> sched_inv p)"
proof (cases pending)
  case False
  then show ?thesis using assms by (simp add: runtime_poll_timer_delivery_def)
next
  case True
  have "sched_loose s" using assms sched_weak_loose by blast
  then obtain p where p: "systimer_tick preemptive s = Some p" "sched_inv p"
    using systimer_tick_ok by blast
  with True sched_inv_weak sched_inv_live [OF p(2)] show ?thesis
    by (auto simp: runtime_poll_timer_delivery_def sched_live_def)
qed

lemma sync_only_queue:
  assumes "sync_slots xs t = Some t'"
  shows "\<exists>q. t' = t\<lparr>g_ready := q\<rparr>"
  using assms
proof (induction xs t rule: sync_slots.induct)
  case (1 t)
  then show ?case by (intro exI [of _ "g_ready t"]) simp
next
  case (2 x xs t)
  then obtain t1 where t1: "sync_slot x t = Some t1" "sync_slots xs t1 = Some t'" by (auto simp: bind_eq_Some_conv)
  then obtain q1 where "t1 = t\<lparr>g_ready := q1\<rparr>" by (auto simp: sync_slot_def)
  moreover obtain q2 where "t' = t1\<lparr>g_ready := q2\<rparr>" using 2(1) [OF t1] by blast
  ultimately show ?case by auto
qed

lemma tick_same_slots:
  assumes "process_tick preemptive tick s = Some p"
  shows "g_current_process_index p = g_current_process_index s"
    and "sched_shape s \<Longrightarrow> i < MAX_PROCESSES \<Longrightarrow> in_state p i PROCESS_STATE_UNUSED = in_state s i PROCESS_STATE_UNUSED"
    and "sched_shape s \<Longrightarrow> i < MAX_PROCESSES \<Longrightarrow> in_state s i PROCESS_STATE_RUNNING \<Longrightarrow> in_state p i PROCESS_STATE_RUNNING"
proof -
  obtain q where p: "p = s\<lparr>
       g_scheduler_preempt_state := scheduler_preempt_on_timer_tick preemptive (g_scheduler_preempt_state s),
       g_processes := fst (process_core_wake_sleepers (g_processes s) tick), g_ready := q\<rparr>"
    using sync_only_queue [OF assms [unfolded process_tick_def scheduler_sync_ready_queue_def]] by blast
  show "g_current_process_index p = g_current_process_index s" by (simp add: p)
  assume i: "sched_shape s" "i < MAX_PROCESSES"
  then show "in_state p i PROCESS_STATE_UNUSED = in_state s i PROCESS_STATE_UNUSED"
    using keeps_slots_wake(2) [of s tick] by (auto simp: keeps_slots_def in_state_def p)
  assume "in_state s i PROCESS_STATE_RUNNING"
  then show "in_state p i PROCESS_STATE_RUNNING"
    using i by (simp add: p in_state_def process_core_wake_sleepers_def update_where_eq sched_shape_def
        process_core_make_ready_def)
qed

lemma poll_same_slots:
  assumes "runtime_poll_timer_delivery preemptive pending s = Some p" and "sched_shape s"
  shows "g_current_process_index p = g_current_process_index s"
    and "i < MAX_PROCESSES \<Longrightarrow> in_state p i PROCESS_STATE_UNUSED = in_state s i PROCESS_STATE_UNUSED"
    and "i < MAX_PROCESSES \<Longrightarrow> in_state s i PROCESS_STATE_RUNNING \<Longrightarrow> in_state p i PROCESS_STATE_RUNNING"
proof -
  let ?t = "s\<lparr>g_kernel_ticks := g_kernel_ticks s + 1\<rparr>"
  have t: "in_state ?t = in_state s" "sched_shape ?t" "g_current_process_index ?t = g_current_process_index s"
    using assms(2) by (simp_all add: in_state_def sched_shape_def fun_eq_iff)
  consider "\<not> pending" "p = s" | "process_tick preemptive (g_kernel_ticks s + 1) ?t = Some p"
    using assms(1) unfolding runtime_poll_timer_delivery_def systimer_tick_def by (cases pending) simp_all
  then have "g_current_process_index p = g_current_process_index s \<and> (i < MAX_PROCESSES \<longrightarrow>
      in_state p i PROCESS_STATE_UNUSED = in_state s i PROCESS_STATE_UNUSED \<and>
      (in_state s i PROCESS_STATE_RUNNING \<longrightarrow> in_state p i PROCESS_STATE_RUNNING))"
  proof cases
    case 2
    show ?thesis using tick_same_slots [OF 2] t by metis
  qed simp
  then show "g_current_process_index p = g_current_process_index s"
    "i < MAX_PROCESSES \<Longrightarrow> in_state p i PROCESS_STATE_UNUSED = in_state s i PROCESS_STATE_UNUSED"
    "i < MAX_PROCESSES \<Longrightarrow> in_state s i PROCESS_STATE_RUNNING \<Longrightarrow> in_state p i PROCESS_STATE_RUNNING"
    by blast+
qed

text \<open>The state in which \<open>process_yield\<close> looks at the queue: after the poll for a timer tick.\<close>

definition yield_polled :: "yield_env \<Rightarrow> nat \<Rightarrow> scheduler \<Rightarrow> scheduler option" where
  "yield_polled env c s =
     map_option (\<lambda>s'. upd_preempt (\<lambda>p. snd (scheduler_maybe_preempt_at_safe_point (env_preemptive env) (env_capable env) p))
         (if scheduler_current_process s \<noteq> None
          then upd_proc c (\<lambda>p. p\<lparr>ps_yield_count := ps_yield_count p + 1\<rparr>) s' else s'))
       (runtime_poll_timer_delivery (env_preemptive env) (env_tick_pending env) (upd_preempt preempt_disable s))"

lemma yield_polled_ok:
  assumes weak: "sched_weak s \<or> sched_loose s \<and> env_tick_pending env" and c: "g_current_process_index s = Some c"
  shows "\<exists>p. yield_polled env c s = Some p \<and> sched_weak p \<and> (sched_inv s \<longrightarrow> sched_inv p) \<and> (all_queued s \<longrightarrow> all_queued p) \<and>
    (env_tick_pending env \<longrightarrow> sched_inv p) \<and>
    g_current_process_index p = Some c \<and> (in_state p c PROCESS_STATE_UNUSED = in_state s c PROCESS_STATE_UNUSED)"
proof -
  let ?s1 = "upd_preempt preempt_disable s"
  have loose: "sched_loose s" using weak sched_weak_loose by blast
  have w1: "sched_weak ?s1 \<or> sched_loose ?s1 \<and> env_tick_pending env" using weak by (simp add: sched_weak_def sched_loose_def)
  obtain s2 where s2: "runtime_poll_timer_delivery (env_preemptive env) (env_tick_pending env) ?s1 = Some s2"
      "sched_weak s2" "sched_inv ?s1 \<longrightarrow> sched_inv s2" "all_queued ?s1 \<longrightarrow> all_queued s2" "env_tick_pending env \<longrightarrow> sched_inv s2"
    using poll_ok [OF w1] by blast
  have cb: "c < MAX_PROCESSES" and sh: "sched_shape ?s1" using loose c by (simp_all add: sched_loose_def one_running_def)
  note same = poll_same_slots [OF s2(1) sh]
  define s3 where "s3 = (if scheduler_current_process s \<noteq> None
      then upd_proc c (\<lambda>p. p\<lparr>ps_yield_count := ps_yield_count p + 1\<rparr>) s2 else s2)"
  have k: "keeps_slots s2 s3" and st: "in_state s3 = in_state s2"
    by (auto simp: s3_def keeps_slots_def sched_shape_def in_state_def nth_list_update_if fun_eq_iff)
  have "sched_weak s3" by (rule weak_keeps [OF s2(2) k]) (simp_all add: st lingers_def)
  moreover have inv3: "sched_inv s3" if "sched_inv s2"
    using that \<open>sched_weak s3\<close> k st by (simp add: sched_inv_def sched_weak_def synced_def keeps_slots_def)
  moreover have "all_queued s3" if "all_queued s2"
    using that k st by (simp add: all_queued_def keeps_slots_def)
  moreover have "sched_inv ?s1 = sched_inv s" by (simp add: sched_inv_def)
  moreover have "sched_inv (upd_preempt f t) = sched_inv t" "sched_weak (upd_preempt f t) = sched_weak t" for f t
    by (simp_all add: sched_inv_def sched_weak_def)
  moreover have "g_current_process_index s3 = Some c" using same(1) c by (simp add: s3_def)
  moreover have "in_state s3 c PROCESS_STATE_UNUSED = in_state s c PROCESS_STATE_UNUSED"
    using same(2) [OF cb] st by simp
  moreover have "yield_polled env c s = Some (upd_preempt (\<lambda>p. snd (scheduler_maybe_preempt_at_safe_point
      (env_preemptive env) (env_capable env) p)) s3)"
    unfolding yield_polled_def s3_def s2(1) by simp
  ultimately show ?thesis using s2(3-5) by simp
qed

lemma yield_polled_running:
  assumes "yield_polled env c s = Some p" and "sched_shape s" and "c < MAX_PROCESSES"
    and "in_state s c PROCESS_STATE_RUNNING"
  shows "in_state p c PROCESS_STATE_RUNNING"
proof -
  obtain s2 where s2: "runtime_poll_timer_delivery (env_preemptive env) (env_tick_pending env)
      (upd_preempt preempt_disable s) = Some s2"
    and p: "ps_state (g_processes p ! c) = ps_state (g_processes s2 ! c)"
    using assms(1) by (auto simp: yield_polled_def nth_list_update_if split: if_splits)
  have "in_state s2 c PROCESS_STATE_RUNNING"
    by (rule poll_same_slots(3) [OF s2]) (use assms in simp_all)
  then show ?thesis by (simp add: in_state_def p)
qed

lemma yield_unfold:
  assumes "g_current_process_index s = Some c" and "yield_polled env c s = Some p"
  shows "process_yield env s =
    (case scheduler_pick_next_ready (g_ready p) of
       None \<Rightarrow>
         (if scheduler_current_process s \<noteq> None \<and> in_state p c PROCESS_STATE_RUNNING
          then Some (Returns (upd_preempt (preempt_enable (env_preemptive env) (env_capable env)) p))
          else if process_core_count_blocked_sleepers (g_processes p) \<noteq> 0 then Some (Idle p) else Some Panic)
     | Some n \<Rightarrow> yield_to env c n p)"
proof -
  obtain s' where "runtime_poll_timer_delivery (env_preemptive env) (env_tick_pending env) (upd_preempt preempt_disable s) = Some s'"
      and p: "p = upd_preempt (\<lambda>p. snd (scheduler_maybe_preempt_at_safe_point (env_preemptive env) (env_capable env) p))
         (if scheduler_current_process s \<noteq> None
          then upd_proc c (\<lambda>p. p\<lparr>ps_yield_count := ps_yield_count p + 1\<rparr>) s' else s')"
    using assms(2) by (auto simp: yield_polled_def)
  then show ?thesis
    using assms(1) unfolding process_yield_def in_state_def Let_def
    by (simp cong: option.case_cong)
qed

lemma pick_queued:
  assumes "sched_weak s" and "scheduler_pick_next_ready (g_ready s) = Some n"
  shows "n < MAX_PROCESSES" and "ready s n \<or> lingers s n" and "g_current_process_index s \<noteq> Some n \<Longrightarrow> ready s n"
  using pick_first [of s] assms by (auto simp: sched_weak_def queued_ready_def lingers_def)

lemma pick_ready: "sched_inv s \<Longrightarrow> scheduler_pick_next_ready (g_ready s) = Some n \<Longrightarrow> n < MAX_PROCESSES \<and> ready s n"
  using pick_next_least [of s] by simp

lemma current_used:
  "one_running s \<Longrightarrow> g_current_process_index s = Some c \<Longrightarrow> scheduler_current_process s = Some c"
  by (auto simp: one_running_def scheduler_current_process_def in_state_def)

lemma running_again:
  assumes "sched_weak p" and "g_current_process_index p = Some c" and pick: "scheduler_pick_next_ready (g_ready p) = Some c"
  shows "sched_weak (upd_proc c (\<lambda>x. x\<lparr>ps_state := PROCESS_STATE_RUNNING\<rparr>) p)" (is "sched_weak ?p")
    and "all_queued p \<Longrightarrow> all_queued (upd_proc c (\<lambda>x. x\<lparr>ps_state := PROCESS_STATE_RUNNING\<rparr>) p)"
proof -
  have c: "c < MAX_PROCESSES" "\<not> in_state p c PROCESS_STATE_UNUSED" "c < length (g_processes p)"
    using assms by (auto simp: sched_weak_def one_running_def sched_shape_def)
  have st: "in_state ?p k st \<longleftrightarrow> (if k = c then st = PROCESS_STATE_RUNNING else in_state p k st)" for k st
    using c(3) by (auto simp: in_state_def nth_list_update_if)
  have "same_keys p ?p" by (simp add: same_keys_def nth_list_update_if)
  then have "queue_sound ?p" using assms(1) queue_sound_same_keys by (auto simp: sched_weak_def)
  moreover have "one_running ?p"
    by (rule one_running_switch [of p c _ c])
       (use assms c in \<open>simp_all add: sched_weak_def st split: if_splits\<close>)
  moreover have "pids_ok ?p"
    by (rule pids_ok_mono [of p]) (use assms(1) c st in \<open>auto simp: sched_weak_def nth_list_update_if split: if_splits\<close>)
  moreover have "queued_ready ?p"
    using assms unfolding sched_weak_def queued_ready_def st by (simp add: lingers_def st) metis
  ultimately show "sched_weak ?p" using assms(1) by (simp add: sched_weak_def sched_shape_def)
  show "all_queued p \<Longrightarrow> all_queued ?p"
    unfolding all_queued_def st by simp
qed

lemma yield_to_ok:
  assumes p: "sched_weak p" "g_current_process_index p = Some c"
    and n: "scheduler_pick_next_ready (g_ready p) = Some n"
  shows "\<exists>r. yield_to env c n p = Some r \<and>
    (case r of
       Switched s' \<Rightarrow> sched_inv s' \<and> g_current_process_index s' = Some n \<and> in_state s' n PROCESS_STATE_RUNNING \<and> n \<noteq> c \<and>
         (in_state p c PROCESS_STATE_RUNNING \<longrightarrow> ready s' c)
     | Returns s' \<Rightarrow> n = c \<and> sched_weak s' \<and> (all_queued p \<longrightarrow> all_queued s')
     | Idle _ \<Rightarrow> False
     | Panic \<Rightarrow> n \<noteq> c \<and> \<not> scheduler_validate_switch_targets c n p)"
proof (cases "n = c")
  case True
  have "one_running p" using p(1) by (simp add: sched_weak_def)
  from current_used [OF this p(2)] running_again [OF p] n True show ?thesis
    by (simp add: yield_to_def Let_def sched_weak_def)
next
  case False
  note q = pick_queued(1,3) [OF p(1) n]
  show ?thesis
  proof (cases "scheduler_validate_switch_targets c n p")
    case True
    let ?p' = "upd_preempt (preempt_enable (env_preemptive env) (env_capable env))
        (p\<lparr>g_switch_count := g_switch_count p + 1\<rparr>)"
    have "sched_weak (p\<lparr>g_switch_count := g_switch_count p + 1\<rparr>)"
      by (rule weak_keeps [OF p(1)]) (simp_all add: keeps_slots_def sched_shape_def in_state_def lingers_def)
    then have "sched_weak ?p'" by (simp add: sched_weak_def)
    moreover have "\<not> in_state p c PROCESS_STATE_UNUSED" using p by (simp add: sched_weak_def one_running_def)
    ultimately obtain s' where
        "scheduler_switch_process (env_saved_sp env) c n ?p' = Some s'" "sched_inv s'"
        "g_current_process_index s' = Some n" "in_state s' n PROCESS_STATE_RUNNING"
        "in_state p c PROCESS_STATE_RUNNING \<longrightarrow> ready s' c"
      using switch_ok [of ?p' c n "env_saved_sp env"] p(2) q False n by (auto simp: in_state_def)
    with True False show ?thesis by (simp add: yield_to_def Let_def)
  qed (use False in \<open>simp add: yield_to_def Let_def\<close>)
qed

text \<open>Every way in which \<open>process_yield\<close> ends, for the state \<open>p\<close> in which it looks at the queue.\<close>

definition yield_outcome :: "nat \<Rightarrow> scheduler \<Rightarrow> outcome \<Rightarrow> bool" where
  "yield_outcome c p r \<longleftrightarrow>
    (case r of
       Switched s' \<Rightarrow> sched_inv s' \<and> (\<exists>n. scheduler_pick_next_ready (g_ready p) = Some n \<and> n \<noteq> c \<and>
         g_current_process_index s' = Some n \<and> in_state s' n PROCESS_STATE_RUNNING \<and>
         (in_state p c PROCESS_STATE_RUNNING \<longrightarrow> ready s' c))
     | Returns s' \<Rightarrow> sched_weak s' \<and> (all_queued p \<longrightarrow> all_queued s') \<and> (scheduler_pick_next_ready (g_ready p) = Some c \<or>
         scheduler_pick_next_ready (g_ready p) = None)
     | Idle s' \<Rightarrow> s' = p \<and> scheduler_pick_next_ready (g_ready p) = None \<and> \<not> in_state p c PROCESS_STATE_RUNNING
     | Panic \<Rightarrow> (\<exists>n. scheduler_pick_next_ready (g_ready p) = Some n \<and> n \<noteq> c \<and> \<not> scheduler_validate_switch_targets c n p) \<or>
         (scheduler_pick_next_ready (g_ready p) = None \<and> \<not> in_state p c PROCESS_STATE_RUNNING))"

lemma yield_ok:
  assumes weak: "sched_weak s \<or> sched_loose s \<and> env_tick_pending env" and c: "g_current_process_index s = Some c"
  shows "\<exists>p r. yield_polled env c s = Some p \<and> process_yield env s = Some r \<and> sched_weak p \<and>
    (sched_inv s \<longrightarrow> sched_inv p) \<and> (all_queued s \<longrightarrow> all_queued p) \<and> g_current_process_index p = Some c \<and>
    yield_outcome c p r"
proof -
  obtain p where p: "yield_polled env c s = Some p" "sched_weak p" "sched_inv s \<longrightarrow> sched_inv p" "all_queued s \<longrightarrow> all_queued p"
      "g_current_process_index p = Some c"
    using yield_polled_ok [OF weak c] by blast
  have "sched_loose s" using weak sched_weak_loose by blast
  then have cur: "scheduler_current_process s = Some c" using c by (simp add: sched_loose_def current_used)
  note un = yield_unfold [OF c p(1)]
  show ?thesis
  proof (cases "scheduler_pick_next_ready (g_ready p)")
    case None
    then show ?thesis using p un cur by (auto simp: yield_outcome_def sched_weak_def)
  next
    case (Some n)
    obtain r where "yield_to env c n p = Some r" "case r of
        Switched s' \<Rightarrow> sched_inv s' \<and> g_current_process_index s' = Some n \<and> in_state s' n PROCESS_STATE_RUNNING \<and> n \<noteq> c \<and>
         (in_state p c PROCESS_STATE_RUNNING \<longrightarrow> ready s' c)
      | Returns s' \<Rightarrow> n = c \<and> sched_weak s' \<and> (all_queued p \<longrightarrow> all_queued s') | Idle _ \<Rightarrow> False
      | Panic \<Rightarrow> n \<noteq> c \<and> \<not> scheduler_validate_switch_targets c n p"
      using yield_to_ok [OF p(2,5) Some] by blast
    with p un Some show ?thesis by (cases r) (auto simp: yield_outcome_def)
  qed
qed

end
