(* ===== verification/Scheduler_Run.thy ===== *)
theory Scheduler_Run
  imports Scheduler_Inv
begin

text \<open>
  The scheduler as a transition system. A step is a call of the running process (or of the boot code,
  before any process runs), a timer tick, or the wake-up of the idle loop; the states that such steps
  reach keep the invariant of the scheduler. The theorems on the choice of the next process and on the
  process table follow from it.
\<close>

section \<open>Steps\<close>

text \<open>Calls are made by the current process while it is running, or by the boot code.\<close>

definition caller :: "scheduler \<Rightarrow> bool" where
  "caller s \<longleftrightarrow> (case g_current_process_index s of None \<Rightarrow> True | Some c \<Rightarrow> in_state s c PROCESS_STATE_RUNNING)"

text \<open>The state after a call that may switch; a call that panics has none.\<close>

inductive ends :: "outcome \<Rightarrow> scheduler \<Rightarrow> bool" where
  ends_switched: "ends (Switched s) s"
| ends_idle: "ends (Idle s) s"
| ends_returns: "ends (Returns s) s"

inductive_cases ends_cases: "ends r s"

inductive sched_step :: "scheduler \<Rightarrow> scheduler \<Rightarrow> bool" where
  spawn: "caller s \<Longrightarrow> process_spawn_with_role sf stacks name entry role s = Some (pid, s') \<Longrightarrow> sched_step s s'"
| kill_other: "caller s \<Longrightarrow> process_kill env pid code s = Some (Inr (r, s')) \<Longrightarrow> sched_step s s'"
| kill_self: "caller s \<Longrightarrow> process_kill env pid code s = Some (Inl r) \<Longrightarrow> ends r s' \<Longrightarrow> sched_step s s'"
| exit: "caller s \<Longrightarrow> process_exit env code s = Some r \<Longrightarrow> ends r s' \<Longrightarrow> sched_step s s'"
| reap: "caller s \<Longrightarrow> process_reap pid buffer s = Some (r, buffer', s') \<Longrightarrow> sched_step s s'"
| waitpid: "caller s \<Longrightarrow> process_waitpid pid buffer s = Some (Inr (r, buffer', s')) \<Longrightarrow> sched_step s s'"
| waitpid_blocks: "caller s \<Longrightarrow> process_waitpid pid buffer s = Some (Inl s1) \<Longrightarrow> process_yield env s1 = Some r \<Longrightarrow>
    ends r s' \<Longrightarrow> sched_step s s'"
| sleep: "caller s \<Longrightarrow> process_sleep env ticks s = Some r \<Longrightarrow> ends r s' \<Longrightarrow> sched_step s s'"
| block: "caller s \<Longrightarrow> process_block env pid s = Some (n, r) \<Longrightarrow> ends r s' \<Longrightarrow> sched_step s s'"
| wake: "caller s \<Longrightarrow> process_wake pid s = Some (n, s') \<Longrightarrow> sched_step s s'"
| wait_channel: "caller s \<Longrightarrow> process_wait_channel env channel s = Some r \<Longrightarrow> ends r s' \<Longrightarrow> sched_step s s'"
| wake_channel: "caller s \<Longrightarrow> process_wake_channel channel s = Some (k, s') \<Longrightarrow> sched_step s s'"
| wake_first: "caller s \<Longrightarrow> process_wake_first_channel channel s = Some (k, s') \<Longrightarrow> sched_step s s'"
| yield: "caller s \<Longrightarrow> process_yield env s = Some r \<Longrightarrow> ends r s' \<Longrightarrow> sched_step s s'"
| resumed: "sched_step s (yield_resumed env s)"
| start: "g_current_process_index s = None \<Longrightarrow> scheduler_run env s = Some r \<Longrightarrow> ends r s' \<Longrightarrow> sched_step s s'"
| tick: "systimer_tick preemptive s = Some s' \<Longrightarrow> sched_step s s'"
| idle: "idle_wakeup env s = Some r \<Longrightarrow> ends r s' \<Longrightarrow> sched_step s s'"

inductive sched_reachable :: "scheduler \<Rightarrow> bool" where
  initial: "sched_reachable scheduler_init"
| step: "sched_reachable s \<Longrightarrow> sched_step s s' \<Longrightarrow> sched_reachable s'"

section \<open>The invariant of the reachable states\<close>

text \<open>
  While the processor waits for an interrupt a process that \<open>process_exit\<close> has woken may be missing from
  the queue; whenever a process runs, all ready processes are queued.
\<close>

definition sched_ok :: "scheduler \<Rightarrow> bool" where
  "sched_ok s \<longleftrightarrow> sched_weak s \<and> (caller s \<longrightarrow> all_queued s)"

lemma sched_live_ok: "sched_live s \<Longrightarrow> sched_ok s"
  by (simp add: sched_ok_def sched_live_def)

lemma sched_inv_ok: "sched_inv s \<Longrightarrow> sched_ok s"
  by (simp add: sched_live_ok sched_inv_live)

lemma sched_ok_live: "sched_ok s \<Longrightarrow> caller s \<Longrightarrow> sched_live s"
  by (simp add: sched_ok_def sched_live_def)

lemma sched_inv_init: "sched_inv scheduler_init"
proof -
  have "rq_inv (precedes_in scheduler_init) (g_ready scheduler_init) []"
    by (simp add: rq_inv_def scheduler_init_def ready_queue_init_def first_def root_black_def)
  moreover have "in_state scheduler_init i PROCESS_STATE_UNUSED" if "i < MAX_PROCESSES" for i
    using that by (simp add: in_state_def scheduler_init_def zero_process_def)
  ultimately show ?thesis
    by (auto simp: sched_inv_def queue_sound_def sched_shape_def synced_def one_running_def pids_ok_def
        in_state_def scheduler_init_def ready_queue_init_def)
qed

subsection \<open>Calls that end in \<open>process_yield\<close>\<close>

lemma systimer_tick_inv: "systimer_tick preemptive s = Some s' \<Longrightarrow> sched_loose s \<Longrightarrow> sched_inv s'"
  using systimer_tick_ok [of s preemptive] by auto

lemma ends_yield_ok:
  assumes "sched_weak s \<or> sched_loose s \<and> env_tick_pending env" and "g_current_process_index s = Some c"
    and "process_yield env s = Some r" and "ends r s'" and all: "all_queued s \<or> (\<forall>t. r \<noteq> Returns t)"
  shows "sched_ok s'"
proof -
  obtain p where p: "sched_weak p" "g_current_process_index p = Some c" "all_queued s \<longrightarrow> all_queued p" and r: "yield_outcome c p r"
    using yield_ok [OF assms(1,2)] assms(3) by auto
  from assms(4) show ?thesis
  proof (cases rule: ends.cases)
    case (ends_switched)
    then show ?thesis using r by (auto simp: yield_outcome_def intro: sched_inv_ok)
  qed (use r p all in \<open>auto simp: yield_outcome_def sched_ok_def caller_def\<close>)
qed

lemma start_first_ok:
  assumes inv: "sched_inv s" and none: "g_current_process_index s = None"
    and i: "scheduler_pick_next_ready (g_ready s) = Some i"
    and run: "scheduler_start_first_process (Some i) s = Some r"
  shows "r = Panic \<or> (\<exists>s'. r = Switched s' \<and> sched_inv s' \<and> g_current_process_index s' = Some i)"
proof -
  have q: "i < MAX_PROCESSES" "ready s i" using pick_ready [OF inv i] by simp_all
  define s1 where "s1 = (upd_proc i (\<lambda>p. p\<lparr>ps_state := PROCESS_STATE_RUNNING\<rparr>) s)\<lparr>g_current_process_index := Some i,
      g_sched_exec_start_tick := (g_sched_exec_start_tick s)[i := g_kernel_ticks s]\<rparr>"
  have f: "g_ready s1 = g_ready s" "g_sched_vruntime s1 = g_sched_vruntime s" "g_next_pid s1 = g_next_pid s"
      "g_current_process_index s1 = Some i" "ps_pid (g_processes s1 ! k) = ps_pid (g_processes s ! k)" for k
    by (simp_all add: s1_def nth_list_update_if)
  have st: "in_state s1 k st \<longleftrightarrow> (if k = i then st = PROCESS_STATE_RUNNING else in_state s k st)" for k st
    using inv q by (auto simp: s1_def in_state_def nth_list_update_if sched_inv_def sched_shape_def)
  have "\<not> in_state s k PROCESS_STATE_RUNNING" if "k < MAX_PROCESSES" for k
    using inv none that by (auto simp: sched_inv_def one_running_def)
  then have "one_running s1" using q unfolding one_running_def f st by (auto split: if_splits)
  moreover have "pids_ok s1"
    by (rule pids_ok_mono [of s]) (use inv q f st in \<open>auto simp: sched_inv_def in_state_def split: if_splits\<close>)
  moreover have "sched_shape s1" using inv by (simp add: s1_def sched_inv_def sched_shape_def)
  moreover have "same_keys s s1" by (simp add: same_keys_def f)
  ultimately obtain q' where "scheduler_sync_ready_queue s1 = Some (s1\<lparr>g_ready := q'\<rparr>)" "sched_inv (s1\<lparr>g_ready := q'\<rparr>)"
    using resync [OF sched_inv_loose [OF inv]] by blast
  then show ?thesis
    using run f(4) by (auto simp: scheduler_start_first_process_def s1_def [symmetric] split: if_splits)
qed

lemma live_at_boot: "sched_live s \<Longrightarrow> g_current_process_index s = None \<Longrightarrow> sched_inv s"
  by (auto simp: sched_live_def sched_weak_def sched_inv_def synced_def queued_ready_def all_queued_def lingers_def)

lemma yield_at_boot:
  assumes inv: "sched_inv s" and none: "g_current_process_index s = None" and run: "process_yield env s = Some r"
  shows "r = Panic \<or> (\<exists>s'. r = Switched s' \<and> sched_inv s')"
proof -
  obtain p where p: "runtime_poll_timer_delivery (env_preemptive env) (env_tick_pending env) s = Some p" "sched_inv p"
    using poll_ok [OF disjI1 [OF sched_inv_weak [OF inv]]] inv by blast
  have none': "g_current_process_index p = None"
    using poll_same_slots(1) [OF p(1)] inv none by (simp add: sched_inv_def)
  have r: "scheduler_start_first_process (scheduler_pick_next_ready (g_ready p)) p = Some r"
    using run none p by (simp add: process_yield_def)
  show ?thesis
  proof (cases "scheduler_pick_next_ready (g_ready p)")
    case (Some i)
    then show ?thesis using start_first_ok [OF p(2) none' Some] r by auto
  qed (use r in \<open>simp add: scheduler_start_first_process_def\<close>)
qed

lemma caller_yield_ok:
  assumes "sched_live s" and "process_yield env s = Some r" and "ends r s'"
  shows "sched_ok s'"
proof (cases "g_current_process_index s")
  case None
  from yield_at_boot [OF live_at_boot [OF assms(1) None] None assms(2)] assms(3) show ?thesis by (auto elim: ends_cases intro: sched_inv_ok)
next
  case (Some c)
  from ends_yield_ok [OF _ Some assms(2,3)] assms(1) show ?thesis by (simp add: sched_live_def)
qed

lemma block_current:
  assumes "scheduler_block_process i reason channel wake target s = Some s'"
  shows "g_current_process_index s' = g_current_process_index s"
  using sync_only_queue [OF assms [unfolded scheduler_block_process_def scheduler_sync_ready_queue_def]] by auto

lemma block_inv:
  assumes "sched_loose s" and "ps_state (g_processes s ! i) \<noteq> PROCESS_STATE_UNUSED"
    and "scheduler_block_process i reason channel wake target s = Some s'"
  shows "sched_inv s'"
  using block_ok [OF assms(1,2), of reason channel wake target] assms(3) by auto

text \<open>The current process blocks and yields.\<close>

lemma block_yield_ok:
  assumes "sched_loose s" and "g_current_process_index s = Some c"
    and "scheduler_block_process c reason channel wake target s = Some s1"
    and "process_yield env s1 = Some r" and "ends r s'"
  shows "sched_ok s'"
proof -
  have "ps_state (g_processes s ! c) \<noteq> PROCESS_STATE_UNUSED"
    using assms(1,2) by (simp add: sched_loose_def one_running_def in_state_def)
  from block_inv [OF assms(1) this assms(3)] have "sched_live s1" by (rule sched_inv_live)
  moreover have "g_current_process_index s1 = Some c" using block_current [OF assms(3)] assms(2) by simp
  ultimately show ?thesis using caller_yield_ok assms(4,5) by blast
qed

lemma exit_current_keeps:
  assumes inv: "sched_live s" and c: "g_current_process_index s = Some c" "in_state s c PROCESS_STATE_RUNNING"
  shows "keeps_slots s (exit_current code s)" and "i < MAX_PROCESSES \<Longrightarrow> ready s i \<Longrightarrow> ready (exit_current code s) i"
proof -
  let ?s1 = "upd_proc c (\<lambda>p. p\<lparr>ps_state := PROCESS_STATE_ZOMBIE, ps_exit_code := code\<rparr>) s"
  let ?pid = "ps_pid (g_processes ?s1 ! c)"
  let ?s2 = "?s1\<lparr>g_processes := fst (process_core_wake_waiting_parent (g_processes ?s1) ?pid)\<rparr>"
  have loose: "sched_loose s" using inv by (rule sched_live_loose)
  have "scheduler_current_process s = Some c" using loose c(1) by (simp add: sched_loose_def current_used)
  then have ex: "exit_current code s = ?s2" by (simp add: exit_current_def Let_def)
  have shape: "sched_shape s" "length (g_processes s) = MAX_PROCESSES" using loose by (simp_all add: sched_loose_def sched_shape_def)
  have k1: "keeps_slots s ?s1" using c(2) by (intro keeps_slots_upd_proc) (auto simp: in_state_def)
  have "sched_shape ?s1" using keeps_slots_shape [OF k1 shape(1)] .
  then show "keeps_slots s (exit_current code s)"
    unfolding ex using keeps_slots_trans [OF k1] keeps_slots_wake(1) by blast
  assume i: "i < MAX_PROCESSES" "ready s i"
  then have "i \<noteq> c" using c(2) by (auto simp: in_state_def)
  then show "ready (exit_current code s) i"
    using i shape(2) by (simp add: ex in_state_def process_core_wake_waiting_parent_def update_where_eq
        process_core_make_ready_def)
qed

lemma loose_keeps: "sched_loose s \<Longrightarrow> keeps_slots s s' \<Longrightarrow> sched_loose s'"
  using queue_sound_same_keys [OF _ keeps_slots_keys] keeps_slots_shape keeps_slots_running keeps_slots_pids
  unfolding sched_loose_def by blast

text \<open>A process that lingers in the queue and exits is picked again: the system halts, unless a tick is pending.\<close>

lemma yield_picks_current:
  assumes "g_current_process_index s = Some c" and "scheduler_pick_next_ready (g_ready s) = Some c" and "\<not> env_tick_pending env"
  shows "\<exists>s'. process_yield env s = Some (Returns s')"
  using assms by (auto simp: process_yield_def runtime_poll_timer_delivery_def yield_to_def Let_def)

lemma exit_ok:
  assumes inv: "sched_live s" and cal: "caller s" and run: "process_exit env code s = Some r" and e: "ends r s'"
  shows "sched_ok s'"
proof -
  let ?t = "exit_current code s"
  obtain r' where r': "process_yield env ?t = Some r'" "r = (case r' of Returns _ \<Rightarrow> Panic | _ \<Rightarrow> r')"
    using run by (auto simp: process_exit_def)
  have "ends r' s'" and nr: "\<forall>t. r' \<noteq> Returns t" using r'(2) e by (cases r'; auto elim: ends_cases)+
  show ?thesis
  proof (cases "g_current_process_index s")
    case None
    then have "?t = s" by (simp add: exit_current_def scheduler_current_process_def)
    then show ?thesis using caller_yield_ok [OF inv] r'(1) \<open>ends r' s'\<close> by simp
  next
    case (Some c)
    then have run: "in_state s c PROCESS_STATE_RUNNING" using cal by (simp add: caller_def)
    note k = exit_current_keeps [OF inv Some run]
    have c: "g_current_process_index ?t = Some c" "g_ready ?t = g_ready s" using k(1) [of code] Some by (simp_all add: keeps_slots_def)
    have "sched_weak ?t \<or> sched_loose ?t \<and> env_tick_pending env"
    proof (cases "lingers s c")
      case True
      then have "scheduler_pick_next_ready (g_ready ?t) = Some c" using c by (simp add: lingers_def)
      then have "env_tick_pending env" using yield_picks_current [OF c(1)] r'(1) nr by force
      then show ?thesis using loose_keeps [OF sched_live_loose [OF inv] k(1)] by blast
    next
      case False
      then have "\<not> lingers s i" for i using Some by (auto simp: lingers_def)
      then have "sched_weak ?t" using weak_keeps [OF sched_live_weak [OF inv] k(1)] k(2) by blast
      then show ?thesis ..
    qed
    from ends_yield_ok [OF this c(1) r'(1) \<open>ends r' s'\<close>] nr show ?thesis by blast
  qed
qed

subsection \<open>Calls that return\<close>

lemma caller_not_current:
  assumes "caller s" and "ps_state (g_processes s ! i) = PROCESS_STATE_ZOMBIE"
  shows "g_current_process_index s \<noteq> Some i"
  using assms by (auto simp: caller_def in_state_def)

lemma reset_zombie_ok:
  assumes "sched_live s" and "caller s" and "i < length (g_processes s)"
    and "ps_state (g_processes s ! i) = PROCESS_STATE_ZOMBIE" and "scheduler_reset_process_slot i s = Some s'"
  shows "sched_live s'"
proof -
  have "i < MAX_PROCESSES" using assms(1,3) by (simp add: sched_live_def sched_weak_def sched_shape_def)
  from reset_slot_ok [OF assms(1) this _ caller_not_current [OF assms(2,4)]] assms(4,5) show ?thesis
    by (simp add: in_state_def)
qed

lemma reap_ok:
  assumes "sched_live s" and "caller s" and "process_reap pid buffer s = Some (r, buffer', s')"
  shows "sched_live s'"
  using assms reset_zombie_ok [OF assms(1,2)]
  by (auto simp: process_reap_def process_core_find_index_by_pid_def first_index_Some split: option.splits if_splits)

lemma waitpid_round_ok:
  assumes inv: "sched_live s" and cal: "caller s" and run: "waitpid_round cur pid buffer s = Some res"
  shows "case res of Inr (_, _, s') \<Rightarrow> sched_live s'
    | Inl s1 \<Rightarrow> sched_live s1 \<and> g_current_process_index s1 = g_current_process_index s"
proof (cases "process_core_find_waitable_child (g_processes s) cur pid")
  case (Some i)
  then have "i < length (g_processes s)" "ps_state (g_processes s ! i) = PROCESS_STATE_ZOMBIE"
    by (simp_all add: process_core_find_waitable_child_def first_index_Some)
  then show ?thesis
    using run Some reset_zombie_ok [OF inv cal] by (auto simp: waitpid_round_def)
next
  case None
  show ?thesis
  proof (cases "\<exists>c. process_core_has_child (g_processes s) cur pid \<and> g_current_process_index s = Some c")
    case True
    then obtain c where c: "process_core_has_child (g_processes s) cur pid" "g_current_process_index s = Some c" by blast
    then have used: "c < MAX_PROCESSES" "ps_state (g_processes s ! c) \<noteq> PROCESS_STATE_UNUSED"
      using inv by (simp_all add: sched_live_def sched_weak_def one_running_def in_state_def)
    then obtain s1 where "res = Inl s1" "scheduler_block_process c PROCESS_WAIT_CHILD pid 0 pid s = Some s1"
      using run None c by (auto simp: waitpid_round_def)
    then show ?thesis using block_inv [OF sched_live_loose [OF inv] used(2)] block_current by (auto intro: sched_inv_live)
  next
    case False
    then show ?thesis using run None inv by (auto simp: waitpid_round_def split: if_splits option.splits)
  qed
qed

lemma kill_ok:
  assumes "sched_live s" and "process_kill env pid code s = Some (Inr (r, s'))"
  shows "sched_live s'"
proof (cases "process_core_find_index_by_pid (g_processes s) pid")
  case (Some i)
  then have "ps_state (g_processes s ! i) \<noteq> PROCESS_STATE_UNUSED"
    by (auto simp: process_core_find_index_by_pid_def first_index_Some split: if_splits)
  from kill_other_ok [OF assms(1) this, of pid code] show ?thesis
    using assms(2) Some by (auto simp: process_kill_def split: if_splits)
qed (use assms in \<open>simp add: process_kill_def\<close>)

lemma wake_ok:
  assumes "sched_live s" and "process_wake pid s = Some (n, s')"
  shows "sched_live s'"
proof (cases "process_core_find_index_by_pid (g_processes s) pid")
  case (Some i)
  then show ?thesis using assms make_ready_ok [OF sched_live_loose [OF assms(1)], of i] by (auto simp: process_wake_def intro: sched_inv_live)
qed (use assms in \<open>simp add: process_wake_def\<close>)

lemma returns_ok:
  assumes "sched_live s" and "ends (Returns s) s'"
  shows "sched_ok s'"
  using assms by (auto elim!: ends_cases intro: sched_live_ok)

lemma sleep_ok:
  assumes inv: "sched_live s" and run: "process_sleep env ticks s = Some r" and e: "ends r s'"
  shows "sched_ok s'"
proof (cases "scheduler_current_process s")
  case None
  then show ?thesis using run e returns_ok [OF inv] by (simp add: process_sleep_def)
next
  case (Some c)
  then have c: "g_current_process_index s = Some c"
    by (auto simp: scheduler_current_process_def split: option.splits if_splits)
  show ?thesis
  proof (cases "ticks = 0")
    case True
    then show ?thesis using run e Some caller_yield_ok [OF inv] by (simp add: process_sleep_def)
  next
    case False
    let ?w = "g_kernel_ticks s + ucast ticks"
    let ?s0 = "upd_proc c (\<lambda>p. p\<lparr>ps_wake_tick := ?w\<rparr>) s"
    obtain s1 where s1: "scheduler_block_process c PROCESS_WAIT_SLEEP_TICKS ticks ?w 0 ?s0 = Some s1"
        "process_yield env s1 = Some r"
      using run Some False by (auto simp: process_sleep_def Let_def bind_eq_Some_conv)
    have k: "keeps_slots s ?s0" by (rule keeps_slots_upd_proc) simp_all
    from block_yield_ok [OF loose_keeps [OF sched_live_loose [OF inv] k] _ s1 e] c show ?thesis by simp
  qed
qed

lemma wait_channel_ok:
  assumes inv: "sched_live s" and run: "process_wait_channel env channel s = Some r" and e: "ends r s'"
  shows "sched_ok s'"
proof (cases "g_current_process_index s")
  case None
  then show ?thesis using run e returns_ok [OF inv] by (simp add: process_wait_channel_def)
next
  case (Some c)
  then have "c < MAX_PROCESSES" using inv by (simp add: sched_live_def sched_weak_def one_running_def)
  then obtain s1 where "scheduler_block_process c PROCESS_WAIT_EVENT_CHANNEL channel 0 0 s = Some s1"
      "process_yield env s1 = Some r"
    using run Some by (auto simp: process_wait_channel_def bind_eq_Some_conv)
  from block_yield_ok [OF sched_live_loose [OF inv] Some this e] show ?thesis .
qed

lemma process_block_ok:
  assumes inv: "sched_live s" and run: "process_block env pid s = Some (n, r)" and e: "ends r s'"
  shows "sched_ok s'"
proof (cases "process_core_find_index_by_pid (g_processes s) pid")
  case None
  then show ?thesis using run e returns_ok [OF inv] by (simp add: process_block_def)
next
  case (Some i)
  then have used: "ps_state (g_processes s ! i) \<noteq> PROCESS_STATE_UNUSED"
    by (auto simp: process_core_find_index_by_pid_def first_index_Some split: if_splits)
  show ?thesis
  proof (cases "ps_state (g_processes s ! i) \<in> {PROCESS_STATE_READY, PROCESS_STATE_RUNNING}")
    case False
    then show ?thesis using run Some e returns_ok [OF inv] by (simp add: process_block_def)
  next
    case True
    then have "do {
        s' \<leftarrow> scheduler_block_process i PROCESS_WAIT_MANUAL pid 0 0 s;
        if Some i = g_current_process_index s then map_option (Pair 1) (process_yield env s')
        else Some (1, Returns s') } = Some (n, r)"
      using Some run by (auto simp: process_block_def)
    then obtain s1 where s1: "scheduler_block_process i PROCESS_WAIT_MANUAL pid 0 0 s = Some s1"
      and r: "if Some i = g_current_process_index s then process_yield env s1 = Some r else r = Returns s1"
      by (auto simp: bind_eq_Some_conv split: if_splits)
    show ?thesis
    proof (cases "Some i = g_current_process_index s")
      case True
      then show ?thesis using block_yield_ok [OF sched_live_loose [OF inv] True [symmetric] s1 _ e] r by simp
    next
      case False
      then show ?thesis using returns_ok [OF sched_inv_live [OF block_inv [OF sched_live_loose [OF inv] used s1]]] r e by simp
    qed
  qed
qed

lemma idle_ok:
  assumes weak: "sched_weak s" and run: "idle_wakeup env s = Some r" and e: "ends r s'"
  shows "sched_ok s'"
proof -
  obtain s1 where s1: "systimer_tick (env_preemptive env) s = Some s1" "sched_inv s1"
    using systimer_tick_ok [OF sched_weak_loose [OF weak]] by blast
  have "keeps_slots s1 s1" by (simp add: keeps_slots_def)
  then obtain q where q: "scheduler_sync_ready_queue s1 = Some (s1\<lparr>g_ready := q\<rparr>)" "sched_inv (s1\<lparr>g_ready := q\<rparr>)"
    using resync_keeps [OF sched_inv_loose [OF s1(2)]] by blast
  let ?s2 = "s1\<lparr>g_ready := q\<rparr>"
  show ?thesis
  proof (cases "scheduler_pick_next_ready q = None \<or> g_current_process_index s1 = None")
    case True
    then have "r = Idle ?s2" using run s1 q by (auto simp: idle_wakeup_def split: option.splits)
    then show ?thesis using e q(2) by (auto elim: ends_cases intro: sched_inv_ok)
  next
    case False
    then obtain n c where nc: "scheduler_pick_next_ready (g_ready ?s2) = Some n" "g_current_process_index ?s2 = Some c"
      by auto
    then have "yield_to env c n ?s2 = Some r" using run s1 q by (simp add: idle_wakeup_def)
    then have "case r of Switched s' \<Rightarrow> sched_live s' | Returns s' \<Rightarrow> sched_live s' | Idle _ \<Rightarrow> False | Panic \<Rightarrow> True"
      using yield_to_ok [OF sched_inv_weak [OF q(2)] nc(2,1), of env] sched_inv_live [OF q(2)]
      by (cases r) (auto simp: sched_live_def intro: sched_inv_weak sched_inv_all)
    with e show ?thesis by (cases rule: ends.cases) (auto intro: sched_live_ok)
  qed
qed

theorem sched_step_ok:
  assumes "sched_step s s'" and "sched_ok s"
  shows "sched_ok s'"
  using assms
proof (induction rule: sched_step.induct)
  case (spawn s sf stacks name entry role pid s')
  then show ?case using spawn_ok [of s sf stacks name entry role] sched_ok_live by (auto intro: sched_live_ok)
next
  case (kill_self s env pid code r s')
  then have "process_exit env code s = Some r"
    by (auto simp: process_kill_def split: option.splits if_splits)
  then show ?case using kill_self exit_ok sched_ok_live by blast
next
  case (waitpid s pid buffer r buffer' s')
  then have "process_current_pid s \<noteq> 0 \<Longrightarrow> sched_live s'"
    using waitpid_round_ok [OF sched_ok_live, of s "process_current_pid s" pid buffer] by (auto simp: process_waitpid_def)
  then show ?case using waitpid by (cases "process_current_pid s = 0") (auto simp: process_waitpid_def sched_live_ok)
next
  case (waitpid_blocks s pid buffer s1 env r s')
  then have "waitpid_round (process_current_pid s) pid buffer s = Some (Inl s1)"
    by (auto simp: process_waitpid_def split: if_splits)
  then have "sched_live s1" using waitpid_round_ok [OF sched_ok_live, of s] waitpid_blocks by fastforce
  then show ?case using caller_yield_ok waitpid_blocks by blast
next
  case (wake_channel s channel k s')
  then show ?case using wake_channel_ok(1) [OF sched_live_loose [OF sched_ok_live], of s channel] by (auto intro: sched_inv_ok)
next
  case (wake_first s channel k s')
  then show ?case using wake_channel_ok(2) [OF sched_live_loose [OF sched_ok_live], of s channel] by (auto intro: sched_inv_ok)
next
  case (resumed s env)
  then show ?case by (simp add: sched_ok_def caller_def sched_weak_def yield_resumed_def split: option.splits)
next
  case (start s env r s')
  then obtain r' where "process_yield env (s\<lparr>g_current_process_index := None\<rparr>) = Some r'"
      "r = (case r' of Returns _ \<Rightarrow> Panic | _ \<Rightarrow> r')"
    by (auto simp: scheduler_run_def)
  moreover have "s\<lparr>g_current_process_index := None\<rparr> = s" using start(1) by simp
  moreover have "ends r' s'" using calculation(2) start(3) by (cases r') (auto elim: ends_cases)
  moreover have "caller s" using start(1) by (simp add: caller_def)
  ultimately show ?case using caller_yield_ok [OF sched_ok_live, of s env r' s'] start by simp
next
  case (tick preemptive s s')
  then show ?case using systimer_tick_inv [OF tick.hyps] sched_weak_loose sched_inv_ok unfolding sched_ok_def by blast
next
  case (idle env s r s')
  then show ?case using idle_ok by (auto simp: sched_ok_def)
qed (blast intro: sched_live_ok dest: sched_ok_live kill_ok exit_ok reap_ok sleep_ok process_block_ok wake_ok wait_channel_ok
    caller_yield_ok)+

theorem sched_reachable_ok: "sched_reachable s \<Longrightarrow> sched_ok s"
  by (induction rule: sched_reachable.induct) (auto intro: sched_inv_ok sched_inv_init sched_step_ok)

end
