(* ===== verification/Sync_Waits.thy ===== *)
theory Sync_Waits
  imports Scheduler_Run Sync
begin

text \<open>
  Which processes wait on a channel, and what the operations of the scheduler do to them: only a wake-up of
  the channel ends a wait, and only \<open>process_wait_channel\<close> begins one.
\<close>

section \<open>Waiting processes\<close>

definition chan_blocked :: "u32 \<Rightarrow> scheduler \<Rightarrow> nat set" where
  "chan_blocked channel s = {i. i < MAX_PROCESSES \<and> waits_on_channel channel (g_processes s ! i)}"

text \<open>A process that is ready or running.\<close>

definition alive :: "scheduler \<Rightarrow> nat \<Rightarrow> bool" where
  "alive s i \<longleftrightarrow> in_state s i PROCESS_STATE_READY \<or> in_state s i PROCESS_STATE_RUNNING"

text \<open>A change that leaves the waits alone and takes no process out of action.\<close>

definition calm :: "scheduler \<Rightarrow> scheduler \<Rightarrow> bool" where
  "calm s s' \<longleftrightarrow> (\<forall>i<MAX_PROCESSES. (\<forall>channel. waits_on_channel channel (g_processes s' ! i) =
     waits_on_channel channel (g_processes s ! i)) \<and> (alive s i \<longrightarrow> alive s' i))"

lemma calm_refl: "calm s s"
  by (simp add: calm_def)

lemma calm_trans: "calm a b \<Longrightarrow> calm b c \<Longrightarrow> calm a c"
  by (simp add: calm_def)

lemma calm_blocked: "calm s s' \<Longrightarrow> chan_blocked channel s' = chan_blocked channel s"
  by (auto simp: calm_def chan_blocked_def)

lemma calm_same: "g_processes s' = g_processes s \<Longrightarrow> calm s s'"
  by (simp add: calm_def alive_def in_state_def)

lemma calm_upd_proc:
  assumes "\<And>channel. waits_on_channel channel (f (g_processes s ! i)) = waits_on_channel channel (g_processes s ! i)"
    and "ps_state (g_processes s ! i) = PROCESS_STATE_READY \<or> ps_state (g_processes s ! i) = PROCESS_STATE_RUNNING \<Longrightarrow>
      ps_state (f (g_processes s ! i)) = PROCESS_STATE_READY \<or> ps_state (f (g_processes s ! i)) = PROCESS_STATE_RUNNING"
  shows "calm s (upd_proc i f s)"
  using assms by (auto simp: calm_def alive_def in_state_def nth_list_update_if)

lemma sync_calm: "scheduler_sync_ready_queue s = Some s' \<Longrightarrow> calm s s'"
  unfolding scheduler_sync_ready_queue_def by (drule sync_only_queue) (auto intro: calm_same)

lemma tick_calm:
  assumes "process_tick preemptive tick s = Some s'" and "sched_shape s"
  shows "calm s s'"
proof -
  let ?s = "s\<lparr>g_scheduler_preempt_state := scheduler_preempt_on_timer_tick preemptive (g_scheduler_preempt_state s),
       g_processes := fst (process_core_wake_sleepers (g_processes s) tick)\<rparr>"
  have "calm s ?s"
    using assms(2) by (auto simp: calm_def alive_def in_state_def sched_shape_def process_core_wake_sleepers_def
        update_where_eq sleeper_due_def waits_on_channel_def process_core_make_ready_def)
  moreover have "calm ?s s'" using assms(1) sync_calm by (simp add: process_tick_def)
  ultimately show ?thesis by (rule calm_trans)
qed

lemma systimer_tick_calm: "systimer_tick preemptive s = Some s' \<Longrightarrow> sched_shape s \<Longrightarrow> calm s s'"
  unfolding systimer_tick_def
  by (drule tick_calm) (auto simp: sched_shape_def calm_def alive_def in_state_def)

lemma poll_calm: "runtime_poll_timer_delivery preemptive pending s = Some s' \<Longrightarrow> sched_shape s \<Longrightarrow> calm s s'"
  by (auto simp: runtime_poll_timer_delivery_def calm_refl systimer_tick_calm split: if_splits)

lemma yield_polled_calm:
  assumes "yield_polled env c s = Some p" and "sched_shape s"
  shows "calm s p"
proof -
  obtain s2 where s2: "runtime_poll_timer_delivery (env_preemptive env) (env_tick_pending env)
      (upd_preempt preempt_disable s) = Some s2"
    and p: "g_processes p = (if scheduler_current_process s \<noteq> None
      then g_processes (upd_proc c (\<lambda>p. p\<lparr>ps_yield_count := ps_yield_count p + 1\<rparr>) s2) else g_processes s2)"
    using assms(1) by (auto simp: yield_polled_def)
  have "calm (upd_preempt preempt_disable s) s2" by (rule poll_calm [OF s2]) (simp add: assms(2))
  then have "calm s s2" by (rule calm_trans [rotated]) (simp add: calm_same)
  moreover have "calm s2 (upd_proc c (\<lambda>p. p\<lparr>ps_yield_count := ps_yield_count p + 1\<rparr>) s2)"
    by (rule calm_upd_proc) (auto simp: waits_on_channel_def)
  ultimately have u: "calm s (upd_proc c (\<lambda>p. p\<lparr>ps_yield_count := ps_yield_count p + 1\<rparr>) s2)" by (rule calm_trans)
  show ?thesis
  proof (cases "scheduler_current_process s")
    case None
    then show ?thesis using p calm_trans [OF \<open>calm s s2\<close> calm_same] by simp
  next
    case (Some i)
    then show ?thesis using p calm_trans [OF u calm_same] by simp
  qed
qed

lemma switch_calm:
  assumes "scheduler_switch_process sp c n s = Some s'" and "ready s n" and "n \<noteq> c"
  shows "calm s s'"
proof -
  define s1 where "s1 = scheduler_account_runtime c s"
  define s2 where "s2 = (if ps_state (g_processes s1 ! c) = PROCESS_STATE_RUNNING
      then upd_proc c (\<lambda>p. p\<lparr>ps_state := PROCESS_STATE_READY\<rparr>) s1 else s1)"
  define s3 where "s3 = upd_proc n (\<lambda>p. p\<lparr>ps_state := PROCESS_STATE_RUNNING, ps_switch_count := ps_switch_count p + 1\<rparr>) s2"
  define s4 where "s4 = s3\<lparr>g_current_process_index := Some n,
      g_sched_exec_start_tick := (g_sched_exec_start_tick s3)[n := g_kernel_ticks s3]\<rparr>"
  have "scheduler_switch_process sp c n s =
      map_option (upd_exec c (\<lambda>e. e\<lparr>ex_stack_pointer := sp\<rparr>)) (scheduler_sync_ready_queue s4)"
    by (simp add: scheduler_switch_process_def Let_def s4_def s3_def s2_def s1_def)
  with assms(1) obtain s5 where s5: "scheduler_sync_ready_queue s4 = Some s5"
      "s' = upd_exec c (\<lambda>e. e\<lparr>ex_stack_pointer := sp\<rparr>) s5"
    by auto
  have "calm s s1" by (simp add: s1_def account_fields calm_same)
  moreover have "calm s1 s2"
    unfolding s2_def by (auto simp: calm_refl waits_on_channel_def intro!: calm_upd_proc)
  moreover have "ps_state (g_processes s2 ! n) = PROCESS_STATE_READY"
    using assms(2,3) by (simp add: s2_def s1_def account_fields in_state_def)
  then have "calm s2 s3" unfolding s3_def by (intro calm_upd_proc) (auto simp: waits_on_channel_def)
  moreover have "calm s3 s4" by (simp add: s4_def calm_same)
  moreover have "calm s4 s5" by (rule sync_calm [OF s5(1)])
  moreover have "calm s5 s'" by (simp add: s5(2) calm_same)
  ultimately show ?thesis by (blast intro: calm_trans)
qed

definition outcome_calm :: "scheduler \<Rightarrow> outcome \<Rightarrow> bool" where
  "outcome_calm s r \<longleftrightarrow> (case r of Returns s' \<Rightarrow> calm s s' | Switched s' \<Rightarrow> calm s s' | Idle s' \<Rightarrow> calm s s' | Panic \<Rightarrow> True)"

lemma yield_to_calm:
  assumes "yield_to env c n p = Some r" and "if n = c then alive p n else ready p n"
  shows "outcome_calm p r"
proof (cases "n = c")
  case True
  have "calm p (upd_proc c (\<lambda>x. x\<lparr>ps_state := PROCESS_STATE_RUNNING\<rparr>) p)"
    by (rule calm_upd_proc) (use assms(2) True in \<open>auto simp: waits_on_channel_def in_state_def alive_def\<close>)
  then have "calm p (upd_preempt f (upd_proc c (\<lambda>x. x\<lparr>ps_state := PROCESS_STATE_RUNNING\<rparr>) p))" for f
    by (rule calm_trans) (simp add: calm_same)
  moreover have "calm p (upd_preempt f p)" for f by (simp add: calm_same)
  ultimately show ?thesis using assms True by (auto simp: yield_to_def Let_def outcome_calm_def)
next
  case False
  show ?thesis
  proof (cases "scheduler_validate_switch_targets c n p")
    case True
    let ?p' = "upd_preempt (preempt_enable (env_preemptive env) (env_capable env)) (p\<lparr>g_switch_count := g_switch_count p + 1\<rparr>)"
    obtain s' where s': "scheduler_switch_process (env_saved_sp env) c n ?p' = Some s'" "r = Switched s'"
      using assms(1) True False by (auto simp: yield_to_def Let_def)
    have "calm ?p' s'" by (rule switch_calm [OF s'(1)]) (use assms(2) False in \<open>simp_all add: in_state_def\<close>)
    then have "calm p s'" by (rule calm_trans [rotated]) (simp add: calm_same)
    then show ?thesis by (simp add: s'(2) outcome_calm_def)
  qed (use assms False in \<open>simp add: yield_to_def Let_def outcome_calm_def\<close>)
qed

lemma pick_alive:
  assumes "sched_weak p" and "g_current_process_index p = Some c" and "scheduler_pick_next_ready (g_ready p) = Some n"
  shows "if n = c then alive p n else ready p n"
  using pick_queued(2,3) [OF assms(1,3)] assms(2) by (auto simp: alive_def lingers_def)

lemma yield_calm:
  assumes weak: "sched_weak s" and c: "g_current_process_index s = Some c" and r: "process_yield env s = Some r"
  shows "outcome_calm s r"
proof -
  obtain p where p: "yield_polled env c s = Some p" "sched_weak p" "g_current_process_index p = Some c" using yield_polled_ok [OF disjI1 [OF weak] c] by blast
  have sp: "calm s p" by (rule yield_polled_calm [OF p(1)]) (use weak in \<open>simp add: sched_weak_def\<close>)
  have pp: "calm s (upd_preempt f p)" for f by (rule calm_trans [OF sp]) (simp add: calm_same)
  note un = yield_unfold [OF c p(1)]
  show ?thesis
  proof (cases "scheduler_pick_next_ready (g_ready p)")
    case None
    then show ?thesis using r un sp pp by (auto simp: outcome_calm_def split: if_splits)
  next
    case (Some n)
    then have "outcome_calm p r" using yield_to_calm [of env c n p r] pick_alive [OF p(2,3) Some] r un by simp
    then show ?thesis using calm_trans [OF sp] by (auto simp: outcome_calm_def split: outcome.splits)
  qed
qed

lemma ends_calm:
  assumes "outcome_calm s r" and "ends r t"
  shows "calm s t"
  using assms(2,1) by (cases rule: ends.cases) (auto simp: outcome_calm_def)

lemma ends_yield_calm:
  assumes weak: "sched_weak s" and c: "g_current_process_index s = Some c" and r: "process_yield env s = Some r"
    and e: "ends r t"
  shows "calm s t"
  by (rule ends_calm [OF yield_calm [OF weak c r] e])

lemma spawn_calm:
  assumes "process_spawn_with_role sf stacks name entry role s = Some (pid, s')"
  shows "calm s s'"
proof (cases "process_core_find_free_slot (g_processes s)")
  case None
  then show ?thesis using assms by (simp add: process_spawn_with_role_def calm_refl)
next
  case (Some i)
  then have "ps_state (g_processes s ! i) = PROCESS_STATE_UNUSED"
    by (simp add: process_core_find_free_slot_def first_index_Some)
  then have up: "calm s (upd_proc i (\<lambda>_. p) (s\<lparr>g_next_pid := k\<rparr>))" if "ps_state p = PROCESS_STATE_READY" for p k
    using that by (auto simp: calm_def alive_def in_state_def waits_on_channel_def nth_list_update_if)
  show ?thesis
  proof (cases "entry = None \<or> g_next_pid s = 0 \<or> \<not> runtime_policy_can_spawn sf (g_processes s) role")
    case True
    then show ?thesis using assms Some by (auto simp: process_spawn_with_role_def calm_refl split: if_splits)
  next
    case False
    define p where "p = \<lparr>ps_pid = g_next_pid s, ps_parent_pid = process_current_pid s,
      ps_name = Some (case name of None \<Rightarrow> ''PROC'' | Some n \<Rightarrow> n), ps_role = role,
      ps_state = PROCESS_STATE_READY, ps_exit_code = 0, ps_switch_count = 0, ps_yield_count = 0,
      ps_wake_tick = 0, ps_wait_target_pid = 0, ps_wait_reason = PROCESS_WAIT_NONE, ps_wait_channel = 0\<rparr>"
    define s1 where "s1 = upd_exec i (\<lambda>e. e\<lparr>ex_entry := entry\<rparr>) (upd_proc i (\<lambda>_. p) (s\<lparr>g_next_pid := g_next_pid s + 1\<rparr>))"
    define t where "t = scheduler_prepare_initial_context stacks i
      (s1\<lparr>g_sched_vruntime := (g_sched_vruntime s1)[i := scheduler_min_vruntime s1],
          g_sched_exec_start_tick := (g_sched_exec_start_tick s1)[i := 0]\<rparr>)"
    have "process_spawn_with_role sf stacks name entry role s =
        map_option (\<lambda>s. (g_next_pid s1 - 1, s)) (scheduler_sync_ready_queue t)"
      using Some False by (cases entry) (simp_all add: process_spawn_with_role_def Let_def t_def s1_def p_def)
    with assms have t1: "scheduler_sync_ready_queue t = Some s'" by auto
    have t2: "ps_state p = PROCESS_STATE_READY" by (simp add: p_def)
    have "g_processes t = g_processes (upd_proc i (\<lambda>_. p) (s\<lparr>g_next_pid := g_next_pid s + 1\<rparr>))"
      by (simp add: t_def s1_def scheduler_prepare_initial_context_def)
    note t = t1 t2 this
    have "calm s t" using calm_trans [OF up [OF t(2)] calm_same [OF t(3)]] .
    then show ?thesis using calm_trans sync_calm [OF t(1)] by blast
  qed
qed

lemma idle_calm:
  assumes weak: "sched_weak s" and r: "idle_wakeup env s = Some r"
  shows "outcome_calm s r"
proof -
  obtain s1 where s1: "systimer_tick (env_preemptive env) s = Some s1" "sched_inv s1"
    using systimer_tick_ok [OF sched_weak_loose [OF weak]] by blast
  obtain q where q: "scheduler_sync_ready_queue s1 = Some (s1\<lparr>g_ready := q\<rparr>)" "sched_inv (s1\<lparr>g_ready := q\<rparr>)"
    using resync_keeps [OF sched_inv_loose [OF s1(2)], of s1] by (auto simp: keeps_slots_def)
  let ?s2 = "s1\<lparr>g_ready := q\<rparr>"
  have "calm s s1" by (rule systimer_tick_calm [OF s1(1)]) (use weak in \<open>simp add: sched_weak_def\<close>)
  then have c2: "calm s ?s2" using calm_trans sync_calm [OF q(1)] by blast
  show ?thesis
  proof (cases "scheduler_pick_next_ready q = None \<or> g_current_process_index s1 = None")
    case True
    then have "r = Idle ?s2" using r s1 q by (auto simp: idle_wakeup_def split: option.splits)
    then show ?thesis using c2 by (simp add: outcome_calm_def)
  next
    case False
    then obtain n c where nc: "scheduler_pick_next_ready (g_ready ?s2) = Some n" "g_current_process_index ?s2 = Some c"
      by auto
    then have y: "yield_to env c n ?s2 = Some r" using r s1 q by (simp add: idle_wakeup_def)
    have "outcome_calm ?s2 r" by (rule yield_to_calm [OF y pick_alive [OF sched_inv_weak [OF q(2)] nc(2,1)]])
    then show ?thesis using calm_trans [OF c2] by (auto simp: outcome_calm_def split: outcome.splits)
  qed
qed

section \<open>Beginning and ending a wait\<close>

lemma wait_channel_blocks:
  assumes inv: "sched_live s" and c: "g_current_process_index s = Some c"
    and r: "process_wait_channel env channel s = Some r" and e: "ends r t"
  shows "chan_blocked channel t = insert c (chan_blocked channel s)" and "i < MAX_PROCESSES \<Longrightarrow> i \<noteq> c \<Longrightarrow> alive s i \<Longrightarrow> alive t i"
proof -
  have cb: "c < MAX_PROCESSES" "c < length (g_processes s)" "ps_state (g_processes s ! c) \<noteq> PROCESS_STATE_UNUSED"
    using inv c by (simp_all add: sched_live_def sched_weak_def one_running_def sched_shape_def in_state_def)
  then obtain s1 where s1: "scheduler_block_process c PROCESS_WAIT_EVENT_CHANNEL channel 0 0 s = Some s1"
      "process_yield env s1 = Some r"
    using r c by (auto simp: process_wait_channel_def bind_eq_Some_conv)
  have inv1: "sched_inv s1" by (rule block_inv [OF sched_live_loose [OF inv] cb(3) s1(1)])
  have c1: "g_current_process_index s1 = Some c" using block_current [OF s1(1)] c by simp
  obtain q where "s1 = (upd_proc c (\<lambda>p. process_core_block p PROCESS_WAIT_EVENT_CHANNEL channel 0 0) s)\<lparr>g_ready := q\<rparr>"
    using sync_only_queue [OF s1(1) [unfolded scheduler_block_process_def scheduler_sync_ready_queue_def]] by blast
  then have p1: "g_processes s1 = (g_processes s)[c := process_core_block (g_processes s ! c) PROCESS_WAIT_EVENT_CHANNEL channel 0 0]"
    by simp
  have t: "calm s1 t" by (rule ends_yield_calm [OF sched_inv_weak [OF inv1] c1 s1(2) e])
  have "chan_blocked channel s1 = insert c (chan_blocked channel s)"
    using cb(1,2) by (auto simp: chan_blocked_def p1 nth_list_update_if waits_on_channel_def process_core_block_def split: if_splits)
  then show "chan_blocked channel t = insert c (chan_blocked channel s)" using calm_blocked [OF t] by simp
  assume "i < MAX_PROCESSES" "i \<noteq> c" "alive s i"
  then have "alive s1 i" by (simp add: alive_def in_state_def p1)
  then show "alive t i" using t \<open>i < MAX_PROCESSES\<close> by (simp add: calm_def)
qed

lemma wake_first_unblocks:
  assumes run: "process_wake_first_channel channel s = Some (n, s')" and shape: "sched_shape s"
  shows "(chan_blocked channel s = {} \<and> chan_blocked channel s' = {}) \<or>
    (\<exists>i \<in> chan_blocked channel s. chan_blocked channel s' = chan_blocked channel s - {i} \<and> alive s' i)"
    and "i < MAX_PROCESSES \<Longrightarrow> alive s i \<Longrightarrow> alive s' i"
proof -
  have len: "length (g_processes s) = MAX_PROCESSES" using shape by (simp add: sched_shape_def)
  let ?find = "first_index_cyclic (waits_on_channel channel) (g_processes s) (cyclic_start (g_current_process_index s))"
  have "((chan_blocked channel s = {} \<and> chan_blocked channel s' = {}) \<or>
    (\<exists>i \<in> chan_blocked channel s. chan_blocked channel s' = chan_blocked channel s - {i} \<and> alive s' i)) \<and>
    (\<forall>i<MAX_PROCESSES. alive s i \<longrightarrow> alive s' i)"
  proof (cases ?find)
    case None
    then have "scheduler_sync_ready_queue (s\<lparr>g_processes := g_processes s\<rparr>) = Some s'"
      using run len by (auto simp: process_wake_first_channel_def process_core_wake_first_channel_def MAX_PROCESSES_def
          split: if_splits)
    then have "calm s s'" using calm_trans [OF calm_same sync_calm] by simp
    moreover have "chan_blocked channel s = {}"
      using None len by (auto simp: first_index_cyclic_None chan_blocked_def)
    ultimately show ?thesis using calm_blocked [of s s' channel] by (auto simp: calm_def)
  next
    case (Some i)
    then have i: "i < MAX_PROCESSES" "waits_on_channel channel (g_processes s ! i)"
      using first_index_cyclic_SomeD [OF Some] len by simp_all
    let ?t = "s\<lparr>g_processes := (g_processes s)[i := process_core_make_ready (g_processes s ! i)]\<rparr>"
    have "scheduler_sync_ready_queue ?t = Some s'"
      using run Some i(1) len
      by (auto simp: process_wake_first_channel_def process_core_wake_first_channel_def split: if_splits)
    then have t: "calm ?t s'" by (rule sync_calm)
    have "chan_blocked channel ?t = chan_blocked channel s - {i}"
      using i len by (auto simp: chan_blocked_def nth_list_update_if split: if_splits)
    moreover have "alive ?t i" using i len by (simp add: alive_def in_state_def process_core_make_ready_def waits_on_channel_def)
    moreover have "alive ?t j" if "alive s j" for j
      using that i by (auto simp: alive_def in_state_def nth_list_update_if process_core_make_ready_def)
    moreover have "i \<in> chan_blocked channel s" using i by (simp add: chan_blocked_def)
    ultimately show ?thesis using t i(1) calm_blocked [OF t, of channel] unfolding calm_def by blast
  qed
  then show "(chan_blocked channel s = {} \<and> chan_blocked channel s' = {}) \<or>
    (\<exists>i \<in> chan_blocked channel s. chan_blocked channel s' = chan_blocked channel s - {i} \<and> alive s' i)"
    "i < MAX_PROCESSES \<Longrightarrow> alive s i \<Longrightarrow> alive s' i" by blast+
qed

lemma wake_all_unblocks:
  assumes run: "process_wake_channel channel s = Some (n, s')" and shape: "sched_shape s"
  shows "chan_blocked channel s' = {}" and "n = card (chan_blocked channel s)"
    and "i \<in> chan_blocked channel s \<Longrightarrow> alive s' i"
proof -
  have len: "length (g_processes s) = MAX_PROCESSES" using shape by (simp add: sched_shape_def)
  let ?t = "s\<lparr>g_processes := fst (process_core_wake_channel (g_processes s) channel)\<rparr>"
  have "scheduler_sync_ready_queue ?t = Some s'" "n = snd (process_core_wake_channel (g_processes s) channel)"
    using run by (auto simp: process_wake_channel_def split: prod.splits)
  then have t: "calm ?t s'" and n: "n = length (filter (waits_on_channel channel) (g_processes s))"
    using sync_calm by (auto simp: process_core_wake_channel_def update_where_eq)
  show "n = card (chan_blocked channel s)"
    unfolding n chan_blocked_def length_filter_conv_card len ..
  have "chan_blocked channel ?t = {}"
    using len by (auto simp: chan_blocked_def process_core_wake_channel_def update_where_eq)
  then show "chan_blocked channel s' = {}" using calm_blocked [OF t] by simp
  assume i: "i \<in> chan_blocked channel s"
  then have "alive ?t i"
    using len by (auto simp: chan_blocked_def alive_def in_state_def process_core_wake_channel_def update_where_eq
        process_core_make_ready_def waits_on_channel_def)
  then show "alive s' i" using t i by (simp add: calm_def chan_blocked_def)
qed

end
