(* ===== verification/Kmem_Inv.thy ===== *)
theory Kmem_Inv
  imports Kmem
begin

text \<open>
  The linked list of \<open>kmem.c\<close> as a sequence of blocks, each a size and whether it is used, that tiles the
  arena; what the loops of the allocator compute on it; the invariant of the heap and the theorems.
\<close>

section \<open>Layouts\<close>

type_synonym layout = "(nat \<times> bool) list"

fun chain :: "kmem_arena \<Rightarrow> nat ptr \<Rightarrow> nat \<Rightarrow> layout \<Rightarrow> bool" where
  "chain h p a [] \<longleftrightarrow> p = None \<and> a = KMEM_ARENA_SIZE"
| "chain h p a ((n, u) # bs) \<longleftrightarrow> p = Some a \<and>
     (\<exists>b. h a = Some b \<and> unat (kb_size b) = n \<and> u = (kb_used b \<noteq> 0) \<and>
        chain h (kb_next b) (a + kmem_block_sizeof + n) bs)"

lemma chain_span: "chain h p a bs \<Longrightarrow> a + (\<Sum>(n, u)\<leftarrow>bs. kmem_block_sizeof + n) = KMEM_ARENA_SIZE"
proof (induction bs arbitrary: p a)
  case (Cons b bs)
  then show ?case by (cases b) (auto simp: add.assoc dest!: Cons.IH)
qed simp

lemma chain_bound: "chain h p a bs \<Longrightarrow> a \<le> KMEM_ARENA_SIZE"
  using chain_span by force

lemma chain_frame:
  assumes "chain h p a bs" and "\<And>x. a \<le> x \<Longrightarrow> h' x = h x"
  shows "chain h' p a bs"
  using assms
proof (induction bs arbitrary: p a)
  case (Cons b bs)
  obtain n u where b: "b = (n, u)" by force
  from Cons.prems(1) obtain c where c: "p = Some a" "h a = Some c" "unat (kb_size c) = n" "u = (kb_used c \<noteq> 0)"
      "chain h (kb_next c) (a + kmem_block_sizeof + n) bs"
    by (auto simp: b)
  have "chain h' (kb_next c) (a + kmem_block_sizeof + n) bs" by (rule Cons.IH [OF c(5)]) (simp add: Cons.prems(2))
  then show ?case using c Cons.prems(2) by (simp add: b)
qed simp

subsection \<open>Allocation\<close>

fun fit :: "nat \<Rightarrow> nat \<Rightarrow> layout \<Rightarrow> nat option" where
  "fit s a [] = None"
| "fit s a ((n, u) # bs) = (if \<not> u \<and> s \<le> n then Some a else fit s (a + kmem_block_sizeof + n) bs)"

definition min_split :: nat where "min_split = kmem_block_sizeof + 8"

fun place :: "nat \<Rightarrow> layout \<Rightarrow> layout" where
  "place s [] = []"
| "place s ((n, u) # bs) =
     (if \<not> u \<and> s \<le> n
      then if n - s \<le> min_split then (n, True) # bs else (s, True) # (n - s - kmem_block_sizeof, False) # bs
      else (n, u) # place s bs)"

fun granted :: "nat \<Rightarrow> layout \<Rightarrow> nat" where
  "granted s [] = 0"
| "granted s ((n, u) # bs) =
     (if \<not> u \<and> s \<le> n then if n - s \<le> min_split then n else s else granted s bs)"

lemma fit_ge: "fit s a bs = Some x \<Longrightarrow> a \<le> x"
  by (induction s a bs rule: fit.induct) (auto split: if_splits)

lemma first_fit_eq: "chain h p a bs \<Longrightarrow> first_fit h s p = Some (fit (unat s) a bs)"
proof (induction bs arbitrary: p a)
  case Nil
  then show ?case by (simp add: first_fit.simps)
next
  case (Cons b bs)
  then show ?case by (cases b) (auto simp: first_fit.simps [of h s "Some a"] word_le_nat_alt)
qed

lemma unat_split:
  assumes "unat s \<le> unat n"
  shows "unat (n - s) = unat n - unat s"
    and "(n - s \<le> of_nat kmem_block_sizeof + KMEM_ALIGNMENT) \<longleftrightarrow> unat n - unat s \<le> min_split"
    and "min_split < unat n - unat s \<Longrightarrow> unat (n - s - of_nat kmem_block_sizeof) = unat n - unat s - kmem_block_sizeof"
proof -
  show d: "unat (n - s) = unat n - unat s" using assms by (simp add: unat_sub word_le_nat_alt)
  show "(n - s \<le> of_nat kmem_block_sizeof + KMEM_ALIGNMENT) \<longleftrightarrow> unat n - unat s \<le> min_split"
    by (simp add: word_le_nat_alt d kmem_block_sizeof_def KMEM_ALIGNMENT_def min_split_def)
  assume "min_split < unat n - unat s"
  then have "(12 :: u32) \<le> n - s" by (simp add: word_le_nat_alt d min_split_def kmem_block_sizeof_def)
  then show "unat (n - s - of_nat kmem_block_sizeof) = unat n - unat s - kmem_block_sizeof"
    by (simp add: kmem_block_sizeof_def unat_sub d)
qed

text \<open>Splitting and marking the block that fits.\<close>

lemma alloc_chain:
  assumes "chain h p a bs" and "fit (unat s) a bs = Some x"
  shows "\<exists>h' b. kmem_split_block x s h = Some h' \<and> h' x = Some b \<and> unat (kb_size b) = granted (unat s) bs \<and>
    chain (h'(x \<mapsto> b\<lparr>kb_used := 1\<rparr>)) p a (place (unat s) bs) \<and> (\<forall>y<a. h' y = h y)"
  using assms
proof (induction bs arbitrary: p a)
  case (Cons c bs)
  obtain n u where c: "c = (n, u)" by force
  from Cons.prems(1) obtain b where b: "p = Some a" "h a = Some b" "unat (kb_size b) = n" "u = (kb_used b \<noteq> 0)"
      "chain h (kb_next b) (a + kmem_block_sizeof + n) bs"
    by (auto simp: c)
  show ?case
  proof (cases "\<not> u \<and> unat s \<le> n")
    case True
    then have x: "x = a" using Cons.prems(2) by (simp add: c)
    have le: "unat s \<le> unat (kb_size b)" using True b(3) by simp
    note sp = unat_split [OF le, unfolded b(3)]
    show ?thesis
    proof (cases "n - unat s \<le> min_split")
      case small: True
      have "chain (h(a \<mapsto> b\<lparr>kb_used := 1\<rparr>)) (kb_next b) (a + kmem_block_sizeof + n) bs"
        by (rule chain_frame [OF b(5)]) (simp add: kmem_block_sizeof_def)
      then have "chain (h(a \<mapsto> b\<lparr>kb_used := 1\<rparr>)) p a (place (unat s) (c # bs))"
        using True small b by (simp add: c del: fun_upd_apply add: fun_upd_same)
      moreover have "kmem_split_block x s h = Some h" using small sp(2) by (simp add: kmem_split_block_def x b(2) Let_def)
      ultimately show ?thesis using True small b by (intro exI [of _ h] exI [of _ b]) (simp add: x c del: fun_upd_apply)
    next
      case False
      define y where "y = a + kmem_block_sizeof + unat s"
      define f where "f = \<lparr>kb_size = kb_size b - s - of_nat kmem_block_sizeof, kb_used = 0, kb_next = kb_next b\<rparr>"
      define h' where "h' = h(y \<mapsto> f, a \<mapsto> b\<lparr>kb_size := s, kb_next := Some y\<rparr>)"
      have split: "kmem_split_block x s h = Some h'"
        using False sp(2) by (simp add: kmem_split_block_def x b(2) Let_def h'_def y_def f_def)
      have ya: "a < y" by (simp add: y_def kmem_block_sizeof_def)
      have fs: "unat (kb_size f) = n - unat s - kmem_block_sizeof" using False sp(3) by (simp add: f_def)
      have addr: "y + kmem_block_sizeof + (n - unat s - kmem_block_sizeof) = a + kmem_block_sizeof + n"
        using True False by (simp add: y_def min_split_def)
      have "chain (h'(a \<mapsto> z)) (kb_next b) (y + kmem_block_sizeof + (n - unat s - kmem_block_sizeof)) bs" for z
        unfolding addr by (rule chain_frame [OF b(5)])
           (use True False in \<open>auto simp: h'_def y_def min_split_def kmem_block_sizeof_def\<close>)
      then have "chain (h'(a \<mapsto> b\<lparr>kb_size := s, kb_next := Some y, kb_used := 1\<rparr>)) p a (place (unat s) (c # bs))"
        using True False b(1,3) ya fs by (auto simp: c h'_def y_def [symmetric] f_def)
      then have ch: "chain (h'(x \<mapsto> (b\<lparr>kb_size := s, kb_next := Some y\<rparr>)\<lparr>kb_used := 1\<rparr>)) p a (place (unat s) (c # bs))"
        by (simp only: x)
      show ?thesis
      proof (intro exI conjI)
        show "h' x = Some (b\<lparr>kb_size := s, kb_next := Some y\<rparr>)" "\<forall>z<a. h' z = h z"
          using ya by (simp_all add: x h'_def)
        show "kmem_split_block x s h = Some h'" by (rule split)
        show "unat (kb_size (b\<lparr>kb_size := s, kb_next := Some y\<rparr>)) = granted (unat s) (c # bs)"
          using True False by (simp add: c)
        show "chain (h'(x \<mapsto> (b\<lparr>kb_size := s, kb_next := Some y\<rparr>)\<lparr>kb_used := 1\<rparr>)) p a (place (unat s) (c # bs))"
          by (rule ch)
      qed
    qed
  next
    case False
    then have "fit (unat s) (a + kmem_block_sizeof + n) bs = Some x" using Cons.prems(2) by (auto simp: c)
    from Cons.IH [OF b(5) this] fit_ge [OF this] obtain h' d where
      "kmem_split_block x s h = Some h'" "h' x = Some d" "unat (kb_size d) = granted (unat s) bs"
      "chain (h'(x \<mapsto> d\<lparr>kb_used := 1\<rparr>)) (kb_next b) (a + kmem_block_sizeof + n) (place (unat s) bs)"
      "\<forall>y<a + kmem_block_sizeof + n. h' y = h y" "a + kmem_block_sizeof + n \<le> x"
      by blast
    moreover from this have "h' a = Some b" using b(2) by (simp add: kmem_block_sizeof_def)
    ultimately have "chain (h'(x \<mapsto> d\<lparr>kb_used := 1\<rparr>)) p a (place (unat s) (c # bs))"
      using False b by (auto simp: c kmem_block_sizeof_def)
    with \<open>kmem_split_block x s h = Some h'\<close> \<open>h' x = Some d\<close> show ?thesis
      using \<open>unat (kb_size d) = granted (unat s) bs\<close> \<open>\<forall>y<a + kmem_block_sizeof + n. h' y = h y\<close> False
      by (metis (no_types, lifting) c granted.simps(2) trans_less_add1)
  qed
qed simp

subsection \<open>Freeing\<close>

text \<open>The used blocks, by the address of their payload.\<close>

fun live_blocks :: "nat \<Rightarrow> layout \<Rightarrow> (nat \<times> nat) list" where
  "live_blocks a [] = []"
| "live_blocks a ((n, u) # bs) =
     (if u then [(a + kmem_block_sizeof, n)] else []) @ live_blocks (a + kmem_block_sizeof + n) bs"

lemma live_blocks_ge: "(x, n) \<in> set (live_blocks a bs) \<Longrightarrow> a + kmem_block_sizeof \<le> x"
  by (induction a bs rule: live_blocks.induct) (auto split: if_splits)

fun release :: "nat \<Rightarrow> nat \<Rightarrow> layout \<Rightarrow> layout" where
  "release x a [] = []"
| "release x a ((n, u) # bs) = (if x = a then (n, False) # bs else (n, u) # release x (a + kmem_block_sizeof + n) bs)"

lemma release_chain:
  assumes "chain h p a bs" and "(x + kmem_block_sizeof, n) \<in> set (live_blocks a bs)"
  shows "\<exists>b. h x = Some b \<and> kb_used b \<noteq> 0 \<and> unat (kb_size b) = n \<and>
    chain (h(x \<mapsto> b\<lparr>kb_used := 0\<rparr>)) p a (release x a bs)"
  using assms
proof (induction bs arbitrary: p a)
  case (Cons c bs)
  obtain m u where c: "c = (m, u)" by force
  from Cons.prems(1) obtain b where b: "p = Some a" "h a = Some b" "unat (kb_size b) = m" "u = (kb_used b \<noteq> 0)"
      "chain h (kb_next b) (a + kmem_block_sizeof + m) bs"
    by (auto simp: c)
  show ?case
  proof (cases "(x + kmem_block_sizeof, n) \<in> set (live_blocks (a + kmem_block_sizeof + m) bs)")
    case True
    have "a + kmem_block_sizeof + m + kmem_block_sizeof \<le> x + kmem_block_sizeof" by (rule live_blocks_ge [OF True])
    then have "x \<noteq> a" by (simp add: kmem_block_sizeof_def)
    with Cons.IH [OF b(5) True] b show ?thesis by (auto simp: c)
  next
    case False
    then have "u" "x = a" "n = m" using Cons.prems(2) by (auto simp: c split: if_splits)
    moreover have "chain (h(a \<mapsto> b\<lparr>kb_used := 0\<rparr>)) (kb_next b) (a + kmem_block_sizeof + m) bs"
      by (rule chain_frame [OF b(5)]) (simp add: kmem_block_sizeof_def)
    ultimately show ?thesis using b by (simp add: c del: fun_upd_apply add: fun_upd_same)
  qed
qed simp

fun absorb :: "layout \<Rightarrow> layout" where
  "absorb ((n, False) # (m, False) # bs) = absorb ((n + kmem_block_sizeof + m, False) # bs)"
| "absorb bs = bs"

fun fuse :: "layout \<Rightarrow> layout" where
  "fuse ((n, False) # (m, False) # bs) = fuse ((n + kmem_block_sizeof + m, False) # bs)"
| "fuse (b # bs) = b # fuse bs"
| "fuse [] = []"

fun coalesced :: "layout \<Rightarrow> bool" where
  "coalesced ((n, u) # (m, v) # bs) \<longleftrightarrow> (u \<or> v) \<and> coalesced ((m, v) # bs)"
| "coalesced bs \<longleftrightarrow> True"

lemma fuse_absorb: "fuse bs = (case absorb bs of [] \<Rightarrow> [] | b # rest \<Rightarrow> b # fuse rest)"
  by (induction bs rule: absorb.induct) auto

lemma fuse_head: "\<exists>m. fuse ((n, u) # bs) = (m, u) # tl (fuse ((n, u) # bs))"
  by (induction "(n, u) # bs" arbitrary: n u bs rule: fuse.induct) auto

lemma coalesced_Cons: "coalesced ((n, u) # bs) \<longleftrightarrow> coalesced bs \<and> (bs = [] \<or> u \<or> snd (hd bs))"
  by (cases bs; cases "hd bs") auto

lemma absorb_coalesced_head:
  "absorb ((n, u) # bs) = (m, v) # rest \<Longrightarrow> v = u \<and> (rest = [] \<or> u \<or> snd (hd rest))"
  by (induction "(n, u) # bs" arbitrary: n u bs rule: absorb.induct) auto

lemma hd_fuse: "bs \<noteq> [] \<Longrightarrow> fuse bs \<noteq> [] \<and> snd (hd (fuse bs)) = snd (hd bs)"
  by (induction bs rule: fuse.induct) auto

lemma absorb_length: "length (absorb bs) \<le> length bs"
  by (induction bs rule: absorb.induct) auto

lemma coalesced_fuse: "coalesced (fuse bs)"
proof (induction bs rule: length_induct)
  case (1 bs)
  show ?case
  proof (cases "absorb bs")
    case Nil
    then show ?thesis by (simp add: fuse_absorb [of bs])
  next
    case (Cons b rest)
    obtain m v where b: "b = (m, v)" by force
    have "bs \<noteq> []" using Cons by auto
    then obtain n u bs' where bs: "bs = (n, u) # bs'" by (cases bs) auto
    have "length rest < length bs" using absorb_length [of bs] Cons by simp
    then have "coalesced (fuse rest)" using 1 by blast
    moreover have "rest = [] \<or> v \<or> snd (hd rest)" using absorb_coalesced_head [of n u bs' m v rest] Cons bs b by auto
    ultimately show ?thesis
      using hd_fuse [of rest] by (cases "rest = []") (auto simp: fuse_absorb [of bs] Cons b coalesced_Cons)
  qed
qed

lemma fuse_id: "coalesced bs \<Longrightarrow> fuse bs = bs"
  by (induction bs rule: fuse.induct) (auto simp: coalesced_Cons)

text \<open>What the loops of \<open>kmem_coalesce\<close> do; the sizes stay below the size of the arena.\<close>

lemma absorb_next_chain:
  assumes "chain h (Some a) a bs"
  shows "\<exists>h'. absorb_next a h = Some h' \<and> chain h' (Some a) a (absorb bs) \<and> (\<forall>y. y \<noteq> a \<longrightarrow> h' y = h y)"
  using assms
proof (induction bs arbitrary: h rule: absorb.induct)
  case (1 n m bs)
  from "1.prems" obtain b c where b: "h a = Some b" "unat (kb_size b) = n" "kb_used b = 0"
      "kb_next b = Some (a + kmem_block_sizeof + n)"
    and c: "h (a + kmem_block_sizeof + n) = Some c" "unat (kb_size c) = m" "kb_used c = 0"
      "chain h (kb_next c) (a + kmem_block_sizeof + n + kmem_block_sizeof + m) bs"
    by auto
  define d where "d = b\<lparr>kb_size := kb_size b + (of_nat kmem_block_sizeof + kb_size c), kb_next := kb_next c\<rparr>"
  have "a + kmem_block_sizeof + n + kmem_block_sizeof + m \<le> KMEM_ARENA_SIZE" by (rule chain_bound [OF c(4)])
  then have "unat (kb_size d) = n + kmem_block_sizeof + m"
    using b(2) c(2) by (simp add: d_def unat_word_ariths kmem_block_sizeof_def KMEM_ARENA_SIZE_def)
  moreover have "chain (h(a \<mapsto> d)) (kb_next c) (a + kmem_block_sizeof + n + kmem_block_sizeof + m) bs"
    by (rule chain_frame [OF c(4)]) (simp add: kmem_block_sizeof_def)
  ultimately have "chain (h(a \<mapsto> d)) (Some a) a ((n + kmem_block_sizeof + m, False) # bs)"
    using b(3) by (simp add: d_def add.assoc)
  from "1.IH" [OF this] obtain h' where "absorb_next a (h(a \<mapsto> d)) = Some h'"
      "chain h' (Some a) a (absorb ((n + kmem_block_sizeof + m, False) # bs))" "\<forall>y. y \<noteq> a \<longrightarrow> h' y = (h(a \<mapsto> d)) y"
    by blast
  then show ?case using b c by (auto simp: absorb_next.simps [of a h] d_def)
qed (auto simp: absorb_next.simps split: option.split)

lemma coalesce_chain:
  assumes "chain h p a bs"
  shows "\<exists>h'. coalesce_from p h = Some h' \<and> chain h' p a (fuse bs) \<and> (\<forall>y<a. h' y = h y)"
  using assms
proof (induction "length bs" arbitrary: bs h p a rule: less_induct)
  case less
  show ?case
  proof (cases bs)
    case Nil
    then show ?thesis using less.prems by (simp add: coalesce_from.simps)
  next
    case (Cons c cs)
    then have p: "p = Some a" using less.prems by (cases c) simp
    obtain h1 where h1: "absorb_next a h = Some h1" "chain h1 (Some a) a (absorb bs)" "\<forall>y. y \<noteq> a \<longrightarrow> h1 y = h y"
      using absorb_next_chain less.prems p by blast
    obtain m u rest where ab: "absorb bs = (m, u) # rest" using h1(2) by (cases "absorb bs") auto
    from h1(2) obtain b where b: "h1 a = Some b" "unat (kb_size b) = m" "u = (kb_used b \<noteq> 0)"
        "chain h1 (kb_next b) (a + kmem_block_sizeof + m) rest"
      by (auto simp: ab)
    have "length rest < length bs" using absorb_length [of bs] ab by simp
    from less.hyps [OF this b(4)] obtain h2 where h2: "coalesce_from (kb_next b) h1 = Some h2"
        "chain h2 (kb_next b) (a + kmem_block_sizeof + m) (fuse rest)" "\<forall>y<a + kmem_block_sizeof + m. h2 y = h1 y"
      by blast
    have "h2 a = Some b" using h2(3) b(1) by (simp add: kmem_block_sizeof_def)
    moreover have "coalesce_from p h = Some h2" using h1(1) b(1) h2(1) by (simp add: p coalesce_from.simps [of "Some a" h])
    ultimately show ?thesis
      using h1(3) h2 b p by (intro exI [of _ h2]) (simp add: fuse_absorb [of bs] ab)
  qed
qed

section \<open>The invariant\<close>

definition used_bytes :: "layout \<Rightarrow> nat" where
  "used_bytes bs = sum_list (map (\<lambda>(n, u). if u then n else 0) bs)"

definition used_count :: "layout \<Rightarrow> nat" where
  "used_count bs = length (filter snd bs)"

definition kmem_layout :: "kmem \<Rightarrow> layout \<Rightarrow> bool" where
  "kmem_layout k bs \<longleftrightarrow> chain (g_kmem_arena (kmem_init k)) (g_kmem_head (kmem_init k)) 0 bs"

definition kmem_inv :: "kmem \<Rightarrow> layout \<Rightarrow> bool" where
  "kmem_inv k bs \<longleftrightarrow> kmem_layout k bs \<and> coalesced bs \<and>
     unat (g_kmem_bytes_in_use (kmem_init k)) = used_bytes bs \<and>
     unat (g_kmem_live_allocations (kmem_init k)) = used_count bs"

lemma kmem_init_init [simp]: "kmem_init (kmem_init k) = kmem_init k"
  by (simp add: kmem_init_def)

lemma used_bytes_simps [simp]:
  "used_bytes [] = 0" "used_bytes ((n, u) # bs) = (if u then n else 0) + used_bytes bs"
  by (simp_all add: used_bytes_def)

lemma used_count_simps [simp]:
  "used_count [] = 0" "used_count ((n, u) # bs) = (if u then 1 else 0) + used_count bs"
  by (simp_all add: used_count_def)

lemma used_le_span:
  "used_bytes bs + kmem_block_sizeof * used_count bs \<le> (\<Sum>(n, u)\<leftarrow>bs. kmem_block_sizeof + n)"
  by (induction bs) (auto simp: kmem_block_sizeof_def)

lemma used_place:
  assumes "fit s a bs = Some x"
  shows "used_bytes (place s bs) = used_bytes bs + granted s bs" and "used_count (place s bs) = used_count bs + 1"
  using assms by (induction s a bs rule: fit.induct) (auto split: if_splits)

lemma used_release:
  assumes "(x + kmem_block_sizeof, n) \<in> set (live_blocks a bs)"
  shows "used_bytes (release x a bs) + n = used_bytes bs" and "used_count (release x a bs) + 1 = used_count bs"
  using assms
proof (induction x a bs rule: release.induct)
  case (2 x a m u bs)
  {
    case 1
    show ?case
      using 1 2 live_blocks_ge [of "x + kmem_block_sizeof" n "a + kmem_block_sizeof + m" bs]
      by (auto simp: kmem_block_sizeof_def split: if_splits)
  next
    case 2
    show ?case
      using 2 "2.IH" live_blocks_ge [of "x + kmem_block_sizeof" n "a + kmem_block_sizeof + m" bs]
      by (auto simp: kmem_block_sizeof_def split: if_splits)
  }
qed simp_all

lemma used_fuse: "used_bytes (fuse bs) = used_bytes bs" "used_count (fuse bs) = used_count bs"
  by (induction bs rule: fuse.induct) auto

lemma coalesced_place: "coalesced bs \<Longrightarrow> coalesced (place s bs)"
proof (induction bs)
  case (Cons b bs)
  obtain n u where b: "b = (n, u)" by force
  have "bs \<noteq> [] \<Longrightarrow> place s bs \<noteq> [] \<and> (snd (hd bs) \<longrightarrow> snd (hd (place s bs)))"
    by (cases bs; cases "hd bs") auto
  then show ?case using Cons by (cases "bs = []") (auto simp: b coalesced_Cons)
qed simp

section \<open>Allocation and freeing keep the invariant\<close>

lemma align_up_unat:
  assumes "unat s + 7 < 2 ^ 32"
  shows "unat (kmem_align_up s) = (unat s + 7) div 8 * 8"
proof -
  let ?x = "s + 7"
  have x: "unat ?x = unat s + 7" using assms by (simp add: unat_word_ariths)
  have "?x AND NOT 7 = ?x - (?x AND 7)"
    by (metis (no_types, lifting) and_zero_eq bit.compl_zero bit.conj_disj_distrib bit.de_Morgan_conj
        bit_and_iff disjunctive_diff word_and_max word_and_not)
  moreover have "?x AND 7 = ?x mod 8"
    using take_bit_eq_mask [of 3 ?x] take_bit_eq_mod [of 3 ?x] by (simp add: mask_eq_exp_minus_1)
  moreover have "?x mod 8 \<le> ?x" by (simp add: word_le_nat_alt unat_mod)
  ultimately have "unat (kmem_align_up s) = unat ?x - unat ?x mod 8"
    by (simp add: kmem_align_up_def KMEM_ALIGNMENT_def unat_sub unat_mod)
  then show ?thesis using x by (simp add: minus_mod_eq_div_mult)
qed

lemma layout_used_bound:
  assumes "kmem_layout k bs"
  shows "used_bytes bs + kmem_block_sizeof * used_count bs \<le> KMEM_ARENA_SIZE"
  using chain_span [OF assms [unfolded kmem_layout_def]] used_le_span [of bs] by simp

lemma count_allocation_simps [simp]:
  "g_kmem_arena (count_allocation n k) = g_kmem_arena k" "g_kmem_head (count_allocation n k) = g_kmem_head k"
  "g_kmem_initialized (count_allocation n k) = g_kmem_initialized k"
  "g_kmem_bytes_in_use (count_allocation n k) = g_kmem_bytes_in_use k + n"
  "g_kmem_live_allocations (count_allocation n k) = g_kmem_live_allocations k + 1"
  by (simp_all add: count_allocation_def Let_def)

lemma kmem_init_initialized: "g_kmem_initialized k \<Longrightarrow> kmem_init k = k"
  by (simp add: kmem_init_def)

lemma initialized_init [simp]: "g_kmem_initialized (kmem_init k)"
  by (simp add: kmem_init_def)

lemma alloc_some:
  assumes inv: "kmem_inv k bs" and s: "s \<noteq> 0" and x: "fit (unat (kmem_align_up s)) 0 bs = Some x"
  shows "\<exists>k'. kmem_alloc s k = Some (Some (x + kmem_block_sizeof), k') \<and>
    kmem_inv k' (place (unat (kmem_align_up s)) bs)"
proof -
  let ?k = "kmem_init k" and ?s = "kmem_align_up s"
  have ch: "chain (g_kmem_arena ?k) (g_kmem_head ?k) 0 bs" and co: "coalesced bs"
    and cnt: "unat (g_kmem_bytes_in_use ?k) = used_bytes bs" "unat (g_kmem_live_allocations ?k) = used_count bs"
    using inv by (simp_all add: kmem_inv_def kmem_layout_def)
  obtain h b where h: "kmem_split_block x ?s (g_kmem_arena ?k) = Some h" "h x = Some b"
      "unat (kb_size b) = granted (unat ?s) bs"
      "chain (h(x \<mapsto> b\<lparr>kb_used := 1\<rparr>)) (g_kmem_head ?k) 0 (place (unat ?s) bs)"
    using alloc_chain [OF ch x] by blast
  define k' where "k' = count_allocation (kb_size b) (?k\<lparr>g_kmem_arena := h(x \<mapsto> b\<lparr>kb_used := 1\<rparr>)\<rparr>)"
  have "kmem_alloc s k = Some (Some (x + kmem_block_sizeof), k')"
    using s first_fit_eq [OF ch, of ?s] x h(1,2) by (simp add: kmem_alloc_def Let_def k'_def)
  moreover have init: "kmem_init k' = k'" by (rule kmem_init_initialized) (simp add: k'_def)
  have lay: "kmem_layout k' (place (unat ?s) bs)" unfolding kmem_layout_def init using h(4) by (simp add: k'_def)
  note used = used_place [OF x]
  have "unat (g_kmem_bytes_in_use k') = used_bytes (place (unat ?s) bs)"
    using layout_used_bound [OF lay] used cnt h(3)
    by (simp add: k'_def unat_word_ariths KMEM_ARENA_SIZE_def)
  moreover have "unat (g_kmem_live_allocations k') = used_count (place (unat ?s) bs)"
    using layout_used_bound [OF lay] used cnt
    by (simp add: k'_def unat_word_ariths KMEM_ARENA_SIZE_def kmem_block_sizeof_def)
  ultimately show ?thesis using lay coalesced_place [OF co] by (auto simp: kmem_inv_def init)
qed

lemma alloc_none:
  assumes inv: "kmem_inv k bs" and s: "s = 0 \<or> fit (unat (kmem_align_up s)) 0 bs = None"
  shows "\<exists>k'. kmem_alloc s k = Some (None, k') \<and> kmem_inv k' bs"
proof -
  let ?k = "kmem_init k"
  have ch: "chain (g_kmem_arena ?k) (g_kmem_head ?k) 0 bs" using inv by (simp add: kmem_inv_def kmem_layout_def)
  define k' where "k' = ?k\<lparr>g_kmem_allocation_fail_count := g_kmem_allocation_fail_count ?k + 1\<rparr>"
  have "kmem_alloc s k = Some (None, k')"
    using s first_fit_eq [OF ch, of "kmem_align_up s"] by (auto simp: kmem_alloc_def Let_def k'_def)
  moreover have "kmem_init k' = k'" by (rule kmem_init_initialized) (simp add: k'_def)
  then have "kmem_inv k' bs" using inv by (simp add: kmem_inv_def kmem_layout_def k'_def)
  ultimately show ?thesis by blast
qed

lemma live_initialized:
  assumes "kmem_layout k bs" and "(p, n) \<in> set (live_blocks 0 bs)"
  shows "g_kmem_initialized k"
proof (rule ccontr)
  assume "\<not> g_kmem_initialized k"
  then have ch: "chain ((g_kmem_arena k)(0 \<mapsto> \<lparr>kb_size = of_nat (KMEM_ARENA_SIZE - kmem_block_sizeof), kb_used = 0,
      kb_next = None\<rparr>)) (Some 0) 0 bs"
    using assms(1) by (simp add: kmem_layout_def kmem_init_def)
  then obtain m u rest where bs: "bs = (m, u) # rest"
    by (cases bs) auto
  then have "\<not> u" "chain ((g_kmem_arena k)(0 \<mapsto> \<lparr>kb_size = of_nat (KMEM_ARENA_SIZE - kmem_block_sizeof), kb_used = 0,
      kb_next = None\<rparr>)) None (kmem_block_sizeof + m) rest"
    using ch by auto
  then have "rest = []" by (cases rest) auto
  then show False using assms(2) bs \<open>\<not> u\<close> by simp
qed

lemma free_live:
  assumes inv: "kmem_inv k bs" and p: "(x + kmem_block_sizeof, n) \<in> set (live_blocks 0 bs)"
  shows "\<exists>k'. kmem_free (Some (x + kmem_block_sizeof)) k = Some k' \<and> kmem_inv k' (fuse (release x 0 bs))"
proof -
  have lay: "kmem_layout k bs" using inv by (simp add: kmem_inv_def)
  have init: "kmem_init k = k" "g_kmem_initialized k"
    using live_initialized [OF lay p] by (simp_all add: kmem_init_initialized)
  have ch: "chain (g_kmem_arena k) (g_kmem_head k) 0 bs"
    and cnt: "unat (g_kmem_bytes_in_use k) = used_bytes bs" "unat (g_kmem_live_allocations k) = used_count bs"
    using inv by (simp_all add: kmem_inv_def kmem_layout_def init)
  obtain b where b: "g_kmem_arena k x = Some b" "kb_used b \<noteq> 0" "unat (kb_size b) = n"
      "chain ((g_kmem_arena k)(x \<mapsto> b\<lparr>kb_used := 0\<rparr>)) (g_kmem_head k) 0 (release x 0 bs)"
    using release_chain [OF ch p] by blast
  obtain h where h: "coalesce_from (g_kmem_head k) ((g_kmem_arena k)(x \<mapsto> b\<lparr>kb_used := 0\<rparr>)) = Some h"
      "chain h (g_kmem_head k) 0 (fuse (release x 0 bs))"
    using coalesce_chain [OF b(4)] by blast
  note used = used_release [OF p]
  have le: "kb_size b \<le> g_kmem_bytes_in_use k" "g_kmem_live_allocations k \<noteq> 0"
    using used cnt b(3) by (auto simp: word_le_nat_alt unat_eq_0 [symmetric] simp del: unat_eq_0)
  define k' where "k' = k\<lparr>g_kmem_arena := h, g_kmem_bytes_in_use := g_kmem_bytes_in_use k - kb_size b,
      g_kmem_live_allocations := g_kmem_live_allocations k - 1, g_kmem_free_count := g_kmem_free_count k + 1\<rparr>"
  have "kmem_free (Some (x + kmem_block_sizeof)) k = Some k'"
    using b(1,2) le h(1) by (simp add: kmem_free_def kmem_coalesce_def k'_def)
  moreover have "kmem_init k' = k'" by (rule kmem_init_initialized) (simp add: k'_def init)
  moreover have "unat (g_kmem_bytes_in_use k') = used_bytes (fuse (release x 0 bs))"
    using used(1) cnt(1) b(3) le(1) by (simp add: k'_def unat_sub used_fuse)
  moreover have "unat (g_kmem_live_allocations k') = used_count (fuse (release x 0 bs))"
    using used(2) cnt(2) le(2) by (simp add: k'_def unat_minus_one used_fuse)
  moreover have "chain (g_kmem_arena k') (g_kmem_head k') 0 (fuse (release x 0 bs))" using h(2) by (simp add: k'_def)
  ultimately show ?thesis by (auto simp: kmem_inv_def kmem_layout_def coalesced_fuse)
qed

end
