(* ===== verification/Kmem_Props.thy ===== *)
theory Kmem_Props
  imports Kmem_Inv
begin

text \<open>
  The theorems on the kernel heap, and the contract of an allocator that its clients rely on, with the heap
  as an instance.
\<close>

section \<open>Blocks that are in use\<close>

lemma live_place:
  assumes "fit s a bs = Some x"
  shows "set (live_blocks a (place s bs)) = insert (x + kmem_block_sizeof, granted s bs) (set (live_blocks a bs))"
  using assms
proof (induction s a bs rule: fit.induct)
  case (2 s a n u bs)
  show ?case
  proof (cases "\<not> u \<and> s \<le> n")
    case True
    have "a + kmem_block_sizeof + s + kmem_block_sizeof + (n - (s + kmem_block_sizeof)) = a + kmem_block_sizeof + n"
      if "\<not> n - s \<le> min_split" using that True by (simp add: min_split_def)
    note e = arg_cong [OF this, of "\<lambda>x. live_blocks x bs"]
    show ?thesis using True 2(2) e by (cases "n - s \<le> min_split") (simp_all add: insert_commute)
  next
    case False
    with 2 show ?thesis by auto
  qed
qed simp

lemma live_blocks_Cons:
  "live_blocks a (b # bs) = (if snd b then [(a + kmem_block_sizeof, fst b)] else []) @
     live_blocks (a + kmem_block_sizeof + fst b) bs"
  by (cases b) simp

lemma live_fuse: "live_blocks a (fuse bs) = live_blocks a bs"
proof (induction bs arbitrary: a rule: fuse.induct)
  case (1 n m bs)
  then show ?case by (simp add: add.assoc)
qed (simp_all add: live_blocks_Cons)

lemma live_release:
  assumes "(x + kmem_block_sizeof, n) \<in> set (live_blocks a bs)"
  shows "set (live_blocks a (release x a bs)) = set (live_blocks a bs) - {(x + kmem_block_sizeof, n)}"
  using assms
proof (induction x a bs rule: release.induct)
  case (2 x a m u bs)
  note ge = live_blocks_ge [of _ _ "a + kmem_block_sizeof + m" bs]
  show ?case
  proof (cases "x = a")
    case True
    have "(a + kmem_block_sizeof, k) \<notin> set (live_blocks (a + kmem_block_sizeof + m) bs)" for k
      using ge [of "a + kmem_block_sizeof" k] by (auto simp: kmem_block_sizeof_def)
    then have "(x + kmem_block_sizeof, n) \<notin> set (live_blocks (a + kmem_block_sizeof + m) bs)" by (simp add: True)
    moreover from this have "u" "n = m" using 2(2) by (simp_all split: if_splits)
    ultimately show ?thesis using True by simp
  next
    case False
    then have "(x + kmem_block_sizeof, n) \<in> set (live_blocks (a + kmem_block_sizeof + m) bs)"
      using 2(2) by (simp split: if_splits)
    note ih = 2(1) [OF False this]
    show ?thesis using False ih by (cases u) (simp_all add: insert_Diff_if)
  qed
qed simp

text \<open>Two blocks of a layout do not overlap, and lie inside the arena.\<close>

lemma live_apart:
  assumes "(p, n) \<in> set (live_blocks a bs)" and "(q, m) \<in> set (live_blocks a bs)" and "(p, n) \<noteq> (q, m)"
  shows "q + m \<le> p \<or> p + n \<le> q"
  using assms
proof (induction a bs rule: live_blocks.induct)
  case (2 a k u bs)
  note ge = live_blocks_ge [of _ _ "a + kmem_block_sizeof + k" bs]
  from 2 ge [of p n] ge [of q m] show ?case by (auto split: if_splits)
qed simp

lemma live_bound:
  "(p, n) \<in> set (live_blocks a bs) \<Longrightarrow> p + n \<le> a + (\<Sum>(n, u)\<leftarrow>bs. kmem_block_sizeof + n)"
  by (induction a bs rule: live_blocks.induct) (auto split: if_splits)

lemma granted_ge: "fit s a bs = Some x \<Longrightarrow> s \<le> granted s bs"
  by (induction s a bs rule: fit.induct) (auto split: if_splits)

text \<open>The header of the block that fits is not that of a block in use.\<close>

lemma place_fresh:
  assumes "fit s a bs = Some x"
  shows "(x + kmem_block_sizeof, m) \<notin> set (live_blocks a bs)"
  using assms
proof (induction s a bs rule: fit.induct)
  case (2 s a n u bs)
  note ge = live_blocks_ge [of "x + kmem_block_sizeof" m "a + kmem_block_sizeof + n" bs]
  show ?case
  proof (cases "\<not> u \<and> s \<le> n")
    case True
    then show ?thesis using 2(2) ge by (auto simp: kmem_block_sizeof_def)
  next
    case False
    then have f: "fit s (a + kmem_block_sizeof + n) bs = Some x" using 2(2) by auto
    then show ?thesis using 2(1) False fit_ge [OF f] by (auto simp: kmem_block_sizeof_def split: if_splits)
  qed
qed simp

lemma chain_unique: "chain h p a bs \<Longrightarrow> chain h p a cs \<Longrightarrow> bs = cs"
proof (induction bs arbitrary: p a cs)
  case Nil
  then show ?case by (cases cs) auto
next
  case (Cons b bs)
  obtain n u where b: "b = (n, u)" by force
  from Cons.prems obtain m v cs' where cs: "cs = (m, v) # cs'" by (cases cs) (auto simp: b)
  show ?case using Cons by (auto simp: b cs)
qed

lemma layout_unique: "kmem_layout k bs \<Longrightarrow> kmem_layout k cs \<Longrightarrow> bs = cs"
  unfolding kmem_layout_def by (rule chain_unique)

section \<open>Reachable heaps\<close>

text \<open>Any sequence of allocations, and of frees of pointers to blocks in use.\<close>

inductive kmem_reachable :: "kmem \<Rightarrow> bool" where
  boot: "kmem_reachable kmem_boot"
| alloc: "kmem_reachable k \<Longrightarrow> kmem_alloc s k = Some (p, k') \<Longrightarrow> kmem_reachable k'"
| free: "kmem_reachable k \<Longrightarrow> kmem_layout k bs \<Longrightarrow> (p, n) \<in> set (live_blocks 0 bs) \<Longrightarrow>
    kmem_free (Some p) k = Some k' \<Longrightarrow> kmem_reachable k'"

lemma kmem_inv_boot: "kmem_inv kmem_boot [(KMEM_ARENA_SIZE - kmem_block_sizeof, False)]"
  by (simp add: kmem_inv_def kmem_layout_def kmem_init_def kmem_boot_def KMEM_ARENA_SIZE_def kmem_block_sizeof_def)

lemma live_header: "(p, n) \<in> set (live_blocks a bs) \<Longrightarrow> \<exists>x. p = x + kmem_block_sizeof"
  using live_blocks_ge [of p n a bs] by (intro exI [of _ "p - kmem_block_sizeof"]) simp

lemma kmem_reachable_inv: "kmem_reachable k \<Longrightarrow> \<exists>bs. kmem_inv k bs"
proof (induction rule: kmem_reachable.induct)
  case boot
  show ?case using kmem_inv_boot by blast
next
  case (alloc k s p k')
  then obtain bs where bs: "kmem_inv k bs" by blast
  show ?case
  proof (cases "s = 0 \<or> fit (unat (kmem_align_up s)) 0 bs = None")
    case True
    then show ?thesis using alloc_none [OF bs True] alloc(2) by auto
  next
    case False
    then obtain x where "s \<noteq> 0" "fit (unat (kmem_align_up s)) 0 bs = Some x" by auto
    from alloc_some [OF bs this] alloc(2) show ?thesis by auto
  qed
next
  case (free k bs p n k')
  then obtain cs where cs: "kmem_inv k cs" by blast
  then have "cs = bs" using free(2) layout_unique by (auto simp: kmem_inv_def)
  obtain x where "p = x + kmem_block_sizeof" using live_header [OF free(3)] by blast
  then show ?case using free_live [of k bs x n] cs free(3,4) \<open>cs = bs\<close> by auto
qed

lemma reachable_layout_inv: "kmem_reachable k \<Longrightarrow> kmem_layout k bs \<Longrightarrow> kmem_inv k bs"
  using kmem_reachable_inv layout_unique by (auto simp: kmem_inv_def)

section \<open>Theorems\<close>

text \<open>C20: an allocation is first fit: it takes the first free block of the list that is large enough, in place
  or split in two, and fails exactly if there is none or the size is zero; it always returns.\<close>

theorem kmem_alloc_first_fit:
  assumes "kmem_reachable k" and "kmem_layout k bs"
  shows "case (if s = 0 then None else fit (unat (kmem_align_up s)) 0 bs) of
      None \<Rightarrow> \<exists>k'. kmem_alloc s k = Some (None, k') \<and> kmem_layout k' bs
    | Some x \<Rightarrow> \<exists>k'. kmem_alloc s k = Some (Some (x + kmem_block_sizeof), k') \<and>
        kmem_layout k' (place (unat (kmem_align_up s)) bs)"
  using alloc_some [OF reachable_layout_inv [OF assms], of s] alloc_none [OF reachable_layout_inv [OF assms], of s]
  by (auto simp: kmem_inv_def split: option.split)

text \<open>C21: a block that \<open>kmem_alloc\<close> hands out lies inside the arena, holds at least the bytes asked for and
  overlaps no block in use, and every block in use stays where it was, for every size that alignment does not wrap.\<close>

theorem kmem_alloc_disjoint:
  assumes reach: "kmem_reachable k" and lay: "kmem_layout k bs" and s: "unat s + 7 < 2 ^ 32"
    and run: "kmem_alloc s k = Some (Some p, k')"
  shows "\<exists>n bs'. kmem_layout k' bs' \<and> set (live_blocks 0 bs') = insert (p, n) (set (live_blocks 0 bs)) \<and>
    unat s \<le> n \<and> p + n \<le> KMEM_ARENA_SIZE \<and>
    (\<forall>(q, m) \<in> set (live_blocks 0 bs). q + m \<le> p \<or> p + n \<le> q)"
proof -
  let ?s = "unat (kmem_align_up s)"
  note inv = reachable_layout_inv [OF reach lay]
  have "\<not> (s = 0 \<or> fit ?s 0 bs = None)" using alloc_none [OF inv, of s] run by auto
  then obtain x where x: "fit ?s 0 bs = Some x" "s \<noteq> 0" by auto
  obtain k'' where "kmem_alloc s k = Some (Some (x + kmem_block_sizeof), k'')" "kmem_inv k'' (place ?s bs)"
    using alloc_some [OF inv x(2,1)] by blast
  then have p: "p = x + kmem_block_sizeof" and inv': "kmem_inv k' (place ?s bs)" using run by auto
  have lay': "kmem_layout k' (place ?s bs)" using inv' by (simp add: kmem_inv_def)
  note live = live_place [OF x(1), folded p]
  have in': "(p, granted ?s bs) \<in> set (live_blocks 0 (place ?s bs))" using live by simp
  have "unat s \<le> ?s" using align_up_unat [OF s] by (simp; presburger)
  moreover have "p + granted ?s bs \<le> KMEM_ARENA_SIZE"
    using live_bound [OF in'] chain_span [OF lay' [unfolded kmem_layout_def]] by simp
  moreover have "q + m \<le> p \<or> p + granted ?s bs \<le> q" if "(q, m) \<in> set (live_blocks 0 bs)" for q m
    using live_apart [OF in', of q m] live that place_fresh [OF x(1), of m] p by auto
  ultimately show ?thesis using lay' live granted_ge [OF x(1)] by (intro exI [of _ "granted ?s bs"] exI [of _ "place ?s bs"]) auto
qed

text \<open>A heap with one block of 64 bytes in use.\<close>

definition demo_heap :: kmem where
  "demo_heap = (case kmem_alloc 64 kmem_boot of Some (_, k) \<Rightarrow> k | None \<Rightarrow> kmem_boot)"

lemma demo_heap:
  "kmem_reachable demo_heap" "kmem_inv demo_heap [(64, True), (4008, False)]"
proof -
  have "unat (kmem_align_up 64) = 64" by code_simp
  then obtain k' where k': "kmem_alloc 64 kmem_boot = Some (Some 12, k')" "kmem_inv k' [(64, True), (4008, False)]"
    using alloc_some [OF kmem_inv_boot, of 64 0]
    by (auto simp: min_split_def kmem_block_sizeof_def KMEM_ARENA_SIZE_def)
  then have "demo_heap = k'" by (simp add: demo_heap_def)
  then show "kmem_reachable demo_heap" "kmem_inv demo_heap [(64, True), (4008, False)]"
    using k' kmem_reachable.alloc [OF kmem_reachable.boot k'(1)] by simp_all
qed

lemma demo_layout: "kmem_layout demo_heap [(64, True), (4008, False)]"
  using demo_heap(2) by (simp add: kmem_inv_def)

lemma demo_align: "unat (kmem_align_up 100) = 104"
  by code_simp

lemma demo_alloc: "\<exists>k'. kmem_alloc 100 demo_heap = Some (Some 88, k')"
  using alloc_some [OF demo_heap(2), of 100 76] by (auto simp: demo_align kmem_block_sizeof_def)

theorem kmem_alloc_first_fit_witness:
  "\<exists>k'. kmem_alloc 100 demo_heap = Some (Some 88, k') \<and>
     kmem_layout k' [(64, True), (104, True), (3892, False)]"
  using kmem_alloc_first_fit [OF demo_heap(1) demo_layout, of 100]
  by (simp add: demo_align min_split_def kmem_block_sizeof_def)

theorem kmem_alloc_disjoint_witness:
  "\<exists>k' n bs'. kmem_alloc 100 demo_heap = Some (Some 88, k') \<and> kmem_layout k' bs' \<and>
     set (live_blocks 0 bs') = {(88, n), (12, 64)} \<and> 100 \<le> n \<and> 12 + 64 \<le> (88 :: nat)"
proof -
  obtain k' where k': "kmem_alloc 100 demo_heap = Some (Some 88, k')" using demo_alloc by blast
  with kmem_alloc_disjoint [OF demo_heap(1) demo_layout, of 100 88 k'] show ?thesis
    by (auto simp: kmem_block_sizeof_def insert_commute)
qed

subsection \<open>Freeing\<close>

lemma fuse_release_place:
  assumes "coalesced bs" and "fit s a bs = Some x"
  shows "fuse (release x a (place s bs)) = bs"
  using assms
proof (induction s a bs rule: fit.induct)
  case (2 s a n u bs)
  show ?case
  proof (cases "\<not> u \<and> s \<le> n")
    case True
    then have x: "x = a" using 2(3) by simp
    have "n - s \<le> min_split \<or> s + kmem_block_sizeof + (n - (s + kmem_block_sizeof)) = n"
      using True by (simp add: min_split_def) arith
    then show ?thesis using True fuse_id [OF 2(2)] by (auto simp: x)
  next
    case False
    then have f: "fit s (a + kmem_block_sizeof + n) bs = Some x" using 2(3) by auto
    have co: "coalesced bs" "u \<or> snd (hd bs)" using 2(2) f by (auto simp: coalesced_Cons)
    have xa: "x \<noteq> a" using fit_ge [OF f] by (simp add: kmem_block_sizeof_def)
    note ih = 2(1) [OF False co(1) f]
    show ?thesis
    proof (cases u)
      case True
      then show ?thesis using False xa ih by simp
    next
      case free: False
      obtain m bs' where bs: "bs = (m, True) # bs'" using co(2) free f by (cases bs; cases "hd bs") auto
      then have "x \<noteq> a + kmem_block_sizeof + n"
        using fit_ge [of s "a + kmem_block_sizeof + n + kmem_block_sizeof + m" bs' x] f
        by (simp add: kmem_block_sizeof_def)
      then show ?thesis using False free xa ih by (simp add: bs)
    qed
  qed
qed simp

text \<open>C22: freeing a block that was just allocated gives the heap back as it was: the same blocks at the same
  places, with no fragment left behind.\<close>

theorem kmem_alloc_free_roundtrip:
  assumes reach: "kmem_reachable k" and lay: "kmem_layout k bs" and run: "kmem_alloc s k = Some (Some p, k')"
  shows "\<exists>k''. kmem_free (Some p) k' = Some k'' \<and> kmem_layout k'' bs"
proof -
  let ?s = "unat (kmem_align_up s)"
  note inv = reachable_layout_inv [OF reach lay]
  have "\<not> (s = 0 \<or> fit ?s 0 bs = None)" using alloc_none [OF inv, of s] run by auto
  then obtain x where x: "fit ?s 0 bs = Some x" "s \<noteq> 0" by auto
  from alloc_some [OF inv x(2,1)] have p: "p = x + kmem_block_sizeof" and inv': "kmem_inv k' (place ?s bs)"
    using run by auto
  have "(x + kmem_block_sizeof, granted ?s bs) \<in> set (live_blocks 0 (place ?s bs))" using live_place [OF x(1)] by simp
  from free_live [OF inv' this] fuse_release_place [OF _ x(1)] inv show ?thesis
    by (auto simp: p kmem_inv_def)
qed

theorem kmem_alloc_free_roundtrip_witness:
  "\<exists>k' k''. kmem_alloc 100 demo_heap = Some (Some 88, k') \<and> kmem_free (Some 88) k' = Some k'' \<and>
     kmem_layout k'' [(64, True), (4008, False)]"
  using kmem_alloc_free_roundtrip [OF demo_heap(1) demo_layout, of 100 88] demo_alloc by blast

text \<open>Freeing a block in use keeps every other block in use at its place, and no two free blocks are
  neighbours afterwards.\<close>

theorem kmem_free_exact:
  assumes reach: "kmem_reachable k" and lay: "kmem_layout k bs" and p: "(p, n) \<in> set (live_blocks 0 bs)"
  shows "\<exists>k' bs'. kmem_free (Some p) k = Some k' \<and> kmem_layout k' bs' \<and> coalesced bs' \<and>
    set (live_blocks 0 bs') = set (live_blocks 0 bs) - {(p, n)}"
proof -
  obtain x where x: "p = x + kmem_block_sizeof" using live_header [OF p] by blast
  from free_live [OF reachable_layout_inv [OF reach lay] p [unfolded x]] obtain k' where
    "kmem_free (Some p) k = Some k'" "kmem_inv k' (fuse (release x 0 bs))" by (auto simp: x)
  then show ?thesis using live_release [OF p [unfolded x]] by (auto simp: kmem_inv_def live_fuse x)
qed

theorem kmem_free_exact_witness:
  "\<exists>k' bs'. kmem_free (Some 12) demo_heap = Some k' \<and> kmem_layout k' bs' \<and> coalesced bs' \<and> live_blocks 0 bs' = []"
  using kmem_free_exact [OF demo_heap(1) demo_layout, of 12 64] by (simp add: kmem_block_sizeof_def)

lemma coalesced_unused:
  assumes "coalesced bs" and "used_count bs = 0" and "bs \<noteq> []"
  shows "\<exists>n. bs = [(n, False)]"
proof -
  obtain n u bs' where bs: "bs = (n, u) # bs'" using assms(3) by (cases bs) auto
  have "bs' = []"
  proof (rule ccontr)
    assume "bs' \<noteq> []"
    then obtain m v bs'' where "bs' = (m, v) # bs''" by (cases bs') auto
    then show False using assms(1,2) bs by (auto split: if_splits)
  qed
  then show ?thesis using bs assms(2) by (auto split: if_splits)
qed

lemma coalesced_neighbours: "coalesced bs \<Longrightarrow> Suc i < length bs \<Longrightarrow> snd (bs ! i) \<or> snd (bs ! Suc i)"
proof (induction bs arbitrary: i rule: coalesced.induct)
  case (1 n u m v bs)
  then show ?case by (cases i) auto
qed auto

lemma empty_heap_layout:
  assumes reach: "kmem_reachable k" and none: "fst (kmem_live_allocations k) = 0"
  shows "kmem_layout k [(KMEM_ARENA_SIZE - kmem_block_sizeof, False)] \<and>
    map_option fst (kmem_largest_free_block k) = Some (of_nat (KMEM_ARENA_SIZE - kmem_block_sizeof))"
proof -
  let ?k = "kmem_init k"
  obtain bs where inv: "kmem_inv k bs" using kmem_reachable_inv [OF reach] by blast
  then have ch: "chain (g_kmem_arena ?k) (g_kmem_head ?k) 0 bs" by (simp add: kmem_inv_def kmem_layout_def)
  have "bs \<noteq> []" using ch by (auto simp: KMEM_ARENA_SIZE_def)
  moreover have "used_count bs = 0" using inv none by (simp add: kmem_inv_def kmem_live_allocations_def Let_def)
  ultimately obtain n where bs: "bs = [(n, False)]" using coalesced_unused inv by (auto simp: kmem_inv_def)
  have n: "n = KMEM_ARENA_SIZE - kmem_block_sizeof" using chain_span [OF ch] by (simp add: bs)
  obtain b where b: "g_kmem_head ?k = Some 0" "g_kmem_arena ?k 0 = Some b" "unat (kb_size b) = n" "kb_used b = 0"
      "kb_next b = None"
    using ch by (auto simp: bs)
  have size: "kb_size b = of_nat n" using b(3) by auto
  have "kmem_largest_free_block k = Some (max_free b 0, ?k)"
    using b by (simp add: kmem_largest_free_block_def Let_def fold_blocks.simps [of _ _ "Some 0"] fold_blocks.simps [of _ _ None])
  moreover have "max_free b 0 = of_nat n"
    using size b(4) by (auto simp: max_free_def word_gt_0)
  ultimately show ?thesis using inv bs n by (simp add: kmem_inv_def)
qed

text \<open>C23: no two neighbouring blocks of the block list of a reachable heap are both free; in particular,
  when no allocation is live the arena is one free block, and the largest free block is that block.\<close>

theorem kmem_no_fragments:
  assumes "kmem_reachable k"
  shows "(\<exists>bs. kmem_layout k bs \<and> (\<forall>i. Suc i < length bs \<longrightarrow> snd (bs ! i) \<or> snd (bs ! Suc i))) \<and>
    (\<forall>bs i. kmem_layout k bs \<longrightarrow> Suc i < length bs \<longrightarrow> snd (bs ! i) \<or> snd (bs ! Suc i)) \<and>
    (fst (kmem_live_allocations k) = 0 \<longrightarrow> kmem_layout k [(KMEM_ARENA_SIZE - kmem_block_sizeof, False)] \<and>
      map_option fst (kmem_largest_free_block k) = Some (of_nat (KMEM_ARENA_SIZE - kmem_block_sizeof)))"
proof -
  have "kmem_layout k bs \<Longrightarrow> coalesced bs" for bs
    using reachable_layout_inv [OF assms] by (simp add: kmem_inv_def)
  moreover obtain bs where "kmem_layout k bs"
    using kmem_reachable_inv [OF assms] by (auto simp: kmem_inv_def)
  ultimately show ?thesis using coalesced_neighbours empty_heap_layout [OF assms] by blast
qed

theorem kmem_no_fragments_witness:
  "\<exists>k. kmem_free (Some 12) demo_heap = Some k \<and>
     map_option fst (kmem_largest_free_block k) = Some (of_nat (KMEM_ARENA_SIZE - kmem_block_sizeof))"
proof -
  have p: "(12, 64) \<in> set (live_blocks 0 [(64, True), (4008, False)])" by (simp add: kmem_block_sizeof_def)
  then obtain k where k: "kmem_free (Some 12) demo_heap = Some k"
      "kmem_inv k (fuse (release 0 0 [(64, True), (4008, False)]))"
    using free_live [OF demo_heap(2), of 0 64] by (auto simp: kmem_block_sizeof_def)
  have "fst (kmem_live_allocations k) = 0"
    using k(2) by (simp add: kmem_inv_def kmem_live_allocations_def Let_def unat_eq_0)
  with kmem_no_fragments [OF kmem_reachable.free [OF demo_heap(1) demo_layout p k(1)]] k(1) show ?thesis by auto
qed

subsection \<open>Statistics\<close>

fun free_total :: "layout \<Rightarrow> nat" where
  "free_total [] = 0"
| "free_total ((n, u) # bs) = (if u then 0 else n) + free_total bs"

lemma layout_total: "used_bytes bs + free_total bs + kmem_block_sizeof * length bs =
    (\<Sum>(n, u)\<leftarrow>bs. kmem_block_sizeof + n)"
  by (induction bs) auto

lemma fold_count_blocks:
  assumes "chain h p a bs"
  shows "\<exists>st'. fold_blocks count_block h p st = Some st' \<and> bytes_in_use st' = bytes_in_use st \<and>
    live_allocations st' = live_allocations st \<and> arena_capacity_bytes st' = arena_capacity_bytes st \<and>
    free_bytes st' = free_bytes st + of_nat (free_total bs) \<and> block_count st' = block_count st + of_nat (length bs) \<and>
    used_block_count st' = used_block_count st + of_nat (used_count bs) \<and>
    free_block_count st' = free_block_count st + of_nat (length bs - used_count bs)"
  using assms
proof (induction bs arbitrary: p a st)
  case Nil
  then show ?case by (simp add: fold_blocks.simps)
next
  case (Cons c bs)
  obtain n u where c: "c = (n, u)" by force
  from Cons.prems obtain b where b: "p = Some a" "h a = Some b" "unat (kb_size b) = n" "u = (kb_used b \<noteq> 0)"
      "chain h (kb_next b) (a + kmem_block_sizeof + n) bs"
    by (auto simp: c)
  have n: "kb_size b = of_nat n" using b(3) by auto
  have "used_count bs \<le> length bs" by (simp add: used_count_def)
  then have l: "Suc (length bs) - used_count bs = Suc (length bs - used_count bs)" by simp
  from Cons.IH [OF b(5), of "count_block b st"] show ?case
    using b n l by (auto simp: c fold_blocks.simps [of _ _ "Some a"] count_block_def Let_def algebra_simps)
qed

text \<open>The statistics add up: the free bytes, the bytes in use and one header per block make up the arena,
  the blocks are free or used, and the used ones are the live allocations.\<close>

theorem kmem_stats_account:
  assumes reach: "kmem_reachable k"
  shows "\<exists>st k'. kmem_stats_snapshot (Some buffer) k = Some (Some st, k') \<and>
    unat (free_bytes st) + unat (bytes_in_use st) + kmem_block_sizeof * unat (block_count st) = KMEM_ARENA_SIZE \<and>
    block_count st = free_block_count st + used_block_count st \<and> used_block_count st = live_allocations st"
proof -
  let ?k = "kmem_init k"
  obtain bs where inv: "kmem_inv k bs" using kmem_reachable_inv [OF reach] by blast
  then have ch: "chain (g_kmem_arena ?k) (g_kmem_head ?k) 0 bs" by (simp add: kmem_inv_def kmem_layout_def)
  note eq = chain_span [OF ch] layout_total [of bs]
  have le: "used_count bs \<le> length bs" by (simp add: used_count_def)
  have small: "free_total bs < 2 ^ 32" "length bs < 2 ^ 32" "used_count bs < 2 ^ 32"
    using eq le by (simp_all add: KMEM_ARENA_SIZE_def kmem_block_sizeof_def)
  have "g_kmem_live_allocations ?k = of_nat (used_count bs)"
  proof -
    have e: "unat (g_kmem_live_allocations ?k) = used_count bs" using inv by (simp add: kmem_inv_def)
    have "of_nat (unat (g_kmem_live_allocations ?k)) = g_kmem_live_allocations ?k" by simp
    then show ?thesis by (simp only: e)
  qed
  moreover have "(of_nat (length bs) :: u32) = of_nat (length bs - used_count bs) + of_nat (used_count bs)"
    using le by (simp flip: of_nat_add)
  moreover have "unat (of_nat (free_total bs) :: u32) = free_total bs" "unat (of_nat (length bs) :: u32) = length bs"
    using small by (simp_all add: unat_of_nat)
  moreover have "unat (g_kmem_bytes_in_use ?k) = used_bytes bs" using inv by (simp add: kmem_inv_def)
  ultimately show ?thesis
    using fold_count_blocks [OF ch, of "\<lparr>arena_capacity_bytes = of_nat (KMEM_ARENA_SIZE - kmem_block_sizeof), free_bytes = 0,
               largest_free_block = 0, bytes_in_use = g_kmem_bytes_in_use ?k,
               peak_bytes_in_use = g_kmem_peak_bytes_in_use ?k, allocation_count = g_kmem_allocation_count ?k,
               free_count = g_kmem_free_count ?k, allocation_fail_count = g_kmem_allocation_fail_count ?k,
               live_allocations = g_kmem_live_allocations ?k, peak_live_allocations = g_kmem_peak_live_allocations ?k,
               block_count = 0, free_block_count = 0, used_block_count = 0\<rparr>"] eq
    by (auto simp: kmem_stats_snapshot_def Let_def)
qed

definition demo_stats :: kmem_stats where
  "demo_stats = \<lparr>arena_capacity_bytes = 0, free_bytes = 0, largest_free_block = 0, bytes_in_use = 0,
     peak_bytes_in_use = 0, allocation_count = 0, free_count = 0, allocation_fail_count = 0, live_allocations = 0,
     peak_live_allocations = 0, block_count = 0, free_block_count = 0, used_block_count = 0\<rparr>"

theorem kmem_stats_account_witness:
  "\<exists>st k'. kmem_stats_snapshot (Some demo_stats) demo_heap = Some (Some st, k') \<and>
     unat (free_bytes st) + unat (bytes_in_use st) + kmem_block_sizeof * unat (block_count st) = KMEM_ARENA_SIZE"
  using kmem_stats_account [OF demo_heap(1)] by blast

section \<open>Deviations\<close>

text \<open>The alignment of a size near \<open>UINT32_MAX\<close> wraps to zero, and the request for four gigabytes is granted
  with an empty block.\<close>

theorem kmem_alloc_wraps:
  "\<exists>k'. kmem_alloc 0xFFFFFFFF kmem_boot = Some (Some 12, k') \<and> kmem_layout k' [(0, True), (4072, False)]"
proof -
  have "kmem_align_up 0xFFFFFFFF = 0" by code_simp
  then show ?thesis using alloc_some [OF kmem_inv_boot, of "0xFFFFFFFF" 0]
    by (auto simp: min_split_def kmem_block_sizeof_def KMEM_ARENA_SIZE_def kmem_inv_def)
qed

text \<open>With the 12-byte header of the 32-bit targets the first pointer handed out is not a multiple of
  \<open>KMEM_ALIGNMENT\<close>.\<close>

theorem kmem_alloc_misaligned:
  "\<exists>p k'. kmem_alloc 64 kmem_boot = Some (Some p, k') \<and> p mod unat KMEM_ALIGNMENT \<noteq> 0"
proof -
  have "unat (kmem_align_up 64) = 64" by code_simp
  then show ?thesis using alloc_some [OF kmem_inv_boot, of 64 0]
    by (auto simp: kmem_block_sizeof_def KMEM_ARENA_SIZE_def KMEM_ALIGNMENT_def)
qed

section \<open>The contract of an allocator\<close>

definition kmem_live :: "kmem \<Rightarrow> nat set" where
  "kmem_live k = {p. \<exists>bs n. kmem_layout k bs \<and> (p, n) \<in> set (live_blocks 0 bs)}"

locale allocator =
  fixes alloc :: "u32 \<Rightarrow> 's \<Rightarrow> (nat ptr \<times> 's) option" and free :: "nat ptr \<Rightarrow> 's \<Rightarrow> 's option"
    and live :: "'s \<Rightarrow> nat set" and ok :: "'s \<Rightarrow> bool"
  assumes alloc_law: "ok k \<Longrightarrow> \<exists>p k'. alloc s k = Some (p, k') \<and> ok k' \<and>
      (case p of None \<Rightarrow> live k' = live k | Some a \<Rightarrow> a \<notin> live k \<and> live k' = insert a (live k))"
    and free_law: "ok k \<Longrightarrow> a \<in> live k \<Longrightarrow> \<exists>k'. free (Some a) k = Some k' \<and> ok k' \<and> live k' = live k - {a}"
begin

text \<open>The kernel's constructors allocate an object, then a part of it, and give the object back if that fails.\<close>

lemma alloc_two_or_none:
  assumes "ok k"
  shows "\<exists>p k1. alloc s k = Some (p, k1) \<and> ok k1 \<and>
    (case p of None \<Rightarrow> live k1 = live k
     | Some a \<Rightarrow> a \<notin> live k \<and> live k1 = insert a (live k) \<and>
         (\<exists>q k2. alloc t k1 = Some (q, k2) \<and> ok k2 \<and>
            (case q of Some b \<Rightarrow> b \<noteq> a \<and> b \<notin> live k \<and> live k2 = insert b (insert a (live k))
             | None \<Rightarrow> live k2 = live k1 \<and> (\<exists>k3. free (Some a) k2 = Some k3 \<and> ok k3 \<and> live k3 = live k))))"
proof -
  obtain p k1 where p: "alloc s k = Some (p, k1)" "ok k1"
      "case p of None \<Rightarrow> live k1 = live k | Some a \<Rightarrow> a \<notin> live k \<and> live k1 = insert a (live k)"
    using alloc_law [OF assms] by blast
  obtain q k2 where q: "alloc t k1 = Some (q, k2)" "ok k2"
      "case q of None \<Rightarrow> live k2 = live k1 | Some b \<Rightarrow> b \<notin> live k1 \<and> live k2 = insert b (live k1)"
    using alloc_law [OF p(2)] by blast
  show ?thesis
  proof (cases p)
    case None
    then show ?thesis using p by auto
  next
    case (Some a)
    then have a: "a \<notin> live k" "live k1 = insert a (live k)" using p by auto
    show ?thesis
    proof (cases q)
      case None
      then obtain k3 where "free (Some a) k2 = Some k3" "ok k3" "live k3 = live k2 - {a}"
        using free_law [OF q(2), of a] q(3) a by auto
      then show ?thesis using p q a Some None by auto
    next
      case (Some b)
      then show ?thesis using p q a \<open>p = Some a\<close> by auto
    qed
  qed
qed

end

lemma kmem_live_eq: "kmem_layout k bs \<Longrightarrow> kmem_live k = fst ` set (live_blocks 0 bs)"
  unfolding kmem_live_def using layout_unique by force

lemma fst_image_remove:
  assumes "\<And>m. (a, m) \<in> S \<Longrightarrow> m = n"
  shows "fst ` (S - {(a, n)}) = fst ` S - {a}"
proof (intro set_eqI iffI)
  fix p
  assume "p \<in> fst ` (S - {(a, n)})"
  then obtain m where "(p, m) \<in> S" "(p, m) \<noteq> (a, n)" by force
  then show "p \<in> fst ` S - {a}" using assms [of m] by (cases "p = a") (auto simp: rev_image_eqI)
next
  fix p
  assume "p \<in> fst ` S - {a}"
  then obtain m where "(p, m) \<in> S" "p \<noteq> a" by force
  then show "p \<in> fst ` (S - {(a, n)})" by (intro image_eqI [of _ _ "(p, m)"]) auto
qed

lemma live_addr_unique: "(p, n) \<in> set (live_blocks a bs) \<Longrightarrow> (p, m) \<in> set (live_blocks a bs) \<Longrightarrow> n = m"
proof (induction a bs rule: live_blocks.induct)
  case (2 a k u bs)
  note ge = live_blocks_ge [of p _ "a + kmem_block_sizeof + k" bs]
  from 2 ge [of n] ge [of m] show ?case by (auto simp: kmem_block_sizeof_def split: if_splits)
qed simp

interpretation kmem: allocator kmem_alloc kmem_free kmem_live kmem_reachable
proof (unfold_locales, goal_cases)
  case (1 k s)
  obtain bs where inv: "kmem_inv k bs" using kmem_reachable_inv [OF 1] by blast
  then have lay: "kmem_layout k bs" by (simp add: kmem_inv_def)
  show ?case
  proof (cases "s = 0 \<or> fit (unat (kmem_align_up s)) 0 bs = None")
    case True
    from alloc_none [OF inv this] obtain k' where k': "kmem_alloc s k = Some (None, k')" "kmem_inv k' bs" by blast
    then have "kmem_live k' = kmem_live k" using kmem_live_eq lay by (simp add: kmem_inv_def)
    then show ?thesis using k'(1) kmem_reachable.alloc [OF 1] by auto
  next
    case False
    then obtain x where x: "s \<noteq> 0" "fit (unat (kmem_align_up s)) 0 bs = Some x" by auto
    let ?bs = "place (unat (kmem_align_up s)) bs" and ?p = "x + kmem_block_sizeof"
    from alloc_some [OF inv x] obtain k' where k': "kmem_alloc s k = Some (Some ?p, k')" "kmem_inv k' ?bs" by blast
    have "kmem_live k' = insert ?p (kmem_live k)"
      using kmem_live_eq [OF lay] kmem_live_eq [of k' ?bs] k'(2) live_place [OF x(2)] by (simp add: kmem_inv_def)
    moreover have "?p \<notin> kmem_live k" using place_fresh [OF x(2)] by (auto simp: kmem_live_eq [OF lay])
    ultimately show ?thesis using k'(1) kmem_reachable.alloc [OF 1] by auto
  qed
next
  case (2 k a)
  then obtain bs n where bs: "kmem_layout k bs" "(a, n) \<in> set (live_blocks 0 bs)" by (auto simp: kmem_live_def)
  obtain x where x: "a = x + kmem_block_sizeof" using live_header [OF bs(2)] by blast
  from free_live [OF reachable_layout_inv [OF 2(1) bs(1)] bs(2) [unfolded x]] obtain k' where
      k': "kmem_free (Some a) k = Some k'" "kmem_inv k' (fuse (release x 0 bs))" by (auto simp: x)
  have "fst ` (set (live_blocks 0 bs) - {(a, n)}) = fst ` set (live_blocks 0 bs) - {a}"
    by (rule fst_image_remove) (use bs(2) live_addr_unique in blast)
  then have "kmem_live k' = kmem_live k - {a}"
    using kmem_live_eq [OF bs(1)] kmem_live_eq [of k' "fuse (release x 0 bs)"] k'(2) live_release [OF bs(2) [unfolded x]]
    by (simp add: kmem_inv_def live_fuse x)
  then show ?case using k'(1) kmem_reachable.free [OF 2(1) bs k'(1)] by blast
qed

end
