(* ===== verification/Sync_Protocol.thy ===== *)
theory Sync_Protocol
  imports Sync_Waits Kmem_Props
begin

text \<open>
  Processes that share an object with a wait queue: no wake-up is lost. The contract of such an object is the
  locale \<open>waiting_object\<close>, whose instances are the semaphore and the mutex; the invariant relates what the object
  has to give, the processes inside \<open>kernel_wait_queue_wait\<close> and those of them that are still blocked.
\<close>

section \<open>The waiting set\<close>

text \<open>\<open>W\<close> are the processes that have entered the queue and not left it.\<close>

definition wait_inv :: "nat \<Rightarrow> kernel_wait_queue \<Rightarrow> scheduler \<Rightarrow> nat set \<Rightarrow> bool" where
  "wait_inv avail w s W \<longleftrightarrow> sched_ok s \<and> W \<subseteq> {..<MAX_PROCESSES} \<and> wq_waiter_count w = of_nat (card W) \<and>
     chan_blocked (wq_channel w) s \<subseteq> W \<and> (\<forall>i \<in> W - chan_blocked (wq_channel w) s. alive s i) \<and>
     (chan_blocked (wq_channel w) s \<noteq> {} \<longrightarrow> avail \<le> card (W - chan_blocked (wq_channel w) s))"

lemma wait_inv_finite: "wait_inv n w s W \<Longrightarrow> finite W"
  unfolding wait_inv_def by (meson finite_lessThan finite_subset)

lemma wait_inv_card: "wait_inv n w s W \<Longrightarrow> card W \<le> MAX_PROCESSES"
  unfolding wait_inv_def by (metis card_lessThan card_mono finite_lessThan)

lemma wait_inv_count:
  assumes "wait_inv n w s W"
  shows "unat (wq_waiter_count w) = card W"
  using wait_inv_card [OF assms] assms by (simp add: wait_inv_def unat_of_nat MAX_PROCESSES_def)

lemma wait_inv_take: "wait_inv n w s W \<Longrightarrow> m \<le> n \<Longrightarrow> wait_inv m w s W"
  by (auto simp: wait_inv_def)

lemma wait_inv_calm:
  assumes "wait_inv n w s W" and "calm s t" and "sched_ok t"
  shows "wait_inv n w t W"
  using assms calm_blocked [OF assms(2), of "wq_channel w"] by (auto simp: wait_inv_def calm_def)

text \<open>The running process, which is where the calls come from.\<close>

definition running :: "nat \<Rightarrow> scheduler \<Rightarrow> bool" where
  "running c s \<longleftrightarrow> g_current_process_index s = Some c \<and> in_state s c PROCESS_STATE_RUNNING"

lemma running_live: "running c s \<Longrightarrow> sched_ok s \<Longrightarrow> sched_live s"
  by (simp add: running_def sched_ok_live caller_def)

lemma running_not_blocked: "running c s \<Longrightarrow> c \<notin> chan_blocked channel s"
  by (auto simp: running_def chan_blocked_def waits_on_channel_def in_state_def)

lemma running_pid:
  assumes "sched_live s" and "running c s"
  shows "process_current_pid s = ps_pid (g_processes s ! c)" and "process_current_pid s \<noteq> 0"
proof -
  have one: "one_running s" and pids: "pids_ok s" using assms(1) by (simp_all add: sched_live_def sched_weak_def)
  have cur: "g_current_process_index s = Some c" using assms(2) by (simp add: running_def)
  have c: "c < MAX_PROCESSES" "\<not> in_state s c PROCESS_STATE_UNUSED" using one cur unfolding one_running_def by blast+
  show eq: "process_current_pid s = ps_pid (g_processes s ! c)"
    by (simp add: process_current_pid_def current_used [OF one cur])
  show "process_current_pid s \<noteq> 0" using pids c unfolding eq pids_ok_def by blast
qed

lemma wait_inv_enter:
  assumes inv: "wait_inv n w s W" and c: "running c s" "c \<notin> W"
    and run: "process_wait_channel env (wq_channel w) s = Some r" "ends r t"
  shows "wait_inv 0 (w\<lparr>wq_waiter_count := wq_waiter_count w + 1\<rparr>) t (insert c W)"
proof -
  have si: "sched_live s" using inv c running_live by (auto simp: wait_inv_def)
  have cur: "g_current_process_index s = Some c" using c by (simp add: running_def)
  have cb: "c < MAX_PROCESSES" using si cur by (simp add: sched_live_def sched_weak_def one_running_def)
  note blk = wait_channel_blocks [OF si cur run]
  have "sched_ok t" by (rule wait_channel_ok [OF si run])
  moreover have "card (insert c W) = Suc (card W)" using c(2) wait_inv_finite [OF inv] by simp
  moreover have "alive t i" if "i \<in> insert c W - chan_blocked (wq_channel w) t" for i
    using that inv blk(1) blk(2) [of i] by (auto simp: wait_inv_def)
  ultimately show ?thesis using inv cb blk(1) by (auto simp: wait_inv_def)
qed

lemma wait_inv_leave:
  assumes inv: "wait_inv n w s W" and c: "running c s" "c \<in> W"
  shows "wait_inv (n - 1) (w\<lparr>wq_waiter_count := wq_waiter_count w - 1\<rparr>) s (W - {c})" and "wq_waiter_count w \<noteq> 0"
proof -
  let ?B = "chan_blocked (wq_channel w) s"
  have fin: "finite W" by (rule wait_inv_finite [OF inv])
  have "c \<in> W - ?B" using c running_not_blocked by blast
  then have "card (W - {c} - ?B) = card (W - ?B) - 1" using fin by (metis Diff_insert2 card_Diff_singleton insert_Diff_if Diff_insert)
  moreover have card: "card W = Suc (card (W - {c}))" using fin c(2) by (metis card_Suc_Diff1)
  moreover have "?B \<subseteq> W - {c}" using inv c running_not_blocked by (auto simp: wait_inv_def)
  ultimately show "wait_inv (n - 1) (w\<lparr>wq_waiter_count := wq_waiter_count w - 1\<rparr>) s (W - {c})"
    using inv by (auto simp: wait_inv_def)
  show "wq_waiter_count w \<noteq> 0" using wait_inv_count [OF inv] card by auto
qed

lemma wait_inv_wake:
  assumes inv: "wait_inv n w s W" and run: "process_wake_first_channel (wq_channel w) s = Some (k, s')"
  shows "wait_inv (Suc n) w s' W"
proof -
  let ?B = "chan_blocked (wq_channel w) s" and ?B' = "chan_blocked (wq_channel w) s'"
  have fin: "finite W" by (rule wait_inv_finite [OF inv])
  have weak: "sched_weak s" and BW: "?B \<subseteq> W" "W \<subseteq> {..<MAX_PROCESSES}" using inv by (simp_all add: wait_inv_def sched_ok_def)
  have shape: "sched_shape s" using weak by (simp add: sched_weak_def)
  note wake = wake_first_unblocks [OF run shape]
  have "sched_ok s'"
    using wake_channel_ok(2) [OF sched_weak_loose [OF weak], of "wq_channel w"] run by (auto intro: sched_inv_ok)
  consider "?B = {}" "?B' = {}" | i where "i \<in> ?B" "?B' = ?B - {i}" "alive s' i" using wake(1) by blast
  then show ?thesis
  proof cases
    case 1
    then show ?thesis using inv wake(2) \<open>sched_ok s'\<close> by (auto simp: wait_inv_def)
  next
    case 2
    have "W - ?B' = insert i (W - ?B)" using 2 BW by auto
    moreover have "card (insert i (W - ?B)) = Suc (card (W - ?B))" using 2(1) fin by simp
    moreover have "alive s' j" if "j \<in> insert i (W - ?B)" for j
      using that 2(3) wake(2) [of j] inv BW by (auto simp: wait_inv_def)
    moreover have "?B' \<subseteq> W" using 2(2) BW by auto
    moreover have "?B \<noteq> {}" using 2(1) by blast
    ultimately show ?thesis using inv \<open>sched_ok s'\<close> by (simp add: wait_inv_def)
  qed
qed

section \<open>Objects with a wait queue\<close>

text \<open>
  All interleavings of processes that acquire and release an object with the queue at \<open>q\<close>, from the state \<open>s0\<close>.
  A process inside the queue does nothing but continue its call. The other steps are those that the scheduler
  takes while the processes run: yields, timer ticks, the idle loop and new processes.
\<close>

inductive wait_system ::
  "(yield_env \<Rightarrow> ksync \<Rightarrow> unit round option) \<Rightarrow> (ksync \<Rightarrow> (int \<times> ksync) option) \<Rightarrow> nat \<Rightarrow> ksync \<Rightarrow>
   ksync \<Rightarrow> nat set \<Rightarrow> bool"
  for acquire release q s0 where
  start: "wait_system acquire release q s0 s0 {}"
| acquired: "wait_system acquire release q s0 s W \<Longrightarrow> running c (ks_sched s) \<Longrightarrow> c \<notin> W \<Longrightarrow>
    acquire env s = Some (Done () s') \<Longrightarrow> wait_system acquire release q s0 s' W"
| waits: "wait_system acquire release q s0 s W \<Longrightarrow> running c (ks_sched s) \<Longrightarrow> c \<notin> W \<Longrightarrow>
    acquire env s = Some (Waits s1 r) \<Longrightarrow> ends r t \<Longrightarrow>
    wait_system acquire release q s0 (s1\<lparr>ks_sched := t\<rparr>) (insert c W)"
| continued: "wait_system acquire release q s0 s W \<Longrightarrow> running c (ks_sched s) \<Longrightarrow> c \<in> W \<Longrightarrow>
    acquire env (wait_queue_leave (Some q) s) = Some (Done () s') \<Longrightarrow> wait_system acquire release q s0 s' (W - {c})"
| waits_again: "wait_system acquire release q s0 s W \<Longrightarrow> running c (ks_sched s) \<Longrightarrow> c \<in> W \<Longrightarrow>
    acquire env (wait_queue_leave (Some q) s) = Some (Waits s1 r) \<Longrightarrow> ends r t \<Longrightarrow>
    wait_system acquire release q s0 (s1\<lparr>ks_sched := t\<rparr>) W"
| released: "wait_system acquire release q s0 s W \<Longrightarrow> running c (ks_sched s) \<Longrightarrow> c \<notin> W \<Longrightarrow>
    release s = Some (n, s') \<Longrightarrow> wait_system acquire release q s0 s' W"
| yielded: "wait_system acquire release q s0 s W \<Longrightarrow> running c (ks_sched s) \<Longrightarrow> c \<notin> W \<Longrightarrow>
    process_yield env (ks_sched s) = Some r \<Longrightarrow> ends r t \<Longrightarrow>
    wait_system acquire release q s0 (s\<lparr>ks_sched := t\<rparr>) W"
| ticked: "wait_system acquire release q s0 s W \<Longrightarrow> systimer_tick preemptive (ks_sched s) = Some t \<Longrightarrow>
    wait_system acquire release q s0 (s\<lparr>ks_sched := t\<rparr>) W"
| idled: "wait_system acquire release q s0 s W \<Longrightarrow> idle_wakeup env (ks_sched s) = Some r \<Longrightarrow> ends r t \<Longrightarrow>
    wait_system acquire release q s0 (s\<lparr>ks_sched := t\<rparr>) W"
| spawned: "wait_system acquire release q s0 s W \<Longrightarrow> running c (ks_sched s) \<Longrightarrow> c \<notin> W \<Longrightarrow>
    process_spawn_with_role sf stacks name entry role (ks_sched s) = Some (pid, t) \<Longrightarrow>
    wait_system acquire release q s0 (s\<lparr>ks_sched := t\<rparr>) W"

text \<open>
  The contract of an object: \<open>holds\<close> says that the object and its queue are in place, \<open>avail\<close> what it has to give.
\<close>

locale waiting_object =
  fixes q :: nat and holds :: "ksync \<Rightarrow> bool" and avail :: "ksync \<Rightarrow> nat"
    and acquire :: "yield_env \<Rightarrow> ksync \<Rightarrow> unit round option" and release :: "ksync \<Rightarrow> (int \<times> ksync) option"
  assumes acquire_done: "holds s \<Longrightarrow> acquire env s = Some (Done () s') \<Longrightarrow>
      holds s' \<and> avail s = Suc (avail s') \<and> ks_sched s' = ks_sched s \<and> ks_objs s' q = ks_objs s q"
    and acquire_waits: "holds s \<Longrightarrow> process_current_pid (ks_sched s) \<noteq> 0 \<Longrightarrow>
      acquire env s = Some (Waits s' r) \<Longrightarrow> avail s = 0 \<and> wait_queue_enter env (Some q) s = Some (s', Some r)"
    and release_gives: "holds s \<Longrightarrow> release s = Some (n, s') \<Longrightarrow> s' = s \<or>
      (\<exists>s1. holds s1 \<and> avail s1 \<le> Suc (avail s) \<and> ks_sched s1 = ks_sched s \<and> ks_objs s1 q = ks_objs s q \<and>
        wake_if_waiting (Some q) s1 = Some s')"
    and holds_queue: "holds s \<Longrightarrow> \<exists>w. kernel_wait_queue_is_valid (Some q) s = Some (q, w)"
    and holds_frame: "holds s \<Longrightarrow> kernel_wait_queue_is_valid (Some q) s = Some (q, w) \<Longrightarrow>
      holds (put_obj q (Wait_Queue (w\<lparr>wq_waiter_count := k\<rparr>)) s) \<and>
      avail (put_obj q (Wait_Queue (w\<lparr>wq_waiter_count := k\<rparr>)) s) = avail s"
    and holds_sched: "holds (s\<lparr>ks_sched := t\<rparr>) = holds s" and avail_sched: "avail (s\<lparr>ks_sched := t\<rparr>) = avail s"
begin

lemma queue_eq: "kernel_wait_queue_is_valid (Some q) s = Some (q, w) \<Longrightarrow> ks_objs s' q = ks_objs s q \<Longrightarrow>
    kernel_wait_queue_is_valid (Some q) s' = Some (q, w)"
  by (simp add: kernel_wait_queue_is_valid_def)

lemma leave_eq:
  assumes "kernel_wait_queue_is_valid (Some q) s = Some (q, w)" and "wq_waiter_count w \<noteq> 0"
  shows "wait_queue_leave (Some q) s = put_obj q (Wait_Queue (w\<lparr>wq_waiter_count := wq_waiter_count w - 1\<rparr>)) s"
  using assms by (auto simp: kernel_wait_queue_is_valid_def wait_queue_leave_def split: option.splits kobject.splits if_splits)

lemma queue_put:
  assumes "kernel_wait_queue_is_valid (Some q) s = Some (q, w)"
  shows "kernel_wait_queue_is_valid (Some q) (put_obj q (Wait_Queue (w\<lparr>wq_waiter_count := k\<rparr>)) s) =
    Some (q, w\<lparr>wq_waiter_count := k\<rparr>)"
  using assms by (auto simp: kernel_wait_queue_is_valid_def put_obj_def split: option.splits kobject.splits if_splits)

text \<open>The invariant, over the states of the system.\<close>

definition system_inv :: "ksync \<Rightarrow> nat set \<Rightarrow> bool" where
  "system_inv s W \<longleftrightarrow> holds s \<and> (\<exists>w. kernel_wait_queue_is_valid (Some q) s = Some (q, w) \<and>
     wait_inv (avail s) w (ks_sched s) W)"

lemma system_inv_sched:
  assumes "system_inv s W" and "calm (ks_sched s) t" and "sched_ok t"
  shows "system_inv (s\<lparr>ks_sched := t\<rparr>) W"
proof -
  obtain w where w: "kernel_wait_queue_is_valid (Some q) s = Some (q, w)" "wait_inv (avail s) w (ks_sched s) W"
    using assms(1) by (auto simp: system_inv_def)
  from wait_inv_calm [OF w(2) assms(2,3)] queue_eq [OF w(1), of "s\<lparr>ks_sched := t\<rparr>"] assms(1) show ?thesis
    by (auto simp: system_inv_def holds_sched avail_sched)
qed

lemma system_inv_enter:
  assumes inv: "system_inv s W" and c: "running c (ks_sched s)" "c \<notin> W"
    and run: "acquire env s = Some (Waits s1 r)" "ends r t"
  shows "system_inv (s1\<lparr>ks_sched := t\<rparr>) (insert c W)"
proof -
  obtain w where w: "kernel_wait_queue_is_valid (Some q) s = Some (q, w)" "wait_inv (avail s) w (ks_sched s) W"
    and h: "holds s" using inv by (auto simp: system_inv_def)
  have "sched_live (ks_sched s)" using w(2) c running_live by (auto simp: wait_inv_def)
  then have pid: "process_current_pid (ks_sched s) \<noteq> 0" using running_pid(2) c(1) by blast
  let ?w = "w\<lparr>wq_waiter_count := wq_waiter_count w + 1\<rparr>"
  have a: "avail s = 0" and e: "wait_queue_enter env (Some q) s = Some (s1, Some r)"
    using acquire_waits [OF h pid run(1)] by simp_all
  then have s1: "s1 = put_obj q (Wait_Queue ?w) s" "process_wait_channel env (wq_channel w) (ks_sched s) = Some r"
    using w(1) by (auto simp: wait_queue_enter_def)
  have "wait_inv 0 ?w t (insert c W)" by (rule wait_inv_enter [OF w(2) c s1(2) run(2)])
  moreover have "holds s1 \<and> avail s1 = 0" using holds_frame [OF h w(1)] a by (simp add: s1(1))
  moreover have "kernel_wait_queue_is_valid (Some q) (s1\<lparr>ks_sched := t\<rparr>) = Some (q, ?w)"
    by (rule queue_eq [OF queue_put [OF w(1)]]) (simp add: s1(1))
  ultimately show ?thesis by (auto simp: system_inv_def holds_sched avail_sched)
qed

lemma system_inv_leave:
  assumes inv: "system_inv s W" and c: "running c (ks_sched s)" "c \<in> W"
  obtains w where "kernel_wait_queue_is_valid (Some q) (wait_queue_leave (Some q) s) = Some (q, w)"
    and "wait_inv (avail s - 1) w (ks_sched s) (W - {c})" and "holds (wait_queue_leave (Some q) s)"
    and "avail (wait_queue_leave (Some q) s) = avail s" and "ks_sched (wait_queue_leave (Some q) s) = ks_sched s"
proof -
  obtain w where w: "kernel_wait_queue_is_valid (Some q) s = Some (q, w)" "wait_inv (avail s) w (ks_sched s) W"
    and h: "holds s" using inv by (auto simp: system_inv_def)
  note l = wait_inv_leave [OF w(2) c]
  show ?thesis
    by (rule that [unfolded leave_eq [OF w(1) l(2)], OF queue_put [OF w(1)] l(1)])
       (use holds_frame [OF h w(1)] in \<open>simp_all add: put_obj_def\<close>)
qed

theorem wait_system_inv:
  assumes "wait_system acquire release q s0 s W" and "system_inv s0 {}"
  shows "system_inv s W"
  using assms(1)
proof (induction rule: wait_system.induct)
  case start
  show ?case by (rule assms(2))
next
  case (acquired s W c env s')
  then obtain w where w: "holds s" "kernel_wait_queue_is_valid (Some q) s = Some (q, w)"
      "wait_inv (avail s) w (ks_sched s) W" by (auto simp: system_inv_def)
  note d = acquire_done [OF w(1) acquired(4)]
  then show ?case using queue_eq [OF w(2), of s'] wait_inv_take [OF w(3), of "avail s'"] by (auto simp: system_inv_def)
next
  case (waits s W c env s1 r t)
  then show ?case using system_inv_enter by blast
next
  case (continued s W c env s')
  let ?l = "wait_queue_leave (Some q) s"
  obtain w where w: "kernel_wait_queue_is_valid (Some q) ?l = Some (q, w)"
      "wait_inv (avail s - 1) w (ks_sched s) (W - {c})" "holds ?l" "avail ?l = avail s" "ks_sched ?l = ks_sched s"
    using system_inv_leave [OF continued.IH continued.hyps(2,3)] by blast
  note d = acquire_done [OF w(3) continued.hyps(4)]
  then show ?case using queue_eq [OF w(1), of s'] w by (auto simp: system_inv_def)
next
  case (waits_again s W c env s1 r t)
  let ?l = "wait_queue_leave (Some q) s"
  obtain w where w: "kernel_wait_queue_is_valid (Some q) ?l = Some (q, w)"
      "wait_inv (avail s - 1) w (ks_sched s) (W - {c})" "holds ?l" "avail ?l = avail s" "ks_sched ?l = ks_sched s"
    using system_inv_leave [OF waits_again.IH waits_again.hyps(2,3)] by blast
  have si: "sched_live (ks_sched s)" using w(2) waits_again.hyps(2) running_live by (auto simp: wait_inv_def)
  have "process_current_pid (ks_sched ?l) \<noteq> 0" unfolding w(5) by (rule running_pid(2) [OF si waits_again.hyps(2)])
  from acquire_waits [OF w(3) this waits_again.hyps(4)] have "avail s = 0" using w(4) by simp
  then have "system_inv ?l (W - {c})" using w by (auto simp: system_inv_def)
  from system_inv_enter [OF this _ _ waits_again.hyps(4,5), of c] waits_again.hyps(2,3) w(5) show ?case
    by (simp add: insert_absorb)
next
  case (released s W c n s')
  then obtain w where w: "holds s" "kernel_wait_queue_is_valid (Some q) s = Some (q, w)"
      "wait_inv (avail s) w (ks_sched s) W" by (auto simp: system_inv_def)
  show ?case
  proof (cases "s' = s")
    case True
    then show ?thesis using released.IH by simp
  next
    case False
    then obtain s1 where s1: "holds s1" "avail s1 \<le> Suc (avail s)" "ks_sched s1 = ks_sched s" "ks_objs s1 q = ks_objs s q"
        "wake_if_waiting (Some q) s1 = Some s'"
      using release_gives [OF w(1) released.hyps(4)] by blast
    have w1: "kernel_wait_queue_is_valid (Some q) s1 = Some (q, w)" by (rule queue_eq [OF w(2) s1(4)])
    show ?thesis
    proof (cases "wq_waiter_count w = 0")
      case True
      then have "s' = s1" using s1(5) w1 by (simp add: wake_if_waiting_def kernel_wait_queue_waiter_count_def)
      moreover have "W = {}" using wait_inv_count [OF w(3)] wait_inv_finite [OF w(3)] True by simp
      then have "wait_inv (avail s1) w (ks_sched s) W" using w(3) by (auto simp: wait_inv_def)
      ultimately show ?thesis using s1 w1 by (auto simp: system_inv_def)
    next
      case False
      then obtain k t where t: "process_wake_first_channel (wq_channel w) (ks_sched s1) = Some (k, t)" "s' = s1\<lparr>ks_sched := t\<rparr>"
        using s1(5) w1 by (auto simp: wake_if_waiting_def kernel_wait_queue_waiter_count_def kernel_wait_queue_wake_one_def)
      have "wait_inv (Suc (avail s)) w t W" by (rule wait_inv_wake [OF w(3)]) (use t(1) s1(3) in simp)
      then have "wait_inv (avail s1) w t W" using wait_inv_take s1(2) by blast
      then show ?thesis using t(2) s1 queue_eq [OF w1, of s'] by (auto simp: system_inv_def holds_sched avail_sched)
    qed
  qed
next
  case (yielded s W c env r t)
  then have w: "sched_ok (ks_sched s)" by (auto simp: system_inv_def wait_inv_def)
  have inv: "sched_live (ks_sched s)" using running_live [OF yielded.hyps(2) w] .
  have cur: "g_current_process_index (ks_sched s) = Some c" using yielded.hyps(2) by (simp add: running_def)
  show ?case
    by (rule system_inv_sched [OF yielded.IH ends_yield_calm [OF sched_live_weak [OF inv] cur yielded.hyps(4,5)]
          caller_yield_ok [OF inv yielded.hyps(4,5)]])
next
  case (ticked s W preemptive t)
  then have weak: "sched_weak (ks_sched s)" by (auto simp: system_inv_def wait_inv_def sched_ok_def)
  have "sched_inv t" by (rule systimer_tick_inv [OF ticked.hyps(2) sched_weak_loose [OF weak]])
  moreover have "calm (ks_sched s) t"
    by (rule systimer_tick_calm [OF ticked.hyps(2)]) (use weak in \<open>simp add: sched_weak_def\<close>)
  ultimately show ?case using system_inv_sched [OF ticked.IH] sched_inv_ok by blast
next
  case (idled s W env r t)
  then have weak: "sched_weak (ks_sched s)" by (auto simp: system_inv_def wait_inv_def sched_ok_def)
  note ic = idle_calm [OF weak idled.hyps(2)]
  show ?case
    by (rule system_inv_sched [OF idled.IH ends_calm [OF ic idled.hyps(3)] idle_ok [OF weak idled.hyps(2,3)]])
next
  case (spawned s W c sf stacks name entry role pid t)
  then have "sched_ok (ks_sched s)" by (auto simp: system_inv_def wait_inv_def)
  then have "sched_live (ks_sched s)" using running_live spawned.hyps(2) by blast
  from spawn_ok [OF this, of sf stacks name entry role] spawned.hyps(4) have "sched_live t" by auto
  then show ?case using system_inv_sched [OF spawned.IH spawn_calm [OF spawned.hyps(4)]] sched_live_ok by blast
qed

end

end
