(* ===== verification/Scheduler_Props.thy ===== *)
theory Scheduler_Props
  imports Scheduler_Run
begin

text \<open>
  What the scheduler guarantees in the states it can reach: the ready queue as a sorted list, the choice
  of the next process, the process table, the reaping of processes and the end of the idle loop; and three
  runs in which it does not do what it means to.
\<close>

section \<open>Concrete runs\<close>

definition demo_env :: yield_env where
  "demo_env = \<lparr>env_preemptive = False, env_capable = False, env_tick_pending = False, env_saved_sp = 0x3FC90000\<rparr>"

definition demo_spawn :: "scheduler \<Rightarrow> scheduler" where
  "demo_spawn s = (case process_spawn_with_role False 0x3FC90000 (Some ''p'') (Some 7) RUNTIME_PROCESS_ROLE_SYSTEM s of
     Some (_, s') \<Rightarrow> s' | None \<Rightarrow> s)"

definition after_switch :: "scheduler \<Rightarrow> outcome option \<Rightarrow> scheduler" where
  "after_switch s r = (case r of Some (Switched s') \<Rightarrow> s' | _ \<Rightarrow> s)"

text \<open>Process 1 runs and has spawned processes 2 and 3.\<close>

definition demo_running :: scheduler where
  "demo_running = (let s = demo_spawn scheduler_init in
     demo_spawn (demo_spawn (after_switch s (scheduler_run demo_env s))))"

lemma reachable_spawn: "sched_reachable s \<Longrightarrow> caller s \<Longrightarrow> sched_reachable (demo_spawn s)"
  by (auto simp: demo_spawn_def split: option.split intro: sched_reachable.step sched_step.spawn)

lemma reachable_switch:
  assumes "sched_reachable s" and "\<And>s'. r = Some (Switched s') \<Longrightarrow> sched_step s s'"
  shows "sched_reachable (after_switch s r)"
  using assms by (auto simp: after_switch_def split: option.split outcome.split intro: sched_reachable.step)

lemma demo_running_reachable: "sched_reachable demo_running"
proof -
  let ?s = "demo_spawn scheduler_init"
  let ?t = "after_switch ?s (scheduler_run demo_env ?s)"
  have c: "caller scheduler_init" "g_current_process_index ?s = None" "caller ?t" "caller (demo_spawn ?t)" by code_simp+
  have "sched_reachable ?s" by (intro reachable_spawn sched_reachable.initial c)
  then have "sched_reachable ?t"
    by (rule reachable_switch) (auto intro: sched_step.start [OF c(2)] ends_switched)
  then have "sched_reachable (demo_spawn (demo_spawn ?t))" by (intro reachable_spawn c)
  then show ?thesis by (simp add: demo_running_def Let_def)
qed

section \<open>The ready queue\<close>

text \<open>C3: inserting a process that is not queued yields a red-black tree whose in-order sequence is the old one
  with the process added, sorted by virtual run time, process id and slot, and whose cached leftmost node is the
  least; no array access is out of bounds and both loops end.\<close>

theorem ready_queue_insert_refines:
  assumes "rq_inv (scheduler_vruntime_before vruntime ps) q xs" and "i < MAX_PROCESSES"
  shows "\<exists>q' ys. scheduler_ready_queue_insert (scheduler_vruntime_before vruntime ps) i q = Some q' \<and>
    rq_inv (scheduler_vruntime_before vruntime ps) q' ys \<and>
    set ys = insert i (set xs) \<and> sorted_wrt (scheduler_vruntime_before vruntime ps) ys \<and>
    scheduler_pick_next_ready q' = first ys"
proof -
  obtain q' ys where "scheduler_ready_queue_insert (scheduler_vruntime_before vruntime ps) i q = Some q'"
      "rq_inv (scheduler_vruntime_before vruntime ps) q' ys" "g_sched_on_rq q' = (g_sched_on_rq q)(i := True)"
    using vruntime_order.insert_ok [OF assms] by blast
  with assms show ?thesis
    by (intro exI [of _ q'] exI [of _ ys]) (auto simp: rq_inv_def scheduler_pick_next_ready_def)
qed

theorem ready_queue_insert_refines_witness:
  "\<exists>q' ys. scheduler_ready_queue_insert (scheduler_vruntime_before [5, 3] [zero_process, zero_process]) 1
     ready_queue_init = Some q' \<and> set ys = {1} \<and> scheduler_pick_next_ready q' = first ys"
proof -
  have "rq_inv (scheduler_vruntime_before [5, 3] [zero_process, zero_process]) ready_queue_init []"
    by (simp add: rq_inv_def ready_queue_init_def first_def root_black_def)
  from ready_queue_insert_refines [OF this, of 1] show ?thesis by (auto simp: MAX_PROCESSES_def)
qed

text \<open>C4: removing a process from the ready queue takes exactly it out of the sorted sequence, whatever its
  place in the tree, keeps the leftmost cache right, and leaves a queue without it unchanged.\<close>

theorem ready_queue_remove_refines:
  assumes "rq_inv (scheduler_vruntime_before vruntime ps) q xs" and "i < MAX_PROCESSES"
  shows "\<exists>q'. scheduler_ready_queue_remove i q = Some q' \<and>
    rq_inv (scheduler_vruntime_before vruntime ps) q' (filter (\<lambda>k. k \<noteq> i) xs) \<and>
    scheduler_pick_next_ready q' = first (filter (\<lambda>k. k \<noteq> i) xs)"
proof -
  obtain q' where "scheduler_ready_queue_remove i q = Some q'"
      "rq_inv (scheduler_vruntime_before vruntime ps) q' (filter (\<lambda>k. k \<noteq> i) xs)"
    using vruntime_order.remove_ok [OF assms] by blast
  then show ?thesis by (auto simp: rq_inv_def scheduler_pick_next_ready_def)
qed

theorem ready_queue_remove_refines_witness:
  "\<exists>xs q'. scheduler_ready_queue_remove 1 (g_ready demo_running) = Some q' \<and> set xs = {2} \<and>
     rq_inv (precedes_in demo_running) q' xs"
proof -
  have "sched_weak demo_running" using sched_reachable_ok [OF demo_running_reachable] by (simp add: sched_ok_def)
  then obtain xs where xs: "rq_inv (precedes_in demo_running) (g_ready demo_running) xs"
    by (auto simp: sched_weak_def queue_sound_def)
  have "list_all (\<lambda>i. g_sched_on_rq (g_ready demo_running) i = (i = 1 \<or> i = 2)) [0..<MAX_PROCESSES]" by code_simp
  then have "set xs = {1, 2}" using xs by (auto simp: rq_inv_def list_all_iff MAX_PROCESSES_def)
  then have "set (filter (\<lambda>k. k \<noteq> 1) xs) = {2}" by auto
  moreover obtain q' where "scheduler_ready_queue_remove 1 (g_ready demo_running) = Some q'"
      "rq_inv (precedes_in demo_running) q' (filter (\<lambda>k. k \<noteq> 1) xs)"
    using ready_queue_remove_refines [OF xs [unfolded precedes_in_def], of 1]
    unfolding precedes_in_def MAX_PROCESSES_def by auto
  ultimately show ?thesis by blast
qed

section \<open>The choice of the next process\<close>

text \<open>C1: whenever a process runs, the next process the scheduler picks precedes every ready process in virtual
  run time (then process id), and it is itself ready, or else the running process, when that one has not left the
  queue since it was last woken; it picks none only if no process is ready.\<close>

theorem pick_is_least:
  assumes "sched_reachable s" and "caller s"
  shows "case scheduler_pick_next_ready (g_ready s) of
      None \<Rightarrow> \<forall>i<MAX_PROCESSES. \<not> ready s i
    | Some i \<Rightarrow> i < MAX_PROCESSES \<and> g_sched_on_rq (g_ready s) i \<and>
        (ready s i \<or> g_current_process_index s = Some i \<and> in_state s i PROCESS_STATE_RUNNING) \<and>
        (\<forall>j<MAX_PROCESSES. ready s j \<longrightarrow> j \<noteq> i \<longrightarrow> precedes_in s i j)"
proof -
  have live: "sched_live s" using sched_reachable_ok [OF assms(1)] assms(2) by (rule sched_ok_live)
  then show ?thesis
    using pick_live [OF live] pick_first [of s] by (auto simp: sched_live_def sched_weak_def lingers_def split: option.splits)
qed

theorem pick_is_least_witness:
  "\<exists>i<MAX_PROCESSES. scheduler_pick_next_ready (g_ready demo_running) = Some i \<and> ready demo_running i \<and>
     (\<forall>j<MAX_PROCESSES. ready demo_running j \<longrightarrow> j \<noteq> i \<longrightarrow> precedes_in demo_running i j)"
proof -
  have "caller demo_running" "scheduler_pick_next_ready (g_ready demo_running) = Some 1" "\<not> in_state demo_running 1 PROCESS_STATE_RUNNING"
    by code_simp+
  then show ?thesis using pick_is_least [OF demo_running_reachable] by (intro exI [of _ 1]) simp
qed

text \<open>C6: in every reachable state two used slots of the process table have different, non-zero process ids, at
  most one process is running, and it is the current one.\<close>

theorem process_table_sound:
  assumes "sched_reachable s" and "i < MAX_PROCESSES" and "j < MAX_PROCESSES"
    and "\<not> in_state s i PROCESS_STATE_UNUSED" and "\<not> in_state s j PROCESS_STATE_UNUSED"
  shows "ps_pid (g_processes s ! i) \<noteq> 0 \<and> (ps_pid (g_processes s ! i) = ps_pid (g_processes s ! j) \<longrightarrow> i = j) \<and>
    (in_state s i PROCESS_STATE_RUNNING \<longrightarrow> g_current_process_index s = Some i)"
  using sched_reachable_ok [OF assms(1)] assms(2-)
  unfolding sched_ok_def sched_weak_def pids_ok_def one_running_def by blast

theorem process_table_sound_witness:
  "\<not> in_state demo_running 0 PROCESS_STATE_UNUSED \<and> \<not> in_state demo_running 1 PROCESS_STATE_UNUSED \<and>
   ps_pid (g_processes demo_running ! 0) \<noteq> ps_pid (g_processes demo_running ! 1)"
proof -
  have u: "\<not> in_state demo_running 0 PROCESS_STATE_UNUSED" "\<not> in_state demo_running 1 PROCESS_STATE_UNUSED"
    by code_simp+
  have m: "0 < MAX_PROCESSES" "1 < MAX_PROCESSES" by (simp_all add: MAX_PROCESSES_def)
  from process_table_sound [OF demo_running_reachable m u] u show ?thesis by auto
qed

text \<open>C2: when the running process yields with no timer tick pending, and the stack pointers are sane, the
  processor goes to the ready process that precedes all others and the yielding process is ready again; if no
  process is ready, or the yielding process has not left the queue since it was last woken, the call returns.\<close>

theorem yield_switches_to_least:
  assumes reach: "sched_reachable s" and c: "g_current_process_index s = Some c" "in_state s c PROCESS_STATE_RUNNING"
    and quiet: "\<not> env_tick_pending env"
    and sp: "\<forall>n<MAX_PROCESSES. ready s n \<longrightarrow> scheduler_validate_switch_targets c n s"
  shows "if (\<exists>n<MAX_PROCESSES. ready s n) \<and> \<not> g_sched_on_rq (g_ready s) c
    then \<exists>n s'. n < MAX_PROCESSES \<and> ready s n \<and> (\<forall>j<MAX_PROCESSES. ready s j \<longrightarrow> j \<noteq> n \<longrightarrow> precedes_in s n j) \<and>
      process_yield env s = Some (Switched s') \<and> g_current_process_index s' = Some n \<and>
      in_state s' n PROCESS_STATE_RUNNING \<and> ready s' c
    else \<exists>s'. process_yield env s = Some (Returns s')"
proof -
  have live: "sched_live s" using sched_reachable_ok [OF reach] c by (intro sched_ok_live) (simp_all add: caller_def)
  note weak = sched_live_weak [OF live]
  note least = pick_live [OF live]
  obtain p r where pr: "yield_polled env c s = Some p" "process_yield env s = Some r" and out: "yield_outcome c p r"
    using yield_ok [OF disjI1 [OF weak] c(1), of env] by blast
  have cb: "c < MAX_PROCESSES" "sched_shape s" using weak c by (auto simp: sched_weak_def one_running_def)
  have run: "in_state p c PROCESS_STATE_RUNNING" by (rule yield_polled_running [OF pr(1) cb(2,1) c(2)])
  have q: "g_ready p = g_ready s" and e: "g_process_exec p = g_process_exec s"
    using pr(1) quiet by (auto simp: yield_polled_def runtime_poll_timer_delivery_def)
  have v: "scheduler_validate_switch_targets c n p = scheduler_validate_switch_targets c n s" for n
    by (simp add: scheduler_validate_switch_targets_def e)
  have queued: "scheduler_pick_next_ready (g_ready s) = Some c \<longleftrightarrow> g_sched_on_rq (g_ready s) c"
    using pick_first [of s] weak c(2) cb(1) by (auto simp: sched_weak_def queued_ready_def lingers_def in_state_def)
  show ?thesis
  proof (cases "scheduler_pick_next_ready (g_ready s)")
    case None
    with least have none: "\<not> (\<exists>n<MAX_PROCESSES. ready s n)" by simp
    with out run q v None pr(2) show ?thesis by (cases r) (auto simp: yield_outcome_def)
  next
    case (Some n)
    show ?thesis
    proof (cases "n = c")
      case True
      then show ?thesis using Some queued yield_picks_current [OF c(1) _ quiet] by simp
    next
      case False
      with least Some c(1) have n: "n < MAX_PROCESSES" "ready s n" "\<forall>j<MAX_PROCESSES. ready s j \<longrightarrow> j \<noteq> n \<longrightarrow> precedes_in s n j"
        by (auto simp: lingers_def)
      have "scheduler_validate_switch_targets c n s" using sp n by blast
      with out run q v Some False obtain s' where "r = Switched s'" "g_current_process_index s' = Some n"
          "in_state s' n PROCESS_STATE_RUNNING" "ready s' c"
        by (cases r) (auto simp: yield_outcome_def)
      with n pr(2) queued Some False show ?thesis by auto
    qed
  qed
qed

lemma demo_running_facts:
  "g_current_process_index demo_running = Some 0" "in_state demo_running 0 PROCESS_STATE_RUNNING"
  "caller demo_running" "ready demo_running 1" "\<not> g_sched_on_rq (g_ready demo_running) 0"
  by code_simp+

theorem yield_switches_to_least_witness:
  "\<exists>n s'. n < MAX_PROCESSES \<and> ready demo_running n \<and> process_yield demo_env demo_running = Some (Switched s') \<and>
     g_current_process_index s' = Some n \<and> ready s' 0"
proof -
  have "list_all (\<lambda>n. ready demo_running n \<longrightarrow> scheduler_validate_switch_targets 0 n demo_running) [0..<MAX_PROCESSES]"
    by code_simp
  then have "\<forall>n<MAX_PROCESSES. ready demo_running n \<longrightarrow> scheduler_validate_switch_targets 0 n demo_running"
    by (simp add: list_all_iff)
  moreover have "\<not> env_tick_pending demo_env" by (simp add: demo_env_def)
  moreover have "\<exists>n<MAX_PROCESSES. ready demo_running n"
    using demo_running_facts(4) by (intro exI [of _ 1]) (simp add: MAX_PROCESSES_def)
  ultimately show ?thesis
    using yield_switches_to_least [OF demo_running_reachable demo_running_facts(1,2), of demo_env] demo_running_facts(5) by auto
qed

section \<open>Reaping\<close>

text \<open>C7: reaping a zombie returns its exit code, frees its slot and makes its process id unknown; every other
  slot keeps its process.\<close>

theorem reap_frees_slot:
  assumes reach: "sched_reachable s" and cal: "caller s"
    and i: "process_core_find_index_by_pid (g_processes s) pid = Some i" "in_state s i PROCESS_STATE_ZOMBIE"
  shows "\<exists>s'. process_reap pid (Some x) s = Some (1, Some (ps_exit_code (g_processes s ! i)), s') \<and>
    in_state s' i PROCESS_STATE_UNUSED \<and> process_core_find_index_by_pid (g_processes s') pid = None \<and>
    (\<forall>j. j \<noteq> i \<longrightarrow> g_processes s' ! j = g_processes s ! j)"
proof -
  have inv: "sched_live s" using sched_reachable_ok [OF reach] cal by (rule sched_ok_live)
  have len: "length (g_processes s) = MAX_PROCESSES" using inv by (simp add: sched_live_def sched_weak_def sched_shape_def)
  have f: "i < MAX_PROCESSES" "ps_pid (g_processes s ! i) = pid" "pid \<noteq> 0"
    using i(1) len by (auto simp: process_core_find_index_by_pid_def first_index_Some split: if_splits)
  obtain s' where s': "scheduler_reset_process_slot i s = Some s'" "in_state s' i PROCESS_STATE_UNUSED"
    using reset_slot_ok [OF inv f(1) i(2) caller_not_current [OF cal]] i(2) by (auto simp: in_state_def)
  have g: "g_processes s' = (g_processes s)[i := process_core_reset_slot (g_processes s ! i)]"
    using s'(1) by (auto simp: scheduler_reset_process_slot_def bind_eq_Some_conv Let_def)
  have "\<not> (ps_state (g_processes s' ! j) \<noteq> PROCESS_STATE_UNUSED \<and> ps_pid (g_processes s' ! j) = pid)"
    if j: "j < MAX_PROCESSES" for j
  proof (cases "j = i")
    case True
    then show ?thesis using s'(2) by (simp add: in_state_def)
  next
    case False
    have "pids_ok s" "\<not> in_state s i PROCESS_STATE_UNUSED" using inv i(2) by (simp_all add: sched_live_def sched_weak_def in_state_def)
    then show ?thesis using False f j by (auto simp: g pids_ok_def in_state_def)
  qed
  then have "process_core_find_index_by_pid (g_processes s') pid = None"
    using len by (auto simp: process_core_find_index_by_pid_def first_index_None g)
  with s' i show ?thesis by (auto simp: process_reap_def in_state_def g)
qed

definition demo_killed :: scheduler where
  "demo_killed = (case process_kill demo_env 2 7 demo_running of Some (Inr (_, s)) \<Rightarrow> s | _ \<Rightarrow> demo_running)"

lemma demo_killed_reachable: "sched_reachable demo_killed"
  using demo_running_reachable demo_running_facts(3)
  by (auto simp: demo_killed_def split: option.split sum.split intro: sched_reachable.step sched_step.kill_other)

theorem reap_frees_slot_witness:
  "\<exists>s'. process_reap 2 (Some 0) demo_killed = Some (1, Some 7, s') \<and>
     process_core_find_index_by_pid (g_processes s') 2 = None"
proof -
  have "caller demo_killed" "process_core_find_index_by_pid (g_processes demo_killed) 2 = Some 1"
    "in_state demo_killed 1 PROCESS_STATE_ZOMBIE" "ps_exit_code (g_processes demo_killed ! 1) = 7" by code_simp+
  then show ?thesis using reap_frees_slot [OF demo_killed_reachable, of 2 1 0] by auto
qed

section \<open>The idle loop\<close>

definition sleeps_until :: "scheduler \<Rightarrow> nat \<Rightarrow> u64 \<Rightarrow> bool" where
  "sleeps_until s i w \<longleftrightarrow> in_state s i PROCESS_STATE_BLOCKED \<and>
     ps_wait_reason (g_processes s ! i) = PROCESS_WAIT_SLEEP_TICKS \<and> ps_wake_tick (g_processes s ! i) = w"

text \<open>One round: it ends the wait, or the sleeper is not due yet and sleeps on.\<close>

lemma idle_wakeup_round:
  assumes weak: "sched_weak s" and c: "g_current_process_index s = Some c"
    and i: "i < MAX_PROCESSES" "sleeps_until s i w"
  shows "\<exists>r. idle_wakeup env s = Some r \<and> (\<forall>s'. r = Idle s' \<longrightarrow>
    sched_weak s' \<and> g_current_process_index s' = Some c \<and> sleeps_until s' i w \<and>
    g_kernel_ticks s' = g_kernel_ticks s + 1 \<and> \<not> w \<le> g_kernel_ticks s + 1)"
proof -
  obtain s1 where s1: "systimer_tick (env_preemptive env) s = Some s1" "sched_inv s1"
    using systimer_tick_ok [OF sched_weak_loose [OF weak]] by blast
  obtain q where q: "scheduler_sync_ready_queue s1 = Some (s1\<lparr>g_ready := q\<rparr>)" "sched_inv (s1\<lparr>g_ready := q\<rparr>)"
    using resync_keeps [OF sched_inv_loose [OF s1(2)], of s1] by (auto simp: keeps_slots_def)
  let ?s2 = "s1\<lparr>g_ready := q\<rparr>"
  obtain q1 where eq1: "s1 = s\<lparr>g_kernel_ticks := g_kernel_ticks s + 1,
      g_scheduler_preempt_state := scheduler_preempt_on_timer_tick (env_preemptive env) (g_scheduler_preempt_state s),
      g_processes := fst (process_core_wake_sleepers (g_processes s) (g_kernel_ticks s + 1)), g_ready := q1\<rparr>"
    using sync_only_queue [OF s1(1) [unfolded systimer_tick_def process_tick_def scheduler_sync_ready_queue_def]]
    by auto
  have len: "length (g_processes s) = MAX_PROCESSES" using weak by (simp add: sched_weak_def sched_shape_def)
  have p: "g_processes ?s2 ! i = (if sleeper_due (g_kernel_ticks s + 1) (g_processes s ! i)
      then process_core_make_ready (g_processes s ! i) else g_processes s ! i)"
    using i(1) len by (simp add: eq1 process_core_wake_sleepers_def update_where_eq)
  have due: "sleeper_due t (g_processes s ! i) \<longleftrightarrow> w \<le> t" for t
    using i(2) by (auto simp: sleeps_until_def sleeper_due_def in_state_def)
  have cur: "g_current_process_index ?s2 = Some c" using c by (simp add: eq1)
  show ?thesis
  proof (cases "scheduler_pick_next_ready (g_ready ?s2)")
    case None
    then have "\<not> ready ?s2 i" using pick_next_least [OF q(2)] i(1) by simp
    then have "\<not> w \<le> g_kernel_ticks s + 1"
      using i(2) p due by (auto simp: in_state_def process_core_make_ready_def sleeps_until_def)
    moreover from this have "sleeps_until ?s2 i w" using i(2) p due by (simp add: sleeps_until_def in_state_def)
    moreover have "idle_wakeup env s = Some (Idle ?s2)"
      using None cur s1 q by (simp add: idle_wakeup_def split: option.split)
    ultimately show ?thesis using cur sched_inv_weak [OF q(2)] by (simp add: eq1)
  next
    case (Some n)
    note out = yield_to_ok [OF sched_inv_weak [OF q(2)] cur Some, of env]
    then obtain r where r: "yield_to env c n ?s2 = Some r" by blast
    with out have "\<forall>s'. r \<noteq> Idle s'" by auto
    with r show ?thesis using Some cur s1 q by (auto simp: idle_wakeup_def)
  qed
qed

lemma word_gap_step:
  fixes w t :: u64
  assumes "t < w" and "\<not> w \<le> t + 1"
  shows "t + 1 < w" and "unat (w - t) = Suc (unat (w - (t + 1)))"
proof -
  show "t + 1 < w" using assms(2) by simp
  have "t + 1 \<noteq> 0" using assms(1) eq_neg_iff_add_eq_0 by force
  then have "unat (t + 1) = unat t + 1" by (metis Suc_eq_plus1 unatSuc add.commute)
  moreover have "unat (w - t) = unat w - unat t" "unat (w - (t + 1)) = unat w - unat (t + 1)"
    using assms \<open>t + 1 < w\<close> by (simp_all add: unat_sub less_imp_le)
  moreover have "unat (t + 1) < unat w" using \<open>t + 1 < w\<close> by (simp add: word_less_nat_alt)
  ultimately show "unat (w - t) = Suc (unat (w - (t + 1)))" by simp
qed

lemma idle_loop_counts:
  assumes "sched_weak s" and "g_current_process_index s = Some c" and "i < MAX_PROCESSES" and "sleeps_until s i w"
    and "g_kernel_ticks s < w" and "k = unat (w - g_kernel_ticks s)"
  shows "\<exists>r. idle_loop k env s = Some r \<and> (\<forall>s'. r \<noteq> Idle s')"
  using assms
proof (induction k arbitrary: s)
  case 0
  then have "w - g_kernel_ticks s = 0" by (simp add: unat_eq_0)
  with 0 show ?case by simp
next
  case (Suc k)
  obtain r where r: "idle_wakeup env s = Some r" "\<forall>s'. r = Idle s' \<longrightarrow>
    sched_weak s' \<and> g_current_process_index s' = Some c \<and> sleeps_until s' i w \<and>
    g_kernel_ticks s' = g_kernel_ticks s + 1 \<and> \<not> w \<le> g_kernel_ticks s + 1"
    using idle_wakeup_round [OF Suc.prems(1-4), of env] by blast
  show ?case
  proof (cases "\<exists>s'. r = Idle s'")
    case True
    then obtain s' where s': "r = Idle s'" by blast
    with r have "\<not> w \<le> g_kernel_ticks s + 1" by blast
    from word_gap_step [OF Suc.prems(5) this] Suc.prems(6) s' r Suc.prems(3) have "\<exists>r. idle_loop k env s' = Some r \<and> (\<forall>s'. r \<noteq> Idle s')"
      by (intro Suc.IH) auto
    then show ?thesis using r s' by simp
  next
    case False
    then show ?thesis using r(1) by (cases r) auto
  qed
qed

text \<open>C5: the wait for an interrupt in \<open>process_yield\<close> ends: if a process sleeps until tick \<open>w\<close>, the loop
  leaves after at most \<open>w\<close> minus the current tick timer ticks, without an access out of bounds.\<close>

theorem idle_loop_ends:
  assumes reach: "sched_reachable s" and c: "g_current_process_index s = Some c"
    and i: "i < MAX_PROCESSES" "sleeps_until s i w" and early: "g_kernel_ticks s < w"
  shows "\<exists>r. idle_loop (unat (w - g_kernel_ticks s)) env s = Some r \<and> (\<forall>s'. r \<noteq> Idle s')"
  using idle_loop_counts [OF _ c i early refl] sched_reachable_ok [OF reach] by (simp add: sched_ok_def)

text \<open>Process 1 sleeps for three ticks, and so do the two others: the processor waits.\<close>

definition after_wait :: "scheduler \<Rightarrow> outcome option \<Rightarrow> scheduler" where
  "after_wait s r = (case r of Some (Switched s') \<Rightarrow> s' | Some (Idle s') \<Rightarrow> s' | _ \<Rightarrow> s)"

definition demo_sleep :: "scheduler \<Rightarrow> scheduler" where
  "demo_sleep s = after_wait s (process_sleep demo_env 3 s)"

definition demo_idle :: scheduler where
  "demo_idle = demo_sleep (demo_sleep (demo_sleep demo_running))"

lemma reachable_sleep: "sched_reachable s \<Longrightarrow> caller s \<Longrightarrow> sched_reachable (demo_sleep s)"
  by (auto simp: demo_sleep_def after_wait_def split: option.split outcome.split
      intro: sched_reachable.step sched_step.sleep ends_switched ends_idle)

lemma demo_idle_reachable: "sched_reachable demo_idle"
proof -
  have "caller (demo_sleep demo_running)" "caller (demo_sleep (demo_sleep demo_running))" by code_simp+
  then show ?thesis
    unfolding demo_idle_def by (intro reachable_sleep demo_running_reachable demo_running_facts(3))
qed

theorem idle_loop_ends_witness:
  "\<exists>r. idle_loop 3 demo_env demo_idle = Some r \<and> (\<forall>s'. r \<noteq> Idle s')"
proof -
  have f: "g_current_process_index demo_idle = Some 2" "sleeps_until demo_idle 0 3" "g_kernel_ticks demo_idle = 0"
    by code_simp+
  have "0 < MAX_PROCESSES" by (simp add: MAX_PROCESSES_def)
  from idle_loop_ends [OF demo_idle_reachable f(1) this f(2), of demo_env] f(3) show ?thesis by simp
qed

section \<open>Deviations\<close>

text \<open>
  \<open>process_exit\<close> wakes the parent that waits for the process but does not put it into the ready queue; if
  nothing else is ready or sleeping, \<open>process_yield\<close> then finds no process and halts the system although the
  parent is ready.
\<close>

definition demo_waited :: "(scheduler \<times> outcome option) option" where
  "demo_waited = (let s = demo_spawn scheduler_init; s = demo_spawn (after_switch s (scheduler_run demo_env s)) in
     case process_waitpid 2 None s of
       Some (Inl s1) \<Rightarrow> (let s2 = after_switch s1 (process_yield demo_env s1) in
         Some (exit_current 0 s2, process_exit demo_env 0 s2))
     | _ \<Rightarrow> None)"

theorem exit_halts_although_parent_is_ready:
  "case demo_waited of
     Some (s, r) \<Rightarrow> ready s 0 \<and> (case r of Some Panic \<Rightarrow> True | _ \<Rightarrow> False)
   | None \<Rightarrow> False"
  by code_simp

text \<open>
  A process that sleeps, is woken by the tick that \<open>process_yield\<close> polls and is picked again keeps running
  without leaving the ready queue; as it is the leftmost node, its next yields return at once although
  another process is ready.
\<close>

definition demo_tick_env :: yield_env where
  "demo_tick_env = demo_env\<lparr>env_tick_pending := True\<rparr>"

theorem woken_at_once_stays_queued:
  "case process_sleep demo_tick_env 1 demo_running of
     Some (Returns s) \<Rightarrow> in_state s 0 PROCESS_STATE_RUNNING \<and> g_sched_on_rq (g_ready s) 0 \<and> ready s 1 \<and>
       (case process_yield demo_env s of Some (Returns _) \<Rightarrow> True | _ \<Rightarrow> False)
   | _ \<Rightarrow> False"
  by code_simp

text \<open>If such a process exits before the queue is synchronised again, \<open>process_yield\<close> picks it once more, makes it run
  again and returns, and \<open>process_exit\<close> halts the system although another process is ready.\<close>

theorem exit_of_queued_process_halts:
  "case process_sleep demo_tick_env 1 demo_running of
     Some (Returns s) \<Rightarrow> ready s 1 \<and> (case process_exit demo_env 0 s of Some Panic \<Rightarrow> True | _ \<Rightarrow> False)
   | _ \<Rightarrow> False"
  by code_simp

end
