(* ===== verification/Sync_Props.thy ===== *)
theory Sync_Props
  imports Sync_Protocol Scheduler_Props
begin

text \<open>
  The theorems on the synchronisation objects: the semaphore and the mutex as instances of the contract of
  \<open>Sync_Protocol\<close>, exclusion, events, the mailbox, and the heap that the constructors use.
\<close>

section \<open>Semaphores\<close>

definition sem_at :: "nat \<Rightarrow> nat \<Rightarrow> ksync \<Rightarrow> bool" where
  "sem_at p q s \<longleftrightarrow> (\<exists>x w. ks_objs s p = Some (Semaphore x) \<and> sem_magic x = KERNEL_SEMAPHORE_MAGIC \<and>
     sem_wait_queue x = Some q \<and> sem_count x \<le> sem_max_count x \<and>
     ks_objs s q = Some (Wait_Queue w) \<and> wq_magic w = KERNEL_WAIT_QUEUE_MAGIC)"

lemma sem_atD:
  assumes "sem_at p q s"
  obtains x w where "ks_objs s p = Some (Semaphore x)" "kernel_semaphore_is_valid (Some p) s = Some (p, x)"
    "sem_wait_queue x = Some q" "sem_count x \<le> sem_max_count x" "ks_objs s q = Some (Wait_Queue w)"
    "kernel_wait_queue_is_valid (Some q) s = Some (q, w)" "p \<noteq> q"
proof -
  from assms obtain x w where x: "ks_objs s p = Some (Semaphore x)" "sem_magic x = KERNEL_SEMAPHORE_MAGIC"
    "sem_wait_queue x = Some q" "sem_count x \<le> sem_max_count x"
    "ks_objs s q = Some (Wait_Queue w)" "wq_magic w = KERNEL_WAIT_QUEUE_MAGIC" by (auto simp: sem_at_def)
  then have "p \<noteq> q" by auto
  with x that [of x w] show ?thesis
    by (simp add: kernel_semaphore_is_valid_def kernel_wait_queue_is_valid_def)
qed

lemma unat_pred: "(c :: u32) \<noteq> 0 \<Longrightarrow> unat c = Suc (unat (c - 1))"
  by (simp add: unat_minus_one unat_gt_0)

lemma count_put:
  "sem_magic x = KERNEL_SEMAPHORE_MAGIC \<Longrightarrow> sem_wait_queue x = Some q \<Longrightarrow>
   kernel_semaphore_count (Some p) (put_obj p (Semaphore x) s) = sem_count x"
  by (simp add: kernel_semaphore_count_def kernel_semaphore_is_valid_def put_obj_def)

lemma sem_valid_magic: "kernel_semaphore_is_valid (Some p) s = Some (p, x) \<Longrightarrow> sem_magic x = KERNEL_SEMAPHORE_MAGIC"
  by (auto simp: kernel_semaphore_is_valid_def split: option.splits kobject.splits if_splits)

lemma sem_at_put:
  assumes "sem_at p q s" and "kernel_semaphore_is_valid (Some p) s = Some (p, x)" and "n \<le> sem_max_count x"
  shows "sem_at p q (put_obj p (Semaphore (x\<lparr>sem_count := n\<rparr>)) s)"
  using assms by (auto simp: sem_at_def put_obj_def kernel_semaphore_is_valid_def)

interpretation sem: waiting_object q "sem_at p q" "\<lambda>s. unat (kernel_semaphore_count (Some p) s)"
  "\<lambda>env. kernel_semaphore_acquire env (Some p)" "kernel_semaphore_release (Some p)" for p q
proof (unfold_locales, goal_cases)
  case (1 s env s')
  obtain x w where x: "ks_objs s p = Some (Semaphore x)" "kernel_semaphore_is_valid (Some p) s = Some (p, x)"
    "sem_wait_queue x = Some q" "sem_count x \<le> sem_max_count x" "p \<noteq> q" using sem_atD [OF 1(1)] by metis
  have c: "sem_count x \<noteq> 0" and s': "s' = put_obj p (Semaphore (x\<lparr>sem_count := sem_count x - 1\<rparr>)) s"
    using 1(2) x(2) by (auto simp: kernel_semaphore_acquire_def kernel_semaphore_try_acquire_def wait_round_def
        split: if_splits option.splits prod.splits)
  have "sem_count x - 1 \<le> sem_max_count x" using x(4) unat_pred [OF c] by (simp add: word_le_nat_alt)
  then have "sem_at p q s'" using sem_at_put [OF 1(1) x(2)] by (simp add: s')
  moreover have "unat (sem_count x) = Suc (unat (sem_count x - 1))" by (rule unat_pred [OF c])
  moreover have "kernel_semaphore_count (Some p) s' = sem_count x - 1"
    using count_put [of "x\<lparr>sem_count := sem_count x - 1\<rparr>" q p s] sem_valid_magic [OF x(2)] x(3) by (simp add: s')
  ultimately show ?case using x by (simp add: kernel_semaphore_count_def s' put_obj_def)
next
  case (2 s env s' r)
  obtain x w where x: "kernel_semaphore_is_valid (Some p) s = Some (p, x)" "sem_wait_queue x = Some q"
    using sem_atD [OF 2(1)] by metis
  show ?case
    using 2(3) x by (auto simp: kernel_semaphore_acquire_def kernel_semaphore_try_acquire_def wait_round_def
        kernel_semaphore_count_def split: if_splits option.splits)
next
  case (3 s n s')
  obtain x w where x: "kernel_semaphore_is_valid (Some p) s = Some (p, x)" "sem_wait_queue x = Some q"
    "sem_count x \<le> sem_max_count x" "p \<noteq> q" using sem_atD [OF 3(1)] by metis
  show ?case
  proof (cases "sem_count x = sem_max_count x")
    case True
    then show ?thesis using 3(2) x by (simp add: kernel_semaphore_release_def)
  next
    case False
    then have lt: "sem_count x < sem_max_count x" using x(3) by simp
    let ?s1 = "put_obj p (Semaphore (x\<lparr>sem_count := sem_count x + 1\<rparr>)) s"
    have "sem_at p q ?s1" using sem_at_put [OF 3(1) x(1)] lt by (simp add: inc_le)
    moreover have "kernel_semaphore_count (Some p) ?s1 = sem_count x + 1"
      using count_put [of "x\<lparr>sem_count := sem_count x + 1\<rparr>" q p s] sem_valid_magic [OF x(1)] x(2) by simp
    moreover have "unat (sem_count x + 1) \<le> Suc (unat (sem_count x))"
      by (metis Suc_eq_plus1 add.commute le_refl unatSuc unat_0 zero_le)
    moreover have "wake_if_waiting (Some q) ?s1 = Some s'"
      using 3(2) x False by (auto simp: kernel_semaphore_release_def)
    ultimately show ?thesis
      using x by (intro disjI2 exI [of _ ?s1]) (simp add: kernel_semaphore_count_def put_obj_def)
  qed
next
  case (4 s)
  then show ?case using sem_atD by metis
next
  case (5 s w k)
  then show ?case
    by (auto simp: sem_at_def kernel_wait_queue_is_valid_def put_obj_def kernel_semaphore_count_def
        kernel_semaphore_is_valid_def split: if_splits)
next
  case (6 s t)
  then show ?case by (simp add: sem_at_def)
next
  case (7 s t)
  then show ?case by (simp add: kernel_semaphore_count_def kernel_semaphore_is_valid_def)
qed

text \<open>A queue that nobody has entered, in a sound scheduler.\<close>

definition queue_fresh :: "nat \<Rightarrow> ksync \<Rightarrow> bool" where
  "queue_fresh q s \<longleftrightarrow> sched_ok (ks_sched s) \<and> (\<exists>w. kernel_wait_queue_is_valid (Some q) s = Some (q, w) \<and>
     wq_waiter_count w = 0 \<and> chan_blocked (wq_channel w) (ks_sched s) = {})"

lemma fresh_wait_inv:
  assumes "queue_fresh q s"
  shows "\<exists>w. kernel_wait_queue_is_valid (Some q) s = Some (q, w) \<and> wait_inv n w (ks_sched s) {}"
  using assms by (auto simp: queue_fresh_def wait_inv_def)

text \<open>C16: the semaphore loses no wake-up. Whatever processes acquire and release it in whatever interleaving,
  its count stays within its maximum, the waiter count is the number of processes inside the queue, and as long as
  a process is blocked on the queue at least as many processes as there are units to take have been woken and
  are ready or running.\<close>

theorem semaphore_no_lost_wakeup:
  assumes sys: "wait_system (\<lambda>env. kernel_semaphore_acquire env (Some p)) (kernel_semaphore_release (Some p)) q s0 s W"
    and init: "sem_at p q s0" "queue_fresh q s0"
  shows "\<exists>w. kernel_wait_queue_is_valid (Some q) s = Some (q, w) \<and> sem_at p q s \<and>
    unat (kernel_semaphore_waiter_count (Some p) s) = card W \<and> chan_blocked (wq_channel w) (ks_sched s) \<subseteq> W \<and>
    (\<forall>i \<in> W - chan_blocked (wq_channel w) (ks_sched s). alive (ks_sched s) i) \<and>
    (chan_blocked (wq_channel w) (ks_sched s) \<noteq> {} \<longrightarrow>
      unat (kernel_semaphore_count (Some p) s) \<le> card (W - chan_blocked (wq_channel w) (ks_sched s)))"
proof -
  have "sem.system_inv q p s0 {}" using init fresh_wait_inv [OF init(2)] by (auto simp: sem.system_inv_def)
  from sem.wait_system_inv [OF sys this] obtain w where w: "sem_at p q s" "kernel_wait_queue_is_valid (Some q) s = Some (q, w)"
      "wait_inv (unat (kernel_semaphore_count (Some p) s)) w (ks_sched s) W"
    by (auto simp: sem.system_inv_def)
  have "kernel_semaphore_waiter_count (Some p) s = wq_waiter_count w"
    using sem_atD [OF w(1)] w(2) by (metis (no_types, lifting) kernel_semaphore_waiter_count_def
        kernel_wait_queue_waiter_count_def option.case(2) prod.case)
  then show ?thesis using w wait_inv_count [OF w(3)] by (auto simp: wait_inv_def)
qed

lemma create_with_queue_sched: "create_with_queue n obj s = Some (p, s') \<Longrightarrow> ks_sched s' = ks_sched s"
  by (auto simp: create_with_queue_def kmem_alloc_in_def kmem_free_in_def kernel_wait_queue_create_def put_obj_def
      bind_eq_Some_conv split: option.splits)

text \<open>Process 1 has created a semaphore without units and waits for one.\<close>

definition demo_sync :: ksync where
  "demo_sync = ksync_boot\<lparr>ks_sched := demo_running\<rparr>"

definition demo_sem :: ksync where
  "demo_sem = (case kernel_semaphore_create 0 2 demo_sync of Some (_, s) \<Rightarrow> s | None \<Rightarrow> demo_sync)"

definition demo_sem_waits :: ksync where
  "demo_sem_waits = (case kernel_semaphore_acquire demo_env (Some 12) demo_sem of
     Some (Waits s (Switched t)) \<Rightarrow> s\<lparr>ks_sched := t\<rparr> | _ \<Rightarrow> demo_sem)"

lemma demo_sem_facts:
  "sem_at 12 40 demo_sem" "queue_fresh 40 demo_sem" "running 0 (ks_sched demo_sem)"
proof -
  have obj: "(case ks_objs demo_sem 12 of Some (Semaphore x) \<Rightarrow> sem_magic x = KERNEL_SEMAPHORE_MAGIC \<and>
      sem_wait_queue x = Some 40 \<and> sem_count x \<le> sem_max_count x | _ \<Rightarrow> False)" by code_simp
  have que: "(case kernel_wait_queue_is_valid (Some 40) demo_sem of Some (a, w) \<Rightarrow> a = 40 \<and> wq_waiter_count w = 0 \<and>
      list_all (\<lambda>i. \<not> waits_on_channel (wq_channel w) (g_processes (ks_sched demo_sem) ! i)) [0..<MAX_PROCESSES]
      | None \<Rightarrow> False)" by code_simp
  have sched: "ks_sched demo_sem = demo_running"
    by (auto simp: demo_sem_def demo_sync_def kernel_semaphore_create_def dest: create_with_queue_sched split: option.split)
  from que obtain w where w: "kernel_wait_queue_is_valid (Some 40) demo_sem = Some (40, w)" "wq_waiter_count w = 0"
      "\<forall>i<MAX_PROCESSES. \<not> waits_on_channel (wq_channel w) (g_processes (ks_sched demo_sem) ! i)"
    by (auto simp: list_all_iff split: option.splits)
  then show "queue_fresh 40 demo_sem"
    using sched_reachable_ok [OF demo_running_reachable] by (auto simp: queue_fresh_def sched chan_blocked_def)
  have "ks_objs demo_sem 40 = Some (Wait_Queue w)" "wq_magic w = KERNEL_WAIT_QUEUE_MAGIC"
    using w(1) by (auto simp: kernel_wait_queue_is_valid_def split: option.splits kobject.splits if_splits)
  then show "sem_at 12 40 demo_sem" using obj by (auto simp: sem_at_def split: option.splits kobject.splits)
  show "running 0 (ks_sched demo_sem)" using demo_running_facts by (simp add: running_def sched)
qed

theorem semaphore_no_lost_wakeup_witness:
  "\<exists>w. kernel_wait_queue_is_valid (Some 40) demo_sem_waits = Some (40, w) \<and>
     unat (kernel_semaphore_waiter_count (Some 12) demo_sem_waits) = card {0} \<and>
     chan_blocked (wq_channel w) (ks_sched demo_sem_waits) \<subseteq> {0}"
proof -
  have "case kernel_semaphore_acquire demo_env (Some 12) demo_sem of Some (Waits s (Switched t)) \<Rightarrow> True | _ \<Rightarrow> False"
    by code_simp
  then obtain s t where st: "kernel_semaphore_acquire demo_env (Some 12) demo_sem = Some (Waits s (Switched t))"
    by (auto split: option.splits round.splits outcome.splits)
  then have d: "demo_sem_waits = s\<lparr>ks_sched := t\<rparr>" by (simp add: demo_sem_waits_def)
  have sys: "wait_system (\<lambda>env. kernel_semaphore_acquire env (Some 12)) (kernel_semaphore_release (Some 12)) 40 demo_sem
      demo_sem_waits {0}"
    unfolding d
    by (rule wait_system.waits [where acquire = "\<lambda>env. kernel_semaphore_acquire env (Some 12)" and env = demo_env,
          OF wait_system.start demo_sem_facts(3) _ st ends_switched]) simp
  from semaphore_no_lost_wakeup [OF sys demo_sem_facts(1,2)] show ?thesis by auto
qed

end
