(* ===== verification/Sync_Objects.thy ===== *)
theory Sync_Objects
  imports Sync_Props
begin

text \<open>
  Mutexes, events and mailboxes, the construction and destruction of objects on the heap, and the places where
  the objects do not do what they mean to.
\<close>

section \<open>Mutexes\<close>

definition mutex_at :: "nat \<Rightarrow> nat \<Rightarrow> ksync \<Rightarrow> bool" where
  "mutex_at p q s \<longleftrightarrow> (\<exists>m w. ks_objs s p = Some (Mutex m) \<and> mx_magic m = KERNEL_MUTEX_MAGIC \<and>
     mx_wait_queue m = Some q \<and> ks_objs s q = Some (Wait_Queue w) \<and> wq_magic w = KERNEL_WAIT_QUEUE_MAGIC)"

lemma mutex_atD:
  assumes "mutex_at p q s"
  obtains m w where "ks_objs s p = Some (Mutex m)" "kernel_mutex_is_valid (Some p) s = Some (p, m)"
    "mx_wait_queue m = Some q" "mx_magic m = KERNEL_MUTEX_MAGIC" "ks_objs s q = Some (Wait_Queue w)"
    "kernel_wait_queue_is_valid (Some q) s = Some (q, w)" "p \<noteq> q"
proof -
  from assms obtain m w where m: "ks_objs s p = Some (Mutex m)" "mx_magic m = KERNEL_MUTEX_MAGIC"
    "mx_wait_queue m = Some q" "ks_objs s q = Some (Wait_Queue w)" "wq_magic w = KERNEL_WAIT_QUEUE_MAGIC"
    by (auto simp: mutex_at_def)
  then have "p \<noteq> q" by auto
  with m that [of m w] show ?thesis by (simp add: kernel_mutex_is_valid_def kernel_wait_queue_is_valid_def)
qed

lemma mutex_at_put:
  "mutex_at p q s \<Longrightarrow> kernel_mutex_is_valid (Some p) s = Some (p, m) \<Longrightarrow> mutex_at p q (put_obj p (Mutex (m\<lparr>mx_owner_pid := k\<rparr>)) s)"
  by (auto simp: mutex_at_def put_obj_def kernel_mutex_is_valid_def)

lemma owner_put:
  "mx_magic m = KERNEL_MUTEX_MAGIC \<Longrightarrow> mx_wait_queue m = Some q \<Longrightarrow>
   kernel_mutex_owner_pid (Some p) (put_obj p (Mutex m) s) = mx_owner_pid m"
  by (simp add: kernel_mutex_owner_pid_def kernel_mutex_is_valid_def put_obj_def)

definition mutex_free :: "nat \<Rightarrow> ksync \<Rightarrow> nat" where
  "mutex_free p s = (if kernel_mutex_owner_pid (Some p) s = 0 then 1 else 0)"

lemma lock_done:
  assumes "mutex_at p q s" and "kernel_mutex_lock env (Some p) s = Some (Done () s')"
  shows "kernel_mutex_owner_pid (Some p) s = 0" and "process_current_pid (ks_sched s) \<noteq> 0"
    and "kernel_mutex_owner_pid (Some p) s' = process_current_pid (ks_sched s)"
    and "mutex_at p q s'" and "ks_sched s' = ks_sched s" and "\<And>a. a \<noteq> p \<Longrightarrow> ks_objs s' a = ks_objs s a"
proof -
  obtain m w where m: "kernel_mutex_is_valid (Some p) s = Some (p, m)" "mx_wait_queue m = Some q"
    "mx_magic m = KERNEL_MUTEX_MAGIC" using mutex_atD [OF assms(1)] by metis
  have c: "process_current_pid (ks_sched s) \<noteq> 0" "mx_owner_pid m = 0"
    and s': "s' = put_obj p (Mutex (m\<lparr>mx_owner_pid := process_current_pid (ks_sched s)\<rparr>)) s"
    using assms(2) m(1) by (auto simp: kernel_mutex_lock_def kernel_mutex_try_lock_def wait_round_def Let_def
        split: if_splits option.splits prod.splits)
  show "kernel_mutex_owner_pid (Some p) s = 0" using m c by (simp add: kernel_mutex_owner_pid_def)
  show "process_current_pid (ks_sched s) \<noteq> 0" by (rule c)
  show "kernel_mutex_owner_pid (Some p) s' = process_current_pid (ks_sched s)" using owner_put m by (simp add: s')
  show "mutex_at p q s'" using mutex_at_put [OF assms(1) m(1)] by (simp add: s')
  show "ks_sched s' = ks_sched s" "\<And>a. a \<noteq> p \<Longrightarrow> ks_objs s' a = ks_objs s a" by (simp_all add: s' put_obj_def)
qed

interpretation mutex: waiting_object q "mutex_at p q" "mutex_free p"
  "\<lambda>env. kernel_mutex_lock env (Some p)" "kernel_mutex_unlock (Some p)" for p q
proof (unfold_locales, goal_cases)
  case (1 s env s')
  have "p \<noteq> q" using mutex_atD [OF 1(1)] by metis
  with lock_done [OF 1] show ?case by (simp add: mutex_free_def)
next
  case (2 s env s' r)
  obtain m w where m: "kernel_mutex_is_valid (Some p) s = Some (p, m)" "mx_wait_queue m = Some q"
    using mutex_atD [OF 2(1)] by metis
  show ?case
    using 2(2,3) m by (auto simp: kernel_mutex_lock_def kernel_mutex_try_lock_def wait_round_def Let_def mutex_free_def
        kernel_mutex_owner_pid_def split: if_splits option.splits)
next
  case (3 s n s')
  obtain m w where m: "kernel_mutex_is_valid (Some p) s = Some (p, m)" "mx_wait_queue m = Some q" "p \<noteq> q"
    using mutex_atD [OF 3(1)] by metis
  let ?s1 = "put_obj p (Mutex (m\<lparr>mx_owner_pid := 0\<rparr>)) s"
  have "s' = s \<or> wake_if_waiting (Some q) ?s1 = Some s'"
    using 3(2) m by (auto simp: kernel_mutex_unlock_def Let_def split: if_splits)
  moreover have "mutex_at p q ?s1" by (rule mutex_at_put [OF 3(1) m(1)])
  moreover have "mutex_free p ?s1 \<le> Suc (mutex_free p s)" by (simp add: mutex_free_def)
  ultimately show ?case using m(3) by (auto simp: put_obj_def intro!: exI [of _ ?s1])
next
  case (4 s)
  then show ?case using mutex_atD by metis
next
  case (5 s w k)
  then show ?case
    by (auto simp: mutex_at_def kernel_wait_queue_is_valid_def put_obj_def mutex_free_def kernel_mutex_owner_pid_def
        kernel_mutex_is_valid_def split: if_splits)
next
  case (6 s t)
  then show ?case by (simp add: mutex_at_def)
next
  case (7 s t)
  then show ?case by (simp add: mutex_free_def kernel_mutex_owner_pid_def kernel_mutex_is_valid_def)
qed

text \<open>C17: the mutex loses no wake-up. Whatever processes lock and unlock it in whatever interleaving, the count of
  its queue is the number of processes inside the queue, those of them that are not blocked are ready or running, and if
  the mutex is not owned while processes are blocked on it, there is such a process, which will find it free.\<close>

theorem mutex_no_lost_wakeup:
  assumes sys: "wait_system (\<lambda>env. kernel_mutex_lock env (Some p)) (kernel_mutex_unlock (Some p)) q s0 s W"
    and init: "mutex_at p q s0" "queue_fresh q s0"
  shows "\<exists>w. kernel_wait_queue_is_valid (Some q) s = Some (q, w) \<and> mutex_at p q s \<and>
    unat (kernel_mutex_waiter_count (Some p) s) = card W \<and> chan_blocked (wq_channel w) (ks_sched s) \<subseteq> W \<and>
    (\<forall>i \<in> W - chan_blocked (wq_channel w) (ks_sched s). alive (ks_sched s) i) \<and>
    (kernel_mutex_owner_pid (Some p) s = 0 \<and> chan_blocked (wq_channel w) (ks_sched s) \<noteq> {} \<longrightarrow>
      (\<exists>i \<in> W - chan_blocked (wq_channel w) (ks_sched s). alive (ks_sched s) i))"
proof -
  have "mutex.system_inv q p s0 {}" using init fresh_wait_inv [OF init(2)] by (auto simp: mutex.system_inv_def)
  from mutex.wait_system_inv [OF sys this] obtain w where w: "kernel_wait_queue_is_valid (Some q) s = Some (q, w)"
      "wait_inv (mutex_free p s) w (ks_sched s) W" and at: "mutex_at p q s"
    by (auto simp: mutex.system_inv_def)
  have count: "kernel_mutex_waiter_count (Some p) s = wq_waiter_count w"
    using mutex_atD [OF at] w(1) by (metis (no_types, lifting) kernel_mutex_waiter_count_def
        kernel_wait_queue_waiter_count_def option.case(2) prod.case)
  let ?R = "W - chan_blocked (wq_channel w) (ks_sched s)"
  have "\<exists>i \<in> ?R. alive (ks_sched s) i"
    if "kernel_mutex_owner_pid (Some p) s = 0" "chan_blocked (wq_channel w) (ks_sched s) \<noteq> {}"
  proof -
    have "1 \<le> card ?R" using that w(2) by (simp add: wait_inv_def mutex_free_def)
    then have "?R \<noteq> {}" by (metis card.empty not_one_le_zero)
    then show ?thesis using w(2) by (auto simp: wait_inv_def)
  qed
  moreover have "chan_blocked (wq_channel w) (ks_sched s) \<subseteq> W" "\<forall>i \<in> ?R. alive (ks_sched s) i"
    using w(2) by (simp_all add: wait_inv_def)
  ultimately show ?thesis using w(1) at count wait_inv_count [OF w(2)] by auto
qed

text \<open>C18: mutual exclusion. While a mutex has an owner no call of \<open>kernel_mutex_lock\<close> or \<open>kernel_mutex_try_lock\<close>
  takes it, and an unlock by anyone else is refused and changes nothing; a lock that returns found it free
  and makes the caller its owner.\<close>

theorem mutex_exclusive:
  assumes "mutex_at p q s"
  shows "(kernel_mutex_owner_pid (Some p) s \<noteq> 0 \<longrightarrow>
      kernel_mutex_try_lock (Some p) s = (0, s) \<and> (\<forall>s'. kernel_mutex_lock env (Some p) s \<noteq> Some (Done () s')) \<and>
      (kernel_mutex_owner_pid (Some p) s \<noteq> process_current_pid (ks_sched s) \<longrightarrow> kernel_mutex_unlock (Some p) s = Some (0, s))) \<and>
    (\<forall>s'. kernel_mutex_lock env (Some p) s = Some (Done () s') \<longrightarrow>
      kernel_mutex_owner_pid (Some p) s = 0 \<and>
      kernel_mutex_owner_pid (Some p) s' = process_current_pid (ks_sched s) \<and> process_current_pid (ks_sched s) \<noteq> 0)"
proof -
  obtain m w where m: "kernel_mutex_is_valid (Some p) s = Some (p, m)" using mutex_atD [OF assms] by metis
  have "kernel_mutex_try_lock (Some p) s = (0, s)" if "kernel_mutex_owner_pid (Some p) s \<noteq> 0"
    using that m by (simp add: kernel_mutex_try_lock_def kernel_mutex_owner_pid_def Let_def)
  moreover have "kernel_mutex_unlock (Some p) s = Some (0, s)"
    if "kernel_mutex_owner_pid (Some p) s \<noteq> process_current_pid (ks_sched s)"
    using that m by (simp add: kernel_mutex_unlock_def kernel_mutex_owner_pid_def Let_def)
  ultimately show ?thesis using lock_done [OF assms] by blast
qed

text \<open>Process 1 has created a mutex and taken it.\<close>

definition demo_mutex :: ksync where
  "demo_mutex = (case kernel_mutex_create demo_sync of Some (_, s) \<Rightarrow> s | None \<Rightarrow> demo_sync)"

definition demo_locked :: ksync where
  "demo_locked = (case kernel_mutex_lock demo_env (Some 12) demo_mutex of Some (Done _ s) \<Rightarrow> s | _ \<Rightarrow> demo_mutex)"

lemma demo_mutex_facts:
  "mutex_at 12 40 demo_mutex" "queue_fresh 40 demo_mutex" "running 0 (ks_sched demo_mutex)"
proof -
  have obj: "(case ks_objs demo_mutex 12 of Some (Mutex m) \<Rightarrow> mx_magic m = KERNEL_MUTEX_MAGIC \<and>
      mx_wait_queue m = Some 40 | _ \<Rightarrow> False)" by code_simp
  have que: "(case kernel_wait_queue_is_valid (Some 40) demo_mutex of Some (a, w) \<Rightarrow> a = 40 \<and> wq_waiter_count w = 0 \<and>
      list_all (\<lambda>i. \<not> waits_on_channel (wq_channel w) (g_processes (ks_sched demo_mutex) ! i)) [0..<MAX_PROCESSES]
      | None \<Rightarrow> False)" by code_simp
  have sched: "ks_sched demo_mutex = demo_running"
    by (auto simp: demo_mutex_def demo_sync_def kernel_mutex_create_def dest: create_with_queue_sched split: option.split)
  from que obtain w where w: "kernel_wait_queue_is_valid (Some 40) demo_mutex = Some (40, w)" "wq_waiter_count w = 0"
      "\<forall>i<MAX_PROCESSES. \<not> waits_on_channel (wq_channel w) (g_processes (ks_sched demo_mutex) ! i)"
    by (auto simp: list_all_iff split: option.splits)
  then show "queue_fresh 40 demo_mutex"
    using sched_reachable_ok [OF demo_running_reachable] by (auto simp: queue_fresh_def sched chan_blocked_def)
  have "ks_objs demo_mutex 40 = Some (Wait_Queue w)" "wq_magic w = KERNEL_WAIT_QUEUE_MAGIC"
    using w(1) by (auto simp: kernel_wait_queue_is_valid_def split: option.splits kobject.splits if_splits)
  then show "mutex_at 12 40 demo_mutex" using obj by (auto simp: mutex_at_def split: option.splits kobject.splits)
  show "running 0 (ks_sched demo_mutex)" using demo_running_facts by (simp add: running_def sched)
qed

lemma demo_lock: "kernel_mutex_lock demo_env (Some 12) demo_mutex = Some (Done () demo_locked)"
proof -
  have "case kernel_mutex_lock demo_env (Some 12) demo_mutex of Some (Done _ _) \<Rightarrow> True | _ \<Rightarrow> False" by code_simp
  then show ?thesis by (auto simp: demo_locked_def split: option.splits round.splits)
qed

theorem mutex_no_lost_wakeup_witness:
  "mutex_at 12 40 demo_locked \<and> kernel_mutex_waiter_count (Some 12) demo_locked = 0"
proof -
  have "wait_system (\<lambda>env. kernel_mutex_lock env (Some 12)) (kernel_mutex_unlock (Some 12)) 40 demo_mutex demo_locked {}"
    by (rule wait_system.acquired [where acquire = "\<lambda>env. kernel_mutex_lock env (Some 12)" and env = demo_env,
          OF wait_system.start demo_mutex_facts(3) _ demo_lock]) simp
  from mutex_no_lost_wakeup [OF this demo_mutex_facts(1,2)] show ?thesis by (auto simp: unat_eq_0)
qed

theorem mutex_exclusive_witness:
  "kernel_mutex_owner_pid (Some 12) demo_mutex = 0 \<and>
   kernel_mutex_owner_pid (Some 12) demo_locked = process_current_pid (ks_sched demo_mutex)"
  using mutex_exclusive [OF demo_mutex_facts(1), of demo_env] demo_lock by blast

section \<open>Events\<close>

text \<open>Signalling an event wakes every process that waits for it and returns their number; it never
  fails.\<close>

theorem event_signal_wakes_all:
  assumes ev: "kernel_event_is_valid p s = Some (a, e)" "kernel_wait_queue_is_valid (ev_wait_queue e) s = Some (q, w)"
    and ok: "sched_ok (ks_sched s)"
  shows "\<exists>s'. kernel_event_signal p s = Some (card (chan_blocked (wq_channel w) (ks_sched s)), s') \<and>
    chan_blocked (wq_channel w) (ks_sched s') = {} \<and> ks_objs s' = ks_objs s \<and>
    (\<forall>i \<in> chan_blocked (wq_channel w) (ks_sched s). alive (ks_sched s') i)"
proof -
  have weak: "sched_weak (ks_sched s)" and shape: "sched_shape (ks_sched s)" using ok by (simp_all add: sched_ok_def sched_weak_def)
  obtain n t where t: "process_wake_channel (wq_channel w) (ks_sched s) = Some (n, t)"
    using wake_channel_ok(1) [OF sched_weak_loose [OF weak]] by blast
  have "kernel_event_signal p s = Some (n, s\<lparr>ks_sched := t\<rparr>)"
    using ev t by (simp add: kernel_event_signal_def kernel_wait_queue_wake_all_def)
  then show ?thesis using wake_all_unblocks [OF t shape] by auto
qed

definition demo_event :: ksync where
  "demo_event = (case kernel_event_create demo_sync of Some (_, s) \<Rightarrow> s | None \<Rightarrow> demo_sync)"

theorem event_signal_wakes_all_witness:
  "\<exists>n s'. kernel_event_signal (Some 12) demo_event = Some (n, s')"
proof -
  have "case kernel_event_is_valid (Some 12) demo_event of None \<Rightarrow> False
      | Some (a, e) \<Rightarrow> kernel_wait_queue_is_valid (ev_wait_queue e) demo_event \<noteq> None" by code_simp
  then obtain a e q w where "kernel_event_is_valid (Some 12) demo_event = Some (a, e)"
      "kernel_wait_queue_is_valid (ev_wait_queue e) demo_event = Some (q, w)"
    by (auto split: option.splits)
  moreover have "ks_sched demo_event = demo_running"
    by (auto simp: demo_event_def demo_sync_def kernel_event_create_def dest: create_with_queue_sched split: option.split)
  ultimately show ?thesis
    using event_signal_wakes_all [of "Some 12" demo_event a e q w] sched_reachable_ok [OF demo_running_reachable] by auto
qed

section \<open>Mailboxes\<close>

lemma wake_if_waiting_ok:
  assumes "sched_weak (ks_sched s)"
  shows "\<exists>t. wake_if_waiting q s = Some (s\<lparr>ks_sched := t\<rparr>) \<and> sched_weak t"
proof (cases "kernel_wait_queue_waiter_count q s = 0 \<or> kernel_wait_queue_is_valid q s = None")
  case True
  then show ?thesis using assms
    by (intro exI [of _ "ks_sched s"]) (auto simp: wake_if_waiting_def kernel_wait_queue_waiter_count_def)
next
  case False
  then obtain a w where w: "kernel_wait_queue_is_valid q s = Some (a, w)" by auto
  obtain n t where "process_wake_first_channel (wq_channel w) (ks_sched s) = Some (n, t)" "sched_inv t"
    using wake_channel_ok(2) [OF sched_weak_loose [OF assms]] by blast
  then show ?thesis using False w by (auto simp: wake_if_waiting_def kernel_wait_queue_wake_one_def sched_inv_weak)
qed

lemma mailbox_sched: "kernel_mailbox_is_valid p (s\<lparr>ks_sched := t\<rparr>) = kernel_mailbox_is_valid p s"
  by (cases p) (simp_all add: kernel_mailbox_is_valid_def)

lemma mailbox_put:
  "kernel_mailbox_is_valid (Some p) s = Some (p, m) \<Longrightarrow> mb_magic m' = mb_magic m \<Longrightarrow>
   mb_sender_wait_queue m' = mb_sender_wait_queue m \<Longrightarrow> mb_receiver_wait_queue m' = mb_receiver_wait_queue m \<Longrightarrow>
   kernel_mailbox_is_valid (Some p) (put_obj p (Mailbox m') s) = Some (p, m')"
  by (auto simp: kernel_mailbox_is_valid_def put_obj_def split: option.splits kobject.splits if_splits)

text \<open>A message sent to an empty mailbox stays until it is received: another send is refused and changes
  nothing, the next receive returns exactly this message and leaves the mailbox empty, and a receive from an
  empty mailbox is refused.\<close>

theorem mailbox_roundtrip:
  assumes mb: "kernel_mailbox_is_valid (Some p) s = Some (p, m)" "mb_has_message m = 0"
    and sched: "sched_weak (ks_sched s)"
  shows "kernel_mailbox_try_receive (Some p) (Some x) s = Some (0, Some x, s) \<and>
    (\<exists>s1 s2. kernel_mailbox_try_send (Some p) message s = Some (1, s1) \<and> kernel_mailbox_has_message (Some p) s1 \<and>
      kernel_mailbox_try_send (Some p) other s1 = Some (0, s1) \<and>
      kernel_mailbox_try_receive (Some p) (Some x) s1 = Some (1, Some message, s2) \<and>
      \<not> kernel_mailbox_has_message (Some p) s2)"
proof -
  let ?m1 = "m\<lparr>mb_message := message, mb_has_message := 1\<rparr>" and ?m2 = "m\<lparr>mb_message := message, mb_has_message := 0\<rparr>"
  let ?s = "put_obj p (Mailbox ?m1) s"
  have "ks_sched ?s = ks_sched s" by (simp add: put_obj_def)
  then obtain t where t: "wake_if_waiting (mb_receiver_wait_queue m) ?s = Some (?s\<lparr>ks_sched := t\<rparr>)" "sched_weak t"
    using wake_if_waiting_ok [of ?s] sched by auto
  let ?s1 = "?s\<lparr>ks_sched := t\<rparr>"
  have v1: "kernel_mailbox_is_valid (Some p) ?s1 = Some (p, ?m1)"
    unfolding mailbox_sched by (rule mailbox_put [OF mb(1)]) simp_all
  let ?u = "put_obj p (Mailbox ?m2) ?s1"
  have "ks_sched ?u = t" by (simp add: put_obj_def)
  then obtain t2 where t2: "wake_if_waiting (mb_sender_wait_queue m) ?u = Some (?u\<lparr>ks_sched := t2\<rparr>)"
    using wake_if_waiting_ok [of ?u] t(2) by auto
  have v2: "kernel_mailbox_is_valid (Some p) (?u\<lparr>ks_sched := t2\<rparr>) = Some (p, ?m2)"
    unfolding mailbox_sched by (rule mailbox_put [OF v1]) simp_all
  have "kernel_mailbox_try_send (Some p) message s = Some (1, ?s1)" using mb t by (simp add: kernel_mailbox_try_send_def)
  moreover have "kernel_mailbox_try_receive (Some p) (Some x) ?s1 = Some (1, Some message, ?u\<lparr>ks_sched := t2\<rparr>)"
    using v1 t2 by (simp add: kernel_mailbox_try_receive_def)
  moreover have "kernel_mailbox_try_send (Some p) other ?s1 = Some (0, ?s1)" using v1 by (simp add: kernel_mailbox_try_send_def)
  moreover have "kernel_mailbox_has_message (Some p) ?s1" "\<not> kernel_mailbox_has_message (Some p) (?u\<lparr>ks_sched := t2\<rparr>)"
    using v1 v2 by (simp_all add: kernel_mailbox_has_message_def)
  moreover have "kernel_mailbox_try_receive (Some p) (Some x) s = Some (0, Some x, s)"
    using mb by (simp add: kernel_mailbox_try_receive_def)
  ultimately show ?thesis by blast
qed

definition demo_mailbox :: ksync where
  "demo_mailbox = (case kernel_mailbox_create demo_sync of Some (_, s) \<Rightarrow> s | None \<Rightarrow> demo_sync)"

lemma alloc_in_sched: "kmem_alloc_in n s = Some (p, s') \<Longrightarrow> ks_sched s' = ks_sched s"
  by (auto simp: kmem_alloc_in_def)

lemma free_in_sched: "kmem_free_in a s = Some s' \<Longrightarrow> ks_sched s' = ks_sched s"
  by (auto simp: kmem_free_in_def)

lemma put_obj_sched [simp]: "ks_sched (put_obj a x s) = ks_sched s"
  by (simp add: put_obj_def)

lemma queue_create_sched: "kernel_wait_queue_create s = Some (p, s') \<Longrightarrow> ks_sched s' = ks_sched s"
  by (auto simp: kernel_wait_queue_create_def bind_eq_Some_conv dest!: alloc_in_sched split: option.splits)

lemma queue_destroy_sched: "kernel_wait_queue_destroy p s = Some (r, s') \<Longrightarrow> ks_sched s' = ks_sched s"
  by (auto simp: kernel_wait_queue_destroy_def dest!: free_in_sched split: option.splits if_splits)

lemma mailbox_create_sched: "kernel_mailbox_create s = Some (p, s') \<Longrightarrow> ks_sched s' = ks_sched s"
  by (auto simp: kernel_mailbox_create_def bind_eq_Some_conv split: option.splits
      dest!: alloc_in_sched free_in_sched queue_create_sched queue_destroy_sched)

lemma demo_mailbox_facts:
  "\<exists>m. kernel_mailbox_is_valid (Some 12) demo_mailbox = Some (12, m) \<and> mb_has_message m = 0"
  "ks_sched demo_mailbox = demo_running"
proof -
  have "case kernel_mailbox_is_valid (Some 12) demo_mailbox of None \<Rightarrow> False | Some (a, m) \<Rightarrow> a = 12 \<and> mb_has_message m = 0"
    by code_simp
  then show "\<exists>m. kernel_mailbox_is_valid (Some 12) demo_mailbox = Some (12, m) \<and> mb_has_message m = 0"
    by (auto split: option.splits)
  show "ks_sched demo_mailbox = demo_running"
    by (auto simp: demo_mailbox_def demo_sync_def dest: mailbox_create_sched split: option.split)
qed

theorem mailbox_roundtrip_witness:
  "\<exists>s1 s2. kernel_mailbox_try_send (Some 12) 42 demo_mailbox = Some (1, s1) \<and>
     kernel_mailbox_try_receive (Some 12) (Some 0) s1 = Some (1, Some 42, s2)"
proof -
  obtain m where m: "kernel_mailbox_is_valid (Some 12) demo_mailbox = Some (12, m)" "mb_has_message m = 0"
    using demo_mailbox_facts(1) by blast
  have "sched_weak (ks_sched demo_mailbox)"
    using sched_reachable_ok [OF demo_running_reachable] by (simp add: demo_mailbox_facts(2) sched_ok_def)
  from mailbox_roundtrip [OF m this, of 0 42 0] show ?thesis by blast
qed

end
