(* ===== verification/Sync_Heap.thy ===== *)
theory Sync_Heap
  imports Sync_Objects Kmem_Props
begin

text \<open>
  The life of a synchronisation object on the kernel heap: construction allocates all blocks or none,
  destruction gives all of them back. At the end, two states in which destruction goes wrong.
\<close>

section \<open>Construction\<close>

text \<open>The state after \<open>create_with_queue\<close> has put the object at \<open>a\<close> and its queue at \<open>b\<close>.\<close>

definition built :: "nat \<Rightarrow> nat \<Rightarrow> (nat \<Rightarrow> kobject) \<Rightarrow> ksync \<Rightarrow> ksync \<Rightarrow> bool" where
  "built a b obj s s' \<longleftrightarrow> a \<noteq> b \<and> a \<notin> kmem_live (ks_kmem s) \<and> b \<notin> kmem_live (ks_kmem s) \<and>
     kmem_live (ks_kmem s') = insert b (insert a (kmem_live (ks_kmem s))) \<and>
     ks_objs s' a = Some (obj b) \<and>
     ks_objs s' b = Some (Wait_Queue \<lparr>wq_magic = KERNEL_WAIT_QUEUE_MAGIC,
       wq_channel = g_next_wait_queue_channel s, wq_waiter_count = 0\<rparr>)"

lemma create_with_queue_heap:
  assumes "kmem_reachable (ks_kmem s)"
  shows "\<exists>p s'. create_with_queue n obj s = Some (p, s') \<and> kmem_reachable (ks_kmem s') \<and>
    (case p of None \<Rightarrow> kmem_live (ks_kmem s') = kmem_live (ks_kmem s) \<and> ks_objs s' = ks_objs s
     | Some a \<Rightarrow> \<exists>b. built a b obj s s')"
proof -
  from kmem.alloc_two_or_none [OF assms, of n 12] obtain p k1 where
    p: "kmem_alloc n (ks_kmem s) = Some (p, k1)" "kmem_reachable k1" and
    rest: "case p of None \<Rightarrow> kmem_live k1 = kmem_live (ks_kmem s)
     | Some a \<Rightarrow> a \<notin> kmem_live (ks_kmem s) \<and> kmem_live k1 = insert a (kmem_live (ks_kmem s)) \<and>
         (\<exists>q k2. kmem_alloc 12 k1 = Some (q, k2) \<and> kmem_reachable k2 \<and>
            (case q of Some b \<Rightarrow> b \<noteq> a \<and> b \<notin> kmem_live (ks_kmem s) \<and>
                kmem_live k2 = insert b (insert a (kmem_live (ks_kmem s)))
             | None \<Rightarrow> kmem_live k2 = kmem_live k1 \<and> (\<exists>k3. kmem_free (Some a) k2 = Some k3 \<and> kmem_reachable k3 \<and>
                 kmem_live k3 = kmem_live (ks_kmem s))))" by blast
  show ?thesis
  proof (cases p)
    case None
    then show ?thesis using p rest by (simp add: create_with_queue_def kmem_alloc_in_def)
  next
    case (Some a)
    with rest obtain q k2 where q: "kmem_alloc 12 k1 = Some (q, k2)" "kmem_reachable k2" by auto
    show ?thesis
    proof (cases q)
      case None
      then show ?thesis using p q rest Some
        by (auto simp: create_with_queue_def kmem_alloc_in_def kmem_free_in_def kernel_wait_queue_create_def)
    next
      case (Some b)
      then show ?thesis using p q rest \<open>p = Some a\<close>
        by (auto simp: create_with_queue_def kmem_alloc_in_def kernel_wait_queue_create_def put_obj_def built_def)
    qed
  qed
qed

text \<open>C19: the construction of a semaphore is all or nothing. The call returns; with a count over the maximum or a
  maximum of 0 it returns a null pointer and changes nothing; otherwise it either returns a null pointer and leaves
  exactly the heap blocks that were there, or returns a valid semaphore with the given count, an empty queue of its
  own, and exactly two more heap blocks.\<close>

theorem semaphore_create_all_or_nothing:
  assumes "kmem_reachable (ks_kmem s)"
  shows "\<exists>p s'. kernel_semaphore_create initial_count max_count s = Some (p, s') \<and> kmem_reachable (ks_kmem s') \<and>
    (max_count = 0 \<or> initial_count > max_count \<longrightarrow> p = None \<and> s' = s) \<and>
    (case p of None \<Rightarrow> kmem_live (ks_kmem s') = kmem_live (ks_kmem s) \<and> ks_objs s' = ks_objs s
     | Some a \<Rightarrow> kernel_semaphore_is_valid p s' \<noteq> None \<and> kernel_semaphore_count p s' = initial_count \<and>
         kernel_semaphore_waiter_count p s' = 0 \<and>
         (\<exists>b. a \<noteq> b \<and> a \<notin> kmem_live (ks_kmem s) \<and> b \<notin> kmem_live (ks_kmem s) \<and>
            kmem_live (ks_kmem s') = insert b (insert a (kmem_live (ks_kmem s)))))"
proof (cases "max_count = 0 \<or> initial_count > max_count")
  case True
  then show ?thesis using assms by (simp add: kernel_semaphore_create_def)
next
  case False
  let ?obj = "\<lambda>q. Semaphore \<lparr>sem_magic = KERNEL_SEMAPHORE_MAGIC, sem_count = initial_count,
        sem_max_count = max_count, sem_wait_queue = Some q\<rparr>"
  obtain p s' where s': "create_with_queue 16 ?obj s = Some (p, s')" "kmem_reachable (ks_kmem s')"
      "case p of None \<Rightarrow> kmem_live (ks_kmem s') = kmem_live (ks_kmem s) \<and> ks_objs s' = ks_objs s
       | Some a \<Rightarrow> \<exists>b. built a b ?obj s s'"
    using create_with_queue_heap [OF assms] by blast
  then show ?thesis using False
    by (cases p) (auto simp: kernel_semaphore_create_def kernel_semaphore_count_def kernel_semaphore_waiter_count_def
        kernel_semaphore_is_valid_def kernel_wait_queue_waiter_count_def kernel_wait_queue_is_valid_def built_def)
qed

theorem semaphore_create_all_or_nothing_witness:
  "\<exists>p s'. kernel_semaphore_create 3 2 ksync_boot = Some (p, s') \<and> kmem_reachable (ks_kmem s') \<and> p = None \<and> s' = ksync_boot"
  using semaphore_create_all_or_nothing [of ksync_boot 3 2] by (auto simp: ksync_boot_def kmem_reachable.boot)

section \<open>Destruction\<close>

lemma free_in_live:
  assumes "kmem_reachable (ks_kmem s)" and "a \<in> kmem_live (ks_kmem s)"
  shows "\<exists>k. kmem_free_in a s = Some (s\<lparr>ks_kmem := k\<rparr>) \<and> kmem_reachable k \<and> kmem_live k = kmem_live (ks_kmem s) - {a}"
  using kmem.free_law [OF assms] by (auto simp: kmem_free_in_def)

text \<open>Destroying a queue that nobody waits in frees its block and leaves the rest of the state.\<close>

lemma queue_destroy_idle:
  assumes "kmem_reachable (ks_kmem s)" and "b \<in> kmem_live (ks_kmem s)"
    and "kernel_wait_queue_is_valid (Some b) s = Some (b, w)" and "wq_waiter_count w = 0"
  shows "\<exists>k. kernel_wait_queue_destroy (Some b) s = Some (1, put_obj b (Wait_Queue (w\<lparr>wq_magic := 0\<rparr>)) (s\<lparr>ks_kmem := k\<rparr>)) \<and>
    kmem_reachable k \<and> kmem_live k = kmem_live (ks_kmem s) - {b}"
proof -
  let ?s = "put_obj b (Wait_Queue (w\<lparr>wq_magic := 0\<rparr>)) s"
  obtain k where k: "kmem_free_in b ?s = Some (?s\<lparr>ks_kmem := k\<rparr>)" "kmem_reachable k" "kmem_live k = kmem_live (ks_kmem s) - {b}"
    using free_in_live [of ?s b] assms(1,2) by (auto simp: put_obj_def)
  moreover have "?s\<lparr>ks_kmem := k\<rparr> = put_obj b (Wait_Queue (w\<lparr>wq_magic := 0\<rparr>)) (s\<lparr>ks_kmem := k\<rparr>)"
    by (simp add: put_obj_def)
  ultimately show ?thesis using assms(3,4) by (auto simp: kernel_wait_queue_destroy_def)
qed

text \<open>Destroying a semaphore right after its construction succeeds, gives back both heap blocks, and the pointer is
  no longer valid.\<close>

theorem semaphore_create_destroy_roundtrip:
  assumes "kmem_reachable (ks_kmem s)" and "kernel_semaphore_create initial_count max_count s = Some (Some a, s')"
  shows "\<exists>s''. kernel_semaphore_destroy (Some a) s' = Some (1, s'') \<and> kmem_reachable (ks_kmem s'') \<and>
    kmem_live (ks_kmem s'') = kmem_live (ks_kmem s) \<and> kernel_semaphore_is_valid (Some a) s'' = None"
proof -
  let ?x = "\<lambda>q. \<lparr>sem_magic = KERNEL_SEMAPHORE_MAGIC, sem_count = initial_count, sem_max_count = max_count, sem_wait_queue = Some q\<rparr>"
  have "create_with_queue 16 (\<lambda>q. Semaphore (?x q)) s = Some (Some a, s')"
    using assms(2) by (auto simp: kernel_semaphore_create_def split: if_splits)
  with create_with_queue_heap [OF assms(1), of 16 "\<lambda>q. Semaphore (?x q)"] obtain b where
    b: "built a b (\<lambda>q. Semaphore (?x q)) s s'" and r: "kmem_reachable (ks_kmem s')" by auto
  obtain w where w: "kernel_wait_queue_is_valid (Some b) s' = Some (b, w)" "wq_waiter_count w = 0"
    using b by (auto simp: built_def kernel_wait_queue_is_valid_def)
  obtain k where k: "kernel_wait_queue_destroy (Some b) s' = Some (1, put_obj b (Wait_Queue (w\<lparr>wq_magic := 0\<rparr>)) (s'\<lparr>ks_kmem := k\<rparr>))"
      "kmem_reachable k" "kmem_live k = kmem_live (ks_kmem s') - {b}"
    using queue_destroy_idle [OF r _ w] b by (auto simp: built_def)
  let ?y = "(?x b)\<lparr>sem_magic := 0, sem_wait_queue := None\<rparr>"
  let ?t = "put_obj a (Semaphore ?y) (put_obj b (Wait_Queue (w\<lparr>wq_magic := 0\<rparr>)) (s'\<lparr>ks_kmem := k\<rparr>))"
  obtain l where l: "kmem_free_in a ?t = Some (?t\<lparr>ks_kmem := l\<rparr>)" "kmem_reachable l" "kmem_live l = kmem_live k - {a}"
    using free_in_live [of ?t a] k(2,3) b by (auto simp: built_def put_obj_def)
  have "kernel_semaphore_is_valid (Some a) s' = Some (a, ?x b)" using b by (simp add: built_def kernel_semaphore_is_valid_def)
  then have "kernel_semaphore_destroy (Some a) s' = Some (1, ?t\<lparr>ks_kmem := l\<rparr>)"
    using k(1) l(1) by (simp add: kernel_semaphore_destroy_def)
  moreover have "kmem_live l = kmem_live (ks_kmem s)" using l(3) k(3) b by (auto simp: built_def)
  ultimately show ?thesis using l(2) by (simp add: kernel_semaphore_is_valid_def put_obj_def KERNEL_SEMAPHORE_MAGIC_def)
qed

lemma demo_sem_created: "kernel_semaphore_create 0 2 demo_sync = Some (Some 12, demo_sem)"
proof -
  have "case kernel_semaphore_create 0 2 demo_sync of Some (Some a, s) \<Rightarrow> a = 12 | _ \<Rightarrow> False" by code_simp
  then show ?thesis by (auto simp: demo_sem_def split: option.splits)
qed

theorem semaphore_create_destroy_roundtrip_witness:
  "\<exists>s''. kernel_semaphore_destroy (Some 12) demo_sem = Some (1, s'') \<and> kmem_live (ks_kmem s'') = kmem_live (ks_kmem demo_sync)"
proof -
  have "kmem_reachable (ks_kmem demo_sync)" by (simp add: demo_sync_def ksync_boot_def kmem_reachable.boot)
  from semaphore_create_destroy_roundtrip [OF this demo_sem_created] show ?thesis by blast
qed

section \<open>Where destruction goes wrong\<close>

text \<open>
  A mailbox with a process waiting to receive and none to send: \<open>kernel_mailbox_destroy\<close> reports failure and the
  mailbox stays valid, but its queue of senders is already destroyed and its block is free.
\<close>

lemma mailbox_destroy_fails_halfway:
  assumes "kmem_reachable (ks_kmem s)"
    and mb: "kernel_mailbox_is_valid (Some p) s = Some (p, m)" "mb_has_message m = 0"
    and snd: "mb_sender_wait_queue m = Some b" "kernel_wait_queue_is_valid (Some b) s = Some (b, v)" "wq_waiter_count v = 0"
      "b \<in> kmem_live (ks_kmem s)"
    and rcv: "mb_receiver_wait_queue m = Some c" "kernel_wait_queue_is_valid (Some c) s = Some (c, w)" "wq_waiter_count w \<noteq> 0"
  shows "\<exists>s'. kernel_mailbox_destroy (Some p) s = Some (0, s') \<and> kernel_mailbox_is_valid (Some p) s' = Some (p, m) \<and>
    kernel_wait_queue_is_valid (Some b) s' = None \<and> b \<notin> kmem_live (ks_kmem s')"
proof -
  obtain k where k: "kernel_wait_queue_destroy (Some b) s = Some (1, put_obj b (Wait_Queue (v\<lparr>wq_magic := 0\<rparr>)) (s\<lparr>ks_kmem := k\<rparr>))"
      "kmem_live k = kmem_live (ks_kmem s) - {b}"
    using queue_destroy_idle [OF assms(1) snd(4,2,3)] by blast
  let ?s = "put_obj b (Wait_Queue (v\<lparr>wq_magic := 0\<rparr>)) (s\<lparr>ks_kmem := k\<rparr>)"
  have ne: "c \<noteq> b" "p \<noteq> b" using mb(1) snd(2,3) rcv(2,3)
    by (auto simp: kernel_mailbox_is_valid_def kernel_wait_queue_is_valid_def split: option.splits kobject.splits if_splits)
  then have "kernel_wait_queue_destroy (Some c) ?s = Some (0, ?s)"
    using rcv(2,3) by (simp add: kernel_wait_queue_destroy_def kernel_wait_queue_is_valid_def put_obj_def)
  then have "kernel_mailbox_destroy (Some p) s = Some (0, ?s)"
    using mb snd(1) rcv(1) k(1) by (simp add: kernel_mailbox_destroy_def)
  moreover have "kernel_mailbox_is_valid (Some p) ?s = Some (p, m)"
    using mb(1) ne by (simp add: kernel_mailbox_is_valid_def put_obj_def)
  ultimately show ?thesis
    using k(2) by (simp add: kernel_wait_queue_is_valid_def put_obj_def KERNEL_WAIT_QUEUE_MAGIC_def)
qed

text \<open>
  A process that is killed while it waits for a semaphore never leaves the queue: \<open>process_kill\<close> changes the
  scheduler only, the waiter count stays, and the semaphore cannot be destroyed.
\<close>

lemma killed_waiter_blocks_destroy:
  assumes "process_kill env pid exit_code (ks_sched s) = Some (Inr (r, t))"
    and "kernel_semaphore_waiter_count p s \<noteq> 0"
  shows "kernel_semaphore_waiter_count p (s\<lparr>ks_sched := t\<rparr>) = kernel_semaphore_waiter_count p s \<and>
    kernel_semaphore_destroy p (s\<lparr>ks_sched := t\<rparr>) = Some (0, s\<lparr>ks_sched := t\<rparr>)"
proof -
  have sem: "kernel_semaphore_is_valid p (s\<lparr>ks_sched := t\<rparr>) = kernel_semaphore_is_valid p s"
    by (cases p) (simp_all add: kernel_semaphore_is_valid_def)
  have que: "kernel_wait_queue_is_valid q (s\<lparr>ks_sched := t\<rparr>) = kernel_wait_queue_is_valid q s" for q
    by (cases q) (simp_all add: kernel_wait_queue_is_valid_def)
  show ?thesis using assms(2)
    by (auto simp: kernel_semaphore_waiter_count_def kernel_wait_queue_waiter_count_def kernel_semaphore_destroy_def
        kernel_wait_queue_destroy_def sem que split: option.splits)
qed

end
