(* ===== verification/Display_Surface.thy ===== *)
theory Display_Surface
  imports Tensor_Prelude "HOL-Library.Monad_Syntax"
begin

text \<open>
  The double-buffered drawing surface of \<open>kernel/display_surface.c\<close>. The pixel buffers are in a memory from addresses to
  arrays, so that the swap of the buffers is a swap of addresses and the source of a copy may be a buffer of the surface. The
  16-bit fields are natural numbers with their casts written out, the 32-bit signed arguments are integers. The result
  \<open>None\<close>: a signed addition overflows, or an access is outside its array.
\<close>

section \<open>Data (include/display_surface.h)\<close>

record display_rect =
  dr_x :: nat
  dr_y :: nat
  dr_width :: nat
  dr_height :: nat

record 'c display_atomic_ops =
  ao_enter :: "('c \<Rightarrow> 'c) ptr"
  ao_leave :: "('c \<Rightarrow> 'c) ptr"

type_synonym address = u32
type_synonym pixel_memory = "address \<Rightarrow> u16 list"

record 'c display_surface =
  ds_width :: nat
  ds_height :: nat
  ds_stride :: nat
  ds_front :: address
  ds_back :: address
  ds_dirty_rect :: display_rect
  ds_dirty :: bool
  ds_present_count :: u32
  ds_atomic_ops :: "'c display_atomic_ops ptr"
  ds_atomic_context :: 'c

definition uint16 :: "int \<Rightarrow> nat" where
  "uint16 i = nat (i mod 2 ^ 16)"

definition is_int32 :: "int \<Rightarrow> bool" where
  "is_int32 i \<longleftrightarrow> - (2 ^ 31) \<le> i \<and> i < 2 ^ 31"

definition no_rect :: display_rect where
  "no_rect = \<lparr>dr_x = 0, dr_y = 0, dr_width = 0, dr_height = 0\<rparr>"

section \<open>Operations\<close>

definition display_surface_enter_atomic :: "'c display_surface \<Rightarrow> 'c display_surface" where
  "display_surface_enter_atomic s =
     (case ds_atomic_ops s of
        None \<Rightarrow> s
      | Some ops \<Rightarrow> (case ao_enter ops of None \<Rightarrow> s | Some enter \<Rightarrow> s\<lparr>ds_atomic_context := enter (ds_atomic_context s)\<rparr>))"

definition display_surface_leave_atomic :: "'c display_surface \<Rightarrow> 'c display_surface" where
  "display_surface_leave_atomic s =
     (case ds_atomic_ops s of
        None \<Rightarrow> s
      | Some ops \<Rightarrow> (case ao_leave ops of None \<Rightarrow> s | Some leave \<Rightarrow> s\<lparr>ds_atomic_context := leave (ds_atomic_context s)\<rparr>))"

text \<open>The callers pass the address of a local variable for the result; it is \<open>Some None\<close> where the source returns 0.\<close>

definition display_surface_clip_rect ::
  "'c display_surface ptr \<Rightarrow> int \<Rightarrow> int \<Rightarrow> int \<Rightarrow> int \<Rightarrow> display_rect option option" where
  "display_surface_clip_rect surface x y width height =
     (case surface of
        None \<Rightarrow> Some None
      | Some s \<Rightarrow>
          if width \<le> 0 \<or> height \<le> 0 then Some None
          else let clipped_w = (if x < 0 then width + x else width); clipped_x = (if x < 0 then 0 else x);
                   clipped_h = (if y < 0 then height + y else height); clipped_y = (if y < 0 then 0 else y) in
            if clipped_x \<ge> int (ds_width s) \<or> clipped_y \<ge> int (ds_height s) then Some None
            else if \<not> is_int32 (clipped_x + clipped_w) \<or> \<not> is_int32 (clipped_y + clipped_h) then None
            else let clipped_w = (if clipped_x + clipped_w > int (ds_width s) then int (ds_width s) - clipped_x else clipped_w);
                     clipped_h = (if clipped_y + clipped_h > int (ds_height s) then int (ds_height s) - clipped_y else clipped_h) in
              if clipped_w \<le> 0 \<or> clipped_h \<le> 0 then Some None
              else Some (Some \<lparr>dr_x = uint16 clipped_x, dr_y = uint16 clipped_y, dr_width = uint16 clipped_w, dr_height = uint16 clipped_h\<rparr>))"

definition display_surface_init ::
  "'c display_surface ptr \<Rightarrow> nat \<Rightarrow> nat \<Rightarrow> nat \<Rightarrow> address \<Rightarrow> address \<Rightarrow> 'c display_atomic_ops ptr \<Rightarrow> 'c \<Rightarrow> 'c display_surface ptr" where
  "display_surface_init surface width height stride front back atomic_ops atomic_context =
     map_option (\<lambda>s. s\<lparr>ds_width := width, ds_height := height, ds_stride := stride, ds_front := front, ds_back := back,
       ds_dirty_rect := no_rect, ds_dirty := False, ds_present_count := 0, ds_atomic_ops := atomic_ops,
       ds_atomic_context := atomic_context\<rparr>) surface"

definition display_surface_clear_damage :: "'c display_surface ptr \<Rightarrow> 'c display_surface ptr" where
  "display_surface_clear_damage surface = map_option (\<lambda>s. s\<lparr>ds_dirty := False, ds_dirty_rect := no_rect\<rparr>) surface"

definition join_rects :: "display_rect \<Rightarrow> display_rect \<Rightarrow> display_rect" where
  "join_rects d r =
     (let x0 = (if dr_x d < dr_x r then dr_x d else dr_x r);
          y0 = (if dr_y d < dr_y r then dr_y d else dr_y r);
          x1 = uint16 (int (if dr_x d + dr_width d > dr_x r + dr_width r then dr_x d + dr_width d else dr_x r + dr_width r));
          y1 = uint16 (int (if dr_y d + dr_height d > dr_y r + dr_height r then dr_y d + dr_height d else dr_y r + dr_height r)) in
      \<lparr>dr_x = x0, dr_y = y0, dr_width = uint16 (int x1 - int x0), dr_height = uint16 (int y1 - int y0)\<rparr>)"

definition display_surface_mark_dirty ::
  "'c display_surface ptr \<Rightarrow> int \<Rightarrow> int \<Rightarrow> int \<Rightarrow> int \<Rightarrow> (int \<times> 'c display_surface ptr) option" where
  "display_surface_mark_dirty surface x y width height = do {
     clip \<leftarrow> display_surface_clip_rect surface x y width height;
     case (surface, clip) of
       (Some s, Some clipped) \<Rightarrow>
         (if \<not> ds_dirty s then Some (RUNTIME_SYSCALL_STATUS_OK, Some (s\<lparr>ds_dirty_rect := clipped, ds_dirty := True\<rparr>))
          else Some (RUNTIME_SYSCALL_STATUS_OK, Some (s\<lparr>ds_dirty_rect := join_rects (ds_dirty_rect s) clipped\<rparr>)))
     | _ \<Rightarrow> Some (RUNTIME_SYSCALL_STATUS_EINVAL, surface) }"

text \<open>A loop whose body may fail.\<close>

primrec each :: "('a \<Rightarrow> 's \<Rightarrow> 's option) \<Rightarrow> 'a list \<Rightarrow> 's \<Rightarrow> 's option" where
  "each f [] s = Some s"
| "each f (x # xs) s = do { s' \<leftarrow> f x s; each f xs s' }"

definition put_pixel :: "address \<Rightarrow> nat \<Rightarrow> u16 \<Rightarrow> pixel_memory \<Rightarrow> pixel_memory option" where
  "put_pixel a i v m = (if i < length (m a) then Some (m(a := (m a)[i := v])) else None)"

definition get_pixel :: "address \<Rightarrow> nat \<Rightarrow> pixel_memory \<Rightarrow> u16 option" where
  "get_pixel a i m = (if i < length (m a) then Some (m a ! i) else None)"

text \<open>The two loops over the rows and columns of a rectangle of the back buffer. The offset fits into 32 bits.\<close>

definition write_rect ::
  "'c display_surface \<Rightarrow> display_rect \<Rightarrow> (nat \<Rightarrow> nat \<Rightarrow> pixel_memory \<Rightarrow> u16 option) \<Rightarrow> pixel_memory \<Rightarrow> pixel_memory option" where
  "write_rect s r colour m =
     each (\<lambda>row. let offset = (dr_y r + row) * ds_stride s + dr_x r in
       each (\<lambda>col m. do { v \<leftarrow> colour row col m; put_pixel (ds_back s) (offset + col) v m }) [0..<dr_width r]) [0..<dr_height r] m"

definition display_surface_fill_rect ::
  "'c display_surface ptr \<Rightarrow> int \<Rightarrow> int \<Rightarrow> int \<Rightarrow> int \<Rightarrow> u16 \<Rightarrow> pixel_memory \<Rightarrow> (int \<times> 'c display_surface ptr \<times> pixel_memory) option" where
  "display_surface_fill_rect surface x y width height color m =
     (case surface of
        None \<Rightarrow> Some (RUNTIME_SYSCALL_STATUS_EINVAL, surface, m)
      | Some s \<Rightarrow>
          if ds_back s = 0 then Some (RUNTIME_SYSCALL_STATUS_EINVAL, surface, m)
          else do {
            clip \<leftarrow> display_surface_clip_rect surface x y width height;
            case clip of
              None \<Rightarrow> Some (RUNTIME_SYSCALL_STATUS_EINVAL, surface, m)
            | Some r \<Rightarrow> do {
                m \<leftarrow> write_rect s r (\<lambda>row col m. Some color) m;
                (status, surface) \<leftarrow> display_surface_mark_dirty surface (int (dr_x r)) (int (dr_y r)) (int (dr_width r)) (int (dr_height r));
                Some (status, surface, m) } })"

text \<open>The source offset is computed with 32 bits.\<close>

definition display_surface_blit_rgb565 ::
  "'c display_surface ptr \<Rightarrow> int \<Rightarrow> int \<Rightarrow> int \<Rightarrow> int \<Rightarrow> address \<Rightarrow> nat \<Rightarrow> pixel_memory \<Rightarrow> (int \<times> 'c display_surface ptr \<times> pixel_memory) option" where
  "display_surface_blit_rgb565 surface x y width height pixels source_stride m =
     (case surface of
        None \<Rightarrow> Some (RUNTIME_SYSCALL_STATUS_EINVAL, surface, m)
      | Some s \<Rightarrow>
          if ds_back s = 0 \<or> pixels = 0 \<or> source_stride = 0 then Some (RUNTIME_SYSCALL_STATUS_EINVAL, surface, m)
          else do {
            clip \<leftarrow> display_surface_clip_rect surface x y width height;
            case clip of
              None \<Rightarrow> Some (RUNTIME_SYSCALL_STATUS_EINVAL, surface, m)
            | Some r \<Rightarrow> do {
                let source_x = int (dr_x r) - x; source_y = int (dr_y r) - y in do {
                m \<leftarrow> write_rect s r (\<lambda>row col.
                  get_pixel pixels (nat (((source_y + int row) * int source_stride + source_x + int col) mod 2 ^ 32))) m;
                (status, surface) \<leftarrow> display_surface_mark_dirty surface (int (dr_x r)) (int (dr_y r)) (int (dr_width r)) (int (dr_height r));
                Some (status, surface, m) } } })"

definition display_surface_has_pending_present :: "'c display_surface ptr \<Rightarrow> display_rect ptr \<Rightarrow> int \<times> display_rect ptr" where
  "display_surface_has_pending_present surface rect =
     (case surface of
        None \<Rightarrow> (0, rect)
      | Some s \<Rightarrow> if \<not> ds_dirty s then (0, rect) else (1, map_option (\<lambda>_. ds_dirty_rect s) rect))"

definition display_surface_publish ::
  "'c display_surface ptr \<Rightarrow> display_rect ptr \<Rightarrow> address ptr \<Rightarrow> int \<times> 'c display_surface ptr \<times> display_rect ptr \<times> address ptr" where
  "display_surface_publish surface rect front_pixels =
     (case (surface, rect, front_pixels) of
        (Some s, Some _, Some _) \<Rightarrow>
          (if ds_front s = 0 \<or> ds_back s = 0 \<or> \<not> ds_dirty s then (RUNTIME_SYSCALL_STATUS_ENOENT, surface, rect, front_pixels)
           else let s = display_surface_enter_atomic s; previous_front = ds_front s;
                    s = s\<lparr>ds_front := ds_back s\<rparr>; s = s\<lparr>ds_back := previous_front\<rparr>;
                    published = ds_dirty_rect s; front = ds_front s;
                    s = s\<lparr>ds_present_count := ds_present_count s + 1\<rparr> in
             (RUNTIME_SYSCALL_STATUS_OK, map_option display_surface_leave_atomic (display_surface_clear_damage (Some s)), Some published, Some front))
      | _ \<Rightarrow> (RUNTIME_SYSCALL_STATUS_ENOENT, surface, rect, front_pixels))"

end
