(* ===== verification/Display_Surface_Props.thy ===== *)
theory Display_Surface_Props
  imports Display_Surface
begin

text \<open>
  Clipping is intersection with the surface; filling paints exactly the visible part of its rectangle; and the damage that a frame
  collects covers every pixel that the frame changes. A surface is well formed if its buffers hold its rows.
\<close>

section \<open>Rectangles\<close>

definition inside_rect :: "display_rect \<Rightarrow> nat \<Rightarrow> nat \<Rightarrow> bool" where
  "inside_rect r px py \<longleftrightarrow> dr_x r \<le> px \<and> px < dr_x r + dr_width r \<and> dr_y r \<le> py \<and> py < dr_y r + dr_height r"

text \<open>A pixel of the surface inside a rectangle that the caller names.\<close>

definition visible :: "'c display_surface \<Rightarrow> int \<Rightarrow> int \<Rightarrow> int \<Rightarrow> int \<Rightarrow> nat \<Rightarrow> nat \<Rightarrow> bool" where
  "visible s x y w h px py \<longleftrightarrow> px < ds_width s \<and> py < ds_height s \<and> x \<le> int px \<and> int px < x + w \<and> y \<le> int py \<and> int py < y + h"

definition rect_ok :: "'c display_surface \<Rightarrow> display_rect \<Rightarrow> bool" where
  "rect_ok s r \<longleftrightarrow> 0 < dr_width r \<and> 0 < dr_height r \<and> dr_x r + dr_width r \<le> ds_width s \<and> dr_y r + dr_height r \<le> ds_height s"

definition surface_ok :: "pixel_memory \<Rightarrow> 'c display_surface \<Rightarrow> bool" where
  "surface_ok m s \<longleftrightarrow> ds_width s \<le> ds_stride s \<and> ds_width s < 2 ^ 16 \<and> ds_height s < 2 ^ 16 \<and> ds_stride s < 2 ^ 16 \<and>
     ds_front s \<noteq> 0 \<and> ds_back s \<noteq> 0 \<and> ds_front s \<noteq> ds_back s \<and>
     ds_height s * ds_stride s \<le> length (m (ds_front s)) \<and> ds_height s * ds_stride s \<le> length (m (ds_back s)) \<and>
     (ds_dirty s \<longrightarrow> rect_ok s (ds_dirty_rect s))"

lemma uint16_small: "i < 2 ^ 16 \<Longrightarrow> uint16 (int i) = i"
  by (simp add: uint16_def)

lemma uint16_small_int: "0 \<le> i \<Longrightarrow> i < 2 ^ 16 \<Longrightarrow> uint16 i = nat i"
  by (simp add: uint16_def)

text \<open>The rectangle fits into 32-bit signed integers.\<close>

definition named_rect :: "int \<Rightarrow> int \<Rightarrow> int \<Rightarrow> int \<Rightarrow> bool" where
  "named_rect x y w h \<longleftrightarrow> is_int32 x \<and> is_int32 y \<and> is_int32 w \<and> is_int32 h \<and> is_int32 (x + w) \<and> is_int32 (y + h)"

lemma clip_cases:
  assumes "ds_width s < 2 ^ 16" "ds_height s < 2 ^ 16" "named_rect x y w h"
  shows "\<exists>clip. display_surface_clip_rect (Some s) x y w h = Some clip \<and>
    (case clip of None \<Rightarrow> \<forall>px py. \<not> visible s x y w h px py
     | Some r \<Rightarrow> rect_ok s r \<and> (\<forall>px py. inside_rect r px py \<longleftrightarrow> visible s x y w h px py))"
  using assms by (auto simp: display_surface_clip_rect_def Let_def named_rect_def is_int32_def visible_def rect_ok_def inside_rect_def
      uint16_small_int)

lemma clip_nothing:
  assumes "ds_width s < 2 ^ 16" "ds_height s < 2 ^ 16" "named_rect x y w h" "\<not> (\<exists>px py. visible s x y w h px py)"
  shows "display_surface_clip_rect (Some s) x y w h = Some None"
proof -
  have "\<not> rect_ok s r" if "\<And>px py. inside_rect r px py \<longleftrightarrow> visible s x y w h px py" for r
    using that [of "dr_x r" "dr_y r"] assms(4) by (auto simp: inside_rect_def rect_ok_def)
  moreover obtain clip where "display_surface_clip_rect (Some s) x y w h = Some clip"
    "case clip of None \<Rightarrow> True | Some r \<Rightarrow> rect_ok s r \<and> (\<forall>px py. inside_rect r px py \<longleftrightarrow> visible s x y w h px py)"
    using clip_cases [OF assms(1-3)] by (auto split: option.splits)
  ultimately show ?thesis
    by (cases clip) auto
qed

lemma rect_named: "rect_ok s r \<Longrightarrow> ds_width s < 2 ^ 16 \<Longrightarrow> ds_height s < 2 ^ 16 \<Longrightarrow>
  named_rect (int (dr_x r)) (int (dr_y r)) (int (dr_width r)) (int (dr_height r))"
  by (auto simp: rect_ok_def named_rect_def is_int32_def)

lemma clip_again:
  assumes "rect_ok s r" "ds_width s < 2 ^ 16" "ds_height s < 2 ^ 16"
  shows "display_surface_clip_rect (Some s) (int (dr_x r)) (int (dr_y r)) (int (dr_width r)) (int (dr_height r)) = Some (Some r)"
  using assms by (auto simp: display_surface_clip_rect_def Let_def is_int32_def rect_ok_def uint16_small)

lemma join_rects_ok:
  assumes "rect_ok s d" "rect_ok s r" "ds_width s < 2 ^ 16" "ds_height s < 2 ^ 16"
  shows "rect_ok s (join_rects d r)" and "inside_rect d px py \<or> inside_rect r px py \<Longrightarrow> inside_rect (join_rects d r) px py"
proof -
  let ?x1 = "max (dr_x d + dr_width d) (dr_x r + dr_width r)" and ?y1 = "max (dr_y d + dr_height d) (dr_y r + dr_height r)"
  have "join_rects d r = \<lparr>dr_x = min (dr_x d) (dr_x r), dr_y = min (dr_y d) (dr_y r),
      dr_width = ?x1 - min (dr_x d) (dr_x r), dr_height = ?y1 - min (dr_y d) (dr_y r)\<rparr>"
    using assms by (auto simp: join_rects_def Let_def rect_ok_def uint16_def min_def max_def)
  then show "rect_ok s (join_rects d r)" and "inside_rect d px py \<or> inside_rect r px py \<Longrightarrow> inside_rect (join_rects d r) px py"
    using assms by (auto simp: rect_ok_def inside_rect_def)
qed

section \<open>Loops over a rectangle\<close>

lemma each_append: "each f (xs @ ys) s = do { s' \<leftarrow> each f xs s; each f ys s' }"
  by (induction xs arbitrary: s) (auto split: bind_split)

lemma each_upt:
  assumes "P 0 s" "\<And>i s. i < n \<Longrightarrow> P i s \<Longrightarrow> \<exists>s'. f i s = Some s' \<and> P (Suc i) s'"
  shows "\<exists>s'. each f [0..<n] s = Some s' \<and> P n s'"
  using assms
proof (induction n)
  case (Suc n)
  then obtain s' where "each f [0..<n] s = Some s'" "P n s'"
    by (metis less_SucI)
  moreover from this Suc.prems(2) [of n s'] obtain s'' where "f n s' = Some s''" "P (Suc n) s''"
    by blast
  ultimately show ?case
    by (simp add: each_append)
qed simp

text \<open>The pixels of a buffer, by column and row.\<close>

definition pixel :: "pixel_memory \<Rightarrow> address \<Rightarrow> nat \<Rightarrow> nat \<Rightarrow> nat \<Rightarrow> u16" where
  "pixel m a stride px py = m a ! (py * stride + px)"

lemma pixel_index:
  fixes px py x y stride :: nat
  assumes "px < stride" "x < stride"
  shows "py * stride + px = y * stride + x \<longleftrightarrow> py = y \<and> px = x"
  using assms by (metis add_right_cancel add_left_cancel div_mult_self3 div_less mod_less mod_mult_self3 add.commute add.right_neutral
      div_mult_mod_eq not_less0 add_0)

lemma pixel_bound:
  fixes px py stride h :: nat
  assumes "px < stride" "py < h"
  shows "py * stride + px < h * stride"
proof -
  have "py * stride + px < Suc py * stride"
    using assms(1) by simp
  also have "\<dots> \<le> h * stride"
    using assms(2) by (intro mult_le_mono1) simp
  finally show ?thesis .
qed

text \<open>What a write to the back buffer leaves alone.\<close>

definition same_outside :: "'c display_surface \<Rightarrow> (nat \<Rightarrow> nat \<Rightarrow> bool) \<Rightarrow> pixel_memory \<Rightarrow> pixel_memory \<Rightarrow> bool" where
  "same_outside s R m m' \<longleftrightarrow> (\<forall>a. a \<noteq> ds_back s \<longrightarrow> m' a = m a) \<and> length (m' (ds_back s)) = length (m (ds_back s)) \<and>
     (\<forall>px py. px < ds_stride s \<and> \<not> R px py \<longrightarrow> pixel m' (ds_back s) (ds_stride s) px py = pixel m (ds_back s) (ds_stride s) px py)"

lemma same_outside_refl [simp]: "same_outside s R m m"
  by (simp add: same_outside_def)

lemma same_outside_trans: "same_outside s R m m' \<Longrightarrow> same_outside s R m' m'' \<Longrightarrow> same_outside s R m m''"
  by (simp add: same_outside_def)

lemma put_pixel_effect:
  assumes "surface_ok m s" "x < ds_width s" "y < ds_height s"
  shows "put_pixel (ds_back s) (y * ds_stride s + x) v m = Some (m(ds_back s := (m (ds_back s))[y * ds_stride s + x := v]))"
    and "same_outside s (\<lambda>px py. px = x \<and> py = y) m (m(ds_back s := (m (ds_back s))[y * ds_stride s + x := v]))"
    and "pixel (m(ds_back s := (m (ds_back s))[y * ds_stride s + x := v])) (ds_back s) (ds_stride s) x y = v"
proof -
  have x: "x < ds_stride s" and b: "y * ds_stride s + x < length (m (ds_back s))"
    using assms pixel_bound [of x "ds_stride s" y "ds_height s"] by (auto simp: surface_ok_def)
  then show "put_pixel (ds_back s) (y * ds_stride s + x) v m = Some (m(ds_back s := (m (ds_back s))[y * ds_stride s + x := v]))"
    and "pixel (m(ds_back s := (m (ds_back s))[y * ds_stride s + x := v])) (ds_back s) (ds_stride s) x y = v"
    by (simp_all add: put_pixel_def pixel_def)
  show "same_outside s (\<lambda>px py. px = x \<and> py = y) m (m(ds_back s := (m (ds_back s))[y * ds_stride s + x := v]))"
    unfolding same_outside_def
  proof (intro conjI allI impI; (elim conjE)?)
    fix px py
    assume "px < ds_stride s" "\<not> (px = x \<and> py = y)"
    then have "y * ds_stride s + x \<noteq> py * ds_stride s + px"
      using x pixel_index [of x "ds_stride s" px y py] by auto
    then show "pixel (m(ds_back s := (m (ds_back s))[y * ds_stride s + x := v])) (ds_back s) (ds_stride s) px py =
        pixel m (ds_back s) (ds_stride s) px py"
      by (simp add: pixel_def)
  qed simp_all
qed


lemma surface_ok_same: "same_outside s R m m' \<Longrightarrow> surface_ok m s \<Longrightarrow> surface_ok m' s"
  by (auto simp: same_outside_def surface_ok_def)

lemma same_outside_mono: "same_outside s R m m' \<Longrightarrow> (\<And>px py. R px py \<Longrightarrow> R' px py) \<Longrightarrow> same_outside s R' m m'"
  unfolding same_outside_def by blast

text \<open>How far the loops have come: all rows before \<open>row\<close>, and the columns before \<open>col\<close> of that row.\<close>

definition painted ::
  "'c display_surface \<Rightarrow> display_rect \<Rightarrow> (nat \<Rightarrow> nat \<Rightarrow> u16) \<Rightarrow> pixel_memory \<Rightarrow> nat \<Rightarrow> nat \<Rightarrow> pixel_memory \<Rightarrow> bool" where
  "painted s r c m row col m' \<longleftrightarrow> same_outside s (inside_rect r) m m' \<and>
     (\<forall>i j. j < dr_width r \<and> (i < row \<or> i = row \<and> j < col) \<longrightarrow> pixel m' (ds_back s) (ds_stride s) (dr_x r + j) (dr_y r + i) = c i j)"

lemma painted_step:
  assumes "surface_ok m s" "rect_ok s r" "row < dr_height r" "col < dr_width r" "painted s r c m row col m'"
  shows "\<exists>m''. put_pixel (ds_back s) ((dr_y r + row) * ds_stride s + dr_x r + col) (c row col) m' = Some m'' \<and>
    painted s r c m row (Suc col) m''"
proof -
  let ?x = "dr_x r + col" and ?y = "dr_y r + row"
  have ok: "surface_ok m' s"
    using assms(1,5) surface_ok_same by (auto simp: painted_def)
  have xy: "?x < ds_width s" "?y < ds_height s"
    using assms(2-4) by (auto simp: rect_ok_def)
  note put = put_pixel_effect [OF ok xy, of "c row col"]
  let ?m = "m'(ds_back s := (m' (ds_back s))[?y * ds_stride s + ?x := c row col])"
  have "inside_rect r ?x ?y"
    using assms(3,4) by (simp add: inside_rect_def)
  then have "same_outside s (inside_rect r) m ?m"
    using assms(5) put(2) by (auto simp: painted_def intro: same_outside_trans same_outside_mono)
  moreover have "pixel ?m (ds_back s) (ds_stride s) (dr_x r + j) (dr_y r + i) = c i j"
    if "j < dr_width r" "i < row \<or> i = row \<and> j < Suc col" for i j
  proof (cases "i = row \<and> j = col")
    case False
    have "dr_x r + j < ds_stride s"
      using that(1) assms(1,2) by (auto simp: rect_ok_def surface_ok_def)
    with False put(2) have "pixel ?m (ds_back s) (ds_stride s) (dr_x r + j) (dr_y r + i) = pixel m' (ds_back s) (ds_stride s) (dr_x r + j) (dr_y r + i)"
      by (auto simp: same_outside_def)
    with False that assms(5) show ?thesis
      by (auto simp: painted_def less_Suc_eq)
  qed (use put(3) in simp)
  ultimately show ?thesis
    using put(1) by (simp add: painted_def add.assoc)
qed

lemma write_rect_paints:
  assumes "surface_ok m s" "rect_ok s r"
    and "\<And>row col m'. row < dr_height r \<Longrightarrow> col < dr_width r \<Longrightarrow> same_outside s (inside_rect r) m m' \<Longrightarrow> colour row col m' = Some (c row col)"
  shows "\<exists>m'. write_rect s r colour m = Some m' \<and> painted s r c m (dr_height r) 0 m'"
  unfolding write_rect_def
proof (rule each_upt [where P = "\<lambda>row. painted s r c m row 0"])
  show "painted s r c m 0 0 m"
    by (simp add: painted_def)
  fix row m1
  assume row: "row < dr_height r" and m1: "painted s r c m row 0 m1"
  have "\<exists>m2. each (\<lambda>col m. do { v \<leftarrow> colour row col m; put_pixel (ds_back s) ((dr_y r + row) * ds_stride s + dr_x r + col) v m })
      [0..<dr_width r] m1 = Some m2 \<and> painted s r c m row (dr_width r) m2"
  proof (rule each_upt [where P = "\<lambda>col. painted s r c m row col", OF m1])
    fix col m'
    assume "col < dr_width r" "painted s r c m row col m'"
    moreover from this have "colour row col m' = Some (c row col)"
      using assms(3) row by (simp add: painted_def)
    ultimately show "\<exists>m''. do { v \<leftarrow> colour row col m'; put_pixel (ds_back s) ((dr_y r + row) * ds_stride s + dr_x r + col) v m' } = Some m'' \<and>
        painted s r c m row (Suc col) m''"
      using painted_step [OF assms(1,2) row] by simp
  qed
  then show "\<exists>m2. (let offset = (dr_y r + row) * ds_stride s + dr_x r in
      each (\<lambda>col m. do { v \<leftarrow> colour row col m; put_pixel (ds_back s) (offset + col) v m }) [0..<dr_width r]) m1 = Some m2 \<and>
      painted s r c m (Suc row) 0 m2"
    by (auto simp: painted_def less_Suc_eq)
qed


section \<open>Drawing\<close>

lemma mark_dirty_ok:
  assumes "surface_ok m s" "rect_ok s r"
  shows "\<exists>s'. display_surface_mark_dirty (Some s) (int (dr_x r)) (int (dr_y r)) (int (dr_width r)) (int (dr_height r)) =
      Some (RUNTIME_SYSCALL_STATUS_OK, Some s') \<and> surface_ok m s' \<and>
    s' = s\<lparr>ds_dirty_rect := ds_dirty_rect s', ds_dirty := True\<rparr> \<and>
    (\<forall>px py. inside_rect r px py \<or> (ds_dirty s \<and> inside_rect (ds_dirty_rect s) px py) \<longrightarrow> inside_rect (ds_dirty_rect s') px py)"
proof -
  have size: "ds_width s < 2 ^ 16" "ds_height s < 2 ^ 16" and d: "ds_dirty s \<Longrightarrow> rect_ok s (ds_dirty_rect s)"
    using assms(1) by (auto simp: surface_ok_def)
  have ok: "surface_ok m (s\<lparr>ds_dirty_rect := q, ds_dirty := True\<rparr>)" if "rect_ok s q" for q
    using assms(1) that by (simp add: surface_ok_def rect_ok_def)
  show ?thesis
  proof (cases "ds_dirty s")
    case False
    with clip_again [OF assms(2) size] ok [OF assms(2)] show ?thesis
      by (intro exI [of _ "s\<lparr>ds_dirty_rect := r, ds_dirty := True\<rparr>"]) (simp add: display_surface_mark_dirty_def)
  next
    case True
    note j = join_rects_ok [OF d [OF True] assms(2) size]
    with True clip_again [OF assms(2) size] ok [OF j(1)] show ?thesis
      by (intro exI [of _ "s\<lparr>ds_dirty_rect := join_rects (ds_dirty_rect s) r, ds_dirty := True\<rparr>"])
        (auto simp: display_surface_mark_dirty_def)
  qed
qed

text \<open>The specification of one drawing call: the visible part of the rectangle is painted and becomes damage, nothing else changes.\<close>

definition drawn ::
  "'c display_surface \<Rightarrow> pixel_memory \<Rightarrow> (nat \<Rightarrow> nat \<Rightarrow> u16 option) \<Rightarrow> 'c display_surface \<Rightarrow> pixel_memory \<Rightarrow> bool" where
  "drawn s m c s' m' \<longleftrightarrow> (\<exists>px py. c px py \<noteq> None) \<and> same_outside s (\<lambda>px py. c px py \<noteq> None) m m' \<and>
     (\<forall>px py v. c px py = Some v \<longrightarrow> pixel m' (ds_back s) (ds_stride s) px py = v) \<and>
     s' = s\<lparr>ds_dirty_rect := ds_dirty_rect s', ds_dirty := True\<rparr> \<and> surface_ok m' s' \<and>
     (\<forall>px py. c px py \<noteq> None \<or> (ds_dirty s \<and> inside_rect (ds_dirty_rect s) px py) \<longrightarrow> inside_rect (ds_dirty_rect s') px py)"

lemma paint_and_mark:
  assumes "surface_ok m s" "rect_ok s r" "\<And>px py. inside_rect r px py \<longleftrightarrow> visible s x y w h px py"
    and "\<And>row col m'. row < dr_height r \<Longrightarrow> col < dr_width r \<Longrightarrow> same_outside s (inside_rect r) m m' \<Longrightarrow> colour row col m' = Some (c row col)"
  shows "\<exists>s' m'. do { m \<leftarrow> write_rect s r colour m;
        (status, surface) \<leftarrow> display_surface_mark_dirty (Some s) (int (dr_x r)) (int (dr_y r)) (int (dr_width r)) (int (dr_height r));
        Some (status, surface, m) } = Some (RUNTIME_SYSCALL_STATUS_OK, Some s', m') \<and>
    drawn s m (\<lambda>px py. if visible s x y w h px py then Some (c (py - dr_y r) (px - dr_x r)) else None) s' m'"
proof -
  from write_rect_paints [OF assms(1,2,4)] obtain m' where m': "write_rect s r colour m = Some m'"
    "same_outside s (inside_rect r) m m'"
    "\<And>i j. i < dr_height r \<Longrightarrow> j < dr_width r \<Longrightarrow> pixel m' (ds_back s) (ds_stride s) (dr_x r + j) (dr_y r + i) = c i j"
    by (force simp: painted_def)
  from mark_dirty_ok [OF surface_ok_same [OF m'(2) assms(1)] assms(2)] obtain s' where
    "display_surface_mark_dirty (Some s) (int (dr_x r)) (int (dr_y r)) (int (dr_width r)) (int (dr_height r)) =
      Some (RUNTIME_SYSCALL_STATUS_OK, Some s')" "surface_ok m' s'" "s' = s\<lparr>ds_dirty_rect := ds_dirty_rect s', ds_dirty := True\<rparr>"
    "\<forall>px py. inside_rect r px py \<or> (ds_dirty s \<and> inside_rect (ds_dirty_rect s) px py) \<longrightarrow> inside_rect (ds_dirty_rect s') px py"
    by blast
  moreover have "pixel m' (ds_back s) (ds_stride s) px py = c (py - dr_y r) (px - dr_x r)" if "inside_rect r px py" for px py
    using that m'(3) [of "py - dr_y r" "px - dr_x r"] by (auto simp: inside_rect_def)
  moreover have "inside_rect r (dr_x r) (dr_y r)"
    using assms(2) by (simp add: inside_rect_def rect_ok_def)
  moreover have "same_outside s (visible s x y w h) m m'"
    using m'(2) assms(3) by (auto intro: same_outside_mono)
  ultimately show ?thesis
    using m' assms(3) by (auto simp: drawn_def cong: if_cong)
qed

lemma fill_rect_draws:
  assumes "surface_ok m s" "named_rect x y w h"
  shows "if (\<exists>px py. visible s x y w h px py)
    then \<exists>s' m'. display_surface_fill_rect (Some s) x y w h color m = Some (RUNTIME_SYSCALL_STATUS_OK, Some s', m') \<and>
      drawn s m (\<lambda>px py. if visible s x y w h px py then Some color else None) s' m'
    else display_surface_fill_rect (Some s) x y w h color m = Some (RUNTIME_SYSCALL_STATUS_EINVAL, Some s, m)"
proof -
  have "ds_width s < 2 ^ 16" "ds_height s < 2 ^ 16" and bk: "ds_back s \<noteq> 0"
    using assms(1) by (auto simp: surface_ok_def)
  from clip_cases [OF this(1,2) assms(2)] obtain clip where clip: "display_surface_clip_rect (Some s) x y w h = Some clip"
    "case clip of None \<Rightarrow> \<forall>px py. \<not> visible s x y w h px py
     | Some r \<Rightarrow> rect_ok s r \<and> (\<forall>px py. inside_rect r px py \<longleftrightarrow> visible s x y w h px py)"
    by blast
  show ?thesis
  proof (cases clip)
    case None
    with clip bk show ?thesis
      by (simp add: display_surface_fill_rect_def)
  next
    case (Some r)
    then have r: "rect_ok s r" "\<And>px py. inside_rect r px py \<longleftrightarrow> visible s x y w h px py"
      using clip(2) by auto
    have "visible s x y w h (dr_x r) (dr_y r)"
      using r(1) by (simp add: inside_rect_def rect_ok_def flip: r(2))
    moreover obtain s' m' where "display_surface_fill_rect (Some s) x y w h color m = Some (RUNTIME_SYSCALL_STATUS_OK, Some s', m')"
      "drawn s m (\<lambda>px py. if visible s x y w h px py then Some color else None) s' m'"
      using paint_and_mark [OF assms(1) r, of "\<lambda>row col m. Some color" "\<lambda>i j. color"] clip(1) Some bk
      by (auto simp: display_surface_fill_rect_def)
    ultimately show ?thesis
      by auto
  qed
qed

text \<open>The source of a copy: another buffer, with a row for every row of the rectangle that is visible.\<close>

definition blit_source_ok :: "'c display_surface \<Rightarrow> int \<Rightarrow> int \<Rightarrow> int \<Rightarrow> int \<Rightarrow> address \<Rightarrow> nat \<Rightarrow> pixel_memory \<Rightarrow> bool" where
  "blit_source_ok s x y w h pixels source_stride m \<longleftrightarrow> pixels \<noteq> 0 \<and> pixels \<noteq> ds_back s \<and> source_stride \<noteq> 0 \<and> length (m pixels) \<le> 2 ^ 32 \<and>
     (\<forall>px py. visible s x y w h px py \<longrightarrow> (int py - y) * int source_stride + (int px - x) < int (length (m pixels)))"

definition source_pixel :: "int \<Rightarrow> int \<Rightarrow> address \<Rightarrow> nat \<Rightarrow> pixel_memory \<Rightarrow> nat \<Rightarrow> nat \<Rightarrow> u16" where
  "source_pixel x y pixels source_stride m px py = m pixels ! nat ((int py - y) * int source_stride + (int px - x))"

lemma source_pixel_read:
  assumes "blit_source_ok s x y w h pixels ss m" "visible s x y w h px py" "same_outside s R m m'"
  shows "get_pixel pixels (nat (((int py - y) * int ss + (int px - x)) mod 2 ^ 32)) m' = Some (source_pixel x y pixels ss m px py)"
proof -
  let ?i = "(int py - y) * int ss + (int px - x)"
  have "0 \<le> (int py - y) * int ss"
    using assms(2) by (simp add: visible_def)
  then have i: "0 \<le> ?i" "?i < int (length (m pixels))" "length (m pixels) \<le> 2 ^ 32" "m' pixels = m pixels"
    using assms by (auto simp: visible_def blit_source_ok_def same_outside_def)
  moreover from i(3) have "int (length (m pixels)) \<le> 2 ^ 32"
    by simp
  ultimately have "?i mod 2 ^ 32 = ?i"
    by (intro mod_pos_pos_trivial) linarith+
  with i show ?thesis
    by (simp add: get_pixel_def source_pixel_def)
qed

lemma drawn_cong: "drawn s m c s' m' \<Longrightarrow> (\<And>px py. c px py = c' px py) \<Longrightarrow> drawn s m c' s' m'"
  by (simp add: drawn_def)

lemma blit_draws:
  assumes "surface_ok m s" "named_rect x y w h" "blit_source_ok s x y w h pixels ss m" "\<exists>px py. visible s x y w h px py"
  shows "\<exists>s' m'. display_surface_blit_rgb565 (Some s) x y w h pixels ss m = Some (RUNTIME_SYSCALL_STATUS_OK, Some s', m') \<and>
    drawn s m (\<lambda>px py. if visible s x y w h px py then Some (source_pixel x y pixels ss m px py) else None) s' m'"
proof -
  have "ds_width s < 2 ^ 16" "ds_height s < 2 ^ 16" and bk: "ds_back s \<noteq> 0"
    using assms(1) by (auto simp: surface_ok_def)
  from clip_cases [OF this(1,2) assms(2)] assms(4) obtain r where clip: "display_surface_clip_rect (Some s) x y w h = Some (Some r)"
    and r: "rect_ok s r" "\<And>px py. inside_rect r px py \<longleftrightarrow> visible s x y w h px py"
    by (auto split: option.splits)
  let ?c = "\<lambda>row col. source_pixel x y pixels ss m (dr_x r + col) (dr_y r + row)"
  let ?read = "\<lambda>row col. get_pixel pixels (nat (((int (dr_y r) - y + int row) * int ss + (int (dr_x r) - x) + int col) mod 2 ^ 32))"
  have reads: "?read row col m' = Some (?c row col)" if "row < dr_height r" "col < dr_width r" "same_outside s (inside_rect r) m m'" for row col m'
  proof -
    have "visible s x y w h (dr_x r + col) (dr_y r + row)"
      using that by (simp add: inside_rect_def flip: r(2))
    from source_pixel_read [OF assms(3) this that(3)] show ?thesis
      by (simp add: algebra_simps)
  qed
  from paint_and_mark [OF assms(1) r, of ?read ?c] reads obtain s' m' where
    "display_surface_blit_rgb565 (Some s) x y w h pixels ss m = Some (RUNTIME_SYSCALL_STATUS_OK, Some s', m')"
    and d: "drawn s m (\<lambda>px py. if visible s x y w h px py then Some (?c (py - dr_y r) (px - dr_x r)) else None) s' m'"
    using clip bk assms(3) by (auto simp: display_surface_blit_rgb565_def blit_source_ok_def Let_def)
  moreover have "drawn s m (\<lambda>px py. if visible s x y w h px py then Some (source_pixel x y pixels ss m px py) else None) s' m'"
    using d by (rule drawn_cong) (auto simp: inside_rect_def simp flip: r(2))
  ultimately show ?thesis
    by blast
qed

lemma blit_rect_draws:
  assumes "surface_ok m s" "named_rect x y w h" "blit_source_ok s x y w h pixels ss m"
  shows "if (\<exists>px py. visible s x y w h px py)
    then \<exists>s' m'. display_surface_blit_rgb565 (Some s) x y w h pixels ss m = Some (RUNTIME_SYSCALL_STATUS_OK, Some s', m') \<and>
      drawn s m (\<lambda>px py. if visible s x y w h px py then Some (source_pixel x y pixels ss m px py) else None) s' m'
    else display_surface_blit_rgb565 (Some s) x y w h pixels ss m = Some (RUNTIME_SYSCALL_STATUS_EINVAL, Some s, m)"
proof (cases "\<exists>px py. visible s x y w h px py")
  case True
  then show ?thesis
    using blit_draws [OF assms True] by simp
next
  case False
  then have "display_surface_clip_rect (Some s) x y w h = Some None"
    using clip_nothing [of s, OF _ _ assms(2)] assms(1) by (simp add: surface_ok_def)
  with False show ?thesis
    by (simp add: display_surface_blit_rgb565_def)
qed

section \<open>Frames\<close>

text \<open>
  The drawing calls of a frame, up to the next publication, one after the other. A call fits if the edges of its rectangle are 32-bit
  integers and the source of a copy holds the pixels that it names; nothing is said of where the rectangle lies.
\<close>

datatype draw_call =
  Fill_Rect int int int int u16
| Blit_Rgb565 int int int int address nat

fun draw_call_fits :: "'c display_surface \<Rightarrow> pixel_memory \<Rightarrow> draw_call \<Rightarrow> bool" where
  "draw_call_fits s m (Fill_Rect x y w h color) \<longleftrightarrow> named_rect x y w h"
| "draw_call_fits s m (Blit_Rgb565 x y w h pixels ss) \<longleftrightarrow> named_rect x y w h \<and> blit_source_ok s x y w h pixels ss m"

fun run_draw_call :: "draw_call \<Rightarrow> 'c display_surface \<times> pixel_memory \<Rightarrow> ('c display_surface \<times> pixel_memory) option" where
  "run_draw_call (Fill_Rect x y w h color) (s, m) = do {
     (status, s, m) \<leftarrow> display_surface_fill_rect (Some s) x y w h color m; map_option (\<lambda>s. (s, m)) s }"
| "run_draw_call (Blit_Rgb565 x y w h pixels ss) (s, m) = do {
     (status, s, m) \<leftarrow> display_surface_blit_rgb565 (Some s) x y w h pixels ss m; map_option (\<lambda>s. (s, m)) s }"

text \<open>The damage covers what changed since the frame began.\<close>

definition damage_covers :: "'c display_surface \<Rightarrow> pixel_memory \<Rightarrow> 'c display_surface \<Rightarrow> pixel_memory \<Rightarrow> bool" where
  "damage_covers s0 m0 s m \<longleftrightarrow> surface_ok m s \<and> same_outside s0 (\<lambda>px py. ds_dirty s \<and> inside_rect (ds_dirty_rect s) px py) m0 m \<and>
     (\<exists>r d. s = s0\<lparr>ds_dirty_rect := r, ds_dirty := d\<rparr>)"

lemma damage_grows:
  assumes "damage_covers s0 m0 s m" "drawn s m c s' m'"
  shows "damage_covers s0 m0 s' m'"
proof -
  from assms(1) obtain r d where s: "s = s0\<lparr>ds_dirty_rect := r, ds_dirty := d\<rparr>"
    by (auto simp: damage_covers_def)
  from assms(2) obtain r' where s': "s' = s\<lparr>ds_dirty_rect := r', ds_dirty := True\<rparr>"
    by (auto simp: drawn_def)
  have same: "same_outside s0 (\<lambda>px py. d \<and> inside_rect r px py) m0 m" "same_outside s0 (\<lambda>px py. c px py \<noteq> None) m m'"
    and more: "\<forall>px py. c px py \<noteq> None \<or> (d \<and> inside_rect r px py) \<longrightarrow> inside_rect r' px py"
    using assms by (simp_all add: damage_covers_def drawn_def s s' same_outside_def)
  then have "same_outside s0 (inside_rect r') m0 m" "same_outside s0 (inside_rect r') m m'"
    by (auto intro: same_outside_mono)
  then show ?thesis
    using assms(2) same_outside_trans by (auto simp: damage_covers_def drawn_def s s')
qed

lemma fits_later:
  assumes "damage_covers s0 m0 s m" "draw_call_fits s0 m0 call"
  shows "draw_call_fits s m call"
proof (cases call)
  case (Blit_Rgb565 x y w h pixels ss)
  obtain r d where s: "s = s0\<lparr>ds_dirty_rect := r, ds_dirty := d\<rparr>"
    using assms(1) by (auto simp: damage_covers_def)
  have "visible s x y w h px py = visible s0 x y w h px py" for px py
    by (simp add: s visible_def)
  then show ?thesis
    using assms by (auto simp: Blit_Rgb565 blit_source_ok_def damage_covers_def same_outside_def s)
qed (use assms in simp)

lemma draw_call_damage:
  assumes "damage_covers s0 m0 s m" "draw_call_fits s0 m0 call"
  shows "\<exists>s' m'. run_draw_call call (s, m) = Some (s', m') \<and> damage_covers s0 m0 s' m'"
proof -
  have ok: "surface_ok m s"
    using assms(1) by (simp add: damage_covers_def)
  show ?thesis
  proof (cases call)
    case (Fill_Rect x y w h color)
    with fits_later [OF assms] fill_rect_draws [OF ok, of x y w h color] assms(1) show ?thesis
      by (auto split: if_splits dest: damage_grows)
  next
    case (Blit_Rgb565 x y w h pixels ss)
    with fits_later [OF assms] blit_rect_draws [OF ok, of x y w h pixels ss] assms(1) show ?thesis
      by (auto split: if_splits dest: damage_grows)
  qed
qed

lemma frame_damage:
  "\<forall>call \<in> set calls. draw_call_fits s0 m0 call \<Longrightarrow> damage_covers s0 m0 s m \<Longrightarrow>
   \<exists>s' m'. each run_draw_call calls (s, m) = Some (s', m') \<and> damage_covers s0 m0 s' m'"
proof (induction calls arbitrary: s m)
  case (Cons call calls)
  from draw_call_damage [OF Cons.prems(2), of call] Cons.prems(1) obtain s' m' where
    "run_draw_call call (s, m) = Some (s', m')" "damage_covers s0 m0 s' m'"
    by auto
  with Cons.IH [of s' m'] Cons.prems(1) show ?case
    by simp
qed simp

lemma damage_start: "surface_ok m s \<Longrightarrow> damage_covers s m s m"
  by (auto simp: damage_covers_def intro!: exI [of _ "ds_dirty_rect s"] exI [of _ "ds_dirty s"])

lemma atomic_context_only:
  "display_surface_enter_atomic s = s\<lparr>ds_atomic_context := ds_atomic_context (display_surface_enter_atomic s)\<rparr>"
  "display_surface_leave_atomic s = s\<lparr>ds_atomic_context := ds_atomic_context (display_surface_leave_atomic s)\<rparr>"
  by (simp_all add: display_surface_enter_atomic_def display_surface_leave_atomic_def split: option.split)

lemma publish_swaps:
  assumes "surface_ok m s" "ds_dirty s"
  shows "\<exists>s'. display_surface_publish (Some s) (Some r0) (Some f0) = (RUNTIME_SYSCALL_STATUS_OK, Some s', Some (ds_dirty_rect s), Some (ds_back s)) \<and>
    ds_front s' = ds_back s \<and> ds_back s' = ds_front s \<and> \<not> ds_dirty s' \<and> ds_present_count s' = ds_present_count s + 1 \<and> surface_ok m s' \<and>
    ds_width s' = ds_width s \<and> ds_height s' = ds_height s \<and> ds_stride s' = ds_stride s"
proof -
  obtain e where e: "display_surface_enter_atomic s = s\<lparr>ds_atomic_context := e\<rparr>"
    using atomic_context_only(1) by blast
  let ?s = "s\<lparr>ds_atomic_context := e, ds_front := ds_back s, ds_back := ds_front s, ds_present_count := ds_present_count s + 1,
    ds_dirty := False, ds_dirty_rect := no_rect\<rparr>"
  obtain f where f: "display_surface_leave_atomic ?s = ?s\<lparr>ds_atomic_context := f\<rparr>"
    using atomic_context_only(2) by blast
  have "display_surface_publish (Some s) (Some r0) (Some f0) =
      (RUNTIME_SYSCALL_STATUS_OK, Some (?s\<lparr>ds_atomic_context := f\<rparr>), Some (ds_dirty_rect s), Some (ds_back s))"
    using assms f by (simp add: display_surface_publish_def e display_surface_clear_damage_def surface_ok_def Let_def)
  then show ?thesis
    using assms by (auto simp: surface_ok_def)
qed

text \<open>C34: The damage of a frame is sound. Take any sequence of fills and copies between two publications, with any part of their
  rectangles outside the surface, in which the edges of the rectangles are 32-bit integers and the sources of the copies are
  other buffers that hold the pixels to copy. All calls return: no access leaves a buffer and no addition overflows. Every pixel that
  differs from the beginning of the frame lies in the damaged rectangle, which lies in the surface; publishing hands out that
  rectangle with the buffer that was drawn, makes the other buffer the next one to draw and clears the damage.\<close>

theorem frame_damage_sound:
  assumes "surface_ok m0 s0" "\<not> ds_dirty s0" "\<forall>call \<in> set calls. draw_call_fits s0 m0 call"
  shows "\<exists>s m. each run_draw_call calls (s0, m0) = Some (s, m) \<and>
    (\<forall>a. a \<noteq> ds_back s0 \<longrightarrow> m a = m0 a) \<and> length (m (ds_back s0)) = length (m0 (ds_back s0)) \<and>
    (\<forall>px py. px < ds_stride s0 \<and> pixel m (ds_back s0) (ds_stride s0) px py \<noteq> pixel m0 (ds_back s0) (ds_stride s0) px py \<longrightarrow>
      ds_dirty s \<and> inside_rect (ds_dirty_rect s) px py \<and> rect_ok s0 (ds_dirty_rect s)) \<and>
    (ds_dirty s \<longrightarrow> (\<exists>s'. display_surface_publish (Some s) (Some r0) (Some f0) =
        (RUNTIME_SYSCALL_STATUS_OK, Some s', Some (ds_dirty_rect s), Some (ds_back s0)) \<and>
      ds_front s' = ds_back s0 \<and> ds_back s' = ds_front s0 \<and> \<not> ds_dirty s' \<and> surface_ok m s'))"
proof -
  from frame_damage [OF assms(3) damage_start [OF assms(1)]] obtain s m where
    run: "each run_draw_call calls (s0, m0) = Some (s, m)" and d: "damage_covers s0 m0 s m"
    by blast
  then obtain r b where s: "s = s0\<lparr>ds_dirty_rect := r, ds_dirty := b\<rparr>"
    by (auto simp: damage_covers_def)
  have ok: "surface_ok m s" and same: "same_outside s0 (\<lambda>px py. ds_dirty s \<and> inside_rect (ds_dirty_rect s) px py) m0 m"
    using d by (auto simp: damage_covers_def)
  have rect: "ds_dirty s \<Longrightarrow> rect_ok s0 (ds_dirty_rect s)"
    using ok by (simp add: s surface_ok_def rect_ok_def)
  show ?thesis
  proof (intro exI [of _ s] exI [of _ m] conjI)
    show "\<forall>px py. px < ds_stride s0 \<and> pixel m (ds_back s0) (ds_stride s0) px py \<noteq> pixel m0 (ds_back s0) (ds_stride s0) px py \<longrightarrow>
        ds_dirty s \<and> inside_rect (ds_dirty_rect s) px py \<and> rect_ok s0 (ds_dirty_rect s)"
      using same rect by (fastforce simp: same_outside_def)
    show "ds_dirty s \<longrightarrow> (\<exists>s'. display_surface_publish (Some s) (Some r0) (Some f0) =
        (RUNTIME_SYSCALL_STATUS_OK, Some s', Some (ds_dirty_rect s), Some (ds_back s0)) \<and>
      ds_front s' = ds_back s0 \<and> ds_back s' = ds_front s0 \<and> \<not> ds_dirty s' \<and> surface_ok m s')"
      using publish_swaps [OF ok, of r0 f0] by (fastforce simp: s)
  qed (use run same in \<open>auto simp: same_outside_def\<close>)
qed

definition demo_surface :: "unit display_surface" where
  "demo_surface = \<lparr>ds_width = 3, ds_height = 1, ds_stride = 3, ds_front = 1, ds_back = 2, ds_dirty_rect = no_rect, ds_dirty = False,
     ds_present_count = 0, ds_atomic_ops = None, ds_atomic_context = ()\<rparr>"

definition demo_memory :: pixel_memory where
  "demo_memory = (\<lambda>_. [])(1 := [0, 0, 0], 2 := [0, 0, 0])"

lemmas surface_compute = display_surface_fill_rect_def display_surface_clip_rect_def display_surface_mark_dirty_def
  write_rect_def put_pixel_def join_rects_def uint16_def is_int32_def demo_surface_def demo_memory_def upt_rec

lemma demo_surface_ok: "surface_ok demo_memory demo_surface"
  by (simp add: surface_ok_def demo_surface_def demo_memory_def)

theorem frame_damage_sound_witness:
  "\<exists>s m s'. each run_draw_call [Fill_Rect (- 1) 0 2 5 7, Blit_Rgb565 1 0 1 1 1 3] (demo_surface, demo_memory) = Some (s, m) \<and> ds_dirty s \<and>
     display_surface_publish (Some s) (Some no_rect) (Some 0) = (RUNTIME_SYSCALL_STATUS_OK, Some s', Some (ds_dirty_rect s), Some 2) \<and> ds_back s' = 1"
proof -
  let ?calls = "[Fill_Rect (- 1) 0 2 5 7, Blit_Rgb565 1 0 1 1 1 3]"
  have clean: "\<not> ds_dirty demo_surface"
    by (simp add: demo_surface_def)
  have fits: "\<forall>call \<in> set ?calls. draw_call_fits demo_surface demo_memory call"
    by (auto simp: named_rect_def is_int32_def blit_source_ok_def visible_def demo_surface_def demo_memory_def)
  have "ds_dirty s" if "each run_draw_call ?calls (demo_surface, demo_memory) = Some (s, m)" for s m
    using that by (auto simp: surface_compute display_surface_blit_rgb565_def get_pixel_def)
  with frame_damage_sound [OF demo_surface_ok clean fits, of no_rect 0] show ?thesis
    by (fastforce simp: demo_surface_def)
qed

text \<open>C35: Filling and copying paint exactly. Of the rectangle that is named, with coordinates that may be negative or beyond
  the edges, the part on the surface is painted, every other pixel and buffer is unchanged, and the painted part is damage; a
  rectangle without a visible pixel is refused and changes nothing. The edges of the rectangle are 32-bit integers, the surface is well
  formed, and the source of the copy is another buffer that holds the pixels to copy.\<close>

theorem drawing_paints_exactly:
  assumes "surface_ok m s" "named_rect x y w h" "blit_source_ok s x y w h pixels ss m"
  shows "(if \<exists>px py. visible s x y w h px py
      then (\<exists>s' m'. display_surface_fill_rect (Some s) x y w h color m = Some (RUNTIME_SYSCALL_STATUS_OK, Some s', m') \<and>
          drawn s m (\<lambda>px py. if visible s x y w h px py then Some color else None) s' m') \<and>
        (\<exists>s' m'. display_surface_blit_rgb565 (Some s) x y w h pixels ss m = Some (RUNTIME_SYSCALL_STATUS_OK, Some s', m') \<and>
          drawn s m (\<lambda>px py. if visible s x y w h px py then Some (source_pixel x y pixels ss m px py) else None) s' m')
      else display_surface_fill_rect (Some s) x y w h color m = Some (RUNTIME_SYSCALL_STATUS_EINVAL, Some s, m) \<and>
        display_surface_blit_rgb565 (Some s) x y w h pixels ss m = Some (RUNTIME_SYSCALL_STATUS_EINVAL, Some s, m))"
  using fill_rect_draws [OF assms(1,2), of color] blit_rect_draws [OF assms] by (simp split: if_splits)

theorem drawing_paints_exactly_witness:
  "\<exists>s' m'. display_surface_fill_rect (Some demo_surface) (- 1) 0 2 5 7 demo_memory = Some (RUNTIME_SYSCALL_STATUS_OK, Some s', m') \<and>
     pixel m' 2 3 0 0 = 7"
proof -
  have n: "named_rect (- 1) 0 2 5"
    by (simp add: named_rect_def is_int32_def)
  have b: "blit_source_ok demo_surface (- 1) 0 2 5 1 1 demo_memory"
    by (auto simp: blit_source_ok_def demo_surface_def demo_memory_def visible_def)
  have "visible demo_surface (- 1) 0 2 5 0 0"
    by (simp add: visible_def demo_surface_def)
  with drawing_paints_exactly [OF demo_surface_ok n b, of 7] show ?thesis
    by (fastforce simp: drawn_def demo_surface_def split: if_splits)
qed

section \<open>What goes wrong\<close>

text \<open>
  After a publication the next frame is drawn on the older of the two pictures. If the display is updated with the damaged
  rectangle of the new front buffer, as the panel is, then the pixels of that rectangle that the frame did not draw go back to
  the picture before the last one: here the middle pixel, drawn by the first frame with 7.
\<close>

definition flush_row :: "pixel_memory \<Rightarrow> address \<Rightarrow> display_rect \<Rightarrow> u16 list \<Rightarrow> u16 list" where
  "flush_row m front r panel = fold (\<lambda>i p. p[i := m front ! i]) [dr_x r..<dr_x r + dr_width r] panel"

lemma frame_loses_pixels:
  "(case display_surface_fill_rect (Some demo_surface) 1 0 1 1 7 demo_memory of Some (_, s, m) \<Rightarrow>
    case display_surface_publish s (Some no_rect) (Some 0) of (_, s, Some r1, Some f1) \<Rightarrow>
    case display_surface_fill_rect s 0 0 1 1 5 m of Some (_, s, m2) \<Rightarrow>
    case display_surface_fill_rect s 2 0 1 1 5 m2 of Some (_, s, m3) \<Rightarrow>
    case display_surface_publish s (Some no_rect) (Some 0) of (_, s, Some r2, Some f2) \<Rightarrow>
      (flush_row m f1 r1 [0, 0, 0], flush_row m3 f2 r2 (flush_row m f1 r1 [0, 0, 0]))) = ([0, 7, 0], [5, 0, 5])"
  by (simp add: surface_compute display_surface_publish_def display_surface_enter_atomic_def display_surface_leave_atomic_def
      display_surface_clear_damage_def flush_row_def no_rect_def Let_def)

text \<open>A width that is too large by one overflows the addition of the clipping.\<close>

lemma wide_rect_overflows: "display_surface_fill_rect (Some demo_surface) 1 0 (2 ^ 31 - 1) 1 7 demo_memory = None"
  by (simp add: surface_compute)

end
