(* ===== verification/Display_Demo.thy ===== *)
theory Display_Demo
  imports Display_Surface_Props
begin

text \<open>
  The display layer of \<open>kernel/runtime_display_demo.c\<close> over the drawing surface: text, the start picture in its four
  layouts, publication and the flush to the panel. The panel and the touch controller are devices: their drivers are functions on a
  device state. The front, the back and the glyph buffer are the arrays at the addresses 1, 2 and 3. The layout is a macro of the build.
  The theorems: the layouts draw the same picture, and no operation leaves its arrays.
\<close>

unbundle bit_operations_syntax

section \<open>Data\<close>

definition DISPLAY_DEMO_BACKGROUND :: u16 where "DISPLAY_DEMO_BACKGROUND = 0xFFFF"
definition DISPLAY_DEMO_FOREGROUND :: u16 where "DISPLAY_DEMO_FOREGROUND = 0"
definition DISPLAY_DEMO_WIDTH :: nat where "DISPLAY_DEMO_WIDTH = 240"
definition DISPLAY_DEMO_HEIGHT :: nat where "DISPLAY_DEMO_HEIGHT = 240"
definition DISPLAY_DEMO_GLYPH_W :: nat where "DISPLAY_DEMO_GLYPH_W = 8"
definition DISPLAY_DEMO_GLYPH_H :: nat where "DISPLAY_DEMO_GLYPH_H = 8"
definition DISPLAY_DEMO_PUBLISH_GRANULARITY :: u32 where "DISPLAY_DEMO_PUBLISH_GRANULARITY = 16"
definition DISPLAY_DEMO_LAYOUT_EXPERIMENT_LOCAL_ARRAYS :: nat where "DISPLAY_DEMO_LAYOUT_EXPERIMENT_LOCAL_ARRAYS = 1"
definition DISPLAY_DEMO_LAYOUT_EXPERIMENT_RODATA_DISPATCH :: nat where "DISPLAY_DEMO_LAYOUT_EXPERIMENT_RODATA_DISPATCH = 2"
definition DISPLAY_DEMO_LAYOUT_EXPERIMENT_SWITCH_DISPATCH :: nat where "DISPLAY_DEMO_LAYOUT_EXPERIMENT_SWITCH_DISPATCH = 3"

definition g_display_front_buffer :: address where "g_display_front_buffer = 1"
definition g_display_back_buffer :: address where "g_display_back_buffer = 2"
definition g_display_glyph_buffer :: address where "g_display_glyph_buffer = 3"

definition g_google_blue :: u16 where "g_google_blue = 0x001F"
definition g_google_red :: u16 where "g_google_red = 0xF800"
definition g_google_yellow :: u16 where "g_google_yellow = 0xFFE0"
definition g_google_green :: u16 where "g_google_green = 0x07E0"

text \<open>The drivers; the pixels to flush are those of the rectangle, row by row.\<close>

record 'p panel_ops =
  po_init :: "'p \<Rightarrow> 'p"
  po_touch_init :: "'p \<Rightarrow> 'p"
  po_fill_screen :: "u16 \<Rightarrow> 'p \<Rightarrow> 'p"
  po_set_madctl :: "u8 \<Rightarrow> 'p \<Rightarrow> 'p"
  po_flush_rect_pixels :: "u16 list \<Rightarrow> nat \<Rightarrow> display_rect \<Rightarrow> 'p \<Rightarrow> 'p"

record 'p display_demo =
  g_display_surface :: "unit display_surface"
  g_display_memory :: pixel_memory
  g_display_last_published_tick :: u32
  g_display_ready_flag :: u32
  g_display_initialized :: bool
  g_display_panel :: 'p

definition g_display_demo_font8x8 :: "u8 list list" where
  "g_display_demo_font8x8 =
     [[0x00, 0x00, 0x00, 0x00, 0x00, 0x00, 0x00, 0x00], [0x18, 0x3C, 0x3C, 0x18, 0x18, 0x00, 0x18, 0x00],
      [0x36, 0x36, 0x00, 0x00, 0x00, 0x00, 0x00, 0x00], [0x36, 0x36, 0x7F, 0x36, 0x7F, 0x36, 0x36, 0x00],
      [0x18, 0x3E, 0x60, 0x3C, 0x06, 0x7C, 0x18, 0x00], [0x00, 0x63, 0x63, 0x08, 0x10, 0x63, 0x63, 0x00],
      [0x1C, 0x36, 0x1C, 0x3B, 0x6E, 0x66, 0x3B, 0x00], [0x06, 0x06, 0x03, 0x00, 0x00, 0x00, 0x00, 0x00],
      [0x18, 0x0C, 0x06, 0x06, 0x06, 0x0C, 0x18, 0x00], [0x18, 0x30, 0x60, 0x60, 0x60, 0x30, 0x18, 0x00],
      [0x00, 0x66, 0x3C, 0xFF, 0x3C, 0x66, 0x00, 0x00], [0x00, 0x18, 0x18, 0x7E, 0x18, 0x18, 0x00, 0x00],
      [0x00, 0x00, 0x00, 0x00, 0x00, 0x18, 0x18, 0x0C], [0x00, 0x00, 0x00, 0x7E, 0x00, 0x00, 0x00, 0x00],
      [0x00, 0x00, 0x00, 0x00, 0x00, 0x18, 0x18, 0x00], [0x60, 0x60, 0x30, 0x18, 0x0C, 0x06, 0x06, 0x00],
      [0x3C, 0x66, 0x6E, 0x7E, 0x76, 0x66, 0x3C, 0x00], [0x18, 0x38, 0x18, 0x18, 0x18, 0x18, 0x7E, 0x00],
      [0x3C, 0x66, 0x06, 0x0C, 0x18, 0x30, 0x7E, 0x00], [0x3C, 0x66, 0x06, 0x3C, 0x06, 0x66, 0x3C, 0x00],
      [0x06, 0x0E, 0x1E, 0x36, 0x7F, 0x06, 0x06, 0x00], [0x7E, 0x60, 0x7C, 0x06, 0x06, 0x66, 0x3C, 0x00],
      [0x1C, 0x30, 0x60, 0x7C, 0x66, 0x66, 0x3C, 0x00], [0x7E, 0x06, 0x0C, 0x18, 0x30, 0x30, 0x30, 0x00],
      [0x3C, 0x66, 0x66, 0x3C, 0x66, 0x66, 0x3C, 0x00], [0x3C, 0x66, 0x66, 0x3E, 0x06, 0x0C, 0x38, 0x00],
      [0x00, 0x18, 0x18, 0x00, 0x18, 0x18, 0x00, 0x00], [0x00, 0x18, 0x18, 0x00, 0x18, 0x18, 0x0C, 0x00],
      [0x0C, 0x18, 0x30, 0x60, 0x30, 0x18, 0x0C, 0x00], [0x00, 0x00, 0x7E, 0x00, 0x7E, 0x00, 0x00, 0x00],
      [0x30, 0x18, 0x0C, 0x06, 0x0C, 0x18, 0x30, 0x00], [0x3C, 0x66, 0x06, 0x0C, 0x18, 0x00, 0x18, 0x00],
      [0x3C, 0x66, 0x6E, 0x6E, 0x60, 0x3E, 0x00, 0x00], [0x18, 0x3C, 0x66, 0x66, 0x7E, 0x66, 0x66, 0x00],
      [0x7C, 0x66, 0x66, 0x7C, 0x66, 0x66, 0x7C, 0x00], [0x3C, 0x66, 0x60, 0x60, 0x60, 0x66, 0x3C, 0x00],
      [0x78, 0x6C, 0x66, 0x66, 0x66, 0x6C, 0x78, 0x00], [0x7E, 0x60, 0x60, 0x78, 0x60, 0x60, 0x7E, 0x00],
      [0x7E, 0x60, 0x60, 0x78, 0x60, 0x60, 0x60, 0x00], [0x3C, 0x66, 0x60, 0x6E, 0x66, 0x66, 0x3C, 0x00],
      [0x66, 0x66, 0x66, 0x7E, 0x66, 0x66, 0x66, 0x00], [0x3C, 0x18, 0x18, 0x18, 0x18, 0x18, 0x3C, 0x00],
      [0x1E, 0x0C, 0x0C, 0x0C, 0x0C, 0x6C, 0x38, 0x00], [0x66, 0x6C, 0x78, 0x70, 0x78, 0x6C, 0x66, 0x00],
      [0x60, 0x60, 0x60, 0x60, 0x60, 0x60, 0x7E, 0x00], [0x63, 0x77, 0x7F, 0x6B, 0x63, 0x63, 0x63, 0x00],
      [0x66, 0x76, 0x7E, 0x7E, 0x7E, 0x6E, 0x66, 0x00], [0x3C, 0x66, 0x66, 0x66, 0x66, 0x66, 0x3C, 0x00],
      [0x7C, 0x66, 0x66, 0x7C, 0x60, 0x60, 0x60, 0x00], [0x3C, 0x66, 0x66, 0x66, 0x66, 0x3C, 0x0E, 0x07],
      [0x7C, 0x66, 0x66, 0x7C, 0x78, 0x6C, 0x66, 0x00], [0x3C, 0x66, 0x30, 0x18, 0x0C, 0x66, 0x3C, 0x00],
      [0x7E, 0x5A, 0x18, 0x18, 0x18, 0x18, 0x18, 0x00], [0x66, 0x66, 0x66, 0x66, 0x66, 0x66, 0x3C, 0x00],
      [0x66, 0x66, 0x66, 0x66, 0x66, 0x3C, 0x18, 0x00], [0x63, 0x63, 0x63, 0x6B, 0x7F, 0x77, 0x63, 0x00],
      [0x66, 0x66, 0x3C, 0x18, 0x3C, 0x66, 0x66, 0x00], [0x66, 0x66, 0x66, 0x3C, 0x18, 0x18, 0x18, 0x00],
      [0x7E, 0x06, 0x0C, 0x18, 0x30, 0x60, 0x7E, 0x00], [0x3C, 0x30, 0x30, 0x30, 0x30, 0x30, 0x3C, 0x00],
      [0x06, 0x0C, 0x18, 0x30, 0x60, 0xC0, 0x80, 0x00], [0x3C, 0x0C, 0x0C, 0x0C, 0x0C, 0x0C, 0x3C, 0x00],
      [0x18, 0x3C, 0x66, 0x00, 0x00, 0x00, 0x00, 0x00], [0x00, 0x00, 0x00, 0x00, 0x00, 0x00, 0x00, 0xFF],
      [0x30, 0x30, 0x18, 0x00, 0x00, 0x00, 0x00, 0x00], [0x00, 0x00, 0x3C, 0x06, 0x3E, 0x66, 0x3E, 0x00],
      [0x60, 0x60, 0x7C, 0x66, 0x66, 0x66, 0x7C, 0x00], [0x00, 0x00, 0x3C, 0x60, 0x60, 0x66, 0x3C, 0x00],
      [0x06, 0x06, 0x3E, 0x66, 0x66, 0x66, 0x3E, 0x00], [0x00, 0x00, 0x3C, 0x66, 0x7E, 0x60, 0x3C, 0x00],
      [0x1C, 0x30, 0x78, 0x30, 0x30, 0x30, 0x30, 0x00], [0x00, 0x00, 0x3E, 0x66, 0x66, 0x3E, 0x06, 0x3C],
      [0x60, 0x60, 0x7C, 0x66, 0x66, 0x66, 0x66, 0x00], [0x18, 0x00, 0x38, 0x18, 0x18, 0x18, 0x3C, 0x00],
      [0x06, 0x00, 0x06, 0x06, 0x06, 0x06, 0x06, 0x3C], [0x60, 0x60, 0x66, 0x6C, 0x78, 0x6C, 0x66, 0x00],
      [0x30, 0x30, 0x30, 0x30, 0x30, 0x30, 0x1C, 0x00], [0x00, 0x00, 0x66, 0x7F, 0x7F, 0x6B, 0x63, 0x00],
      [0x00, 0x00, 0x7C, 0x66, 0x66, 0x66, 0x66, 0x00], [0x00, 0x00, 0x3C, 0x66, 0x66, 0x66, 0x3C, 0x00],
      [0x00, 0x00, 0x7C, 0x66, 0x66, 0x7C, 0x60, 0x60], [0x00, 0x00, 0x3E, 0x66, 0x66, 0x3E, 0x06, 0x06],
      [0x00, 0x00, 0x7C, 0x66, 0x60, 0x60, 0x60, 0x00], [0x00, 0x00, 0x3E, 0x60, 0x3C, 0x06, 0x7C, 0x00],
      [0x30, 0x30, 0x78, 0x30, 0x30, 0x30, 0x1C, 0x00], [0x00, 0x00, 0x66, 0x66, 0x66, 0x66, 0x3E, 0x00],
      [0x00, 0x00, 0x66, 0x66, 0x66, 0x3C, 0x18, 0x00], [0x00, 0x00, 0x63, 0x6B, 0x7F, 0x3E, 0x36, 0x00],
      [0x00, 0x00, 0x66, 0x3C, 0x18, 0x3C, 0x66, 0x00], [0x00, 0x00, 0x66, 0x66, 0x66, 0x3E, 0x06, 0x3C],
      [0x00, 0x00, 0x7E, 0x0C, 0x18, 0x30, 0x7E, 0x00], [0x0C, 0x18, 0x18, 0x70, 0x18, 0x18, 0x0C, 0x00],
      [0x18, 0x18, 0x18, 0x18, 0x18, 0x18, 0x18, 0x00], [0x30, 0x18, 0x18, 0x0E, 0x18, 0x18, 0x30, 0x00],
      [0x31, 0x6B, 0x46, 0x00, 0x00, 0x00, 0x00, 0x00], [0xFF, 0xFF, 0xFF, 0xFF, 0xFF, 0xFF, 0xFF, 0xFF]]"

section \<open>Drawing\<close>

text \<open>A call of the surface.\<close>

definition on_surface ::
  "'p display_demo \<Rightarrow> (unit display_surface ptr \<Rightarrow> pixel_memory \<Rightarrow> (int \<times> unit display_surface ptr \<times> pixel_memory) option) \<Rightarrow> (int \<times> 'p display_demo) option" where
  "on_surface d f =
     (case f (Some (g_display_surface d)) (g_display_memory d) of
        Some (status, Some s, m) \<Rightarrow> Some (status, d\<lparr>g_display_surface := s, g_display_memory := m\<rparr>)
      | _ \<Rightarrow> None)"

definition draw_fill_rect :: "int \<Rightarrow> int \<Rightarrow> int \<Rightarrow> int \<Rightarrow> u16 \<Rightarrow> 'p display_demo \<Rightarrow> (int \<times> 'p display_demo) option" where
  "draw_fill_rect x y w h color d = on_surface d (\<lambda>s. display_surface_fill_rect s x y w h color)"

definition runtime_display_demo_layout_mode_name :: "nat \<Rightarrow> string" where
  "runtime_display_demo_layout_mode_name layout =
     (if layout = DISPLAY_DEMO_LAYOUT_EXPERIMENT_LOCAL_ARRAYS then ''local_arrays''
      else if layout = DISPLAY_DEMO_LAYOUT_EXPERIMENT_RODATA_DISPATCH then ''rodata_dispatch''
      else if layout = DISPLAY_DEMO_LAYOUT_EXPERIMENT_SWITCH_DISPATCH then ''switch_dispatch'' else ''stable_explicit'')"

definition runtime_display_demo_clear_backbuffer :: "u16 \<Rightarrow> 'p display_demo \<Rightarrow> 'p display_demo option" where
  "runtime_display_demo_clear_backbuffer color d =
     map_option snd (draw_fill_rect 0 0 (int DISPLAY_DEMO_WIDTH) (int DISPLAY_DEMO_HEIGHT) color d)"

definition runtime_display_demo_lookup_glyph :: "char \<Rightarrow> u8 list ptr" where
  "runtime_display_demo_lookup_glyph ch =
     (let uch = (of_char ch :: nat) in if uch < 32 \<or> uch > 127 then None else Some (g_display_demo_font8x8 ! (uch - 32)))"

definition runtime_display_demo_make_glyph_pixels :: "u8 list ptr \<Rightarrow> u16 \<Rightarrow> u16 \<Rightarrow> address \<Rightarrow> pixel_memory \<Rightarrow> pixel_memory option" where
  "runtime_display_demo_make_glyph_pixels bitmap fg bg out_pixels m =
     (if out_pixels = 0 then Some m
      else each (\<lambda>row. let bits = (case bitmap of None \<Rightarrow> 0 | Some b \<Rightarrow> b ! row) in
        each (\<lambda>col. put_pixel out_pixels (row * DISPLAY_DEMO_GLYPH_W + col) (if bits AND drop_bit col 0x80 \<noteq> 0 then fg else bg))
          [0..<DISPLAY_DEMO_GLYPH_W]) [0..<DISPLAY_DEMO_GLYPH_H] m)"

definition runtime_display_demo_draw_fast_char_at :: "nat \<Rightarrow> nat \<Rightarrow> char \<Rightarrow> u16 \<Rightarrow> u16 \<Rightarrow> 'p display_demo \<Rightarrow> 'p display_demo option" where
  "runtime_display_demo_draw_fast_char_at x y ch fg bg d = do {
     m \<leftarrow> runtime_display_demo_make_glyph_pixels (runtime_display_demo_lookup_glyph ch) fg bg g_display_glyph_buffer (g_display_memory d);
     map_option snd (on_surface (d\<lparr>g_display_memory := m\<rparr>) (\<lambda>s. display_surface_blit_rgb565 s (int x) (int y)
       (int DISPLAY_DEMO_GLYPH_W) (int DISPLAY_DEMO_GLYPH_H) g_display_glyph_buffer DISPLAY_DEMO_GLYPH_W)) }"

text \<open>The loop over the characters of the text.\<close>

fun draw_chars :: "nat \<Rightarrow> nat \<Rightarrow> string \<Rightarrow> u16 \<Rightarrow> u16 \<Rightarrow> 'p display_demo \<Rightarrow> 'p display_demo option" where
  "draw_chars cursor_x y [] fg bg d = Some d"
| "draw_chars cursor_x y (ch # text) fg bg d = do {
     d \<leftarrow> runtime_display_demo_draw_fast_char_at cursor_x y ch fg bg d;
     draw_chars (uint16 (int (cursor_x + DISPLAY_DEMO_GLYPH_W))) y text fg bg d }"

definition runtime_display_demo_draw_fast_text_at :: "nat \<Rightarrow> nat \<Rightarrow> string ptr \<Rightarrow> u16 \<Rightarrow> u16 \<Rightarrow> 'p display_demo \<Rightarrow> 'p display_demo option" where
  "runtime_display_demo_draw_fast_text_at x y text fg bg d =
     (case text of None \<Rightarrow> Some d | Some text \<Rightarrow> draw_chars x y (cstr text) fg bg d)"

definition runtime_display_demo_blit_scaled_glyph :: "nat \<Rightarrow> nat \<Rightarrow> address \<Rightarrow> nat \<Rightarrow> 'p display_demo \<Rightarrow> 'p display_demo option" where
  "runtime_display_demo_blit_scaled_glyph x y pixels scale =
     each (\<lambda>row. each (\<lambda>y_repeat. each (\<lambda>col d. do {
       pixel \<leftarrow> get_pixel pixels (row * DISPLAY_DEMO_GLYPH_W + col) (g_display_memory d);
       each (\<lambda>x_repeat d. map_option snd (draw_fill_rect (int (x + col * scale + x_repeat)) (int (y + row * scale + y_repeat)) 1 1 pixel d))
         [0..<scale] d }) [0..<DISPLAY_DEMO_GLYPH_W]) [0..<scale]) [0..<DISPLAY_DEMO_GLYPH_H]"

definition runtime_display_demo_draw_google_letter :: "nat \<Rightarrow> nat \<Rightarrow> string ptr \<Rightarrow> u16 \<Rightarrow> nat \<Rightarrow> 'p display_demo \<Rightarrow> 'p display_demo option" where
  "runtime_display_demo_draw_google_letter x y text color scale d =
     (case text of
        None \<Rightarrow> Some d
      | Some text \<Rightarrow>
          if cchar text 0 = NUL then Some d
          else do {
            m \<leftarrow> runtime_display_demo_make_glyph_pixels (runtime_display_demo_lookup_glyph (cchar text 0)) color DISPLAY_DEMO_BACKGROUND
              g_display_glyph_buffer (g_display_memory d);
            runtime_display_demo_blit_scaled_glyph x y g_display_glyph_buffer scale (d\<lparr>g_display_memory := m\<rparr>) })"

section \<open>The start picture\<close>

definition runtime_display_demo_google_color_by_index :: "nat \<Rightarrow> u16" where
  "runtime_display_demo_google_color_by_index index =
     (if index = 0 then g_google_blue else if index = 1 then g_google_red else if index = 2 then g_google_yellow
      else if index = 3 then g_google_blue else if index = 4 then g_google_green else if index = 5 then g_google_red
      else DISPLAY_DEMO_FOREGROUND)"

text \<open>The origin, the width of a glyph and the scale.\<close>

definition runtime_display_demo_prepare_google_origin :: "nat \<times> nat \<times> nat \<times> nat" where
  "runtime_display_demo_prepare_google_origin =
     (let local_glyph_scale = 3; local_glyph_width = DISPLAY_DEMO_GLYPH_W * local_glyph_scale;
          glyph_height = DISPLAY_DEMO_GLYPH_H * local_glyph_scale; text_width = local_glyph_width * 6 in
      (uint16 (int ((DISPLAY_DEMO_WIDTH - text_width) div 2)), uint16 (int ((DISPLAY_DEMO_HEIGHT - glyph_height) div 2)),
       local_glyph_width, local_glyph_scale))"

definition runtime_display_demo_draw_google_wordmark_stable_explicit :: "'p display_demo \<Rightarrow> 'p display_demo option" where
  "runtime_display_demo_draw_google_wordmark_stable_explicit d =
     (let (origin_x, origin_y, glyph_width, glyph_scale) = runtime_display_demo_prepare_google_origin in do {
      d \<leftarrow> runtime_display_demo_draw_google_letter origin_x origin_y (Some ''G'') g_google_blue glyph_scale d;
      d \<leftarrow> runtime_display_demo_draw_google_letter (uint16 (int (origin_x + glyph_width))) origin_y (Some ''o'') g_google_red glyph_scale d;
      d \<leftarrow> runtime_display_demo_draw_google_letter (uint16 (int (origin_x + glyph_width * 2))) origin_y (Some ''o'') g_google_yellow glyph_scale d;
      d \<leftarrow> runtime_display_demo_draw_google_letter (uint16 (int (origin_x + glyph_width * 3))) origin_y (Some ''g'') g_google_blue glyph_scale d;
      d \<leftarrow> runtime_display_demo_draw_google_letter (uint16 (int (origin_x + glyph_width * 4))) origin_y (Some ''l'') g_google_green glyph_scale d;
      runtime_display_demo_draw_google_letter (uint16 (int (origin_x + glyph_width * 5))) origin_y (Some ''e'') g_google_red glyph_scale d })"

text \<open>The loop that the other three layouts share.\<close>

definition draw_google_letters :: "string list \<Rightarrow> (nat \<Rightarrow> u16) \<Rightarrow> 'p display_demo \<Rightarrow> 'p display_demo option" where
  "draw_google_letters letters color d =
     (let (origin_x, origin_y, glyph_width, glyph_scale) = runtime_display_demo_prepare_google_origin in
      each (\<lambda>index. runtime_display_demo_draw_google_letter (uint16 (int (origin_x + glyph_width * index))) origin_y (Some (letters ! index))
        (color index) glyph_scale) [0..<6] d)"

definition runtime_display_demo_draw_google_wordmark_local_arrays :: "'p display_demo \<Rightarrow> 'p display_demo option" where
  "runtime_display_demo_draw_google_wordmark_local_arrays =
     (let letters = [''G'', ''o'', ''o'', ''g'', ''l'', ''e'']; colors = [0x001F, 0xF800, 0xFFE0, 0x001F, 0x07E0, 0xF800] in
      draw_google_letters letters (\<lambda>index. colors ! index))"

definition runtime_display_demo_draw_google_wordmark_rodata_dispatch :: "'p display_demo \<Rightarrow> 'p display_demo option" where
  "runtime_display_demo_draw_google_wordmark_rodata_dispatch =
     (let letters = [''G'', ''o'', ''o'', ''g'', ''l'', ''e'']; colors = [0x001F, 0xF800, 0xFFE0, 0x001F, 0x07E0, 0xF800] in
      draw_google_letters letters (\<lambda>index. colors ! index))"

definition runtime_display_demo_draw_google_wordmark_switch_dispatch :: "'p display_demo \<Rightarrow> 'p display_demo option" where
  "runtime_display_demo_draw_google_wordmark_switch_dispatch =
     (let letters = [''G'', ''o'', ''o'', ''g'', ''l'', ''e''] in draw_google_letters letters runtime_display_demo_google_color_by_index)"

definition runtime_display_demo_draw_google_wordmark :: "nat \<Rightarrow> 'p panel_ops \<Rightarrow> 'p display_demo \<Rightarrow> 'p display_demo option" where
  "runtime_display_demo_draw_google_wordmark layout ops d = do {
     d \<leftarrow> runtime_display_demo_clear_backbuffer DISPLAY_DEMO_BACKGROUND (d\<lparr>g_display_panel := po_set_madctl ops 0x08 (g_display_panel d)\<rparr>);
     if layout = DISPLAY_DEMO_LAYOUT_EXPERIMENT_LOCAL_ARRAYS then runtime_display_demo_draw_google_wordmark_local_arrays d
     else if layout = DISPLAY_DEMO_LAYOUT_EXPERIMENT_RODATA_DISPATCH then runtime_display_demo_draw_google_wordmark_rodata_dispatch d
     else if layout = DISPLAY_DEMO_LAYOUT_EXPERIMENT_SWITCH_DISPATCH then runtime_display_demo_draw_google_wordmark_switch_dispatch d
     else runtime_display_demo_draw_google_wordmark_stable_explicit d }"

section \<open>The interface\<close>

text \<open>
  The reads of the panel driver (\<open>gc9a01_write_rect_stream_pixels\<close>) from a pointer into a buffer: the rows of a rectangle, with a
  stride. \<open>None\<close>: a read is outside the buffer.
\<close>

definition read_rect :: "address \<Rightarrow> nat \<Rightarrow> nat \<Rightarrow> nat \<Rightarrow> nat \<Rightarrow> pixel_memory \<Rightarrow> u16 list option" where
  "read_rect pixels start stride width height m =
     each (\<lambda>row. each (\<lambda>col read. map_option (\<lambda>v. read @ [v]) (get_pixel pixels (start + row * stride + col) m)) [0..<width]) [0..<height] []"

definition runtime_display_demo_flush_to_panel ::
  "'p panel_ops \<Rightarrow> address \<Rightarrow> display_rect ptr \<Rightarrow> 'p display_demo \<Rightarrow> 'p display_demo option" where
  "runtime_display_demo_flush_to_panel ops front_pixels rect d =
     (case rect of
        None \<Rightarrow> Some d
      | Some r \<Rightarrow>
          if front_pixels = 0 \<or> dr_width r = 0 \<or> dr_height r = 0 then Some d
          else do {
            rect_pixels \<leftarrow> read_rect front_pixels (dr_y r * DISPLAY_DEMO_WIDTH + dr_x r) DISPLAY_DEMO_WIDTH (dr_width r) (dr_height r)
              (g_display_memory d);
            Some (d\<lparr>g_display_panel := po_flush_rect_pixels ops rect_pixels DISPLAY_DEMO_WIDTH r (g_display_panel d)\<rparr>) })"

definition runtime_display_demo_render_frame :: "u32 \<Rightarrow> 'p display_demo \<Rightarrow> 'p display_demo" where
  "runtime_display_demo_render_frame tick_value d = d\<lparr>g_display_last_published_tick := tick_value\<rparr>"

text \<open>Publication into local variables.\<close>

definition publish_demo :: "'p panel_ops \<Rightarrow> 'p display_demo \<Rightarrow> (int \<times> 'p display_demo) option" where
  "publish_demo ops d =
     (case display_surface_publish (Some (g_display_surface d)) (Some no_rect) (Some 0) of
        (status, Some s, rect, Some front_pixels) \<Rightarrow>
          (if status = RUNTIME_SYSCALL_STATUS_OK
           then map_option (\<lambda>d. (status, d)) (runtime_display_demo_flush_to_panel ops front_pixels rect (d\<lparr>g_display_surface := s\<rparr>))
           else Some (status, d\<lparr>g_display_surface := s\<rparr>))
      | _ \<Rightarrow> Some (RUNTIME_SYSCALL_STATUS_ENOENT, d))"

definition runtime_display_demo_present_pending :: "'p panel_ops \<Rightarrow> 'p display_demo \<Rightarrow> 'p display_demo option" where
  "runtime_display_demo_present_pending ops d = map_option snd (publish_demo ops d)"

definition runtime_display_demo_init :: "nat \<Rightarrow> 'p panel_ops \<Rightarrow> 'p display_demo \<Rightarrow> 'p display_demo option" where
  "runtime_display_demo_init layout ops d =
     (if g_display_initialized d then Some d
      else let panel = po_fill_screen ops DISPLAY_DEMO_BACKGROUND (po_touch_init ops (po_init ops (g_display_panel d)));
               s = the (display_surface_init (Some (g_display_surface d)) DISPLAY_DEMO_WIDTH DISPLAY_DEMO_HEIGHT DISPLAY_DEMO_WIDTH
                 g_display_front_buffer g_display_back_buffer None ()) in do {
        d \<leftarrow> runtime_display_demo_clear_backbuffer DISPLAY_DEMO_BACKGROUND (d\<lparr>g_display_panel := panel, g_display_surface := s\<rparr>);
        m \<leftarrow> each (\<lambda>i. put_pixel g_display_front_buffer i DISPLAY_DEMO_BACKGROUND) [0..<DISPLAY_DEMO_WIDTH * DISPLAY_DEMO_HEIGHT] (g_display_memory d);
        let d = d\<lparr>g_display_memory := m, g_display_surface := the (display_surface_clear_damage (Some (g_display_surface d))),
              g_display_last_published_tick := 0, g_display_initialized := True, g_display_ready_flag := 1\<rparr> in do {
        d \<leftarrow> runtime_display_demo_draw_google_wordmark layout ops d;
        d \<leftarrow> runtime_display_demo_present_pending ops d;
        Some (runtime_display_demo_render_frame 0 d) } })"

definition runtime_display_demo_publish_tick :: "u32 \<Rightarrow> 'p display_demo \<Rightarrow> 'p display_demo" where
  "runtime_display_demo_publish_tick tick_value d =
     (if \<not> g_display_initialized d then d
      else if tick_value - g_display_last_published_tick d < DISPLAY_DEMO_PUBLISH_GRANULARITY then d
      else runtime_display_demo_render_frame tick_value d)"

definition runtime_display_demo_ready :: "'p display_demo \<Rightarrow> u32" where
  "runtime_display_demo_ready d = g_display_ready_flag d"

definition runtime_display_demo_clear :: "u16 \<Rightarrow> 'p display_demo \<Rightarrow> 'p display_demo option" where
  "runtime_display_demo_clear color d =
     (if \<not> g_display_initialized d then Some d
      else map_option snd (draw_fill_rect 0 0 (int DISPLAY_DEMO_WIDTH) (int DISPLAY_DEMO_HEIGHT) color d))"

definition runtime_display_demo_fill_rect :: "int \<Rightarrow> int \<Rightarrow> int \<Rightarrow> int \<Rightarrow> u16 \<Rightarrow> 'p display_demo \<Rightarrow> (int \<times> 'p display_demo) option" where
  "runtime_display_demo_fill_rect x y w h color d =
     (if \<not> g_display_initialized d then Some (RUNTIME_SYSCALL_STATUS_EINVAL, d) else draw_fill_rect x y w h color d)"

definition runtime_display_demo_blit_rgb565 ::
  "int \<Rightarrow> int \<Rightarrow> int \<Rightarrow> int \<Rightarrow> address \<Rightarrow> nat \<Rightarrow> 'p display_demo \<Rightarrow> (int \<times> 'p display_demo) option" where
  "runtime_display_demo_blit_rgb565 x y w h pixels source_stride d =
     (if \<not> g_display_initialized d then Some (RUNTIME_SYSCALL_STATUS_EINVAL, d)
      else on_surface d (\<lambda>s. display_surface_blit_rgb565 s x y w h pixels source_stride))"

definition runtime_display_demo_draw_text :: "int \<Rightarrow> int \<Rightarrow> string ptr \<Rightarrow> u16 \<Rightarrow> u16 \<Rightarrow> 'p display_demo \<Rightarrow> 'p display_demo option" where
  "runtime_display_demo_draw_text x y text fg bg d =
     (if x < 0 \<or> y < 0 then Some d else runtime_display_demo_draw_fast_text_at (uint16 x) (uint16 y) text fg bg d)"

definition runtime_display_demo_draw_char :: "int \<Rightarrow> int \<Rightarrow> char \<Rightarrow> u16 \<Rightarrow> u16 \<Rightarrow> 'p display_demo \<Rightarrow> 'p display_demo option" where
  "runtime_display_demo_draw_char x y ch fg bg d =
     (if x < 0 \<or> y < 0 then Some d else runtime_display_demo_draw_fast_char_at (uint16 x) (uint16 y) ch fg bg d)"

definition runtime_display_demo_has_pending_present :: "display_rect ptr \<Rightarrow> 'p display_demo \<Rightarrow> int \<times> display_rect ptr" where
  "runtime_display_demo_has_pending_present rect d =
     (if \<not> g_display_initialized d then (0, rect) else display_surface_has_pending_present (Some (g_display_surface d)) rect)"

definition runtime_display_demo_present :: "'p panel_ops \<Rightarrow> 'p display_demo \<Rightarrow> (int \<times> 'p display_demo) option" where
  "runtime_display_demo_present ops d =
     (if \<not> g_display_initialized d then Some (RUNTIME_SYSCALL_STATUS_EINVAL, d)
      else do {
        (status, d) \<leftarrow> publish_demo ops d;
        Some (if status \<noteq> RUNTIME_SYSCALL_STATUS_OK then RUNTIME_SYSCALL_STATUS_ENOENT else RUNTIME_SYSCALL_STATUS_OK, d) })"

definition runtime_display_demo_flush :: "'p panel_ops \<Rightarrow> 'p display_demo \<Rightarrow> 'p display_demo option" where
  "runtime_display_demo_flush ops d = map_option snd (runtime_display_demo_present ops d)"

definition runtime_display_demo_surface :: "'p display_demo \<Rightarrow> unit display_surface ptr" where
  "runtime_display_demo_surface d = (if g_display_initialized d then Some (g_display_surface d) else None)"

section \<open>The layouts draw the same picture\<close>

lemma upt_6: "[0..<6] = [0, 1, 2, 3, 4, 5 :: nat]"
  by (simp add: upt_rec)

lemma google_origin: "runtime_display_demo_prepare_google_origin = (48, 108, 24, 3)"
  by (simp add: runtime_display_demo_prepare_google_origin_def Let_def uint16_def DISPLAY_DEMO_WIDTH_def DISPLAY_DEMO_HEIGHT_def
      DISPLAY_DEMO_GLYPH_W_def DISPLAY_DEMO_GLYPH_H_def)

lemmas wordmark_defs = runtime_display_demo_draw_google_wordmark_stable_explicit_def draw_google_letters_def google_origin upt_6 uint16_def
  runtime_display_demo_google_color_by_index_def g_google_blue_def g_google_red_def g_google_yellow_def g_google_green_def

lemma letters_explicit:
  assumes "map color [0..<6] = [g_google_blue, g_google_red, g_google_yellow, g_google_blue, g_google_green, g_google_red]"
  shows "draw_google_letters [''G'', ''o'', ''o'', ''g'', ''l'', ''e''] color d = runtime_display_demo_draw_google_wordmark_stable_explicit d"
  using assms by (simp add: wordmark_defs)

lemma wordmark_layouts_agree:
  fixes d :: "'p display_demo"
  shows "runtime_display_demo_draw_google_wordmark layout ops d = runtime_display_demo_draw_google_wordmark 0 ops d"
proof -
  have "runtime_display_demo_draw_google_wordmark_local_arrays d = runtime_display_demo_draw_google_wordmark_stable_explicit d"
    "runtime_display_demo_draw_google_wordmark_rodata_dispatch d = runtime_display_demo_draw_google_wordmark_stable_explicit d"
    "runtime_display_demo_draw_google_wordmark_switch_dispatch d = runtime_display_demo_draw_google_wordmark_stable_explicit d" for d :: "'p display_demo"
    by (simp_all only: runtime_display_demo_draw_google_wordmark_local_arrays_def runtime_display_demo_draw_google_wordmark_rodata_dispatch_def
        runtime_display_demo_draw_google_wordmark_switch_dispatch_def Let_def,
        (intro letters_explicit, simp add: wordmark_defs)+)
  then show ?thesis
    by (simp add: runtime_display_demo_draw_google_wordmark_def cong: if_cong)
qed

section \<open>No operation leaves its arrays\<close>

definition demo_ok :: "'p display_demo \<Rightarrow> bool" where
  "demo_ok d \<longleftrightarrow> surface_ok (g_display_memory d) (g_display_surface d) \<and>
     ds_width (g_display_surface d) = DISPLAY_DEMO_WIDTH \<and> ds_height (g_display_surface d) = DISPLAY_DEMO_HEIGHT \<and>
     ds_stride (g_display_surface d) = DISPLAY_DEMO_WIDTH \<and>
     {ds_front (g_display_surface d), ds_back (g_display_surface d)} = {g_display_front_buffer, g_display_back_buffer} \<and>
     length (g_display_memory d g_display_glyph_buffer) = DISPLAY_DEMO_GLYPH_W * DISPLAY_DEMO_GLYPH_H"

lemma drawn_demo_ok:
  assumes "demo_ok d" "drawn (g_display_surface d) (g_display_memory d) c s m"
  shows "demo_ok (d\<lparr>g_display_surface := s, g_display_memory := m\<rparr>)"
proof -
  obtain r where s: "s = (g_display_surface d)\<lparr>ds_dirty_rect := r, ds_dirty := True\<rparr>"
    using assms(2) by (auto simp: drawn_def)
  have "g_display_glyph_buffer \<noteq> ds_back (g_display_surface d)"
    using assms(1) by (auto simp: demo_ok_def doubleton_eq_iff g_display_front_buffer_def g_display_back_buffer_def g_display_glyph_buffer_def)
  then show ?thesis
    using assms by (simp add: demo_ok_def drawn_def s same_outside_def)
qed

lemma draw_fill_rect_ok:
  assumes "demo_ok d" "named_rect x y w h"
  shows "\<exists>status d'. draw_fill_rect x y w h color d = Some (status, d') \<and> demo_ok d' \<and> g_display_initialized d' = g_display_initialized d"
proof -
  have "surface_ok (g_display_memory d) (g_display_surface d)"
    using assms(1) by (simp add: demo_ok_def)
  from fill_rect_draws [OF this assms(2), of color] show ?thesis
    using drawn_demo_ok [OF assms(1)] assms(1) by (auto simp: draw_fill_rect_def on_surface_def split: if_splits)
qed

lemma draw_blit_ok:
  assumes "demo_ok d" "named_rect x y w h" "blit_source_ok (g_display_surface d) x y w h pixels ss (g_display_memory d)"
  shows "\<exists>status d'. on_surface d (\<lambda>s. display_surface_blit_rgb565 s x y w h pixels ss) = Some (status, d') \<and> demo_ok d' \<and>
    g_display_initialized d' = g_display_initialized d"
proof -
  have "surface_ok (g_display_memory d) (g_display_surface d)"
    using assms(1) by (simp add: demo_ok_def)
  from blit_rect_draws [OF this assms(2,3)] show ?thesis
    using drawn_demo_ok [OF assms(1)] assms(1) by (auto simp: on_surface_def split: if_splits)
qed

lemma uint16_less: "uint16 i < 2 ^ 16"
  by (simp add: uint16_def nat_less_iff)

lemma lookup_glyph_in_font:
  assumes "runtime_display_demo_lookup_glyph ch = Some b"
  shows "b \<in> set g_display_demo_font8x8 \<and> length b = DISPLAY_DEMO_GLYPH_H"
proof -
  have "length g_display_demo_font8x8 = 96" "\<forall>b \<in> set g_display_demo_font8x8. length b = DISPLAY_DEMO_GLYPH_H"
    by (simp_all add: g_display_demo_font8x8_def DISPLAY_DEMO_GLYPH_H_def)
  moreover have "(of_char ch :: nat) - 32 < 96" "b = g_display_demo_font8x8 ! (of_char ch - 32)"
    using assms by (auto simp: runtime_display_demo_lookup_glyph_def Let_def split: if_splits)
  ultimately show ?thesis
    by (metis nth_mem)
qed

lemma glyph_pixels_ok:
  assumes "length (m g_display_glyph_buffer) = DISPLAY_DEMO_GLYPH_W * DISPLAY_DEMO_GLYPH_H"
  shows "\<exists>m'. runtime_display_demo_make_glyph_pixels bitmap fg bg g_display_glyph_buffer m = Some m' \<and>
    length (m' g_display_glyph_buffer) = DISPLAY_DEMO_GLYPH_W * DISPLAY_DEMO_GLYPH_H \<and> (\<forall>a. a \<noteq> g_display_glyph_buffer \<longrightarrow> m' a = m a)"
proof -
  define P where "P = (\<lambda>(n::nat) m'. length (m' g_display_glyph_buffer) = DISPLAY_DEMO_GLYPH_W * DISPLAY_DEMO_GLYPH_H \<and>
    (\<forall>a. a \<noteq> g_display_glyph_buffer \<longrightarrow> m' a = m a))"
  have start: "P 0 m"
    using assms by (simp add: P_def)
  have row: "\<exists>m2. (let bits = v in each (\<lambda>col. put_pixel g_display_glyph_buffer (row * DISPLAY_DEMO_GLYPH_W + col) (f bits col))
      [0..<DISPLAY_DEMO_GLYPH_W]) m1 = Some m2 \<and> P (Suc row) m2"
    if "row < DISPLAY_DEMO_GLYPH_H" "P row m1" for row m1 and v :: u8 and f
  proof -
    have "\<exists>m2. each (\<lambda>col. put_pixel g_display_glyph_buffer (row * DISPLAY_DEMO_GLYPH_W + col) (f v col)) [0..<DISPLAY_DEMO_GLYPH_W] m1 = Some m2 \<and>
        P DISPLAY_DEMO_GLYPH_W m2"
      using that by (intro each_upt [where P = P])
        (auto simp: P_def put_pixel_def DISPLAY_DEMO_GLYPH_W_def DISPLAY_DEMO_GLYPH_H_def)
    then show ?thesis
      by (simp add: P_def)
  qed
  have "g_display_glyph_buffer \<noteq> 0"
    by (simp add: g_display_glyph_buffer_def)
  then have "\<exists>m'. runtime_display_demo_make_glyph_pixels bitmap fg bg g_display_glyph_buffer m = Some m' \<and> P DISPLAY_DEMO_GLYPH_H m'"
    unfolding runtime_display_demo_make_glyph_pixels_def by (simp only: if_False) (rule each_upt [where P = P, OF start], rule row)
  then show ?thesis
    by (simp add: P_def)
qed


lemma draw_char_ok:
  assumes "demo_ok d" "x < 2 ^ 16" "y < 2 ^ 16"
  shows "\<exists>d'. runtime_display_demo_draw_fast_char_at x y ch fg bg d = Some d' \<and> demo_ok d' \<and> g_display_initialized d' = g_display_initialized d"
proof -
  obtain m where m: "runtime_display_demo_make_glyph_pixels (runtime_display_demo_lookup_glyph ch) fg bg g_display_glyph_buffer
      (g_display_memory d) = Some m" "length (m g_display_glyph_buffer) = DISPLAY_DEMO_GLYPH_W * DISPLAY_DEMO_GLYPH_H"
    "\<forall>a. a \<noteq> g_display_glyph_buffer \<longrightarrow> m a = g_display_memory d a"
    using glyph_pixels_ok assms(1) unfolding demo_ok_def by blast
  let ?d = "d\<lparr>g_display_memory := m\<rparr>" and ?s = "g_display_surface d"
  have other: "g_display_glyph_buffer \<noteq> ds_back ?s" "g_display_glyph_buffer \<noteq> ds_front ?s" "g_display_glyph_buffer \<noteq> 0"
    using assms(1) by (auto simp: demo_ok_def doubleton_eq_iff g_display_front_buffer_def g_display_back_buffer_def g_display_glyph_buffer_def)
  have d: "demo_ok ?d"
    using assms(1) m(2,3) other by (auto simp: demo_ok_def surface_ok_def)
  have n: "named_rect (int x) (int y) 8 8"
    using assms(2,3) by (simp add: named_rect_def is_int32_def)
  have src: "blit_source_ok ?s (int x) (int y) 8 8 g_display_glyph_buffer 8 m"
    using m(2) other by (auto simp: blit_source_ok_def visible_def DISPLAY_DEMO_GLYPH_W_def DISPLAY_DEMO_GLYPH_H_def)
  have "blit_source_ok (g_display_surface ?d) (int x) (int y) 8 8 g_display_glyph_buffer 8 (g_display_memory ?d)"
    using src by simp
  from draw_blit_ok [OF d n this] m(1) show ?thesis
    by (auto simp: runtime_display_demo_draw_fast_char_at_def DISPLAY_DEMO_GLYPH_W_def DISPLAY_DEMO_GLYPH_H_def)
qed

lemma draw_chars_ok:
  "demo_ok d \<Longrightarrow> x < 2 ^ 16 \<Longrightarrow> y < 2 ^ 16 \<Longrightarrow>
   \<exists>d'. draw_chars x y cs fg bg d = Some d' \<and> demo_ok d' \<and> g_display_initialized d' = g_display_initialized d"
proof (induction cs arbitrary: x d)
  case (Cons ch cs)
  from draw_char_ok [OF Cons.prems, of ch fg bg] obtain d' where
    "runtime_display_demo_draw_fast_char_at x y ch fg bg d = Some d'" "demo_ok d'" "g_display_initialized d' = g_display_initialized d"
    by blast
  then show ?case
    using Cons.IH [of d'] Cons.prems(3) uint16_less by simp
qed simp

lemma draw_text_ok:
  assumes "demo_ok d"
  shows "\<exists>d'. runtime_display_demo_draw_text x y text fg bg d = Some d' \<and> demo_ok d' \<and> g_display_initialized d' = g_display_initialized d"
  using draw_chars_ok [OF assms uint16_less uint16_less] assms
  by (auto simp: runtime_display_demo_draw_text_def runtime_display_demo_draw_fast_text_at_def split: option.split)

lemma read_rect_returns:
  assumes "x + width \<le> stride" "y + height \<le> rows" "rows * stride \<le> length (m pixels)"
  shows "\<exists>read. read_rect pixels (y * stride + x) stride width height m = Some read"
proof -
  have "\<exists>read'. map_option (\<lambda>v. read @ [v]) (get_pixel pixels (y * stride + x + row * stride + col) m) = Some read'"
    if "row < height" "col < width" for row col read
  proof -
    have "(y + row) * stride + (x + col) < rows * stride"
      using that assms(1,2) by (intro pixel_bound) simp_all
    then have "y * stride + x + row * stride + col < length (m pixels)"
      using assms(3) by (simp add: algebra_simps)
    then show ?thesis
      by (simp add: get_pixel_def)
  qed
  then have "\<exists>read'. each (\<lambda>col read. map_option (\<lambda>v. read @ [v]) (get_pixel pixels (y * stride + x + row * stride + col) m)) [0..<width] read = Some read' \<and> True"
    if "row < height" for row read
    using that by (intro each_upt [where P = "\<lambda>_ _. True"]) simp_all
  then have "\<exists>read. read_rect pixels (y * stride + x) stride width height m = Some read \<and> True"
    unfolding read_rect_def by - (rule each_upt [where P = "\<lambda>_ _. True"], simp_all)
  then show ?thesis
    by simp
qed

lemma flush_to_panel_returns:
  assumes "demo_ok d" "rect_ok (g_display_surface d) r" "front_pixels \<in> {g_display_front_buffer, g_display_back_buffer}"
  shows "\<exists>panel. runtime_display_demo_flush_to_panel ops front_pixels (Some r) d = Some (d\<lparr>g_display_panel := panel\<rparr>)"
proof -
  have "DISPLAY_DEMO_HEIGHT * DISPLAY_DEMO_WIDTH \<le> length (g_display_memory d front_pixels)"
    "dr_x r + dr_width r \<le> DISPLAY_DEMO_WIDTH" "dr_y r + dr_height r \<le> DISPLAY_DEMO_HEIGHT"
    using assms by (auto simp: demo_ok_def surface_ok_def rect_ok_def doubleton_eq_iff)
  from read_rect_returns [where m = "g_display_memory d", OF this(2,3,1)] obtain read where
    "read_rect front_pixels (dr_y r * DISPLAY_DEMO_WIDTH + dr_x r) DISPLAY_DEMO_WIDTH (dr_width r) (dr_height r) (g_display_memory d) = Some read"
    by blast
  then show ?thesis
    by (auto simp: runtime_display_demo_flush_to_panel_def intro: exI [of _ "g_display_panel d"])
qed

lemma publish_ok:
  assumes "demo_ok d"
  shows "\<exists>status d'. publish_demo ops d = Some (status, d') \<and> demo_ok d' \<and> g_display_initialized d' = g_display_initialized d"
proof -
  let ?s = "g_display_surface d"
  have s: "surface_ok (g_display_memory d) ?s"
    using assms by (simp add: demo_ok_def)
  show ?thesis
  proof (cases "ds_dirty ?s")
    case False
    then have "display_surface_publish (Some ?s) (Some no_rect) (Some 0) = (RUNTIME_SYSCALL_STATUS_ENOENT, Some ?s, Some no_rect, Some 0)"
      by (simp add: display_surface_publish_def)
    then show ?thesis
      using assms by (simp add: publish_demo_def demo_ok_def)
  next
    case True
    from publish_swaps [OF s True, of no_rect 0] obtain s' where
      pub: "display_surface_publish (Some ?s) (Some no_rect) (Some 0) = (RUNTIME_SYSCALL_STATUS_OK, Some s', Some (ds_dirty_rect ?s), Some (ds_back ?s))"
      and s': "ds_front s' = ds_back ?s" "ds_back s' = ds_front ?s" "surface_ok (g_display_memory d) s'"
      "ds_width s' = ds_width ?s" "ds_height s' = ds_height ?s" "ds_stride s' = ds_stride ?s"
      by blast
    moreover have "{ds_back ?s, ds_front ?s} = {g_display_front_buffer, g_display_back_buffer}"
      using assms by (simp add: demo_ok_def insert_commute [of "ds_back ?s"])
    ultimately have d: "demo_ok (d\<lparr>g_display_surface := s'\<rparr>)"
      using assms s' by (simp add: demo_ok_def)
    have "rect_ok s' (ds_dirty_rect ?s)"
      using s True s' by (simp add: surface_ok_def rect_ok_def)
    moreover have "ds_back ?s \<in> {g_display_front_buffer, g_display_back_buffer}"
      using assms by (auto simp: demo_ok_def doubleton_eq_iff)
    ultimately obtain panel where
      "runtime_display_demo_flush_to_panel ops (ds_back ?s) (Some (ds_dirty_rect ?s)) (d\<lparr>g_display_surface := s'\<rparr>) =
        Some (d\<lparr>g_display_surface := s', g_display_panel := panel\<rparr>)"
      using flush_to_panel_returns [OF d, of "ds_dirty_rect ?s"] by auto
    then show ?thesis
      using pub d by (simp add: publish_demo_def demo_ok_def)
  qed
qed

text \<open>
  The calls that applications make after the start. A call fits if the edges of its rectangle are 32-bit integers and the source of a
  copy is another buffer that holds the pixels to copy; the other calls fit with any arguments.
\<close>

datatype display_call =
  Call_Clear u16
| Call_Fill int int int int u16
| Call_Blit int int int int address nat
| Call_Text int int "string ptr" u16 u16
| Call_Char int int char u16 u16
| Call_Present
| Call_Flush
| Call_Tick u32

fun run_call :: "'p panel_ops \<Rightarrow> display_call \<Rightarrow> 'p display_demo \<Rightarrow> 'p display_demo option" where
  "run_call ops (Call_Clear color) d = runtime_display_demo_clear color d"
| "run_call ops (Call_Fill x y w h color) d = map_option snd (runtime_display_demo_fill_rect x y w h color d)"
| "run_call ops (Call_Blit x y w h pixels ss) d = map_option snd (runtime_display_demo_blit_rgb565 x y w h pixels ss d)"
| "run_call ops (Call_Text x y cs fg bg) d = runtime_display_demo_draw_text x y cs fg bg d"
| "run_call ops (Call_Char x y ch fg bg) d = runtime_display_demo_draw_char x y ch fg bg d"
| "run_call ops Call_Present d = map_option snd (runtime_display_demo_present ops d)"
| "run_call ops Call_Flush d = runtime_display_demo_flush ops d"
| "run_call ops (Call_Tick tick) d = Some (runtime_display_demo_publish_tick tick d)"

fun call_fits :: "display_call \<Rightarrow> 'p display_demo \<Rightarrow> bool" where
  "call_fits (Call_Fill x y w h color) d \<longleftrightarrow> named_rect x y w h"
| "call_fits (Call_Blit x y w h pixels ss) d \<longleftrightarrow>
     named_rect x y w h \<and> blit_source_ok (g_display_surface d) x y w h pixels ss (g_display_memory d)"
| "call_fits _ d \<longleftrightarrow> True"

text \<open>Every call of a sequence fits in the state that the calls before it have left.\<close>

fun calls_fit :: "'p panel_ops \<Rightarrow> display_call list \<Rightarrow> 'p display_demo \<Rightarrow> bool" where
  "calls_fit ops [] d \<longleftrightarrow> True"
| "calls_fit ops (call # calls) d \<longleftrightarrow> call_fits call d \<and>
     (case run_call ops call d of None \<Rightarrow> True | Some d' \<Rightarrow> calls_fit ops calls d')"

lemma present_ok:
  assumes "demo_ok d"
  shows "\<exists>status d'. runtime_display_demo_present ops d = Some (status, d') \<and> demo_ok d'"
  using publish_ok [OF assms, of ops] assms by (auto simp: runtime_display_demo_present_def)

lemma run_call_ok:
  assumes "demo_ok d" "call_fits call d"
  shows "\<exists>d'. run_call ops call d = Some d' \<and> demo_ok d'"
proof (cases call)
  case (Call_Clear color)
  have "named_rect 0 0 (int DISPLAY_DEMO_WIDTH) (int DISPLAY_DEMO_HEIGHT)"
    by (simp add: named_rect_def is_int32_def DISPLAY_DEMO_WIDTH_def DISPLAY_DEMO_HEIGHT_def)
  from draw_fill_rect_ok [OF assms(1) this, of color] assms(1) Call_Clear show ?thesis
    by (auto simp: runtime_display_demo_clear_def)
next
  case (Call_Fill x y w h color)
  with draw_fill_rect_ok [OF assms(1), of x y w h color] assms show ?thesis
    by (auto simp: runtime_display_demo_fill_rect_def)
next
  case (Call_Blit x y w h pixels ss)
  with draw_blit_ok [OF assms(1), of x y w h pixels ss] assms show ?thesis
    by (auto simp: runtime_display_demo_blit_rgb565_def)
next
  case (Call_Text x y cs fg bg)
  then show ?thesis
    using draw_text_ok [OF assms(1), of x y cs fg bg] by auto
next
  case (Call_Char x y ch fg bg)
  then show ?thesis
    using draw_char_ok [OF assms(1) uint16_less [of x] uint16_less [of y], of ch fg bg] assms(1)
    by (auto simp: runtime_display_demo_draw_char_def)
next
  case Call_Present
  then show ?thesis
    using present_ok [OF assms(1), of ops] by auto
next
  case Call_Flush
  then show ?thesis
    using present_ok [OF assms(1), of ops] by (auto simp: runtime_display_demo_flush_def)
next
  case (Call_Tick tick)
  then show ?thesis
    using assms(1) by (auto simp: runtime_display_demo_publish_tick_def runtime_display_demo_render_frame_def demo_ok_def)
qed

lemma run_calls_ok: "demo_ok d \<Longrightarrow> calls_fit ops calls d \<Longrightarrow> \<exists>d'. each (run_call ops) calls d = Some d' \<and> demo_ok d'"
proof (induction calls arbitrary: d)
  case (Cons call calls)
  from run_call_ok [OF Cons.prems(1), of call ops] Cons.prems(2) obtain d' where "run_call ops call d = Some d'" "demo_ok d'"
    by auto
  with Cons.IH [of d'] Cons.prems(2) show ?case
    by simp
qed simp

text \<open>The start: the arrays of the program and a display that is not initialised.\<close>

definition demo_boot :: "'p display_demo \<Rightarrow> bool" where
  "demo_boot d \<longleftrightarrow> \<not> g_display_initialized d \<and>
     length (g_display_memory d g_display_front_buffer) = DISPLAY_DEMO_WIDTH * DISPLAY_DEMO_HEIGHT \<and>
     length (g_display_memory d g_display_back_buffer) = DISPLAY_DEMO_WIDTH * DISPLAY_DEMO_HEIGHT \<and>
     length (g_display_memory d g_display_glyph_buffer) = DISPLAY_DEMO_GLYPH_W * DISPLAY_DEMO_GLYPH_H"

lemma small_named: "a < 2 ^ 16 \<Longrightarrow> b < 2 ^ 16 \<Longrightarrow> named_rect (int a) (int b) 1 1"
  by (simp add: named_rect_def is_int32_def)

lemma scaled_glyph_ok:
  assumes "demo_ok d" "x + 8 * scale < 2 ^ 16" "y + 8 * scale < 2 ^ 16"
  shows "\<exists>d'. runtime_display_demo_blit_scaled_glyph x y g_display_glyph_buffer scale d = Some d' \<and> demo_ok d'"
  unfolding runtime_display_demo_blit_scaled_glyph_def
proof (intro each_upt [where P = "\<lambda>_. demo_ok"] assms(1))
  fix row y_repeat col d
  assume i: "row < DISPLAY_DEMO_GLYPH_H" "y_repeat < scale" "col < DISPLAY_DEMO_GLYPH_W" and d: "demo_ok d"
  have "row * DISPLAY_DEMO_GLYPH_W + col < length (g_display_memory d g_display_glyph_buffer)"
    using i d by (auto simp: demo_ok_def DISPLAY_DEMO_GLYPH_W_def DISPLAY_DEMO_GLYPH_H_def)
  then obtain v where v: "get_pixel g_display_glyph_buffer (row * DISPLAY_DEMO_GLYPH_W + col) (g_display_memory d) = Some v"
    by (simp add: get_pixel_def)
  have "\<exists>d'. each (\<lambda>x_repeat d. map_option snd (draw_fill_rect (int (x + col * scale + x_repeat)) (int (y + row * scale + y_repeat)) 1 1 v d))
      [0..<scale] d = Some d' \<and> demo_ok d'"
  proof (intro each_upt [where P = "\<lambda>_. demo_ok"] d)
    fix x_repeat d
    assume x: "x_repeat < scale" and d: "demo_ok d"
    have "col * scale + scale \<le> 8 * scale" "row * scale + scale \<le> 8 * scale"
      using i mult_le_mono1 [of "Suc col" 8 scale] mult_le_mono1 [of "Suc row" 8 scale]
      by (simp_all add: DISPLAY_DEMO_GLYPH_W_def DISPLAY_DEMO_GLYPH_H_def)
    then have "x + col * scale + x_repeat < 2 ^ 16" "y + row * scale + y_repeat < 2 ^ 16"
      using assms(2,3) x i(2) by linarith+
    then have "named_rect (int (x + col * scale + x_repeat)) (int (y + row * scale + y_repeat)) 1 1"
      by (rule small_named)
    from draw_fill_rect_ok [OF d this, of v] show "\<exists>d'. map_option snd (draw_fill_rect (int (x + col * scale + x_repeat))
        (int (y + row * scale + y_repeat)) 1 1 v d) = Some d' \<and> demo_ok d'"
      by auto
  qed
  with v show "\<exists>d'. do { pixel \<leftarrow> get_pixel g_display_glyph_buffer (row * DISPLAY_DEMO_GLYPH_W + col) (g_display_memory d);
      each (\<lambda>x_repeat d. map_option snd (draw_fill_rect (int (x + col * scale + x_repeat)) (int (y + row * scale + y_repeat)) 1 1 pixel d))
        [0..<scale] d } = Some d' \<and> demo_ok d'"
    by simp
qed

lemma glyph_memory_ok:
  assumes "demo_ok d"
  shows "\<exists>m. runtime_display_demo_make_glyph_pixels bitmap fg bg g_display_glyph_buffer (g_display_memory d) = Some m \<and> demo_ok (d\<lparr>g_display_memory := m\<rparr>)"
proof -
  have "g_display_glyph_buffer \<noteq> ds_back (g_display_surface d)" "g_display_glyph_buffer \<noteq> ds_front (g_display_surface d)"
    using assms by (auto simp: demo_ok_def doubleton_eq_iff g_display_front_buffer_def g_display_back_buffer_def g_display_glyph_buffer_def)
  then show ?thesis
    using glyph_pixels_ok [of "g_display_memory d" bitmap fg bg] assms by (auto simp: demo_ok_def surface_ok_def)
qed

lemma google_letter_ok:
  assumes "demo_ok d" "x < 240" "y < 240"
  shows "\<exists>d'. runtime_display_demo_draw_google_letter x y (Some letter) color 3 d = Some d' \<and> demo_ok d'"
proof (cases "cchar letter 0 = NUL")
  case True
  then show ?thesis
    using assms(1) by (simp add: runtime_display_demo_draw_google_letter_def)
next
  case False
  from glyph_memory_ok [OF assms(1)] obtain m where "runtime_display_demo_make_glyph_pixels (runtime_display_demo_lookup_glyph (cchar letter 0))
      color DISPLAY_DEMO_BACKGROUND g_display_glyph_buffer (g_display_memory d) = Some m" "demo_ok (d\<lparr>g_display_memory := m\<rparr>)"
    by blast
  with False scaled_glyph_ok [of "d\<lparr>g_display_memory := m\<rparr>" x 3 y] assms(2,3) show ?thesis
    by (simp add: runtime_display_demo_draw_google_letter_def)
qed

lemma wordmark_ok:
  assumes "demo_ok d"
  shows "\<exists>d'. runtime_display_demo_draw_google_wordmark layout ops d = Some d' \<and> demo_ok d'"
proof -
  have "named_rect 0 0 (int DISPLAY_DEMO_WIDTH) (int DISPLAY_DEMO_HEIGHT)"
    by (simp add: named_rect_def is_int32_def DISPLAY_DEMO_WIDTH_def DISPLAY_DEMO_HEIGHT_def)
  moreover have "demo_ok (d\<lparr>g_display_panel := p\<rparr>)" for p
    using assms by (simp add: demo_ok_def)
  ultimately obtain d1 where d1: "runtime_display_demo_clear_backbuffer DISPLAY_DEMO_BACKGROUND
      (d\<lparr>g_display_panel := po_set_madctl ops 8 (g_display_panel d)\<rparr>) = Some d1" "demo_ok d1"
    using draw_fill_rect_ok unfolding runtime_display_demo_clear_backbuffer_def by (metis option.simps(9) snd_conv)
  let ?color = "\<lambda>i. [g_google_blue, g_google_red, g_google_yellow, g_google_blue, g_google_green, g_google_red] ! i"
  have "runtime_display_demo_draw_google_wordmark_stable_explicit d1 = draw_google_letters [''G'', ''o'', ''o'', ''g'', ''l'', ''e''] ?color d1"
    by (rule letters_explicit [symmetric]) (simp add: upt_6)
  moreover have "\<exists>d'. draw_google_letters letters color d1 = Some d' \<and> demo_ok d'" for letters color
    unfolding draw_google_letters_def google_origin
    by (simp, intro each_upt [where P = "\<lambda>_. demo_ok"] d1 google_letter_ok) (simp_all add: uint16_def)
  ultimately show ?thesis
    unfolding wordmark_layouts_agree [of layout] using d1(1) by (simp add: runtime_display_demo_draw_google_wordmark_def
        DISPLAY_DEMO_LAYOUT_EXPERIMENT_LOCAL_ARRAYS_def DISPLAY_DEMO_LAYOUT_EXPERIMENT_RODATA_DISPATCH_def
        DISPLAY_DEMO_LAYOUT_EXPERIMENT_SWITCH_DISPATCH_def)
qed

lemma demo_ok_lengths: "demo_ok d \<Longrightarrow> (\<And>a. length (m a) = length (g_display_memory d a)) \<Longrightarrow> demo_ok (d\<lparr>g_display_memory := m\<rparr>)"
  unfolding demo_ok_def surface_ok_def by (elim conjE) simp

lemma init_ok:
  assumes "demo_boot d"
  shows "\<exists>d'. runtime_display_demo_init layout ops d = Some d' \<and> demo_ok d'"
proof -
  let ?s = "(g_display_surface d)\<lparr>ds_width := DISPLAY_DEMO_WIDTH, ds_height := DISPLAY_DEMO_HEIGHT, ds_stride := DISPLAY_DEMO_WIDTH,
    ds_front := g_display_front_buffer, ds_back := g_display_back_buffer, ds_dirty_rect := no_rect, ds_dirty := False,
    ds_present_count := 0, ds_atomic_ops := None, ds_atomic_context := ()\<rparr>"
  let ?d = "d\<lparr>g_display_panel := po_fill_screen ops DISPLAY_DEMO_BACKGROUND (po_touch_init ops (po_init ops (g_display_panel d))),
    g_display_surface := ?s\<rparr>"
  have "demo_ok ?d"
    using assms by (simp add: demo_boot_def demo_ok_def surface_ok_def DISPLAY_DEMO_WIDTH_def DISPLAY_DEMO_HEIGHT_def
        g_display_front_buffer_def g_display_back_buffer_def)
  moreover have "named_rect 0 0 (int DISPLAY_DEMO_WIDTH) (int DISPLAY_DEMO_HEIGHT)"
    by (simp add: named_rect_def is_int32_def DISPLAY_DEMO_WIDTH_def DISPLAY_DEMO_HEIGHT_def)
  ultimately obtain d1 where d1: "runtime_display_demo_clear_backbuffer DISPLAY_DEMO_BACKGROUND ?d = Some d1" "demo_ok d1"
    using draw_fill_rect_ok unfolding runtime_display_demo_clear_backbuffer_def by (metis option.simps(9) snd_conv)
  have "\<exists>m. each (\<lambda>i. put_pixel g_display_front_buffer i DISPLAY_DEMO_BACKGROUND) [0..<DISPLAY_DEMO_WIDTH * DISPLAY_DEMO_HEIGHT] (g_display_memory d1) = Some m \<and>
      demo_ok (d1\<lparr>g_display_memory := m\<rparr>)"
  proof (intro each_upt [where P = "\<lambda>_ m. demo_ok (d1\<lparr>g_display_memory := m\<rparr>)"])
    show "demo_ok (d1\<lparr>g_display_memory := g_display_memory d1\<rparr>)"
      using d1(2) by simp
    fix i m
    assume i: "i < DISPLAY_DEMO_WIDTH * DISPLAY_DEMO_HEIGHT" and m: "demo_ok (d1\<lparr>g_display_memory := m\<rparr>)"
    then have "DISPLAY_DEMO_HEIGHT * DISPLAY_DEMO_WIDTH \<le> length (m g_display_front_buffer)"
      by (auto simp: demo_ok_def surface_ok_def doubleton_eq_iff)
    then have "i < length (m g_display_front_buffer)"
      using i by (simp add: mult.commute)
    then show "\<exists>m'. put_pixel g_display_front_buffer i DISPLAY_DEMO_BACKGROUND m = Some m' \<and> demo_ok (d1\<lparr>g_display_memory := m'\<rparr>)"
      using demo_ok_lengths [OF m] by (simp add: put_pixel_def)
  qed
  then obtain m where m: "each (\<lambda>i. put_pixel g_display_front_buffer i DISPLAY_DEMO_BACKGROUND) [0..<DISPLAY_DEMO_WIDTH * DISPLAY_DEMO_HEIGHT]
      (g_display_memory d1) = Some m" "demo_ok (d1\<lparr>g_display_memory := m\<rparr>)"
    by blast
  let ?d2 = "d1\<lparr>g_display_memory := m, g_display_surface := (g_display_surface d1)\<lparr>ds_dirty := False, ds_dirty_rect := no_rect\<rparr>,
    g_display_last_published_tick := 0, g_display_initialized := True, g_display_ready_flag := 1\<rparr>"
  have "demo_ok ?d2"
    using m(2) unfolding demo_ok_def surface_ok_def by (elim conjE) simp
  from wordmark_ok [OF this, of layout ops] obtain d3 where d3: "runtime_display_demo_draw_google_wordmark layout ops ?d2 = Some d3" "demo_ok d3"
    by blast
  then show ?thesis
    using assms d1(1) m(1) publish_ok [OF d3(2), of ops]
    by (auto simp: runtime_display_demo_init_def demo_boot_def display_surface_init_def display_surface_clear_damage_def Let_def
        runtime_display_demo_present_pending_def runtime_display_demo_render_frame_def demo_ok_def)
qed


text \<open>C36: The display starts. Afterwards take any sequence of calls of the applications: clearing, filling, copying, texts and characters
  at any coordinates, presenting, flushing and ticks, where the edges of the rectangles that are filled and copied are 32-bit integers
  and the source pictures are other buffers that hold the pixels to copy. Every call returns: no addition overflows and no access,
  of the drawing or of the flush that reads the published buffer for the panel, is outside the glyph buffer, the pixel buffers or
  the source picture. The surface keeps its size, its two buffers and a damaged rectangle inside it. A glyph that is found is
  a row of the font with all of its lines.\<close>

theorem display_stays_in_bounds:
  assumes "demo_boot d0"
  shows "(\<exists>d1. runtime_display_demo_init layout ops d0 = Some d1 \<and>
      (\<forall>calls. calls_fit ops calls d1 \<longrightarrow> (\<exists>d. each (run_call ops) calls d1 = Some d \<and> demo_ok d))) \<and>
    (\<forall>ch b. runtime_display_demo_lookup_glyph ch = Some b \<longrightarrow> b \<in> set g_display_demo_font8x8 \<and> length b = DISPLAY_DEMO_GLYPH_H)"
proof -
  obtain d1 where "runtime_display_demo_init layout ops d0 = Some d1" "demo_ok d1"
    using init_ok [OF assms, of layout ops] by blast
  then show ?thesis
    using run_calls_ok lookup_glyph_in_font by blast
qed

definition demo_display :: "unit display_demo" where
  "demo_display = \<lparr>g_display_surface = demo_surface,
     g_display_memory = (\<lambda>a. if a = 3 then replicate 64 0 else replicate 57600 0),
     g_display_last_published_tick = 0, g_display_ready_flag = 0, g_display_initialized = False, g_display_panel = ()\<rparr>"

definition demo_panel :: "unit panel_ops" where
  "demo_panel = \<lparr>po_init = id, po_touch_init = id, po_fill_screen = (\<lambda>_. id), po_set_madctl = (\<lambda>_. id), po_flush_rect_pixels = (\<lambda>_ _ _. id)\<rparr>"

lemma demo_boot_display: "demo_boot demo_display"
  by (simp add: demo_boot_def demo_display_def g_display_front_buffer_def g_display_back_buffer_def g_display_glyph_buffer_def
      DISPLAY_DEMO_WIDTH_def DISPLAY_DEMO_HEIGHT_def DISPLAY_DEMO_GLYPH_W_def DISPLAY_DEMO_GLYPH_H_def)

theorem display_stays_in_bounds_witness:
  "\<exists>d d'. runtime_display_demo_init 2 demo_panel demo_display = Some d \<and>
     each (run_call demo_panel) [Call_Text 235 3 (Some ''hello'') 1 2, Call_Fill (- 5) 230 20 20 7, Call_Present] d = Some d' \<and> demo_ok d'"
proof -
  have "calls_fit demo_panel [Call_Text 235 3 (Some ''hello'') 1 2, Call_Fill (- 5) 230 20 20 7, Call_Present] d" for d
    by (simp add: named_rect_def is_int32_def split: option.split)
  with display_stays_in_bounds [OF demo_boot_display, of 2 demo_panel] show ?thesis
    by blast
qed

end
