(* ===== verification/Runtime_Fs_Image.thy ===== *)
theory Runtime_Fs_Image
  imports Runtime_Fs_Files "HOL-Library.Monad_Syntax"
begin

text \<open>
  The checkpoints of \<open>kernel/runtime_fs_image.c\<close>: the file system as a byte image with a header, a record per node, a
  tree of hashes and the file contents. A read outside the image or outside the array of a name, and a shift by 32 or more, is the
  result \<open>None\<close>. Offsets are natural numbers: the checks that precede a computation keep them far below 2^32, and where
  the source computes on fields that are not yet checked the computation is on words. The diagnostic globals are left out.
\<close>

unbundle bit_operations_syntax

section \<open>Data\<close>

definition RUNTIME_FS_IMAGE_HASH_EMPTY :: u32 where "RUNTIME_FS_IMAGE_HASH_EMPTY = 0x811C9DC5"
definition RUNTIME_FS_IMAGE_MAGIC :: u32 where "RUNTIME_FS_IMAGE_MAGIC = 0x31465354"
definition RUNTIME_FS_IMAGE_VERSION :: u32 where "RUNTIME_FS_IMAGE_VERSION = 1"
definition RUNTIME_FS_IMAGE_HEADER_BYTES :: nat where "RUNTIME_FS_IMAGE_HEADER_BYTES = 40"
definition RUNTIME_FS_IMAGE_RECORD_BYTES :: nat where "RUNTIME_FS_IMAGE_RECORD_BYTES = 40 + RUNTIME_FS_NAME_CAPACITY"
definition RUNTIME_FS_IMAGE_MAX_TREE_LEAVES :: nat where "RUNTIME_FS_IMAGE_MAX_TREE_LEAVES = RUNTIME_FS_MAX_NODES"

record runtime_fs_image_header =
  ih_magic :: u32
  ih_version :: u32
  ih_header_bytes :: u32
  ih_record_count :: u32
  ih_record_bytes :: u32
  ih_tree_leaf_count :: u32
  ih_tree_hash_count :: u32
  ih_data_bytes :: u32
  ih_root_hash :: u32
  ih_image_bytes :: u32

record runtime_fs_image_record =
  ir_node_index :: u32
  ir_type :: u32
  ir_parent_index :: u32
  ir_owner_pid :: u32
  ir_mode :: u32
  ir_size_bytes :: u32
  ir_data_offset :: u32
  ir_data_size :: u32
  ir_data_hash :: u32
  ir_object_hash :: u32
  ir_name :: string

record runtime_fs_image_layout =
  il_record_count :: u32
  il_tree_leaf_count :: u32
  il_tree_hash_count :: u32
  il_data_bytes :: u32
  il_image_bytes :: u32
  il_root_hash :: u32

section \<open>Bytes and hashes\<close>

definition runtime_fs_image_load_u32 :: "u8 list \<Rightarrow> nat \<Rightarrow> u32 option" where
  "runtime_fs_image_load_u32 buffer cursor =
     (if cursor + 4 \<le> length buffer
      then Some (ucast (buffer ! cursor) OR push_bit 8 (ucast (buffer ! (cursor + 1))) OR
        push_bit 16 (ucast (buffer ! (cursor + 2))) OR push_bit 24 (ucast (buffer ! (cursor + 3))))
      else None)"

definition runtime_fs_image_store_u32 :: "u8 list \<Rightarrow> nat \<Rightarrow> u32 \<Rightarrow> u8 list" where
  "runtime_fs_image_store_u32 buffer cursor v =
     buffer[cursor := ucast (v AND 0xFF), cursor + 1 := ucast (drop_bit 8 v AND 0xFF),
       cursor + 2 := ucast (drop_bit 16 v AND 0xFF), cursor + 3 := ucast (drop_bit 24 v AND 0xFF)]"

definition runtime_fs_image_copy_name :: "string \<Rightarrow> string \<Rightarrow> string" where
  "runtime_fs_image_copy_name dest src =
     copy_name_at (fold (\<lambda>clear d. d[clear := NUL]) [0..<RUNTIME_FS_NAME_CAPACITY] dest) src 0"

text \<open>\<open>None\<close>: the character after the end of \<open>right\<close> is read.\<close>

function name_equals_from :: "string \<Rightarrow> nat \<Rightarrow> string \<Rightarrow> nat \<Rightarrow> bool option" where
  "name_equals_from left left_capacity right index =
     (if index \<ge> length right then None
      else if index < left_capacity \<and> left ! index \<noteq> NUL \<and> right ! index \<noteq> NUL
      then (if left ! index \<noteq> right ! index then Some False else name_equals_from left left_capacity right (Suc index))
      else if right ! index \<noteq> NUL then Some False
      else Some (index < left_capacity \<and> left ! index = NUL))"
  by pat_completeness auto
termination
  by (relation "measure (\<lambda>(left, n, right, index). length right - index)") auto

declare name_equals_from.simps [simp del]

definition runtime_fs_image_name_equals_bounded :: "string \<Rightarrow> nat \<Rightarrow> string \<Rightarrow> bool option" where
  "runtime_fs_image_name_equals_bounded left left_capacity right = name_equals_from left left_capacity right 0"

definition runtime_fs_image_hash_mix :: "u32 \<Rightarrow> u8 \<Rightarrow> u32" where
  "runtime_fs_image_hash_mix hash v = (hash XOR ucast v) * 16777619"

definition runtime_fs_image_hash_bytes :: "u8 list \<Rightarrow> nat \<Rightarrow> nat \<Rightarrow> u32 option" where
  "runtime_fs_image_hash_bytes buffer start n =
     (if n = 0 then Some RUNTIME_FS_IMAGE_HASH_EMPTY
      else if start + n \<le> length buffer
      then Some (fold (\<lambda>b hash. runtime_fs_image_hash_mix hash b) (take n (drop start buffer)) RUNTIME_FS_IMAGE_HASH_EMPTY)
      else None)"

definition runtime_fs_image_hash_u32 :: "u32 \<Rightarrow> u32 \<Rightarrow> u32" where
  "runtime_fs_image_hash_u32 hash v =
     (let hash = runtime_fs_image_hash_mix hash (ucast (v AND 0xFF));
          hash = runtime_fs_image_hash_mix hash (ucast (drop_bit 8 v AND 0xFF));
          hash = runtime_fs_image_hash_mix hash (ucast (drop_bit 16 v AND 0xFF)) in
      runtime_fs_image_hash_mix hash (ucast (drop_bit 24 v AND 0xFF)))"

definition runtime_fs_image_object_hash :: "runtime_fs_image_record \<Rightarrow> u32" where
  "runtime_fs_image_object_hash r =
     fold (\<lambda>c hash. runtime_fs_image_hash_mix hash (of_char c)) (ir_name r)
       (fold (\<lambda>v hash. runtime_fs_image_hash_u32 hash v)
          [ir_node_index r, ir_type r, ir_parent_index r, ir_owner_pid r, ir_mode r, ir_size_bytes r, ir_data_offset r,
           ir_data_size r, ir_data_hash r] RUNTIME_FS_IMAGE_HASH_EMPTY)"

definition runtime_fs_image_tree_hash :: "u32 \<Rightarrow> u32 \<Rightarrow> u32" where
  "runtime_fs_image_tree_hash left right =
     runtime_fs_image_hash_u32 (runtime_fs_image_hash_u32 RUNTIME_FS_IMAGE_HASH_EMPTY left) right"

text \<open>The loop of \<open>runtime_fs_image_next_pow2\<close>; its argument is at most 16.\<close>

function next_pow2_from :: "nat \<Rightarrow> nat \<Rightarrow> nat" where
  "next_pow2_from result n = (if result < n \<and> 0 < result then next_pow2_from (2 * result) n else result)"
  by pat_completeness auto
termination
  by (relation "measure (\<lambda>(result, n). n - result)") auto

declare next_pow2_from.simps [simp del]

definition runtime_fs_image_next_pow2 :: "nat \<Rightarrow> nat" where
  "runtime_fs_image_next_pow2 n = next_pow2_from 1 n"

definition runtime_fs_image_has_open_files :: "runtime_fs \<Rightarrow> bool" where
  "runtime_fs_image_has_open_files fs \<longleftrightarrow> list_ex (\<lambda>i. of_used (open_files fs ! i)) [0..<RUNTIME_FS_MAX_OPEN_FILES]"

definition runtime_fs_image_record_count :: "runtime_fs \<Rightarrow> nat" where
  "runtime_fs_image_record_count fs = length (filter (\<lambda>i. nd_used (nodes fs ! i)) [0..<RUNTIME_FS_MAX_NODES])"

definition runtime_fs_image_data_bytes :: "runtime_fs \<Rightarrow> nat" where
  "runtime_fs_image_data_bytes fs =
     fold (\<lambda>i n. if nd_used (nodes fs ! i) \<and> nd_type (nodes fs ! i) = RUNTIME_FILE_TYPE_REGULAR
         then n + nd_size_bytes (nodes fs ! i) else n) [0..<RUNTIME_FS_MAX_NODES] 0"


section \<open>Header and records\<close>

text \<open>The checks of the header; the first four conditions on counts guard the call of \<open>runtime_fs_image_next_pow2\<close>.\<close>

definition image_header_ok :: "runtime_fs_image_header \<Rightarrow> u32 \<Rightarrow> bool" where
  "image_header_ok h n \<longleftrightarrow>
     (if ih_magic h \<noteq> RUNTIME_FS_IMAGE_MAGIC \<or> ih_version h \<noteq> RUNTIME_FS_IMAGE_VERSION \<or>
         ih_header_bytes h \<noteq> of_nat RUNTIME_FS_IMAGE_HEADER_BYTES \<or> ih_record_bytes h \<noteq> of_nat RUNTIME_FS_IMAGE_RECORD_BYTES \<or>
         ih_record_count h = 0 \<or> ih_record_count h > of_nat RUNTIME_FS_MAX_NODES \<or> ih_tree_leaf_count h = 0 \<or>
         ih_tree_leaf_count h > of_nat RUNTIME_FS_IMAGE_MAX_TREE_LEAVES \<or>
         ih_tree_hash_count h \<noteq> ih_tree_leaf_count h * 2 - 1 \<or> ih_tree_leaf_count h < ih_record_count h \<or>
         runtime_fs_image_next_pow2 (unat (ih_tree_leaf_count h)) \<noteq> unat (ih_tree_leaf_count h) then False
      else if ih_image_bytes h \<noteq> ih_header_bytes h + ih_record_count h * ih_record_bytes h + ih_tree_hash_count h * 4 + ih_data_bytes h
      then False
      else ih_image_bytes h = n)"

definition runtime_fs_image_parse_header :: "u8 list ptr \<Rightarrow> u32 \<Rightarrow> runtime_fs_image_header option option" where
  "runtime_fs_image_parse_header buffer n =
     (case buffer of
        None \<Rightarrow> Some None
      | Some b \<Rightarrow>
          (if n < of_nat RUNTIME_FS_IMAGE_HEADER_BYTES then Some None
           else do {
             magic \<leftarrow> runtime_fs_image_load_u32 b 0;
             version \<leftarrow> runtime_fs_image_load_u32 b 4;
             header_bytes \<leftarrow> runtime_fs_image_load_u32 b 8;
             record_count \<leftarrow> runtime_fs_image_load_u32 b 12;
             record_bytes \<leftarrow> runtime_fs_image_load_u32 b 16;
             tree_leaf_count \<leftarrow> runtime_fs_image_load_u32 b 20;
             tree_hash_count \<leftarrow> runtime_fs_image_load_u32 b 24;
             data_bytes \<leftarrow> runtime_fs_image_load_u32 b 28;
             root_hash \<leftarrow> runtime_fs_image_load_u32 b 32;
             image_bytes \<leftarrow> runtime_fs_image_load_u32 b 36;
             let h = \<lparr>ih_magic = magic, ih_version = version, ih_header_bytes = header_bytes, ih_record_count = record_count,
                  ih_record_bytes = record_bytes, ih_tree_leaf_count = tree_leaf_count, ih_tree_hash_count = tree_hash_count,
                  ih_data_bytes = data_bytes, ih_root_hash = root_hash, ih_image_bytes = image_bytes\<rparr> in
             Some (if image_header_ok h n then Some h else None) }))"

definition runtime_fs_image_read_record :: "u8 list \<Rightarrow> nat \<Rightarrow> runtime_fs_image_record option" where
  "runtime_fs_image_read_record buffer offset = do {
     node_index \<leftarrow> runtime_fs_image_load_u32 buffer offset;
     type \<leftarrow> runtime_fs_image_load_u32 buffer (offset + 4);
     parent_index \<leftarrow> runtime_fs_image_load_u32 buffer (offset + 8);
     owner_pid \<leftarrow> runtime_fs_image_load_u32 buffer (offset + 12);
     mode \<leftarrow> runtime_fs_image_load_u32 buffer (offset + 16);
     size_bytes \<leftarrow> runtime_fs_image_load_u32 buffer (offset + 20);
     data_offset \<leftarrow> runtime_fs_image_load_u32 buffer (offset + 24);
     data_size \<leftarrow> runtime_fs_image_load_u32 buffer (offset + 28);
     data_hash \<leftarrow> runtime_fs_image_load_u32 buffer (offset + 32);
     object_hash \<leftarrow> runtime_fs_image_load_u32 buffer (offset + 36);
     if offset + 40 + RUNTIME_FS_NAME_CAPACITY \<le> length buffer
     then Some \<lparr>ir_node_index = node_index, ir_type = type, ir_parent_index = parent_index, ir_owner_pid = owner_pid, ir_mode = mode,
       ir_size_bytes = size_bytes, ir_data_offset = data_offset, ir_data_size = data_size, ir_data_hash = data_hash,
       ir_object_hash = object_hash, ir_name = map (\<lambda>i. char_of (unat (buffer ! (offset + 40 + i)))) [0..<RUNTIME_FS_NAME_CAPACITY]\<rparr>
     else None }"

definition runtime_fs_image_write_record :: "u8 list \<Rightarrow> nat \<Rightarrow> runtime_fs_image_record \<Rightarrow> u8 list" where
  "runtime_fs_image_write_record buffer offset r =
     (let buffer = runtime_fs_image_store_u32 buffer offset (ir_node_index r);
          buffer = runtime_fs_image_store_u32 buffer (offset + 4) (ir_type r);
          buffer = runtime_fs_image_store_u32 buffer (offset + 8) (ir_parent_index r);
          buffer = runtime_fs_image_store_u32 buffer (offset + 12) (ir_owner_pid r);
          buffer = runtime_fs_image_store_u32 buffer (offset + 16) (ir_mode r);
          buffer = runtime_fs_image_store_u32 buffer (offset + 20) (ir_size_bytes r);
          buffer = runtime_fs_image_store_u32 buffer (offset + 24) (ir_data_offset r);
          buffer = runtime_fs_image_store_u32 buffer (offset + 28) (ir_data_size r);
          buffer = runtime_fs_image_store_u32 buffer (offset + 32) (ir_data_hash r);
          buffer = runtime_fs_image_store_u32 buffer (offset + 36) (ir_object_hash r) in
      fold (\<lambda>i b. b[offset + 40 + i := of_char (ir_name r ! i)]) [0..<RUNTIME_FS_NAME_CAPACITY] buffer)"

text \<open>The position of the record; the source returns its address.\<close>

definition runtime_fs_image_find_record :: "runtime_fs_image_record list \<Rightarrow> u32 \<Rightarrow> nat option" where
  "runtime_fs_image_find_record records node_index = first_index (\<lambda>r. ir_node_index r = node_index) records"

section \<open>Export\<close>

definition image_bytes_for :: "nat \<Rightarrow> nat \<Rightarrow> nat" where
  "image_bytes_for record_count data_bytes =
     RUNTIME_FS_IMAGE_HEADER_BYTES + record_count * RUNTIME_FS_IMAGE_RECORD_BYTES +
       (runtime_fs_image_next_pow2 record_count * 2 - 1) * 4 + data_bytes"

definition runtime_fs_image_required_bytes :: "runtime_fs ptr \<Rightarrow> nat option" where
  "runtime_fs_image_required_bytes fs =
     (case fs of
        None \<Rightarrow> Some 0
      | Some fs \<Rightarrow> do {
          status \<leftarrow> runtime_fs_validate fs;
          if status \<noteq> RUNTIME_SYSCALL_STATUS_OK then Some 0
          else let record_count = runtime_fs_image_record_count fs in
            if record_count = 0 then Some 0 else Some (image_bytes_for record_count (runtime_fs_image_data_bytes fs)) })"

text \<open>One round of the loop over the nodes: the buffer, the next record, the payload so far and the object hashes so far.\<close>

definition image_record_of :: "nat \<Rightarrow> runtime_fs_node \<Rightarrow> nat \<Rightarrow> runtime_fs_image_record" where
  "image_record_of node_index node payload_cursor =
     (let data_size = (if nd_type node = RUNTIME_FILE_TYPE_REGULAR then nd_size_bytes node else 0);
          r = \<lparr>ir_node_index = of_nat node_index, ir_type = nd_type node, ir_parent_index = of_nat (nd_parent_index node),
               ir_owner_pid = nd_owner_pid node, ir_mode = nd_mode node, ir_size_bytes = of_nat (nd_size_bytes node),
               ir_data_offset = of_nat payload_cursor, ir_data_size = of_nat data_size,
               ir_data_hash = (case runtime_fs_image_hash_bytes (nd_data node) 0 data_size of None \<Rightarrow> 0 | Some h \<Rightarrow> h),
               ir_object_hash = 0,
               ir_name = runtime_fs_image_copy_name (replicate RUNTIME_FS_NAME_CAPACITY NUL) (nd_name node)\<rparr> in
      r\<lparr>ir_object_hash := runtime_fs_image_object_hash r\<rparr>)"

definition export_node ::
  "runtime_fs \<Rightarrow> nat \<Rightarrow> nat \<Rightarrow> u8 list \<times> nat \<times> nat \<times> u32 list \<Rightarrow> u8 list \<times> nat \<times> nat \<times> u32 list" where
  "export_node fs data_offset node_index st =
     (case st of (bytes, record_offset, payload_cursor, object_hashes) \<Rightarrow>
        let node = nodes fs ! node_index in
        if \<not> nd_used node then st
        else let r = image_record_of node_index node payload_cursor;
                 bytes = runtime_fs_image_write_record bytes record_offset r;
                 bytes = fold (\<lambda>i b. b[data_offset + payload_cursor + i := nd_data node ! i]) [0..<unat (ir_data_size r)] bytes in
          (bytes, record_offset + RUNTIME_FS_IMAGE_RECORD_BYTES, payload_cursor + unat (ir_data_size r),
           object_hashes @ [ir_object_hash r]))"

definition export_tree :: "nat \<Rightarrow> u32 list \<Rightarrow> u32 list" where
  "export_tree tree_leaf_count object_hashes =
     (let tree_hash_count = tree_leaf_count * 2 - 1;
          tree_hashes = replicate tree_hash_count RUNTIME_FS_IMAGE_HASH_EMPTY;
          tree_hashes = fold (\<lambda>i t. t[tree_hash_count - tree_leaf_count + i :=
            (if i < length object_hashes then object_hashes ! i else RUNTIME_FS_IMAGE_HASH_EMPTY)]) [0..<tree_leaf_count] tree_hashes in
      fold (\<lambda>p t. t[p := runtime_fs_image_tree_hash (t ! (p * 2 + 1)) (t ! (p * 2 + 2))])
        (rev [0..<tree_hash_count - tree_leaf_count]) tree_hashes)"

definition export_header :: "u8 list \<Rightarrow> nat \<Rightarrow> nat \<Rightarrow> nat \<Rightarrow> nat \<Rightarrow> u32 \<Rightarrow> nat \<Rightarrow> u8 list" where
  "export_header bytes record_count tree_leaf_count tree_hash_count data_bytes root_hash image_bytes =
     (let bytes = runtime_fs_image_store_u32 bytes 0 RUNTIME_FS_IMAGE_MAGIC;
          bytes = runtime_fs_image_store_u32 bytes 4 RUNTIME_FS_IMAGE_VERSION;
          bytes = runtime_fs_image_store_u32 bytes 8 (of_nat RUNTIME_FS_IMAGE_HEADER_BYTES);
          bytes = runtime_fs_image_store_u32 bytes 12 (of_nat record_count);
          bytes = runtime_fs_image_store_u32 bytes 16 (of_nat RUNTIME_FS_IMAGE_RECORD_BYTES);
          bytes = runtime_fs_image_store_u32 bytes 20 (of_nat tree_leaf_count);
          bytes = runtime_fs_image_store_u32 bytes 24 (of_nat tree_hash_count);
          bytes = runtime_fs_image_store_u32 bytes 28 (of_nat data_bytes);
          bytes = runtime_fs_image_store_u32 bytes 32 root_hash in
      runtime_fs_image_store_u32 bytes 36 (of_nat image_bytes))"

definition export_bytes :: "runtime_fs \<Rightarrow> u8 list \<Rightarrow> u8 list \<times> nat \<times> runtime_fs_image_layout" where
  "export_bytes fs bytes =
     (let record_count = runtime_fs_image_record_count fs;
          tree_leaf_count = runtime_fs_image_next_pow2 record_count;
          tree_hash_count = tree_leaf_count * 2 - 1;
          data_bytes = runtime_fs_image_data_bytes fs;
          image_bytes = image_bytes_for record_count data_bytes;
          tree_offset = RUNTIME_FS_IMAGE_HEADER_BYTES + record_count * RUNTIME_FS_IMAGE_RECORD_BYTES;
          data_offset = tree_offset + tree_hash_count * 4;
          (bytes, record_offset, payload_cursor, object_hashes) =
            fold (export_node fs data_offset) [0..<RUNTIME_FS_MAX_NODES] (bytes, RUNTIME_FS_IMAGE_HEADER_BYTES, 0, []);
          tree_hashes = export_tree tree_leaf_count object_hashes;
          bytes = fold (\<lambda>i b. runtime_fs_image_store_u32 b (tree_offset + i * 4) (tree_hashes ! i)) [0..<tree_hash_count] bytes;
          bytes = export_header bytes record_count tree_leaf_count tree_hash_count data_bytes (tree_hashes ! 0) image_bytes in
      (bytes, image_bytes, \<lparr>il_record_count = of_nat record_count, il_tree_leaf_count = of_nat tree_leaf_count,
         il_tree_hash_count = of_nat tree_hash_count, il_data_bytes = of_nat data_bytes, il_image_bytes = of_nat image_bytes,
         il_root_hash = tree_hashes ! 0\<rparr>))"

text \<open>
  The guards, then the image. A buffer has at least \<open>capacity\<close> bytes. The results are the status, the buffer, the number of bytes
  and the layout.
\<close>

definition runtime_fs_image_export ::
  "runtime_fs ptr \<Rightarrow> u8 list ptr \<Rightarrow> nat \<Rightarrow> nat ptr \<Rightarrow> runtime_fs_image_layout ptr \<Rightarrow>
   (int \<times> u8 list ptr \<times> nat ptr \<times> runtime_fs_image_layout ptr) option" where
  "runtime_fs_image_export fs buffer capacity bytes_written layout =
     (case (fs, buffer, bytes_written) of
        (Some fs, Some bytes, Some _) \<Rightarrow> do {
          status \<leftarrow> runtime_fs_validate fs;
          if status \<noteq> RUNTIME_SYSCALL_STATUS_OK then Some (RUNTIME_SYSCALL_STATUS_EINVAL, buffer, bytes_written, layout)
          else if runtime_fs_image_has_open_files fs then Some (RUNTIME_SYSCALL_STATUS_EBUSY, buffer, bytes_written, layout)
          else if runtime_fs_image_record_count fs = 0 then Some (RUNTIME_SYSCALL_STATUS_EINVAL, buffer, bytes_written, layout)
          else if capacity < image_bytes_for (runtime_fs_image_record_count fs) (runtime_fs_image_data_bytes fs)
          then Some (RUNTIME_SYSCALL_STATUS_ENOSPC, buffer, bytes_written, layout)
          else let (bytes, n, l) = export_bytes fs bytes in
            Some (RUNTIME_SYSCALL_STATUS_OK, Some bytes, Some n, map_option (\<lambda>_. l) layout) }
      | _ \<Rightarrow> Some (RUNTIME_SYSCALL_STATUS_EINVAL, buffer, bytes_written, layout))"


section \<open>Validation\<close>

text \<open>The checks of one record, in the order of the source; the result is the status.\<close>

definition image_record_check ::
  "u8 list \<Rightarrow> runtime_fs_image_header \<Rightarrow> nat \<Rightarrow> runtime_fs_image_record list \<Rightarrow> nat \<Rightarrow> u32 \<Rightarrow> runtime_fs_image_record \<Rightarrow> int option" where
  "image_record_check bytes h data_offset earlier expected_payload_offset present_mask r =
     (let index = length earlier in
      if ir_node_index r \<ge> of_nat RUNTIME_FS_MAX_NODES then Some RUNTIME_SYSCALL_STATUS_EINVAL
      else if drop_bit (unat (ir_node_index r)) present_mask AND 1 \<noteq> 0 then Some RUNTIME_SYSCALL_STATUS_EEXIST
      else if index = 0 \<and> ir_node_index r \<noteq> 0 then Some RUNTIME_SYSCALL_STATUS_EINVAL
      else if index > 0 \<and> ir_node_index r \<le> ir_node_index (last earlier) then Some RUNTIME_SYSCALL_STATUS_EINVAL
      else if ir_type r \<noteq> RUNTIME_FILE_TYPE_DIRECTORY \<and> ir_type r \<noteq> RUNTIME_FILE_TYPE_REGULAR then Some RUNTIME_SYSCALL_STATUS_EINVAL
      else if ir_type r = RUNTIME_FILE_TYPE_DIRECTORY \<and> ir_data_size r \<noteq> 0 then Some RUNTIME_SYSCALL_STATUS_EINVAL
      else if ir_type r = RUNTIME_FILE_TYPE_REGULAR \<and> ir_data_size r \<noteq> ir_size_bytes r then Some RUNTIME_SYSCALL_STATUS_EINVAL
      else if ir_size_bytes r > of_nat RUNTIME_FS_FILE_CAPACITY then Some RUNTIME_SYSCALL_STATUS_ENOSPC
      else if ir_data_offset r \<noteq> of_nat expected_payload_offset then Some RUNTIME_SYSCALL_STATUS_EINVAL
      else if ir_data_offset r + ir_data_size r > ih_data_bytes h then Some RUNTIME_SYSCALL_STATUS_EINVAL
      else if index = 0 \<and> ir_parent_index r \<noteq> 0 then Some RUNTIME_SYSCALL_STATUS_EINVAL
      else if index = 0 \<and> ir_type r \<noteq> RUNTIME_FILE_TYPE_DIRECTORY then Some RUNTIME_SYSCALL_STATUS_EINVAL
      else if index = 0 \<and> (ir_name r ! 0 \<noteq> CHR ''/'' \<or> ir_name r ! 1 \<noteq> NUL) then Some RUNTIME_SYSCALL_STATUS_EINVAL
      else if index \<noteq> 0 \<and> (ir_name r ! 0 = NUL \<or> (ir_name r ! 0 = CHR ''/'' \<and> ir_name r ! 1 = NUL)) then Some RUNTIME_SYSCALL_STATUS_EINVAL
      else do {
        data_hash \<leftarrow> runtime_fs_image_hash_bytes bytes (data_offset + unat (ir_data_offset r)) (unat (ir_data_size r));
        if data_hash \<noteq> ir_data_hash r then Some RUNTIME_SYSCALL_STATUS_EINVAL
        else if runtime_fs_image_object_hash r \<noteq> ir_object_hash r then Some RUNTIME_SYSCALL_STATUS_EINVAL
        else Some RUNTIME_SYSCALL_STATUS_OK })"

text \<open>
  The loop over the records: \<open>Inl\<close>, the status of a failure; \<open>Inr\<close>, all records with the payload and the mask of the
  nodes that are present.
\<close>

fun image_records_check ::
  "u8 list \<Rightarrow> runtime_fs_image_header \<Rightarrow> nat \<Rightarrow> nat \<Rightarrow> nat list \<Rightarrow> runtime_fs_image_record list \<Rightarrow> nat \<Rightarrow> u32 \<Rightarrow>
   (int + runtime_fs_image_record list \<times> nat \<times> u32) option" where
  "image_records_check bytes h record_offset data_offset [] earlier payload present = Some (Inr (earlier, payload, present))"
| "image_records_check bytes h record_offset data_offset (index # rest) earlier payload present = do {
     r \<leftarrow> runtime_fs_image_read_record bytes (record_offset + index * unat (ih_record_bytes h));
     status \<leftarrow> image_record_check bytes h data_offset earlier payload present r;
     if status \<noteq> RUNTIME_SYSCALL_STATUS_OK then Some (Inl status)
     else image_records_check bytes h record_offset data_offset rest (earlier @ [r]) (payload + unat (ir_data_size r))
       (present OR push_bit (unat (ir_node_index r)) 1) }"

text \<open>The walk up the parents of a record.\<close>

function image_chain_check :: "runtime_fs_image_record list \<Rightarrow> u32 \<Rightarrow> nat \<Rightarrow> int" where
  "image_chain_check records current d =
     (if current = 0 then RUNTIME_SYSCALL_STATUS_OK
      else case runtime_fs_image_find_record records current of
        None \<Rightarrow> RUNTIME_SYSCALL_STATUS_EINVAL
      | Some i \<Rightarrow>
          (if Suc d > RUNTIME_FS_MAX_NODES then RUNTIME_SYSCALL_STATUS_EINVAL
           else image_chain_check records (ir_parent_index (records ! i)) (Suc d)))"
  by pat_completeness auto
termination
  by (relation "measure (\<lambda>(records, current, d). Suc RUNTIME_FS_MAX_NODES - d)") auto

declare image_chain_check.simps [simp del]

text \<open>\<open>None\<close>: the mask is shifted by a parent index of 32 or more.\<close>

definition image_parent_check :: "runtime_fs_image_record list \<Rightarrow> u32 \<Rightarrow> runtime_fs_image_record \<Rightarrow> int option" where
  "image_parent_check records present_mask r =
     (let parent = runtime_fs_image_find_record records (ir_parent_index r) in
      if ir_node_index r \<noteq> 0 \<and> unat (ir_parent_index r) \<ge> 32 then None
      else if ir_node_index r \<noteq> 0 \<and> drop_bit (unat (ir_parent_index r)) present_mask AND 1 = 0 then Some RUNTIME_SYSCALL_STATUS_EINVAL
      else if ir_node_index r = 0 \<and> parent \<noteq> Some 0 then Some RUNTIME_SYSCALL_STATUS_EINVAL
      else if ir_node_index r \<noteq> 0 \<and>
              (case parent of None \<Rightarrow> True | Some p \<Rightarrow> ir_type (records ! p) \<noteq> RUNTIME_FILE_TYPE_DIRECTORY)
      then Some RUNTIME_SYSCALL_STATUS_EINVAL
      else Some (image_chain_check records (ir_node_index r) 0))"

definition image_twin_check :: "runtime_fs_image_record list \<Rightarrow> nat \<times> nat \<Rightarrow> int option" where
  "image_twin_check records p =
     (case p of (index, other) \<Rightarrow>
        if ir_parent_index (records ! index) = ir_parent_index (records ! other) then do {
          same \<leftarrow> runtime_fs_image_name_equals_bounded (ir_name (records ! index)) RUNTIME_FS_NAME_CAPACITY (ir_name (records ! other));
          if same then Some RUNTIME_SYSCALL_STATUS_EEXIST else Some RUNTIME_SYSCALL_STATUS_OK }
        else Some RUNTIME_SYSCALL_STATUS_OK)"

fun load_words :: "u8 list \<Rightarrow> nat \<Rightarrow> nat \<Rightarrow> u32 list option" where
  "load_words bytes offset 0 = Some []"
| "load_words bytes offset (Suc n) = do {
     v \<leftarrow> runtime_fs_image_load_u32 bytes offset;
     vs \<leftarrow> load_words bytes (offset + 4) n;
     Some (v # vs) }"

definition image_tree_ok :: "runtime_fs_image_header \<Rightarrow> u32 list \<Rightarrow> u32 list \<Rightarrow> bool" where
  "image_tree_ok h object_hashes tree_hashes \<longleftrightarrow>
     (let leaves = unat (ih_tree_leaf_count h); inner = unat (ih_tree_hash_count h) - leaves in
      list_all (\<lambda>i. tree_hashes ! (inner + i) =
        (if i < unat (ih_record_count h) then object_hashes ! i else RUNTIME_FS_IMAGE_HASH_EMPTY)) [0..<leaves] \<and>
      list_all (\<lambda>p. tree_hashes ! p = runtime_fs_image_tree_hash (tree_hashes ! (p * 2 + 1)) (tree_hashes ! (p * 2 + 2))) (rev [0..<inner]) \<and>
      tree_hashes ! 0 = ih_root_hash h)"

definition runtime_fs_image_validate ::
  "u8 list ptr \<Rightarrow> u32 \<Rightarrow> runtime_fs_image_layout ptr \<Rightarrow> (int \<times> runtime_fs_image_layout ptr) option" where
  "runtime_fs_image_validate buffer n layout = do {
     header \<leftarrow> runtime_fs_image_parse_header buffer n;
     case (buffer, header) of
       (Some bytes, Some h) \<Rightarrow>
         let record_offset = unat (ih_header_bytes h);
             tree_offset = record_offset + unat (ih_record_count h) * unat (ih_record_bytes h);
             data_offset = tree_offset + unat (ih_tree_hash_count h) * 4;
             count = unat (ih_record_count h) in
         do {
           checked \<leftarrow> image_records_check bytes h record_offset data_offset [0..<count] [] 0 0;
           case checked of
             Inl status \<Rightarrow> Some (status, layout)
           | Inr (records, payload, present) \<Rightarrow>
               if payload \<noteq> unat (ih_data_bytes h) then Some (RUNTIME_SYSCALL_STATUS_EINVAL, layout)
               else do {
                 status \<leftarrow> first_failure (map (image_parent_check records present) records @
                   map (image_twin_check records) (concat (map (\<lambda>i. map (Pair i) [Suc i..<count]) [0..<count])));
                 if status \<noteq> RUNTIME_SYSCALL_STATUS_OK then Some (status, layout)
                 else do {
                   tree_hashes \<leftarrow> load_words bytes tree_offset (unat (ih_tree_hash_count h));
                   if \<not> image_tree_ok h (map ir_object_hash records) tree_hashes then Some (RUNTIME_SYSCALL_STATUS_EINVAL, layout)
                   else Some (RUNTIME_SYSCALL_STATUS_OK, map_option (\<lambda>_. \<lparr>il_record_count = ih_record_count h,
                     il_tree_leaf_count = ih_tree_leaf_count h, il_tree_hash_count = ih_tree_hash_count h,
                     il_data_bytes = ih_data_bytes h, il_image_bytes = ih_image_bytes h, il_root_hash = ih_root_hash h\<rparr>) layout) } } }
     | _ \<Rightarrow> Some (RUNTIME_SYSCALL_STATUS_EINVAL, layout) }"

section \<open>Import\<close>

definition import_clear_node :: "runtime_fs_node \<Rightarrow> runtime_fs_node" where
  "import_clear_node nd = nd\<lparr>nd_used := False, nd_type := RUNTIME_FILE_TYPE_UNKNOWN, nd_parent_index := 0, nd_owner_pid := 0,
     nd_mode := 0, nd_size_bytes := 0, nd_name := (nd_name nd)[0 := NUL], nd_data := zero_bytes (nd_data nd) 0 RUNTIME_FS_FILE_CAPACITY\<rparr>"

definition import_clear_open :: "runtime_fs_open_file \<Rightarrow> runtime_fs_open_file" where
  "import_clear_open f = f\<lparr>of_used := False, of_node_index := 0, of_owner_pid := 0, of_flags := 0, of_offset := 0, of_dir_cursor := 0\<rparr>"

definition import_record :: "u8 list \<Rightarrow> nat \<Rightarrow> runtime_fs_image_record \<Rightarrow> runtime_fs \<Rightarrow> runtime_fs" where
  "import_record bytes data_offset r fs =
     upd_node (unat (ir_node_index r)) (\<lambda>nd. nd\<lparr>nd_used := True, nd_type := ir_type r, nd_parent_index := unat (ir_parent_index r),
       nd_owner_pid := ir_owner_pid r, nd_mode := ir_mode r, nd_size_bytes := unat (ir_size_bytes r),
       nd_name := runtime_fs_image_copy_name (nd_name nd) (ir_name r),
       nd_data := fold (\<lambda>i d. d[i := bytes ! (data_offset + unat (ir_data_offset r) + i)]) [0..<unat (ir_data_size r)] (nd_data nd)\<rparr>) fs"

fun import_records :: "u8 list \<Rightarrow> nat \<Rightarrow> nat \<Rightarrow> nat \<Rightarrow> nat list \<Rightarrow> runtime_fs \<Rightarrow> runtime_fs option" where
  "import_records bytes record_offset record_bytes data_offset [] fs = Some fs"
| "import_records bytes record_offset record_bytes data_offset (index # rest) fs = do {
     r \<leftarrow> runtime_fs_image_read_record bytes (record_offset + index * record_bytes);
     import_records bytes record_offset record_bytes data_offset rest (import_record bytes data_offset r fs) }"

text \<open>\<open>runtime_fs_init\<close> sets the whole file system, whatever it was.\<close>

definition runtime_fs_image_import ::
  "runtime_fs ptr \<Rightarrow> u8 list ptr \<Rightarrow> u32 \<Rightarrow> runtime_fs_image_layout ptr \<Rightarrow> (int \<times> runtime_fs ptr \<times> runtime_fs_image_layout ptr) option" where
  "runtime_fs_image_import fs buffer n layout =
     (if fs = None \<or> buffer = None then Some (RUNTIME_SYSCALL_STATUS_EINVAL, fs, layout)
      else do {
        (status, layout) \<leftarrow> runtime_fs_image_validate buffer n layout;
        if status \<noteq> RUNTIME_SYSCALL_STATUS_OK then Some (RUNTIME_SYSCALL_STATUS_EINVAL, fs, layout)
        else do {
          header \<leftarrow> runtime_fs_image_parse_header buffer n;
          case (buffer, header) of
            (Some bytes, Some h) \<Rightarrow>
              let fs0 = runtime_fs_init;
                  fs1 = fs0\<lparr>nodes := map import_clear_node (nodes fs0), open_files := map import_clear_open (open_files fs0)\<rparr>;
                  record_offset = unat (ih_header_bytes h);
                  tree_offset = record_offset + unat (ih_record_count h) * unat (ih_record_bytes h);
                  data_offset = tree_offset + unat (ih_tree_hash_count h) * 4 in
              do {
                fs2 \<leftarrow> import_records bytes record_offset (unat (ih_record_bytes h)) data_offset [0..<unat (ih_record_count h)] fs1;
                status \<leftarrow> runtime_fs_validate fs2;
                Some (status, Some fs2, layout) }
          | _ \<Rightarrow> Some (RUNTIME_SYSCALL_STATUS_EINVAL, fs, layout) } })"

end
