(* ===== verification/Runtime_Fs_Image_Bytes.thy ===== *)
theory Runtime_Fs_Image_Bytes
  imports Runtime_Fs_Image
begin

text \<open>
  The bytes of an image. Writing into a buffer is a patch; patches side by side are one patch, and reading a slice of a
  patch gives back what was written. With these laws the export loop is one patch: header, records, tree and payload.
\<close>

section \<open>Patches and slices\<close>

definition patch :: "nat \<Rightarrow> 'a list \<Rightarrow> 'a list \<Rightarrow> 'a list" where
  "patch off xs b = take off b @ xs @ drop (off + length xs) b"

definition slice :: "nat \<Rightarrow> nat \<Rightarrow> 'a list \<Rightarrow> 'a list" where
  "slice off n b = take n (drop off b)"

lemma length_patch [simp]: "off + length xs \<le> length b \<Longrightarrow> length (patch off xs b) = length b"
  by (simp add: patch_def)

lemma patch_Nil [simp]: "patch off [] b = b"
  by (simp add: patch_def)

lemma nth_patch:
  "off + length xs \<le> length b \<Longrightarrow> i < length b \<Longrightarrow>
   patch off xs b ! i = (if off \<le> i \<and> i < off + length xs then xs ! (i - off) else b ! i)"
  by (auto simp: patch_def nth_append min_def)

lemma patch_eqI:
  assumes "length c = length b" "off + length xs \<le> length b"
    and "\<And>i. i < length xs \<Longrightarrow> c ! (off + i) = xs ! i" and "\<And>i. i < length b \<Longrightarrow> i < off \<or> off + length xs \<le> i \<Longrightarrow> c ! i = b ! i"
  shows "c = patch off xs b"
proof (rule nth_equalityI)
  fix i assume "i < length c"
  then show "c ! i = patch off xs b ! i" using assms(1,2) assms(3) [of "i - off"] assms(4) [of i] by (auto simp: nth_patch)
qed (use assms(1,2) in simp)

lemma patch_adjacent:
  assumes "off + length xs + length ys \<le> length b"
  shows "patch (off + length xs) ys (patch off xs b) = patch off (xs @ ys) b"
  using assms by (intro patch_eqI) (auto simp: nth_patch nth_append)

lemma patch_commute:
  assumes "o1 + length xs \<le> o2" "o2 + length ys \<le> length b"
  shows "patch o1 xs (patch o2 ys b) = patch o2 ys (patch o1 xs b)"
  by (rule nth_equalityI) (use assms in \<open>auto simp: nth_patch\<close>)

lemma list_update_patch: "i < length b \<Longrightarrow> b[i := x] = patch i [x] b"
  by (simp add: patch_def upd_conv_take_nth_drop)

lemma fold_update_patch:
  "off + length xs \<le> length b \<Longrightarrow> fold (\<lambda>i b. b[off + i := xs ! i]) [0..<length xs] b = patch off xs b"
proof (induction xs rule: rev_induct)
  case (snoc x xs)
  have "fold (\<lambda>i b. b[off + i := (xs @ [x]) ! i]) [0..<length xs] b = fold (\<lambda>i b. b[off + i := xs ! i]) [0..<length xs] b"
    by (rule fold_cong) (auto simp: nth_append)
  then show ?case using snoc patch_adjacent [of off xs "[x]" b] by (simp add: list_update_patch)
qed simp

lemma length_slice [simp]: "off + n \<le> length b \<Longrightarrow> length (slice off n b) = n"
  by (simp add: slice_def)

lemma nth_slice: "i < n \<Longrightarrow> off + n \<le> length b \<Longrightarrow> slice off n b ! i = b ! (off + i)"
  by (simp add: slice_def)

lemma slice_slice: "i + m \<le> n \<Longrightarrow> slice (off + i) m b = slice i m (slice off n b)"
  by (simp add: slice_def drop_take min_def add.commute)

lemma slice_append_left: "off + n \<le> length xs \<Longrightarrow> slice off n (xs @ ys) = slice off n xs"
  by (simp add: slice_def)

lemma slice_append_right: "slice (length xs + off) n (xs @ ys) = slice off n ys"
  by (simp add: slice_def)

lemma slice_middle: "off = length xs \<Longrightarrow> n = length ys \<Longrightarrow> slice off n (xs @ ys @ zs) = ys"
  by (simp add: slice_def)

lemma slice_take: "off + n \<le> m \<Longrightarrow> slice off n (take m b) = slice off n b"
  by (simp add: slice_def drop_take min_def)

lemma take_patch_0: "length xs \<le> length b \<Longrightarrow> take (length xs) (patch 0 xs b) = xs"
  by (simp add: patch_def)

section \<open>Words\<close>

definition u32_bytes :: "u32 \<Rightarrow> u8 list" where
  "u32_bytes v = [ucast (v AND 0xFF), ucast (drop_bit 8 v AND 0xFF), ucast (drop_bit 16 v AND 0xFF), ucast (drop_bit 24 v AND 0xFF)]"

lemma length_u32_bytes [simp]: "length (u32_bytes v) = 4"
  by (simp add: u32_bytes_def)

lemma store_u32_patch: "off + 4 \<le> length b \<Longrightarrow> runtime_fs_image_store_u32 b off v = patch off (u32_bytes v) b"
  using fold_update_patch [of off "u32_bytes v" b]
  by (simp add: runtime_fs_image_store_u32_def u32_bytes_def upt_rec numeral_eq_Suc)

lemma bytes_word:
  "ucast (ucast (v AND 0xFF) :: u8) OR push_bit 8 (ucast (ucast (drop_bit 8 v AND 0xFF) :: u8)) OR
   push_bit 16 (ucast (ucast (drop_bit 16 v AND 0xFF) :: u8)) OR push_bit 24 (ucast (ucast (drop_bit 24 v AND 0xFF) :: u8)) = (v :: u32)"
proof (rule bit_word_eqI)
  fix n assume n: "n < LENGTH(32)"
  have eq: "(0xFF :: u32) = mask 8" by (simp add: mask_eq_exp_minus_1)
  have "n < 8 \<or> (8 \<le> n \<and> n < 16) \<or> (16 \<le> n \<and> n < 24) \<or> (24 \<le> n \<and> n < 32)" using n by auto
  then show "bit (ucast (ucast (v AND 0xFF) :: u8) OR push_bit 8 (ucast (ucast (drop_bit 8 v AND 0xFF) :: u8)) OR
    push_bit 16 (ucast (ucast (drop_bit 16 v AND 0xFF) :: u8)) OR push_bit 24 (ucast (ucast (drop_bit 24 v AND 0xFF) :: u8)) :: u32) n = bit v n"
    unfolding eq using n by (elim disjE) (auto simp: bit_or_iff bit_and_iff bit_push_bit_iff bit_drop_bit_eq bit_unsigned_iff bit_mask_iff)
qed

lemma load_u32_slice:
  assumes "off + 4 \<le> length b" "slice off 4 b = u32_bytes v"
  shows "runtime_fs_image_load_u32 b off = Some v"
proof -
  have "b ! (off + i) = u32_bytes v ! i" if "i < 4" for i using nth_slice [OF that assms(1)] assms(2) by simp
  from this [of 0] this [of 1] this [of 2] this [of 3] show ?thesis
    using assms(1) bytes_word [of v] by (simp add: runtime_fs_image_load_u32_def u32_bytes_def)
qed

definition words_bytes :: "u32 list \<Rightarrow> u8 list" where
  "words_bytes ws = concat (map u32_bytes ws)"

lemma words_bytes_simps [simp]: "words_bytes [] = []" "words_bytes (w # ws) = u32_bytes w @ words_bytes ws"
  "words_bytes (ws @ vs) = words_bytes ws @ words_bytes vs"
  by (simp_all add: words_bytes_def)

lemma length_words_bytes [simp]: "length (words_bytes ws) = 4 * length ws"
  by (induction ws) simp_all

lemma slice_words: "i < length ws \<Longrightarrow> slice (4 * i) 4 (words_bytes ws) = u32_bytes (ws ! i)"
proof (induction ws arbitrary: i)
  case (Cons w ws)
  then show ?case using slice_append_right [of "u32_bytes w" "4 * (i - 1)" 4 "words_bytes ws"]
    by (cases i) (simp_all add: slice_def)
qed simp

lemma load_u32_words:
  assumes "slice off (4 * length ws) b = words_bytes ws" "off + 4 * length ws \<le> length b" "i < length ws"
  shows "runtime_fs_image_load_u32 b (off + 4 * i) = Some (ws ! i)"
  using assms slice_slice [of "4 * i" 4 "4 * length ws" off b] slice_words [OF assms(3)]
  by (intro load_u32_slice) auto

lemma load_words_slice:
  "slice off (4 * length ws) b = words_bytes ws \<Longrightarrow> off + 4 * length ws \<le> length b \<Longrightarrow> load_words b off (length ws) = Some ws"
proof (induction ws arbitrary: off)
  case (Cons w ws)
  have "slice (off + 4) (4 * length ws) b = words_bytes ws"
    using slice_slice [of 4 "4 * length ws" "4 * length (w # ws)" off b] Cons.prems(1) by (simp add: slice_def)
  then show ?case using Cons.IH [of "off + 4"] load_u32_words [OF Cons.prems, of 0] Cons.prems(2) by simp
qed simp

lemma store_words_patch:
  "off + 4 * length ws \<le> length b \<Longrightarrow>
   fold (\<lambda>i b. runtime_fs_image_store_u32 b (off + i * 4) (ws ! i)) [0..<length ws] b = patch off (words_bytes ws) b"
proof (induction ws rule: rev_induct)
  case (snoc w ws)
  have "fold (\<lambda>i b. runtime_fs_image_store_u32 b (off + i * 4) ((ws @ [w]) ! i)) [0..<length ws] b =
      fold (\<lambda>i b. runtime_fs_image_store_u32 b (off + i * 4) (ws ! i)) [0..<length ws] b"
    by (rule fold_cong) (auto simp: nth_append)
  then show ?case using snoc patch_adjacent [of off "words_bytes ws" "u32_bytes w" b]
    by (simp add: store_u32_patch mult.commute)
qed simp


section \<open>Records\<close>

definition record_words :: "runtime_fs_image_record \<Rightarrow> u32 list" where
  "record_words r = [ir_node_index r, ir_type r, ir_parent_index r, ir_owner_pid r, ir_mode r, ir_size_bytes r, ir_data_offset r,
     ir_data_size r, ir_data_hash r, ir_object_hash r]"

definition record_bytes :: "runtime_fs_image_record \<Rightarrow> u8 list" where
  "record_bytes r = words_bytes (record_words r) @ map of_char (ir_name r)"

lemma length_record_words [simp]: "length (record_words r) = 10"
  by (simp add: record_words_def)

lemma length_record_bytes [simp]: "length (ir_name r) = RUNTIME_FS_NAME_CAPACITY \<Longrightarrow> length (record_bytes r) = RUNTIME_FS_IMAGE_RECORD_BYTES"
  by (simp add: record_bytes_def RUNTIME_FS_IMAGE_RECORD_BYTES_def)

lemma write_record_patch:
  assumes "length (ir_name r) = RUNTIME_FS_NAME_CAPACITY" "off + RUNTIME_FS_IMAGE_RECORD_BYTES \<le> length b"
  shows "runtime_fs_image_write_record b off r = patch off (record_bytes r) b"
proof -
  let ?b = "patch off (words_bytes (record_words r)) b"
  have len: "off + 40 + RUNTIME_FS_NAME_CAPACITY \<le> length b" using assms(2) by (simp add: RUNTIME_FS_IMAGE_RECORD_BYTES_def)
  have upt: "[0..<10] = [0, 1, 2, 3, 4, 5, 6, 7, 8, 9 :: nat]" by (simp add: upt_rec)
  have "fold (\<lambda>i b. runtime_fs_image_store_u32 b (off + i * 4) (record_words r ! i)) [0..<10] b = ?b"
    using store_words_patch [of off "record_words r" b] len by simp
  then have "runtime_fs_image_write_record b off r =
      fold (\<lambda>i b. b[off + 40 + i := of_char (ir_name r ! i)]) [0..<RUNTIME_FS_NAME_CAPACITY] ?b"
    unfolding upt by (simp add: runtime_fs_image_write_record_def record_words_def)
  also have "\<dots> = fold (\<lambda>i b. b[off + 40 + i := map of_char (ir_name r) ! i]) [0..<length (map of_char (ir_name r) :: u8 list)] ?b"
    using assms(1) by (intro fold_cong) auto
  also have "\<dots> = patch (off + 40) (map of_char (ir_name r)) ?b" by (rule fold_update_patch) (use len assms(1) in simp)
  also have "\<dots> = patch off (record_bytes r) b"
    using patch_adjacent [of off "words_bytes (record_words r)" "map of_char (ir_name r)" b] len assms(1) by (simp add: record_bytes_def)
  finally show ?thesis .
qed

lemma char_of_unat_of_char [simp]: "char_of (unat (of_char c :: u8)) = c"
proof -
  have "(of_char c :: u8) = of_nat (of_char c)" by (simp add: of_char_def)
  moreover have "(of_char c :: nat) < 256" by (rule of_char_mod_256 [THEN subst, of "\<lambda>n. n < 256"]) simp
  ultimately have "unat (of_char c :: u8) = of_char c" by (simp add: unat_of_nat take_bit_eq_mod)
  then show ?thesis by simp
qed

lemma read_record_slice:
  assumes "length (ir_name r) = RUNTIME_FS_NAME_CAPACITY" "off + RUNTIME_FS_IMAGE_RECORD_BYTES \<le> length b"
    and "slice off RUNTIME_FS_IMAGE_RECORD_BYTES b = record_bytes r"
  shows "runtime_fs_image_read_record b off = Some r"
proof -
  have len: "off + 40 + RUNTIME_FS_NAME_CAPACITY \<le> length b" using assms(2) by (simp add: RUNTIME_FS_IMAGE_RECORD_BYTES_def)
  have "slice (off + 0) 40 b = slice 0 40 (record_bytes r)"
    using slice_slice [of 0 40 RUNTIME_FS_IMAGE_RECORD_BYTES off b] assms(3) by (simp add: RUNTIME_FS_IMAGE_RECORD_BYTES_def)
  then have words: "slice off (4 * length (record_words r)) b = words_bytes (record_words r)"
    by (simp add: record_bytes_def slice_def)
  have load: "runtime_fs_image_load_u32 b (off + 4 * i) = Some (record_words r ! i)" if "i < 10" for i
    using load_u32_words [OF words] that len by simp
  have "slice (off + 40) RUNTIME_FS_NAME_CAPACITY b = slice 40 RUNTIME_FS_NAME_CAPACITY (record_bytes r)"
    using slice_slice [of 40 RUNTIME_FS_NAME_CAPACITY RUNTIME_FS_IMAGE_RECORD_BYTES off b] assms(3)
    by (simp add: RUNTIME_FS_IMAGE_RECORD_BYTES_def)
  then have name: "slice (off + 40) RUNTIME_FS_NAME_CAPACITY b = map of_char (ir_name r)"
    using assms(1) by (simp add: record_bytes_def slice_def)
  have "map (\<lambda>i. char_of (unat (b ! (off + 40 + i)))) [0..<RUNTIME_FS_NAME_CAPACITY] = ir_name r"
  proof (rule nth_equalityI)
    fix i assume "i < length (map (\<lambda>i. char_of (unat (b ! (off + 40 + i)))) [0..<RUNTIME_FS_NAME_CAPACITY])"
    then have i: "i < RUNTIME_FS_NAME_CAPACITY" by simp
    have "b ! (off + 40 + i) = of_char (ir_name r ! i)" using nth_slice [OF i len] name i assms(1) by simp
    then show "map (\<lambda>i. char_of (unat (b ! (off + 40 + i)))) [0..<RUNTIME_FS_NAME_CAPACITY] ! i = ir_name r ! i" using i by simp
  qed (simp add: assms(1))
  then show ?thesis
    using load [of 0] load [of 1] load [of 2] load [of 3] load [of 4] load [of 5] load [of 6] load [of 7] load [of 8] load [of 9] len
    by (simp add: runtime_fs_image_read_record_def record_words_def)
qed

section \<open>The image as one list\<close>

definition node_data_size :: "runtime_fs_node \<Rightarrow> nat" where
  "node_data_size nd = (if nd_type nd = RUNTIME_FILE_TYPE_REGULAR then nd_size_bytes nd else 0)"

definition node_payload :: "runtime_fs_node \<Rightarrow> u8 list" where
  "node_payload nd = take (node_data_size nd) (nd_data nd)"

fun records_from :: "runtime_fs \<Rightarrow> nat list \<Rightarrow> nat \<Rightarrow> runtime_fs_image_record list" where
  "records_from fs [] p = []"
| "records_from fs (i # is) p =
     image_record_of i (nodes fs ! i) p # records_from fs is (p + node_data_size (nodes fs ! i))"

definition payload_of :: "runtime_fs \<Rightarrow> nat list \<Rightarrow> u8 list" where
  "payload_of fs is = concat (map (\<lambda>i. node_payload (nodes fs ! i)) is)"

definition records_bytes :: "runtime_fs_image_record list \<Rightarrow> u8 list" where
  "records_bytes rs = concat (map record_bytes rs)"

text \<open>A node that fits: sizes and the arrays.\<close>

definition fits :: "runtime_fs_node \<Rightarrow> bool" where
  "fits nd \<longleftrightarrow> nd_size_bytes nd \<le> RUNTIME_FS_FILE_CAPACITY \<and> node_shape nd"

lemma fold_clear: "length d = n \<Longrightarrow> fold (\<lambda>clear d. d[clear := NUL]) [0..<n] d = replicate n NUL"
  using fold_update_0 [of "\<lambda>_. NUL" n d] by (simp add: map_replicate_const)

lemma image_copy_name_length [simp]:
  "length dest = RUNTIME_FS_NAME_CAPACITY \<Longrightarrow> length (runtime_fs_image_copy_name dest src) = RUNTIME_FS_NAME_CAPACITY"
  by (simp add: runtime_fs_image_copy_name_def length_copy_name_at)

lemma image_record_of_simps [simp]:
  "ir_node_index (image_record_of i nd p) = of_nat i" "ir_type (image_record_of i nd p) = nd_type nd"
  "ir_parent_index (image_record_of i nd p) = of_nat (nd_parent_index nd)" "ir_owner_pid (image_record_of i nd p) = nd_owner_pid nd"
  "ir_mode (image_record_of i nd p) = nd_mode nd" "ir_size_bytes (image_record_of i nd p) = of_nat (nd_size_bytes nd)"
  "ir_data_offset (image_record_of i nd p) = of_nat p" "ir_data_size (image_record_of i nd p) = of_nat (node_data_size nd)"
  "ir_name (image_record_of i nd p) = runtime_fs_image_copy_name (replicate RUNTIME_FS_NAME_CAPACITY NUL) (nd_name nd)"
  by (simp_all add: image_record_of_def Let_def node_data_size_def)

lemma image_record_of_name_length [simp]: "length (ir_name (image_record_of i nd p)) = RUNTIME_FS_NAME_CAPACITY"
  by simp

lemma node_data_size_small: "fits nd \<Longrightarrow> node_data_size nd \<le> RUNTIME_FS_FILE_CAPACITY"
  by (simp add: node_data_size_def fits_def)

lemma unat_data_size: "fits nd \<Longrightarrow> unat (of_nat (node_data_size nd) :: u32) = node_data_size nd"
  using node_data_size_small [of nd] by (intro unat_small) (simp add: RUNTIME_FS_FILE_CAPACITY_def)

lemma length_node_payload [simp]: "fits nd \<Longrightarrow> length (node_payload nd) = node_data_size nd"
  using node_data_size_small [of nd] by (simp add: node_payload_def fits_def node_shape_def)


lemma length_records_from [simp]: "length (records_from fs is p) = length is"
  by (induction "is" arbitrary: p) simp_all

lemma length_records_bytes:
  "\<forall>r \<in> set rs. length (ir_name r) = RUNTIME_FS_NAME_CAPACITY \<Longrightarrow> length (records_bytes rs) = length rs * RUNTIME_FS_IMAGE_RECORD_BYTES"
  by (induction rs) (simp_all add: records_bytes_def)

lemma records_from_names: "r \<in> set (records_from fs is p) \<Longrightarrow> length (ir_name r) = RUNTIME_FS_NAME_CAPACITY"
  by (induction "is" arbitrary: p) auto

lemma length_records_from_bytes [simp]:
  "length (records_bytes (records_from fs is p)) = length is * RUNTIME_FS_IMAGE_RECORD_BYTES"
  using length_records_bytes [of "records_from fs is p"] records_from_names by simp

lemma length_payload_of:
  "\<forall>i \<in> set is. fits (nodes fs ! i) \<Longrightarrow> length (payload_of fs is) = sum_list (map (\<lambda>i. node_data_size (nodes fs ! i)) is)"
  by (induction "is") (simp_all add: payload_of_def)

lemma copy_payload_patch:
  assumes "fits nd" "off + node_data_size nd \<le> length b"
  shows "fold (\<lambda>i b. b[off + i := nd_data nd ! i]) [0..<node_data_size nd] b = patch off (node_payload nd) b"
proof -
  have "fold (\<lambda>i b. b[off + i := nd_data nd ! i]) [0..<node_data_size nd] b =
      fold (\<lambda>i b. b[off + i := node_payload nd ! i]) [0..<length (node_payload nd)] b"
    unfolding length_node_payload [OF assms(1)] by (rule fold_cong) (auto simp: node_payload_def)
  also have "\<dots> = patch off (node_payload nd) b" by (rule fold_update_patch) (use assms in simp)
  finally show ?thesis .
qed

lemma export_node_used:
  assumes "nd_used (nodes fs ! i)" "fits (nodes fs ! i)" "ro + RUNTIME_FS_IMAGE_RECORD_BYTES \<le> length b"
    and "D + p + node_data_size (nodes fs ! i) \<le> length b"
  shows "export_node fs D i (b, ro, p, hs) =
    (patch (D + p) (node_payload (nodes fs ! i)) (patch ro (record_bytes (image_record_of i (nodes fs ! i) p)) b),
     ro + RUNTIME_FS_IMAGE_RECORD_BYTES, p + node_data_size (nodes fs ! i), hs @ [ir_object_hash (image_record_of i (nodes fs ! i) p)])"
  using assms copy_payload_patch [OF assms(2), of "D + p"] by (simp add: export_node_def Let_def unat_data_size write_record_patch)

lemma export_loop_used:
  assumes "\<forall>i \<in> set is. nd_used (nodes fs ! i) \<and> fits (nodes fs ! i)" "ro + length is * RUNTIME_FS_IMAGE_RECORD_BYTES \<le> D"
    and "D + p + length (payload_of fs is) \<le> length b"
  shows "fold (export_node fs D) is (b, ro, p, hs) =
    (patch (D + p) (payload_of fs is) (patch ro (records_bytes (records_from fs is p)) b),
     ro + length is * RUNTIME_FS_IMAGE_RECORD_BYTES, p + length (payload_of fs is), hs @ map ir_object_hash (records_from fs is p))"
  using assms
proof (induction "is" arbitrary: b ro p hs)
  case Nil
  then show ?case by (simp add: payload_of_def records_bytes_def)
next
  case (Cons i "is")
  define nd where "nd = nodes fs ! i"
  define r where "r = record_bytes (image_record_of i nd p)"
  define rs where "rs = records_bytes (records_from fs is (p + node_data_size nd))"
  define d where "d = payload_of fs is"
  have used: "nd_used nd" "fits nd" using Cons.prems(1) by (simp_all add: nd_def)
  have r: "length r = RUNTIME_FS_IMAGE_RECORD_BYTES" by (simp add: r_def)
  have rs: "length rs = length is * RUNTIME_FS_IMAGE_RECORD_BYTES" by (simp add: rs_def)
  have pay: "payload_of fs (i # is) = node_payload nd @ d" by (simp add: payload_of_def nd_def d_def)
  have len: "ro + RUNTIME_FS_IMAGE_RECORD_BYTES + length rs \<le> D" "D + p + node_data_size nd + length d \<le> length b"
    using Cons.prems(2,3) used(2) unfolding rs pay by simp_all
  let ?b = "patch (D + p) (node_payload nd) (patch ro r b)"
  have "fold (export_node fs D) (i # is) (b, ro, p, hs) =
      fold (export_node fs D) is (?b, ro + RUNTIME_FS_IMAGE_RECORD_BYTES, p + node_data_size nd,
        hs @ [ir_object_hash (image_record_of i nd p)])"
    using export_node_used [of fs i ro b D p hs] used len by (simp add: nd_def r_def)
  also have "\<dots> = (patch (D + (p + node_data_size nd)) d (patch (ro + RUNTIME_FS_IMAGE_RECORD_BYTES) rs ?b),
      ro + RUNTIME_FS_IMAGE_RECORD_BYTES + length is * RUNTIME_FS_IMAGE_RECORD_BYTES, p + node_data_size nd + length d,
      (hs @ [ir_object_hash (image_record_of i nd p)]) @ map ir_object_hash (records_from fs is (p + node_data_size nd)))"
    unfolding d_def rs_def by (rule Cons.IH) (use Cons.prems(1) len rs r used in \<open>auto simp: d_def\<close>)
  also have "patch (ro + RUNTIME_FS_IMAGE_RECORD_BYTES) rs ?b = patch (D + p) (node_payload nd) (patch ro (r @ rs) b)"
    using patch_commute [of "ro + RUNTIME_FS_IMAGE_RECORD_BYTES" rs "D + p" "node_payload nd" "patch ro r b"]
      patch_adjacent [of ro r rs b] len r used(2) by simp
  also have "patch (D + (p + node_data_size nd)) d \<dots> = patch (D + p) (node_payload nd @ d) (patch ro (r @ rs) b)"
    using patch_adjacent [of "D + p" "node_payload nd" d "patch ro (r @ rs) b"] len r used(2) by (simp add: add.assoc)
  finally show ?case using used(2) unfolding pay by (simp add: r_def rs_def nd_def records_bytes_def add.assoc)
qed

lemma fold_filter: "(\<And>x s. \<not> P x \<Longrightarrow> f x s = s) \<Longrightarrow> fold f xs s = fold f (filter P xs) s"
  by (induction xs arbitrary: s) auto

definition used_nodes :: "runtime_fs \<Rightarrow> nat list" where
  "used_nodes fs = filter (\<lambda>i. nd_used (nodes fs ! i)) [0..<RUNTIME_FS_MAX_NODES]"

lemma export_loop:
  "fold (export_node fs D) [0..<RUNTIME_FS_MAX_NODES] st = fold (export_node fs D) (used_nodes fs) st"
  unfolding used_nodes_def by (rule fold_filter) (auto simp: export_node_def split: prod.split)

lemma record_count_used: "runtime_fs_image_record_count fs = length (used_nodes fs)"
  by (simp add: runtime_fs_image_record_count_def used_nodes_def)

lemma data_bytes_used: "runtime_fs_image_data_bytes fs = sum_list (map (\<lambda>i. node_data_size (nodes fs ! i)) (used_nodes fs))"
proof -
  have "fold (\<lambda>i n. if nd_used (nodes fs ! i) \<and> nd_type (nodes fs ! i) = RUNTIME_FILE_TYPE_REGULAR
      then n + nd_size_bytes (nodes fs ! i) else n) xs n =
    n + sum_list (map (\<lambda>i. node_data_size (nodes fs ! i)) (filter (\<lambda>i. nd_used (nodes fs ! i)) xs))" for xs n
    by (induction xs arbitrary: n) (simp_all add: node_data_size_def)
  then show ?thesis by (simp add: runtime_fs_image_data_bytes_def used_nodes_def)
qed


section \<open>The tree of hashes\<close>

lemma tree_fold:
  "2 * m < length t \<Longrightarrow>
   length (fold (\<lambda>p t. t[p := H (t ! (p * 2 + 1)) (t ! (p * 2 + 2))]) (rev [0..<m]) t) = length t \<and>
   (\<forall>i \<ge> m. fold (\<lambda>p t. t[p := H (t ! (p * 2 + 1)) (t ! (p * 2 + 2))]) (rev [0..<m]) t ! i = t ! i) \<and>
   (\<forall>p < m. fold (\<lambda>p t. t[p := H (t ! (p * 2 + 1)) (t ! (p * 2 + 2))]) (rev [0..<m]) t ! p =
      H (fold (\<lambda>p t. t[p := H (t ! (p * 2 + 1)) (t ! (p * 2 + 2))]) (rev [0..<m]) t ! (p * 2 + 1))
        (fold (\<lambda>p t. t[p := H (t ! (p * 2 + 1)) (t ! (p * 2 + 2))]) (rev [0..<m]) t ! (p * 2 + 2)))"
proof (induction m arbitrary: t)
  case (Suc m)
  define t' where "t' = t[m := H (t ! (m * 2 + 1)) (t ! (m * 2 + 2))]"
  define u where "u = fold (\<lambda>p t. t[p := H (t ! (p * 2 + 1)) (t ! (p * 2 + 2))]) (rev [0..<m]) t'"
  have u: "fold (\<lambda>p t. t[p := H (t ! (p * 2 + 1)) (t ! (p * 2 + 2))]) (rev [0..<Suc m]) t = u"
    by (simp add: u_def t'_def)
  have len: "length t' = length t" by (simp add: t'_def)
  have ih: "length u = length t'" "\<And>i. m \<le> i \<Longrightarrow> u ! i = t' ! i" "\<And>p. p < m \<Longrightarrow> u ! p = H (u ! (p * 2 + 1)) (u ! (p * 2 + 2))"
    using Suc.IH [of t'] Suc.prems len by (simp_all add: u_def)
  have "u ! m = H (u ! (m * 2 + 1)) (u ! (m * 2 + 2))"
    using ih(2) [of m] ih(2) [of "m * 2 + 1"] ih(2) [of "m * 2 + 2"] Suc.prems by (simp add: t'_def)
  moreover have "u ! i = t ! i" if "Suc m \<le> i" for i using ih(2) [of i] that by (simp add: t'_def)
  ultimately show ?case unfolding u using ih(1,3) len by (auto simp: less_Suc_eq)
qed simp

lemma export_tree_props:
  assumes "0 < L"
  shows "length (export_tree L hs) = L * 2 - 1"
    and "i < L \<Longrightarrow> export_tree L hs ! (L - 1 + i) = (if i < length hs then hs ! i else RUNTIME_FS_IMAGE_HASH_EMPTY)"
    and "p < L - 1 \<Longrightarrow> export_tree L hs ! p =
      runtime_fs_image_tree_hash (export_tree L hs ! (p * 2 + 1)) (export_tree L hs ! (p * 2 + 2))"
proof -
  define t where "t = fold (\<lambda>i t. t[L * 2 - 1 - L + i := (if i < length hs then hs ! i else RUNTIME_FS_IMAGE_HASH_EMPTY)])
    [0..<L] (replicate (L * 2 - 1) RUNTIME_FS_IMAGE_HASH_EMPTY)"
  have m: "L * 2 - 1 - L = L - 1" by simp
  have len: "length t = L * 2 - 1" by (simp add: t_def)
  have leaf: "t ! (L - 1 + i) = (if i < length hs then hs ! i else RUNTIME_FS_IMAGE_HASH_EMPTY)" if "i < L" for i
    unfolding t_def m using that assms by (subst nth_fold_update) auto
  have eq: "export_tree L hs = fold (\<lambda>p t. t[p := runtime_fs_image_tree_hash (t ! (p * 2 + 1)) (t ! (p * 2 + 2))]) (rev [0..<L - 1]) t"
    by (simp add: export_tree_def Let_def t_def m)
  have "2 * (L - 1) < length t" using assms len by simp
  note fold = tree_fold [OF this, of runtime_fs_image_tree_hash, folded eq]
  show "length (export_tree L hs) = L * 2 - 1" using fold len by simp
  show "export_tree L hs ! (L - 1 + i) = (if i < length hs then hs ! i else RUNTIME_FS_IMAGE_HASH_EMPTY)" if "i < L"
    using fold leaf [OF that] by simp
  show "export_tree L hs ! p = runtime_fs_image_tree_hash (export_tree L hs ! (p * 2 + 1)) (export_tree L hs ! (p * 2 + 2))" if "p < L - 1"
    using fold that by blast
qed

lemma next_pow2_props:
  assumes "0 < n" "n \<le> RUNTIME_FS_MAX_NODES"
  shows "n \<le> runtime_fs_image_next_pow2 n" "runtime_fs_image_next_pow2 n \<le> RUNTIME_FS_MAX_NODES"
    "runtime_fs_image_next_pow2 (runtime_fs_image_next_pow2 n) = runtime_fs_image_next_pow2 n"
proof -
  have "\<forall>n \<in> set [1..<17]. n \<le> runtime_fs_image_next_pow2 n \<and> runtime_fs_image_next_pow2 n \<le> 16 \<and>
    runtime_fs_image_next_pow2 (runtime_fs_image_next_pow2 n) = runtime_fs_image_next_pow2 n" by code_simp
  moreover have "n \<in> set [1..<17]" using assms by (simp add: RUNTIME_FS_MAX_NODES_def)
  ultimately show "n \<le> runtime_fs_image_next_pow2 n" "runtime_fs_image_next_pow2 n \<le> RUNTIME_FS_MAX_NODES"
    "runtime_fs_image_next_pow2 (runtime_fs_image_next_pow2 n) = runtime_fs_image_next_pow2 n"
    by (auto simp: RUNTIME_FS_MAX_NODES_def)
qed

section \<open>The exported image\<close>

definition image_records :: "runtime_fs \<Rightarrow> runtime_fs_image_record list" where
  "image_records fs = records_from fs (used_nodes fs) 0"

definition image_leaves :: "runtime_fs \<Rightarrow> nat" where
  "image_leaves fs = runtime_fs_image_next_pow2 (length (used_nodes fs))"

definition image_tree :: "runtime_fs \<Rightarrow> u32 list" where
  "image_tree fs = export_tree (image_leaves fs) (map ir_object_hash (image_records fs))"

definition image_payload :: "runtime_fs \<Rightarrow> u8 list" where
  "image_payload fs = payload_of fs (used_nodes fs)"

definition image_length :: "runtime_fs \<Rightarrow> nat" where
  "image_length fs = image_bytes_for (length (used_nodes fs)) (length (image_payload fs))"

definition image_header :: "runtime_fs \<Rightarrow> runtime_fs_image_header" where
  "image_header fs = \<lparr>ih_magic = RUNTIME_FS_IMAGE_MAGIC, ih_version = RUNTIME_FS_IMAGE_VERSION,
     ih_header_bytes = of_nat RUNTIME_FS_IMAGE_HEADER_BYTES, ih_record_count = of_nat (length (used_nodes fs)),
     ih_record_bytes = of_nat RUNTIME_FS_IMAGE_RECORD_BYTES, ih_tree_leaf_count = of_nat (image_leaves fs),
     ih_tree_hash_count = of_nat (image_leaves fs * 2 - 1), ih_data_bytes = of_nat (length (image_payload fs)),
     ih_root_hash = image_tree fs ! 0, ih_image_bytes = of_nat (image_length fs)\<rparr>"

definition header_words :: "runtime_fs_image_header \<Rightarrow> u32 list" where
  "header_words h = [ih_magic h, ih_version h, ih_header_bytes h, ih_record_count h, ih_record_bytes h, ih_tree_leaf_count h,
     ih_tree_hash_count h, ih_data_bytes h, ih_root_hash h, ih_image_bytes h]"

definition image_of :: "runtime_fs \<Rightarrow> u8 list" where
  "image_of fs = words_bytes (header_words (image_header fs)) @ records_bytes (image_records fs) @ words_bytes (image_tree fs) @ image_payload fs"

definition header_layout :: "runtime_fs_image_header \<Rightarrow> runtime_fs_image_layout" where
  "header_layout h = \<lparr>il_record_count = ih_record_count h, il_tree_leaf_count = ih_tree_leaf_count h,
     il_tree_hash_count = ih_tree_hash_count h, il_data_bytes = ih_data_bytes h, il_image_bytes = ih_image_bytes h,
     il_root_hash = ih_root_hash h\<rparr>"

text \<open>What the exporter needs of the file system.\<close>

definition exportable :: "runtime_fs \<Rightarrow> bool" where
  "exportable fs \<longleftrightarrow> (\<forall>i \<in> set (used_nodes fs). fits (nodes fs ! i)) \<and> used_nodes fs \<noteq> []"

lemma used_nodes_bound: "length (used_nodes fs) \<le> RUNTIME_FS_MAX_NODES"
  unfolding used_nodes_def using length_filter_le [of "\<lambda>i. nd_used (nodes fs ! i)" "[0..<RUNTIME_FS_MAX_NODES]"] by simp

lemma image_leaves_bounds:
  assumes "exportable fs"
  shows "0 < image_leaves fs" "length (used_nodes fs) \<le> image_leaves fs" "image_leaves fs \<le> RUNTIME_FS_MAX_NODES"
    "runtime_fs_image_next_pow2 (image_leaves fs) = image_leaves fs"
proof -
  have "0 < length (used_nodes fs)" using assms by (simp add: exportable_def)
  note next_pow2_props [OF this used_nodes_bound]
  with \<open>0 < length (used_nodes fs)\<close> show "0 < image_leaves fs" "length (used_nodes fs) \<le> image_leaves fs" "image_leaves fs \<le> RUNTIME_FS_MAX_NODES"
    "runtime_fs_image_next_pow2 (image_leaves fs) = image_leaves fs"
    unfolding image_leaves_def by linarith+
qed

lemma length_image_records [simp]: "length (image_records fs) = length (used_nodes fs)"
  by (simp add: image_records_def)

lemma length_image_records_bytes [simp]:
  "length (records_bytes (image_records fs)) = length (used_nodes fs) * RUNTIME_FS_IMAGE_RECORD_BYTES"
  by (simp add: image_records_def)

lemma length_image_tree: "exportable fs \<Longrightarrow> length (image_tree fs) = image_leaves fs * 2 - 1"
  unfolding image_tree_def by (rule export_tree_props) (rule image_leaves_bounds)

lemma image_length_eq:
  "image_length fs = 40 + length (used_nodes fs) * RUNTIME_FS_IMAGE_RECORD_BYTES + (image_leaves fs * 2 - 1) * 4 + length (image_payload fs)"
  by (simp add: image_length_def image_bytes_for_def RUNTIME_FS_IMAGE_HEADER_BYTES_def image_leaves_def)

lemma length_image_of: "exportable fs \<Longrightarrow> length (image_of fs) = image_length fs"
  by (simp add: image_of_def header_words_def image_length_eq length_image_tree)

lemma data_bytes_payload: "exportable fs \<Longrightarrow> runtime_fs_image_data_bytes fs = length (image_payload fs)"
  by (simp add: data_bytes_used image_payload_def length_payload_of exportable_def)

lemma store_header_patch:
  assumes "40 \<le> length b"
  shows "export_header b n l t d root im = patch 0 (words_bytes [RUNTIME_FS_IMAGE_MAGIC, RUNTIME_FS_IMAGE_VERSION,
     of_nat RUNTIME_FS_IMAGE_HEADER_BYTES, of_nat n, of_nat RUNTIME_FS_IMAGE_RECORD_BYTES, of_nat l, of_nat t, of_nat d, root, of_nat im]) b"
    (is "_ = patch 0 (words_bytes ?ws) b")
proof -
  have upt: "[0..<10] = [0, 1, 2, 3, 4, 5, 6, 7, 8, 9 :: nat]" by (simp add: upt_rec)
  have "fold (\<lambda>i b. runtime_fs_image_store_u32 b (0 + i * 4) (?ws ! i)) [0..<length ?ws] b = patch 0 (words_bytes ?ws) b"
    by (rule store_words_patch) (use assms in simp)
  then show ?thesis by (simp add: export_header_def upt)
qed

lemma export_bytes_image:
  assumes "exportable fs" "image_length fs \<le> length b"
  shows "export_bytes fs b = (patch 0 (image_of fs) b, image_length fs, header_layout (image_header fs))"
proof -
  define n where "n = length (used_nodes fs)"
  define T where "T = 40 + n * RUNTIME_FS_IMAGE_RECORD_BYTES"
  define D where "D = T + (image_leaves fs * 2 - 1) * 4"
  define R where "R = records_bytes (image_records fs)"
  define H where "H = words_bytes (header_words (image_header fs))"
  define W where "W = words_bytes (image_tree fs)"
  have len: "D + length (image_payload fs) \<le> length b" using assms(2) by (simp add: image_length_eq D_def T_def n_def)
  have lens: "length R = n * RUNTIME_FS_IMAGE_RECORD_BYTES" "length H = 40" "length W = (image_leaves fs * 2 - 1) * 4"
    by (simp_all add: R_def n_def H_def header_words_def W_def length_image_tree [OF assms(1)])
  have loop: "fold (export_node fs D) [0..<RUNTIME_FS_MAX_NODES] (b, 40, 0, []) =
      (patch D (image_payload fs) (patch 40 R b), 40 + n * RUNTIME_FS_IMAGE_RECORD_BYTES, length (image_payload fs), map ir_object_hash (image_records fs))"
    using export_loop_used [of "used_nodes fs" fs 40 D 0 b "[]"] assms(1) len
    by (auto simp: export_loop image_payload_def image_records_def R_def n_def exportable_def D_def T_def used_nodes_def)
  let ?b1 = "patch D (image_payload fs) (patch 40 R b)"
  have l1: "length ?b1 = length b" using len lens by (simp add: D_def T_def)
  have tree: "fold (\<lambda>i b. runtime_fs_image_store_u32 b (T + i * 4) (image_tree fs ! i)) [0..<image_leaves fs * 2 - 1] ?b1 = patch T W ?b1"
    using store_words_patch [of T "image_tree fs" ?b1] l1 len length_image_tree [OF assms(1)] by (simp add: W_def D_def)
  have all: "patch 0 H (patch T W ?b1) = patch 0 (image_of fs) b"
  proof -
    have "patch T W ?b1 = patch D (image_payload fs) (patch T W (patch 40 R b))"
      by (rule patch_commute) (use lens len in \<open>simp_all add: D_def T_def\<close>)
    also have "patch T W (patch 40 R b) = patch 40 (R @ W) b"
      using patch_adjacent [of 40 R W b] lens len by (simp add: T_def D_def)
    also have "patch D (image_payload fs) \<dots> = patch 40 (R @ W @ image_payload fs) b"
      using patch_adjacent [of 40 "R @ W" "image_payload fs" b] lens len by (simp add: T_def D_def add.assoc)
    also have "patch 0 H \<dots> = patch 40 (R @ W @ image_payload fs) (patch 0 H b)"
      by (rule patch_commute) (use lens len in \<open>simp_all add: D_def T_def\<close>)
    also have "\<dots> = patch 0 (H @ R @ W @ image_payload fs) b"
      using patch_adjacent [of 0 H "R @ W @ image_payload fs" b] lens len by (simp add: T_def D_def add.assoc)
    finally show ?thesis by (simp add: image_of_def H_def R_def W_def)
  qed
  have head: "export_header (patch T W ?b1) n (image_leaves fs) (image_leaves fs * 2 - 1) (length (image_payload fs)) (image_tree fs ! 0)
      (image_length fs) = patch 0 H (patch T W ?b1)"
    using store_header_patch [of "patch T W ?b1"] l1 lens len by (simp add: H_def header_words_def image_header_def n_def D_def T_def)
  have eqs: "runtime_fs_image_next_pow2 (length (used_nodes fs)) = image_leaves fs"
      "image_bytes_for (length (used_nodes fs)) (length (image_payload fs)) = image_length fs"
      "40 + length (used_nodes fs) * RUNTIME_FS_IMAGE_RECORD_BYTES = T"
      "T + (image_leaves fs * 2 - 1) * 4 = D" "export_tree (image_leaves fs) (map ir_object_hash (image_records fs)) = image_tree fs"
    by (simp_all add: image_leaves_def image_length_def T_def n_def D_def image_tree_def)
  show ?thesis
    by (simp only: export_bytes_def Let_def RUNTIME_FS_IMAGE_HEADER_BYTES_def record_count_used data_bytes_payload [OF assms(1)] eqs loop prod.case tree
        head [unfolded n_def] all) (simp add: header_layout_def image_header_def)
qed

end
