(* ===== verification/Runtime_Fs_Image_Valid.thy ===== *)
theory Runtime_Fs_Image_Valid
  imports Runtime_Fs_Image_Bytes
begin

text \<open>
  An exported image passes validation: the header, every record, the parents, the names and the tree of hashes are
  read back as they were written, and the checks hold because the file system was consistent.
\<close>

section \<open>File systems that can be saved\<close>

text \<open>Beyond consistency: the root has a size that fits, and the other names are path components.\<close>

definition image_ready :: "runtime_fs \<Rightarrow> bool" where
  "image_ready fs \<longleftrightarrow> fs_inv fs \<and> nd_size_bytes (nodes fs ! 0) \<le> RUNTIME_FS_FILE_CAPACITY \<and>
     (\<forall>i. i \<noteq> 0 \<longrightarrow> live fs i \<longrightarrow> component (cstr (nd_name (nodes fs ! i))))"

lemma set_used_nodes: "i \<in> set (used_nodes fs) \<longleftrightarrow> live fs i"
  by (auto simp: used_nodes_def live_def)

lemma used_nodes_sorted: "sorted_wrt (<) (used_nodes fs)"
  unfolding used_nodes_def by (intro sorted_wrt_filter) (simp add: sorted_wrt_upt)

lemma used_nodes_less: "j < k \<Longrightarrow> k < length (used_nodes fs) \<Longrightarrow> used_nodes fs ! j < used_nodes fs ! k"
  using used_nodes_sorted sorted_wrt_nth_less by blast

lemma used_nodes_live: "k < length (used_nodes fs) \<Longrightarrow> live fs (used_nodes fs ! k)"
  using set_used_nodes nth_mem by blast

lemma used_nodes_distinct: "distinct (used_nodes fs)"
  by (simp add: used_nodes_def)

lemma used_nodes_root:
  assumes "image_ready fs" shows "used_nodes fs \<noteq> []" "used_nodes fs ! 0 = 0"
proof -
  have "live fs 0" using assms root_live_dir by (auto simp: image_ready_def fs_inv_def fs_consistent_def fs_tree_def live_dir_def)
  then obtain k where k: "k < length (used_nodes fs)" "used_nodes fs ! k = 0" using set_used_nodes in_set_conv_nth by metis
  then show "used_nodes fs \<noteq> []" by auto
  show "used_nodes fs ! 0 = 0"
  proof (cases "k = 0")
    case False
    then show ?thesis using used_nodes_less [of 0 k fs] k by simp
  qed (use k in simp)
qed

lemma image_ready_fits:
  assumes "image_ready fs" "live fs i" shows "fits (nodes fs ! i)"
proof -
  have "node_shape (nodes fs ! i)" using assms by (simp add: image_ready_def fs_inv_def fs_shape_def live_def)
  moreover have "nd_size_bytes (nodes fs ! i) \<le> RUNTIME_FS_FILE_CAPACITY"
    using assms by (cases "i = 0") (auto simp: image_ready_def fs_inv_def fs_consistent_def fs_tree_def node_ok_def)
  ultimately show ?thesis by (simp add: fits_def)
qed

lemma image_ready_exportable: "image_ready fs \<Longrightarrow> exportable fs"
  by (auto simp: exportable_def used_nodes_root set_used_nodes image_ready_fits)

lemma image_ready_tree: "image_ready fs \<Longrightarrow> fs_tree fs" and image_ready_distinct: "image_ready fs \<Longrightarrow> fs_distinct fs"
  by (simp_all add: image_ready_def fs_inv_def fs_consistent_def)

lemma live_nodes_bound: "live fs i \<Longrightarrow> i < RUNTIME_FS_MAX_NODES"
  by (simp add: live_def)

lemma root_facts:
  assumes "image_ready fs"
  shows "nd_type (nodes fs ! 0) = RUNTIME_FILE_TYPE_DIRECTORY" "nd_parent_index (nodes fs ! 0) = 0" "cstr (nd_name (nodes fs ! 0)) = ''/''"
proof -
  have r: "fs_root_ok fs" using image_ready_tree [OF assms] by (simp add: fs_tree_def)
  then show "nd_type (nodes fs ! 0) = RUNTIME_FILE_TYPE_DIRECTORY" "nd_parent_index (nodes fs ! 0) = 0"
    by (simp_all add: fs_root_ok_def Let_def)
  have "cchar (nd_name (nodes fs ! 0)) 0 = CHR ''/''" "cchar (nd_name (nodes fs ! 0)) 1 = NUL"
    using r by (simp_all add: fs_root_ok_def Let_def)
  then obtain s where "nd_name (nodes fs ! 0) = CHR ''/'' # s" "cchar s 0 = NUL"
    by (cases "nd_name (nodes fs ! 0)") simp_all
  then show "cstr (nd_name (nodes fs ! 0)) = ''/''" by (simp add: cchar_0_NUL)
qed

lemma node_facts:
  assumes "image_ready fs" "live fs i"
  shows "nd_type (nodes fs ! i) \<in> {RUNTIME_FILE_TYPE_DIRECTORY, RUNTIME_FILE_TYPE_REGULAR}" "live_dir fs (fs_parent fs i)"
    "length (cstr (nd_name (nodes fs ! i))) < RUNTIME_FS_NAME_CAPACITY" "cstr (nd_name (nodes fs ! i)) \<noteq> []"
    "i \<noteq> 0 \<Longrightarrow> CHR ''/'' \<notin> set (cstr (nd_name (nodes fs ! i)))"
proof -
  have root: "live_dir fs 0" using root_live_dir image_ready_tree [OF assms(1)] by (simp add: fs_tree_def)
  have c: "component (cstr (nd_name (nodes fs ! i)))" if "i \<noteq> 0" using assms that by (simp add: image_ready_def)
  have ok: "node_ok fs i" if "i \<noteq> 0" using image_ready_tree [OF assms(1)] assms(2) that by (simp add: fs_tree_def)
  show "nd_type (nodes fs ! i) \<in> {RUNTIME_FILE_TYPE_DIRECTORY, RUNTIME_FILE_TYPE_REGULAR}" "live_dir fs (fs_parent fs i)"
    using root_facts [OF assms(1)] root ok by (cases "i = 0"; simp add: node_ok_def fs_parent_def)+
  show "length (cstr (nd_name (nodes fs ! i))) < RUNTIME_FS_NAME_CAPACITY" "cstr (nd_name (nodes fs ! i)) \<noteq> []"
    using root_facts(3) [OF assms(1)] c by (cases "i = 0"; simp add: component_def RUNTIME_FS_NAME_CAPACITY_def)+
  show "CHR ''/'' \<notin> set (cstr (nd_name (nodes fs ! i)))" if "i \<noteq> 0" using c [OF that] by (simp add: component_def)
qed

section \<open>Names\<close>

definition padded :: "string \<Rightarrow> string" where
  "padded s = s @ replicate (RUNTIME_FS_NAME_CAPACITY - length s) NUL"

lemma image_copy_name_padded:
  assumes "length dest = RUNTIME_FS_NAME_CAPACITY" "length (cstr src) < RUNTIME_FS_NAME_CAPACITY"
  shows "runtime_fs_image_copy_name dest src = padded (cstr src)"
proof -
  let ?n = "length (cstr src)"
  have "runtime_fs_image_copy_name dest src = copy_name (replicate RUNTIME_FS_NAME_CAPACITY NUL) src"
    using fold_clear [OF assms(1)] by (simp add: runtime_fs_image_copy_name_def copy_name_def)
  also have "\<dots> = cstr src @ NUL # replicate (RUNTIME_FS_NAME_CAPACITY - Suc ?n) NUL"
    using assms(2) by (subst copy_name_eq) (simp_all add: min_def)
  also have "\<dots> = cstr src @ replicate (RUNTIME_FS_NAME_CAPACITY - ?n) NUL"
    using assms(2) by (simp add: Suc_diff_Suc replicate_Suc [symmetric] del: replicate_Suc)
  finally show ?thesis by (simp add: padded_def)
qed

lemma length_padded [simp]: "length s \<le> RUNTIME_FS_NAME_CAPACITY \<Longrightarrow> length (padded s) = RUNTIME_FS_NAME_CAPACITY"
  by (simp add: padded_def)

lemma cstr_padded: "NUL \<notin> set s \<Longrightarrow> length s < RUNTIME_FS_NAME_CAPACITY \<Longrightarrow> cstr (padded s) = s"
  using cstr_append_NUL [of s] by (cases "RUNTIME_FS_NAME_CAPACITY - length s") (simp_all add: padded_def)

lemma padded_NUL: "length s < RUNTIME_FS_NAME_CAPACITY \<Longrightarrow> NUL \<in> set (padded s)"
  by (simp add: padded_def)

lemma name_equals_from_cstr:
  "length l = length r \<Longrightarrow> NUL \<in> set (drop i l) \<Longrightarrow> NUL \<in> set (drop i r) \<Longrightarrow>
   name_equals_from l (length l) r i = Some (cstr (drop i l) = cstr (drop i r))"
proof (induction l "length l" r i rule: name_equals_from.induct)
  case (1 l r i)
  have i: "i < length r" using 1(4) by (cases "i < length r") auto
  have d: "drop i l = l ! i # drop (Suc i) l" "drop i r = r ! i # drop (Suc i) r" using i 1(2) by (simp_all add: Cons_nth_drop_Suc)
  show ?case
  proof (cases "l ! i \<noteq> NUL \<and> r ! i \<noteq> NUL \<and> l ! i = r ! i")
    case True
    then have "name_equals_from l (length l) r (Suc i) = Some (cstr (drop (Suc i) l) = cstr (drop (Suc i) r))"
      using 1(1) i 1(2-4) unfolding d by auto
    then show ?thesis using True i 1(2) unfolding d by (subst name_equals_from.simps) simp
  next
    case False
    then show ?thesis using i 1(2) unfolding d by (subst name_equals_from.simps) auto
  qed
qed

lemma bounded_name_equals:
  assumes "length s < RUNTIME_FS_NAME_CAPACITY" "length t < RUNTIME_FS_NAME_CAPACITY" "NUL \<notin> set s" "NUL \<notin> set t"
  shows "runtime_fs_image_name_equals_bounded (padded s) RUNTIME_FS_NAME_CAPACITY (padded t) = Some (s = t)"
  using name_equals_from_cstr [of "padded s" "padded t" 0] assms padded_NUL cstr_padded
  by (simp add: runtime_fs_image_name_equals_bounded_def)

lemma image_record_name:
  "image_ready fs \<Longrightarrow> live fs i \<Longrightarrow> ir_name (image_record_of i (nodes fs ! i) p) = padded (cstr (nd_name (nodes fs ! i)))"
  by (simp add: image_copy_name_padded node_facts)


section \<open>Reading the image back\<close>

definition holds_image :: "runtime_fs \<Rightarrow> u8 list \<Rightarrow> bool" where
  "holds_image fs b \<longleftrightarrow> exportable fs \<and> image_length fs \<le> length b \<and> take (image_length fs) b = image_of fs"

definition tree_at :: "runtime_fs \<Rightarrow> nat" where
  "tree_at fs = RUNTIME_FS_IMAGE_HEADER_BYTES + length (used_nodes fs) * RUNTIME_FS_IMAGE_RECORD_BYTES"

definition data_at :: "runtime_fs \<Rightarrow> nat" where
  "data_at fs = tree_at fs + (image_leaves fs * 2 - 1) * 4"

lemma image_length_at: "image_length fs = data_at fs + length (image_payload fs)"
  by (simp add: image_length_eq data_at_def tree_at_def RUNTIME_FS_IMAGE_HEADER_BYTES_def)

lemma image_slice: "holds_image fs b \<Longrightarrow> off + n \<le> image_length fs \<Longrightarrow> slice off n b = slice off n (image_of fs)"
  using slice_take [of off n "image_length fs" b] by (simp add: holds_image_def)

lemma image_parts:
  assumes "holds_image fs b"
  shows "slice 0 40 b = words_bytes (header_words (image_header fs))"
    "slice RUNTIME_FS_IMAGE_HEADER_BYTES (length (used_nodes fs) * RUNTIME_FS_IMAGE_RECORD_BYTES) b = records_bytes (image_records fs)"
    "slice (tree_at fs) (4 * (image_leaves fs * 2 - 1)) b = words_bytes (image_tree fs)"
    "slice (data_at fs) (length (image_payload fs)) b = image_payload fs"
proof -
  have e: "exportable fs" using assms by (simp add: holds_image_def)
  define H where "H = words_bytes (header_words (image_header fs))"
  define R where "R = records_bytes (image_records fs)"
  define W where "W = words_bytes (image_tree fs)"
  have lens: "length H = 40" "length R = length (used_nodes fs) * RUNTIME_FS_IMAGE_RECORD_BYTES" "length W = 4 * (image_leaves fs * 2 - 1)"
    by (simp_all add: H_def header_words_def R_def W_def length_image_tree [OF e])
  have img: "image_of fs = H @ R @ W @ image_payload fs" by (simp add: image_of_def H_def R_def W_def)
  show "slice 0 40 b = words_bytes (header_words (image_header fs))"
    using slice_middle [of 0 "[]" 40 H "R @ W @ image_payload fs"] image_slice [OF assms, of 0 40] lens
    by (simp add: img H_def image_length_eq)
  show "slice RUNTIME_FS_IMAGE_HEADER_BYTES (length (used_nodes fs) * RUNTIME_FS_IMAGE_RECORD_BYTES) b = records_bytes (image_records fs)"
    using slice_middle [of 40 H "length R" R "W @ image_payload fs"] image_slice [OF assms, of 40 "length R"] lens
    by (simp add: img R_def image_length_eq RUNTIME_FS_IMAGE_HEADER_BYTES_def)
  show "slice (tree_at fs) (4 * (image_leaves fs * 2 - 1)) b = words_bytes (image_tree fs)"
    using slice_middle [of "tree_at fs" "H @ R" "length W" W "image_payload fs"] image_slice [OF assms, of "tree_at fs" "length W"] lens
    by (simp add: img W_def image_length_eq tree_at_def RUNTIME_FS_IMAGE_HEADER_BYTES_def)
  show "slice (data_at fs) (length (image_payload fs)) b = image_payload fs"
  proof -
    have at: "data_at fs = length (H @ R @ W)" using lens by (simp add: data_at_def tree_at_def RUNTIME_FS_IMAGE_HEADER_BYTES_def)
    from slice_middle [OF at refl, of "image_payload fs" "[]"] image_slice [OF assms, of "data_at fs" "length (image_payload fs)"]
    show ?thesis by (simp add: img image_length_at)
  qed
qed

lemma slice_records:
  "k < length rs \<Longrightarrow> \<forall>r \<in> set rs. length (ir_name r) = RUNTIME_FS_NAME_CAPACITY \<Longrightarrow>
   slice (k * RUNTIME_FS_IMAGE_RECORD_BYTES) RUNTIME_FS_IMAGE_RECORD_BYTES (records_bytes rs) = record_bytes (rs ! k)"
proof (induction rs arbitrary: k)
  case (Cons r rs)
  show ?case
  proof (cases k)
    case 0
    then show ?thesis using Cons.prems slice_middle [of 0 "[]" "length (record_bytes r)" "record_bytes r" "records_bytes rs"]
      by (simp add: records_bytes_def)
  next
    case (Suc j)
    then show ?thesis using Cons slice_append_right [of "record_bytes r" "j * RUNTIME_FS_IMAGE_RECORD_BYTES" RUNTIME_FS_IMAGE_RECORD_BYTES "records_bytes rs"]
      by (simp add: records_bytes_def)
  qed
qed simp

lemma records_from_nth:
  "k < length is \<Longrightarrow> \<forall>i \<in> set is. fits (nodes fs ! i) \<Longrightarrow> records_from fs is p ! k =
     image_record_of (is ! k) (nodes fs ! (is ! k)) (p + length (payload_of fs (take k is)))"
proof (induction "is" arbitrary: k p)
  case (Cons i "is")
  then show ?case by (cases k) (simp_all add: payload_of_def add.assoc)
qed simp

definition payload_before :: "runtime_fs \<Rightarrow> nat \<Rightarrow> nat" where
  "payload_before fs k = length (payload_of fs (take k (used_nodes fs)))"

abbreviation used_node :: "runtime_fs \<Rightarrow> nat \<Rightarrow> runtime_fs_node" where
  "used_node fs k \<equiv> nodes fs ! (used_nodes fs ! k)"

lemma image_records_nth:
  "exportable fs \<Longrightarrow> k < length (used_nodes fs) \<Longrightarrow>
   image_records fs ! k = image_record_of (used_nodes fs ! k) (used_node fs k) (payload_before fs k)"
  using records_from_nth [of k "used_nodes fs" fs 0] by (simp add: image_records_def payload_before_def exportable_def)

lemma image_read_record:
  assumes "holds_image fs b" "k < length (used_nodes fs)"
  shows "runtime_fs_image_read_record b (RUNTIME_FS_IMAGE_HEADER_BYTES + k * RUNTIME_FS_IMAGE_RECORD_BYTES) = Some (image_records fs ! k)"
proof (rule read_record_slice)
  have names: "\<forall>r \<in> set (image_records fs). length (ir_name r) = RUNTIME_FS_NAME_CAPACITY"
    using records_from_names by (auto simp: image_records_def)
  then show "length (ir_name (image_records fs ! k)) = RUNTIME_FS_NAME_CAPACITY" using assms(2) by simp
  have in_range: "k * RUNTIME_FS_IMAGE_RECORD_BYTES + RUNTIME_FS_IMAGE_RECORD_BYTES \<le> length (used_nodes fs) * RUNTIME_FS_IMAGE_RECORD_BYTES"
    using mult_le_mono1 [of "Suc k" "length (used_nodes fs)" RUNTIME_FS_IMAGE_RECORD_BYTES] assms(2) by simp
  then show "RUNTIME_FS_IMAGE_HEADER_BYTES + k * RUNTIME_FS_IMAGE_RECORD_BYTES + RUNTIME_FS_IMAGE_RECORD_BYTES \<le> length b"
    using assms(1) by (simp add: holds_image_def image_length_eq RUNTIME_FS_IMAGE_HEADER_BYTES_def)
  show "slice (RUNTIME_FS_IMAGE_HEADER_BYTES + k * RUNTIME_FS_IMAGE_RECORD_BYTES) RUNTIME_FS_IMAGE_RECORD_BYTES b = record_bytes (image_records fs ! k)"
    using slice_slice [OF in_range, of RUNTIME_FS_IMAGE_HEADER_BYTES b] image_parts(2) [OF assms(1)]
      slice_records [of k "image_records fs"] names assms(2) by simp
qed

lemma payload_before_Suc:
  assumes "exportable fs" "k < length (used_nodes fs)"
  shows "payload_before fs (Suc k) = payload_before fs k + node_data_size (used_node fs k)"
  using assms by (simp add: payload_before_def take_Suc_conv_app_nth payload_of_def exportable_def)

lemma payload_before_le: "payload_before fs k \<le> length (image_payload fs)"
proof -
  have "image_payload fs = payload_of fs (take k (used_nodes fs)) @ payload_of fs (drop k (used_nodes fs))"
    by (simp add: image_payload_def payload_of_def concat_append [symmetric] map_append [symmetric] del: concat_append map_append)
  then show ?thesis by (simp add: payload_before_def)
qed

lemma payload_before_0 [simp]: "payload_before fs 0 = 0" and payload_before_all: "payload_before fs (length (used_nodes fs)) = length (image_payload fs)"
  by (simp_all add: payload_before_def payload_of_def image_payload_def)

lemma payload_slice:
  assumes "exportable fs" "k < length (used_nodes fs)"
  shows "slice (payload_before fs k) (node_data_size (used_node fs k)) (image_payload fs) = node_payload (used_node fs k)"
proof -
  have "used_nodes fs = take k (used_nodes fs) @ used_nodes fs ! k # drop (Suc k) (used_nodes fs)"
    using assms(2) by (simp add: id_take_nth_drop)
  then have "image_payload fs = payload_of fs (take k (used_nodes fs)) @ node_payload (used_node fs k) @ payload_of fs (drop (Suc k) (used_nodes fs))"
    unfolding image_payload_def payload_of_def by (metis concat.simps(2) concat_append list.simps(9) map_append)
  moreover have "length (node_payload (used_node fs k)) = node_data_size (used_node fs k)"
    using assms by (simp add: exportable_def)
  ultimately show ?thesis by (simp add: slice_def payload_before_def)
qed

lemma image_data_slice:
  assumes "holds_image fs b" "k < length (used_nodes fs)"
  shows "slice (data_at fs + payload_before fs k) (node_data_size (used_node fs k)) b = node_payload (used_node fs k)"
    "data_at fs + payload_before fs k + node_data_size (used_node fs k) \<le> length b"
proof -
  have e: "exportable fs" using assms(1) by (simp add: holds_image_def)
  have in_range: "payload_before fs k + node_data_size (used_node fs k) \<le> length (image_payload fs)"
    using payload_before_le [of fs "Suc k"] payload_before_Suc [OF e assms(2)] by simp
  show "slice (data_at fs + payload_before fs k) (node_data_size (used_node fs k)) b = node_payload (used_node fs k)"
    using slice_slice [OF in_range, of "data_at fs" b] image_parts(4) [OF assms(1)] payload_slice [OF e assms(2)] by simp
  show "data_at fs + payload_before fs k + node_data_size (used_node fs k) \<le> length b"
    using in_range assms(1) by (simp add: holds_image_def image_length_at)
qed


section \<open>The header is accepted\<close>

lemma image_sizes:
  assumes "exportable fs"
  shows "length (image_payload fs) \<le> 4096" "image_length fs < 2 ^ 32"
proof -
  have "sum_list (map (\<lambda>i. node_data_size (nodes fs ! i)) is) \<le> length is * 256" if "\<forall>i \<in> set is. fits (nodes fs ! i)" for "is"
    using that
  proof (induction "is")
    case (Cons i "is")
    then show ?case using node_data_size_small [of "nodes fs ! i"] by (simp add: RUNTIME_FS_FILE_CAPACITY_def)
  qed simp
  then have "length (image_payload fs) \<le> length (used_nodes fs) * 256"
    using assms by (simp add: image_payload_def length_payload_of exportable_def)
  then show p: "length (image_payload fs) \<le> 4096" using used_nodes_bound [of fs] by (simp add: RUNTIME_FS_MAX_NODES_def)
  show "image_length fs < 2 ^ 32"
    using p used_nodes_bound [of fs] image_leaves_bounds(3) [OF assms]
    by (simp add: image_length_eq RUNTIME_FS_MAX_NODES_def RUNTIME_FS_IMAGE_RECORD_BYTES_def RUNTIME_FS_NAME_CAPACITY_def)
qed

lemma header_unat:
  assumes "exportable fs"
  shows "unat (ih_record_count (image_header fs)) = length (used_nodes fs)" "unat (ih_tree_leaf_count (image_header fs)) = image_leaves fs"
    "unat (ih_tree_hash_count (image_header fs)) = image_leaves fs * 2 - 1" "unat (ih_data_bytes (image_header fs)) = length (image_payload fs)"
    "unat (ih_header_bytes (image_header fs)) = RUNTIME_FS_IMAGE_HEADER_BYTES" "unat (ih_record_bytes (image_header fs)) = RUNTIME_FS_IMAGE_RECORD_BYTES"
proof -
  have b: "length (used_nodes fs) \<le> 16" "image_leaves fs \<le> 16" "length (image_payload fs) \<le> 4096"
    using used_nodes_bound [of fs] image_leaves_bounds(3) [OF assms] image_sizes(1) [OF assms] by (simp_all add: RUNTIME_FS_MAX_NODES_def)
  show "unat (ih_record_count (image_header fs)) = length (used_nodes fs)" "unat (ih_tree_leaf_count (image_header fs)) = image_leaves fs"
    "unat (ih_tree_hash_count (image_header fs)) = image_leaves fs * 2 - 1" "unat (ih_data_bytes (image_header fs)) = length (image_payload fs)"
    unfolding image_header_def runtime_fs_image_header.simps by (rule unat_small; use b in simp)+
  show "unat (ih_header_bytes (image_header fs)) = RUNTIME_FS_IMAGE_HEADER_BYTES" "unat (ih_record_bytes (image_header fs)) = RUNTIME_FS_IMAGE_RECORD_BYTES"
    by (simp_all add: image_header_def RUNTIME_FS_IMAGE_HEADER_BYTES_def RUNTIME_FS_IMAGE_RECORD_BYTES_def RUNTIME_FS_NAME_CAPACITY_def)
qed

lemma image_header_accepted:
  assumes "exportable fs"
  shows "image_header_ok (image_header fs) (of_nat (image_length fs))"
proof -
  note L = image_leaves_bounds [OF assms]
  note u = header_unat [OF assms]
  have n0: "length (used_nodes fs) \<noteq> 0" using assms by (simp add: exportable_def)
  have nz: "ih_record_count (image_header fs) \<noteq> 0" "ih_tree_leaf_count (image_header fs) \<noteq> 0" using u(1,2) n0 L(1) by force+
  have le: "\<not> ih_record_count (image_header fs) > of_nat RUNTIME_FS_MAX_NODES" "\<not> ih_tree_leaf_count (image_header fs) > of_nat RUNTIME_FS_IMAGE_MAX_TREE_LEAVES"
    "\<not> ih_tree_leaf_count (image_header fs) < ih_record_count (image_header fs)"
    using u(1,2) L(2,3) used_nodes_bound [of fs]
    by (simp_all add: word_less_nat_alt RUNTIME_FS_MAX_NODES_def RUNTIME_FS_IMAGE_MAX_TREE_LEAVES_def)
  have hc: "ih_tree_hash_count (image_header fs) = ih_tree_leaf_count (image_header fs) * 2 - 1"
    using L(1) by (simp add: image_header_def of_nat_diff)
  have "(of_nat (image_length fs) :: u32) = of_nat (RUNTIME_FS_IMAGE_HEADER_BYTES + length (used_nodes fs) * RUNTIME_FS_IMAGE_RECORD_BYTES +
      (image_leaves fs * 2 - 1) * 4 + length (image_payload fs))"
    by (simp add: image_length_eq RUNTIME_FS_IMAGE_HEADER_BYTES_def)
  then have bytes: "ih_image_bytes (image_header fs) = ih_header_bytes (image_header fs) +
      ih_record_count (image_header fs) * ih_record_bytes (image_header fs) + ih_tree_hash_count (image_header fs) * 4 + ih_data_bytes (image_header fs)"
    by (simp add: image_header_def)
  have rest: "ih_magic (image_header fs) = RUNTIME_FS_IMAGE_MAGIC" "ih_version (image_header fs) = RUNTIME_FS_IMAGE_VERSION"
    "ih_header_bytes (image_header fs) = of_nat RUNTIME_FS_IMAGE_HEADER_BYTES" "ih_record_bytes (image_header fs) = of_nat RUNTIME_FS_IMAGE_RECORD_BYTES"
    "ih_image_bytes (image_header fs) = of_nat (image_length fs)"
    by (simp_all add: image_header_def)
  show ?thesis unfolding image_header_ok_def using rest bytes hc le nz L(4) u(2) by simp
qed

lemma header_eta:
  "\<lparr>ih_magic = ih_magic h, ih_version = ih_version h, ih_header_bytes = ih_header_bytes h, ih_record_count = ih_record_count h,
    ih_record_bytes = ih_record_bytes h, ih_tree_leaf_count = ih_tree_leaf_count h, ih_tree_hash_count = ih_tree_hash_count h,
    ih_data_bytes = ih_data_bytes h, ih_root_hash = ih_root_hash h, ih_image_bytes = ih_image_bytes h\<rparr> = h"
  by simp

lemma image_parse_header:
  assumes "holds_image fs b"
  shows "runtime_fs_image_parse_header (Some b) (of_nat (image_length fs)) = Some (Some (image_header fs))"
proof -
  have e: "exportable fs" and len: "image_length fs \<le> length b" using assms by (simp_all add: holds_image_def)
  have l: "length (header_words (image_header fs)) = 10" by (simp add: header_words_def)
  have load: "runtime_fs_image_load_u32 b (0 + 4 * i) = Some (header_words (image_header fs) ! i)" if "i < 10" for i
    by (rule load_u32_words) (use image_parts(1) [OF assms] len that l in \<open>simp_all add: image_length_eq\<close>)
  have "\<not> (of_nat (image_length fs) :: u32) < of_nat RUNTIME_FS_IMAGE_HEADER_BYTES"
    using unat_small [OF image_sizes(2) [OF e]] by (simp add: word_less_nat_alt RUNTIME_FS_IMAGE_HEADER_BYTES_def image_length_eq)
  then show ?thesis
    using load [of 0] load [of 1] load [of 2] load [of 3] load [of 4] load [of 5] load [of 6] load [of 7] load [of 8] load [of 9]
      image_header_accepted [OF e]
    by (simp add: runtime_fs_image_parse_header_def header_words_def Let_def header_eta del: runtime_fs_image_header.equality)
qed


section \<open>Every record is accepted\<close>

lemma test_bit: "drop_bit n w AND 1 \<noteq> 0 \<longleftrightarrow> bit (w :: u32) n"
  by (simp add: and_one_eq mod_2_eq_odd bit_iff_odd_drop_bit)

definition present_of :: "nat list \<Rightarrow> u32" where
  "present_of is = fold (\<lambda>i m. m OR push_bit i 1) is 0"

lemma bit_present_of: "bit (present_of is) j \<longleftrightarrow> j < 32 \<and> j \<in> set is"
proof -
  have "bit (fold (\<lambda>i m. m OR push_bit i 1) is (m :: u32)) j \<longleftrightarrow> bit m j \<or> j < 32 \<and> j \<in> set is" for m
  proof (induction "is" arbitrary: m)
    case (Cons i "is")
    have "bit (push_bit i 1 :: u32) j \<longleftrightarrow> j < 32 \<and> j = i" by (auto simp: bit_exp_iff)
    then show ?case unfolding fold_simps comp_apply Cons.IH bit_or_iff by auto
  qed simp
  from this [of 0] show ?thesis by (simp add: present_of_def)
qed

lemma present_of_snoc: "present_of (is @ [i]) = present_of is OR push_bit i 1"
  by (simp add: present_of_def)

lemma object_hash_of_record [simp]: "runtime_fs_image_object_hash (image_record_of i nd p) = ir_object_hash (image_record_of i nd p)"
  by (simp add: image_record_of_def Let_def runtime_fs_image_object_hash_def)

lemma data_hash_of_record:
  assumes "fits nd" "slice off (node_data_size nd) b = node_payload nd" "off + node_data_size nd \<le> length b"
  shows "runtime_fs_image_hash_bytes b off (node_data_size nd) = Some (ir_data_hash (image_record_of i nd p))"
  using assms node_data_size_small [OF assms(1)]
  by (simp add: runtime_fs_image_hash_bytes_def image_record_of_def Let_def node_data_size_def [symmetric] slice_def node_payload_def
      fits_def node_shape_def)

lemma padded_first:
  assumes "length s < RUNTIME_FS_NAME_CAPACITY"
  shows "padded s ! 0 = (case s of [] \<Rightarrow> NUL | c # _ \<Rightarrow> c)" "s \<noteq> [] \<Longrightarrow> padded s ! 1 = (case tl s of [] \<Rightarrow> NUL | c # _ \<Rightarrow> c)"
  using assms by (cases s; cases "tl s"; simp add: padded_def nth_append RUNTIME_FS_NAME_CAPACITY_def)+

lemma last_take_nth: "0 < k \<Longrightarrow> k \<le> length xs \<Longrightarrow> last (take k xs) = xs ! (k - 1)"
  by (cases xs) (auto simp: last_conv_nth)

lemma image_record_accepted:
  assumes ready: "image_ready fs" and img: "holds_image fs b" and k: "k < length (used_nodes fs)"
  shows "image_record_check b (image_header fs) (data_at fs) (take k (image_records fs)) (payload_before fs k)
    (present_of (take k (used_nodes fs))) (image_records fs ! k) = Some 0"
proof -
  have e: "exportable fs" using img by (simp add: holds_image_def)
  define i where "i = used_nodes fs ! k"
  define nd where "nd = nodes fs ! i"
  define p where "p = payload_before fs k"
  define r where "r = image_record_of i nd p"
  have live: "live fs i" using used_nodes_live [OF k] by (simp add: i_def)
  have fit: "fits nd" using image_ready_fits [OF ready live] by (simp add: nd_def)
  have i16: "i < 16" using live_nodes_bound [OF live] by (simp add: RUNTIME_FS_MAX_NODES_def)
  have r: "image_records fs ! k = r" using image_records_nth [OF e k] by (simp add: r_def i_def nd_def p_def)
  have ui: "unat (ir_node_index r) = i" using i16 unat_small [of i] by (simp add: r_def)
  have len: "length (take k (image_records fs)) = k" using k by simp
  have pd: "p + node_data_size nd \<le> length (image_payload fs)"
    using payload_before_le [of fs "Suc k"] payload_before_Suc [OF e k] by (simp add: p_def nd_def i_def)
  have name: "ir_name r = padded (cstr (nd_name nd))" using image_record_name [OF ready live] by (simp add: r_def nd_def)
  note nf = node_facts [OF ready live, folded nd_def]
  have "ir_node_index r < 16" using ui i16 by (simp add: word_less_nat_alt)
  then have c1: "\<not> ir_node_index r \<ge> of_nat RUNTIME_FS_MAX_NODES" by (simp add: RUNTIME_FS_MAX_NODES_def)
  have "i \<notin> set (take k (used_nodes fs))"
    using used_nodes_distinct [of fs] k by (auto simp: i_def in_set_conv_nth nth_eq_iff_index_eq)
  then have c2: "\<not> drop_bit (unat (ir_node_index r)) (present_of (take k (used_nodes fs))) AND 1 \<noteq> 0"
    unfolding test_bit ui bit_present_of by simp
  have c3: "\<not> (k = 0 \<and> ir_node_index r \<noteq> 0)" using used_nodes_root(2) [OF ready] by (cases "k = 0") (simp_all add: r_def i_def)
  have c4: "\<not> (k > 0 \<and> ir_node_index r \<le> ir_node_index (last (take k (image_records fs))))"
  proof
    assume a: "k > 0 \<and> ir_node_index r \<le> ir_node_index (last (take k (image_records fs)))"
    then have "last (take k (image_records fs)) = image_records fs ! (k - 1)" using k last_take_nth [of k "image_records fs"] by simp
    moreover have "used_nodes fs ! (k - 1) < i" using a k used_nodes_less [of "k - 1" k fs] by (simp add: i_def)
    moreover have "unat (of_nat (used_nodes fs ! (k - 1)) :: u32) = used_nodes fs ! (k - 1)"
      using calculation(2) i16 by (intro unat_small) simp
    ultimately show False using a ui image_records_nth [OF e, of "k - 1"] k by (simp add: word_le_nat_alt)
  qed
  have c5: "\<not> (ir_type r \<noteq> RUNTIME_FILE_TYPE_DIRECTORY \<and> ir_type r \<noteq> RUNTIME_FILE_TYPE_REGULAR)"
    "\<not> (ir_type r = RUNTIME_FILE_TYPE_DIRECTORY \<and> ir_data_size r \<noteq> 0)"
    "\<not> (ir_type r = RUNTIME_FILE_TYPE_REGULAR \<and> ir_data_size r \<noteq> ir_size_bytes r)"
    using nf(1) by (auto simp: r_def node_data_size_def)
  have c6: "\<not> ir_size_bytes r > of_nat RUNTIME_FS_FILE_CAPACITY"
    using fit unat_small [of "nd_size_bytes nd"] by (simp add: r_def fits_def word_less_nat_alt RUNTIME_FS_FILE_CAPACITY_def)
  have c7: "\<not> ir_data_offset r \<noteq> of_nat p" by (simp add: r_def)
  have "unat (of_nat (p + node_data_size nd) :: u32) \<le> unat (ih_data_bytes (image_header fs))"
    using unat_small [of "p + node_data_size nd"] pd image_sizes(1) [OF e] header_unat(4) [OF e] by simp
  then have c8: "\<not> ir_data_offset r + ir_data_size r > ih_data_bytes (image_header fs)"
    by (simp add: r_def word_less_nat_alt not_less)
  have zero: "i = 0 \<longleftrightarrow> k = 0" using used_nodes_root(2) [OF ready] used_nodes_less [of 0 k fs] k by (cases "k = 0") (simp_all add: i_def)
  note root = root_facts [OF ready]
  have c9: "\<not> (k = 0 \<and> ir_parent_index r \<noteq> 0)" "\<not> (k = 0 \<and> ir_type r \<noteq> RUNTIME_FILE_TYPE_DIRECTORY)"
    using root zero by (auto simp: r_def nd_def)
  have c10: "\<not> (k = 0 \<and> (ir_name r ! 0 \<noteq> CHR ''/'' \<or> ir_name r ! 1 \<noteq> NUL))"
    using root(3) zero name padded_first [OF nf(3)] by (auto simp: nd_def)
  have c11: "\<not> (k \<noteq> 0 \<and> (ir_name r ! 0 = NUL \<or> ir_name r ! 0 = CHR ''/'' \<and> ir_name r ! 1 = NUL))"
  proof
    assume a: "k \<noteq> 0 \<and> (ir_name r ! 0 = NUL \<or> ir_name r ! 0 = CHR ''/'' \<and> ir_name r ! 1 = NUL)"
    then obtain c s where "cstr (nd_name nd) = c # s" using nf(4) by (cases "cstr (nd_name nd)") auto
    moreover have "c \<noteq> NUL" "c \<noteq> CHR ''/''" using calculation nf(5) zero a NUL_notin_cstr [of "nd_name nd"] by auto
    ultimately show False using a name padded_first(1) [OF nf(3)] by simp
  qed
  have up: "unat (ir_data_offset r) = p" "unat (ir_data_size r) = node_data_size nd"
    using pd image_sizes(1) [OF e] unat_small [of p] unat_data_size [OF fit] by (simp_all add: r_def)
  have "runtime_fs_image_hash_bytes b (data_at fs + p) (node_data_size nd) = Some (ir_data_hash r)"
    unfolding r_def using data_hash_of_record [OF fit, of "data_at fs + p" b i p] image_data_slice [OF img k]
    by (simp add: p_def nd_def i_def)
  moreover have "runtime_fs_image_object_hash r = ir_object_hash r" by (simp add: r_def)
  ultimately show ?thesis
    unfolding r image_record_check_def Let_def len p_def [symmetric]
    using c1 c2 c3 c4 c5 c6 c7 c8 c9 c10 c11 up by (simp only: if_False) simp
qed


lemma image_records_accepted:
  assumes ready: "image_ready fs" and img: "holds_image fs b" and "k \<le> length (used_nodes fs)"
  shows "image_records_check b (image_header fs) RUNTIME_FS_IMAGE_HEADER_BYTES (data_at fs) [k..<length (used_nodes fs)] (take k (image_records fs))
    (payload_before fs k) (present_of (take k (used_nodes fs))) =
    Some (Inr (image_records fs, length (image_payload fs), present_of (used_nodes fs)))"
  using assms(3)
proof (induction k rule: inc_induct)
  case base
  show ?case by (simp add: payload_before_all)
next
  case (step k)
  have e: "exportable fs" using img by (simp add: holds_image_def)
  have k: "k < length (used_nodes fs)" using step(2) .
  have live: "live fs (used_nodes fs ! k)" using used_nodes_live [OF k] .
  have "[k..<length (used_nodes fs)] = k # [Suc k..<length (used_nodes fs)]" using k by (simp add: upt_conv_Cons)
  moreover have "unat (ir_data_size (image_records fs ! k)) = node_data_size (used_node fs k)"
    using image_records_nth [OF e k] unat_data_size [OF image_ready_fits [OF ready live]] by simp
  moreover have "unat (ir_node_index (image_records fs ! k)) = used_nodes fs ! k"
    using image_records_nth [OF e k] unat_small [of "used_nodes fs ! k"] live_nodes_bound [OF live] by (simp add: RUNTIME_FS_MAX_NODES_def)
  moreover have "take k (image_records fs) @ [image_records fs ! k] = take (Suc k) (image_records fs)"
    "take (Suc k) (used_nodes fs) = take k (used_nodes fs) @ [used_nodes fs ! k]"
    using k by (simp_all add: take_Suc_conv_app_nth)
  ultimately show ?case
    using step(3) image_read_record [OF img k] image_record_accepted [OF ready img k] header_unat(6) [OF e] payload_before_Suc [OF e k]
    by (simp add: present_of_snoc)
qed

section \<open>Parents, names and the tree are accepted\<close>

lemma find_image_record:
  assumes "exportable fs" "k < length (used_nodes fs)" "used_nodes fs ! k = i"
  shows "runtime_fs_image_find_record (image_records fs) (of_nat i) = Some k"
proof -
  have idx: "unat (ir_node_index (image_records fs ! j)) = used_nodes fs ! j" if "j < length (used_nodes fs)" for j
    using image_records_nth [OF assms(1) that] unat_small [of "used_nodes fs ! j"] live_nodes_bound [OF used_nodes_live [OF that]]
    by (simp add: RUNTIME_FS_MAX_NODES_def)
  have "ir_node_index (image_records fs ! k) = of_nat i" using image_records_nth [OF assms(1,2)] assms(3) by simp
  moreover have "ir_node_index (image_records fs ! j) \<noteq> of_nat i" if "j < k" for j
    using idx [of j] idx [of k] that assms(2,3) used_nodes_less [OF that assms(2)] calculation by fastforce
  ultimately show ?thesis using assms(2) by (simp add: runtime_fs_image_find_record_def first_index_Some)
qed

lemma find_live_record:
  assumes "exportable fs" "live fs i"
  obtains k where "k < length (used_nodes fs)" "used_nodes fs ! k = i" "runtime_fs_image_find_record (image_records fs) (of_nat i) = Some k"
    "image_records fs ! k = image_record_of i (nodes fs ! i) (payload_before fs k)"
proof -
  obtain k where "k < length (used_nodes fs)" "used_nodes fs ! k = i" using assms(2) set_used_nodes in_set_conv_nth by metis
  with that find_image_record [OF assms(1)] image_records_nth [OF assms(1)] show ?thesis by blast
qed

lemma of_nat_node_0: "i < RUNTIME_FS_MAX_NODES \<Longrightarrow> (of_nat i :: u32) = 0 \<longleftrightarrow> i = 0"
  using unat_small [of i] by (auto simp: RUNTIME_FS_MAX_NODES_def)

lemma image_chain_accepted:
  assumes "image_ready fs" "depth fs i n" "live fs i" "d + n \<le> RUNTIME_FS_MAX_NODES"
  shows "image_chain_check (image_records fs) (of_nat i) d = 0"
  using assms(2-4)
proof (induction arbitrary: d rule: depth.induct)
  case depth_root
  show ?case by (simp add: image_chain_check.simps)
next
  case (depth_step i n)
  obtain k where k: "runtime_fs_image_find_record (image_records fs) (of_nat i) = Some k"
    "image_records fs ! k = image_record_of i (nodes fs ! i) (payload_before fs k)"
    using find_live_record [OF image_ready_exportable [OF assms(1)] depth_step(4)] by blast
  have "live fs (fs_parent fs i)" using fs_tree_parent_live [OF image_ready_tree [OF assms(1)] depth_step(4,1)] .
  then have "image_chain_check (image_records fs) (of_nat (fs_parent fs i)) (Suc d) = 0" using depth_step.IH depth_step.prems by simp
  then show ?case using k depth_step.prems of_nat_node_0 [OF live_nodes_bound [OF depth_step(4)]]
    by (subst image_chain_check.simps) (simp add: fs_parent_def)
qed

lemma image_parents_accepted:
  assumes ready: "image_ready fs" and k: "k < length (used_nodes fs)"
  shows "image_parent_check (image_records fs) (present_of (used_nodes fs)) (image_records fs ! k) = Some 0"
proof -
  note e = image_ready_exportable [OF ready]
  define i where "i = used_nodes fs ! k"
  have live: "live fs i" using used_nodes_live [OF k] by (simp add: i_def)
  have r: "image_records fs ! k = image_record_of i (nodes fs ! i) (payload_before fs k)"
    using image_records_nth [OF e k] by (simp add: i_def)
  define q where "q = fs_parent fs i"
  have q: "live_dir fs q" using node_facts(2) [OF ready live] by (simp add: q_def)
  then have ql: "live fs q" by (simp add: live_dir_def)
  obtain j where j: "j < length (used_nodes fs)" "used_nodes fs ! j = q"
    "runtime_fs_image_find_record (image_records fs) (of_nat q) = Some j"
    "image_records fs ! j = image_record_of q (nodes fs ! q) (payload_before fs j)"
    using find_live_record [OF e ql] by blast
  have uq: "unat (of_nat q :: u32) = q" "q < 16" using live_nodes_bound [OF ql] unat_small [of q] by (simp_all add: RUNTIME_FS_MAX_NODES_def)
  have mem: "drop_bit q (present_of (used_nodes fs)) AND 1 \<noteq> 0" unfolding test_bit bit_present_of using uq(2) ql by (simp add: set_used_nodes)
  have zero: "(of_nat i :: u32) = 0 \<longleftrightarrow> i = 0" using of_nat_node_0 [OF live_nodes_bound [OF live]] .
  have "i = 0 \<Longrightarrow> q = 0" using root_facts(2) [OF ready] by (simp add: q_def fs_parent_def)
  then have "i = 0 \<Longrightarrow> j = 0" using find_image_record [OF e, of 0 0] used_nodes_root [OF ready] j(3) by simp
  moreover have "rooted fs i" using image_ready_tree [OF ready] live rooted_root by (cases "i = 0") (auto simp: fs_tree_def)
  then obtain n where "n < RUNTIME_FS_MAX_NODES" "depth fs i n"
    using rooted_short fs_tree_parent_live [OF image_ready_tree [OF ready]] live by blast
  then have "image_chain_check (image_records fs) (of_nat i) 0 = 0" using image_chain_accepted [OF ready _ live] by auto
  moreover have "nd_type (nodes fs ! q) = RUNTIME_FILE_TYPE_DIRECTORY" using q by (simp add: live_dir_def)
  moreover have "nd_parent_index (nodes fs ! i) = q" by (simp add: q_def fs_parent_def)
  ultimately show ?thesis
    unfolding image_parent_check_def Let_def r using j uq mem zero by (cases "i = 0") simp_all
qed

lemma image_twins_accepted:
  assumes ready: "image_ready fs" and jk: "j < k" "k < length (used_nodes fs)"
  shows "image_twin_check (image_records fs) (j, k) = Some 0"
proof -
  note e = image_ready_exportable [OF ready]
  define i where "i = used_nodes fs ! j"
  define l where "l = used_nodes fs ! k"
  have live: "live fs i" "live fs l" using used_nodes_live jk by (auto simp: i_def l_def)
  have il: "i < l" using used_nodes_less [OF jk] by (simp add: i_def l_def)
  have r: "image_records fs ! j = image_record_of i (nodes fs ! i) (payload_before fs j)"
    "image_records fs ! k = image_record_of l (nodes fs ! l) (payload_before fs k)"
    using image_records_nth [OF e] jk by (simp_all add: i_def l_def)
  note nf = node_facts [OF ready live(1)] node_facts [OF ready live(2)]
  have differ: "cstr (nd_name (nodes fs ! i)) \<noteq> cstr (nd_name (nodes fs ! l))" if "fs_parent fs i = fs_parent fs l"
  proof (cases "i = 0")
    case True
    then have "CHR ''/'' \<in> set (cstr (nd_name (nodes fs ! i)))" using root_facts(3) [OF ready] by simp
    then show ?thesis using nf(10) il by fastforce
  next
    case False
    then show ?thesis using image_ready_distinct [OF ready] live il that by (simp add: fs_distinct_def)
  qed
  have parent: "fs_parent fs m < 2 ^ 32" if "live fs m" for m
    using live_nodes_bound [of fs "fs_parent fs m"] node_facts(2) [OF ready that] by (simp add: live_dir_def RUNTIME_FS_MAX_NODES_def)
  have "(of_nat (fs_parent fs i) :: u32) = of_nat (fs_parent fs l) \<longleftrightarrow> fs_parent fs i = fs_parent fs l"
    using unat_small [OF parent [OF live(1)]] unat_small [OF parent [OF live(2)]] by metis
  moreover have "runtime_fs_image_name_equals_bounded (ir_name (image_records fs ! j)) RUNTIME_FS_NAME_CAPACITY (ir_name (image_records fs ! k)) =
      Some (cstr (nd_name (nodes fs ! i)) = cstr (nd_name (nodes fs ! l)))"
    unfolding r image_record_name [OF ready live(1)] image_record_name [OF ready live(2)]
    by (rule bounded_name_equals) (use nf in simp_all)
  ultimately show ?thesis using differ unfolding image_twin_check_def prod.case
    by (simp add: r(1,2) fs_parent_def del: image_record_of_simps(9))
qed


lemma image_tree_accepted:
  assumes "exportable fs"
  shows "image_tree_ok (image_header fs) (map ir_object_hash (image_records fs)) (image_tree fs)"
proof -
  note u = header_unat [OF assms] and L = image_leaves_bounds(1) [OF assms]
  have inner: "image_leaves fs * 2 - 1 - image_leaves fs = image_leaves fs - 1" by simp
  note tree = export_tree_props [OF L, where hs = "map ir_object_hash (image_records fs)", folded image_tree_def]
  have "image_tree fs ! 0 = ih_root_hash (image_header fs)" by (simp add: image_header_def)
  moreover have "image_tree fs ! (image_leaves fs - 1 + i) =
      (if i < length (used_nodes fs) then map ir_object_hash (image_records fs) ! i else RUNTIME_FS_IMAGE_HASH_EMPTY)" if "i < image_leaves fs" for i
    using tree(2) [OF that] by simp
  ultimately show ?thesis unfolding image_tree_ok_def Let_def u inner using tree(3) by (simp add: list_all_iff)
qed

lemma image_validates:
  assumes ready: "image_ready fs" and img: "holds_image fs b"
  shows "runtime_fs_image_validate (Some b) (of_nat (image_length fs)) layout = Some (0, map_option (\<lambda>_. header_layout (image_header fs)) layout)"
proof -
  have e: "exportable fs" and len: "image_length fs \<le> length b" using img by (simp_all add: holds_image_def)
  note u = header_unat [OF e]
  have rec: "image_records_check b (image_header fs) RUNTIME_FS_IMAGE_HEADER_BYTES (data_at fs) [0..<length (used_nodes fs)] [] 0 0 =
      Some (Inr (image_records fs, length (image_payload fs), present_of (used_nodes fs)))"
    using image_records_accepted [OF ready img, of 0] by (simp add: present_of_def)
  have checks: "first_failure (map (image_parent_check (image_records fs) (present_of (used_nodes fs))) (image_records fs) @
      map (image_twin_check (image_records fs)) (concat (map (\<lambda>i. map (Pair i) [Suc i..<length (used_nodes fs)]) [0..<length (used_nodes fs)]))) = Some 0"
    unfolding first_failure_maps_OK
  proof (intro conjI ballI)
    fix r
    assume "r \<in> set (image_records fs)"
    then obtain k where "k < length (used_nodes fs)" "r = image_records fs ! k" by (auto simp: in_set_conv_nth)
    then show "image_parent_check (image_records fs) (present_of (used_nodes fs)) r = Some 0" using image_parents_accepted [OF ready] by blast
  qed (auto intro: image_twins_accepted [OF ready])
  have eqs: "RUNTIME_FS_IMAGE_HEADER_BYTES + length (used_nodes fs) * RUNTIME_FS_IMAGE_RECORD_BYTES = tree_at fs"
    "tree_at fs + (image_leaves fs * 2 - 1) * 4 = data_at fs" by (simp_all add: tree_at_def data_at_def)
  have load: "load_words b (tree_at fs) (image_leaves fs * 2 - 1) = Some (image_tree fs)"
    using load_words_slice [of "tree_at fs" "image_tree fs" b] image_parts(3) [OF img] len length_image_tree [OF e]
    by (simp add: image_length_at data_at_def mult.commute)
  show ?thesis
    by (simp only: runtime_fs_image_validate_def image_parse_header [OF img] Option.bind.simps option.case prod.case sum.case Let_def u eqs
        rec checks load if_False if_True) (simp add: image_tree_accepted [OF e] header_layout_def)
qed

end
