(* ===== verification/Runtime_Fs_Image_Props.thy ===== *)
theory Runtime_Fs_Image_Props
  imports Runtime_Fs_Image_Valid
begin

text \<open>
  Importing an exported image restores the file system: the theorem on checkpoints, for every file system that the
  operations of \<open>runtime_fs.c\<close> reach; and a damaged image that is read outside its buffer.
\<close>

section \<open>What the operations keep of names and sizes\<close>

definition names_ok :: "runtime_fs \<Rightarrow> bool" where
  "names_ok fs \<longleftrightarrow> nd_size_bytes (nodes fs ! 0) \<le> RUNTIME_FS_FILE_CAPACITY \<and>
     (\<forall>i. i \<noteq> 0 \<longrightarrow> live fs i \<longrightarrow> component (cstr (nd_name (nodes fs ! i))))"

lemma names_ok_nodes: "nodes fs' = nodes fs \<Longrightarrow> names_ok fs' = names_ok fs"
  by (simp add: names_ok_def live_def)

lemma names_ok_upd:
  assumes "names_ok fs" "length (nodes fs) = RUNTIME_FS_MAX_NODES"
    and "k = 0 \<Longrightarrow> nd_size_bytes (f (nodes fs ! k)) \<le> RUNTIME_FS_FILE_CAPACITY"
    and "k \<noteq> 0 \<Longrightarrow> nd_used (f (nodes fs ! k)) \<Longrightarrow> component (cstr (nd_name (f (nodes fs ! k)))) \<or>
      nd_used (nodes fs ! k) \<and> nd_name (f (nodes fs ! k)) = nd_name (nodes fs ! k)"
  shows "names_ok (upd_node k f fs)"
  unfolding names_ok_def
proof (intro conjI allI impI)
  have pos: "0 < length (nodes fs)" using assms(2) by (simp add: RUNTIME_FS_MAX_NODES_def)
  show "nd_size_bytes (nodes (upd_node k f fs) ! 0) \<le> RUNTIME_FS_FILE_CAPACITY"
    using assms(1,3) pos by (cases "k = 0") (simp_all add: names_ok_def)
  fix i
  assume "i \<noteq> 0" "live (upd_node k f fs) i"
  then show "component (cstr (nd_name (nodes (upd_node k f fs) ! i)))"
    using assms(1,2,4) by (cases "i = k") (auto simp: names_ok_def live_def)
qed

lemma names_ok_upd_skel:
  assumes "names_ok fs" "fs_inv fs" "node_skel (f (nodes fs ! k)) = node_skel (nodes fs ! k)"
    and "k = 0 \<Longrightarrow> nd_size_bytes (f (nodes fs ! k)) \<le> RUNTIME_FS_FILE_CAPACITY"
  shows "names_ok (upd_node k f fs)"
  using assms by (intro names_ok_upd) (auto simp: node_skel_def fs_inv_def fs_shape_def)

lemma names_ok_created:
  assumes "names_ok fs" "fs_inv fs" "component leaf" "k \<noteq> 0" "k < RUNTIME_FS_MAX_NODES"
  shows "names_ok (fs_made ty p pid m leaf k fs)"
proof -
  have len: "length (nodes fs) = RUNTIME_FS_MAX_NODES" "node_shape (nodes fs ! k)" using assms(2,5) by (simp_all add: fs_inv_def fs_shape_def)
  have "length (nd_name (fresh_node (nodes fs ! k))) = RUNTIME_FS_NAME_CAPACITY" using len(2) by (simp add: fresh_node_def node_shape_def)
  from component_copy_name [OF assms(3) this] have "component (cstr (copy_name (nd_name (fresh_node (nodes fs ! k))) leaf))" using assms(3) by simp
  then have "names_ok (upd_node k (\<lambda>nd. (fresh_node nd)\<lparr>nd_type := ty, nd_parent_index := p, nd_owner_pid := pid, nd_mode := m,
      nd_name := copy_name (nd_name (fresh_node nd)) leaf\<rparr>) fs)"
    using assms(4) len by (intro names_ok_upd [OF assms(1)]) simp_all
  then show ?thesis using len(1) assms(5) by (simp add: fs_made_def upd_node_def)
qed

lemma names_ok_open_lookup:
  assumes "names_ok fs" "fs_inv fs" "fs_open_lookup fs pid path flags = Inr (fs1, k)"
  shows "names_ok fs1"
proof (cases "fs_resolve_path fs path")
  case (Some j)
  then show ?thesis using assms by (simp add: fs_open_lookup_def)
next
  case None
  then obtain leaf p where path: "fs_resolve_parent_path fs path = Inr (leaf, p)" and alloc: "fs_alloc_node fs = Some (upd_node k fresh_node fs, k)"
    and fs1: "fs1 = fs_made RUNTIME_FILE_TYPE_REGULAR p pid 420 leaf k fs"
    using assms(3) by (auto simp: fs_open_lookup_def fs_made_def dest: fs_alloc_node_result split: if_splits sum.splits option.splits prod.splits)
  have "component leaf" using fs_resolve_parent_path_Inr [OF path fs_inv_shape [OF assms(2)] fs_inv_root [OF assms(2)]] by simp
  then show ?thesis unfolding fs1 using names_ok_created [OF assms(1,2)] fs_alloc_node_result [OF alloc] by simp
qed

lemma names_ok_truncate: "names_ok fs \<Longrightarrow> fs_inv fs \<Longrightarrow> names_ok (upd_node k fs_truncate_node fs)"
  by (rule names_ok_upd_skel) (simp_all add: fs_truncate_node_simps)

lemma names_ok_open:
  assumes "names_ok fs" "fs_inv fs"
  shows "names_ok (fst (snd (runtime_fs_open fs pid path flags x)))"
proof (cases "path = None \<or> x = None \<or> cchar (the path) 0 \<noteq> CHR ''/'' \<or> (\<exists>e. fs_open_lookup fs pid path flags = Inl e)")
  case True
  then show ?thesis using assms by (auto simp: runtime_fs_open_def)
next
  case False
  then obtain fs1 k where look: "fs_open_lookup fs pid path flags = Inr (fs1, k)"
    by (cases "fs_open_lookup fs pid path flags") auto
  obtain st fs2 where chk: "fs_open_check fs1 pid k flags = (st, fs2)" by fastforce
  have "names_ok fs1" using names_ok_open_lookup [OF assms look] .
  then have ok: "names_ok fs2"
    using fs_open_check_state [of fs1 pid k flags] names_ok_truncate [OF _ fs_inv_open_lookup [OF assms(2) look]] chk by auto
  obtain slot fs3 where slot: "fs_open_slot_alloc fs2 k flags = (slot, fs3)" by fastforce
  then have "nodes fs3 = nodes fs2" by (auto simp: fs_open_slot_alloc_def split: option.splits)
  then have "nodes (fst (snd (runtime_fs_open fs pid path flags x))) = nodes fs2"
    using False look chk slot by (auto simp: runtime_fs_open_def)
  then show ?thesis using ok names_ok_nodes by blast
qed

lemma names_ok_write:
  assumes "names_ok fs" "fs_inv fs" "runtime_fs_write fs x buffer n = Some (st, fs')"
  shows "names_ok fs'"
  using assms(3)
proof (rule runtime_fs_write_cases)
  assume "fs' = fs"
  then show ?thesis using assms(1) by simp
next
  fix slot and bytes :: "u8 list"
  let ?k = "of_node_index (open_files fs ! slot)" and ?o = "of_offset (open_files fs ! slot)"
  assume fs': "fs' = upd_open slot (\<lambda>f. f\<lparr>of_offset := ?o + n\<rparr>) (upd_node ?k (\<lambda>nd. fs_write_node nd ?o bytes n) fs)"
    and reg: "nd_type (nodes fs ! ?k) = RUNTIME_FILE_TYPE_REGULAR"
  have "?k \<noteq> 0"
  proof
    assume "?k = 0"
    then show False using reg root_live_dir [of fs] assms(2) by (simp add: fs_inv_def fs_consistent_def fs_tree_def live_dir_def)
  qed
  then have "names_ok (upd_node ?k (\<lambda>nd. fs_write_node nd ?o bytes n) fs)"
    by (intro names_ok_upd_skel [OF assms(1,2)]) (simp_all add: fs_write_node_skel)
  then show ?thesis unfolding fs' using names_ok_nodes [OF nodes_upd_open] by blast
qed


lemma names_ok_step: "fs_step fs fs' \<Longrightarrow> fs_inv fs \<Longrightarrow> names_ok fs \<Longrightarrow> names_ok fs'"
proof (induction rule: fs_step.induct)
  case (step_mkdir fs pid path mode)
  obtain st fs' where mk: "runtime_fs_mkdir fs pid path mode = (st, fs')" by force
  note comp = fs_resolve_parent_path_Inr(2) [OF _ fs_inv_shape [OF step_mkdir(1)] fs_inv_root [OF step_mkdir(1)]]
  from runtime_fs_mkdir_result [OF mk] show ?case unfolding mk snd_conv
    using step_mkdir names_ok_created comp by blast
next
  case (step_open fs pid path flags obj)
  then show ?case by (simp add: names_ok_open)
next
  case (step_read fs fd buffer n)
  have "nodes (fst (snd (runtime_fs_read fs fd buffer n))) = nodes fs" by (simp add: runtime_fs_read_def Let_def split: option.split)
  then show ?case using step_read names_ok_nodes by blast
next
  case (step_write fs fd buffer n st fs')
  then show ?case using names_ok_write by blast
next
  case (step_close fs fd)
  have "nodes (snd (runtime_fs_close fs fd)) = nodes fs" by (simp add: runtime_fs_close_def split: option.split)
  then show ?case using step_close names_ok_nodes by blast
next
  case (step_readdir fs fd entry)
  have "nodes (fst (snd (runtime_fs_readdir fs fd entry))) = nodes fs" by (simp add: runtime_fs_readdir_def Let_def split: option.split)
  then show ?case using step_readdir names_ok_nodes by blast
next
  case (step_seek fs fd off whence)
  have "nodes (snd (runtime_fs_seek fs fd off whence)) = nodes fs" by (simp add: runtime_fs_seek_def Let_def split: option.split)
  then show ?case using step_seek names_ok_nodes by blast
next
  case (step_remove fs pid path)
  obtain st fs' where rm: "runtime_fs_remove fs pid path = (st, fs')" by force
  have "names_ok (upd_node k fs_clear_node fs)" for k
    using step_remove(1) by (intro names_ok_upd [OF step_remove(2)]) (simp_all add: fs_inv_def fs_shape_def fs_clear_node_def)
  with runtime_fs_remove_result [OF rm] show ?case unfolding rm snd_conv using step_remove by fastforce
next
  case (step_rename fs pid old new st fs')
  note comp = fs_resolve_parent_path_component
  have "names_ok (fs_moved k p leaf fs)" if "live fs k" "component leaf" for k p leaf
  proof -
    have "component (cstr (copy_name (nd_name (nodes fs ! k)) leaf))"
      using component_copy_name [OF that(2), of "nd_name (nodes fs ! k)"] that step_rename(2)
      by (simp add: fs_inv_def fs_shape_def live_def node_shape_def)
    then show ?thesis unfolding fs_moved_def using step_rename(2,3)
      by (intro names_ok_upd) (simp_all add: fs_inv_def fs_shape_def names_ok_def)
  qed
  moreover have "live fs k" if "fs_resolve_path fs old = Some k" for k
    using fs_resolve_path_live [OF that fs_inv_shape [OF step_rename(2)] fs_inv_root [OF step_rename(2)]] .
  ultimately show ?case using runtime_fs_rename_result [OF step_rename(1)] step_rename(3) comp by blast
qed

lemma reachable_image_ready: "fs_reachable fs \<Longrightarrow> fs_root_ok fs \<Longrightarrow> image_ready fs"
proof -
  assume r: "fs_reachable fs" and root: "fs_root_ok fs"
  from r root have "names_ok fs"
  proof induction
    case reachable_init
    show ?case by (auto simp: names_ok_def runtime_fs_init_def live_def RUNTIME_FS_MAX_NODES_def zero_node_def nth_Cons')
  next
    case (reachable_step fs fs')
    then show ?case using names_ok_step fs_inv_before fs_inv_root by blast
  qed
  with fs_inv_reachable [OF r root] show ?thesis by (auto simp: image_ready_def names_ok_def)
qed

section \<open>Import restores the file system\<close>

definition canon_node :: "runtime_fs_node \<Rightarrow> runtime_fs_node" where
  "canon_node nd = nd\<lparr>nd_used := True, nd_name := padded (cstr (nd_name nd)),
     nd_data := node_payload nd @ replicate (RUNTIME_FS_FILE_CAPACITY - node_data_size nd) 0\<rparr>"

definition restored :: "runtime_fs \<Rightarrow> nat list \<Rightarrow> runtime_fs" where
  "restored fs is = \<lparr>nodes = map (\<lambda>i. if i \<in> set is then canon_node (nodes fs ! i) else zero_node) [0..<RUNTIME_FS_MAX_NODES],
     open_files = replicate RUNTIME_FS_MAX_OPEN_FILES zero_open_file\<rparr>"

lemma import_clear_init:
  "runtime_fs_init\<lparr>nodes := map import_clear_node (nodes runtime_fs_init), open_files := map import_clear_open (open_files runtime_fs_init)\<rparr> = restored fs []"
proof -
  have z: "import_clear_node zero_node = zero_node"
    by (simp add: import_clear_node_def zero_node_def zero_bytes_code RUNTIME_FS_FILE_CAPACITY_def RUNTIME_FS_NAME_CAPACITY_def list_update_same_conv)
  have n: "nodes runtime_fs_init = (nodes runtime_fs_init ! 0) # replicate 15 zero_node"
    by (simp add: runtime_fs_init_def RUNTIME_FS_MAX_NODES_def numeral_eq_Suc)
  have "import_clear_node (nodes runtime_fs_init ! 0) = zero_node"
    by (simp add: runtime_fs_init_def RUNTIME_FS_MAX_NODES_def import_clear_node_def zero_node_def zero_bytes_code
        RUNTIME_FS_FILE_CAPACITY_def RUNTIME_FS_NAME_CAPACITY_def numeral_eq_Suc)
  then have "map import_clear_node (nodes runtime_fs_init) = replicate 16 zero_node"
    by (subst n) (simp add: z numeral_eq_Suc)
  moreover have "map import_clear_open (open_files runtime_fs_init) = replicate RUNTIME_FS_MAX_OPEN_FILES zero_open_file"
    by (simp add: runtime_fs_init_def import_clear_open_def zero_open_file_def)
  ultimately show ?thesis by (simp add: restored_def map_replicate_const RUNTIME_FS_MAX_NODES_def)
qed


lemma import_data:
  assumes "n \<le> RUNTIME_FS_FILE_CAPACITY" "off + n \<le> length b"
  shows "fold (\<lambda>i d. d[i := b ! (off + i)]) [0..<n] (replicate RUNTIME_FS_FILE_CAPACITY 0) =
    slice off n b @ replicate (RUNTIME_FS_FILE_CAPACITY - n) 0"
proof -
  have "map (\<lambda>i. b ! (off + i)) [0..<n] = slice off n b"
    using assms(2) by (intro nth_equalityI) (simp_all add: nth_slice)
  then show ?thesis using assms(1) fold_update_0 [of "\<lambda>i. b ! (off + i)" n "replicate RUNTIME_FS_FILE_CAPACITY 0"]
    by (simp add: min_def)
qed

lemma copy_name_padded:
  assumes "length s < RUNTIME_FS_NAME_CAPACITY" "NUL \<notin> set s"
  shows "runtime_fs_image_copy_name (replicate RUNTIME_FS_NAME_CAPACITY NUL) (padded s) = padded s"
  using assms image_copy_name_padded [of "replicate RUNTIME_FS_NAME_CAPACITY NUL" "padded s"] by (simp add: cstr_padded)

lemma import_record_step:
  assumes ready: "image_ready fs" and img: "holds_image fs b" and k: "k < length (used_nodes fs)"
  shows "import_record b (data_at fs) (image_records fs ! k) (restored fs (take k (used_nodes fs))) = restored fs (take (Suc k) (used_nodes fs))"
proof -
  have e: "exportable fs" using img by (simp add: holds_image_def)
  define i where "i = used_nodes fs ! k"
  define nd where "nd = nodes fs ! i"
  define p where "p = payload_before fs k"
  have live: "live fs i" using used_nodes_live [OF k] by (simp add: i_def)
  have fit: "fits nd" using image_ready_fits [OF ready live] by (simp add: nd_def)
  have i16: "i < RUNTIME_FS_MAX_NODES" using live_nodes_bound [OF live] .
  have r: "image_records fs ! k = image_record_of i nd p" using image_records_nth [OF e k] by (simp add: i_def nd_def p_def)
  have fresh: "i \<notin> set (take k (used_nodes fs))"
    using used_nodes_distinct [of fs] k by (auto simp: i_def in_set_conv_nth nth_eq_iff_index_eq)
  have up: "unat (of_nat i :: u32) = i" "unat (of_nat p :: u32) = p" "unat (of_nat (node_data_size nd) :: u32) = node_data_size nd"
    "unat (of_nat (nd_size_bytes nd) :: u32) = nd_size_bytes nd" "unat (of_nat (nd_parent_index nd) :: u32) = nd_parent_index nd"
  proof -
    have "p \<le> 4096" using payload_before_le [of fs k] image_sizes(1) [OF e] by (simp add: p_def)
    moreover have "nd_parent_index nd < RUNTIME_FS_MAX_NODES"
      using live_nodes_bound [of fs "fs_parent fs i"] node_facts(2) [OF ready live] by (simp add: live_dir_def fs_parent_def nd_def)
    ultimately show "unat (of_nat i :: u32) = i" "unat (of_nat p :: u32) = p" "unat (of_nat (node_data_size nd) :: u32) = node_data_size nd"
      "unat (of_nat (nd_size_bytes nd) :: u32) = nd_size_bytes nd" "unat (of_nat (nd_parent_index nd) :: u32) = nd_parent_index nd"
      using i16 fit unat_data_size [OF fit]
      by (auto intro!: unat_small simp: RUNTIME_FS_MAX_NODES_def fits_def RUNTIME_FS_FILE_CAPACITY_def)
  qed
  note ds = image_data_slice [OF img k, folded i_def, folded nd_def, folded p_def]
  have data: "fold (\<lambda>j d. d[j := b ! (data_at fs + p + j)]) [0..<node_data_size nd] (replicate RUNTIME_FS_FILE_CAPACITY 0) =
      node_payload nd @ replicate (RUNTIME_FS_FILE_CAPACITY - node_data_size nd) 0"
    using import_data [OF node_data_size_small [OF fit] ds(2)] ds(1) by simp
  have name: "runtime_fs_image_copy_name (replicate RUNTIME_FS_NAME_CAPACITY NUL) (ir_name (image_record_of i nd p)) = padded (cstr (nd_name nd))"
    using image_record_name [OF ready live, of p] copy_name_padded [OF node_facts(3) [OF ready live]] by (simp add: nd_def)
  let ?fs = "restored fs (take k (used_nodes fs))"
  have at: "nodes ?fs ! i = zero_node" using i16 fresh by (simp add: restored_def)
  have new: "zero_node\<lparr>nd_used := True, nd_type := ir_type (image_record_of i nd p), nd_parent_index := unat (ir_parent_index (image_record_of i nd p)),
      nd_owner_pid := ir_owner_pid (image_record_of i nd p), nd_mode := ir_mode (image_record_of i nd p),
      nd_size_bytes := unat (ir_size_bytes (image_record_of i nd p)),
      nd_name := runtime_fs_image_copy_name (nd_name zero_node) (ir_name (image_record_of i nd p)),
      nd_data := fold (\<lambda>j d. d[j := b ! (data_at fs + unat (ir_data_offset (image_record_of i nd p)) + j)])
        [0..<unat (ir_data_size (image_record_of i nd p))] (nd_data zero_node)\<rparr> = canon_node nd"
    using name data by (simp add: up zero_node_def canon_node_def del: image_record_of_simps(9))
  have "import_record b (data_at fs) (image_record_of i nd p) ?fs = ?fs\<lparr>nodes := (nodes ?fs)[i := canon_node nd]\<rparr>"
    unfolding import_record_def upd_node_def using at new up(1) by simp
  also have "\<dots> = restored fs (take (Suc k) (used_nodes fs))"
  proof -
    have "(nodes ?fs)[i := canon_node nd] = nodes (restored fs (take (Suc k) (used_nodes fs)))"
      by (rule nth_equalityI) (use k in \<open>auto simp: restored_def nth_list_update_if take_Suc_conv_app_nth i_def nd_def\<close>)
    then show ?thesis by (simp add: restored_def)
  qed
  finally show ?thesis unfolding r .
qed

lemma import_records_restore:
  assumes ready: "image_ready fs" and img: "holds_image fs b" and "k \<le> length (used_nodes fs)"
  shows "import_records b RUNTIME_FS_IMAGE_HEADER_BYTES RUNTIME_FS_IMAGE_RECORD_BYTES (data_at fs) [k..<length (used_nodes fs)]
    (restored fs (take k (used_nodes fs))) = Some (restored fs (used_nodes fs))"
  using assms(3)
proof (induction k rule: inc_induct)
  case (step k)
  then show ?case using image_read_record [OF img step(2)] import_record_step [OF ready img step(2)] by (simp add: upt_conv_Cons)
qed simp


text \<open>What a checkpoint keeps: every node with its place in the tree, its name, its owner, mode and size, and the bytes of every file.\<close>

definition same_node :: "runtime_fs_node \<Rightarrow> runtime_fs_node \<Rightarrow> bool" where
  "same_node nd nd' \<longleftrightarrow> nd_used nd' = nd_used nd \<and>
     (nd_used nd \<longrightarrow> nd_type nd' = nd_type nd \<and> nd_parent_index nd' = nd_parent_index nd \<and> nd_owner_pid nd' = nd_owner_pid nd \<and>
        nd_mode nd' = nd_mode nd \<and> nd_size_bytes nd' = nd_size_bytes nd \<and> cstr (nd_name nd') = cstr (nd_name nd) \<and>
        (nd_type nd = RUNTIME_FILE_TYPE_REGULAR \<longrightarrow> take (nd_size_bytes nd) (nd_data nd') = take (nd_size_bytes nd) (nd_data nd)))"

definition same_files :: "runtime_fs \<Rightarrow> runtime_fs \<Rightarrow> bool" where
  "same_files fs fs' \<longleftrightarrow> (\<forall>i < RUNTIME_FS_MAX_NODES. same_node (nodes fs ! i) (nodes fs' ! i))"

lemma restored_same:
  assumes "image_ready fs" shows "same_files fs (restored fs (used_nodes fs))"
proof -
  have "same_node (nodes fs ! i) (nodes (restored fs (used_nodes fs)) ! i)" if i: "i < RUNTIME_FS_MAX_NODES" for i
  proof (cases "live fs i")
    case True
    have "take (nd_size_bytes (nodes fs ! i)) (nd_data (canon_node (nodes fs ! i))) = take (nd_size_bytes (nodes fs ! i)) (nd_data (nodes fs ! i))"
      if "nd_type (nodes fs ! i) = RUNTIME_FILE_TYPE_REGULAR"
      using that image_ready_fits [OF assms True] by (simp add: canon_node_def node_payload_def node_data_size_def fits_def node_shape_def)
    then show ?thesis using True i node_facts(3) [OF assms True]
      by (simp add: restored_def set_used_nodes same_node_def canon_node_def cstr_padded live_def)
  next
    case False
    then show ?thesis using i by (simp add: restored_def set_used_nodes same_node_def live_def zero_node_def)
  qed
  then show ?thesis by (simp add: same_files_def)
qed

lemma same_files_live: "same_files fs fs' \<Longrightarrow> live fs' = live fs"
  by (auto simp: same_files_def same_node_def live_def fun_eq_iff)

lemma same_files_node:
  assumes "same_files fs fs'" "live fs i"
  shows "nd_type (nodes fs' ! i) = nd_type (nodes fs ! i)" "fs_parent fs' i = fs_parent fs i" "cstr (nd_name (nodes fs' ! i)) = cstr (nd_name (nodes fs ! i))"
    "nd_size_bytes (nodes fs' ! i) = nd_size_bytes (nodes fs ! i)"
  using assms by (auto simp: same_files_def same_node_def live_def fs_parent_def)

lemma same_files_tree:
  assumes same: "same_files fs fs'" and tree: "fs_tree fs" and dist: "fs_distinct fs"
  shows "fs_tree fs'" "fs_distinct fs'"
proof -
  note node = same_files_node [OF same]
  have root: "live fs 0" using tree root_live_dir by (auto simp: fs_tree_def live_dir_def)
  have dir: "live_dir fs' i = live_dir fs i" for i
    using node(1) [of i] by (auto simp: live_dir_def same_files_live [OF same])
  have "rooted fs' i" if "i \<noteq> 0" "live fs i" for i
    using rooted_transfer [of fs i "{j. live fs j}" fs'] that node(2) tree fs_tree_parent_live [OF tree] by (auto simp: fs_tree_def)
  moreover have "node_ok fs' i" if "i \<noteq> 0" "live fs i" for i
    using that node [of i] tree by (auto simp: node_ok_def fs_tree_def dir)
  moreover have "fs_root_ok fs'"
  proof -
    have c: "cchar s 0 = CHR ''/'' \<and> cchar s 1 = NUL \<longleftrightarrow> cstr s = ''/''" for s
      by (cases s) (auto simp: cchar_0_NUL)
    have "nd_used (nodes fs' ! 0)" using same_files_live [OF same] root by (metis live_def)
    then show ?thesis using node [OF root] tree c [of "nd_name (nodes fs' ! 0)"] c [of "nd_name (nodes fs ! 0)"]
      by (auto simp: fs_tree_def fs_root_ok_def Let_def fs_parent_def live_def)
  qed
  ultimately show "fs_tree fs'" by (simp add: fs_tree_def same_files_live [OF same])
  show "fs_distinct fs'" using dist node by (simp add: fs_distinct_def same_files_live [OF same])
qed

lemma same_files_find_child:
  assumes "same_files fs fs'" "length (nodes fs) = RUNTIME_FS_MAX_NODES" "length (nodes fs') = RUNTIME_FS_MAX_NODES"
  shows "fs_find_child fs' k name = fs_find_child fs k name"
proof -
  have "(nd_used (nodes fs' ! i) \<and> nd_parent_index (nodes fs' ! i) = k \<and> name_equals (nd_name (nodes fs' ! i)) name) =
      (nd_used (nodes fs ! i) \<and> nd_parent_index (nodes fs ! i) = k \<and> name_equals (nd_name (nodes fs ! i)) name)"
    if "i < RUNTIME_FS_MAX_NODES" for i
    using assms(1) that by (auto simp: same_files_def same_node_def name_equals_iff)
  then show ?thesis unfolding fs_find_child_def first_index_def using assms(2,3) by (intro find_cong) auto
qed

lemma same_files_resolve:
  assumes "same_files fs fs'" "length (nodes fs) = RUNTIME_FS_MAX_NODES" "length (nodes fs') = RUNTIME_FS_MAX_NODES"
  shows "fs_resolve_path fs' path = fs_resolve_path fs path"
proof -
  have "fs_resolve_from fs' k cursor = fs_resolve_from fs k cursor" for k cursor
  proof (induction "length cursor" arbitrary: k cursor rule: less_induct)
    case less
    then show ?case unfolding fs_resolve_from.simps [of fs' k] fs_resolve_from.simps [of fs k] same_files_find_child [OF assms]
      by (auto dest: fs_token_next_shorter split: token_step.split option.split)
  qed
  then show ?thesis by (simp add: fs_resolve_path_def split: option.split)
qed

lemma restored_validates:
  assumes "image_ready fs" shows "runtime_fs_validate (restored fs (used_nodes fs)) = Some 0"
  unfolding runtime_fs_validate_iff fs_consistent_def
  using same_files_tree [OF restored_same [OF assms] image_ready_tree [OF assms] image_ready_distinct [OF assms]]
  by (simp add: restored_def open_ok_def zero_open_file_def)

lemma image_imports:
  assumes ready: "image_ready fs" and img: "holds_image fs b"
  shows "runtime_fs_image_import (Some fs0) (Some b) (of_nat (image_length fs)) layout =
    Some (0, Some (restored fs (used_nodes fs)), map_option (\<lambda>_. header_layout (image_header fs)) layout)"
proof -
  have e: "exportable fs" using img by (simp add: holds_image_def)
  have eqs: "RUNTIME_FS_IMAGE_HEADER_BYTES + length (used_nodes fs) * RUNTIME_FS_IMAGE_RECORD_BYTES = tree_at fs"
    "tree_at fs + (image_leaves fs * 2 - 1) * 4 = data_at fs" by (simp_all add: tree_at_def data_at_def)
  have records: "import_records b RUNTIME_FS_IMAGE_HEADER_BYTES RUNTIME_FS_IMAGE_RECORD_BYTES (data_at fs) [0..<length (used_nodes fs)]
      (restored fs []) = Some (restored fs (used_nodes fs))"
    using import_records_restore [OF ready img, of 0] by simp
  show ?thesis
    unfolding runtime_fs_image_import_def
    by (simp only: image_validates [OF ready img] image_parse_header [OF img] Option.bind.simps option.case prod.case Let_def
        header_unat [OF e] eqs import_clear_init [of fs] records restored_validates [OF ready]) simp
qed


section \<open>Checkpoints\<close>

lemma export_holds_image:
  assumes "image_ready fs" "image_length fs \<le> length b"
  shows "holds_image fs (patch 0 (image_of fs) b)" "drop (image_length fs) (patch 0 (image_of fs) b) = drop (image_length fs) b"
  using assms image_ready_exportable [OF assms(1)] length_image_of [OF image_ready_exportable [OF assms(1)]]
  by (simp_all add: holds_image_def patch_def)

lemma required_bytes_image:
  assumes "image_ready fs" shows "runtime_fs_image_required_bytes (Some fs) = Some (image_length fs)"
proof -
  have "runtime_fs_validate fs = Some 0" using assms by (simp add: image_ready_def fs_inv_def runtime_fs_validate_iff)
  then show ?thesis using image_ready_exportable [OF assms]
    by (simp add: runtime_fs_image_required_bytes_def record_count_used data_bytes_payload image_length_def Let_def exportable_def)
qed

lemma checkpoint_restores:
  assumes ready: "image_ready fs" and closed: "\<forall>f \<in> set (open_files fs). \<not> of_used f" and len: "image_length fs \<le> capacity" "capacity \<le> length b"
  defines "b' \<equiv> patch 0 (image_of fs) b" and "l \<equiv> header_layout (image_header fs)"
  shows "runtime_fs_image_export (Some fs) (Some b) capacity (Some w) (Some l0) = Some (0, Some b', Some (image_length fs), Some l)"
    and "runtime_fs_image_validate (Some b') (of_nat (image_length fs)) (Some l0) = Some (0, Some l)"
    and "runtime_fs_image_import (Some fs0) (Some b') (of_nat (image_length fs)) (Some l0) = Some (0, Some (restored fs (used_nodes fs)), Some l)"
proof -
  note e = image_ready_exportable [OF ready]
  have valid: "runtime_fs_validate fs = Some 0"
    using ready by (simp add: image_ready_def fs_inv_def runtime_fs_validate_iff)
  have "length (open_files fs) = RUNTIME_FS_MAX_OPEN_FILES"
    using ready by (simp add: image_ready_def fs_inv_def fs_shape_def)
  then have "\<not> runtime_fs_image_has_open_files fs"
    using closed by (simp add: runtime_fs_image_has_open_files_def list_ex_iff)
  moreover have "image_bytes_for (length (used_nodes fs)) (length (image_payload fs)) \<le> capacity"
    using len(1) by (simp add: image_length_def)
  ultimately show "runtime_fs_image_export (Some fs) (Some b) capacity (Some w) (Some l0) = Some (0, Some b', Some (image_length fs), Some l)"
    unfolding b'_def l_def using valid e export_bytes_image [OF e, of b] len
    by (simp add: runtime_fs_image_export_def record_count_used data_bytes_payload exportable_def)
  have "holds_image fs b'"
    unfolding b'_def using export_holds_image [OF ready] len by simp
  then show "runtime_fs_image_validate (Some b') (of_nat (image_length fs)) (Some l0) = Some (0, Some l)"
    and "runtime_fs_image_import (Some fs0) (Some b') (of_nat (image_length fs)) (Some l0) = Some (0, Some (restored fs (used_nodes fs)), Some l)"
    unfolding l_def using image_validates [OF ready] image_imports [OF ready] by simp_all
qed

text \<open>C29: a checkpoint round trip. For every file system that the operations reach, whose root entry is in order (it is unless a
  remove or rename was applied to the root by a path such as two slashes) and that has no open files, and every buffer of the
  required size, the export succeeds and writes nothing behind the image; the image passes validation; and importing it into any
  file system restores every node with its place in the tree, name, owner, mode and size and every file with its bytes, so
  that all paths resolve to the same nodes, with no open files and a validated result.\<close>

theorem image_roundtrip:
  assumes "fs_reachable fs" and "fs_root_ok fs" and "\<forall>f \<in> set (open_files fs). \<not> of_used f"
    and "runtime_fs_image_required_bytes (Some fs) = Some n" and "n \<le> capacity" "capacity \<le> length b"
  shows "\<exists>b' l fs'. runtime_fs_image_export (Some fs) (Some b) capacity (Some w) (Some l0) = Some (RUNTIME_SYSCALL_STATUS_OK, Some b', Some n, Some l) \<and>
    drop n b' = drop n b \<and>
    runtime_fs_image_validate (Some b') (of_nat n) (Some l0) = Some (RUNTIME_SYSCALL_STATUS_OK, Some l) \<and>
    runtime_fs_image_import (Some fs0) (Some b') (of_nat n) (Some l0) = Some (RUNTIME_SYSCALL_STATUS_OK, Some fs', Some l) \<and>
    same_files fs fs' \<and> (\<forall>path. fs_resolve_path fs' path = fs_resolve_path fs path) \<and>
    (\<forall>f \<in> set (open_files fs'). \<not> of_used f) \<and> runtime_fs_validate fs' = Some RUNTIME_SYSCALL_STATUS_OK"
proof -
  note ready = reachable_image_ready [OF assms(1,2)]
  have n: "n = image_length fs"
    using required_bytes_image [OF ready] assms(4) by simp
  then have len: "image_length fs \<le> capacity" "image_length fs \<le> length b"
    using assms(5,6) by simp_all
  let ?fs = "restored fs (used_nodes fs)"
  have "length (nodes fs) = RUNTIME_FS_MAX_NODES" "length (nodes ?fs) = RUNTIME_FS_MAX_NODES" "\<forall>f \<in> set (open_files ?fs). \<not> of_used f"
    using ready by (simp_all add: image_ready_def fs_inv_def fs_shape_def restored_def zero_open_file_def)
  then show ?thesis
    using n checkpoint_restores [OF ready assms(3) len(1) assms(6)] export_holds_image(2) [OF ready len(2)] restored_same [OF ready]
      same_files_resolve [OF restored_same [OF ready]] restored_validates [OF ready] by fastforce
qed

theorem image_roundtrip_witness:
  "\<exists>b' l0 l fs'. runtime_fs_image_import (Some runtime_fs_init) (Some b') 164 (Some l0) = Some (RUNTIME_SYSCALL_STATUS_OK, Some fs', Some l) \<and>
     fs_resolve_path fs' (Some ''/a'') = Some 1"
proof -
  let ?fs = "snd (runtime_fs_mkdir runtime_fs_init 1 (Some ''/a'') 493)"
  have r: "fs_reachable ?fs" by (rule reachable_step [OF reachable_init step_mkdir])
  have closed: "\<forall>f \<in> set (open_files ?fs). \<not> of_used f" by code_simp
  have n: "runtime_fs_image_required_bytes (Some ?fs) = Some 164" by code_simp
  have path: "fs_resolve_path ?fs (Some ''/a'') = Some 1" by code_simp
  have root: "fs_root_ok ?fs" by code_simp
  from image_roundtrip [OF r root closed n order_refl, of "replicate 164 0"] obtain b' l l0 fs'
    where "runtime_fs_image_import (Some runtime_fs_init) (Some b') (of_nat 164) (Some l0) = Some (RUNTIME_SYSCALL_STATUS_OK, Some fs', Some l)"
      "\<forall>path. fs_resolve_path fs' path = fs_resolve_path ?fs path" by force
  then have "runtime_fs_image_import (Some runtime_fs_init) (Some b') 164 (Some l0) = Some (RUNTIME_SYSCALL_STATUS_OK, Some fs', Some l)"
    "fs_resolve_path fs' (Some ''/a'') = Some 1" using path by simp_all
  then show ?thesis by blast
qed


section \<open>Damaged images\<close>

text \<open>The sum of the sizes in a header wraps: a header of 40 bytes alone is accepted for one record, which is then read behind the buffer.\<close>

definition short_image :: "u8 list" where
  "short_image = words_bytes [RUNTIME_FS_IMAGE_MAGIC, RUNTIME_FS_IMAGE_VERSION, 40, 1, 56, 1, 1, - 60, 0, 40]"

lemma short_image_reads_outside: "length short_image = 40 \<and> runtime_fs_image_validate (Some short_image) 40 None = None"
  by code_simp

end
