(* ===== verification/Kernel_Fs_Test.thy ===== *)
theory Kernel_Fs_Test
  imports Kernel_Ops Runtime_Fs_Image_Props
begin

text \<open>
  The self test of the file system in \<open>kernel/kernel.c\<close>: the process \<open>process_fs_stress\<close>, which clears a file system byte by
  byte, probes it, makes a directory, writes a file and reads it back, and takes a checkpoint and restores it; and the probe
  \<open>runtime_fs_stage1_probe\<close>, an independent check of a file system without open files. The layout of the structure in
  memory is a parameter. Other processes may run in the interrupt windows of the clearing loop, but none of them uses the
  state of the test. (\<open>runtime_fs_stress_round\<close> and its helpers are never called.)
\<close>

section \<open>State\<close>

definition RUNTIME_FS_IMAGE_MAX_TREE_HASHES :: nat where
  "RUNTIME_FS_IMAGE_MAX_TREE_HASHES = RUNTIME_FS_IMAGE_MAX_TREE_LEAVES * 2 - 1"

definition RUNTIME_FS_IMAGE_MAX_BYTES :: nat where
  "RUNTIME_FS_IMAGE_MAX_BYTES = RUNTIME_FS_IMAGE_HEADER_BYTES + RUNTIME_FS_MAX_NODES * RUNTIME_FS_IMAGE_RECORD_BYTES +
     RUNTIME_FS_IMAGE_MAX_TREE_HASHES * 4 + RUNTIME_FS_MAX_NODES * RUNTIME_FS_FILE_CAPACITY"

record runtime_fs_stress_state =
  ts_fs :: runtime_fs
  ts_table :: runtime_syscall_table
  ts_image_buffer :: "u8 list"
  ts_rounds_completed :: u32
  ts_failures :: u32
  ts_last_status :: int
  ts_last_step :: u32
  ts_last_checksum :: u32
  ts_last_find_count :: u32
  ts_last_image_bytes :: u32
  ts_last_image_root_hash :: u32
  ts_last_cleanup_count :: u32
  ts_complete :: u8

text \<open>How the compiler lays the file system out: its bytes, and the structure that bytes are read as.\<close>

record fs_layout =
  bytes_of_fs :: "runtime_fs \<Rightarrow> u8 list"
  fs_of_bytes :: "u8 list \<Rightarrow> runtime_fs"

text \<open>The test ends with \<open>task_exit\<close> or with \<open>panic_halt\<close>.\<close>

datatype test_outcome = Exited runtime_fs_stress_state | Halted runtime_fs_stress_state

section \<open>Helpers of the test\<close>

definition runtime_fs_stress_checksum :: "u8 list \<Rightarrow> nat \<Rightarrow> u32" where
  "runtime_fs_stress_checksum buffer n = foldl (\<lambda>checksum b. checksum * 131 + ucast b) 0 (take n buffer)"

definition runtime_fs_stress_buffer_equal :: "u8 list \<Rightarrow> u8 list \<Rightarrow> nat \<Rightarrow> bool" where
  "runtime_fs_stress_buffer_equal lhs rhs n = list_all (\<lambda>index. lhs ! index = rhs ! index) [0..<n]"

definition runtime_fs_stress_expect :: "runtime_fs_stress_state \<Rightarrow> u32 \<Rightarrow> int \<Rightarrow> int \<Rightarrow> bool \<times> runtime_fs_stress_state" where
  "runtime_fs_stress_expect state step actual expected =
     (if actual = expected then (True, state)
      else (False, state\<lparr>ts_failures := ts_failures state + 1, ts_last_step := step, ts_last_status := actual\<rparr>))"

section \<open>Clearing a file system in chunks\<close>

definition RUNTIME_FS_STRESS_INIT_CHUNK_BYTES :: nat where "RUNTIME_FS_STRESS_INIT_CHUNK_BYTES = 32"

function clear_chunks :: "nat \<Rightarrow> u8 list \<Rightarrow> u8 list" where
  "clear_chunks offset bytes =
     (if offset < length bytes
      then let chunk_end = min (offset + RUNTIME_FS_STRESS_INIT_CHUNK_BYTES) (length bytes) in
        clear_chunks chunk_end (zero_bytes bytes offset chunk_end)
      else bytes)"
  by pat_completeness auto
termination
  by (relation "measure (\<lambda>(offset, bytes). length bytes - offset)") (auto simp: RUNTIME_FS_STRESS_INIT_CHUNK_BYTES_def)

declare clear_chunks.simps [simp del]

definition runtime_fs_stress_init_fs_chunked :: "fs_layout \<Rightarrow> runtime_fs ptr \<Rightarrow> u32 \<times> runtime_fs ptr" where
  "runtime_fs_stress_init_fs_chunked layout fs =
     (case fs of None \<Rightarrow> (0, None)
      | Some fs \<Rightarrow> (1, Some (upd_node 0 (\<lambda>nd. nd\<lparr>nd_used := True, nd_type := RUNTIME_FILE_TYPE_DIRECTORY,
           nd_parent_index := 0, nd_owner_pid := 0, nd_mode := 493, nd_name := (nd_name nd)[0 := CHR ''/'', 1 := NUL]\<rparr>)
         (fs_of_bytes layout (clear_chunks 0 (bytes_of_fs layout fs))))))"

section \<open>The probe\<close>

fun runtime_fs_probe_name_equals :: "string \<Rightarrow> string \<Rightarrow> bool" where
  "runtime_fs_probe_name_equals (x # xs) (y # ys) =
     (if x \<noteq> NUL \<and> y \<noteq> NUL then (if x \<noteq> y then False else runtime_fs_probe_name_equals xs ys) else x = NUL \<and> y = NUL)"
| "runtime_fs_probe_name_equals xs ys = (cchar xs 0 = NUL \<and> cchar ys 0 = NUL)"

definition runtime_fs_probe_name_is_empty :: "string \<Rightarrow> bool" where
  "runtime_fs_probe_name_is_empty name = (cchar name 0 = NUL)"

text \<open>The walk up the parents. \<open>None\<close>: it reads a node outside the array.\<close>

function probe_chain :: "runtime_fs \<Rightarrow> nat \<Rightarrow> nat \<Rightarrow> int option" where
  "probe_chain fs current n =
     (if current = 0 then Some RUNTIME_SYSCALL_STATUS_OK
      else let current = nd_parent_index (nodes fs ! current); n = Suc n in
        if n > RUNTIME_FS_MAX_NODES then Some RUNTIME_SYSCALL_STATUS_EINVAL
        else if current \<ge> RUNTIME_FS_MAX_NODES then None
        else if \<not> nd_used (nodes fs ! current) then Some RUNTIME_SYSCALL_STATUS_EINVAL
        else probe_chain fs current n)"
  by pat_completeness auto
termination
  by (relation "measure (\<lambda>(fs, current, n). Suc RUNTIME_FS_MAX_NODES - n)") (auto simp: Let_def)

declare probe_chain.simps [simp del]

definition probe_node :: "runtime_fs \<Rightarrow> nat \<Rightarrow> int option" where
  "probe_node fs index =
     (let node = nodes fs ! index in
      if \<not> nd_used node then Some RUNTIME_SYSCALL_STATUS_OK
      else if nd_type node \<noteq> RUNTIME_FILE_TYPE_DIRECTORY \<and> nd_type node \<noteq> RUNTIME_FILE_TYPE_REGULAR then Some RUNTIME_SYSCALL_STATUS_EINVAL
      else if runtime_fs_probe_name_is_empty (nd_name node) then Some RUNTIME_SYSCALL_STATUS_EINVAL
      else if nd_parent_index node \<ge> RUNTIME_FS_MAX_NODES then Some RUNTIME_SYSCALL_STATUS_EINVAL
      else if \<not> nd_used (nodes fs ! nd_parent_index node) \<or>
        nd_type (nodes fs ! nd_parent_index node) \<noteq> RUNTIME_FILE_TYPE_DIRECTORY then Some RUNTIME_SYSCALL_STATUS_EINVAL
      else if nd_size_bytes node > RUNTIME_FS_FILE_CAPACITY then Some RUNTIME_SYSCALL_STATUS_EINVAL
      else case probe_chain fs index 0 of
        None \<Rightarrow> None
      | Some status \<Rightarrow>
          (if status \<noteq> RUNTIME_SYSCALL_STATUS_OK then Some status
           else if list_ex (\<lambda>other. let peer = nodes fs ! other in nd_used peer \<and> nd_parent_index peer = nd_parent_index node \<and>
             runtime_fs_probe_name_equals (nd_name peer) (nd_name node)) [Suc index..<RUNTIME_FS_MAX_NODES]
           then Some RUNTIME_SYSCALL_STATUS_EEXIST
           else Some RUNTIME_SYSCALL_STATUS_OK))"

text \<open>The codes that the probe leaves for diagnosis are not modelled.\<close>

definition runtime_fs_stage1_probe :: "runtime_fs ptr \<Rightarrow> int option" where
  "runtime_fs_stage1_probe fs =
     (case fs of None \<Rightarrow> Some RUNTIME_SYSCALL_STATUS_EINVAL
      | Some fs \<Rightarrow> (let root = nodes fs ! 0 in
          if \<not> nd_used root then Some RUNTIME_SYSCALL_STATUS_EINVAL
          else if nd_type root \<noteq> RUNTIME_FILE_TYPE_DIRECTORY then Some RUNTIME_SYSCALL_STATUS_EINVAL
          else if nd_parent_index root \<noteq> 0 then Some RUNTIME_SYSCALL_STATUS_EINVAL
          else if cchar (nd_name root) 0 \<noteq> CHR ''/'' \<or> cchar (nd_name root) 1 \<noteq> NUL then Some RUNTIME_SYSCALL_STATUS_EINVAL
          else case first_failure (map (probe_node fs) [1..<RUNTIME_FS_MAX_NODES] @
              map (\<lambda>index. if of_used (open_files fs ! index) then Some RUNTIME_SYSCALL_STATUS_EBADF else Some RUNTIME_SYSCALL_STATUS_OK)
                [0..<RUNTIME_FS_MAX_OPEN_FILES]) of
            None \<Rightarrow> None
          | Some status \<Rightarrow> if status \<noteq> RUNTIME_SYSCALL_STATUS_OK then Some status else runtime_fs_validate fs))"

section \<open>The test\<close>

definition g_fs_path_stress_root :: string where "g_fs_path_stress_root = ''/stress''"
definition g_fs_path_stress_boot :: string where "g_fs_path_stress_boot = ''/stress/boot.txt''"

definition g_fs_payload_boot :: "u8 list" where
  "g_fs_payload_boot = map of_char ''TENSORFS''"

definition fs_stress_fail :: "u32 \<Rightarrow> int \<Rightarrow> runtime_fs_stress_state \<Rightarrow> runtime_fs_stress_state" where
  "fs_stress_fail step status state =
     state\<lparr>ts_failures := ts_failures state + 1, ts_last_step := step, ts_last_status := status\<rparr>"

text \<open>The label \<open>fs_done\<close>.\<close>

definition fs_done :: "u32 \<Rightarrow> runtime_fs_stress_state \<Rightarrow> test_outcome" where
  "fs_done file_object state =
     (let state = (if file_object \<noteq> 0 then state\<lparr>ts_fs := snd (runtime_fs_close (ts_fs state) (unat file_object))\<rparr> else state) in
      Exited (state\<lparr>ts_complete := if ts_failures state = 0 then 1 else 0\<rparr>))"

text \<open>A step that is checked with \<open>runtime_fs_stress_expect\<close> and goes to \<open>fs_done\<close> if it fails.\<close>

definition expecting ::
  "u32 \<Rightarrow> u32 \<Rightarrow> int \<Rightarrow> int \<Rightarrow> runtime_fs_stress_state \<Rightarrow> (runtime_fs_stress_state \<Rightarrow> test_outcome option) \<Rightarrow> test_outcome option" where
  "expecting file_object step actual expected state continue =
     (case runtime_fs_stress_expect state step actual expected of
        (ok, state) \<Rightarrow> if ok then continue state else Some (fs_done file_object state))"

text \<open>The checkpoint at the end of the test.\<close>

definition fs_stress_checkpoint :: "runtime_fs_image_layout \<Rightarrow> runtime_fs_stress_state \<Rightarrow> test_outcome option" where
  "fs_stress_checkpoint layout state = do {
     (status, buffer, image_bytes, layout) \<leftarrow> runtime_fs_image_export (Some (ts_fs state)) (Some (ts_image_buffer state))
       (length (ts_image_buffer state)) (Some 0) (Some layout);
     let state = state\<lparr>ts_image_buffer := the_or buffer (ts_image_buffer state)\<rparr>;
     let image_bytes = of_nat (the_or image_bytes 0);
     expecting 0 10 status RUNTIME_SYSCALL_STATUS_OK state (\<lambda>state. do {
       (status, layout) \<leftarrow> runtime_fs_image_validate (Some (ts_image_buffer state)) image_bytes layout;
       expecting 0 11 status RUNTIME_SYSCALL_STATUS_OK state (\<lambda>state. do {
         (status, fs, layout) \<leftarrow> runtime_fs_image_import (Some (ts_fs state)) (Some (ts_image_buffer state)) image_bytes layout;
         let state = state\<lparr>ts_fs := the_or fs (ts_fs state)\<rparr>;
         expecting 0 12 status RUNTIME_SYSCALL_STATUS_OK state (\<lambda>state.
           Some (fs_done 0 (state\<lparr>ts_rounds_completed := 1, ts_last_image_bytes := image_bytes,
             ts_last_image_root_hash := (case layout of None \<Rightarrow> 0 | Some l \<Rightarrow> il_root_hash l)\<rparr>))) }) }) }"

text \<open>The file of the test: written, read back and closed. The buffer for reading is not initialised.\<close>

definition fs_stress_boot_file ::
  "u32 \<Rightarrow> u8 list \<Rightarrow> runtime_fs_image_layout \<Rightarrow> runtime_fs_stress_state \<Rightarrow> test_outcome option" where
  "fs_stress_boot_file current_pid read_buffer layout state =
     (let (status, fs, file_object) = runtime_fs_open (ts_fs state) current_pid (Some g_fs_path_stress_boot)
            (RUNTIME_FILE_OPEN_CREATE OR RUNTIME_FILE_OPEN_WRITE OR RUNTIME_FILE_OPEN_READ) (Some 0);
          state = state\<lparr>ts_fs := fs\<rparr>; file_object = the_or file_object 0 in
      if status \<noteq> RUNTIME_SYSCALL_STATUS_OK then Some (fs_done file_object (fs_stress_fail 3 status state))
      else do {
        (status, fs) \<leftarrow> runtime_fs_write (ts_fs state) (unat file_object) (Some g_fs_payload_boot) (length g_fs_payload_boot);
        let state = state\<lparr>ts_fs := fs\<rparr>;
        expecting file_object 4 status (int (length g_fs_payload_boot)) state (\<lambda>state.
          let (status, fs) = runtime_fs_seek (ts_fs state) (unat file_object) 0 RUNTIME_FILE_SEEK_SET; state = state\<lparr>ts_fs := fs\<rparr> in
          expecting file_object 5 status 0 state (\<lambda>state.
            let (status, fs, buffer) = runtime_fs_read (ts_fs state) (unat file_object) (Some read_buffer) (length read_buffer);
                state = state\<lparr>ts_fs := fs\<rparr>; read_buffer = the_or buffer read_buffer in
            expecting file_object 6 status (int (length read_buffer)) state (\<lambda>state.
              if \<not> runtime_fs_stress_buffer_equal read_buffer g_fs_payload_boot (length g_fs_payload_boot)
              then Some (fs_done file_object (fs_stress_fail 7 (- 1) state))
              else let state = state\<lparr>ts_last_checksum := runtime_fs_stress_checksum read_buffer (length read_buffer)\<rparr>;
                       (status, fs) = runtime_fs_close (ts_fs state) (unat file_object); state = state\<lparr>ts_fs := fs\<rparr> in
                expecting 0 8 status RUNTIME_SYSCALL_STATUS_OK state (\<lambda>state. do {
                  status \<leftarrow> runtime_fs_validate (ts_fs state);
                  expecting 0 9 status RUNTIME_SYSCALL_STATUS_OK state (fs_stress_checkpoint layout) })))) })"

definition process_fs_stress ::
  "fs_layout \<Rightarrow> u32 \<Rightarrow> u8 list \<Rightarrow> runtime_fs_image_layout \<Rightarrow> runtime_fs_stress_state \<Rightarrow> test_outcome option" where
  "process_fs_stress fs_layout current_pid read_buffer layout state =
     (let state = state\<lparr>ts_rounds_completed := 0, ts_failures := 0, ts_last_status := 0, ts_last_step := 0, ts_last_checksum := 0,
            ts_last_find_count := 0, ts_last_image_bytes := 0, ts_last_image_root_hash := 0, ts_last_cleanup_count := 0, ts_complete := 0\<rparr>;
          (cleared, fs) = runtime_fs_stress_init_fs_chunked fs_layout (Some (ts_fs state));
          state = state\<lparr>ts_fs := the_or fs (ts_fs state)\<rparr> in
      if cleared = 0 then Some (fs_done 0 state)
      else do {
        status \<leftarrow> runtime_fs_stage1_probe (Some (ts_fs state));
        if status \<noteq> RUNTIME_SYSCALL_STATUS_OK
        then Some (Halted (state\<lparr>ts_failures := 1, ts_last_step := 1, ts_last_status := status\<rparr>))
        else let (status, fs) = runtime_fs_mkdir (ts_fs state) current_pid (Some g_fs_path_stress_root) 493;
                 state = state\<lparr>ts_fs := fs\<rparr> in
          if status \<noteq> RUNTIME_SYSCALL_STATUS_OK then Some (Halted (fs_stress_fail 2 status state))
          else fs_stress_boot_file current_pid read_buffer layout state })"

section \<open>Clearing\<close>

lemma clear_chunks_eq: "clear_chunks offset bytes = take offset bytes @ replicate (length bytes - offset) 0"
proof (induction offset bytes rule: clear_chunks.induct)
  case (1 offset bytes)
  show ?case
  proof (cases "offset < length bytes")
    case True
    let ?e = "min (offset + RUNTIME_FS_STRESS_INIT_CHUNK_BYTES) (length bytes)"
    have e: "offset < ?e" "?e \<le> length bytes"
      using True by (simp_all add: RUNTIME_FS_STRESS_INIT_CHUNK_BYTES_def)
    have "zero_bytes bytes offset ?e = take offset bytes @ replicate (?e - offset) 0 @ drop ?e bytes"
      using e True by (simp add: zero_bytes_code)
    then have "take ?e (zero_bytes bytes offset ?e) = take offset bytes @ replicate (?e - offset) 0"
      using e True by simp
    then show ?thesis
      using "1.IH" [OF True refl] True e
      by (subst clear_chunks.simps) (simp add: Let_def replicate_add [symmetric] del: min_less_iff_conj)
  next
    case False
    then show ?thesis
      by (subst clear_chunks.simps) simp
  qed
qed

text \<open>What the test relies on: bytes that are all zero are read as a structure whose fields are zero.\<close>

definition zero_fs :: runtime_fs where
  "zero_fs = \<lparr>nodes = replicate RUNTIME_FS_MAX_NODES zero_node, open_files = replicate RUNTIME_FS_MAX_OPEN_FILES zero_open_file\<rparr>"

definition zero_layout :: "fs_layout \<Rightarrow> bool" where
  "zero_layout layout \<longleftrightarrow> (\<forall>fs. fs_of_bytes layout (replicate (length (bytes_of_fs layout fs)) 0) = zero_fs)"

lemma chunked_init:
  assumes "zero_layout layout"
  shows "runtime_fs_stress_init_fs_chunked layout (Some fs) = (1, Some runtime_fs_init)"
  using assms by (simp add: runtime_fs_stress_init_fs_chunked_def clear_chunks_eq zero_layout_def runtime_fs_init_def zero_fs_def)

section \<open>The probe decides consistency\<close>

lemma probe_name_equals: "runtime_fs_probe_name_equals a b \<longleftrightarrow> name_equals a b"
  by (induction a b rule: runtime_fs_probe_name_equals.induct) (auto split: list.splits simp: name_equals_iff cchar_0_NUL)

lemma probe_chain_eq: "probe_chain fs current n = fs_validate_chain fs current n"
  by (induction fs current n rule: probe_chain.induct) (subst probe_chain.simps, subst fs_validate_chain.simps, simp add: Let_def)

lemma probe_node_eq: "probe_node fs index = fs_validate_node fs index"
  by (simp add: probe_node_def fs_validate_node_def fs_has_twin_def probe_chain_eq probe_name_equals Let_def
      runtime_fs_probe_name_is_empty_def fs_name_is_empty_def)

lemma stage1_probe_iff:
  "runtime_fs_stage1_probe (Some fs) = Some RUNTIME_SYSCALL_STATUS_OK \<longleftrightarrow> fs_consistent fs \<and> \<not> runtime_fs_image_has_open_files fs"
proof -
  let ?open = "map (\<lambda>index. if of_used (open_files fs ! index) then Some RUNTIME_SYSCALL_STATUS_EBADF else Some RUNTIME_SYSCALL_STATUS_OK)
    [0..<RUNTIME_FS_MAX_OPEN_FILES]"
  have root: "fs_root_ok fs \<longleftrightarrow> nd_used (nodes fs ! 0) \<and> nd_type (nodes fs ! 0) = RUNTIME_FILE_TYPE_DIRECTORY \<and>
      nd_parent_index (nodes fs ! 0) = 0 \<and> cchar (nd_name (nodes fs ! 0)) 0 = CHR ''/'' \<and> cchar (nd_name (nodes fs ! 0)) 1 = NUL"
    by (auto simp: fs_root_ok_def Let_def)
  have probe: "probe_node fs = fs_validate_node fs"
    by (rule ext) (rule probe_node_eq)
  have closed: "(\<forall>r \<in> set ?open. r = Some 0) \<longleftrightarrow> \<not> runtime_fs_image_has_open_files fs"
    unfolding runtime_fs_image_has_open_files_def list_ex_iff by (simp only: set_map ball_simps) auto
  have valid: "runtime_fs_validate fs = Some 0 \<longleftrightarrow> fs_root_ok fs \<and> first_failure (map (fs_validate_node fs) [1..<RUNTIME_FS_MAX_NODES] @
      map (fs_validate_open fs) [0..<RUNTIME_FS_MAX_OPEN_FILES]) = Some 0"
    by (simp add: runtime_fs_validate_def)
  have "runtime_fs_stage1_probe (Some fs) = Some 0 \<longleftrightarrow> fs_root_ok fs \<and>
      first_failure (map (fs_validate_node fs) [1..<RUNTIME_FS_MAX_NODES] @ ?open) = Some 0 \<and> runtime_fs_validate fs = Some 0"
    unfolding root by (auto simp: runtime_fs_stage1_probe_def probe Let_def split: option.splits)
  then show ?thesis
    using closed valid unfolding first_failure_OK set_append ball_Un runtime_fs_validate_iff [symmetric] by blast
qed

section \<open>The steps of the test\<close>

lemma zero_zero_bytes [simp]: "zero_bytes (replicate n 0) a b = replicate n 0"
  by (rule nth_equalityI) (simp_all add: zero_bytes_nth)

definition dir_node :: "u32 \<Rightarrow> runtime_fs_node" where
  "dir_node pid = zero_node\<lparr>nd_used := True, nd_type := RUNTIME_FILE_TYPE_DIRECTORY, nd_owner_pid := pid, nd_mode := 493,
     nd_name := ''stress'' @ NUL # replicate 9 NUL\<rparr>"

definition dir_fs :: "u32 \<Rightarrow> runtime_fs" where
  "dir_fs pid = runtime_fs_init\<lparr>nodes := (nodes runtime_fs_init)[1 := dir_node pid]\<rparr>"

lemma token_stress:
  "fs_token_next ''/stress'' = Token ''stress'' []" "fs_token_next ''/stress/boot.txt'' = Token ''stress'' ''/boot.txt''"
  "fs_token_next ''/boot.txt'' = Token ''boot.txt'' []" "fs_token_next [] = Token_End"
  by code_simp+

lemma mkdir_test: "runtime_fs_mkdir runtime_fs_init pid (Some g_fs_path_stress_root) 493 = (0, dir_fs pid)"
proof -
  have child: "fs_find_child runtime_fs_init 0 ''stress'' = None"
    by code_simp
  have r: "fs_resolve_path runtime_fs_init (Some ''/stress'') = None"
    by (subst fs_resolve_path_def) (simp add: fs_resolve_from.simps token_stress child)
  have p: "fs_resolve_parent_path runtime_fs_init (Some ''/stress'') = Inr (''stress'', 0)"
    by (simp add: fs_resolve_parent_path_def token_stress fs_parent_from.simps fs_path_is_absolute_non_root_def)
  have a: "fs_alloc_node runtime_fs_init = Some (upd_node 1 fresh_node runtime_fs_init, 1)"
    by code_simp
  have n: "nodes runtime_fs_init ! Suc 0 = zero_node" "nd_owner_pid (nodes runtime_fs_init ! 0) = 0" "length (nodes runtime_fs_init) = 16"
    by (simp_all add: runtime_fs_init_def RUNTIME_FS_MAX_NODES_def zero_node_def)
  show ?thesis
    unfolding runtime_fs_mkdir_def g_fs_path_stress_root_def
    by (simp add: r p a n fs_path_is_absolute_non_root_def fs_node_owner_allows_def dir_fs_def upd_node_def dir_node_def fresh_node_def
        fs_zero_range_def zero_node_def copy_name_eq RUNTIME_FS_NAME_CAPACITY_def RUNTIME_FS_FILE_CAPACITY_def)
qed

definition file_node :: "u32 \<Rightarrow> u8 list \<Rightarrow> runtime_fs_node" where
  "file_node pid bytes = zero_node\<lparr>nd_used := True, nd_type := RUNTIME_FILE_TYPE_REGULAR, nd_parent_index := 1, nd_owner_pid := pid, nd_mode := 420,
     nd_size_bytes := length bytes, nd_name := ''boot.txt'' @ NUL # replicate 7 NUL, nd_data := bytes @ replicate (256 - length bytes) 0\<rparr>"

definition open_slot :: "u32 \<Rightarrow> nat \<Rightarrow> runtime_fs_open_file" where
  "open_slot pid offset = \<lparr>of_used = True, of_node_index = 2, of_owner_pid = pid, of_flags = 7, of_offset = offset, of_dir_cursor = 0\<rparr>"

lemma slot_sel [simp]:
  "of_used (open_slot pid offset)" "of_node_index (open_slot pid offset) = 2" "of_flags (open_slot pid offset) = 7"
  "of_offset (open_slot pid offset) = offset" "(open_slot pid offset)\<lparr>of_offset := offset'\<rparr> = open_slot pid offset'"
  "(open_slot pid offset)\<lparr>of_used := False, of_node_index := 0, of_owner_pid := 0, of_flags := 0, of_offset := 0, of_dir_cursor := 0\<rparr> = zero_open_file"
  by (simp_all add: open_slot_def zero_open_file_def)

lemma file_sel [simp]:
  "nd_type (file_node pid bytes) = RUNTIME_FILE_TYPE_REGULAR" "nd_size_bytes (file_node pid bytes) = length bytes"
  "nd_data (file_node pid bytes) = bytes @ replicate (256 - length bytes) 0"
  "nd_mode (file_node pid bytes) = 420" "nd_owner_pid (file_node pid bytes) = pid"
  by (simp_all add: file_node_def)

definition file_fs :: "u32 \<Rightarrow> u8 list \<Rightarrow> nat \<Rightarrow> runtime_fs" where
  "file_fs pid bytes offset = \<lparr>nodes = (nodes (dir_fs pid))[2 := file_node pid bytes],
     open_files = open_slot pid offset # replicate 7 zero_open_file\<rparr>"

lemma replicate_open: "replicate RUNTIME_FS_MAX_OPEN_FILES zero_open_file = zero_open_file # replicate 7 zero_open_file"
  by (simp add: RUNTIME_FS_MAX_OPEN_FILES_def numeral_eq_Suc)

definition root_node :: runtime_fs_node where
  "root_node = zero_node\<lparr>nd_used := True, nd_type := RUNTIME_FILE_TYPE_DIRECTORY, nd_mode := 493, nd_name := CHR ''/'' # NUL # replicate 14 NUL\<rparr>"

lemma dir_fs_nodes:
  "nodes (dir_fs pid) = root_node # dir_node pid # replicate 14 zero_node"
  "open_files (dir_fs pid) = zero_open_file # replicate 7 zero_open_file"
  by (simp_all add: dir_fs_def runtime_fs_init_def upd_node_def replicate_open RUNTIME_FS_MAX_NODES_def root_node_def zero_node_def
      RUNTIME_FS_NAME_CAPACITY_def numeral_eq_Suc)

lemmas node_defs = root_node_def dir_node_def file_node_def zero_node_def

lemma dir_children:
  "fs_find_child (dir_fs pid) 0 ''stress'' = Some 1" "fs_find_child (dir_fs pid) (Suc 0) ''boot.txt'' = None"
  by (auto simp: fs_find_child_def dir_fs_nodes first_index_Some first_index_None nth_Cons' node_defs)

lemma open_test:
  "runtime_fs_open (dir_fs pid) pid (Some g_fs_path_stress_boot) 7 (Some 0) = (0, file_fs pid [] 0, Some 1)"
proof -
  have r: "fs_resolve_path (dir_fs pid) (Some ''/stress/boot.txt'') = None"
    by (subst fs_resolve_path_def) (simp add: fs_resolve_from.simps token_stress dir_children)
  have "nd_type (nodes (dir_fs pid) ! 1) = RUNTIME_FILE_TYPE_DIRECTORY"
    by (simp add: dir_fs_nodes dir_node_def)
  then have p: "fs_resolve_parent_path (dir_fs pid) (Some ''/stress/boot.txt'') = Inr (''boot.txt'', 1)"
    by (simp add: fs_resolve_parent_path_def token_stress fs_parent_from.simps fs_path_is_absolute_non_root_def dir_children)
  have a: "fs_alloc_node (dir_fs pid) = Some (upd_node 2 fresh_node (dir_fs pid), 2)"
    by (simp add: fs_alloc_node_def dir_fs_nodes RUNTIME_FS_MAX_NODES_def upt_rec node_defs)
  have n: "nodes (dir_fs pid) ! 2 = zero_node" "fs_node_owner_allows (nodes (dir_fs pid) ! 1) pid"
    "fs_node_owner_allows (nodes (dir_fs pid) ! Suc 0) pid" "length (nodes (dir_fs pid)) = 16"
    by (simp_all add: dir_fs_nodes dir_node_def fs_node_owner_allows_def)
  let ?fs = "dir_fs pid\<lparr>nodes := (nodes (dir_fs pid))[2 := file_node pid []]\<rparr>"
  have look: "fs_open_lookup (dir_fs pid) pid (Some ''/stress/boot.txt'') 7 = Inr (?fs, 2)"
    by (simp add: fs_open_lookup_def r p a n upd_node_def file_node_def fresh_node_def fs_zero_range_def zero_node_def copy_name_eq
        RUNTIME_FS_NAME_CAPACITY_def RUNTIME_FS_FILE_CAPACITY_def)
  have no_writer: "\<not> fs_node_has_open_writer ?fs 2"
    by (simp add: fs_node_has_open_writer_def dir_fs_nodes list_ex_iff zero_open_file_def)
  have check: "fs_open_check ?fs pid 2 7 = (0, ?fs)"
    using n(4) by (simp add: fs_open_check_def Let_def no_writer fs_node_owner_allows_def)
  have slot: "fs_open_slot_alloc ?fs 2 7 = (1, ?fs\<lparr>open_files := (open_slot 0 0) # replicate 7 zero_open_file\<rparr>)"
    by (simp add: fs_open_slot_alloc_def first_index_def upt_rec dir_fs_nodes upd_open_def open_slot_def zero_open_file_def)
  show ?thesis
    unfolding runtime_fs_open_def g_fs_path_stress_boot_def
    by (simp add: look check slot file_fs_def upd_open_def open_slot_def)
qed

lemma file_fs_nodes:
  "nodes (file_fs pid bytes offset) = root_node # dir_node pid # file_node pid bytes # replicate 13 zero_node"
  "open_files (file_fs pid bytes offset) = open_slot pid offset # replicate 7 zero_open_file"
  by (simp_all add: file_fs_def dir_fs_nodes numeral_eq_Suc)

lemma file_lookup: "fs_open_file_lookup (file_fs pid bytes offset) (Suc 0) = Some 0"
  by (simp add: fs_open_file_lookup_def file_fs_nodes open_slot_def RUNTIME_FS_MAX_OPEN_FILES_def)

lemma upd_slot: "f (open_slot pid offset) = open_slot pid offset' \<Longrightarrow> upd_open 0 f (file_fs pid bytes offset) = file_fs pid bytes offset'"
  by (simp add: upd_open_def file_fs_def)

lemma write_test:
  assumes "length bytes \<le> 256"
  shows "runtime_fs_write (file_fs pid [] 0) 1 (Some bytes) (length bytes) = Some (int (length bytes), file_fs pid bytes (length bytes))"
proof -
  have e: "u32_add 0 (length bytes) = length bytes"
    using assms by (simp add: u32_add_def)
  have "map ((!) bytes) [0..<length bytes] = bytes"
    by (rule map_nth)
  then have "fs_write_node (file_node pid []) 0 bytes (length bytes) = file_node pid bytes"
    using assms e by (simp add: fs_write_node_def Let_def fold_update_0 min_def) (simp add: file_node_def)
  then have "upd_node 2 (\<lambda>node. fs_write_node node 0 bytes (length bytes)) (file_fs pid [] 0) = file_fs pid bytes 0"
    by (simp add: upd_node_def file_fs_def dir_fs_nodes)
  then show ?thesis
    using assms e by (simp add: runtime_fs_write_def file_lookup Let_def file_fs_nodes RUNTIME_FS_FILE_CAPACITY_def RUNTIME_FS_MAX_NODES_def upd_slot)
qed

lemma seek_test: "runtime_fs_seek (file_fs pid bytes offset) 1 0 RUNTIME_FILE_SEEK_SET = (0, file_fs pid bytes 0)"
  by (simp add: runtime_fs_seek_def file_lookup Let_def file_fs_nodes upd_slot)

lemma read_test:
  assumes "bytes \<noteq> []" "length buffer = length bytes"
  shows "runtime_fs_read (file_fs pid bytes 0) 1 (Some buffer) (length buffer) = (int (length buffer), file_fs pid bytes (length bytes), Some bytes)"
proof -
  have "map ((!) (bytes @ replicate k 0)) [0..<length bytes] = bytes" for k :: nat
    by (rule nth_equalityI) (simp_all add: nth_append)
  then show ?thesis
    using assms by (simp add: runtime_fs_read_def file_lookup Let_def file_fs_nodes upd_slot fold_update_0)
qed

definition closed_fs :: "u32 \<Rightarrow> u8 list \<Rightarrow> runtime_fs" where
  "closed_fs pid bytes = (file_fs pid bytes 0)\<lparr>open_files := replicate RUNTIME_FS_MAX_OPEN_FILES zero_open_file\<rparr>"

lemma close_test: "runtime_fs_close (file_fs pid bytes offset) 1 = (0, closed_fs pid bytes)"
  by (simp add: runtime_fs_close_def file_lookup) (simp add: upd_open_def file_fs_def closed_fs_def replicate_open)

lemma closed_reachable: "bytes \<noteq> [] \<Longrightarrow> length bytes \<le> 256 \<Longrightarrow> fs_reachable (closed_fs pid bytes)"
  using reachable_step [OF reachable_init step_mkdir [of _ pid "Some g_fs_path_stress_root" 493]]
    reachable_step [OF _ step_open [of "dir_fs pid" pid "Some g_fs_path_stress_boot" 7 "Some 0"]]
    reachable_step [OF _ step_write [OF write_test [of bytes pid]]]
    reachable_step [OF _ step_close [of "file_fs pid bytes (length bytes)" 1]]
  by (simp add: mkdir_test open_test close_test [simplified])

lemma closed_root: "fs_root_ok (closed_fs pid bytes)"
  by (simp add: fs_root_ok_def Let_def closed_fs_def file_fs_nodes node_defs)

lemma closed_no_open: "\<forall>f \<in> set (open_files (closed_fs pid bytes)). \<not> of_used f"
  by (simp add: closed_fs_def zero_open_file_def)

section \<open>The test passes\<close>

lemma expecting_same [simp]: "expecting file_object step status status state continue = continue state"
  by (simp add: expecting_def runtime_fs_stress_expect_def)

lemma checkpoint_passes:
  assumes "image_ready (ts_fs state)" "\<forall>f \<in> set (open_files (ts_fs state)). \<not> of_used f" "image_length (ts_fs state) \<le> length (ts_image_buffer state)"
  shows "fs_stress_checkpoint layout state = Some (fs_done 0 (state\<lparr>
    ts_image_buffer := patch 0 (image_of (ts_fs state)) (ts_image_buffer state),
    ts_fs := restored (ts_fs state) (used_nodes (ts_fs state)), ts_rounds_completed := 1,
    ts_last_image_bytes := of_nat (image_length (ts_fs state)),
    ts_last_image_root_hash := il_root_hash (header_layout (image_header (ts_fs state)))\<rparr>))"
  by (simp add: fs_stress_checkpoint_def checkpoint_restores [OF assms order_refl] the_or_def)

text \<open>Every image fits into a buffer of \<open>RUNTIME_FS_IMAGE_MAX_BYTES\<close>.\<close>

lemma image_length_max:
  assumes "image_ready fs"
  shows "image_length fs \<le> RUNTIME_FS_IMAGE_MAX_BYTES"
proof -
  note e = image_ready_exportable [OF assms]
  have "length (used_nodes fs) \<le> 16" "image_leaves fs \<le> 16" "length (image_payload fs) \<le> 4096"
    using used_nodes_bound [of fs] image_leaves_bounds(3) [OF e] image_sizes(1) [OF e] by (simp_all add: RUNTIME_FS_MAX_NODES_def)
  then show ?thesis
    by (simp add: image_length_eq RUNTIME_FS_IMAGE_MAX_BYTES_def RUNTIME_FS_IMAGE_HEADER_BYTES_def RUNTIME_FS_IMAGE_RECORD_BYTES_def
        RUNTIME_FS_IMAGE_MAX_TREE_HASHES_def RUNTIME_FS_IMAGE_MAX_TREE_LEAVES_def RUNTIME_FS_MAX_NODES_def RUNTIME_FS_FILE_CAPACITY_def RUNTIME_FS_NAME_CAPACITY_def)
qed

lemma payload_length [simp]: "length g_fs_payload_boot = 8"
  by (simp add: g_fs_payload_boot_def)

lemma boot_file_passes:
  assumes "ts_fs state = dir_fs pid" "length read_buffer = 8" "length (ts_image_buffer state) = RUNTIME_FS_IMAGE_MAX_BYTES"
  defines "fs \<equiv> closed_fs pid g_fs_payload_boot"
  shows "\<exists>state'. fs_stress_boot_file pid read_buffer layout state = Some (fs_done 0 state') \<and> ts_failures state' = ts_failures state \<and>
    ts_rounds_completed state' = 1 \<and> ts_last_checksum state' = runtime_fs_stress_checksum g_fs_payload_boot 8 \<and>
    ts_fs state' = restored fs (used_nodes fs)"
proof -
  have ne: "g_fs_payload_boot \<noteq> []"
    by (simp add: g_fs_payload_boot_def)
  then have ready: "image_ready fs"
    unfolding fs_def by (intro reachable_image_ready closed_reachable closed_root) simp_all
  have valid: "runtime_fs_validate fs = Some 0"
    using ready by (simp add: image_ready_def fs_inv_def runtime_fs_validate_iff)
  note ops = open_test write_test [of g_fs_payload_boot pid, simplified] seek_test [simplified]
    read_test [OF ne, of read_buffer pid, simplified assms(2), simplified] close_test [simplified]
  let ?s = "state\<lparr>ts_last_checksum := runtime_fs_stress_checksum g_fs_payload_boot 8, ts_fs := fs\<rparr>"
  let ?t = "?s\<lparr>ts_image_buffer := patch 0 (image_of fs) (ts_image_buffer state), ts_fs := restored fs (used_nodes fs), ts_rounds_completed := 1,
    ts_last_image_bytes := of_nat (image_length fs), ts_last_image_root_hash := il_root_hash (header_layout (image_header fs))\<rparr>"
  have "fs_stress_checkpoint layout ?s = Some (fs_done 0 ?t)"
    using checkpoint_passes [of ?s layout] ready image_length_max [OF ready] assms(3) closed_no_open [of pid g_fs_payload_boot]
    by (simp add: fs_def)
  moreover have "fs_stress_boot_file pid read_buffer layout state = fs_stress_checkpoint layout ?s"
    using valid unfolding fs_def fs_stress_boot_file_def
    by (simp add: assms(1,2) ops the_or_def runtime_fs_stress_buffer_equal_def list_all_iff)
  ultimately show ?thesis
    by (intro exI [of _ ?t]) simp
qed

text \<open>The file is found in the restored file system, with its bytes.\<close>

lemma restored_boot_file:
  assumes "image_ready (closed_fs pid bytes)" "length bytes \<le> 256"
  defines "fs \<equiv> restored (closed_fs pid bytes) (used_nodes (closed_fs pid bytes))"
  shows "fs_resolve_path fs (Some g_fs_path_stress_boot) = Some 2 \<and> take (nd_size_bytes (nodes fs ! 2)) (nd_data (nodes fs ! 2)) = bytes"
proof -
  have n: "nodes (closed_fs pid bytes) = root_node # dir_node pid # file_node pid bytes # replicate 13 zero_node"
    by (simp add: closed_fs_def file_fs_nodes)
  have same: "same_files (closed_fs pid bytes) fs"
    unfolding fs_def by (rule restored_same [OF assms(1)])
  then have "same_node (file_node pid bytes) (nodes fs ! 2)"
    unfolding same_files_def n by (auto simp: RUNTIME_FS_MAX_NODES_def dest: spec [of _ 2])
  moreover have "nd_used (file_node pid bytes)"
    by (simp add: file_node_def)
  ultimately have "take (nd_size_bytes (nodes fs ! 2)) (nd_data (nodes fs ! 2)) = bytes"
    by (simp add: same_node_def)
  moreover have "fs_find_child (closed_fs pid bytes) 0 ''stress'' = Some 1" "fs_find_child (closed_fs pid bytes) (Suc 0) ''boot.txt'' = Some 2"
    by (auto simp: fs_find_child_def n first_index_Some nth_Cons' node_defs)
  then have "fs_resolve_path (closed_fs pid bytes) (Some g_fs_path_stress_boot) = Some 2"
    unfolding g_fs_path_stress_boot_def by (subst fs_resolve_path_def) (simp add: fs_resolve_from.simps token_stress)
  then have "fs_resolve_path fs (Some g_fs_path_stress_boot) = Some 2"
    using same_files_resolve [OF same] n by (simp add: fs_def restored_def RUNTIME_FS_MAX_NODES_def)
  ultimately show ?thesis
    by simp
qed

text \<open>C38: The self test of the file system passes. Whatever the process that runs it and whatever the state it starts from, if zero
  bytes are read as zero fields, the process \<open>process_fs_stress\<close> ends without a failure and without a halt: the file system
  that was cleared in chunks passes the probe, the file that is written is read back, the checkpoint is exported, validated and
  imported, the restored file system is valid, and the file is there with its bytes.\<close>

theorem fs_stress_passes:
  assumes "zero_layout fs_layout" "length read_buffer = length g_fs_payload_boot"
    and "length (ts_image_buffer state) = RUNTIME_FS_IMAGE_MAX_BYTES"
  shows "\<exists>state' k. process_fs_stress fs_layout pid read_buffer layout state = Some (Exited state') \<and>
    ts_failures state' = 0 \<and> ts_complete state' = 1 \<and> ts_rounds_completed state' = 1 \<and>
    ts_last_checksum state' = runtime_fs_stress_checksum g_fs_payload_boot (length g_fs_payload_boot) \<and>
    runtime_fs_validate (ts_fs state') = Some RUNTIME_SYSCALL_STATUS_OK \<and>
    fs_resolve_path (ts_fs state') (Some g_fs_path_stress_boot) = Some k \<and>
    take (nd_size_bytes (nodes (ts_fs state') ! k)) (nd_data (nodes (ts_fs state') ! k)) = g_fs_payload_boot"
proof -
  let ?s0 = "state\<lparr>ts_rounds_completed := 0, ts_failures := 0, ts_last_status := 0, ts_last_step := 0, ts_last_checksum := 0,
    ts_last_find_count := 0, ts_last_image_bytes := 0, ts_last_image_root_hash := 0, ts_last_cleanup_count := 0, ts_complete := 0\<rparr>"
  let ?s = "?s0\<lparr>ts_fs := dir_fs pid\<rparr>" and ?fs = "closed_fs pid g_fs_payload_boot"
  have "fs_consistent runtime_fs_init"
    using fs_inv_init by (simp add: fs_inv_def)
  moreover have "\<not> runtime_fs_image_has_open_files runtime_fs_init"
    by code_simp
  ultimately have probe: "runtime_fs_stage1_probe (Some runtime_fs_init) = Some 0"
    using stage1_probe_iff by simp
  have run: "process_fs_stress fs_layout pid read_buffer layout state = fs_stress_boot_file pid read_buffer layout ?s"
    by (simp add: process_fs_stress_def chunked_init [OF assms(1)] the_or_def probe mkdir_test)
  have "g_fs_payload_boot \<noteq> []"
    by (simp add: g_fs_payload_boot_def)
  then have ready: "image_ready ?fs"
    by (intro reachable_image_ready closed_reachable closed_root) simp_all
  show ?thesis
    using boot_file_passes [of ?s pid read_buffer layout] assms(2,3) run restored_boot_file [OF ready] restored_validates [OF ready]
    by (auto simp: fs_done_def)
qed

text \<open>
  A layout for the witness: each node is a byte that is set if the node is used and the bytes of its data, and is read back from
  them, so that a byte that the clearing leaves shows in the structure. The test starts from a file system whose root is used.
\<close>

definition demo_node_bytes :: "runtime_fs_node \<Rightarrow> u8 list" where
  "demo_node_bytes nd = (if nd_used nd then 1 else 0) # nd_data nd"

definition demo_byte :: "u8 list \<Rightarrow> nat \<Rightarrow> u8" where
  "demo_byte bytes i = (if i < length bytes then bytes ! i else 0)"

definition demo_node_of_bytes :: "u8 list \<Rightarrow> nat \<Rightarrow> runtime_fs_node" where
  "demo_node_of_bytes bytes i = zero_node\<lparr>nd_used := demo_byte bytes (257 * i) \<noteq> 0,
     nd_data := map (\<lambda>j. demo_byte bytes (257 * i + 1 + j)) [0..<RUNTIME_FS_FILE_CAPACITY]\<rparr>"

definition demo_fs_layout :: fs_layout where
  "demo_fs_layout = \<lparr>bytes_of_fs = (\<lambda>fs. concat (map demo_node_bytes (nodes fs))),
     fs_of_bytes = (\<lambda>bytes. \<lparr>nodes = map (demo_node_of_bytes bytes) [0..<RUNTIME_FS_MAX_NODES],
       open_files = replicate RUNTIME_FS_MAX_OPEN_FILES zero_open_file\<rparr>)\<rparr>"

lemma demo_layout_zero: "zero_layout demo_fs_layout"
proof -
  have "demo_byte (replicate n 0) i = 0" for n i by (simp add: demo_byte_def)
  then have "demo_node_of_bytes (replicate n 0) = (\<lambda>i. zero_node)" for n
    by (simp add: fun_eq_iff demo_node_of_bytes_def zero_node_def map_replicate_const)
  then show ?thesis
    by (simp add: zero_layout_def demo_fs_layout_def zero_fs_def map_replicate_const)
qed

definition demo_test :: runtime_fs_stress_state where
  "demo_test = \<lparr>ts_fs = runtime_fs_init, ts_table = [], ts_image_buffer = replicate RUNTIME_FS_IMAGE_MAX_BYTES 0, ts_rounds_completed = 7, ts_failures = 3,
     ts_last_status = - 1, ts_last_step = 9, ts_last_checksum = 0, ts_last_find_count = 0, ts_last_image_bytes = 0, ts_last_image_root_hash = 0,
     ts_last_cleanup_count = 0, ts_complete = 0\<rparr>"

theorem fs_stress_passes_witness:
  "\<exists>state'. process_fs_stress demo_fs_layout 5 (replicate 8 0) \<lparr>il_record_count = 0, il_tree_leaf_count = 0, il_tree_hash_count = 0,
       il_data_bytes = 0, il_image_bytes = 0, il_root_hash = 0\<rparr> demo_test = Some (Exited state') \<and> ts_complete state' = 1"
proof -
  have "zero_layout demo_fs_layout" "length (replicate 8 0 :: u8 list) = length g_fs_payload_boot"
    "length (ts_image_buffer demo_test) = RUNTIME_FS_IMAGE_MAX_BYTES"
    by (simp_all add: demo_layout_zero demo_test_def)
  from fs_stress_passes [OF this] show ?thesis
    by blast
qed

text \<open>C39: The probe \<open>runtime_fs_stage1_probe\<close>, which has its own copy of the checks, accepts a file system exactly if it is consistent
  and no file is open.\<close>

theorem stage1_probe_decides:
  "runtime_fs_stage1_probe (Some fs) = Some RUNTIME_SYSCALL_STATUS_OK \<longleftrightarrow> fs_consistent fs \<and> \<not> runtime_fs_image_has_open_files fs"
  by (rule stage1_probe_iff)

end
