(* ===== verification/Kernel_Boot.thy ===== *)
theory Kernel_Boot
  imports Kernel_Manage Sync_Heap Scheduler_Props Display_Demo Kernel_Fs_Test
begin

text \<open>
  The start of the system, \<open>kernel_main\<close> of \<open>kernel/kernel.c\<close>: the loader catalog is validated, the objects of the kernel are made,
  the globals are set, the display starts, the processes of the configuration are spawned, and the scheduler takes over. The
  interrupt controller and the timer are initialised without effect on this state; a tick that comes before the scheduler runs finds
  no running process, and what it changes is left out. The build switches, the addresses that
  the linker chooses and the panel are parameters.
\<close>

section \<open>State\<close>

record runtime_service_demo_state =
  sd_request_count :: u32
  sd_response_count :: u32
  sd_total_processed :: u32
  sd_last_request :: u32
  sd_last_response :: u32
  sd_next_client_request :: u32
  sd_last_client_tick :: u64

record 'p kernel_globals =
  kn_sync :: ksync
  kn_worker_event :: "nat ptr"
  kn_worker_mailbox :: "nat ptr"
  kn_service_request_event :: "nat ptr"
  kn_service_request_mailbox :: "nat ptr"
  kn_service_reply_mailbox :: "nat ptr"
  kn_service_reply_semaphore :: "nat ptr"
  kn_service_state_mutex :: "nat ptr"
  kn_management_state :: runtime_management_demo_state
  kn_service_state :: runtime_service_demo_state
  kn_service_sessions :: runtime_service_session_table
  kn_fs_stress_state :: runtime_fs_stress_state
  kn_line_state :: runtime_manage_line_state
  kn_display :: "'p display_demo"
  kn_blocked_pid :: process_id
  kn_event_waiter_pid :: process_id
  kn_mailbox_receiver_pid :: process_id
  kn_service_pid :: process_id
  kn_fs_stress_pid :: process_id
  kn_second_foreground_rejected :: bool

text \<open>The build: its switches, the start of the stacks, the entry points, the layout of the start picture and the panel.\<close>

record 'p kernel_config =
  kc_single_foreground :: bool
  kc_enable_fs_stress :: bool
  kc_stacks :: u32
  kc_code :: "kernel_task \<Rightarrow> task_entry"
  kc_fs_stress_code :: task_entry
  kc_display_layout :: nat
  kc_panel :: "'p panel_ops"
  kc_yield :: yield_env

datatype 'p boot_outcome = Panicked | Started "'p kernel_globals"

section \<open>The objects of the kernel\<close>

definition create_objects :: "'p kernel_globals \<Rightarrow> 'p kernel_globals option" where
  "create_objects k = do {
     (worker_event, s) \<leftarrow> kernel_event_create (kn_sync k);
     (worker_mailbox, s) \<leftarrow> kernel_mailbox_create s;
     (request_event, s) \<leftarrow> kernel_event_create s;
     (request_mailbox, s) \<leftarrow> kernel_mailbox_create s;
     (reply_mailbox, s) \<leftarrow> kernel_mailbox_create s;
     (reply_semaphore, s) \<leftarrow> kernel_semaphore_create 0 1 s;
     (state_mutex, s) \<leftarrow> kernel_mutex_create s;
     Some (k\<lparr>kn_sync := s, kn_worker_event := worker_event, kn_worker_mailbox := worker_mailbox,
       kn_service_request_event := request_event, kn_service_request_mailbox := request_mailbox,
       kn_service_reply_mailbox := reply_mailbox, kn_service_reply_semaphore := reply_semaphore,
       kn_service_state_mutex := state_mutex\<rparr>) }"

definition objects_missing :: "'p kernel_globals \<Rightarrow> bool" where
  "objects_missing k \<longleftrightarrow> kn_worker_event k = None \<or> kn_worker_mailbox k = None \<or> kn_service_request_event k = None \<or>
     kn_service_request_mailbox k = None \<or> kn_service_reply_mailbox k = None \<or> kn_service_reply_semaphore k = None \<or>
     kn_service_state_mutex k = None"

section \<open>The globals\<close>

definition init_globals :: "'p kernel_globals \<Rightarrow> 'p kernel_globals" where
  "init_globals k = k\<lparr>
     kn_management_state := runtime_management_demo_reset ((kn_management_state k)\<lparr>md_mailbox := kn_worker_mailbox k, md_event := kn_worker_event k,
       md_mailbox_send_count := 0, md_mailbox_receive_count := 0, md_spawn_count := 0,
       md_demo_profile := RUNTIME_MANAGEMENT_DEMO_PROFILE_SMOKE\<rparr>),
     kn_service_state := \<lparr>sd_request_count = 0, sd_response_count = 0, sd_total_processed = 0, sd_last_request = 0, sd_last_response = 0,
       sd_next_client_request = 0, sd_last_client_tick = 0\<rparr>,
     kn_service_sessions := the_or (runtime_service_session_table_init (Some (kn_service_sessions k))) (kn_service_sessions k),
     kn_fs_stress_state := (kn_fs_stress_state k)\<lparr>ts_rounds_completed := 0, ts_failures := 0, ts_last_status := 0, ts_last_step := 0,
       ts_last_checksum := 0, ts_last_find_count := 0, ts_last_image_bytes := 0, ts_last_image_root_hash := 0, ts_last_cleanup_count := 0,
       ts_complete := 0\<rparr>,
     kn_line_state := the_or (runtime_manage_line_init (Some (kn_line_state k))) (kn_line_state k)\<rparr>"

section \<open>The processes\<close>

definition spawn_in :: "'p kernel_config \<Rightarrow> string \<Rightarrow> task_entry \<Rightarrow> u32 \<Rightarrow> 'p kernel_globals \<Rightarrow> (process_id \<times> 'p kernel_globals) option" where
  "spawn_in cfg name entry role k =
     map_option (\<lambda>(pid, s). (pid, k\<lparr>kn_sync := (kn_sync k)\<lparr>ks_sched := s\<rparr>\<rparr>))
       (process_spawn_with_role (kc_single_foreground cfg) (kc_stacks cfg) (Some name) (Some entry) role (ks_sched (kn_sync k)))"

definition kernel_spawn_multiprocess_demo :: "'p kernel_config \<Rightarrow> 'p kernel_globals \<Rightarrow> 'p kernel_globals option" where
  "kernel_spawn_multiprocess_demo cfg k = do {
     (taska_pid, k) \<leftarrow> spawn_in cfg ''TASKA'' (kc_code cfg task_a) RUNTIME_PROCESS_ROLE_FOREGROUND_APP k;
     let k = k\<lparr>kn_blocked_pid := 0\<rparr>;
     (taskd_pid, k) \<leftarrow> spawn_in cfg ''TASKD'' (kc_code cfg task_d) RUNTIME_PROCESS_ROLE_BACKGROUND_APP k;
     Some (k\<lparr>kn_event_waiter_pid := 0, kn_mailbox_receiver_pid := 0, kn_service_pid := 0, kn_fs_stress_pid := 0\<rparr>) }"

definition kernel_spawn_single_foreground_demo :: "'p kernel_config \<Rightarrow> 'p kernel_globals \<Rightarrow> 'p kernel_globals option" where
  "kernel_spawn_single_foreground_demo cfg k = do {
     (first_foreground, k) \<leftarrow> spawn_in cfg ''FGAPP'' (kc_code cfg task_a) RUNTIME_PROCESS_ROLE_FOREGROUND_APP k;
     (second_foreground, k) \<leftarrow> spawn_in cfg ''FGAPP2'' (kc_code cfg task_b) RUNTIME_PROCESS_ROLE_FOREGROUND_APP k;
     let k = k\<lparr>kn_second_foreground_rejected := (first_foreground \<noteq> 0 \<and> second_foreground = 0)\<rparr>;
     (_, k) \<leftarrow> spawn_in cfg ''BGSYNC'' (kc_code cfg task_c) RUNTIME_PROCESS_ROLE_BACKGROUND_APP k;
     (pid, k) \<leftarrow> spawn_in cfg ''MANUALBG'' (kc_code cfg task_d) RUNTIME_PROCESS_ROLE_BACKGROUND_APP k;
     let k = k\<lparr>kn_blocked_pid := pid\<rparr>;
     (pid, k) \<leftarrow> spawn_in cfg ''LIVEACT'' (kc_code cfg process_event_waiter) RUNTIME_PROCESS_ROLE_LIVE_ACTIVITY k;
     let k = k\<lparr>kn_event_waiter_pid := pid\<rparr>;
     (pid, k) \<leftarrow> spawn_in cfg ''MAILBOXRX'' (kc_code cfg process_mailbox_receiver) RUNTIME_PROCESS_ROLE_BACKGROUND_APP k;
     let k = k\<lparr>kn_mailbox_receiver_pid := pid\<rparr>;
     (pid, k) \<leftarrow> spawn_in cfg ''SVCSERVER'' (kc_code cfg process_service_server) RUNTIME_PROCESS_ROLE_SYSTEM k;
     let k = k\<lparr>kn_service_pid := pid, kn_fs_stress_pid := 0\<rparr>;
     k \<leftarrow> (if kc_enable_fs_stress cfg
       then map_option (\<lambda>(pid, k). k\<lparr>kn_fs_stress_pid := pid\<rparr>) (spawn_in cfg ''FSSTRESS'' (kc_fs_stress_code cfg) RUNTIME_PROCESS_ROLE_SYSTEM k)
       else Some k);
     (_, k) \<leftarrow> spawn_in cfg ''SUPERVISOR'' (kc_code cfg process_supervisor) RUNTIME_PROCESS_ROLE_SYSTEM k;
     Some k }"

section \<open>The start\<close>

text \<open>\<open>scheduler_run\<close> comes back only to \<open>panic_halt\<close>.\<close>

definition kernel_main :: "'p kernel_config \<Rightarrow> 'p kernel_globals \<Rightarrow> 'p boot_outcome option" where
  "kernel_main cfg k =
     (let k = k\<lparr>kn_sync := (kn_sync k)\<lparr>ks_sched := (ks_sched (kn_sync k))\<lparr>g_scheduler_preempt_state := scheduler_preempt_init\<rparr>\<rparr>\<rparr> in
      if runtime_loader_validate_catalog (Some g_runtime_loader_catalog) (length g_runtime_loader_catalog) = 0 then Some Panicked
      else do {
        k \<leftarrow> create_objects k;
        if objects_missing k then Some Panicked
        else do {
          let k = init_globals k;
          k \<leftarrow> (if \<not> env_preemptive (kc_yield cfg)
            then map_option (\<lambda>d. k\<lparr>kn_display := d\<rparr>) (runtime_display_demo_init (kc_display_layout cfg) (kc_panel cfg) (kn_display k))
            else Some k);
          k \<leftarrow> (if kc_single_foreground cfg then kernel_spawn_single_foreground_demo cfg k else kernel_spawn_multiprocess_demo cfg k);
          r \<leftarrow> scheduler_run (kc_yield cfg) (ks_sched (kn_sync k));
          case r of Switched s \<Rightarrow> Some (Started (k\<lparr>kn_sync := (kn_sync k)\<lparr>ks_sched := s\<rparr>\<rparr>)) | _ \<Rightarrow> Some Panicked } })"

section \<open>Objects on a heap that has room\<close>

text \<open>All blocks but the last are in use; the last one is free, starts at \<open>b\<close> and has \<open>n\<close> bytes; all objects are below.\<close>

definition heap_at :: "nat \<Rightarrow> nat \<Rightarrow> ksync \<Rightarrow> bool" where
  "heap_at b n s \<longleftrightarrow> (\<exists>ms. kmem_inv (ks_kmem s) (map (\<lambda>m. (m, True)) ms @ [(n, False)]) \<and> b = sum_list (map ((+) kmem_block_sizeof) ms)) \<and>
     (\<forall>a. ks_objs s a \<noteq> None \<longrightarrow> a < b)"

definition extends :: "ksync \<Rightarrow> ksync \<Rightarrow> bool" where
  "extends s s' \<longleftrightarrow> ks_sched s' = ks_sched s \<and> (\<forall>a x. ks_objs s a = Some x \<longrightarrow> ks_objs s' a = Some x)"

lemma extends_trans: "extends s s' \<Longrightarrow> extends s' s'' \<Longrightarrow> extends s s''"
  by (simp add: extends_def)

lemma fit_used: "fit r a (map (\<lambda>m. (m, True)) ms @ bs) = fit r (a + sum_list (map ((+) kmem_block_sizeof) ms)) bs"
  by (induction ms arbitrary: a) (simp_all add: add.assoc)

lemma place_used: "place r (map (\<lambda>m. (m, True)) ms @ bs) = map (\<lambda>m. (m, True)) ms @ place r bs"
  by (induction ms) simp_all

lemma heap_at_boot: "heap_at 0 (KMEM_ARENA_SIZE - kmem_block_sizeof) (ksync_boot\<lparr>ks_sched := sched\<rparr>)"
  using kmem_inv_boot by (auto simp: heap_at_def ksync_boot_def intro!: exI [of _ "[]"])

lemma heap_at_put: "heap_at b n s \<Longrightarrow> a < b \<Longrightarrow> heap_at b n (put_obj a x s)"
  by (auto simp: heap_at_def put_obj_def)

lemma alloc_at:
  assumes "heap_at b n s" "r \<noteq> 0" "unat (kmem_align_up r) = m" "m + 20 < n"
  shows "\<exists>s'. kmem_alloc_in r s = Some (Some (b + 12), s') \<and> heap_at (b + 12 + m) (n - m - 12) s' \<and> ks_objs s' = ks_objs s \<and>
    ks_sched s' = ks_sched s \<and> ks_objs s (b + 12) = None"
proof -
  obtain ms where ms: "kmem_inv (ks_kmem s) (map (\<lambda>m. (m, True)) ms @ [(n, False)])" "b = sum_list (map ((+) kmem_block_sizeof) ms)"
    and below: "\<forall>a. ks_objs s a \<noteq> None \<longrightarrow> a < b"
    using assms(1) by (auto simp: heap_at_def)
  have "fit m 0 (map (\<lambda>m. (m, True)) ms @ [(n, False)]) = Some b"
    using assms(4) ms(2) by (simp add: fit_used)
  from alloc_some [OF ms(1) assms(2), unfolded assms(3), OF this] obtain k where
    k: "kmem_alloc r (ks_kmem s) = Some (Some (b + 12), k)" "kmem_inv k (place m (map (\<lambda>m. (m, True)) ms @ [(n, False)]))"
    unfolding kmem_block_sizeof_def by blast
  have "place m (map (\<lambda>m. (m, True)) ms @ [(n, False)]) = map (\<lambda>m. (m, True)) (ms @ [m]) @ [(n - m - 12, False)]"
    using assms(4) by (simp add: place_used min_split_def kmem_block_sizeof_def)
  moreover have "b + 12 + m = sum_list (map ((+) kmem_block_sizeof) (ms @ [m]))"
    using ms(2) by (simp add: kmem_block_sizeof_def)
  ultimately have "\<exists>ms'. kmem_inv k (map (\<lambda>m. (m, True)) ms' @ [(n - m - 12, False)]) \<and> b + 12 + m = sum_list (map ((+) kmem_block_sizeof) ms')"
    using k(2) by metis
  then have "heap_at (b + 12 + m) (n - m - 12) (s\<lparr>ks_kmem := k\<rparr>)"
    using below unfolding heap_at_def by (auto intro: trans_less_add1)
  moreover have "ks_objs s (b + 12) = None"
    using below by (metis not_add_less1)
  ultimately show ?thesis
    using k(1) by (intro exI [of _ "s\<lparr>ks_kmem := k\<rparr>"]) (simp add: kmem_alloc_in_def)
qed

lemma queue_at:
  assumes "heap_at b n s" "36 < n"
  shows "\<exists>s'. kernel_wait_queue_create s = Some (Some (b + 12), s') \<and> heap_at (b + 28) (n - 28) s' \<and> extends s s' \<and>
    (\<forall>a. a \<noteq> b + 12 \<longrightarrow> ks_objs s' a = ks_objs s a)"
proof -
  have size: "unat (kmem_align_up 12) = 16" "(12 :: u32) \<noteq> 0"
    by (code_simp, simp)
  from alloc_at [OF assms(1) size(2,1)] assms(2) obtain s1 where
    s1: "kmem_alloc_in 12 s = Some (Some (b + 12), s1)" "heap_at (b + 28) (n - 28) s1" "ks_objs s1 = ks_objs s" "ks_sched s1 = ks_sched s"
      "ks_objs s (b + 12) = None"
    by (auto simp: ac_simps)
  let ?w = "Wait_Queue \<lparr>wq_magic = KERNEL_WAIT_QUEUE_MAGIC, wq_channel = g_next_wait_queue_channel s1, wq_waiter_count = 0\<rparr>"
  have "heap_at (b + 28) (n - 28) (s1\<lparr>g_next_wait_queue_channel := g_next_wait_queue_channel s1 + 1\<rparr>)"
    using s1(2) by (simp add: heap_at_def)
  from heap_at_put [OF this, of "b + 12" ?w] s1 show ?thesis
    by (auto simp: kernel_wait_queue_create_def extends_def put_obj_def)
qed

lemma with_queue_at:
  assumes "heap_at b n s" "r \<noteq> 0" "unat (kmem_align_up r) = m" "m + 48 < n" "0 < m"
  shows "\<exists>s'. create_with_queue r obj s = Some (Some (b + 12), s') \<and> heap_at (b + m + 40) (n - m - 40) s' \<and> extends s s' \<and>
    (\<exists>q. ks_objs s' (b + 12) = Some (obj q))"
proof -
  from alloc_at [OF assms(1,2,3)] assms(4) obtain s1 where
    s1: "kmem_alloc_in r s = Some (Some (b + 12), s1)" "heap_at (b + 12 + m) (n - m - 12) s1" "ks_objs s1 = ks_objs s" "ks_sched s1 = ks_sched s"
      "ks_objs s (b + 12) = None"
    by auto
  have "36 < n - m - 12"
    using assms(4) by simp
  from queue_at [OF s1(2) this] obtain s2 where
    s2: "kernel_wait_queue_create s1 = Some (Some (b + 12 + m + 12), s2)" "heap_at (b + m + 40) (n - m - 40) s2" "extends s1 s2"
      "\<forall>a. a \<noteq> b + 12 + m + 12 \<longrightarrow> ks_objs s2 a = ks_objs s1 a"
    by (auto simp: algebra_simps)
  have "heap_at (b + m + 40) (n - m - 40) (put_obj (b + 12) (obj (b + 12 + m + 12)) s2)"
    using s2(2) by (rule heap_at_put) simp
  moreover have "extends s (put_obj (b + 12) (obj (b + 12 + m + 12)) s2)"
    using s1(3-5) s2(3,4) by (auto simp: extends_def put_obj_def)
  ultimately show ?thesis
    using s1(1) s2(1) by (auto simp: create_with_queue_def put_obj_def)
qed

lemma event_at:
  assumes "heap_at b n s" "56 < n"
  shows "\<exists>p s' b'. kernel_event_create s = Some (Some p, s') \<and> heap_at b' (n - 48) s' \<and> extends s s' \<and>
    kernel_event_is_valid (Some p) s' \<noteq> None"
proof -
  have "unat (kmem_align_up 8) = 8"
    by code_simp
  from with_queue_at [OF assms(1) _ this, of "\<lambda>q. Event \<lparr>ev_magic = KERNEL_EVENT_MAGIC, ev_wait_queue = Some q\<rparr>"] assms(2) show ?thesis
    by (fastforce simp: kernel_event_create_def kernel_event_is_valid_def)
qed

lemma semaphore_at:
  assumes "heap_at b n s" "64 < n" "max_count \<noteq> 0" "initial \<le> max_count"
  shows "\<exists>p s' b'. kernel_semaphore_create initial max_count s = Some (Some p, s') \<and> heap_at b' (n - 56) s' \<and> extends s s' \<and>
    kernel_semaphore_is_valid (Some p) s' \<noteq> None"
proof -
  have "unat (kmem_align_up 16) = 16"
    by code_simp
  from with_queue_at [OF assms(1) _ this, of "\<lambda>q. Semaphore \<lparr>sem_magic = KERNEL_SEMAPHORE_MAGIC, sem_count = initial, sem_max_count = max_count,
      sem_wait_queue = Some q\<rparr>"] assms(2-4) show ?thesis
    by (fastforce simp: kernel_semaphore_create_def kernel_semaphore_is_valid_def not_less [symmetric])
qed

lemma mutex_obj_at:
  assumes "heap_at b n s" "64 < n"
  shows "\<exists>p s' b'. kernel_mutex_create s = Some (Some p, s') \<and> heap_at b' (n - 56) s' \<and> extends s s' \<and>
    kernel_mutex_is_valid (Some p) s' \<noteq> None"
proof -
  have "unat (kmem_align_up 12) = 16"
    by code_simp
  from with_queue_at [OF assms(1) _ this, of "\<lambda>q. Mutex \<lparr>mx_magic = KERNEL_MUTEX_MAGIC, mx_owner_pid = 0, mx_wait_queue = Some q\<rparr>"] assms(2) show ?thesis
    by (fastforce simp: kernel_mutex_create_def kernel_mutex_is_valid_def)
qed

lemma mailbox_at:
  assumes "heap_at b n s" "100 < n"
  shows "\<exists>p s' b'. kernel_mailbox_create s = Some (Some p, s') \<and> heap_at b' (n - 92) s' \<and> extends s s' \<and>
    kernel_mailbox_is_valid (Some p) s' \<noteq> None"
proof -
  have size: "unat (kmem_align_up 20) = 24" "(20 :: u32) \<noteq> 0"
    by (code_simp, simp)
  from alloc_at [OF assms(1) size(2,1)] assms(2) obtain s1 where
    s1: "kmem_alloc_in 20 s = Some (Some (b + 12), s1)" "heap_at (b + 36) (n - 36) s1" "ks_objs s1 = ks_objs s" "ks_sched s1 = ks_sched s"
      "ks_objs s (b + 12) = None"
    by (auto simp: ac_simps)
  have "36 < n - 36" "36 < n - 36 - 28"
    using assms(2) by simp_all
  from queue_at [OF s1(2) this(1)] obtain s2 where
    s2: "kernel_wait_queue_create s1 = Some (Some (b + 48), s2)" "heap_at (b + 64) (n - 36 - 28) s2" "extends s1 s2"
      "\<forall>a. a \<noteq> b + 48 \<longrightarrow> ks_objs s2 a = ks_objs s1 a"
    by (auto simp: ac_simps)
  from queue_at [OF s2(2) \<open>36 < n - 36 - 28\<close>] obtain s3 where
    s3: "kernel_wait_queue_create s2 = Some (Some (b + 76), s3)" "heap_at (b + 92) (n - 92) s3" "extends s2 s3"
      "\<forall>a. a \<noteq> b + 76 \<longrightarrow> ks_objs s3 a = ks_objs s2 a"
    by (auto simp: ac_simps)
  let ?m = "Mailbox \<lparr>mb_magic = KERNEL_MAILBOX_MAGIC, mb_message = 0, mb_has_message = 0, mb_sender_wait_queue = Some (b + 48),
    mb_receiver_wait_queue = Some (b + 76)\<rparr>"
  have "heap_at (b + 92) (n - 92) (put_obj (b + 12) ?m s3)"
    using s3(2) by (rule heap_at_put) simp
  moreover have "extends s (put_obj (b + 12) ?m s3)"
    using s1(3-5) s2(3,4) s3(3,4) by (auto simp: extends_def put_obj_def)
  moreover have "kernel_mailbox_create s = Some (Some (b + 12), put_obj (b + 12) ?m s3)"
    using s1(1) s2(1) s3(1) by (simp add: kernel_mailbox_create_def)
  moreover have "kernel_mailbox_is_valid (Some (b + 12)) (put_obj (b + 12) ?m s3) \<noteq> None"
    by (simp add: kernel_mailbox_is_valid_def put_obj_def)
  ultimately show ?thesis
    by blast
qed

lemma extends_valid:
  assumes "extends s s'"
  shows "kernel_event_is_valid p s \<noteq> None \<Longrightarrow> kernel_event_is_valid p s' \<noteq> None"
    and "kernel_mailbox_is_valid p s \<noteq> None \<Longrightarrow> kernel_mailbox_is_valid p s' \<noteq> None"
    and "kernel_semaphore_is_valid p s \<noteq> None \<Longrightarrow> kernel_semaphore_is_valid p s' \<noteq> None"
    and "kernel_mutex_is_valid p s \<noteq> None \<Longrightarrow> kernel_mutex_is_valid p s' \<noteq> None"
  using assms
  by (auto simp: extends_def kernel_event_is_valid_def kernel_mailbox_is_valid_def kernel_semaphore_is_valid_def kernel_mutex_is_valid_def
      split: option.splits kobject.splits)

definition objects_ready :: "'p kernel_globals \<Rightarrow> bool" where
  "objects_ready k \<longleftrightarrow> kernel_event_is_valid (kn_worker_event k) (kn_sync k) \<noteq> None \<and> kernel_mailbox_is_valid (kn_worker_mailbox k) (kn_sync k) \<noteq> None \<and>
     kernel_event_is_valid (kn_service_request_event k) (kn_sync k) \<noteq> None \<and>
     kernel_mailbox_is_valid (kn_service_request_mailbox k) (kn_sync k) \<noteq> None \<and>
     kernel_mailbox_is_valid (kn_service_reply_mailbox k) (kn_sync k) \<noteq> None \<and>
     kernel_semaphore_is_valid (kn_service_reply_semaphore k) (kn_sync k) \<noteq> None \<and>
     kernel_mutex_is_valid (kn_service_state_mutex k) (kn_sync k) \<noteq> None"

lemma create_objects_ok:
  assumes "heap_at b n (kn_sync k)" "500 < n"
  shows "\<exists>k'. create_objects k = Some k' \<and> \<not> objects_missing k' \<and> objects_ready k' \<and> ks_sched (kn_sync k') = ks_sched (kn_sync k) \<and>
    kn_display k' = kn_display k"
proof -
  have n: "56 < n" "100 < n - 48" "56 < n - 48 - 92" "100 < n - 48 - 92 - 48" "100 < n - 48 - 92 - 48 - 92" "64 < n - 48 - 92 - 48 - 92 - 92"
    "64 < n - 48 - 92 - 48 - 92 - 92 - 56"
    using assms(2) by simp_all
  from event_at [OF assms(1) n(1)] obtain p1 s1 b1 where 1: "kernel_event_create (kn_sync k) = Some (Some p1, s1)" "heap_at b1 (n - 48) s1"
    "extends (kn_sync k) s1" "kernel_event_is_valid (Some p1) s1 \<noteq> None"
    by blast
  from mailbox_at [OF 1(2) n(2)] obtain p2 s2 b2 where 2: "kernel_mailbox_create s1 = Some (Some p2, s2)" "heap_at b2 (n - 48 - 92) s2"
    "extends s1 s2" "kernel_mailbox_is_valid (Some p2) s2 \<noteq> None"
    by blast
  from event_at [OF 2(2) n(3)] obtain p3 s3 b3 where 3: "kernel_event_create s2 = Some (Some p3, s3)" "heap_at b3 (n - 48 - 92 - 48) s3"
    "extends s2 s3" "kernel_event_is_valid (Some p3) s3 \<noteq> None"
    by blast
  from mailbox_at [OF 3(2) n(4)] obtain p4 s4 b4 where 4: "kernel_mailbox_create s3 = Some (Some p4, s4)" "heap_at b4 (n - 48 - 92 - 48 - 92) s4"
    "extends s3 s4" "kernel_mailbox_is_valid (Some p4) s4 \<noteq> None"
    by blast
  from mailbox_at [OF 4(2) n(5)] obtain p5 s5 b5 where 5: "kernel_mailbox_create s4 = Some (Some p5, s5)" "heap_at b5 (n - 48 - 92 - 48 - 92 - 92) s5"
    "extends s4 s5" "kernel_mailbox_is_valid (Some p5) s5 \<noteq> None"
    by blast
  from semaphore_at [OF 5(2) n(6), of 1 0] obtain p6 s6 b6 where 6: "kernel_semaphore_create 0 1 s5 = Some (Some p6, s6)"
    "heap_at b6 (n - 48 - 92 - 48 - 92 - 92 - 56) s6" "extends s5 s6" "kernel_semaphore_is_valid (Some p6) s6 \<noteq> None"
    by auto
  from mutex_obj_at [OF 6(2) n(7)] obtain p7 s7 where 7: "kernel_mutex_create s6 = Some (Some p7, s7)" "extends s6 s7" "kernel_mutex_is_valid (Some p7) s7 \<noteq> None"
    by blast
  note e = 7(2) extends_trans [OF 6(3) 7(2)]
  note e = e extends_trans [OF 5(3) e(2)]
  note e = e extends_trans [OF 4(3) e(3)]
  note e = e extends_trans [OF 3(3) e(4)]
  note e = e extends_trans [OF 2(3) e(5)]
  have "extends (kn_sync k) s7"
    using extends_trans [OF 1(3) e(6)] .
  moreover have "kernel_event_is_valid (Some p1) s7 \<noteq> None" "kernel_mailbox_is_valid (Some p2) s7 \<noteq> None" "kernel_event_is_valid (Some p3) s7 \<noteq> None"
    "kernel_mailbox_is_valid (Some p4) s7 \<noteq> None" "kernel_mailbox_is_valid (Some p5) s7 \<noteq> None" "kernel_semaphore_is_valid (Some p6) s7 \<noteq> None"
    using extends_valid(1) [OF e(6) 1(4)] extends_valid(2) [OF e(5) 2(4)] extends_valid(1) [OF e(4) 3(4)] extends_valid(2) [OF e(3) 4(4)]
      extends_valid(2) [OF e(2) 5(4)] extends_valid(3) [OF e(1) 6(4)] by simp_all
  ultimately show ?thesis
    using 1(1) 2(1) 3(1) 4(1) 5(1) 6(1) 7(1,3) by (simp add: create_objects_def objects_missing_def objects_ready_def extends_def)
qed

section \<open>Processes spawned before the first runs\<close>

definition stack_of :: "u32 \<Rightarrow> nat \<Rightarrow> u32" where
  "stack_of stacks i = stacks + of_nat (4 * (Suc i * PROCESS_STACK_WORDS - PROCESS_CONTEXT_WORDS))"

text \<open>The names, entry points and roles of the processes in the table, in the order of their slots.\<close>

definition spawned :: "u32 \<Rightarrow> (string \<times> task_entry \<times> u32) list \<Rightarrow> scheduler \<Rightarrow> bool" where
  "spawned stacks ps s \<longleftrightarrow> sched_inv s \<and> g_current_process_index s = None \<and> g_next_pid s = of_nat (Suc (length ps)) \<and>
     length ps \<le> MAX_PROCESSES \<and> (\<forall>i < MAX_PROCESSES. g_sched_vruntime s ! i = 0) \<and>
     (\<forall>i < MAX_PROCESSES. if i < length ps
        then ps_pid (g_processes s ! i) = of_nat (Suc i) \<and> ps_state (g_processes s ! i) = PROCESS_STATE_READY \<and>
          ps_name (g_processes s ! i) = Some (fst (ps ! i)) \<and> ps_role (g_processes s ! i) = snd (snd (ps ! i)) \<and>
          g_process_exec s ! i = \<lparr>ex_entry = Some (fst (snd (ps ! i))), ex_stack_pointer = stack_of stacks i\<rparr>
        else ps_state (g_processes s ! i) = PROCESS_STATE_UNUSED)"

lemma spawned_init: "spawned stacks [] (scheduler_init\<lparr>g_scheduler_preempt_state := p\<rparr>)"
proof -
  have "scheduler_init\<lparr>g_scheduler_preempt_state := p\<rparr> = upd_preempt (\<lambda>_. p) scheduler_init"
    by (simp add: upd_preempt_def)
  moreover have "sched_inv (upd_preempt (\<lambda>_. p) scheduler_init)"
    using sched_inv_init by (simp add: sched_inv_def)
  ultimately show ?thesis
    by (simp add: spawned_def scheduler_init_def zero_process_def)
qed

lemma spawned_free: "spawned stacks ps s \<Longrightarrow> length ps < MAX_PROCESSES \<Longrightarrow> process_core_find_free_slot (g_processes s) = Some (length ps)"
  by (auto simp: process_core_find_free_slot_def first_index_Some spawned_def sched_inv_def sched_shape_def)

lemma spawned_slot:
  assumes "spawned stacks ps s" "i < MAX_PROCESSES"
  shows "if i < length ps
    then ps_pid (g_processes s ! i) = of_nat (Suc i) \<and> ps_state (g_processes s ! i) = PROCESS_STATE_READY \<and>
      ps_name (g_processes s ! i) = Some (fst (ps ! i)) \<and> ps_role (g_processes s ! i) = snd (snd (ps ! i)) \<and>
      g_process_exec s ! i = \<lparr>ex_entry = Some (fst (snd (ps ! i))), ex_stack_pointer = stack_of stacks i\<rparr>
    else ps_state (g_processes s ! i) = PROCESS_STATE_UNUSED"
  using assms unfolding spawned_def by blast

lemma spawned_policy:
  assumes "spawned stacks ps s"
  shows "runtime_policy_can_spawn sf (g_processes s) role \<longleftrightarrow>
    \<not> (sf \<and> role = RUNTIME_PROCESS_ROLE_FOREGROUND_APP \<and> RUNTIME_PROCESS_ROLE_FOREGROUND_APP \<in> set (map (snd \<circ> snd) ps))"
proof -
  have len: "length (g_processes s) = MAX_PROCESSES" "length ps \<le> MAX_PROCESSES"
    using assms by (simp_all add: spawned_def sched_inv_def sched_shape_def)
  have slot: "role_active r (g_processes s ! i) \<longleftrightarrow> i < length ps \<and> map (snd \<circ> snd) ps ! i = r" if "i < MAX_PROCESSES" for i r
    using spawned_slot [OF assms that] by (auto simp: role_active_def split: if_splits)
  have "list_ex (role_active r) (g_processes s) \<longleftrightarrow> (\<exists>i < length ps. map (snd \<circ> snd) ps ! i = r)" for r
    unfolding list_ex_length len(1) using slot less_le_trans [OF _ len(2)] by auto
  then have "list_ex (role_active r) (g_processes s) \<longleftrightarrow> r \<in> set (map (snd \<circ> snd) ps)" for r
    unfolding in_set_conv_nth length_map by blast
  then show ?thesis
    by (simp add: runtime_policy_can_spawn_def)
qed

lemma boot_pid: "n < MAX_PROCESSES \<Longrightarrow> unat (of_nat (Suc n) :: u32) = Suc n"
  unfolding unat_of_nat by (simp add: MAX_PROCESSES_def)

lemma spawned_min: "spawned stacks ps s \<Longrightarrow> g_ready s' = g_ready s \<Longrightarrow> g_sched_vruntime s' = g_sched_vruntime s \<Longrightarrow>
    g_current_process_index s' = None \<Longrightarrow> scheduler_min_vruntime s' = 0"
  using pick_queued(1) [of s] sched_inv_weak [of s]
  by (auto simp: scheduler_min_vruntime_def spawned_def scheduler_pick_next_ready_def split: option.split)

lemma spawned_spawn:
  assumes sp: "spawned stacks ps s" and len: "length ps < MAX_PROCESSES" and can: "runtime_policy_can_spawn sf (g_processes s) role"
  shows "\<exists>s'. process_spawn_with_role sf stacks (Some name) (Some entry) role s = Some (of_nat (Suc (length ps)), s') \<and>
    spawned stacks (ps @ [(name, entry, role)]) s'"
proof -
  let ?n = "length ps"
  have inv: "sched_inv s" and none: "g_current_process_index s = None" and pid: "g_next_pid s = of_nat (Suc ?n)"
    using sp by (simp_all add: spawned_def)
  have pid0: "g_next_pid s \<noteq> 0"
    using boot_pid [OF len] pid by (metis nat.distinct(1) unat_0)
  obtain pid' s' where s': "process_spawn_with_role sf stacks (Some name) (Some entry) role s = Some (pid', s')" "sched_inv s'"
    using spawn_ok [OF sched_inv_live [OF inv]] inv by blast
  have shape: "length (g_processes s) = MAX_PROCESSES" "length (g_process_exec s) = MAX_PROCESSES" "length (g_sched_vruntime s) = MAX_PROCESSES"
    using inv by (simp_all add: sched_inv_def sched_shape_def)
  define s1 where "s1 = upd_exec ?n (\<lambda>e. e\<lparr>ex_entry := Some entry\<rparr>) (upd_proc ?n (\<lambda>_. \<lparr>ps_pid = g_next_pid s, ps_parent_pid = process_current_pid s,
      ps_name = Some name, ps_role = role, ps_state = PROCESS_STATE_READY, ps_exit_code = 0, ps_switch_count = 0, ps_yield_count = 0,
      ps_wake_tick = 0, ps_wait_target_pid = 0, ps_wait_reason = PROCESS_WAIT_NONE, ps_wait_channel = 0\<rparr>) (s\<lparr>g_next_pid := g_next_pid s + 1\<rparr>))"
  have min: "scheduler_min_vruntime s1 = 0"
    using none by (intro spawned_min [OF sp]) (simp_all add: s1_def)
  let ?s2 = "scheduler_prepare_initial_context stacks ?n (s1\<lparr>g_sched_vruntime := (g_sched_vruntime s1)[?n := 0],
    g_sched_exec_start_tick := (g_sched_exec_start_tick s1)[?n := 0]\<rparr>)"
  have "process_spawn_with_role sf stacks (Some name) (Some entry) role s = map_option (Pair (g_next_pid s)) (scheduler_sync_ready_queue
      (scheduler_prepare_initial_context stacks ?n (s1\<lparr>g_sched_vruntime := (g_sched_vruntime s1)[?n := scheduler_min_vruntime s1],
        g_sched_exec_start_tick := (g_sched_exec_start_tick s1)[?n := 0]\<rparr>)))"
    using pid0 can spawned_free [OF sp len] by (simp add: process_spawn_with_role_def Let_def s1_def)
  then have "map_option (Pair (g_next_pid s)) (scheduler_sync_ready_queue ?s2) = Some (pid', s')"
    using s'(1) unfolding min by simp
  then obtain q where q: "s' = ?s2\<lparr>g_ready := q\<rparr>" and p': "pid' = g_next_pid s"
    using sync_only_queue [of "[0..<MAX_PROCESSES]" ?s2] by (auto simp: scheduler_sync_ready_queue_def)
  have "spawned stacks (ps @ [(name, entry, role)]) s'"
    using sp s'(2) len shape pid unfolding spawned_def q
    by (auto simp: s1_def scheduler_prepare_initial_context_def stack_of_def nth_list_update_if nth_append add.commute)
  with s'(1) p' pid show ?thesis
    by auto
qed

section \<open>The first process runs\<close>

lemma spawned_same:
  assumes "spawned stacks ps s" "sched_inv p" "g_current_process_index p = None" "g_next_pid p = g_next_pid s" "g_sched_vruntime p = g_sched_vruntime s"
    "g_process_exec p = g_process_exec s" "\<And>i. i < MAX_PROCESSES \<Longrightarrow> g_processes p ! i = g_processes s ! i"
  shows "spawned stacks ps p"
  using assms unfolding spawned_def by auto

lemma spawned_poll:
  assumes "spawned stacks ps s"
  shows "\<exists>p. runtime_poll_timer_delivery preemptive pending s = Some p \<and> spawned stacks ps p"
proof (cases pending)
  case True
  have inv: "sched_inv s"
    using assms by (simp add: spawned_def)
  then obtain p where p: "systimer_tick preemptive s = Some p" "sched_inv p"
    using systimer_tick_ok sched_inv_loose by blast
  from p(1) obtain q where q: "p = s\<lparr>g_kernel_ticks := g_kernel_ticks s + 1, g_scheduler_preempt_state := scheduler_preempt_on_timer_tick preemptive (g_scheduler_preempt_state s),
      g_processes := fst (process_core_wake_sleepers (g_processes s) (g_kernel_ticks s + 1)), g_ready := q\<rparr>"
    unfolding systimer_tick_def process_tick_def scheduler_sync_ready_queue_def using sync_only_queue by fastforce
  have "g_processes p ! i = g_processes s ! i" if "i < MAX_PROCESSES" for i
    using that inv spawned_slot [OF assms that] wake_sleepers.wake_keeps_unblocked [of i "g_processes s"]
    by (auto simp: q sched_inv_def sched_shape_def split: if_splits)
  then have "spawned stacks ps p"
    using assms by (intro spawned_same [OF assms p(2)]) (simp_all add: q spawned_def)
  then show ?thesis
    using p(1) True by (simp add: runtime_poll_timer_delivery_def)
qed (use assms in \<open>simp add: runtime_poll_timer_delivery_def\<close>)

lemma spawned_pick:
  assumes "spawned stacks ps s" "ps \<noteq> []"
  shows "scheduler_pick_next_ready (g_ready s) = Some 0"
proof -
  have inv: "sched_inv s"
    using assms(1) by (simp add: spawned_def)
  have n: "0 < MAX_PROCESSES" "0 < length ps" "length ps \<le> MAX_PROCESSES"
    using assms by (simp_all add: MAX_PROCESSES_def spawned_def)
  then have r0: "ready s 0"
    using spawned_slot [OF assms(1) n(1)] by (simp add: in_state_def)
  have first: "precedes_in s i 0 \<Longrightarrow> i = 0" if "ready s i" "i < MAX_PROCESSES" for i
  proof -
    assume p: "precedes_in s i 0"
    have "i < length ps" "ps_pid (g_processes s ! i) = of_nat (Suc i)"
      using spawned_slot [OF assms(1) that(2)] that(1) by (auto simp: in_state_def split: if_splits)
    moreover have "ps_pid (g_processes s ! 0) = of_nat (Suc 0)"
      using spawned_slot [OF assms(1) n(1)] n(2) by simp
    ultimately have "\<not> (ps_pid (g_processes s ! i) < ps_pid (g_processes s ! 0))" "ps_pid (g_processes s ! i) = ps_pid (g_processes s ! 0) \<Longrightarrow> i = 0"
      using boot_pid [OF that(2)] boot_pid [OF n(1)] by (simp_all add: word_less_nat_alt)
    then show "i = 0"
      using p assms(1) that(2) n(1) by (auto simp: precedes_in_def scheduler_vruntime_before_def spawned_def split: if_splits)
  qed
  show ?thesis
  proof (cases "scheduler_pick_next_ready (g_ready s)")
    case None
    then show ?thesis
      using pick_next_least [OF inv] r0 n(1) by simp
  next
    case (Some i)
    then have "i < MAX_PROCESSES" "ready s i" "i \<noteq> 0 \<Longrightarrow> precedes_in s i 0"
      using pick_next_least [OF inv] r0 n(1) by simp_all
    then show ?thesis
      using first [of i] Some by (cases "i = 0") simp_all
  qed
qed

lemma spawned_run:
  assumes sp: "spawned stacks ps s" "ps \<noteq> []"
    and stack: "scheduler_stack_pointer_in_range (stack_of stacks 0)" "scheduler_stack_pointer_is_aligned (stack_of stacks 0)"
  shows "\<exists>s'. scheduler_run env s = Some (Switched s') \<and> sched_inv s' \<and> g_current_process_index s' = Some 0 \<and>
    scheduler_task_bootstrap s' = Inr (fst (snd (ps ! 0))) \<and>
    (\<forall>i < MAX_PROCESSES. ps_state (g_processes s' ! i) = (if i = 0 then PROCESS_STATE_RUNNING else if i < length ps then PROCESS_STATE_READY else PROCESS_STATE_UNUSED) \<and>
      (i < length ps \<longrightarrow> ps_pid (g_processes s' ! i) = of_nat (Suc i) \<and> ps_name (g_processes s' ! i) = Some (fst (ps ! i))))"
proof -
  obtain p where p: "runtime_poll_timer_delivery (env_preemptive env) (env_tick_pending env) s = Some p" "spawned stacks ps p"
    using spawned_poll [OF sp(1)] by blast
  have none: "g_current_process_index s = None" "g_current_process_index p = None" and inv: "sched_inv p" and n: "0 < length ps" "0 < MAX_PROCESSES"
    using sp p(2) by (simp_all add: spawned_def MAX_PROCESSES_def)
  have slot: "g_process_exec p ! 0 = \<lparr>ex_entry = Some (fst (snd (ps ! 0))), ex_stack_pointer = stack_of stacks 0\<rparr>"
    using spawned_slot [OF p(2) n(2)] n(1) by simp
  define s1 where "s1 = (upd_proc 0 (\<lambda>p. p\<lparr>ps_state := PROCESS_STATE_RUNNING\<rparr>) p)\<lparr>g_current_process_index := Some 0,
    g_sched_exec_start_tick := (g_sched_exec_start_tick p)[0 := g_kernel_ticks p]\<rparr>"
  have "same_keys p s1"
    by (simp add: same_keys_def s1_def nth_list_update_if)
  then obtain q where q: "scheduler_sync_ready_queue s1 = Some (s1\<lparr>g_ready := q\<rparr>)"
    using sync_ok queue_sound_same_keys inv unfolding sched_inv_def by blast
  let ?s' = "s1\<lparr>g_ready := q\<rparr>"
  have start: "scheduler_start_first_process (Some 0) p = Some (Switched ?s')"
    using slot stack n(2) q by (simp add: scheduler_start_first_process_def s1_def)
  then have "sched_inv ?s'"
    using start_first_ok [OF inv none(2) spawned_pick [OF p(2) sp(2)]] by blast
  moreover have same: "s\<lparr>g_current_process_index := None\<rparr> = s"
    using none(1) by (cases s) simp
  have "scheduler_run env s = Some (Switched ?s')"
    unfolding scheduler_run_def same using none(1) p(1) start spawned_pick [OF p(2) sp(2)] by (simp add: process_yield_def)
  moreover have len: "length (g_processes p) = MAX_PROCESSES"
    using inv by (simp add: sched_inv_def sched_shape_def)
  have "scheduler_task_bootstrap ?s' = Inr (fst (snd (ps ! 0)))"
    using slot n(2) len by (simp add: scheduler_task_bootstrap_def scheduler_current_process_def s1_def)
  moreover have "ps_state (g_processes ?s' ! i) = (if i = 0 then PROCESS_STATE_RUNNING else if i < length ps then PROCESS_STATE_READY else PROCESS_STATE_UNUSED) \<and>
      (i < length ps \<longrightarrow> ps_pid (g_processes ?s' ! i) = of_nat (Suc i) \<and> ps_name (g_processes ?s' ! i) = Some (fst (ps ! i)))" if "i < MAX_PROCESSES" for i
    using spawned_slot [OF p(2) that] n len by (cases "i = 0") (auto simp: s1_def nth_list_update_if split: if_splits)
  ultimately show ?thesis
    by (intro exI [of _ ?s']) (simp add: s1_def)
qed

section \<open>The configurations\<close>

definition boot_processes :: "'p kernel_config \<Rightarrow> (string \<times> task_entry \<times> u32) list" where
  "boot_processes cfg =
     (if kc_single_foreground cfg
      then [(''FGAPP'', kc_code cfg task_a, RUNTIME_PROCESS_ROLE_FOREGROUND_APP), (''BGSYNC'', kc_code cfg task_c, RUNTIME_PROCESS_ROLE_BACKGROUND_APP),
          (''MANUALBG'', kc_code cfg task_d, RUNTIME_PROCESS_ROLE_BACKGROUND_APP), (''LIVEACT'', kc_code cfg process_event_waiter, RUNTIME_PROCESS_ROLE_LIVE_ACTIVITY),
          (''MAILBOXRX'', kc_code cfg process_mailbox_receiver, RUNTIME_PROCESS_ROLE_BACKGROUND_APP),
          (''SVCSERVER'', kc_code cfg process_service_server, RUNTIME_PROCESS_ROLE_SYSTEM)] @
        (if kc_enable_fs_stress cfg then [(''FSSTRESS'', kc_fs_stress_code cfg, RUNTIME_PROCESS_ROLE_SYSTEM)] else []) @
        [(''SUPERVISOR'', kc_code cfg process_supervisor, RUNTIME_PROCESS_ROLE_SYSTEM)]
      else [(''TASKA'', kc_code cfg task_a, RUNTIME_PROCESS_ROLE_FOREGROUND_APP), (''TASKD'', kc_code cfg task_d, RUNTIME_PROCESS_ROLE_BACKGROUND_APP)])"

definition with_sched :: "scheduler \<Rightarrow> 'p kernel_globals \<Rightarrow> 'p kernel_globals" where
  "with_sched s k = k\<lparr>kn_sync := (kn_sync k)\<lparr>ks_sched := s\<rparr>\<rparr>"

lemma spawn_in_ok:
  assumes "spawned (kc_stacks cfg) ps (ks_sched (kn_sync k))" "length ps < MAX_PROCESSES"
    "role \<noteq> RUNTIME_PROCESS_ROLE_FOREGROUND_APP \<or> RUNTIME_PROCESS_ROLE_FOREGROUND_APP \<notin> set (map (snd \<circ> snd) ps)"
  shows "\<exists>s. spawn_in cfg name entry role k = Some (of_nat (Suc (length ps)), with_sched s k) \<and> spawned (kc_stacks cfg) (ps @ [(name, entry, role)]) s"
proof -
  have "runtime_policy_can_spawn (kc_single_foreground cfg) (g_processes (ks_sched (kn_sync k))) role"
    using spawned_policy [OF assms(1)] assms(3) by auto
  from spawned_spawn [OF assms(1,2) this, of name entry] obtain s where
    "process_spawn_with_role (kc_single_foreground cfg) (kc_stacks cfg) (Some name) (Some entry) role (ks_sched (kn_sync k)) = Some (of_nat (Suc (length ps)), s)"
    "spawned (kc_stacks cfg) (ps @ [(name, entry, role)]) s"
    by blast
  then show ?thesis
    by (intro exI [of _ s]) (simp add: spawn_in_def with_sched_def)
qed

lemma spawn_in_refused:
  assumes "spawned (kc_stacks cfg) ps (ks_sched (kn_sync k))" "length ps < MAX_PROCESSES" "kc_single_foreground cfg"
    "RUNTIME_PROCESS_ROLE_FOREGROUND_APP \<in> set (map (snd \<circ> snd) ps)"
  shows "spawn_in cfg name entry RUNTIME_PROCESS_ROLE_FOREGROUND_APP k = Some (0, k)"
proof -
  have "\<not> runtime_policy_can_spawn (kc_single_foreground cfg) (g_processes (ks_sched (kn_sync k))) RUNTIME_PROCESS_ROLE_FOREGROUND_APP"
    using spawned_policy [OF assms(1)] assms(3,4) by auto
  then show ?thesis
    using spawned_free [OF assms(1,2)] by (simp add: spawn_in_def process_spawn_with_role_def)
qed

text \<open>While the processes are spawned: which ones there are, and that the objects and the display stay.\<close>

definition booting :: "'p kernel_config \<Rightarrow> 'p kernel_globals \<Rightarrow> (string \<times> task_entry \<times> u32) list \<Rightarrow> 'p kernel_globals \<Rightarrow> bool" where
  "booting cfg k0 ps k \<longleftrightarrow> spawned (kc_stacks cfg) ps (ks_sched (kn_sync k)) \<and> (objects_ready k0 \<longrightarrow> objects_ready k) \<and> kn_display k = kn_display k0"

lemma valid_sched [simp]:
  "kernel_event_is_valid p (s\<lparr>ks_sched := x\<rparr>) = kernel_event_is_valid p s" "kernel_mailbox_is_valid p (s\<lparr>ks_sched := x\<rparr>) = kernel_mailbox_is_valid p s"
  "kernel_semaphore_is_valid p (s\<lparr>ks_sched := x\<rparr>) = kernel_semaphore_is_valid p s" "kernel_mutex_is_valid p (s\<lparr>ks_sched := x\<rparr>) = kernel_mutex_is_valid p s"
  by (simp_all add: kernel_event_is_valid_def kernel_mailbox_is_valid_def kernel_semaphore_is_valid_def kernel_mutex_is_valid_def
      cong: option.case_cong kobject.case_cong)

lemma booting_globals [simp]:
  "booting cfg k0 ps (k\<lparr>kn_second_foreground_rejected := b\<rparr>) = booting cfg k0 ps k" "booting cfg k0 ps (k\<lparr>kn_blocked_pid := n\<rparr>) = booting cfg k0 ps k"
  "booting cfg k0 ps (k\<lparr>kn_event_waiter_pid := n\<rparr>) = booting cfg k0 ps k" "booting cfg k0 ps (k\<lparr>kn_mailbox_receiver_pid := n\<rparr>) = booting cfg k0 ps k"
  "booting cfg k0 ps (k\<lparr>kn_service_pid := n\<rparr>) = booting cfg k0 ps k" "booting cfg k0 ps (k\<lparr>kn_fs_stress_pid := n\<rparr>) = booting cfg k0 ps k"
  by (simp_all add: booting_def objects_ready_def)

lemma with_sched_globals [simp]:
  "kn_second_foreground_rejected (with_sched s k) = kn_second_foreground_rejected k" "kn_service_pid (with_sched s k) = kn_service_pid k"
  by (simp_all add: with_sched_def)

lemma booting_spawn:
  assumes "booting cfg k0 ps k" "length ps < MAX_PROCESSES"
    "role \<noteq> RUNTIME_PROCESS_ROLE_FOREGROUND_APP \<or> RUNTIME_PROCESS_ROLE_FOREGROUND_APP \<notin> set (map (snd \<circ> snd) ps)"
    and continue: "\<And>s. booting cfg k0 (ps @ [(name, entry, role)]) (with_sched s k) \<Longrightarrow> \<exists>k'. f (of_nat (Suc (length ps)), with_sched s k) = Some k' \<and> P k'"
  shows "\<exists>k'. spawn_in cfg name entry role k \<bind> f = Some k' \<and> P k'"
proof -
  obtain s where s: "spawn_in cfg name entry role k = Some (of_nat (Suc (length ps)), with_sched s k)" "spawned (kc_stacks cfg) (ps @ [(name, entry, role)]) s"
    using spawn_in_ok [of cfg ps k role name entry] assms(1-3) by (auto simp: booting_def)
  have "booting cfg k0 (ps @ [(name, entry, role)]) (with_sched s k)"
    using s(2) assms(1) by (simp add: booting_def with_sched_def objects_ready_def)
  from continue [OF this] s(1) show ?thesis
    by simp
qed

lemma booting_refused:
  assumes "booting cfg k0 ps k" "length ps < MAX_PROCESSES" "kc_single_foreground cfg" "RUNTIME_PROCESS_ROLE_FOREGROUND_APP \<in> set (map (snd \<circ> snd) ps)"
    and "\<exists>k'. f (0, k) = Some k' \<and> P k'"
  shows "\<exists>k'. spawn_in cfg name entry RUNTIME_PROCESS_ROLE_FOREGROUND_APP k \<bind> f = Some k' \<and> P k'"
  using assms spawn_in_refused [of cfg ps k name entry] by (simp add: booting_def)

lemma multi_ok:
  assumes "booting cfg k0 [] k" "\<not> kc_single_foreground cfg"
  shows "\<exists>k'. kernel_spawn_multiprocess_demo cfg k = Some k' \<and> booting cfg k0 (boot_processes cfg) k'"
  unfolding kernel_spawn_multiprocess_demo_def
  by (rule booting_spawn [OF assms(1)], (simp add: MAX_PROCESSES_def; fail), simp, simp only: prod.case Let_def,
      rule booting_spawn, (simp only: booting_globals; fail), (simp add: MAX_PROCESSES_def; fail), simp,
      use assms(2) in \<open>simp add: boot_processes_def\<close>)

lemmas spawn_steps = prod.case Let_def if_True if_False bind_map_option comp_def case_prod_beta fst_conv snd_conv Option.bind.simps

lemma single_ok:
  assumes "booting cfg k0 [] k" "kc_single_foreground cfg"
  shows "\<exists>k'. kernel_spawn_single_foreground_demo cfg k = Some k' \<and> booting cfg k0 (boot_processes cfg) k' \<and>
    kn_second_foreground_rejected k' \<and> kn_service_pid k' = 6"
proof (cases "kc_enable_fs_stress cfg")
  case True
  show ?thesis
    unfolding kernel_spawn_single_foreground_demo_def
    apply (rule booting_spawn [OF assms(1)], (simp add: MAX_PROCESSES_def; fail), simp, simp only: spawn_steps True)
    apply (rule booting_refused [OF _ _ assms(2)], assumption, (simp add: MAX_PROCESSES_def; fail), (simp; fail), simp only: spawn_steps True)
    apply (rule booting_spawn, (simp only: booting_globals; fail), (simp add: MAX_PROCESSES_def; fail), (simp; fail), simp only: spawn_steps True)+
    using True assms(2) apply (simp add: boot_processes_def)
    done
next
  case False
  show ?thesis
    unfolding kernel_spawn_single_foreground_demo_def
    apply (rule booting_spawn [OF assms(1)], (simp add: MAX_PROCESSES_def; fail), simp, simp only: spawn_steps False)
    apply (rule booting_refused [OF _ _ assms(2)], assumption, (simp add: MAX_PROCESSES_def; fail), (simp; fail), simp only: spawn_steps False)
    apply (rule booting_spawn, (simp only: booting_globals; fail), (simp add: MAX_PROCESSES_def; fail), (simp; fail), simp only: spawn_steps False)+
    using False assms(2) apply (simp add: boot_processes_def)
    done
qed

section \<open>The system starts\<close>

text \<open>The memory at reset: no process, an unused heap, and the arrays of the display.\<close>

definition at_reset :: "'p kernel_globals \<Rightarrow> bool" where
  "at_reset k \<longleftrightarrow> kn_sync k = ksync_boot \<and> demo_boot (kn_display k)"

lemma catalog_ok: "runtime_loader_validate_catalog (Some g_runtime_loader_catalog) (length g_runtime_loader_catalog) \<noteq> 0"
  by code_simp

lemma init_globals_simps [simp]:
  "kn_sync (init_globals k) = kn_sync k" "kn_display (init_globals k) = kn_display k" "objects_ready (init_globals k) = objects_ready k"
  by (simp_all add: init_globals_def objects_ready_def)

lemma objects_ready_display [simp]: "objects_ready (k\<lparr>kn_display := d\<rparr>) = objects_ready k"
  by (simp add: objects_ready_def)

lemma spawns_ok:
  assumes "booting cfg k0 [] k"
  shows "\<exists>k'. (if kc_single_foreground cfg then kernel_spawn_single_foreground_demo cfg k else kernel_spawn_multiprocess_demo cfg k) = Some k' \<and>
    booting cfg k0 (boot_processes cfg) k' \<and> (kc_single_foreground cfg \<longrightarrow> kn_second_foreground_rejected k')"
  using single_ok [OF assms] multi_ok [OF assms] by auto

lemma boot_processes_first: "boot_processes cfg \<noteq> []" "fst (snd (boot_processes cfg ! 0)) = kc_code cfg task_a"
  by (simp_all add: boot_processes_def)

lemma filter_prefix: "(\<And>i. i < length xs \<Longrightarrow> P (xs ! i) \<longleftrightarrow> i < n) \<Longrightarrow> filter P xs = take n xs"
proof (induction xs arbitrary: n)
  case (Cons x xs)
  have "P x \<longleftrightarrow> 0 < n"
    using Cons.prems [of 0] by simp
  moreover have "filter P xs = take (n - 1) xs"
    by (rule Cons.IH) (use Cons.prems [of "Suc _"] in auto)
  ultimately show ?case
    by (cases n) auto
qed simp

lemma table_names:
  assumes "length tab = MAX_PROCESSES" "length ps \<le> MAX_PROCESSES" "0 < length ps"
    and "\<forall>i < MAX_PROCESSES. ps_state (tab ! i) = (if i = 0 then PROCESS_STATE_RUNNING else if i < length ps then PROCESS_STATE_READY else PROCESS_STATE_UNUSED) \<and>
      (i < length ps \<longrightarrow> ps_pid (tab ! i) = of_nat (Suc i) \<and> ps_name (tab ! i) = Some (fst (ps ! i)))"
  shows "map ps_name (filter (\<lambda>p. ps_state p \<noteq> PROCESS_STATE_UNUSED) tab) = map (Some \<circ> fst) ps"
proof -
  have "filter (\<lambda>p. ps_state p \<noteq> PROCESS_STATE_UNUSED) tab = take (length ps) tab"
    using assms by (intro filter_prefix) (auto split: if_splits)
  then show ?thesis
    using assms by (auto intro!: nth_equalityI)
qed

text \<open>C40: The kernel starts. From the memory at reset, in every build and whether or not a timer tick is pending, with stacks in memory,
  \<open>kernel_main\<close> does not halt: the loader catalog is valid, the heap has room for all seven objects and they are valid, the
  processes of the configuration are in the table with the process numbers from 1 on, the second foreground application is
  refused where only one is allowed, and the scheduler starts the first process at its entry point \<open>task_a\<close>, in a state that
  satisfies the invariant of the scheduler.\<close>

theorem kernel_starts:
  assumes "at_reset k" and "scheduler_stack_pointer_in_range (stack_of (kc_stacks cfg) 0)" "scheduler_stack_pointer_is_aligned (stack_of (kc_stacks cfg) 0)"
  shows "\<exists>k' s. kernel_main cfg k = Some (Started k') \<and> objects_ready k' \<and> ks_sched (kn_sync k') = s \<and> sched_inv s \<and>
    g_current_process_index s = Some 0 \<and> scheduler_task_bootstrap s = Inr (kc_code cfg task_a) \<and>
    map ps_name (filter (\<lambda>p. ps_state p \<noteq> PROCESS_STATE_UNUSED) (g_processes s)) = map (Some \<circ> fst) (boot_processes cfg) \<and>
    (\<forall>i < length (boot_processes cfg). ps_pid (g_processes s ! i) = of_nat (Suc i)) \<and>
    (kc_single_foreground cfg \<longrightarrow> kn_second_foreground_rejected k')"
proof -
  let ?sched = "scheduler_init\<lparr>g_scheduler_preempt_state := scheduler_preempt_init\<rparr>"
  let ?k0 = "k\<lparr>kn_sync := ksync_boot\<lparr>ks_sched := ?sched\<rparr>\<rparr>"
  have "heap_at 0 (KMEM_ARENA_SIZE - kmem_block_sizeof) (kn_sync ?k0)"
    using heap_at_boot by simp
  from create_objects_ok [OF this] obtain k1 where k1: "create_objects ?k0 = Some k1" "\<not> objects_missing k1" "objects_ready k1"
    "ks_sched (kn_sync k1) = ?sched" "kn_display k1 = kn_display k"
    by (auto simp: KMEM_ARENA_SIZE_def kmem_block_sizeof_def)
  obtain d where d: "runtime_display_demo_init (kc_display_layout cfg) (kc_panel cfg) (kn_display k) = Some d"
    using init_ok assms(1) unfolding at_reset_def by blast
  define k2 where "k2 = (if \<not> env_preemptive (kc_yield cfg) then (init_globals k1)\<lparr>kn_display := d\<rparr> else init_globals k1)"
  have "booting cfg k2 [] k2"
    using k1(4) spawned_init by (simp add: booting_def k2_def)
  from spawns_ok [OF this] obtain k3 where
    k3: "(if kc_single_foreground cfg then kernel_spawn_single_foreground_demo cfg k2 else kernel_spawn_multiprocess_demo cfg k2) = Some k3"
      "booting cfg k2 (boot_processes cfg) k3" "kc_single_foreground cfg \<longrightarrow> kn_second_foreground_rejected k3"
    by blast
  have "objects_ready k2"
    using k1(3) by (simp add: k2_def)
  then have sp: "spawned (kc_stacks cfg) (boot_processes cfg) (ks_sched (kn_sync k3))" and ready: "objects_ready k3"
    using k3(2) by (simp_all add: booting_def)
  from spawned_run [OF sp boot_processes_first(1) assms(2,3)] obtain s where
    s: "scheduler_run (kc_yield cfg) (ks_sched (kn_sync k3)) = Some (Switched s)" "sched_inv s" "g_current_process_index s = Some 0"
      "scheduler_task_bootstrap s = Inr (kc_code cfg task_a)"
      "\<forall>i < MAX_PROCESSES. ps_state (g_processes s ! i) = (if i = 0 then PROCESS_STATE_RUNNING else if i < length (boot_processes cfg) then PROCESS_STATE_READY else PROCESS_STATE_UNUSED) \<and>
        (i < length (boot_processes cfg) \<longrightarrow> ps_pid (g_processes s ! i) = of_nat (Suc i) \<and> ps_name (g_processes s ! i) = Some (fst (boot_processes cfg ! i)))"
    unfolding boot_processes_first(2) by blast
  have len: "length (g_processes s) = MAX_PROCESSES" "length (boot_processes cfg) \<le> MAX_PROCESSES" "0 < length (boot_processes cfg)"
    using s(2) sp boot_processes_first(1) by (simp_all add: sched_inv_def sched_shape_def spawned_def)
  have k0: "k\<lparr>kn_sync := (kn_sync k)\<lparr>ks_sched := (ks_sched (kn_sync k))\<lparr>g_scheduler_preempt_state := scheduler_preempt_init\<rparr>\<rparr>\<rparr> = ?k0"
    using assms(1) by (simp add: at_reset_def ksync_boot_def)
  have k2: "(if \<not> env_preemptive (kc_yield cfg)
    then map_option (\<lambda>d. (init_globals k1)\<lparr>kn_display := d\<rparr>) (runtime_display_demo_init (kc_display_layout cfg) (kc_panel cfg) (kn_display (init_globals k1)))
    else Some (init_globals k1)) = Some k2"
    using d by (simp add: k2_def k1(5))
  have "kernel_main cfg k = Some (Started (k3\<lparr>kn_sync := (kn_sync k3)\<lparr>ks_sched := s\<rparr>\<rparr>))"
    by (simp only: kernel_main_def k0 Let_def catalog_ok if_False k1(1,2) Option.bind.simps k2 k3(1) s(1) outcome.case)
  moreover have "\<forall>i < length (boot_processes cfg). ps_pid (g_processes s ! i) = of_nat (Suc i)"
    using s(5) len(2) by auto
  moreover have "objects_ready (k3\<lparr>kn_sync := (kn_sync k3)\<lparr>ks_sched := s\<rparr>\<rparr>)"
    using ready by (simp add: objects_ready_def)
  ultimately show ?thesis
    using s(2-4) k3(3) table_names [OF len s(5)] by (intro exI [of _ "k3\<lparr>kn_sync := (kn_sync k3)\<lparr>ks_sched := s\<rparr>\<rparr>"] exI [of _ s]) simp
qed

definition demo_globals :: "unit kernel_globals" where
  "demo_globals = \<lparr>kn_sync = ksync_boot, kn_worker_event = None, kn_worker_mailbox = None, kn_service_request_event = None,
     kn_service_request_mailbox = None, kn_service_reply_mailbox = None, kn_service_reply_semaphore = None, kn_service_state_mutex = None,
     kn_management_state = g_runtime_management_state demo_manage_context,
     kn_service_state = \<lparr>sd_request_count = 0, sd_response_count = 0, sd_total_processed = 0, sd_last_request = 0, sd_last_response = 0,
       sd_next_client_request = 0, sd_last_client_tick = 0\<rparr>,
     kn_service_sessions = [], kn_fs_stress_state = demo_test, kn_line_state = \<lparr>ls_buffer = replicate 64 NUL, ls_length = 0\<rparr>,
     kn_display = demo_display, kn_blocked_pid = 0, kn_event_waiter_pid = 0, kn_mailbox_receiver_pid = 0, kn_service_pid = 0,
     kn_fs_stress_pid = 0, kn_second_foreground_rejected = False\<rparr>"

definition demo_config :: "unit kernel_config" where
  "demo_config = \<lparr>kc_single_foreground = True, kc_enable_fs_stress = False, kc_stacks = 0x3FC90000, kc_code = (\<lambda>_. 0x42000000),
     kc_fs_stress_code = 0x42000000, kc_display_layout = 2, kc_panel = demo_panel, kc_yield = demo_yield_env\<rparr>"

theorem kernel_starts_witness:
  "\<exists>k'. kernel_main demo_config demo_globals = Some (Started k') \<and> objects_ready k' \<and> kn_second_foreground_rejected k'"
proof -
  have "at_reset demo_globals"
    by (simp add: at_reset_def demo_globals_def demo_boot_display)
  moreover have "scheduler_stack_pointer_in_range (stack_of (kc_stacks demo_config) 0)" "scheduler_stack_pointer_is_aligned (stack_of (kc_stacks demo_config) 0)"
    by (simp_all add: demo_config_def stack_of_def PROCESS_STACK_WORDS_def PROCESS_CONTEXT_WORDS_def scheduler_stack_pointer_in_range_def
        scheduler_stack_pointer_is_aligned_def DRAM_LOW_def DRAM_HIGH_def)
  moreover have "kc_single_foreground demo_config"
    by (simp add: demo_config_def)
  ultimately show ?thesis
    using kernel_starts [of demo_globals demo_config] by blast
qed

end
