(* ===== verification/Spec2Isabelle.thy ===== *)
theory Spec2Isabelle
  imports Preempt Runtime_Ui_Props Kernel_Boot
begin

text \<open>
  A verification development of the TensorOS kernel, the C program under \<open>src/kernel\<close>.

  \<^bold>\<open>The program.\<close> TensorOS is a small kernel for one processor. Processes live in a table of ten slots
  (\<open>process_core.c\<close>, with the policy of \<open>runtime_policy.c\<close> on which roles may be started). The scheduler (\<open>scheduler.c\<close>) runs the
  ready process with the least virtual run time, which it finds in a red-black tree threaded through arrays; a timer tick or a
  safe point may preempt the running process unless preemption is disabled (\<open>preempt.c\<close>). Objects on the kernel heap
  (\<open>kmem.c\<close>) synchronise processes: wait queues, events, semaphores, mutexes and mailboxes block the running process on a
  channel, the address of a queue, and wake the processes of a channel. Applications reach the kernel by system calls
  (\<open>runtime_syscall.c\<close>) on handles; the table of operations behind the calls is filled by \<open>kernel.c\<close> with the file system
  (\<open>runtime_fs.c\<close>), the service sessions (\<open>runtime_service.c\<close>) and the catalogs of processes and applications. The file system
  can be saved as a byte image and restored (\<open>runtime_fs_image.c\<close>). An operator types commands at the management console
  (\<open>runtime_manage.c\<close>), whose operations \<open>kernel.c\<close> provides too. The display is a double-buffered surface
  (\<open>display_surface.c\<close>, \<open>runtime_display_demo.c\<close>), and events and timers of the user interface are queued by \<open>runtime_ui.c\<close>.

  \<^bold>\<open>Conventions.\<close> \<open>Tensor_Prelude\<close> has the vocabulary. C integers are words of their width (\<open>u8\<close>, \<open>u16\<close>, \<open>u32\<close>, \<open>u64\<close>) where they can
  wrap around, and \<open>int\<close> or \<open>nat\<close> where the code keeps them in range or the model writes the reduction out. A pointer that may be
  null is an option type (\<open>ptr\<close>), a C string a list of characters that ends at the first zero (\<open>cstr\<close>). A structure is a record
  whose fields have the names of the source with a prefix, an array a list or a function of the index. An operation returns the
  status codes of the source; it is of an option type where an access can leave an array, a signed addition overflow or a loop not
  end, and \<open>None\<close> is then exactly that: undefined behaviour or no result. Theorems on such operations state that the
  result is \<open>Some\<close>. A loop that may run forever on damaged data is a partial function of such a type; only the
  idle loop, which waits for interrupts, has a number of them as its bound, and the theorem on it shows that the distance to the
  next wake-up is enough. Function pointers, the build switches and hardware (the clock, the uart, the panel) are parameters. A call that
  blocks is cut where the processor is given up: the part before the switch and the part after it are two operations, between
  which other processes may do anything. Messages on the console are left out, except at the management console, and so are
  diagnostic globals and the registers that record how far the program came.

  \<^bold>\<open>Theories and what they show.\<close>

  \<^item> \<open>Process_Core\<close>: the process table and the policy. The locale \<open>table_wake\<close> is the contract of the four wake-up functions.
  \<^item> \<open>Ready_Queue\<close>: the arrays of the red-black tree with rotations, insertion, removal and fix-ups. \<open>Ready_Queue_Tree\<close> relates
    them to a tree seen from a position in it; \<open>Ready_Queue_Inv\<close> and \<open>Ready_Queue_Remove\<close> show, for every strict order (locale
    \<open>rq_order\<close>), that insertion and removal terminate, stay in the arrays, keep the links, the cached leftmost node and a black
    root and are insertion into and removal from a sorted list. The colours of the other nodes, and so the height of the tree, are
    computed by the model but nothing is proved of them. The walks up and down the tree are partial functions, and that they return
    is part of the theorems.
  \<^item> \<open>Scheduler\<close>: the operations of \<open>scheduler.c\<close> on the table, the queue and the current process. \<open>Scheduler_Inv\<close> has the
    invariant, \<open>Scheduler_Run\<close> the transition system of calls, ticks and idle wake-ups, \<open>Scheduler_Props\<close> the theorems: the choice of
    the next process, the process table, reaping, the end of the idle loop. A blocking call that is woken at once returns to its
    caller with the running process still in the ready queue; these states are reachable, and the invariant says what they look
    like until the queue is next brought up to date.
  \<^item> \<open>Preempt\<close>: the disable depth and the deferred preemption; critical sections nest, and the outermost one takes a pending
    preemption.
  \<^item> \<open>Kmem\<close>, \<open>Kmem_Inv\<close>, \<open>Kmem_Props\<close>: the heap as blocks that tile the arena; first fit, disjointness, coalescing, and the
    locale \<open>allocator\<close> with the heap as its instance.
  \<^item> \<open>Sync\<close>: the five kinds of objects on heap and scheduler. \<open>Sync_Waits\<close> describes who waits on a channel, \<open>Sync_Protocol\<close>
    is the contract \<open>waiting_object\<close> and the proof that no wake-up is lost in any interleaving; \<open>Sync_Props\<close> and \<open>Sync_Objects\<close>
    instantiate it with semaphore and mutex and treat exclusion, events and mailboxes, \<open>Sync_Heap\<close> construction and destruction.
  \<^item> \<open>Runtime_Fs\<close>: the file system. \<open>Runtime_Fs_Inv\<close> states consistency without the loops of the validation and shows that the
    validation decides it; \<open>Runtime_Fs_Ops\<close> that every operation keeps it, but for a remove or rename that names the root by a path
    other than one slash, and what the operations do to paths and bytes; \<open>Runtime_Fs_Files\<close> treats open files as byte strings
    with a position. The walk of a rename up the parents is a partial function and is shown to end.
  \<^item> \<open>Runtime_Fs_Image\<close>: the image. \<open>Runtime_Fs_Image_Bytes\<close> shows what the export writes, \<open>Runtime_Fs_Image_Valid\<close> that
    the validation accepts it, \<open>Runtime_Fs_Image_Props\<close> that the import restores every reachable file system whose root is in order.
  \<^item> \<open>Runtime_Syscall\<close>: the handle table and all calls of the dispatcher. \<open>Runtime_Syscall_Spec\<close> is a transition system of handles,
    \<open>Runtime_Syscall_Refine\<close> and \<open>Runtime_Syscall_Props\<close> show that every call implements a step of it and that processes cannot reach
    each other's handles; \<open>Runtime_Syscall_Objects\<close> has the contract \<open>object_lifetime\<close> under which handles never dangle.
  \<^item> \<open>Runtime_Service\<close>, \<open>Runtime_Catalog\<close>: sessions as a finite map; catalogs, resource paths and the search of commands.
  \<^item> \<open>Kernel_Ops\<close>: the catalogs of \<open>kernel.c\<close> and the operations it puts behind the system calls; file handles never dangle.
  \<^item> \<open>Runtime_Manage\<close>, \<open>Runtime_Manage_Props\<close>: the console; numbers are read back as printed, the line editor implements editing a
    string. \<open>Kernel_Manage\<close>: the operations that \<open>kernel.c\<close> puts behind it, and the way of a command from the uart to the scheduler.
  \<^item> \<open>Runtime_Ui\<close>, \<open>Runtime_Ui_Props\<close>: the event ring as an instance of the locale \<open>bounded_queue\<close>, the timer table as a finite map,
    the delivery of due timers, the input and the display service.
  \<^item> \<open>Display_Surface\<close>, \<open>Display_Surface_Props\<close>: clipping, drawing and the damaged rectangle. \<open>Display_Demo\<close>: text, the font, the start
    picture and presenting; no access leaves a buffer, as long as the edges of the rectangles that are drawn fit into 32 bits and
    the pictures that are copied are as large as the call says.
  \<^item> \<open>Kernel_Fs_Test\<close>: the self test of the file system in \<open>kernel.c\<close>, from clearing the memory in chunks to restoring a
    checkpoint. The test passes, and its probe accepts exactly the consistent file systems without open files.
  \<^item> \<open>Kernel_Boot\<close>: \<open>kernel_main\<close> with the objects, globals and processes it makes; composed of the heap, the synchronisation objects, the
    display, the policy and the scheduler, the kernel starts its first process from the memory at reset.

  Some theories end with a run that shows where the code does not do what it means to, such as an offset that wraps around, an
  object that leaks or a process that is never run.

  \<^bold>\<open>Not modelled.\<close> The drivers, the start-up code, the trap entry and the board support access hardware registers or are
  assembler; their effect on the kernel is a parameter (the clock, the characters of the uart, the panel) or a step of
  the scheduler (the tick, the saved stack pointer of a switch). Of \<open>kernel.c\<close>, the bodies of the other demo processes,
  endless loops that only exercise what is modelled, their scripted profile, the service round trip between two of them and
  \<open>runtime_fs_stress_round\<close> with its helpers, which nothing calls, are left out. The operations behind the function pointers that
  \<open>kernel.c\<close> leaves null are parameters of the system calls.
\<close>

end
